(* ===== verification/Mulle_Prelude.thy ===== *)
theory Mulle_Prelude
  imports Main "HOL-Library.Word" "HOL-Library.Monad_Syntax"
begin

text \<open>
  Shared vocabulary of the development: the machine integers of the LP64 targets the
  runtime is built for, the \<open>errno\<close> values its functions set, the ways a C execution can
  go wrong (each a value, never an unspecified result), and the list lemmas that the
  table and cache theories share.
\<close>

unbundle bit_operations_syntax

section \<open>Machine integers\<close>

type_synonym uint16 = "16 word"
type_synonym uint32 = "32 word"
type_synonym uint64 = "64 word"

text \<open>On LP64 \<open>uintptr_t\<close>, \<open>intptr_t\<close> and \<open>void *\<close> have 64 bits; \<open>intptr_t\<close> values are
  read with \<^const>\<open>sint\<close>.\<close>

type_synonym uintptr = "64 word"

abbreviation INT_MAX :: int where
  "INT_MAX \<equiv> 2147483647"

abbreviation INT_MIN :: int where
  "INT_MIN \<equiv> - 2147483648"

section \<open>Errors and faults\<close>

text \<open>The \<open>errno\<close> values the modelled functions assign.\<close>

datatype errno = EINVAL | ENOENT | EEXIST | ECANCELED | ENOMEM | EFAULT | ECHILD | EDOM | EOTHER nat

text \<open>
  What C leaves undefined, what an \<open>assert\<close> rejects, and an \<open>abort\<close>: a model function
  that could meet one of them returns a \<open>c_result\<close>.
\<close>

datatype c_fault =
    Signed_Overflow
  | Out_Of_Bounds
  | Assertion
  | Aborted
  | Use_After_Free
  | Null_Dereference
  | Uninitialized

type_synonym 'a c_result = "c_fault + 'a"

definition c_bind :: "'a c_result \<Rightarrow> ('a \<Rightarrow> 'b c_result) \<Rightarrow> 'b c_result" where
  "c_bind m f = (case m of Inl e \<Rightarrow> Inl e | Inr x \<Rightarrow> f x)"

lemma c_bind_simps [simp]:
  "c_bind (Inl e) f = Inl e"
  "c_bind (Inr x) f = f x"
  by (simp_all add: c_bind_def)

lemma c_bind_Inr_iff:
  "c_bind m f = Inr y \<longleftrightarrow> (\<exists>x. m = Inr x \<and> f x = Inr y)"
  by (cases m) auto

lemma c_bind_assoc [simp]:
  "c_bind (c_bind m f) g = c_bind m (\<lambda>x. c_bind (f x) g)"
  by (cases m) auto

lemma c_bind_cong [fundef_cong]:
  "m = m' \<Longrightarrow> (\<And>x. m' = Inr x \<Longrightarrow> f x = g x) \<Longrightarrow> c_bind m f = c_bind m' g"
  by (cases m') auto

text \<open>
  A loop that may spin forever: \<open>None\<close> is "never returns", \<open>Some (Inl e)\<close> a fault,
  \<open>Some (Inr x)\<close> a returned value.
\<close>

type_synonym 'a c_run = "'a c_result option"

definition run_bind :: "'a c_run \<Rightarrow> ('a \<Rightarrow> 'b c_run) \<Rightarrow> 'b c_run" where
  "run_bind m f = (case m of None \<Rightarrow> None | Some (Inl e) \<Rightarrow> Some (Inl e) | Some (Inr x) \<Rightarrow> f x)"

lemma run_bind_simps [simp]:
  "run_bind None f = None"
  "run_bind (Some (Inl e)) f = Some (Inl e)"
  "run_bind (Some (Inr x)) f = f x"
  by (simp_all add: run_bind_def)

abbreviation run_return :: "'a \<Rightarrow> 'a c_run" where
  "run_return x \<equiv> Some (Inr x)"

abbreviation run_fault :: "c_fault \<Rightarrow> 'a c_run" where
  "run_fault e \<equiv> Some (Inl e)"

definition c_assert :: "bool \<Rightarrow> 'a c_run \<Rightarrow> 'a c_run" where
  "c_assert b m = (if b then m else run_fault Assertion)"

lemma c_assert_simps [simp]: "c_assert True m = m" "c_assert False m = run_fault Assertion"
  by (simp_all add: c_assert_def)

text \<open>Signed addition of C's \<open>int\<close>: overflow is undefined behaviour, so it is a fault.\<close>

definition c_int_add :: "int \<Rightarrow> int \<Rightarrow> int c_result" where
  "c_int_add a b = (if INT_MIN \<le> a + b \<and> a + b \<le> INT_MAX then Inr (a + b) else Inl Signed_Overflow)"

text \<open>C's division of an \<open>int\<close> by two truncates towards zero.\<close>

definition c_half :: "int \<Rightarrow> int" where
  "c_half a = (if 0 \<le> a then a div 2 else - ((- a) div 2))"

lemma c_half_nonneg [simp]: "0 \<le> a \<Longrightarrow> c_half a = a div 2"
  by (simp add: c_half_def)

text \<open>Reading an array element; \<open>xs ! i\<close> outside the list says nothing in HOL, C reads out of bounds.\<close>

definition c_read :: "'a list \<Rightarrow> int \<Rightarrow> 'a c_result" where
  "c_read xs i = (if 0 \<le> i \<and> i < int (length xs) then Inr (xs ! nat i) else Inl Out_Of_Bounds)"

lemma c_read_Inr [simp]:
  "0 \<le> i \<Longrightarrow> i < int (length xs) \<Longrightarrow> c_read xs i = Inr (xs ! nat i)"
  by (simp add: c_read_def)

section \<open>C strings\<close>

text \<open>
  A C string is the list of its characters without the terminator; \<open>c_peek\<close> is \<open>*s\<close>,
  the terminator at the end. \<open>c_strcmp\<close> compares bytes as \<open>unsigned char\<close>, \<open>c_strchr\<close>
  also finds the terminator, as the C functions do.
\<close>

definition NUL :: char where
  "NUL = CHR 0x00"

definition c_peek :: "string \<Rightarrow> char" where
  "c_peek s = (case s of [] \<Rightarrow> NUL | c # _ \<Rightarrow> c)"

lemma c_peek_simps [simp]: "c_peek [] = NUL" "c_peek (c # s) = c"
  by (simp_all add: c_peek_def)

definition c_string :: "string \<Rightarrow> bool" where
  "c_string s \<longleftrightarrow> NUL \<notin> set s"

fun c_strcmp :: "string \<Rightarrow> string \<Rightarrow> int" where
  "c_strcmp [] [] = 0"
| "c_strcmp [] (d # t) = - 1"
| "c_strcmp (c # s) [] = 1"
| "c_strcmp (c # s) (d # t) =
     (if c = d then c_strcmp s t
      else if (of_char c :: nat) < of_char d then - 1 else 1)"

lemma c_strcmp_eq_0 [simp]: "c_strcmp s t = 0 \<longleftrightarrow> s = t"
  by (induction s t rule: c_strcmp.induct) auto

lemma c_strcmp_antisym: "c_strcmp t s = - c_strcmp s t"
proof (induction s t rule: c_strcmp.induct)
  case (4 c s d t)
  then show ?case
    using linorder_less_linear [of "of_char c :: nat" "of_char d"] by auto
qed auto

definition c_strchr :: "string \<Rightarrow> char \<Rightarrow> bool" where
  "c_strchr s c \<longleftrightarrow> c \<in> set s \<or> c = NUL"

section \<open>Collections and shared lemmas\<close>

named_theorems c_defs "definitions of small accessors that proofs unfold together"

lemma list_find_index:
  "(\<exists>x\<in>set xs. P x) \<longleftrightarrow> (\<exists>i<length xs. P (xs ! i))"
  by (metis in_set_conv_nth)

lemma sorted_map_nth_le:
  "sorted (map f xs) \<Longrightarrow> i \<le> j \<Longrightarrow> j < length xs \<Longrightarrow> f (xs ! i) \<le> f (xs ! j)"
  using sorted_nth_mono [of "map f xs" i j] by simp

lemma inj_on_set_sorted_distinct:
  "distinct (map f xs) \<Longrightarrow> i < length xs \<Longrightarrow> j < length xs \<Longrightarrow>
    f (xs ! i) = f (xs ! j) \<longleftrightarrow> i = j"
  using nth_eq_iff_index_eq [of "map f xs" i j] by simp

end
