(* ===== verification/Tagged_Pointer.thy ===== *)
theory Tagged_Pointer
  imports Mulle_Prelude
begin

text \<open>
  Tagged pointers (\<open>mulle-objc-taggedpointer.h\<close>): small values kept in the pointer itself, the
  low three bits holding the index of a class. The target is LP64 (three unused bits); the
  32 bit branch of the float code is modelled beside it. A \<open>double\<close> or \<open>float\<close> is its IEEE
  bit pattern, which is what the code's unions access. Left shifts of negative values wrap.
\<close>

definition c_check :: "bool \<Rightarrow> 'a \<Rightarrow> 'a c_result" where
  "c_check b x = (if b then Inr x else Inl Assertion)"

section \<open>Integers\<close>

definition mulle_objc_get_taggedpointer_mask :: uintptr where
  [c_defs]: "mulle_objc_get_taggedpointer_mask = 0x7"

definition mulle_objc_get_taggedpointer_shift :: nat where
  [c_defs]: "mulle_objc_get_taggedpointer_shift = 3"

definition mulle_objc_taggedpointer_get_index :: "uintptr \<Rightarrow> uintptr" where
  "mulle_objc_taggedpointer_get_index pointer = pointer AND mulle_objc_get_taggedpointer_mask"

definition tagged_index_ok :: "uintptr \<Rightarrow> bool" where
  "tagged_index_ok index \<longleftrightarrow> index > 0 \<and> index \<le> mulle_objc_get_taggedpointer_mask"

definition mulle_objc_taggedpointer_unsignedlostbitsmask :: uintptr where
  "mulle_objc_taggedpointer_unsignedlostbitsmask = NOT (drop_bit mulle_objc_get_taggedpointer_shift (- 1))"

definition mulle_objc_taggedpointer_is_valid_unsigned_value :: "uintptr \<Rightarrow> bool" where
  "mulle_objc_taggedpointer_is_valid_unsigned_value v \<longleftrightarrow>
     \<not> (v AND mulle_objc_taggedpointer_unsignedlostbitsmask \<noteq> 0)"

definition mulle_objc_create_unsigned_taggedpointer :: "uintptr \<Rightarrow> uintptr \<Rightarrow> uintptr c_result" where
  "mulle_objc_create_unsigned_taggedpointer v index =
     c_check (tagged_index_ok index \<and> mulle_objc_taggedpointer_is_valid_unsigned_value v)
       (push_bit mulle_objc_get_taggedpointer_shift v OR index)"

definition mulle_objc_taggedpointer_get_unsigned_value :: "uintptr \<Rightarrow> uintptr c_result" where
  "mulle_objc_taggedpointer_get_unsigned_value pointer =
     c_check (pointer AND mulle_objc_get_taggedpointer_mask \<noteq> 0)
       (drop_bit mulle_objc_get_taggedpointer_shift pointer)"

definition mulle_objc_taggedpointer_signedlostbitsmask :: uintptr where
  "mulle_objc_taggedpointer_signedlostbitsmask = NOT (drop_bit (mulle_objc_get_taggedpointer_shift + 1) (- 1))"

definition mulle_objc_taggedpointer_is_valid_signed_value :: "uintptr \<Rightarrow> bool" where
  "mulle_objc_taggedpointer_is_valid_signed_value v \<longleftrightarrow>
     (let bits = v AND mulle_objc_taggedpointer_signedlostbitsmask
      in bits = 0 \<or> bits = mulle_objc_taggedpointer_signedlostbitsmask)"

definition mulle_objc_create_signed_taggedpointer :: "uintptr \<Rightarrow> uintptr \<Rightarrow> uintptr c_result" where
  "mulle_objc_create_signed_taggedpointer v index =
     c_check (tagged_index_ok index \<and> mulle_objc_taggedpointer_is_valid_signed_value v)
       (push_bit mulle_objc_get_taggedpointer_shift v OR index)"

text \<open>The right shift of a signed value is the arithmetic one.\<close>

definition mulle_objc_taggedpointer_get_signed_value :: "uintptr \<Rightarrow> uintptr c_result" where
  "mulle_objc_taggedpointer_get_signed_value pointer =
     c_check (pointer AND mulle_objc_get_taggedpointer_mask \<noteq> 0)
       (signed_drop_bit mulle_objc_get_taggedpointer_shift pointer)"

section \<open>Floating point\<close>

definition mulle_objc_taggedpointer_is_valid_double_value :: "uint64 \<Rightarrow> bool" where
  "mulle_objc_taggedpointer_is_valid_double_value d =
     (let bits = drop_bit (52 + 7) d AND 0xF in bits = 0x8 \<or> bits = 0x7)"

definition mulle_objc_create_double_taggedpointer :: "uint64 \<Rightarrow> uintptr \<Rightarrow> uintptr c_result" where
  "mulle_objc_create_double_taggedpointer d index =
     (let bits = push_bit 5 d OR drop_bit (64 - 5) d
      in c_check (tagged_index_ok index) ((bits AND NOT 0x7) OR index))"

definition mulle_objc_taggedpointer_get_double_value :: "uintptr \<Rightarrow> uint64" where
  "mulle_objc_taggedpointer_get_double_value pointer =
     (let bits = (if pointer AND 0x8 = 0 then pointer OR 0x7 else pointer AND NOT 0x7)
      in drop_bit 5 bits OR push_bit (64 - 5) bits)"

definition mulle_objc_taggedpointer_is_valid_float_value :: "uint32 \<Rightarrow> bool" where
  "mulle_objc_taggedpointer_is_valid_float_value f = True"

definition mulle_objc_create_float_taggedpointer :: "uint32 \<Rightarrow> uintptr \<Rightarrow> uintptr c_result" where
  "mulle_objc_create_float_taggedpointer f index =
     c_check (tagged_index_ok index) (push_bit 3 (ucast f) OR index)"

definition mulle_objc_taggedpointer_get_float_value :: "uintptr \<Rightarrow> uint32 c_result" where
  "mulle_objc_taggedpointer_get_float_value pointer =
     c_check (pointer AND mulle_objc_get_taggedpointer_mask \<noteq> 0) (ucast (drop_bit 3 pointer))"

text \<open>The branch for targets with 32 bit pointers, where two bits are unused.\<close>

definition is_valid_float_value_32 :: "uint32 \<Rightarrow> bool" where
  "is_valid_float_value_32 f = (let bits = drop_bit (23 + 5) f AND 0x7 in bits = 0x4 \<or> bits = 0x3)"

definition create_float_taggedpointer_32 :: "uint32 \<Rightarrow> uint32 \<Rightarrow> uint32 c_result" where
  "create_float_taggedpointer_32 f index =
     (let bits = push_bit 4 f OR drop_bit (32 - 4) f
      in c_check (index > 0 \<and> index \<le> 0x3) ((bits AND NOT 0x3) OR index))"

definition taggedpointer_get_float_value_32 :: "uint32 \<Rightarrow> uint32" where
  "taggedpointer_get_float_value_32 pointer =
     (let bits = (if pointer AND 0x4 = 0 then pointer OR 0x3 else pointer AND NOT 0x3)
      in drop_bit 4 bits OR push_bit (32 - 4) bits)"

section \<open>Bits\<close>

lemma tag_masks:
  "(0x7 :: 'a::len word) = mask 3" "(0x3 :: 'a::len word) = mask 2" "(0xF :: 'a::len word) = mask 4"
  by (simp_all add: mask_eq_exp_minus_1)

lemma tag_bits: "(8 :: 'a::len word) = push_bit 3 1" "(4 :: 'a::len word) = push_bit 2 1"
  by simp_all

lemma bit_le_unat_general: "bit (w :: 'a::len word) m \<Longrightarrow> 2 ^ m \<le> unat w"
proof -
  assume "bit w m"
  then have "odd (unat w div 2 ^ m)" by (simp add: bit_unsigned_iff flip: bit_iff_odd)
  then show ?thesis by (metis div_less even_zero not_le)
qed

lemma tag_index_bit: "tagged_index_ok index \<Longrightarrow> bit index n \<Longrightarrow> n < 3"
proof (rule ccontr)
  assume ok: "tagged_index_ok index" and b: "bit index n" and "\<not> n < 3"
  then have "(2::nat) ^ 3 \<le> 2 ^ n" by (intro power_increasing) auto
  then show False using bit_le_unat_general [OF b] ok
    by (simp add: tagged_index_ok_def c_defs word_le_nat_alt)
qed

text \<open>A shifted value with an index in its low bits.\<close>

lemma tag_of_shifted:
  assumes "tagged_index_ok index"
  shows "(push_bit 3 v OR index) AND mulle_objc_get_taggedpointer_mask = index"
    and "(w AND NOT 7 OR index) AND mulle_objc_get_taggedpointer_mask = index"
    and "index \<noteq> 0"
proof -
  note low = tag_index_bit [OF assms]
  show "(push_bit 3 v OR index) AND mulle_objc_get_taggedpointer_mask = index"
    unfolding c_defs tag_masks by (rule bit_word_eqI) (use low in \<open>auto simp: bit_simps\<close>)
  show "(w AND NOT 7 OR index) AND mulle_objc_get_taggedpointer_mask = index"
    unfolding c_defs tag_masks by (rule bit_word_eqI) (use low in \<open>auto simp: bit_simps\<close>)
  show "index \<noteq> 0" using assms by (auto simp: tagged_index_ok_def)
qed

lemma at_60: "(\<not> 61 \<le> n \<and> 60 \<le> n) \<longleftrightarrow> n = (60 :: nat)"
  by auto

lemma drop_tag:
  assumes "tagged_index_ok index"
  shows "drop_bit 3 (push_bit 3 v OR index) = take_bit 61 v"
    and "signed_drop_bit 3 (push_bit 3 v OR index) = signed_take_bit 60 v"
proof -
  have high: "\<not> bit index (3 + n)" for n using tag_index_bit [OF assms, of "3 + n"] by auto
  show "drop_bit 3 (push_bit 3 v OR index) = take_bit 61 v"
    by (rule bit_word_eqI) (use high in \<open>auto simp: bit_simps\<close>)
  have "bit (signed_drop_bit 3 (push_bit 3 v OR index)) n = bit (signed_take_bit 60 v) n" if "n < 64" for n
    using high [of n] high [of 60] that by (cases "n = 60") (auto simp: bit_simps min_def)
  then show "signed_drop_bit 3 (push_bit 3 v OR index) = signed_take_bit 60 v"
    by (intro bit_word_eqI) simp
qed

section \<open>Round trips\<close>

lemma bit_high_mask: "n < 64 \<Longrightarrow> bit (push_bit i (mask (64 - i)) :: uint64) n \<longleftrightarrow> i \<le> n"
  by (auto simp: bit_simps)

lemma valid_unsigned:
  assumes "mulle_objc_taggedpointer_is_valid_unsigned_value v"
  shows "take_bit 61 v = v"
proof -
  let ?m = "push_bit 61 (mask (64 - 61)) :: uint64"
  have m: "mulle_objc_taggedpointer_unsignedlostbitsmask = ?m"
    unfolding mulle_objc_taggedpointer_unsignedlostbitsmask_def c_defs
    by (rule bit_word_eqI) (auto simp: bit_simps)
  have "v AND ?m = 0" using assms by (simp only: mulle_objc_taggedpointer_is_valid_unsigned_value_def m not_not)
  then have "\<not> bit (v AND ?m) n" for n by simp
  then have "\<not> bit v n" if "61 \<le> n" "n < 64" for n
    using bit_high_mask [OF that(2), of 61] that(1) by (metis bit_and_iff)
  then have "bit v n \<Longrightarrow> n < 64 \<Longrightarrow> n < 61" for n by (meson not_less)
  then show ?thesis by (intro bit_word_eqI) (auto simp: bit_simps)
qed

lemma valid_signed:
  assumes "mulle_objc_taggedpointer_is_valid_signed_value v"
  shows "signed_take_bit 60 v = v"
proof -
  let ?m = "push_bit 60 (mask (64 - 60)) :: uint64"
  have m: "mulle_objc_taggedpointer_signedlostbitsmask = ?m"
    unfolding mulle_objc_taggedpointer_signedlostbitsmask_def c_defs
    by (rule bit_word_eqI) (auto simp: bit_simps)
  have "\<exists>b. \<forall>n. n < 64 \<longrightarrow> 60 \<le> n \<longrightarrow> bit v n = b"
  proof (cases "v AND ?m = 0")
    case True
    then have "\<not> bit (v AND ?m) n" for n by simp
    then show ?thesis using bit_high_mask [of _ 60] by (metis bit_and_iff)
  next
    case False
    then have "v AND ?m = ?m"
      using assms by (simp only: mulle_objc_taggedpointer_is_valid_signed_value_def m Let_def simp_thms)
    then have "bit (v AND ?m) n = bit ?m n" for n by simp
    then show ?thesis using bit_high_mask [of _ 60] by (metis bit_and_iff)
  qed
  then obtain b where b: "\<And>n. n < 64 \<Longrightarrow> 60 \<le> n \<Longrightarrow> bit v n = b" by blast
  have "bit (signed_take_bit 60 v) n = bit v n" if "n < 64" for n
    using b [of n] b [of 60] that by (cases "60 \<le> n") (simp_all add: bit_signed_take_bit_iff min_def)
  then show ?thesis by (intro bit_word_eqI) simp
qed

text \<open>
  A rotation by five brings the sign and the four top exponent bits to the bottom; the three
  bits the index overwrites are the complement of bit 62, so they can be restored.
\<close>

lemma bit_8_7: "bit (8 :: uint64) n \<longleftrightarrow> n = 3" "bit (7 :: uint64) n \<longleftrightarrow> n < 3"
proof -
  have "bit (2 ^ 3 :: uint64) n \<longleftrightarrow> n = 3" by (auto simp only: bit_exp_iff possible_bit_word) simp
  then show "bit (8 :: uint64) n \<longleftrightarrow> n = 3" by simp
  have "bit (mask 3 :: uint64) n \<longleftrightarrow> n < 3" by (auto simp only: bit_mask_iff possible_bit_word) simp
  then show "bit (7 :: uint64) n \<longleftrightarrow> n < 3" unfolding tag_masks .
qed

lemma bit_7_int: "bit (7 :: int) n \<longleftrightarrow> n < 3"
  using bit_mask_iff [of 3 n, where 'a = int] by (simp add: mask_eq_exp_minus_1)

lemma valid_double_bits:
  assumes "mulle_objc_taggedpointer_is_valid_double_value d"
  shows "bit d 61 = (\<not> bit d 62)" "bit d 60 = (\<not> bit d 62)" "bit d 59 = (\<not> bit d 62)"
proof -
  let ?b = "drop_bit (52 + 7) d AND 0xF :: uint64"
  have b: "bit ?b n = (n < 4 \<and> bit d (59 + n))" for n
    unfolding tag_masks by (auto simp: bit_simps)
  have "?b = 8 \<or> ?b = 7" using assms by (simp add: mulle_objc_taggedpointer_is_valid_double_value_def Let_def)
  then have "(\<forall>n<4. bit ?b n = (n = 3)) \<or> (\<forall>n<4. bit ?b n = (n < 3))"
  proof
    assume "?b = 8"
    then have "\<forall>n<4. bit ?b n = (n = 3)" by (simp only: bit_8_7) simp
    then show ?thesis ..
  next
    assume "?b = 7"
    then have "\<forall>n<4. bit ?b n = (n < 3)" by (simp only: bit_8_7) simp
    then show ?thesis ..
  qed
  then have four: "bit ?b 2 = (\<not> bit ?b 3)" "bit ?b 1 = (\<not> bit ?b 3)" "bit ?b 0 = (\<not> bit ?b 3)" by auto
  show "bit d 61 = (\<not> bit d 62)" "bit d 60 = (\<not> bit d 62)" "bit d 59 = (\<not> bit d 62)"
    using four unfolding b by simp_all
qed

lemma get_double_selected:
  "(if p AND 8 = 0 then p OR 7 else p AND NOT 7) = r \<Longrightarrow>
   mulle_objc_taggedpointer_get_double_value p = drop_bit 5 r OR push_bit 59 r"
  by (drule sym) (simp add: mulle_objc_taggedpointer_get_double_value_def Let_def)

lemma diff_64_5: "(64 :: nat) - 5 = 59"
  by simp

lemma rotate_5_back:
  "drop_bit 5 (push_bit 5 d OR drop_bit 59 d) OR push_bit 59 (push_bit 5 d OR drop_bit 59 d) = (d :: uint64)"
proof (rule bit_word_eqI)
  fix n :: nat
  assume "n < LENGTH(64)"
  then show "bit (drop_bit 5 (push_bit 5 d OR drop_bit 59 d) OR push_bit 59 (push_bit 5 d OR drop_bit 59 d)) n = bit d n"
    by (cases "n < 59") (auto simp: bit_simps)
qed

lemma double_restored:
  assumes "tagged_index_ok index" "mulle_objc_taggedpointer_is_valid_double_value d"
  shows "mulle_objc_taggedpointer_get_double_value (((push_bit 5 d OR drop_bit (64 - 5) d) AND NOT 7) OR index) = d"
proof -
  let ?r = "push_bit 5 d OR drop_bit 59 d"
  let ?p = "(?r AND NOT 7) OR index"
  note low = tag_index_bit [OF assms(1)] and vd = valid_double_bits [OF assms(2)]
  have r: "bit ?r n = (if n < 5 then bit d (59 + n) else n < 64 \<and> bit d (n - 5))" for n
    by (auto simp: bit_simps dest: bit_imp_le_length)
  have p: "bit ?p n = (if n < 3 then bit index n else n < 64 \<and> bit ?r n)" for n
    unfolding tag_masks using low [of n] by (auto simp: bit_simps)
  let ?q = "if ?p AND 8 = 0 then ?p OR 7 else ?p AND NOT 7"
  have sel: "?p AND 8 = 0 \<longleftrightarrow> \<not> bit d 62"
    using p [of 3] r [of 3] and_exp_eq_0_iff_not_bit [of ?p 3] by simp
  have q: "bit ?q n = bit ?r n" if "n < 64" for n
  proof (cases "n < 3")
    case True
    then have "n = 0 \<or> n = 1 \<or> n = 2" by auto
    then have "bit ?r n = (\<not> bit d 62)" using r [of n] vd by auto
    moreover have "bit ?q n = (\<not> bit d 62)"
      using True that by (simp only: sel if_distrib bit_or_iff bit_and_iff bit_not_iff bit_8_7) (simp add: bit_simps bit_7_int)
    ultimately show ?thesis by simp
  next
    case False
    then show ?thesis
      using p [of n] that by (simp only: if_distrib bit_or_iff bit_and_iff bit_not_iff bit_8_7) (simp add: bit_simps bit_7_int)
  qed
  then have "?q = ?r" by (rule bit_word_eqI) simp
  from get_double_selected [OF this] rotate_5_back [of d]
  show ?thesis by (simp only: diff_64_5)
qed

text \<open>C25: On a 64 bit target a value that is valid for a tagged pointer survives the round trip
  through the pointer for unsigned and signed integers, doubles and floats, whatever the
  class index, and the index can be read back from the pointer.\<close>

theorem taggedpointer_roundtrips:
  assumes "tagged_index_ok index"
  shows "(mulle_objc_taggedpointer_is_valid_unsigned_value u \<longrightarrow>
       c_bind (mulle_objc_create_unsigned_taggedpointer u index)
         (\<lambda>p. c_bind (mulle_objc_taggedpointer_get_unsigned_value p)
            (\<lambda>x. Inr (x, mulle_objc_taggedpointer_get_index p))) = Inr (u, index)) \<and>
     (mulle_objc_taggedpointer_is_valid_signed_value i \<longrightarrow>
       c_bind (mulle_objc_create_signed_taggedpointer i index)
         (\<lambda>p. c_bind (mulle_objc_taggedpointer_get_signed_value p)
            (\<lambda>x. Inr (x, mulle_objc_taggedpointer_get_index p))) = Inr (i, index)) \<and>
     (mulle_objc_taggedpointer_is_valid_double_value d \<longrightarrow>
       c_bind (mulle_objc_create_double_taggedpointer d index)
         (\<lambda>p. Inr (mulle_objc_taggedpointer_get_double_value p, mulle_objc_taggedpointer_get_index p)) = Inr (d, index)) \<and>
     c_bind (mulle_objc_create_float_taggedpointer f index)
         (\<lambda>p. c_bind (mulle_objc_taggedpointer_get_float_value p)
            (\<lambda>x. Inr (x, mulle_objc_taggedpointer_get_index p))) = Inr (f, index)"
proof -
  note tag = tag_of_shifted [OF assms] and drop = drop_tag [OF assms]
  have shift: "mulle_objc_get_taggedpointer_shift = 3" by (simp add: c_defs)
  have fl: "ucast (take_bit 61 (ucast f :: uint64)) = f"
    by (rule bit_word_eqI) (auto simp: bit_simps)
  show ?thesis
    using assms tag drop valid_unsigned [of u] valid_signed [of i] double_restored [OF assms, of d] fl
    by (simp add: mulle_objc_create_unsigned_taggedpointer_def mulle_objc_taggedpointer_get_unsigned_value_def
        mulle_objc_create_signed_taggedpointer_def mulle_objc_taggedpointer_get_signed_value_def
        mulle_objc_create_double_taggedpointer_def mulle_objc_create_float_taggedpointer_def
        mulle_objc_taggedpointer_get_float_value_def c_check_def mulle_objc_taggedpointer_get_index_def shift)
qed

lemma taggedpointer_roundtrips_witness:
  "c_bind (mulle_objc_create_signed_taggedpointer (- 5) 3)
     (\<lambda>p. c_bind (mulle_objc_taggedpointer_get_signed_value p)
        (\<lambda>x. Inr (x, mulle_objc_taggedpointer_get_index p))) = Inr (- 5, 3)"
proof -
  have "tagged_index_ok 3" by (simp add: tagged_index_ok_def c_defs)
  moreover have "mulle_objc_taggedpointer_is_valid_signed_value (- 5)" by code_simp
  ultimately show ?thesis using taggedpointer_roundtrips [of 3 _ "- 5"] by blast
qed

end
