(* ===== verification/Retain_Release.thy ===== *)
theory Retain_Release
  imports Mulle_Prelude
begin

text \<open>
  Reference counting (\<open>mulle-objc-retain-release.h\<close>/\<open>.c\<close>): the signed word
  \<open>_retaincount_1\<close> of an object's header encodes the reference count, the finalizing state
  and the two special kinds of objects. It is an \<open>int\<close> in the range of \<open>intptr_t\<close>; the atomic
  increments and decrements wrap, and the decrement yields the previous value. The methods
  -finalize, -dealloc, -retain, -release and -retainCount of the class are functions on the
  object, given as a record; reading the header of a freed object is a fault.
\<close>

section \<open>Objects\<close>

definition INTPTR_MAX :: int where [c_defs]: "INTPTR_MAX = 2 ^ 63 - 1"
definition INTPTR_MIN :: int where [c_defs]: "INTPTR_MIN = - (2 ^ 63)"

definition intptr_wrap :: "int \<Rightarrow> int" where
  "intptr_wrap x = (x + 2 ^ 63) mod 2 ^ 64 - 2 ^ 63"

definition MULLE_OBJC_SLOW_RELEASE :: int where [c_defs]: "MULLE_OBJC_SLOW_RELEASE = INTPTR_MAX"
definition MULLE_OBJC_NEVER_RELEASE :: int where [c_defs]: "MULLE_OBJC_NEVER_RELEASE = INTPTR_MAX - 1"
definition MULLE_OBJC_INLINE_RELEASE :: int where [c_defs]: "MULLE_OBJC_INLINE_RELEASE = INTPTR_MAX - 2"

datatype object_message = Msg_Retain | Msg_Release | Msg_Finalize | Msg_Dealloc

text \<open>\<open>object_tagged\<close>: the pointer is a tagged pointer and there is no header. \<open>object_log\<close> lists
  the messages the runtime sent, the latest first.\<close>

record mulle_objc_object =
  object_tagged :: bool
  object_alive :: bool
  object_retaincount_1 :: int
  object_log :: "object_message list"

record object_methods =
  method_retain :: "mulle_objc_object \<Rightarrow> mulle_objc_object c_result"
  method_release :: "mulle_objc_object \<Rightarrow> mulle_objc_object c_result"
  method_finalize :: "mulle_objc_object \<Rightarrow> mulle_objc_object c_result"
  method_dealloc :: "mulle_objc_object \<Rightarrow> mulle_objc_object c_result"
  method_retaincount :: "mulle_objc_object \<Rightarrow> int"

definition header_read :: "mulle_objc_object \<Rightarrow> int c_result" where
  "header_read obj = (if object_alive obj then Inr (object_retaincount_1 obj) else Inl Use_After_Free)"

definition header_write :: "int \<Rightarrow> mulle_objc_object \<Rightarrow> mulle_objc_object c_result" where
  "header_write rc obj =
     (if object_alive obj then Inr (obj\<lparr> object_retaincount_1 := rc \<rparr>) else Inl Use_After_Free)"

text \<open>\<open>_mulle_atomic_pointer_increment\<close> and \<open>_decrement\<close>; the latter's result is the old value.\<close>

definition header_increment :: "mulle_objc_object \<Rightarrow> mulle_objc_object c_result" where
  "header_increment obj = c_bind (header_read obj) (\<lambda>rc. header_write (intptr_wrap (rc + 1)) obj)"

definition header_decrement :: "mulle_objc_object \<Rightarrow> (mulle_objc_object \<times> int) c_result" where
  "header_decrement obj =
     c_bind (header_read obj) (\<lambda>rc. c_bind (header_write (intptr_wrap (rc - 1)) obj) (\<lambda>obj'. Inr (obj', rc)))"

definition object_send :: "object_message \<Rightarrow> (mulle_objc_object \<Rightarrow> mulle_objc_object c_result) \<Rightarrow>
    mulle_objc_object \<Rightarrow> mulle_objc_object c_result" where
  "object_send msg f obj = f (obj\<lparr> object_log := msg # object_log obj \<rparr>)"

definition result_assert :: "bool \<Rightarrow> 'a c_result \<Rightarrow> 'a c_result" where
  "result_assert b m = (if b then m else Inl Assertion)"

section \<open>Reading the count\<close>

definition mulle_objc_object_is_finalized :: "mulle_objc_object \<Rightarrow> bool c_result" where
  "mulle_objc_object_is_finalized obj = c_bind (header_read obj) (\<lambda>rc. Inr (rc < 0))"

definition mulle_objc_object_get_retaincount_notps_noslow :: "mulle_objc_object \<Rightarrow> int c_result" where
  "mulle_objc_object_get_retaincount_notps_noslow obj =
     c_bind (header_read obj) (\<lambda>rc.
       if rc = MULLE_OBJC_NEVER_RELEASE then Inr MULLE_OBJC_NEVER_RELEASE
       else result_assert (rc \<noteq> MULLE_OBJC_SLOW_RELEASE)
         (if rc = - 1 then Inr 0
          else if rc < 0 then Inr (rc - INTPTR_MIN)
          else Inr (rc + 1)))"

definition mulle_objc_object_get_retaincount_nonnull :: "object_methods \<Rightarrow> mulle_objc_object \<Rightarrow> int c_result" where
  "mulle_objc_object_get_retaincount_nonnull m obj =
     (if object_tagged obj then Inr MULLE_OBJC_NEVER_RELEASE
      else c_bind (header_read obj) (\<lambda>rc.
        if rc = MULLE_OBJC_NEVER_RELEASE then Inr MULLE_OBJC_NEVER_RELEASE
        else if rc = MULLE_OBJC_SLOW_RELEASE then Inr (method_retaincount m obj)
        else if rc = - 1 then Inr 0
        else if rc < 0 then Inr (rc - INTPTR_MIN)
        else Inr (rc + 1)))"

definition mulle_objc_object_get_retaincount :: "object_methods \<Rightarrow> mulle_objc_object option \<Rightarrow> int c_result" where
  "mulle_objc_object_get_retaincount m obj_p =
     (case obj_p of None \<Rightarrow> Inr 0 | Some obj \<Rightarrow> mulle_objc_object_get_retaincount_nonnull m obj)"

definition mulle_objc_object_is_constant :: "mulle_objc_object \<Rightarrow> bool c_result" where
  "mulle_objc_object_is_constant obj =
     (if object_tagged obj then Inr True
      else c_bind (header_read obj) (\<lambda>rc. Inr (rc = MULLE_OBJC_NEVER_RELEASE)))"

section \<open>Finalize and dealloc\<close>

definition mulle_objc_object_tryfinalizetrydealloc ::
    "object_methods \<Rightarrow> mulle_objc_object \<Rightarrow> mulle_objc_object c_result" where
  "mulle_objc_object_tryfinalizetrydealloc m obj =
     c_bind (mulle_objc_object_is_constant obj) (\<lambda>constant.
     result_assert (\<not> constant)
       (c_bind (header_read obj) (\<lambda>rc.
        c_bind
          (if rc = - 1
           then c_bind (header_write (rc + (INTPTR_MIN + 1)) obj) (\<lambda>obj1.
                c_bind (object_send Msg_Finalize (method_finalize m) obj1) (\<lambda>obj2.
                c_bind (header_read obj2) (\<lambda>rc2. Inr (obj2, rc2))))
           else Inr (obj, rc))
          (\<lambda>(obj', rc').
             if rc' = INTPTR_MIN
             then c_bind (header_write (- 1) obj') (\<lambda>obj''. object_send Msg_Dealloc (method_dealloc m) obj'')
             else Inr obj'))))"

text \<open>The compare-and-swap loop of \<open>perform_finalize\<close> succeeds at once when no other thread interferes.\<close>

definition mulle_objc_object_perform_finalize ::
    "object_methods \<Rightarrow> mulle_objc_object \<Rightarrow> mulle_objc_object c_result" where
  "mulle_objc_object_perform_finalize m obj =
     c_bind (mulle_objc_object_is_constant obj) (\<lambda>constant.
     result_assert (\<not> constant)
       (c_bind (header_read obj) (\<lambda>rc.
          if rc < 0 then Inr obj
          else c_bind (header_write (rc + INTPTR_MIN + 1) obj)
                 (object_send Msg_Finalize (method_finalize m)))))"

section \<open>Retain and release\<close>

definition mulle_objc_object_increment_retaincount ::
    "object_methods \<Rightarrow> mulle_objc_object \<Rightarrow> mulle_objc_object c_result" where
  "mulle_objc_object_increment_retaincount m obj =
     (if object_tagged obj then Inr obj
      else c_bind (header_read obj) (\<lambda>rc.
        if rc \<le> MULLE_OBJC_INLINE_RELEASE then header_increment obj
        else if rc = MULLE_OBJC_SLOW_RELEASE then object_send Msg_Retain (method_retain m) obj
        else Inr obj))"

definition mulle_objc_object_decrement_retaincount_waszero ::
    "object_methods \<Rightarrow> mulle_objc_object \<Rightarrow> (mulle_objc_object \<times> bool) c_result" where
  "mulle_objc_object_decrement_retaincount_waszero m obj =
     (if object_tagged obj then Inr (obj, False)
      else c_bind (header_read obj) (\<lambda>rc.
        result_assert (rc \<noteq> - 1 \<and> rc \<noteq> INTPTR_MIN)
          (if rc \<le> MULLE_OBJC_INLINE_RELEASE
           then c_bind (header_decrement obj) (\<lambda>(obj', old). Inr (obj', old \<le> 0))
           else if rc = MULLE_OBJC_SLOW_RELEASE
           then c_bind (object_send Msg_Release (method_release m) obj) (\<lambda>obj'. Inr (obj', False))
           else Inr (obj, False))))"

definition mulle_objc_object_retain_inline_nonnull ::
    "object_methods \<Rightarrow> mulle_objc_object \<Rightarrow> mulle_objc_object c_result" where
  "mulle_objc_object_retain_inline_nonnull m obj = mulle_objc_object_increment_retaincount m obj"

definition mulle_objc_object_release_inline_nonnull ::
    "object_methods \<Rightarrow> mulle_objc_object \<Rightarrow> mulle_objc_object c_result" where
  "mulle_objc_object_release_inline_nonnull m obj =
     c_bind (mulle_objc_object_decrement_retaincount_waszero m obj) (\<lambda>(obj', waszero).
       if waszero then mulle_objc_object_tryfinalizetrydealloc m obj' else Inr obj')"

definition mulle_objc_object_retain_inline ::
    "object_methods \<Rightarrow> mulle_objc_object option \<Rightarrow> mulle_objc_object option c_result" where
  "mulle_objc_object_retain_inline m obj_p =
     (case obj_p of None \<Rightarrow> Inr None
      | Some obj \<Rightarrow> c_bind (mulle_objc_object_retain_inline_nonnull m obj) (\<lambda>obj'. Inr (Some obj')))"

definition mulle_objc_object_release_inline ::
    "object_methods \<Rightarrow> mulle_objc_object option \<Rightarrow> mulle_objc_object option c_result" where
  "mulle_objc_object_release_inline m obj_p =
     (case obj_p of None \<Rightarrow> Inr None
      | Some obj \<Rightarrow> c_bind (mulle_objc_object_release_inline_nonnull m obj) (\<lambda>obj'. Inr (Some obj')))"

section \<open>Special objects\<close>

definition header_set :: "int \<Rightarrow> mulle_objc_object \<Rightarrow> mulle_objc_object c_result" where
  "header_set rc obj = (if object_tagged obj then Inr obj else header_write rc obj)"

definition mulle_objc_object_constantify_noatomic :: "mulle_objc_object \<Rightarrow> mulle_objc_object c_result" where
  "mulle_objc_object_constantify_noatomic = header_set MULLE_OBJC_NEVER_RELEASE"

definition mulle_objc_object_deconstantify_noatomic :: "mulle_objc_object \<Rightarrow> mulle_objc_object c_result" where
  "mulle_objc_object_deconstantify_noatomic = header_set 0"

definition mulle_objc_object_slowify_noatomic :: "mulle_objc_object \<Rightarrow> mulle_objc_object c_result" where
  "mulle_objc_object_slowify_noatomic = header_set MULLE_OBJC_SLOW_RELEASE"

definition mulle_objc_object_deslowify_noatomic :: "mulle_objc_object \<Rightarrow> mulle_objc_object c_result" where
  "mulle_objc_object_deslowify_noatomic = header_set 0"

section \<open>Arrays of objects\<close>

text \<open>Objects live in a heap, a map from addresses; NULL entries of an array are \<open>None\<close>.\<close>

type_synonym object_heap = "nat \<Rightarrow> mulle_objc_object"

definition heap_send ::
    "(mulle_objc_object \<Rightarrow> mulle_objc_object c_result) \<Rightarrow> nat option \<Rightarrow> object_heap \<Rightarrow> object_heap c_result" where
  "heap_send f p h = (case p of None \<Rightarrow> Inr h | Some a \<Rightarrow> c_bind (f (h a)) (\<lambda>obj. Inr (h(a := obj))))"

fun mulle_objc_objects_retain :: "object_methods \<Rightarrow> nat option list \<Rightarrow> object_heap \<Rightarrow> object_heap c_result" where
  "mulle_objc_objects_retain m [] h = Inr h"
| "mulle_objc_objects_retain m (p # ps) h =
     c_bind (heap_send (mulle_objc_object_retain_inline_nonnull m) p h) (mulle_objc_objects_retain m ps)"

fun mulle_objc_objects_release :: "object_methods \<Rightarrow> nat option list \<Rightarrow> object_heap \<Rightarrow> object_heap c_result" where
  "mulle_objc_objects_release m [] h = Inr h"
| "mulle_objc_objects_release m (p # ps) h =
     c_bind (heap_send (mulle_objc_object_release_inline_nonnull m) p h) (mulle_objc_objects_release m ps)"

text \<open>The array is returned too: every non-NULL entry is zeroed before its object is released.\<close>

fun mulle_objc_objects_releaseandzero ::
    "object_methods \<Rightarrow> nat option list \<Rightarrow> object_heap \<Rightarrow> (nat option list \<times> object_heap) c_result" where
  "mulle_objc_objects_releaseandzero m [] h = Inr ([], h)"
| "mulle_objc_objects_releaseandzero m (p # ps) h =
     c_bind (heap_send (mulle_objc_object_release_inline_nonnull m) p h) (\<lambda>h1.
     c_bind (mulle_objc_objects_releaseandzero m ps h1) (\<lambda>(qs, h2). Inr (None # qs, h2)))"

section \<open>Scripts: what -finalize does\<close>

text \<open>
  User code acts on an object by retaining and releasing it. A class whose -finalize runs a
  script of such actions and whose -dealloc frees the object; \<open>depth\<close> bounds how deep a
  -finalize can nest (it runs at most once, so one level is enough).
\<close>

datatype object_action = Retain | Release

definition object_act :: "object_methods \<Rightarrow> object_action \<Rightarrow> mulle_objc_object \<Rightarrow> mulle_objc_object c_result" where
  "object_act m a obj =
     (case a of Retain \<Rightarrow> mulle_objc_object_retain_inline_nonnull m obj
      | Release \<Rightarrow> mulle_objc_object_release_inline_nonnull m obj)"

fun object_run :: "object_methods \<Rightarrow> object_action list \<Rightarrow> mulle_objc_object \<Rightarrow> mulle_objc_object c_result" where
  "object_run m [] obj = Inr obj"
| "object_run m (a # as) obj = c_bind (object_act m a obj) (object_run m as)"

lemma object_run_append: "object_run m (as @ bs) obj = c_bind (object_run m as obj) (object_run m bs)"
proof (induction as arbitrary: obj)
  case (Cons a as)
  then show ?case by (cases "object_act m a obj") auto
qed simp

fun scripted_methods :: "nat \<Rightarrow> object_action list \<Rightarrow> object_methods" where
  "scripted_methods 0 script =
     \<lparr> method_retain = Inr, method_release = Inr, method_finalize = (\<lambda>obj. Inl Aborted),
       method_dealloc = (\<lambda>obj. Inr (obj\<lparr> object_alive := False \<rparr>)), method_retaincount = (\<lambda>obj. 0) \<rparr>"
| "scripted_methods (Suc depth) script =
     \<lparr> method_retain = Inr, method_release = Inr,
       method_finalize = object_run (scripted_methods depth script) script,
       method_dealloc = (\<lambda>obj. Inr (obj\<lparr> object_alive := False \<rparr>)), method_retaincount = (\<lambda>obj. 0) \<rparr>"

definition new_object :: mulle_objc_object where
  "new_object = \<lparr> object_tagged = False, object_alive = True, object_retaincount_1 = 0, object_log = [] \<rparr>"

section \<open>The abstract count\<close>

text \<open>
  The phases of a normal object: not yet finalized or finalized, with its number of
  references. \<open>rc_of\<close> is the encoding of the header comment.
\<close>

definition rc_of :: "bool \<Rightarrow> int \<Rightarrow> int" where
  "rc_of finalized refs = (if finalized then INTPTR_MIN + refs else refs - 1)"

definition refs_bounded :: "int \<Rightarrow> bool" where
  "refs_bounded refs \<longleftrightarrow> 1 \<le> refs \<and> refs \<le> INTPTR_MAX - 2"

definition object_with :: "bool \<Rightarrow> int \<Rightarrow> object_message list \<Rightarrow> mulle_objc_object" where
  "object_with finalized refs log =
     \<lparr> object_tagged = False, object_alive = True, object_retaincount_1 = rc_of finalized refs, object_log = log \<rparr>"

lemma new_object_with: "new_object = object_with False 1 []"
  by (simp add: new_object_def object_with_def rc_of_def)

lemma intptr_wrap_id: "INTPTR_MIN \<le> x \<Longrightarrow> x \<le> INTPTR_MAX \<Longrightarrow> intptr_wrap x = x"
  by (simp add: intptr_wrap_def c_defs)

lemma act_retain:
  assumes "refs_bounded refs \<or> finalized \<and> refs = 0"
  shows "object_act m Retain (object_with finalized refs log) = Inr (object_with finalized (refs + 1) log)"
  using assms
  by (auto simp: object_act_def mulle_objc_object_retain_inline_nonnull_def mulle_objc_object_increment_retaincount_def
      object_with_def header_read_def header_write_def header_increment_def rc_of_def refs_bounded_def
      c_defs intptr_wrap_def)

lemma act_release:
  assumes "2 \<le> refs" "refs \<le> INTPTR_MAX - 1"
  shows "object_act m Release (object_with finalized refs log) = Inr (object_with finalized (refs - 1) log)"
  using assms
  by (auto simp: object_act_def mulle_objc_object_release_inline_nonnull_def
      mulle_objc_object_decrement_retaincount_waszero_def result_assert_def
      mulle_objc_object_tryfinalizetrydealloc_def mulle_objc_object_is_constant_def
      object_with_def header_read_def header_write_def header_decrement_def rc_of_def
      c_defs intptr_wrap_def)

lemma release_last_finalized:
  assumes "method_dealloc m = (\<lambda>obj. Inr (obj\<lparr> object_alive := False \<rparr>))"
  shows "object_act m Release (object_with True 1 log) =
    Inr \<lparr> object_tagged = False, object_alive = False, object_retaincount_1 = - 1, object_log = Msg_Dealloc # log \<rparr>"
  using assms
  by (simp add: object_act_def mulle_objc_object_release_inline_nonnull_def
      mulle_objc_object_decrement_retaincount_waszero_def result_assert_def
      mulle_objc_object_tryfinalizetrydealloc_def mulle_objc_object_is_constant_def object_send_def
      object_with_def header_read_def header_write_def header_decrement_def rc_of_def c_defs intptr_wrap_def)

text \<open>The last release of a live object runs -finalize with a count of zero, then looks again.\<close>

lemma release_last_live:
  "object_act m Release (object_with False 1 log) =
    c_bind (method_finalize m (object_with True 0 (Msg_Finalize # log))) (\<lambda>obj.
    c_bind (header_read obj) (\<lambda>rc.
      if rc = INTPTR_MIN
      then c_bind (header_write (- 1) obj) (\<lambda>obj'. object_send Msg_Dealloc (method_dealloc m) obj')
      else Inr obj))"
proof -
  have wrap: "intptr_wrap (- 1) = - 1" by (simp add: intptr_wrap_def)
  show ?thesis
    by (cases "method_finalize m (object_with True 0 (Msg_Finalize # log))")
       (auto simp: object_act_def mulle_objc_object_release_inline_nonnull_def wrap
          mulle_objc_object_decrement_retaincount_waszero_def result_assert_def
          mulle_objc_object_tryfinalizetrydealloc_def mulle_objc_object_is_constant_def object_send_def
          object_with_def header_read_def header_write_def header_decrement_def rc_of_def c_defs)
qed

text \<open>
  A use of an object that keeps at least one reference throughout: the count after it, if
  that is so.
\<close>

fun refs_after :: "object_action list \<Rightarrow> int \<Rightarrow> int option" where
  "refs_after [] refs = (if refs_bounded refs then Some refs else None)"
| "refs_after (Retain # as) refs = (if refs_bounded refs then refs_after as (refs + 1) else None)"
| "refs_after (Release # as) refs = (if refs_bounded refs then refs_after as (refs - 1) else None)"

lemma refs_after_bounded: "refs_after as refs = Some r \<Longrightarrow> refs_bounded refs \<and> refs_bounded r"
  by (induction as refs rule: refs_after.induct) (auto split: if_splits)

lemma run_balanced:
  "refs_after as refs = Some r \<Longrightarrow>
   object_run m as (object_with finalized refs log) = Inr (object_with finalized r log)"
proof (induction as refs rule: refs_after.induct)
  case (2 as refs)
  then show ?case using act_retain [of refs finalized m log] by (auto split: if_splits)
next
  case (3 as refs)
  then have "refs_bounded (refs - 1)" "refs_bounded refs"
    using refs_after_bounded by (auto split: if_splits)
  then show ?case using 3 act_release [of refs m finalized log] by (auto simp: refs_bounded_def c_defs)
qed (auto split: if_splits)

lemma run_retains:
  assumes "0 \<le> refs" "refs + int k < INTPTR_MAX - 2"
  shows "object_run m (replicate k Retain) (object_with True refs log) = Inr (object_with True (refs + int k) log)"
  using assms
proof (induction k arbitrary: refs)
  case (Suc k)
  have "refs_bounded refs \<or> True \<and> refs = 0" using Suc.prems by (auto simp: refs_bounded_def)
  from act_retain [OF this, of m log] show ?case using Suc.IH [of "refs + 1"] Suc.prems
    by (simp add: ac_simps)
qed simp

text \<open>C34: A new object used by retains and releases that keep at least one reference is neither
  finalized nor freed and its retain count is the number of references.\<close>

theorem balanced_use_keeps_object:
  assumes "refs_after as 1 = Some r"
  shows "\<exists>obj. object_run m as new_object = Inr obj \<and> object_alive obj \<and> object_log obj = [] \<and>
    mulle_objc_object_get_retaincount m (Some obj) = Inr r \<and> mulle_objc_object_is_finalized obj = Inr False"
proof -
  have "refs_bounded r" using refs_after_bounded [OF assms] by simp
  then show ?thesis
    using run_balanced [OF assms, of m False "[]"]
    by (simp add: new_object_with mulle_objc_object_get_retaincount_def mulle_objc_object_get_retaincount_nonnull_def
        mulle_objc_object_is_finalized_def object_with_def header_read_def rc_of_def refs_bounded_def c_defs)
qed

lemma balanced_use_keeps_object_witness:
  "\<exists>obj. object_run (scripted_methods 1 []) [Retain, Retain, Release] new_object = Inr obj \<and>
     object_alive obj \<and> mulle_objc_object_get_retaincount (scripted_methods 1 []) (Some obj) = Inr 2"
  using balanced_use_keeps_object [of "[Retain, Retain, Release]" 2 "scripted_methods 1 []"]
  by (auto simp: refs_bounded_def c_defs)

text \<open>C5: The life of an object: its last release sends -finalize; if -finalize retained it k times
  it lives on with k references and is freed, without a second -finalize, by the release that
  gives up the last of them; if -finalize did not retain it, -dealloc follows at once. Each of
  the two messages is sent exactly once.\<close>

theorem object_lifecycle:
  assumes m: "m = scripted_methods (Suc depth) (replicate k Retain)" and k: "int k < INTPTR_MAX - 2"
    and first: "refs_after as 1 = Some 1" and second: "k = 0 \<or> refs_after bs (int k) = Some 1"
  shows "\<exists>obj. object_run m (as @ [Release]) new_object = Inr obj \<and>
    (if k = 0
     then \<not> object_alive obj \<and> object_log obj = [Msg_Dealloc, Msg_Finalize]
     else object_alive obj \<and> object_log obj = [Msg_Finalize] \<and>
       mulle_objc_object_get_retaincount m (Some obj) = Inr (int k) \<and>
       (\<exists>obj'. object_run m (bs @ [Release]) obj = Inr obj' \<and> \<not> object_alive obj' \<and>
          object_log obj' = [Msg_Dealloc, Msg_Finalize]))"
proof -
  have dealloc: "method_dealloc m = (\<lambda>obj. Inr (obj\<lparr> object_alive := False \<rparr>))" by (simp add: m)
  have "method_finalize m (object_with True 0 [Msg_Finalize]) = Inr (object_with True (int k) [Msg_Finalize])"
    using run_retains [of 0 k _ "[Msg_Finalize]"] k by (simp add: m)
  then have last: "object_act m Release (object_with False 1 []) =
      (if k = 0 then Inr \<lparr> object_tagged = False, object_alive = False, object_retaincount_1 = - 1,
         object_log = [Msg_Dealloc, Msg_Finalize] \<rparr>
       else Inr (object_with True (int k) [Msg_Finalize]))"
    using dealloc unfolding release_last_live
    by (simp add: object_with_def header_read_def header_write_def object_send_def rc_of_def)
  have run: "object_run m (as @ [Release]) new_object = object_act m Release (object_with False 1 [])"
    using run_balanced [OF first, of m False "[]"]
    by (cases "object_act m Release (object_with False 1 [])") (auto simp: object_run_append new_object_with)
  show ?thesis
  proof (cases "k = 0")
    case True
    then show ?thesis using run last by simp
  next
    case False
    then have "refs_after bs (int k) = Some 1" using second by simp
    from run_balanced [OF this, of m True "[Msg_Finalize]"] release_last_finalized [OF dealloc, of "[Msg_Finalize]"]
    have "object_run m (bs @ [Release]) (object_with True (int k) [Msg_Finalize]) =
        Inr \<lparr> object_tagged = False, object_alive = False, object_retaincount_1 = - 1, object_log = [Msg_Dealloc, Msg_Finalize] \<rparr>"
      by (simp add: object_run_append)
    moreover have "mulle_objc_object_get_retaincount m (Some (object_with True (int k) [Msg_Finalize])) = Inr (int k)"
      using False k by (simp add: mulle_objc_object_get_retaincount_def mulle_objc_object_get_retaincount_nonnull_def
          object_with_def header_read_def rc_of_def c_defs)
    ultimately show ?thesis using run last False by (simp add: object_with_def)
  qed
qed

lemma object_lifecycle_witness:
  "\<exists>obj obj'. object_run (scripted_methods 1 [Retain]) [Retain, Release, Release] new_object = Inr obj \<and>
     object_alive obj \<and> object_log obj = [Msg_Finalize] \<and>
     object_run (scripted_methods 1 [Retain]) [Retain, Release, Release] obj = Inr obj' \<and>
     object_log obj' = [Msg_Dealloc, Msg_Finalize]"
  using object_lifecycle [of "scripted_methods 1 [Retain]" 0 1 "[Retain, Release]" "[Retain, Release]"]
  by (auto simp: refs_bounded_def c_defs)

lemma act_freed:
  "\<not> object_alive obj \<Longrightarrow> \<not> object_tagged obj \<Longrightarrow> object_act m a obj = Inl Use_After_Free"
  by (cases a) (simp_all add: object_act_def mulle_objc_object_retain_inline_nonnull_def
      mulle_objc_object_increment_retaincount_def mulle_objc_object_release_inline_nonnull_def
      mulle_objc_object_decrement_retaincount_waszero_def header_read_def)

text \<open>C35: A -finalize that retains its object and releases it again frees the object while it is
  still being finalized, and the runtime then reads the header of the freed object.\<close>

theorem finalize_retain_release_use_after_free:
  assumes m: "m = scripted_methods (Suc (Suc depth)) (Retain # Release # rest)"
    and first: "refs_after as 1 = Some 1"
  shows "object_run m (as @ [Release]) new_object = Inl Use_After_Free"
proof -
  let ?m = "scripted_methods (Suc depth) (Retain # Release # rest)"
  let ?dead = "\<lparr> object_tagged = False, object_alive = False, object_retaincount_1 = - 1,
        object_log = [Msg_Dealloc, Msg_Finalize] \<rparr>"
  have dealloc: "method_dealloc ?m = (\<lambda>obj. Inr (obj\<lparr> object_alive := False \<rparr>))" by simp
  have "object_run ?m (Retain # Release # rest) (object_with True 0 [Msg_Finalize]) = object_run ?m rest ?dead"
    using act_retain [of 0 True ?m "[Msg_Finalize]"] release_last_finalized [OF dealloc, of "[Msg_Finalize]"]
    by simp
  then have "method_finalize m (object_with True 0 [Msg_Finalize]) = object_run ?m rest ?dead" by (simp add: m)
  moreover have "object_run ?m rest ?dead = (if rest = [] then Inr ?dead else Inl Use_After_Free)"
    using act_freed [of ?dead ?m] by (cases rest) simp_all
  ultimately have "object_act m Release (object_with False 1 []) = Inl Use_After_Free"
    unfolding release_last_live by (simp add: header_read_def)
  then show ?thesis
    using run_balanced [OF first, of m False "[]"] by (simp add: object_run_append new_object_with)
qed

lemma finalize_retain_release_use_after_free_witness:
  "object_run (scripted_methods 2 [Retain, Release]) [Release] new_object = Inl Use_After_Free"
  using finalize_retain_release_use_after_free [of "scripted_methods 2 [Retain, Release]" 0 "[]" "[]"]
  by (simp add: numeral_2_eq_2 refs_bounded_def c_defs)

text \<open>Finalizing an object by hand marks a normal object as finalized and keeps its count, but a
  SLOW_RELEASE object becomes a normal object with one reference that does not count as
  finalized, so a second call finalizes it again.\<close>

theorem perform_finalize_effect:
  assumes fin: "method_finalize m = Inr"
    and obj: "object_alive obj" "\<not> object_tagged obj" "0 \<le> object_retaincount_1 obj"
      "object_retaincount_1 obj \<le> INTPTR_MAX" "object_retaincount_1 obj \<noteq> MULLE_OBJC_NEVER_RELEASE"
  shows "\<exists>obj'. mulle_objc_object_perform_finalize m obj = Inr obj' \<and>
    object_log obj' = Msg_Finalize # object_log obj \<and>
    (if object_retaincount_1 obj = MULLE_OBJC_SLOW_RELEASE
     then object_retaincount_1 obj' = 0 \<and> mulle_objc_object_is_finalized obj' = Inr False \<and>
       (\<exists>obj''. mulle_objc_object_perform_finalize m obj' = Inr obj'' \<and>
          object_log obj'' = Msg_Finalize # Msg_Finalize # object_log obj)
     else mulle_objc_object_is_finalized obj' = Inr True \<and>
       mulle_objc_object_get_retaincount m (Some obj') =
         (if object_retaincount_1 obj' = - 1 then Inr 0 else Inr (object_retaincount_1 obj + 1)) \<and>
       mulle_objc_object_perform_finalize m obj' = Inr obj')"
  using assms
  by (auto simp: mulle_objc_object_perform_finalize_def mulle_objc_object_is_constant_def header_read_def
      header_write_def result_assert_def object_send_def mulle_objc_object_is_finalized_def
      mulle_objc_object_get_retaincount_def mulle_objc_object_get_retaincount_nonnull_def c_defs)

lemma perform_finalize_effect_witness:
  "\<exists>obj'. mulle_objc_object_perform_finalize (scripted_methods 1 []) (new_object\<lparr> object_retaincount_1 := INTPTR_MAX \<rparr>) = Inr obj' \<and>
     object_retaincount_1 obj' = 0"
proof -
  have "method_finalize (scripted_methods 1 []) = Inr" by (simp add: fun_eq_iff)
  from perform_finalize_effect [OF this, of "new_object\<lparr> object_retaincount_1 := INTPTR_MAX \<rparr>"]
  show ?thesis by (auto simp: new_object_def c_defs)
qed

end
