(* ===== verification/Uniqueid.thy ===== *)
theory Uniqueid
  imports Mulle_Prelude
begin

text \<open>
  Unique ids: \<open>src/src/mulle-objc-uniqueid.h\<close> and \<open>.c\<close>. Classes, selectors, protocols,
  properties, ivars and super calls are named by a 32 bit hash of their name. The FNV-1a
  hash itself belongs to another library and is the parameter \<open>fnv1a_32\<close>; everything
  the runtime does to its result is modelled.
\<close>

section \<open>Ids and their reserved values\<close>

type_synonym mulle_objc_uniqueid_t = uint32

definition MULLE_OBJC_NO_UNIQUEID :: mulle_objc_uniqueid_t where
  [c_defs]: "MULLE_OBJC_NO_UNIQUEID = 0"

definition MULLE_OBJC_INVALID_UNIQUEID :: mulle_objc_uniqueid_t where
  [c_defs]: "MULLE_OBJC_INVALID_UNIQUEID = - 1"

definition mulle_objc_uniqueid_is_sane :: "mulle_objc_uniqueid_t \<Rightarrow> bool" where
  [c_defs]: "mulle_objc_uniqueid_is_sane uniqueid =
     (if uniqueid = MULLE_OBJC_NO_UNIQUEID \<or> uniqueid = MULLE_OBJC_INVALID_UNIQUEID
      then False else True)"

lemma uniqueid_sane_iff [simp]:
  "mulle_objc_uniqueid_is_sane u \<longleftrightarrow> u \<noteq> 0 \<and> u \<noteq> - 1"
  by (simp add: c_defs)

section \<open>Hashing a name\<close>

text \<open>The rotation by \<open>MULLE_OBJC_UNIQUEHASH_SHIFT\<close>, which moves the hash bits that index the caches.\<close>

definition uniqueid_rotate :: "uint32 \<Rightarrow> uint32" where
  "uniqueid_rotate value = (push_bit 4 value) OR (drop_bit (32 - 4) value)"

text \<open>The replacement of the one reserved value that the hash may not produce silently.\<close>

definition uniqueid_avoid_zero :: "uint32 \<Rightarrow> uint32" where
  "uniqueid_avoid_zero value =
     (if value = MULLE_OBJC_NO_UNIQUEID then MULLE_OBJC_INVALID_UNIQUEID else value)"

text \<open>
  \<open>mulle_objc_uniqueid_from_string\<close>: \<open>None\<close> is the \<open>NULL\<close> pointer; the result carries
  the \<open>errno\<close> assigned, if any. The message on \<open>stderr\<close> for an invalid hash is left out
  (the \<open>abort\<close> after it is in debug builds only).
\<close>

definition mulle_objc_uniqueid_from_string ::
  "(string \<Rightarrow> uint32 \<Rightarrow> uint32) \<Rightarrow> string option \<Rightarrow> mulle_objc_uniqueid_t \<times> errno option" where
  "mulle_objc_uniqueid_from_string fnv1a_32 s =
     (case s of
        None \<Rightarrow> (MULLE_OBJC_INVALID_UNIQUEID, Some EINVAL)
      | Some s \<Rightarrow>
          let len = (of_nat (length s) :: uint32)
          in if len = 0 then (MULLE_OBJC_INVALID_UNIQUEID, Some EINVAL)
             else (uniqueid_avoid_zero (uniqueid_rotate (fnv1a_32 s len)), None))"

text \<open>The universe id is the exception: no name at all is the default universe.\<close>

definition mulle_objc_universeid_from_string ::
  "(string \<Rightarrow> uint32 \<Rightarrow> uint32) \<Rightarrow> string option \<Rightarrow> mulle_objc_uniqueid_t \<times> errno option" where
  "mulle_objc_universeid_from_string fnv1a_32 s =
     (if s = None \<or> s = Some [] then (0, None)
      else mulle_objc_uniqueid_from_string fnv1a_32 s)"

text \<open>\<open>mulle_objc_uniqueid_is_sane_string\<close> in a debug build, where the id is compared with the name's hash.\<close>

definition mulle_objc_uniqueid_is_sane_string ::
  "(string \<Rightarrow> uint32 \<Rightarrow> uint32) \<Rightarrow> mulle_objc_uniqueid_t \<Rightarrow> string option \<Rightarrow> bool \<times> errno option" where
  "mulle_objc_uniqueid_is_sane_string fnv1a_32 uniqueid s =
     (if \<not> mulle_objc_uniqueid_is_sane uniqueid then (False, Some EINVAL)
      else let (correct, e) = mulle_objc_uniqueid_from_string fnv1a_32 s
           in if uniqueid \<noteq> correct then (False, Some EINVAL) else (True, e))"

section \<open>Arrays of ids and their order\<close>

text \<open>Counting a zero-terminated array: running off the end of the memory is a fault.\<close>

fun uniqueid_arraycount_loop :: "mulle_objc_uniqueid_t list \<Rightarrow> uint32 \<Rightarrow> uint32 c_result" where
  "uniqueid_arraycount_loop [] n = Inl Out_Of_Bounds"
| "uniqueid_arraycount_loop (u # ids) n =
     (if u \<noteq> 0 then uniqueid_arraycount_loop ids (n + 1) else Inr n)"

definition mulle_objc_uniqueid_arraycount :: "mulle_objc_uniqueid_t list option \<Rightarrow> uint32 c_result" where
  "mulle_objc_uniqueid_arraycount ids =
     (case ids of None \<Rightarrow> Inr 0 | Some mem \<Rightarrow> uniqueid_arraycount_loop mem 0)"

text \<open>\<open>_mulle_objc_uniqueid_compare_r\<close>, the comparator that \<open>mulle_qsort_r\<close> is given.\<close>

definition mulle_objc_uniqueid_compare_r :: "mulle_objc_uniqueid_t \<Rightarrow> mulle_objc_uniqueid_t \<Rightarrow> int" where
  "mulle_objc_uniqueid_compare_r a_id b_id =
     (if a_id < b_id then - 1 else of_bool (a_id \<noteq> b_id))"

section \<open>Lemmas\<close>

lemma bit_uniqueid_rotate:
  "bit (uniqueid_rotate v) n \<longleftrightarrow> n < 32 \<and> bit v ((n + 28) mod 32)"
proof (cases "n < 4")
  case True
  then have "(n + 28) mod 32 = n + 28" by simp
  with True show ?thesis
    by (auto simp: uniqueid_rotate_def bit_simps add.commute)
next
  case False
  show ?thesis
  proof (cases "n < 32")
    case True
    with False have "(n + 28) mod 32 = n - 4"
      by (simp add: mod_nat_eqI)
    moreover have "\<not> bit v (28 + n)"
      using False bit_imp_le_length [of v "28 + n"] by auto
    ultimately show ?thesis
      using False True by (auto simp: uniqueid_rotate_def bit_simps)
  next
    case False2: False
    then show ?thesis using bit_imp_le_length [of "uniqueid_rotate v" n] by auto
  qed
qed

lemma uniqueid_rotate_inj: "uniqueid_rotate a = uniqueid_rotate b \<longleftrightarrow> a = b"
proof
  assume eq: "uniqueid_rotate a = uniqueid_rotate b"
  show "a = b"
  proof (rule bit_word_eqI)
    fix n assume "n < LENGTH(32)"
    then have n: "n < 32" by simp
    define m where "m = (n + 4) mod 32"
    have m: "m < 32" "(m + 28) mod 32 = n"
      using n by (auto simp: m_def mod_simps)
    have "bit (uniqueid_rotate a) m = bit (uniqueid_rotate b) m" using eq by simp
    then show "bit a n = bit b n" by (simp add: bit_uniqueid_rotate m)
  qed
qed simp

lemma uniqueid_rotate_0 [simp]: "uniqueid_rotate 0 = 0"
  by (simp add: uniqueid_rotate_def)

lemma uniqueid_rotate_eq_0 [simp]: "uniqueid_rotate v = 0 \<longleftrightarrow> v = 0"
  using uniqueid_rotate_inj [of v 0] by simp

lemma uniqueid_rotate_minus_1: "uniqueid_rotate (- 1) = - 1"
  by (simp add: uniqueid_rotate_def)

lemma uniqueid_rotate_eq_minus_1 [simp]: "uniqueid_rotate v = - 1 \<longleftrightarrow> v = - 1"
  using uniqueid_rotate_inj [of v "- 1"] by (simp add: uniqueid_rotate_minus_1)

lemma minus_1_eq_uniqueid_rotate [simp]: "- 1 = uniqueid_rotate v \<longleftrightarrow> v = - 1"
  by (metis uniqueid_rotate_eq_minus_1)

lemma uniqueid_from_string_nonzero:
  "fst (mulle_objc_uniqueid_from_string h s) \<noteq> 0"
  by (auto simp: mulle_objc_uniqueid_from_string_def uniqueid_avoid_zero_def c_defs
      Let_def split: option.splits)

lemma uniqueid_compare_zero [simp]: "mulle_objc_uniqueid_compare_r a b = 0 \<longleftrightarrow> a = b"
  by (auto simp: mulle_objc_uniqueid_compare_r_def)

lemma uniqueid_compare_neg [simp]: "mulle_objc_uniqueid_compare_r a b < 0 \<longleftrightarrow> a < b"
  by (auto simp: mulle_objc_uniqueid_compare_r_def)

lemma uniqueid_compare_pos [simp]: "0 < mulle_objc_uniqueid_compare_r a b \<longleftrightarrow> b < a"
  by (auto simp: mulle_objc_uniqueid_compare_r_def)

lemma uniqueid_arraycount_loop_terminated:
  "(\<And>u. u \<in> set us \<Longrightarrow> u \<noteq> 0) \<Longrightarrow>
    uniqueid_arraycount_loop (us @ 0 # rest) n = Inr (n + of_nat (length us))"
  by (induction us arbitrary: n) (auto simp: algebra_simps)

text \<open>Hashing keeps names apart exactly as well as the underlying FNV hash does: the
  rotation of the hash and the replacement of 0 never merge two names whose hashes differ,
  except the two hashes 0 and 0xffffffff, which both become the invalid id.\<close>

theorem uniqueid_collisions_are_hash_collisions:
  assumes "of_nat (length s) \<noteq> (0 :: uint32)" and "of_nat (length t) \<noteq> (0 :: uint32)"
  shows "fst (mulle_objc_uniqueid_from_string h (Some s)) =
           fst (mulle_objc_uniqueid_from_string h (Some t)) \<longleftrightarrow>
         h s (of_nat (length s)) = h t (of_nat (length t)) \<or>
         {h s (of_nat (length s)), h t (of_nat (length t))} \<subseteq> {0, - 1}"
  using assms
  by (auto simp: mulle_objc_uniqueid_from_string_def uniqueid_avoid_zero_def c_defs
      Let_def uniqueid_rotate_inj)

theorem uniqueid_collisions_are_hash_collisions_witness:
  "fst (mulle_objc_uniqueid_from_string (\<lambda>s n. n) (Some ''foo'')) \<noteq>
   fst (mulle_objc_uniqueid_from_string (\<lambda>s n. n) (Some ''initialize''))"
  using uniqueid_collisions_are_hash_collisions [of "''foo''" "''initialize''" "\<lambda>s n. n"]
  by simp

end
