(* ===== verification/Method.thy ===== *)
theory Method
  imports Uniqueid
begin

text \<open>
  The compiler-emitted records of the runtime and their petty accessors: method
  descriptors and methods (\<open>mulle-objc-method.h\<close>, \<open>.c\<close>), ivars (\<open>mulle-objc-ivar.h\<close>),
  properties (\<open>mulle-objc-property.h\<close>, \<open>.c\<close>) and protocols (\<open>mulle-objc-protocol.h\<close>,
  \<open>.c\<close>). Names and signatures are C strings; a method's implementation, a function
  pointer, is a value of the type parameter \<open>'imp\<close>.
\<close>

section \<open>Method descriptors and their bits\<close>

record mulle_objc_descriptor =
  desc_methodid :: mulle_objc_uniqueid_t
  desc_signature :: string
  desc_name :: string
  desc_bits :: uint32

record 'imp mulle_objc_method =
  method_descriptor :: mulle_objc_descriptor
  method_implementation :: 'imp

abbreviation method_methodid :: "'imp mulle_objc_method \<Rightarrow> mulle_objc_uniqueid_t" where
  "method_methodid m \<equiv> desc_methodid (method_descriptor m)"

definition method_check_unexpected_override :: uint32 where [c_defs]: "method_check_unexpected_override = 0x01"
definition method_variadic :: uint32 where [c_defs]: "method_variadic = 0x08"
definition method_type_equality_mask :: uint32 where [c_defs]: "method_type_equality_mask = 0x0C"
definition method_searched_and_found :: uint32 where [c_defs]: "method_searched_and_found = 0x80"
definition method_user_attribute_0 :: uint32 where [c_defs]: "method_user_attribute_0 = 0x800"
definition method_user_attribute_1 :: uint32 where [c_defs]: "method_user_attribute_1 = 0x1000"
definition method_user_attribute_4 :: uint32 where [c_defs]: "method_user_attribute_4 = 0x8000"
definition method_user_mask :: uint32 where [c_defs]: "method_user_mask = 0xF800"
definition methodfamily_mask :: uint32 where [c_defs]: "methodfamily_mask = 0x003F0000"
definition method_metaabi_rtype_mask :: uint32 where [c_defs]: "method_metaabi_rtype_mask = 0x00C00000"
definition method_metaabi_ptype_mask :: uint32 where [c_defs]: "method_metaabi_ptype_mask = 0x03000000"
definition method_metaabi_mask :: uint32 where [c_defs]: "method_metaabi_mask = 0x03C00000"

definition mulle_objc_method_bits_get_metaabi_rtype :: "uint32 \<Rightarrow> uint32" where
  "mulle_objc_method_bits_get_metaabi_rtype bits = drop_bit 22 (bits AND method_metaabi_rtype_mask)"

definition mulle_objc_method_bits_get_metaabi_ptype :: "uint32 \<Rightarrow> uint32" where
  "mulle_objc_method_bits_get_metaabi_ptype bits = drop_bit 24 (bits AND method_metaabi_ptype_mask)"

definition mulle_objc_method_bits_get_metaabi_calltype :: "uint32 \<Rightarrow> uint32" where
  "mulle_objc_method_bits_get_metaabi_calltype bits = drop_bit 22 (bits AND method_metaabi_mask)"

definition mulle_objc_method_bits_set_metaabi_types :: "uint32 \<Rightarrow> uint32 \<Rightarrow> uint32 \<Rightarrow> uint32" where
  "mulle_objc_method_bits_set_metaabi_types bits rType pType =
     (bits AND NOT method_metaabi_mask) OR (push_bit 22 rType OR push_bit 24 pType)"

definition method_bits_equality_mask :: uint32 where
  [c_defs]: "method_bits_equality_mask =
     method_user_attribute_0 OR method_user_attribute_1 OR method_type_equality_mask"

definition mulle_objc_method_bits_type_equal :: "uint32 \<Rightarrow> uint32 \<Rightarrow> bool" where
  "mulle_objc_method_bits_type_equal a b =
     (if (a XOR b) AND method_bits_equality_mask \<noteq> 0 then False else True)"

definition mulle_objc_descriptor_is_variadic :: "mulle_objc_descriptor \<Rightarrow> bool" where
  "mulle_objc_descriptor_is_variadic desc \<longleftrightarrow> desc_bits desc AND method_variadic \<noteq> 0"

definition mulle_objc_descriptor_is_hidden_override_fatal :: "mulle_objc_descriptor \<Rightarrow> bool" where
  "mulle_objc_descriptor_is_hidden_override_fatal desc \<longleftrightarrow>
     desc_bits desc AND method_check_unexpected_override \<noteq> 0"

definition mulle_objc_descriptor_get_methodfamily :: "mulle_objc_descriptor \<Rightarrow> uint32" where
  "mulle_objc_descriptor_get_methodfamily desc = drop_bit 16 (desc_bits desc AND methodfamily_mask)"

definition mulle_objc_descriptor_get_user_bits :: "mulle_objc_descriptor \<Rightarrow> uint32" where
  "mulle_objc_descriptor_get_user_bits desc = drop_bit 11 (desc_bits desc AND method_user_mask)"

text \<open>
  \<open>_mulle_objc_descriptor_set_user_bits\<close> asserts \<open>0 <= bits < 0x20\<close> and returns a value:
  it does not assign \<open>desc->bits\<close>, so the descriptor comes back unchanged.
\<close>

definition mulle_objc_descriptor_set_user_bits ::
  "mulle_objc_descriptor \<Rightarrow> uint32 \<Rightarrow> (uint32 \<times> mulle_objc_descriptor) c_result" where
  "mulle_objc_descriptor_set_user_bits desc bits =
     (if 0 \<le> sint bits \<and> sint bits < 0x20
      then Inr ((desc_bits desc AND NOT method_user_mask) OR push_bit 11 bits, desc)
      else Inl Assertion)"

definition mulle_objc_descriptor_is_threadaffine :: "mulle_objc_descriptor \<Rightarrow> bool" where
  "mulle_objc_descriptor_is_threadaffine desc \<longleftrightarrow> \<not> (desc_bits desc AND method_user_attribute_4 \<noteq> 0)"

definition mulle_objc_method_is_threadaffine :: "'imp mulle_objc_method \<Rightarrow> bool" where
  "mulle_objc_method_is_threadaffine method \<longleftrightarrow>
     \<not> (desc_bits (method_descriptor method) AND method_user_attribute_4 \<noteq> 0)"

definition mulle_objc_descriptor_is_sane ::
  "(string \<Rightarrow> uint32 \<Rightarrow> uint32) \<Rightarrow> mulle_objc_descriptor option \<Rightarrow> bool \<times> errno option" where
  "mulle_objc_descriptor_is_sane fnv1a_32 p =
     (case p of
        None \<Rightarrow> (False, Some EINVAL)
      | Some p \<Rightarrow>
          if c_peek (desc_signature p) = NUL then (False, Some EINVAL)
          else let (ok, e) = mulle_objc_uniqueid_is_sane_string fnv1a_32 (desc_methodid p) (Some (desc_name p))
               in if \<not> ok then (False, e) else (True, e))"

text \<open>\<open>mulle_objc_count_selector_arguments\<close>: the colons of a selector; \<open>NULL\<close> gives \<open>(unsigned int) -1\<close>.\<close>

fun count_selector_arguments_loop :: "string \<Rightarrow> uint32 \<Rightarrow> uint32" where
  "count_selector_arguments_loop [] n = n"
| "count_selector_arguments_loop (c # s) n =
     (if c = CHR '':'' then count_selector_arguments_loop s (n + 1)
      else count_selector_arguments_loop s n)"

definition mulle_objc_count_selector_arguments :: "string option \<Rightarrow> uint32" where
  "mulle_objc_count_selector_arguments s =
     (case s of None \<Rightarrow> - 1 | Some s \<Rightarrow> count_selector_arguments_loop s 0)"

section \<open>Ivars, properties, protocols\<close>

record mulle_objc_ivar =
  ivar_ivarid :: mulle_objc_uniqueid_t
  ivar_name :: string
  ivar_signature :: string
  ivar_offset :: int

record mulle_objc_property =
  property_propertyid :: mulle_objc_uniqueid_t
  property_ivarid :: mulle_objc_uniqueid_t
  property_name :: string
  property_signature :: string
  property_getter :: mulle_objc_uniqueid_t
  property_setter :: mulle_objc_uniqueid_t
  property_adder :: mulle_objc_uniqueid_t
  property_remover :: mulle_objc_uniqueid_t
  property_bits :: uint32

record mulle_objc_protocol =
  protocol_protocolid :: mulle_objc_uniqueid_t
  protocol_name :: string

definition mulle_objc_property_is_clearable :: "mulle_objc_property \<Rightarrow> bool" where
  "mulle_objc_property_is_clearable property \<longleftrightarrow>
     property_bits property AND (0x10000 OR 0x20000 OR 0x200000) \<noteq> 0"

text \<open>
  The attribute scanners of a property signature such as \<open>T@,R,Gfoo\<close>; the result is the
  rest of the string behind a comma (a pointer into it), or \<open>None\<close> for \<open>NULL\<close>.
\<close>

fun property_signature_find_type_loop :: "string \<Rightarrow> char \<Rightarrow> string option" where
  "property_signature_find_type_loop [] type = None"
| "property_signature_find_type_loop (c # s) type =
     (if c = CHR '','' \<and> c_peek s = type then Some s
      else property_signature_find_type_loop s type)"

definition mulle_objc_property_signature_find_type :: "mulle_objc_property \<Rightarrow> char \<Rightarrow> string option" where
  "mulle_objc_property_signature_find_type property type =
     property_signature_find_type_loop (property_signature property) type"

fun mulle_objc_propertysignature_next_types :: "string \<Rightarrow> string \<Rightarrow> string option" where
  "mulle_objc_propertysignature_next_types [] types = None"
| "mulle_objc_propertysignature_next_types (c # s) types =
     (if c = CHR '','' \<and> c_strchr types (c_peek s) then Some s
      else mulle_objc_propertysignature_next_types s types)"

definition mulle_objc_protocol_is_sane :: "mulle_objc_protocol option \<Rightarrow> bool \<times> errno option" where
  "mulle_objc_protocol_is_sane p =
     (case p of
        None \<Rightarrow> (False, Some EINVAL)
      | Some p \<Rightarrow>
          if protocol_protocolid p = MULLE_OBJC_NO_UNIQUEID
             \<or> protocol_protocolid p = MULLE_OBJC_INVALID_UNIQUEID then (False, Some EINVAL)
          else if length (protocol_name p) = 0 then (False, Some EINVAL)
          else (True, None))"

section \<open>Lemmas\<close>

lemma count_selector_arguments_loop_eq:
  "count_selector_arguments_loop s n = n + of_nat (count_list s (CHR '':''))"
  by (induction s arbitrary: n) (auto simp: algebra_simps)

lemma metaabi_masks:
  "method_metaabi_rtype_mask = push_bit 22 (mask 2)"
  "method_metaabi_ptype_mask = push_bit 24 (mask 2)"
  "method_metaabi_mask = push_bit 22 (mask 4)"
  by (simp_all add: c_defs mask_eq_exp_minus_1)

lemma metaabi_masks_bits:
  "bit method_metaabi_rtype_mask n \<longleftrightarrow> n \<in> {22, 23}"
  "bit method_metaabi_ptype_mask n \<longleftrightarrow> n \<in> {24, 25}"
  "bit method_metaabi_mask n \<longleftrightarrow> n \<in> {22, 23, 24, 25}"
  by (auto simp: metaabi_masks bit_push_bit_iff bit_mask_iff)

text \<open>Values of two bits: what \<open>enum mulle_metaabi_param\<close> without the error needs.\<close>

lemma bit_less_4:
  "(x :: uint32) < 4 \<Longrightarrow> bit x n \<Longrightarrow> n = 0 \<or> n = 1"
proof -
  assume "x < 4" "bit x n"
  then have "unat x < 2 ^ 2" by (simp add: word_less_nat_alt)
  then have "take_bit 2 (unat x) = unat x" by (simp add: take_bit_nat_eq_self_iff)
  moreover from \<open>bit x n\<close> have "bit (unat x) n" by (simp add: bit_unsigned_iff)
  ultimately have "n < 2" by (metis bit_take_bit_iff)
  then show ?thesis by auto
qed

lemma bits_set_metaabi_types_bit:
  assumes "r < 4" and "p < 4"
  shows "bit (mulle_objc_method_bits_set_metaabi_types b r p) n \<longleftrightarrow>
    (if n \<in> {22, 23} then bit r (n - 22)
     else if n \<in> {24, 25} then bit p (n - 24) else bit b n)"
proof (cases "n < 32")
  case True
  have rp: "bit r (n - 22) \<Longrightarrow> n \<le> 23" "bit p (n - 24) \<Longrightarrow> n \<le> 25"
    using bit_less_4 [OF assms(1), of "n - 22"] bit_less_4 [OF assms(2), of "n - 24"] by auto
  show ?thesis
    using True rp
    by (auto simp: mulle_objc_method_bits_set_metaabi_types_def bit_or_iff bit_and_iff bit_not_iff
        bit_push_bit_iff metaabi_masks_bits)
next
  case False
  then show ?thesis
    using bit_imp_le_length [of b n]
      bit_imp_le_length [of "mulle_objc_method_bits_set_metaabi_types b r p" n] by auto
qed

text \<open>Writing the return and the parameter type of the MetaABI into a method's bits and reading
  them back gives the two types, the combined call type is the parameter type above the return
  type, and no other bit of the method changes.\<close>

theorem method_bits_metaabi_roundtrip:
  assumes "rType < 4" and "pType < 4"
    and "bits' = mulle_objc_method_bits_set_metaabi_types bits rType pType"
  shows "mulle_objc_method_bits_get_metaabi_rtype bits' = rType \<and>
    mulle_objc_method_bits_get_metaabi_ptype bits' = pType \<and>
    mulle_objc_method_bits_get_metaabi_calltype bits' = push_bit 2 pType OR rType \<and>
    bits' AND NOT method_metaabi_mask = bits AND NOT method_metaabi_mask"
proof -
  note defs = assms(3) mulle_objc_method_bits_get_metaabi_rtype_def
    mulle_objc_method_bits_get_metaabi_ptype_def mulle_objc_method_bits_get_metaabi_calltype_def
    bit_drop_bit_eq bit_and_iff bit_or_iff bit_not_iff bit_push_bit_iff metaabi_masks_bits
    bits_set_metaabi_types_bit [OF assms(1,2)]
  note small = bit_less_4 [OF assms(1)] bit_less_4 [OF assms(2)]
  have "mulle_objc_method_bits_get_metaabi_rtype bits' = rType"
    by (rule bit_word_eqI) (auto simp: defs dest: small)
  moreover have "mulle_objc_method_bits_get_metaabi_ptype bits' = pType"
    by (rule bit_word_eqI) (auto simp: defs dest: small)
  moreover have "mulle_objc_method_bits_get_metaabi_calltype bits' = push_bit 2 pType OR rType"
    by (rule bit_word_eqI) (auto simp: defs dest: small)
  moreover have "bits' AND NOT method_metaabi_mask = bits AND NOT method_metaabi_mask"
    by (rule bit_word_eqI) (auto simp: defs)
  ultimately show ?thesis by blast
qed

theorem method_bits_metaabi_roundtrip_witness:
  "mulle_objc_method_bits_get_metaabi_rtype
     (mulle_objc_method_bits_set_metaabi_types 0xFFFFFFFF 2 1) = 2"
  using method_bits_metaabi_roundtrip [of 2 1 _ "0xFFFFFFFF", OF _ _ refl] by simp

end
