(* ===== verification/Tables.thy ===== *)
theory Tables
  imports Method "HOL-Library.Multiset"
begin

text \<open>
  The tables of the runtime, arrays of records that are sorted by unique id and searched:
  method lists, ivar lists, property lists, protocol lists
  (\<open>mulle-objc-methodlist.c\<close>, \<open>-ivarlist.c\<close>, \<open>-propertylist.c\<close>, \<open>-protocollist.c\<close> and the
  \<open>bsearch\<close> routines of \<open>-method.c\<close>, \<open>-ivar.c\<close>, \<open>-property.c\<close>, \<open>-protocol.c\<close>), and the
  id arrays of \<open>mulle-objc-uniqueidarray.h\<close>. A list is a HOL list, its count
  \<open>n_methods\<close> etc. the list's length; a pointer to an element is the element's index, so
  \<open>None\<close> is \<open>NULL\<close>. The sorting routine is another library's: the parameter \<open>qsort\<close>.
\<close>

section \<open>Linear search and walking\<close>

text \<open>The loop \<open>while( p < sentinel)\<close> over the elements, with \<open>p\<close> as an index.\<close>

fun list_find_loop :: "('a \<Rightarrow> bool) \<Rightarrow> 'a list \<Rightarrow> nat \<Rightarrow> nat option" where
  "list_find_loop P [] p = None"
| "list_find_loop P (x # xs) p = (if P x then Some p else list_find_loop P xs (Suc p))"

definition mulle_objc_methodlist_find ::
  "'imp mulle_objc_method list \<Rightarrow> mulle_objc_uniqueid_t \<Rightarrow> nat option" where
  "mulle_objc_methodlist_find methods methodid =
     list_find_loop (\<lambda>p. method_methodid p = methodid) methods 0"

definition mulle_objc_methodlist_linear_impsearch ::
  "'imp mulle_objc_method list \<Rightarrow> 'imp \<Rightarrow> nat option" where
  "mulle_objc_methodlist_linear_impsearch methods imp =
     list_find_loop (\<lambda>p. method_implementation p = imp) methods 0"

definition mulle_objc_ivarlist_find ::
  "mulle_objc_ivar list \<Rightarrow> mulle_objc_uniqueid_t \<Rightarrow> nat option" where
  "mulle_objc_ivarlist_find ivars ivarid = list_find_loop (\<lambda>p. ivar_ivarid p = ivarid) ivars 0"

definition mulle_objc_propertylist_find ::
  "mulle_objc_property list \<Rightarrow> mulle_objc_uniqueid_t \<Rightarrow> nat option" where
  "mulle_objc_propertylist_find properties propertyid =
     list_find_loop (\<lambda>p. property_propertyid p = propertyid) properties 0"

definition mulle_objc_propertylist_find_for_methodid ::
  "mulle_objc_property list \<Rightarrow> mulle_objc_uniqueid_t \<Rightarrow> nat option" where
  "mulle_objc_propertylist_find_for_methodid properties methodid =
     list_find_loop (\<lambda>p. property_getter p = methodid \<or> property_setter p = methodid
        \<or> property_adder p = methodid \<or> property_remover p = methodid) properties 0"

definition mulle_objc_protocollist_find ::
  "mulle_objc_protocol list \<Rightarrow> mulle_objc_uniqueid_t \<Rightarrow> nat option" where
  "mulle_objc_protocollist_find protocols protocolid =
     list_find_loop (\<lambda>p. protocol_protocolid p = protocolid) protocols 0"

text \<open>
  The walkers call back for each element with the accumulated effects of the callback as a
  state, and stop at the first nonzero command, which they return.
\<close>

fun list_walk_loop :: "('a \<Rightarrow> 's \<Rightarrow> int \<times> 's) \<Rightarrow> 'a list \<Rightarrow> 's \<Rightarrow> int \<times> 's" where
  "list_walk_loop callback [] s = (0, s)"
| "list_walk_loop callback (p # ps) s =
     (let (rval, s') = callback p s
      in if rval \<noteq> 0 then (rval, s') else list_walk_loop callback ps s')"

definition mulle_objc_methodlist_walk ::
  "'imp mulle_objc_method list \<Rightarrow> ('imp mulle_objc_method \<Rightarrow> 's \<Rightarrow> int \<times> 's) \<Rightarrow> 's \<Rightarrow> int \<times> 's" where
  "mulle_objc_methodlist_walk methods callback s = list_walk_loop callback methods s"

definition mulle_objc_ivarlist_walk ::
  "mulle_objc_ivar list \<Rightarrow> (mulle_objc_ivar \<Rightarrow> 's \<Rightarrow> int \<times> 's) \<Rightarrow> 's \<Rightarrow> int \<times> 's" where
  "mulle_objc_ivarlist_walk ivars f s = list_walk_loop f ivars s"

definition mulle_objc_propertylist_walk ::
  "mulle_objc_property list \<Rightarrow> (mulle_objc_property \<Rightarrow> 's \<Rightarrow> int \<times> 's) \<Rightarrow> 's \<Rightarrow> int \<times> 's" where
  "mulle_objc_propertylist_walk properties f s = list_walk_loop f properties s"

definition mulle_objc_protocollist_walk ::
  "mulle_objc_protocol list \<Rightarrow> (mulle_objc_protocol \<Rightarrow> 's \<Rightarrow> int \<times> 's) \<Rightarrow> 's \<Rightarrow> int \<times> 's" where
  "mulle_objc_protocollist_walk protocols f s = list_walk_loop f protocols s"

section \<open>Binary search\<close>

text \<open>
  The loop of \<open>_mulle_objc_method_bsearch\<close> and \<open>_mulle_objc_property_bsearch\<close>: the middle
  is computed at the top of the body. \<open>first\<close>, \<open>last\<close> and \<open>middle\<close> are C \<open>int\<close>s, so
  their sum may overflow, and the element read may lie outside the array: both are faults.
\<close>

function bsearch_loop ::
  "('a \<Rightarrow> uint32) \<Rightarrow> 'a list \<Rightarrow> uint32 \<Rightarrow> int \<Rightarrow> int \<Rightarrow> nat option c_result" where
  "bsearch_loop key buf search first lastv =
     (if first \<le> lastv then
        c_bind (c_int_add first lastv) (\<lambda>sum. let middle = c_half sum in
        c_bind (c_read buf middle) (\<lambda>p.
          if key p \<le> search then
            if key p = search then Inr (Some (nat middle))
            else bsearch_loop key buf search (middle + 1) lastv
          else bsearch_loop key buf search first (middle - 1)))
      else Inr None)"
  by pat_completeness auto
termination
  by (relation "measure (\<lambda>(key, buf, search, first, lastv). nat (lastv - first + 1))")
    (auto simp: c_int_add_def c_half_def split: if_splits)

text \<open>
  The loop of \<open>_mulle_objc_ivar_bsearch\<close>, \<open>_mulle_objc_protocol_bsearch\<close> and
  \<open>_mulle_objc_uniqueidarray_search\<close>: the middle is computed before the loop and again at the
  end of the body.
\<close>

function bsearch_loop_pre ::
  "('a \<Rightarrow> uint32) \<Rightarrow> 'a list \<Rightarrow> uint32 \<Rightarrow> int \<Rightarrow> int \<Rightarrow> nat option c_result" where
  "bsearch_loop_pre key buf search first lastv =
     c_bind (c_int_add first lastv) (\<lambda>sum. let middle = c_half sum in
     if first \<le> lastv then
        c_bind (c_read buf middle) (\<lambda>p.
          if key p \<le> search then
            if key p = search then Inr (Some (nat middle))
            else bsearch_loop_pre key buf search (middle + 1) lastv
          else bsearch_loop_pre key buf search first (middle - 1))
      else Inr None)"
  by pat_completeness auto
termination
  by (relation "measure (\<lambda>(key, buf, search, first, lastv). nat (lastv - first + 1))")
    (auto simp: c_int_add_def c_half_def split: if_splits)

declare bsearch_loop.simps [simp del] bsearch_loop_pre.simps [simp del]

text \<open>The callers: \<open>last = n - 1\<close> is an unsigned subtraction converted to \<open>int\<close>.\<close>

definition bsearch_last :: "'a list \<Rightarrow> int" where
  "bsearch_last buf = sint ((of_nat (length buf) :: uint32) - 1)"

definition mulle_objc_method_bsearch ::
  "'imp mulle_objc_method list \<Rightarrow> mulle_objc_uniqueid_t \<Rightarrow> nat option c_result" where
  "mulle_objc_method_bsearch buf search = bsearch_loop method_methodid buf search 0 (bsearch_last buf)"

definition mulle_objc_property_bsearch ::
  "mulle_objc_property list \<Rightarrow> mulle_objc_uniqueid_t \<Rightarrow> nat option c_result" where
  "mulle_objc_property_bsearch buf search =
     bsearch_loop property_propertyid buf search 0 (bsearch_last buf)"

definition bsearch_pre ::
  "('a \<Rightarrow> uint32) \<Rightarrow> 'a list \<Rightarrow> uint32 \<Rightarrow> nat option c_result" where
  "bsearch_pre key buf search = bsearch_loop_pre key buf search 0 (bsearch_last buf)"

definition mulle_objc_ivar_bsearch ::
  "mulle_objc_ivar list \<Rightarrow> mulle_objc_uniqueid_t \<Rightarrow> nat option c_result" where
  "mulle_objc_ivar_bsearch buf search = bsearch_pre ivar_ivarid buf search"

definition mulle_objc_protocol_bsearch ::
  "mulle_objc_protocol list \<Rightarrow> mulle_objc_uniqueid_t \<Rightarrow> nat option c_result" where
  "mulle_objc_protocol_bsearch buf search = bsearch_pre protocol_protocolid buf search"

text \<open>The id array search is asserted to be for a sane id and returns a truth value.\<close>

definition mulle_objc_uniqueidarray_search ::
  "mulle_objc_uniqueid_t list \<Rightarrow> mulle_objc_uniqueid_t \<Rightarrow> bool c_result" where
  "mulle_objc_uniqueidarray_search entries search =
     (if search \<noteq> MULLE_OBJC_NO_UNIQUEID \<and> search \<noteq> MULLE_OBJC_INVALID_UNIQUEID
      then c_bind (bsearch_pre (\<lambda>u. u) entries search) (\<lambda>r. Inr (r \<noteq> None))
      else Inl Assertion)"

section \<open>Searches that choose\<close>

text \<open>Fourteen and more elements are searched by bisection, fewer by a scan.\<close>

definition mulle_objc_methodlist_search ::
  "'imp mulle_objc_method list \<Rightarrow> mulle_objc_uniqueid_t \<Rightarrow> nat option c_result" where
  "mulle_objc_methodlist_search methods methodid =
     (if length methods \<ge> 14 then mulle_objc_method_bsearch methods methodid
      else Inr (mulle_objc_methodlist_find methods methodid))"

definition mulle_objc_ivarlist_search_smart ::
  "mulle_objc_ivar list \<Rightarrow> mulle_objc_uniqueid_t \<Rightarrow> nat option c_result" where
  "mulle_objc_ivarlist_search_smart ivars ivarid =
     (if length ivars \<ge> 14 then mulle_objc_ivar_bsearch ivars ivarid
      else Inr (mulle_objc_ivarlist_find ivars ivarid))"

definition mulle_objc_propertylist_search_smart ::
  "mulle_objc_property list \<Rightarrow> mulle_objc_uniqueid_t \<Rightarrow> nat option c_result" where
  "mulle_objc_propertylist_search_smart properties propertyid =
     (if length properties \<ge> 14 then mulle_objc_property_bsearch properties propertyid
      else Inr (mulle_objc_propertylist_find properties propertyid))"

definition mulle_objc_protocollist_search_smart ::
  "mulle_objc_protocol list \<Rightarrow> mulle_objc_uniqueid_t \<Rightarrow> nat option c_result" where
  "mulle_objc_protocollist_search_smart protocols protocolid =
     (if length protocols \<ge> 14 then mulle_objc_protocol_bsearch protocols protocolid
      else Inr (mulle_objc_protocollist_find protocols protocolid))"

section \<open>Sorting\<close>

text \<open>The comparators handed to the sort, and the sorts.\<close>

definition mulle_objc_method_compare_r :: "'imp mulle_objc_method \<Rightarrow> 'imp mulle_objc_method \<Rightarrow> int" where
  "mulle_objc_method_compare_r a b =
     (if method_methodid a < method_methodid b then - 1
      else of_bool (method_methodid a \<noteq> method_methodid b))"

definition mulle_objc_ivar_compare_r :: "mulle_objc_ivar \<Rightarrow> mulle_objc_ivar \<Rightarrow> int" where
  "mulle_objc_ivar_compare_r a b =
     (if ivar_ivarid a < ivar_ivarid b then - 1 else of_bool (ivar_ivarid a \<noteq> ivar_ivarid b))"

definition mulle_objc_property_compare :: "mulle_objc_property \<Rightarrow> mulle_objc_property \<Rightarrow> int" where
  "mulle_objc_property_compare a b =
     (if property_propertyid a < property_propertyid b then - 1
      else of_bool (property_propertyid a \<noteq> property_propertyid b))"

definition mulle_objc_protocol_compare :: "mulle_objc_protocol \<Rightarrow> mulle_objc_protocol \<Rightarrow> int" where
  "mulle_objc_protocol_compare a b =
     (if protocol_protocolid a < protocol_protocolid b then - 1
      else of_bool (protocol_protocolid a \<noteq> protocol_protocolid b))"

definition mulle_objc_methodlist_sort ::
  "(('imp mulle_objc_method \<Rightarrow> 'imp mulle_objc_method \<Rightarrow> int) \<Rightarrow>
     'imp mulle_objc_method list \<Rightarrow> 'imp mulle_objc_method list) \<Rightarrow>
   'imp mulle_objc_method list option \<Rightarrow> 'imp mulle_objc_method list option" where
  "mulle_objc_methodlist_sort qsort list =
     (case list of None \<Rightarrow> None | Some methods \<Rightarrow> Some (qsort mulle_objc_method_compare_r methods))"

definition mulle_objc_ivarlist_sort ::
  "((mulle_objc_ivar \<Rightarrow> mulle_objc_ivar \<Rightarrow> int) \<Rightarrow> mulle_objc_ivar list \<Rightarrow> mulle_objc_ivar list) \<Rightarrow>
   mulle_objc_ivar list option \<Rightarrow> mulle_objc_ivar list option" where
  "mulle_objc_ivarlist_sort qsort list =
     (case list of None \<Rightarrow> None | Some ivars \<Rightarrow> Some (qsort mulle_objc_ivar_compare_r ivars))"

definition mulle_objc_propertylist_sort ::
  "((mulle_objc_property \<Rightarrow> mulle_objc_property \<Rightarrow> int) \<Rightarrow>
     mulle_objc_property list \<Rightarrow> mulle_objc_property list) \<Rightarrow>
   mulle_objc_property list option \<Rightarrow> mulle_objc_property list option" where
  "mulle_objc_propertylist_sort qsort list =
     (case list of None \<Rightarrow> None | Some properties \<Rightarrow> Some (qsort mulle_objc_property_compare properties))"

definition mulle_objc_protocollist_sort ::
  "((mulle_objc_protocol \<Rightarrow> mulle_objc_protocol \<Rightarrow> int) \<Rightarrow>
     mulle_objc_protocol list \<Rightarrow> mulle_objc_protocol list) \<Rightarrow>
   mulle_objc_protocol list option \<Rightarrow> mulle_objc_protocol list option" where
  "mulle_objc_protocollist_sort qsort list =
     (case list of None \<Rightarrow> None | Some protocols \<Rightarrow> Some (qsort mulle_objc_protocol_compare protocols))"

section \<open>Arrays of ids\<close>

definition mulle_objc_uniqueidarray_by_adding_ids ::
  "((uint32 \<Rightarrow> uint32 \<Rightarrow> int) \<Rightarrow> uint32 list \<Rightarrow> uint32 list) \<Rightarrow>
   mulle_objc_uniqueid_t list \<Rightarrow> mulle_objc_uniqueid_t list \<Rightarrow> bool \<Rightarrow> mulle_objc_uniqueid_t list" where
  "mulle_objc_uniqueidarray_by_adding_ids qsort p uniqueids autosort =
     (let copy = p @ uniqueids
      in if autosort then qsort mulle_objc_uniqueid_compare_r copy else copy)"

text \<open>
  \<open>_mulle_objc_uniqueidarray_find\<close>: the body of the loop tests \<open>*p\<close> and never advances
  \<open>p\<close>, so the loop is modelled as one that may not return (\<open>None\<close>).
\<close>

partial_function (option) uniqueidarray_find_loop ::
  "mulle_objc_uniqueid_t list \<Rightarrow> nat \<Rightarrow> nat \<Rightarrow> mulle_objc_uniqueid_t \<Rightarrow> bool option" where
  "uniqueidarray_find_loop entries p sentinel search =
     (if p < sentinel
      then if entries ! p = search then Some True
           else uniqueidarray_find_loop entries p sentinel search
      else Some False)"

definition mulle_objc_uniqueidarray_find ::
  "mulle_objc_uniqueid_t list \<Rightarrow> mulle_objc_uniqueid_t \<Rightarrow> bool option" where
  "mulle_objc_uniqueidarray_find entries search =
     uniqueidarray_find_loop entries 0 (length entries) search"

section \<open>Correctness of the searches\<close>

subsection \<open>Linear search\<close>

lemma list_find_loop_None:
  "list_find_loop P xs p = None \<longleftrightarrow> (\<forall>x\<in>set xs. \<not> P x)"
  by (induction xs arbitrary: p) auto

lemma list_find_loop_Some:
  "list_find_loop P xs p = Some i \<longleftrightarrow>
    p \<le> i \<and> i - p < length xs \<and> P (xs ! (i - p)) \<and> (\<forall>j < i - p. \<not> P (xs ! j))"
proof (induction xs arbitrary: p)
  case (Cons x xs)
  show ?case
  proof (cases "P x")
    case True
    then show ?thesis by (auto simp: nth_Cons split: nat.splits)
  next
    case False
    show ?thesis
    proof (cases "Suc p \<le> i")
      case True
      then obtain k where k: "i - p = Suc k" "i - Suc p = k" by (cases "i - p") auto
      show ?thesis
        using False True Cons.IH [of "Suc p"] by (auto simp: k All_less_Suc2)
    next
      case nle: False
      then show ?thesis using False Cons.IH [of "Suc p"] by (cases "i = p") auto
    qed
  qed
qed simp

lemma list_walk_loop_append:
  "list_walk_loop f (xs @ ys) s =
    (let (r, s') = list_walk_loop f xs s in if r \<noteq> 0 then (r, s') else list_walk_loop f ys s')"
  by (induction xs arbitrary: s) (auto simp: Let_def split: prod.splits)

lemma list_walk_loop_all_ok:
  "(\<And>x s. x \<in> set xs \<Longrightarrow> fst (f x s) = 0) \<Longrightarrow>
    list_walk_loop f xs s = (0, fold (\<lambda>x s. snd (f x s)) xs s)"
proof (induction xs arbitrary: s)
  case (Cons x xs)
  then have "fst (f x s) = 0" by simp
  with Cons show ?case by (cases "f x s") (simp add: Let_def)
qed simp

subsection \<open>Binary search\<close>

lemma c_int_add_Inr [simp]:
  "INT_MIN \<le> a + b \<Longrightarrow> a + b \<le> INT_MAX \<Longrightarrow> c_int_add a b = Inr (a + b)"
  by (simp add: c_int_add_def)

definition bsearch_result :: "('a \<Rightarrow> uint32) \<Rightarrow> 'a list \<Rightarrow> uint32 \<Rightarrow> nat option \<Rightarrow> bool" where
  "bsearch_result key buf u r \<longleftrightarrow>
     (case r of None \<Rightarrow> u \<notin> key ` set buf | Some i \<Rightarrow> i < length buf \<and> key (buf ! i) = u)"

lemma bsearch_loop_correct:
  assumes "sorted (map key buf)" and "length buf \<le> 2 ^ 30"
    and "0 \<le> first" and "lastv < int (length buf)" and "first \<le> lastv + 1"
    and "\<And>i. i < nat first \<Longrightarrow> key (buf ! i) < u"
    and "\<And>i. nat (lastv + 1) \<le> i \<Longrightarrow> i < length buf \<Longrightarrow> u < key (buf ! i)"
  shows "\<exists>r. bsearch_loop key buf u first lastv = Inr r \<and> bsearch_result key buf u r"
  using assms
proof (induction key buf u first lastv rule: bsearch_loop.induct)
  case (1 key buf u first lastv)
  note srt = "1.prems"(1) and len = "1.prems"(2)
  show ?case
  proof (cases "first \<le> lastv")
    case False
    then have "lastv + 1 = first" using "1.prems"(5) by simp
    then have "key (buf ! i) \<noteq> u" if "i < length buf" for i
      using "1.prems"(6) [of i] "1.prems"(7) [of i] that by (cases "i < nat first") auto
    then have "u \<notin> key ` set buf" by (metis imageE in_set_conv_nth)
    with False show ?thesis by (simp add: bsearch_loop.simps bsearch_result_def)
  next
    case True
    define m where "m = (first + lastv) div 2"
    have m: "first \<le> m" "m \<le> lastv" "0 \<le> m" "m < int (length buf)"
      using True "1.prems"(3,4) by (auto simp: m_def)
    have add: "c_int_add first lastv = Inr (first + lastv)"
      using True "1.prems"(2,3,4) by simp
    have half: "c_half (first + lastv) = m"
      using True "1.prems"(3) by (simp add: m_def)
    have rd: "c_read buf m = Inr (buf ! nat m)" using m by simp
    note step = bsearch_loop.simps [of key buf u first lastv]
    consider (eq) "key (buf ! nat m) = u" | (lt) "key (buf ! nat m) < u" | (gt) "u < key (buf ! nat m)"
      by force
    then show ?thesis
    proof cases
      case eq
      then show ?thesis using m by (simp add: step True add half rd bsearch_result_def)
    next
      case lt
      have "key (buf ! i) < u" if "i < nat (m + 1)" for i
        using that m lt sorted_map_nth_le [OF srt, of i "nat m"]
        by (metis add.commute le_less_trans less_Suc_eq_le nat_less_iff Suc_nat_eq_nat_zadd1 zless_nat_eq_int_zless)
      with "1.IH"(1) [OF True add refl, of "buf ! nat m"] lt m "1.prems"
      show ?thesis by (simp add: step True add half rd less_imp_le less_imp_neq)
    next
      case gt
      have "u < key (buf ! i)" if "nat m \<le> i" "i < length buf" for i
        using that gt sorted_map_nth_le [OF srt, of "nat m" i] by simp
      moreover have ne: "\<not> key (buf ! nat m) \<le> u" "key (buf ! nat m) \<noteq> u" using gt by auto
      ultimately show ?thesis
        using "1.IH"(2) [OF True add refl, of "buf ! nat m"] m "1.prems"
        by (simp add: step True add half rd ne)
    qed
  qed
qed

lemma bsearch_loop_pre_eq:
  assumes "length buf \<le> 2 ^ 30"
    and "0 \<le> first" and "lastv < int (length buf)" and "first \<le> lastv + 1"
  shows "bsearch_loop_pre key buf u first lastv = bsearch_loop key buf u first lastv"
  using assms
proof (induction key buf u first lastv rule: bsearch_loop.induct)
  case (1 key buf u first lastv)
  have add: "c_int_add first lastv = Inr (first + lastv)" using "1.prems" by simp
  define m where "m = c_half (first + lastv)"
  show ?case
  proof (cases "first \<le> lastv")
    case True
    then have m: "first \<le> m" "m \<le> lastv" "c_read buf m = Inr (buf ! nat m)"
      using "1.prems" by (auto simp: m_def)
    note IH = "1.IH" [OF True add m_def m(3)]
    show ?thesis
      using True IH "1.prems" m
      by (simp add: bsearch_loop_pre.simps [of key buf u first lastv]
          bsearch_loop.simps [of key buf u first lastv] add Let_def m_def [symmetric])
  next
    case False
    then show ?thesis
      by (simp add: bsearch_loop_pre.simps [of key buf u first lastv]
          bsearch_loop.simps [of key buf u first lastv] add Let_def)
  qed
qed

lemma bsearch_last_eq:
  assumes "length buf \<le> 2 ^ 30"
  shows "bsearch_last buf = int (length buf) - 1"
proof (cases buf)
  case Nil
  then show ?thesis by (simp add: bsearch_last_def)
next
  case (Cons x xs)
  let ?n = "length xs"
  have "(of_nat (length buf) :: uint32) - 1 = of_nat ?n" using Cons by simp
  moreover have "sint (of_nat ?n :: uint32) = int ?n"
    using assms Cons by (simp add: signed_take_bit_int_eq_self signed_of_nat)
  ultimately show ?thesis using Cons by (simp add: bsearch_last_def)
qed

lemma bsearch_sorted:
  assumes "sorted (map key buf)" and "length buf \<le> 2 ^ 30"
  shows "\<exists>r. bsearch_loop key buf u 0 (bsearch_last buf) = Inr r \<and> bsearch_result key buf u r"
    and "bsearch_pre key buf u = bsearch_loop key buf u 0 (bsearch_last buf)"
proof -
  note last = bsearch_last_eq [OF assms(2)]
  show "\<exists>r. bsearch_loop key buf u 0 (bsearch_last buf) = Inr r \<and> bsearch_result key buf u r"
    using bsearch_loop_correct [OF assms, of 0 "bsearch_last buf" u] by (simp add: last)
  show "bsearch_pre key buf u = bsearch_loop key buf u 0 (bsearch_last buf)"
    using bsearch_loop_pre_eq [OF assms(2), of 0 "bsearch_last buf" key u]
    by (simp add: bsearch_pre_def last)
qed

subsection \<open>The interface of a sorted table\<close>

text \<open>What the sort of another library is relied on to do, for the comparators it is given.\<close>

definition comparator :: "('a \<Rightarrow> 'a \<Rightarrow> int) \<Rightarrow> bool" where
  "comparator cmp \<longleftrightarrow> (\<forall>a b. cmp a b \<le> 0 \<or> cmp b a \<le> 0) \<and>
     (\<forall>a b c. cmp a b \<le> 0 \<longrightarrow> cmp b c \<le> 0 \<longrightarrow> cmp a c \<le> 0)"

definition qsort_contract :: "(('a \<Rightarrow> 'a \<Rightarrow> int) \<Rightarrow> 'a list \<Rightarrow> 'a list) \<Rightarrow> bool" where
  "qsort_contract qsort \<longleftrightarrow> (\<forall>cmp xs. comparator cmp \<longrightarrow>
     mset (qsort cmp xs) = mset xs \<and> sorted_wrt (\<lambda>a b. cmp a b \<le> 0) (qsort cmp xs))"

text \<open>
  A sorted table: a key, a comparator that orders by the key, a search that on a sorted
  array of at most \<open>2 ^ 30\<close> elements faults nowhere and finds an element with the key or
  reports that there is none. Every list of the runtime provides it.
\<close>

locale sorted_table =
  fixes key :: "'a \<Rightarrow> uint32"
    and compare :: "'a \<Rightarrow> 'a \<Rightarrow> int"
    and find :: "'a list \<Rightarrow> uint32 \<Rightarrow> nat option"
    and search :: "'a list \<Rightarrow> uint32 \<Rightarrow> nat option c_result"
  assumes compare_le: "compare a b \<le> 0 \<longleftrightarrow> key a \<le> key b"
    and find_eq: "find buf u = list_find_loop (\<lambda>p. key p = u) buf 0"
    and search_sorted: "sorted (map key buf) \<Longrightarrow> length buf \<le> 2 ^ 30 \<Longrightarrow>
      \<exists>r. search buf u = Inr r \<and> bsearch_result key buf u r"
begin

lemma compare_comparator: "comparator compare"
  by (auto simp: comparator_def compare_le)

lemma find_result: "bsearch_result key buf u (find buf u)"
proof (cases "find buf u")
  case None
  then have "u \<notin> key ` set buf" by (auto simp: find_eq list_find_loop_None)
  with None show ?thesis by (simp add: bsearch_result_def)
next
  case (Some i)
  then have "i < length buf \<and> key (buf ! i) = u" by (simp add: find_eq list_find_loop_Some)
  with Some show ?thesis by (simp add: bsearch_result_def)
qed

lemma search_eq_find:
  assumes "sorted (map key buf)" and "distinct (map key buf)" and "length buf \<le> 2 ^ 30"
  shows "search buf u = Inr (find buf u)"
proof -
  obtain r where r: "search buf u = Inr r" "bsearch_result key buf u r"
    using search_sorted [OF assms(1,3)] by blast
  have "r = find buf u"
  proof (cases "u \<in> key ` set buf")
    case False
    then show ?thesis using r(2) find_result [of buf u]
      by (auto simp: bsearch_result_def split: option.splits)
  next
    case True
    then obtain i j where "r = Some i" "find buf u = Some j"
      "i < length buf" "j < length buf" "key (buf ! i) = u" "key (buf ! j) = u"
      using r(2) find_result [of buf u] by (auto simp: bsearch_result_def split: option.splits)
    then show ?thesis using inj_on_set_sorted_distinct [OF assms(2), of i j] by simp
  qed
  with r(1) show ?thesis by simp
qed

lemma sort_sorted:
  assumes "qsort_contract qsort"
  shows "sorted (map key (qsort compare buf)) \<and> mset (qsort compare buf) = mset buf"
proof -
  have "mset (qsort compare buf) = mset buf"
    and "sorted_wrt (\<lambda>a b. compare a b \<le> 0) (qsort compare buf)"
    using assms compare_comparator by (auto simp: qsort_contract_def)
  then show ?thesis by (simp add: compare_le sorted_map)
qed

lemma search_after_sort:
  assumes "qsort_contract qsort" and "length buf \<le> 2 ^ 30"
  shows "\<exists>r. search (qsort compare buf) u = Inr r \<and>
    (case r of None \<Rightarrow> u \<notin> key ` set buf
     | Some i \<Rightarrow> qsort compare buf ! i \<in> set buf \<and> key (qsort compare buf ! i) = u)"
proof -
  let ?s = "qsort compare buf"
  note srt = sort_sorted [OF assms(1), of buf]
  then have "length ?s = length buf" "set ?s = set buf" by (metis size_mset, metis set_mset_mset)
  moreover obtain r where "search ?s u = Inr r" "bsearch_result key ?s u r"
    using search_sorted [of ?s u] srt assms(2) \<open>length ?s = length buf\<close> by auto
  moreover from this(2) \<open>set ?s = set buf\<close>
  have "case r of None \<Rightarrow> u \<notin> key ` set buf | Some i \<Rightarrow> ?s ! i \<in> set buf \<and> key (?s ! i) = u"
    by (auto simp: bsearch_result_def dest: nth_mem split: option.splits)
  ultimately show ?thesis by blast
qed

end

lemma smart_result:
  assumes "bsearch_result key buf u f" and "\<exists>r. b = Inr r \<and> bsearch_result key buf u r"
  shows "\<exists>r. (if c then b else Inr f) = Inr r \<and> bsearch_result key buf u r"
  using assms by auto

lemma find_loop_result: "bsearch_result key buf u (list_find_loop (\<lambda>p. key p = u) buf 0)"
proof (cases "list_find_loop (\<lambda>p. key p = u) buf 0")
  case None
  then have "u \<notin> key ` set buf" by (auto simp: list_find_loop_None)
  with None show ?thesis by (simp add: bsearch_result_def)
next
  case (Some i)
  then have "i < length buf \<and> key (buf ! i) = u" by (simp add: list_find_loop_Some)
  with Some show ?thesis by (simp add: bsearch_result_def)
qed

interpretation methods: sorted_table method_methodid mulle_objc_method_compare_r
  mulle_objc_methodlist_find mulle_objc_methodlist_search
proof unfold_locales
  show "\<exists>r. mulle_objc_methodlist_search buf u = Inr r \<and> bsearch_result method_methodid buf u r"
    if "sorted (map method_methodid buf)" "length buf \<le> 2 ^ 30" for buf :: "'a mulle_objc_method list" and u
    unfolding mulle_objc_methodlist_search_def mulle_objc_methodlist_find_def mulle_objc_method_bsearch_def
    by (rule smart_result [OF find_loop_result bsearch_sorted(1) [OF that]])
qed (auto simp: mulle_objc_method_compare_r_def mulle_objc_methodlist_find_def)

interpretation ivars: sorted_table ivar_ivarid mulle_objc_ivar_compare_r
  mulle_objc_ivarlist_find mulle_objc_ivarlist_search_smart
proof unfold_locales
  show "\<exists>r. mulle_objc_ivarlist_search_smart buf u = Inr r \<and> bsearch_result ivar_ivarid buf u r"
    if "sorted (map ivar_ivarid buf)" "length buf \<le> 2 ^ 30" for buf u
    unfolding mulle_objc_ivarlist_search_smart_def mulle_objc_ivarlist_find_def
      mulle_objc_ivar_bsearch_def bsearch_sorted(2) [OF that]
    by (rule smart_result [OF find_loop_result bsearch_sorted(1) [OF that]])
qed (auto simp: mulle_objc_ivar_compare_r_def mulle_objc_ivarlist_find_def)

interpretation properties: sorted_table property_propertyid mulle_objc_property_compare
  mulle_objc_propertylist_find mulle_objc_propertylist_search_smart
proof unfold_locales
  show "\<exists>r. mulle_objc_propertylist_search_smart buf u = Inr r \<and> bsearch_result property_propertyid buf u r"
    if "sorted (map property_propertyid buf)" "length buf \<le> 2 ^ 30" for buf u
    unfolding mulle_objc_propertylist_search_smart_def mulle_objc_propertylist_find_def
      mulle_objc_property_bsearch_def
    by (rule smart_result [OF find_loop_result bsearch_sorted(1) [OF that]])
qed (auto simp: mulle_objc_property_compare_def mulle_objc_propertylist_find_def)

interpretation protocols: sorted_table protocol_protocolid mulle_objc_protocol_compare
  mulle_objc_protocollist_find mulle_objc_protocollist_search_smart
proof unfold_locales
  show "\<exists>r. mulle_objc_protocollist_search_smart buf u = Inr r \<and> bsearch_result protocol_protocolid buf u r"
    if "sorted (map protocol_protocolid buf)" "length buf \<le> 2 ^ 30" for buf u
    unfolding mulle_objc_protocollist_search_smart_def mulle_objc_protocollist_find_def
      mulle_objc_protocol_bsearch_def bsearch_sorted(2) [OF that]
    by (rule smart_result [OF find_loop_result bsearch_sorted(1) [OF that]])
qed (auto simp: mulle_objc_protocol_compare_def mulle_objc_protocollist_find_def)

section \<open>Properties\<close>


definition example_method :: "uint32 \<Rightarrow> nat mulle_objc_method" where
  "example_method u =
     \<lparr>method_descriptor = \<lparr>desc_methodid = u, desc_signature = ''v@:'', desc_name = ''m'', desc_bits = 0\<rparr>,
      method_implementation = unat u\<rparr>"



text \<open>A sort that meets the contract: insertion by the comparator.\<close>

fun isort_insert :: "('a \<Rightarrow> 'a \<Rightarrow> int) \<Rightarrow> 'a \<Rightarrow> 'a list \<Rightarrow> 'a list" where
  "isort_insert cmp x [] = [x]"
| "isort_insert cmp x (y # ys) = (if cmp x y \<le> 0 then x # y # ys else y # isort_insert cmp x ys)"

fun isort :: "('a \<Rightarrow> 'a \<Rightarrow> int) \<Rightarrow> 'a list \<Rightarrow> 'a list" where
  "isort cmp [] = []"
| "isort cmp (x # xs) = isort_insert cmp x (isort cmp xs)"

lemma mset_isort_insert: "mset (isort_insert cmp x xs) = add_mset x (mset xs)"
  by (induction xs) auto

lemma set_isort_insert: "set (isort_insert cmp x xs) = insert x (set xs)"
  using arg_cong [OF mset_isort_insert [of cmp x xs], of set_mset] by simp

lemma sorted_isort_insert:
  "comparator cmp \<Longrightarrow> sorted_wrt (\<lambda>a b. cmp a b \<le> 0) xs \<Longrightarrow>
    sorted_wrt (\<lambda>a b. cmp a b \<le> 0) (isort_insert cmp x xs)"
proof (induction xs)
  case (Cons y ys)
  then have tr: "cmp a b \<le> 0 \<Longrightarrow> cmp b c \<le> 0 \<Longrightarrow> cmp a c \<le> 0"
    and tot: "cmp a b \<le> 0 \<or> cmp b a \<le> 0" for a b c
    unfolding comparator_def by blast+
  show ?case
    using Cons tot [of x y] by (auto simp: set_isort_insert intro: tr)
qed simp

lemma isort_contract: "qsort_contract isort"
proof -
  have "mset (isort cmp xs) = mset xs" for cmp and xs :: "'a list"
    by (induction xs) (auto simp: mset_isort_insert)
  moreover have "comparator cmp \<Longrightarrow> sorted_wrt (\<lambda>a b. cmp a b \<le> 0) (isort cmp xs)" for cmp and xs :: "'a list"
    by (induction xs) (auto intro: sorted_isort_insert)
  ultimately show ?thesis by (simp add: qsort_contract_def)
qed

definition example_ivar :: "uint32 \<Rightarrow> mulle_objc_ivar" where
  "example_ivar u = \<lparr>ivar_ivarid = u, ivar_name = ''i'', ivar_signature = ''i'', ivar_offset = 0\<rparr>"


text \<open>The search of a sorted id array is membership, and an array composed with sorting is sorted.\<close>

lemma uniqueidarray_search_sorted:
  assumes "sorted ids" and "length ids \<le> 2 ^ 30" and "mulle_objc_uniqueid_is_sane u"
  shows "mulle_objc_uniqueidarray_search ids u = Inr (u \<in> set ids)"
proof -
  from bsearch_sorted [of "\<lambda>u. u" ids u] assms(1,2) obtain r
    where "bsearch_pre (\<lambda>u. u) ids u = Inr r" "bsearch_result (\<lambda>u. u) ids u r"
    by auto
  moreover from this(2) have "r \<noteq> None \<longleftrightarrow> u \<in> set ids"
    by (auto simp: bsearch_result_def split: option.splits)
  ultimately show ?thesis using assms(3) by (simp add: mulle_objc_uniqueidarray_search_def c_defs)
qed

lemma uniqueidarray_by_adding_ids_sorted:
  assumes "qsort_contract qsort"
  shows "sorted (mulle_objc_uniqueidarray_by_adding_ids qsort p uniqueids True)"
    "mset (mulle_objc_uniqueidarray_by_adding_ids qsort p uniqueids True) = mset (p @ uniqueids)"
proof -
  have le: "mulle_objc_uniqueid_compare_r a b \<le> 0 \<longleftrightarrow> a \<le> b" for a b
    by (auto simp: mulle_objc_uniqueid_compare_r_def)
  then have "comparator mulle_objc_uniqueid_compare_r" by (auto simp: comparator_def)
  with assms show "sorted (mulle_objc_uniqueidarray_by_adding_ids qsort p uniqueids True)"
    "mset (mulle_objc_uniqueidarray_by_adding_ids qsort p uniqueids True) = mset (p @ uniqueids)"
    by (auto simp: qsort_contract_def le mulle_objc_uniqueidarray_by_adding_ids_def)
qed

text \<open>The search of a sorted id array (categories, protocols) answers membership for every sane
  id; an array composed by adding ids with sorting requested is again a searchable array.\<close>

theorem uniqueidarray_search_after_adding:
  assumes "qsort_contract qsort" and "length p + length uniqueids \<le> 2 ^ 30"
    and "mulle_objc_uniqueid_is_sane u"
  shows "mulle_objc_uniqueidarray_search
           (mulle_objc_uniqueidarray_by_adding_ids qsort p uniqueids True) u
         = Inr (u \<in> set p \<union> set uniqueids)"
proof -
  note s = uniqueidarray_by_adding_ids_sorted [OF assms(1), of p uniqueids]
  from s(2) have "length (mulle_objc_uniqueidarray_by_adding_ids qsort p uniqueids True) \<le> 2 ^ 30"
    using assms(2) by (metis length_append size_mset)
  moreover from s(2) have "set (mulle_objc_uniqueidarray_by_adding_ids qsort p uniqueids True) = set p \<union> set uniqueids"
    by (metis set_append set_mset_mset)
  ultimately show ?thesis using uniqueidarray_search_sorted [OF s(1) _ assms(3)] by simp
qed

theorem uniqueidarray_search_after_adding_witness:
  "mulle_objc_uniqueidarray_search
     (mulle_objc_uniqueidarray_by_adding_ids isort [5, 9] [3] True) 4 = Inr False"
  using uniqueidarray_search_after_adding [OF isort_contract, of "[5, 9]" "[3]" 4] by simp

text \<open>The linear search of an id array returns only when the array is empty or its first id is
  the one looked for; in every other case it does not return, because its loop never advances.\<close>

theorem uniqueidarray_find_returns_iff:
  "(\<exists>r. mulle_objc_uniqueidarray_find entries search = Some r) \<longleftrightarrow>
     entries = [] \<or> hd entries = search"
proof
  assume "\<exists>r. mulle_objc_uniqueidarray_find entries search = Some r"
  then obtain r where "uniqueidarray_find_loop entries 0 (length entries) search = Some r"
    by (auto simp: mulle_objc_uniqueidarray_find_def)
  then have "0 < length entries \<longrightarrow> entries ! 0 = search"
    by (rule uniqueidarray_find_loop.raw_induct
        [where P = "\<lambda>entries p sentinel search r. p < sentinel \<longrightarrow> entries ! p = search", rotated])
      (auto split: if_splits)
  then show "entries = [] \<or> hd entries = search" by (cases entries) auto
next
  assume "entries = [] \<or> hd entries = search"
  then show "\<exists>r. mulle_objc_uniqueidarray_find entries search = Some r"
    by (cases entries) (auto simp: mulle_objc_uniqueidarray_find_def uniqueidarray_find_loop.simps)
qed

end
