(* ===== verification/Class_Search.thy ===== *)
theory Class_Search
  imports Tables
begin

text \<open>
  Method search (\<open>mulle-objc-class-search.h\<close>, \<open>.c\<close>): the uncached walk over the method rest
  of a class, its mixins and its superclasses. The heap of classes, class pairs and method
  lists is the record \<open>search_world\<close>, pointers are indices, a method is addressed by its list
  and its position. Tracing output is left out. Class setup, the universe's
  \<open>method_is_missing\<close> callback and the caller's search callback are parameters.
\<close>

section \<open>Search arguments\<close>

definition MULLE_OBJC_SEARCH_DEFAULT :: uint32 where [c_defs]: "MULLE_OBJC_SEARCH_DEFAULT = 0"
definition MULLE_OBJC_SEARCH_IMP :: uint32 where [c_defs]: "MULLE_OBJC_SEARCH_IMP = 1"
definition MULLE_OBJC_SEARCH_SUPER_METHOD :: uint32 where [c_defs]: "MULLE_OBJC_SEARCH_SUPER_METHOD = 2"
definition MULLE_OBJC_SEARCH_OVERRIDDEN_METHOD :: uint32 where [c_defs]: "MULLE_OBJC_SEARCH_OVERRIDDEN_METHOD = 3"
definition MULLE_OBJC_SEARCH_SPECIFIC_METHOD :: uint32 where [c_defs]: "MULLE_OBJC_SEARCH_SPECIFIC_METHOD = 4"
definition MULLE_OBJC_SEARCH_PREVIOUS_METHOD :: uint32 where [c_defs]: "MULLE_OBJC_SEARCH_PREVIOUS_METHOD = 5"

record searchargumentscachable =
  args_mode :: uint32
  args_methodid :: uint32
  args_classid :: uint32
  args_categoryid :: uint32

definition mulle_objc_searchargumentscachable_hash :: "searchargumentscachable \<Rightarrow> uint64" where
  "mulle_objc_searchargumentscachable_hash args =
     ((ucast (args_classid args) XOR ucast (args_categoryid args)) XOR ucast (args_methodid args))
       XOR ucast (args_mode args)"

definition mulle_objc_searchargumentscachable_equals ::
    "searchargumentscachable \<Rightarrow> searchargumentscachable \<Rightarrow> bool" where
  "mulle_objc_searchargumentscachable_equals a b \<longleftrightarrow>
     args_methodid a = args_methodid b \<and> args_classid a = args_classid b \<and>
     args_mode a = args_mode b \<and> args_categoryid a = args_categoryid b"

definition mulle_objc_searchargumentscacheable_assert :: "searchargumentscachable \<Rightarrow> bool" where
  "mulle_objc_searchargumentscacheable_assert p \<longleftrightarrow>
     (args_mode p = MULLE_OBJC_SEARCH_IMP \<or>
       (args_methodid p \<noteq> MULLE_OBJC_NO_UNIQUEID \<and> args_methodid p \<noteq> MULLE_OBJC_INVALID_UNIQUEID)) \<and>
     (args_mode p \<noteq> MULLE_OBJC_SEARCH_SUPER_METHOD \<or>
       (args_classid p \<noteq> 0 \<and> args_categoryid p = MULLE_OBJC_INVALID_UNIQUEID)) \<and>
     (args_mode p \<noteq> MULLE_OBJC_SEARCH_OVERRIDDEN_METHOD \<or>
       (args_classid p \<noteq> 0 \<and> args_categoryid p \<noteq> MULLE_OBJC_INVALID_UNIQUEID)) \<and>
     (args_mode p \<noteq> MULLE_OBJC_SEARCH_SPECIFIC_METHOD \<or>
       (args_classid p \<noteq> 0 \<and> args_categoryid p \<noteq> MULLE_OBJC_INVALID_UNIQUEID))"

definition mulle_objc_searchargumentscacheable_make_super :: "uint32 \<Rightarrow> uint32 \<Rightarrow> searchargumentscachable" where
  "mulle_objc_searchargumentscacheable_make_super methodid classid =
     \<lparr> args_mode = MULLE_OBJC_SEARCH_SUPER_METHOD, args_methodid = methodid, args_classid = classid,
       args_categoryid = MULLE_OBJC_INVALID_UNIQUEID \<rparr>"

definition mulle_objc_searchargumentscacheable_make_overridden ::
    "uint32 \<Rightarrow> uint32 \<Rightarrow> uint32 \<Rightarrow> searchargumentscachable" where
  "mulle_objc_searchargumentscacheable_make_overridden methodid classid categoryid =
     \<lparr> args_mode = MULLE_OBJC_SEARCH_OVERRIDDEN_METHOD, args_methodid = methodid, args_classid = classid,
       args_categoryid = categoryid \<rparr>"

definition mulle_objc_searchargumentscacheable_make_specific ::
    "uint32 \<Rightarrow> uint32 \<Rightarrow> uint32 \<Rightarrow> searchargumentscachable" where
  "mulle_objc_searchargumentscacheable_make_specific methodid classid categoryid =
     \<lparr> args_mode = MULLE_OBJC_SEARCH_SPECIFIC_METHOD, args_methodid = methodid, args_classid = classid,
       args_categoryid = categoryid \<rparr>"

section \<open>Classes, pairs and method lists\<close>

type_synonym method_ptr = "nat \<times> nat"

record search_class =
  sc_classid :: uint32
  sc_superclass :: "nat option"
  sc_infraclass :: "nat option"
  sc_inheritance :: uint32
  sc_state :: uint32
  sc_methodlists :: "nat list"
  sc_classpair :: nat
  sc_forwardmethod :: "method_ptr option"

record search_classpair =
  pair_infraclass :: nat
  pair_metaclass :: nat
  pair_mixins :: "nat list"

record 'imp search_methodlist =
  ml_loadcategory :: "uint32 option"
  ml_methods :: "'imp mulle_objc_method list"

record 'imp search_world =
  w_class :: "nat \<Rightarrow> search_class"
  w_pair :: "nat \<Rightarrow> search_classpair"
  w_list :: "nat \<Rightarrow> 'imp search_methodlist"

definition DONT_INHERIT_SUPERCLASS :: uint32 where [c_defs]: "DONT_INHERIT_SUPERCLASS = 0x01"
definition DONT_INHERIT_CATEGORIES :: uint32 where [c_defs]: "DONT_INHERIT_CATEGORIES = 0x02"
definition DONT_INHERIT_PROTOCOLS :: uint32 where [c_defs]: "DONT_INHERIT_PROTOCOLS = 0x04"
definition DONT_INHERIT_PROTOCOL_CATEGORIES :: uint32 where [c_defs]: "DONT_INHERIT_PROTOCOL_CATEGORIES = 0x08"
definition DONT_INHERIT_PROTOCOL_META :: uint32 where [c_defs]: "DONT_INHERIT_PROTOCOL_META = 0x10"
definition DONT_INHERIT_CLASS :: uint32 where [c_defs]: "DONT_INHERIT_CLASS = 0x20"
definition DONT_INHERIT_SUPERCLASS_INHERITANCE :: uint32 where
  [c_defs]: "DONT_INHERIT_SUPERCLASS_INHERITANCE = 0x40"

definition CLASS_STATE_IS_MIXIN :: uint32 where [c_defs]: "CLASS_STATE_IS_MIXIN = 0x0100"
definition CLASS_STATE_INITIALIZING :: uint32 where [c_defs]: "CLASS_STATE_INITIALIZING = 0x4000"

definition mulle_objc_class_is_infraclass :: "search_class \<Rightarrow> bool" where
  [c_defs]: "mulle_objc_class_is_infraclass cls \<longleftrightarrow> sc_infraclass cls = None"

definition mulle_objc_class_is_metaclass :: "search_class \<Rightarrow> bool" where
  [c_defs]: "mulle_objc_class_is_metaclass cls \<longleftrightarrow> sc_infraclass cls \<noteq> None"

definition mulle_objc_class_is_mixin :: "search_class \<Rightarrow> bool" where
  [c_defs]: "mulle_objc_class_is_mixin cls \<longleftrightarrow> sc_state cls AND CLASS_STATE_IS_MIXIN \<noteq> 0"

definition mulle_objc_methodlist_get_categoryid :: "'imp search_methodlist \<Rightarrow> uint32" where
  "mulle_objc_methodlist_get_categoryid list =
     (case ml_loadcategory list of None \<Rightarrow> MULLE_OBJC_NO_UNIQUEID | Some categoryid \<Rightarrow> categoryid)"

definition world_method :: "'imp search_world \<Rightarrow> method_ptr \<Rightarrow> 'imp mulle_objc_method" where
  "world_method w m = ml_methods (w_list w (fst m)) ! snd m"

text \<open>\<open>method->descriptor.bits |= _mulle_objc_method_searched_and_found\<close>.\<close>

definition mark_searched :: "'imp mulle_objc_method \<Rightarrow> 'imp mulle_objc_method" where
  "mark_searched m = m\<lparr> method_descriptor := (method_descriptor m)\<lparr> desc_bits :=
     desc_bits (method_descriptor m) OR method_searched_and_found \<rparr> \<rparr>"

definition world_mark_searched :: "method_ptr \<Rightarrow> 'imp search_world \<Rightarrow> 'imp search_world" where
  "world_mark_searched m w = w\<lparr> w_list := (w_list w)(fst m := (w_list w (fst m))\<lparr> ml_methods :=
     (ml_methods (w_list w (fst m)))[snd m := mark_searched (world_method w m)] \<rparr>) \<rparr>"

section \<open>The search\<close>

record mulle_objc_searchresult =
  result_class :: "nat option"
  result_list :: "nat option"
  result_method :: "method_ptr option"
  result_error :: "errno option"

text \<open>What a search callback may answer; with \<open>Walk_error\<close> comes the \<open>errno\<close> it leaves.\<close>

datatype walkcommand = Walk_error errno | Walk_ok | Walk_dont_descend | Walk_done | Walk_cancel

record ('imp, 'u) mulle_objc_searcharguments =
  search_args :: searchargumentscachable
  search_imp :: "'imp option"
  search_previous_method :: "method_ptr option"
  search_stop_classid :: uint32
  search_callback :: "(nat \<Rightarrow> uint32 \<Rightarrow> mulle_objc_searchresult \<Rightarrow> 'u \<Rightarrow> walkcommand \<times> 'u) option"
  search_initialize :: bool

text \<open>The state a search threads: the heap, \<open>*result\<close>, \<open>*mode\<close> and what \<open>userinfo\<close> points to.\<close>

record ('imp, 'u) search_state =
  st_world :: "'imp search_world"
  st_result :: mulle_objc_searchresult
  st_mode :: uint32
  st_user :: 'u

definition OFFSET_2_MODE :: uint32 where [c_defs]: "OFFSET_2_MODE = 100"
definition OFFSET_3_MODE :: uint32 where [c_defs]: "OFFSET_3_MODE = 200"

definition search_overridden_method_2 :: uint32 where
  [c_defs]: "search_overridden_method_2 = OFFSET_2_MODE + MULLE_OBJC_SEARCH_OVERRIDDEN_METHOD"
definition search_previous_method_2 :: uint32 where
  [c_defs]: "search_previous_method_2 = OFFSET_2_MODE + MULLE_OBJC_SEARCH_PREVIOUS_METHOD"
definition search_specific_method_2 :: uint32 where
  [c_defs]: "search_specific_method_2 = OFFSET_2_MODE + MULLE_OBJC_SEARCH_SPECIFIC_METHOD"
definition search_super_method_2 :: uint32 where
  [c_defs]: "search_super_method_2 = OFFSET_2_MODE + MULLE_OBJC_SEARCH_SUPER_METHOD"
definition search_overridden_method_3 :: uint32 where
  [c_defs]: "search_overridden_method_3 = OFFSET_3_MODE + MULLE_OBJC_SEARCH_OVERRIDDEN_METHOD"
definition search_specific_method_3 :: uint32 where
  [c_defs]: "search_specific_method_3 = OFFSET_3_MODE + MULLE_OBJC_SEARCH_SPECIFIC_METHOD"

text \<open>
  What the search returns: \<open>MULLE_OBJC_METHOD_SEARCH_FAIL\<close>, \<open>NULL\<close> (an error) or a method;
  and how the loop over the method lists ends: the function returns, or goes on to the
  mixins and the superclass with the current \<open>inheritance\<close> and \<open>found\<close>.
\<close>

datatype search_method = Method_Fail | Method_Null | Method_Found method_ptr

datatype search_flow = Return search_method | Proceed uint32 search_method

abbreviation set_mode :: "uint32 \<Rightarrow> ('imp, 'u) search_state \<Rightarrow> ('imp, 'u) search_state" where
  "set_mode m s \<equiv> s\<lparr> st_mode := m \<rparr>"

definition set_error :: "errno \<Rightarrow> ('imp, 'u) search_state \<Rightarrow> ('imp, 'u) search_state" where
  "set_error e s = s\<lparr> st_result := (st_result s)\<lparr> result_error := Some e \<rparr> \<rparr>"

definition set_result :: "nat \<Rightarrow> nat \<Rightarrow> method_ptr \<Rightarrow> ('imp, 'u) search_state \<Rightarrow> ('imp, 'u) search_state" where
  "set_result cls list method s = s\<lparr> st_result := (st_result s)\<lparr> result_class := Some cls,
     result_list := Some list, result_method := Some method \<rparr> \<rparr>"

definition method_is_fatal_override :: "('imp, 'u) search_state \<Rightarrow> method_ptr \<Rightarrow> bool" where
  "method_is_fatal_override s m =
     mulle_objc_descriptor_is_hidden_override_fatal (method_descriptor (world_method (st_world s) m))"

definition search_methodlist ::
    "('imp, 'u) mulle_objc_searcharguments \<Rightarrow> ('imp, 'u) search_state \<Rightarrow> nat \<Rightarrow> nat option c_run" where
  "search_methodlist search s list =
     (let methods = ml_methods (w_list (st_world s) list) in
      if st_mode s = MULLE_OBJC_SEARCH_IMP
      then case search_imp search of
             None \<Rightarrow> run_fault Assertion
           | Some imp \<Rightarrow> run_return (mulle_objc_methodlist_linear_impsearch methods imp)
      else Some (mulle_objc_methodlist_search methods (args_methodid (search_args search))))"

text \<open>
  The body of the loop over the method lists of one class: it returns from the function, or
  goes on (\<open>continue\<close>, or the end of the body) with the current \<open>inheritance\<close> and \<open>found\<close>.
  Without a callback the body goes on to the check of the override bit, as after \<open>Walk_done\<close>.
\<close>

definition search_found_method ::
    "('imp, 'u) mulle_objc_searcharguments \<Rightarrow> nat \<Rightarrow> uint32 \<Rightarrow> search_method \<Rightarrow> method_ptr \<Rightarrow>
     ('imp, 'u) search_state \<Rightarrow> search_flow \<times> ('imp, 'u) search_state" where
  "search_found_method search cls inheritance found method s =
     (let s2 = set_result cls (fst method) method s;
          (cmd, u) = (case search_callback search of
                        None \<Rightarrow> (Walk_done, st_user s2)
                      | Some callback \<Rightarrow> callback cls inheritance (st_result s2) (st_user s2));
          s3 = s2\<lparr> st_user := u \<rparr>
      in case cmd of
           Walk_ok \<Rightarrow> (Proceed inheritance found, s3)
         | Walk_dont_descend \<Rightarrow> (Proceed (inheritance OR DONT_INHERIT_SUPERCLASS) found, s3)
         | Walk_cancel \<Rightarrow> (Return Method_Null, set_error ECANCELED s3)
         | Walk_error e \<Rightarrow> (Return Method_Null, set_error e s3)
         | Walk_done \<Rightarrow>
             if \<not> method_is_fatal_override s3 method
             then (Return (Method_Found method), s3\<lparr> st_world := world_mark_searched method (st_world s3) \<rparr>)
             else (Proceed inheritance (Method_Found method), s3))"

definition search_one_methodlist ::
    "('imp, 'u) mulle_objc_searcharguments \<Rightarrow> nat \<Rightarrow> uint32 \<Rightarrow> search_method \<Rightarrow> nat \<Rightarrow>
     ('imp, 'u) search_state \<Rightarrow> (search_flow \<times> ('imp, 'u) search_state) c_run" where
  "search_one_methodlist search cls inheritance found list s =
     (let args = search_args search;
          categoryid = mulle_objc_methodlist_get_categoryid (w_list (st_world s) list);
          classid = sc_classid (w_class (st_world s) cls)
      in
      if st_mode s = search_overridden_method_2
      then run_return (Proceed inheritance found,
             if args_categoryid args = categoryid
             then set_mode (st_mode s + (OFFSET_3_MODE - OFFSET_2_MODE)) s else s)
      else if st_mode s = search_specific_method_2 \<and> args_categoryid args \<noteq> categoryid
      then run_return (Proceed inheritance found, s)
      else
        let s1 = (if st_mode s = search_specific_method_2
                  then set_mode (st_mode s + (OFFSET_3_MODE - OFFSET_2_MODE)) s else s) in
        run_bind (search_methodlist search s1 list) (\<lambda>r.
          case r of
            None \<Rightarrow>
              if st_mode s1 = search_specific_method_3 then run_return (Return Method_Fail, s1)
              else run_return (Proceed inheritance found, s1)
          | Some k \<Rightarrow>
              if st_mode s1 = search_overridden_method_3 \<and>
                 args_classid args = classid \<and> args_categoryid args = categoryid
              then run_return (Proceed inheritance found, s1)
              else if st_mode s1 = search_specific_method_3
              then run_return (Return (Method_Found (list, k)), s1)
              else if st_mode s1 = MULLE_OBJC_SEARCH_PREVIOUS_METHOD \<and>
                      search_previous_method search = Some (list, k)
              then run_return (Proceed inheritance found, set_mode search_previous_method_2 s1)
              else if found \<noteq> Method_Fail
              then run_return (Return Method_Null, set_error EEXIST s1)
              else run_return (search_found_method search cls inheritance found (list, k) s1)))"

text \<open>
  The loop, last category first; \<open>n\<close> is the count the enumerator was given, \<open>i\<close> the loop's
  counter.
\<close>

primrec search_methodlists ::
    "('imp, 'u) mulle_objc_searcharguments \<Rightarrow> nat \<Rightarrow> nat \<Rightarrow> nat list \<Rightarrow> nat \<Rightarrow> uint32 \<Rightarrow> search_method \<Rightarrow>
     ('imp, 'u) search_state \<Rightarrow> (search_flow \<times> ('imp, 'u) search_state) c_run" where
  "search_methodlists search cls n [] i inheritance found s = run_return (Proceed inheritance found, s)"
| "search_methodlists search cls n (list # rest) i inheritance found s =
     (let dont_class = (inheritance AND DONT_INHERIT_CLASS \<noteq> 0);
          i' = (if dont_class then Suc i else i)
      in if dont_class \<and> i' = n then run_return (Proceed inheritance found, s)
         else run_bind (search_one_methodlist search cls inheritance found list s) (\<lambda>(flow, s1).
           case flow of
             Return m \<Rightarrow> run_return (Return m, s1)
           | Proceed inheritance' found' \<Rightarrow>
               search_methodlists search cls n rest i' inheritance' found' s1))"

text \<open>
  The part of \<open>_mulle_objc_class_search_method_internal\<close> in front of the label
  \<open>next_class\<close>; a jump to the label is a \<open>Proceed\<close>.
\<close>

definition search_own_methodlists ::
    "('imp, 'u) mulle_objc_searcharguments \<Rightarrow> nat \<Rightarrow> uint32 \<Rightarrow> ('imp, 'u) search_state \<Rightarrow>
     (search_flow \<times> ('imp, 'u) search_state) c_run" where
  "search_own_methodlists search cls inheritance s =
     (let c = w_class (st_world s) cls;
          match = (args_classid (search_args search) = sc_classid c);
          relative = (st_mode s = MULLE_OBJC_SEARCH_OVERRIDDEN_METHOD \<or>
                      st_mode s = MULLE_OBJC_SEARCH_SPECIFIC_METHOD)
      in
      if st_mode s = MULLE_OBJC_SEARCH_SUPER_METHOD
      then run_return (Proceed inheritance Method_Fail,
             if match then set_mode (st_mode s + OFFSET_2_MODE) s else s)
      else if relative \<and> \<not> match then run_return (Proceed inheritance Method_Fail, s)
      else
        let s1 = (if relative then set_mode (st_mode s + OFFSET_2_MODE) s else s) in
        if sc_classid c = search_stop_classid search then run_return (Return Method_Null, s1)
        else c_assert (length (sc_methodlists c) \<noteq> 0)
          (let n = (if inheritance AND DONT_INHERIT_CATEGORIES \<noteq> 0 then 1 else length (sc_methodlists c)) in
           run_bind (search_methodlists search cls n (rev (take n (sc_methodlists c))) 0
                       inheritance Method_Fail s1) (\<lambda>(flow, s2).
             case flow of
               Return m \<Rightarrow> run_return (Return m, s2)
             | Proceed inheritance' found \<Rightarrow>
                 if st_mode s2 = search_overridden_method_2 \<or> st_mode s2 = search_specific_method_2
                 then run_return (Return Method_Null, set_error EINVAL s2)
                 else run_return (Proceed inheritance' found, s2))))"

section \<open>Mixins and superclasses\<close>

text \<open>The class of a mixin that is searched: its metaclass, if a metaclass is searched.\<close>

definition mixin_walk_class :: "'imp search_world \<Rightarrow> nat \<Rightarrow> nat \<Rightarrow> nat" where
  "mixin_walk_class w cls proto =
     (if mulle_objc_class_is_metaclass (w_class w cls)
      then pair_metaclass (w_pair w (sc_classpair (w_class w proto))) else proto)"

definition mixin_inheritance :: "uint32 \<Rightarrow> uint32" where
  "mixin_inheritance inheritance =
     inheritance OR ((DONT_INHERIT_SUPERCLASS OR DONT_INHERIT_SUPERCLASS_INHERITANCE) OR DONT_INHERIT_PROTOCOLS)"

text \<open>
  The loop over the mixins; \<open>rec\<close> is the search of one class, \<open>found\<close> what an earlier mixin
  had. The enumerator skips the class itself, the loop skips it again.
\<close>

fun protocol_search_loop ::
    "(nat \<Rightarrow> uint32 \<Rightarrow> ('imp, 'u) search_state \<Rightarrow> (search_method \<times> ('imp, 'u) search_state) c_run) \<Rightarrow>
     ('imp, 'u) mulle_objc_searcharguments \<Rightarrow> nat \<Rightarrow> nat \<Rightarrow> uint32 \<Rightarrow> search_method \<Rightarrow> nat list \<Rightarrow>
     ('imp, 'u) search_state \<Rightarrow> (search_method \<times> ('imp, 'u) search_state) c_run" where
  "protocol_search_loop rec search cls infra inheritance found [] s = run_return (found, s)"
| "protocol_search_loop rec search cls infra inheritance found (proto # protos) s =
     (if proto = infra then protocol_search_loop rec search cls infra inheritance found protos s
      else
        let walk_cls = mixin_walk_class (st_world s) cls proto in
        run_bind (rec walk_cls (inheritance OR sc_inheritance (w_class (st_world s) walk_cls)) s) (\<lambda>(m, s1).
          case m of
            Method_Fail \<Rightarrow> protocol_search_loop rec search cls infra inheritance found protos s1
          | Method_Null \<Rightarrow> run_return (Method_Null, s1)
          | Method_Found method \<Rightarrow>
              if found \<noteq> Method_Fail then run_return (Method_Null, set_error EEXIST s1)
              else
                let (cmd, u) = (case search_callback search of
                                  None \<Rightarrow> (Walk_done, st_user s1)
                                | Some callback \<Rightarrow> callback cls inheritance (st_result s1) (st_user s1));
                    s2 = s1\<lparr> st_user := u \<rparr>
                in (case cmd of
                      Walk_ok \<Rightarrow> protocol_search_loop rec search cls infra inheritance found protos s2
                    | Walk_dont_descend \<Rightarrow>
                        protocol_search_loop rec search cls infra inheritance found protos s2
                    | Walk_cancel \<Rightarrow> run_return (Method_Null, set_error ECANCELED s2)
                    | Walk_error e \<Rightarrow> run_return (Method_Null, set_error e s2)
                    | Walk_done \<Rightarrow>
                        if \<not> method_is_fatal_override s2 method
                        then run_return (Method_Found method, s2)
                        else protocol_search_loop rec search cls infra inheritance (Method_Found method) protos s2)))"

definition mulle_objc_class_protocol_search_method ::
    "(nat \<Rightarrow> uint32 \<Rightarrow> ('imp, 'u) search_state \<Rightarrow> (search_method \<times> ('imp, 'u) search_state) c_run) \<Rightarrow>
     ('imp, 'u) mulle_objc_searcharguments \<Rightarrow> nat \<Rightarrow> uint32 \<Rightarrow>
     ('imp, 'u) search_state \<Rightarrow> (search_method \<times> ('imp, 'u) search_state) c_run" where
  "mulle_objc_class_protocol_search_method rec search cls inheritance s =
     (let w = st_world s;
          pair = w_pair w (sc_classpair (w_class w cls));
          infra = pair_infraclass pair
      in if mulle_objc_class_is_mixin (w_class w infra) then run_return (Method_Fail, s)
         else protocol_search_loop rec search cls infra (mixin_inheritance inheritance) Method_Fail
                (filter (\<lambda>proto. proto \<noteq> infra) (rev (pair_mixins pair))) s)"

definition mulle_objc_class_search_method_super ::
    "(nat \<Rightarrow> uint32 \<Rightarrow> ('imp, 'u) search_state \<Rightarrow> (search_method \<times> ('imp, 'u) search_state) c_run) \<Rightarrow>
     nat \<Rightarrow> uint32 \<Rightarrow> ('imp, 'u) search_state \<Rightarrow> (search_method \<times> ('imp, 'u) search_state) c_run" where
  "mulle_objc_class_search_method_super rec cls inheritance s =
     rec cls (if inheritance AND DONT_INHERIT_SUPERCLASS_INHERITANCE \<noteq> 0 then inheritance
              else sc_inheritance (w_class (st_world s) cls)) s"

text \<open>The inheritance handed to the superclass, with the special case of a root metaclass.\<close>

definition superclass_inheritance :: "search_class \<Rightarrow> search_class \<Rightarrow> uint32 \<Rightarrow> uint32" where
  "superclass_inheritance cls supercls inheritance =
     (if inheritance AND DONT_INHERIT_PROTOCOL_META \<noteq> 0 \<and>
         mulle_objc_class_is_metaclass cls \<and> mulle_objc_class_is_infraclass supercls
      then (if inheritance AND DONT_INHERIT_SUPERCLASS_INHERITANCE = 0
            then sc_inheritance supercls OR DONT_INHERIT_SUPERCLASS_INHERITANCE
            else inheritance) OR (DONT_INHERIT_PROTOCOLS OR DONT_INHERIT_PROTOCOL_META)
      else inheritance)"

definition search_superclass ::
    "(nat \<Rightarrow> uint32 \<Rightarrow> ('imp, 'u) search_state \<Rightarrow> (search_method \<times> ('imp, 'u) search_state) c_run) \<Rightarrow>
     nat \<Rightarrow> uint32 \<Rightarrow> search_method \<Rightarrow>
     ('imp, 'u) search_state \<Rightarrow> (search_method \<times> ('imp, 'u) search_state) c_run" where
  "search_superclass rec cls inheritance found s =
     (let w = st_world s in
      case sc_superclass (w_class w cls) of
        None \<Rightarrow> run_return (found, s)
      | Some supercls \<Rightarrow>
          if inheritance AND DONT_INHERIT_SUPERCLASS \<noteq> 0 then run_return (found, s)
          else run_bind (mulle_objc_class_search_method_super rec supercls
                  (superclass_inheritance (w_class w cls) (w_class w supercls) inheritance) s) (\<lambda>(m, s1).
            case m of
              Method_Fail \<Rightarrow> run_return (found, s1)
            | Method_Null \<Rightarrow> run_return (Method_Null, s1)
            | Method_Found method \<Rightarrow>
                if found \<noteq> Method_Fail then run_return (Method_Null, set_error EEXIST s1)
                else run_return (Method_Found method, s1)))"

text \<open>The part behind \<open>next_class\<close>.\<close>

definition search_next_class ::
    "(nat \<Rightarrow> uint32 \<Rightarrow> ('imp, 'u) search_state \<Rightarrow> (search_method \<times> ('imp, 'u) search_state) c_run) \<Rightarrow>
     ('imp, 'u) mulle_objc_searcharguments \<Rightarrow> nat \<Rightarrow> uint32 \<Rightarrow> search_method \<Rightarrow>
     ('imp, 'u) search_state \<Rightarrow> (search_method \<times> ('imp, 'u) search_state) c_run" where
  "search_next_class rec search cls inheritance found s =
     (if inheritance AND DONT_INHERIT_PROTOCOLS = 0
      then
        let tmp = (if inheritance AND DONT_INHERIT_PROTOCOL_CATEGORIES \<noteq> 0
                   then 0 OR DONT_INHERIT_CATEGORIES else 0) in
        run_bind (mulle_objc_class_protocol_search_method rec search cls tmp s) (\<lambda>(m, s1).
          case m of
            Method_Fail \<Rightarrow> search_superclass rec cls inheritance found s1
          | Method_Null \<Rightarrow> run_return (Method_Null, s1)
          | Method_Found method \<Rightarrow>
              if found \<noteq> Method_Fail then run_return (Method_Null, set_error EEXIST s1)
              else if \<not> method_is_fatal_override s1 method then run_return (Method_Found method, s1)
              else search_superclass rec cls inheritance (Method_Found method) s1)
      else search_superclass rec cls inheritance found s)"

text \<open>
  The recursion over mixins and superclasses; the first argument bounds its depth, \<open>None\<close> is
  a search that has not returned at that depth.
\<close>

fun mulle_objc_class_search_method_internal ::
    "nat \<Rightarrow> ('imp, 'u) mulle_objc_searcharguments \<Rightarrow> nat \<Rightarrow> uint32 \<Rightarrow>
     ('imp, 'u) search_state \<Rightarrow> (search_method \<times> ('imp, 'u) search_state) c_run" where
  "mulle_objc_class_search_method_internal 0 search cls inheritance s = None"
| "mulle_objc_class_search_method_internal (Suc depth) search cls inheritance s =
     run_bind (search_own_methodlists search cls inheritance s) (\<lambda>(flow, s1).
       case flow of
         Return m \<Rightarrow> run_return (m, s1)
       | Proceed inheritance' found \<Rightarrow>
           search_next_class (mulle_objc_class_search_method_internal depth search) search cls
             inheritance' found s1)"

section \<open>The interface\<close>

definition mulle_objc_searcharguments_assert :: "('imp, 'u) mulle_objc_searcharguments \<Rightarrow> bool" where
  "mulle_objc_searcharguments_assert p \<longleftrightarrow>
     mulle_objc_searchargumentscacheable_assert (search_args p) \<and>
     args_mode (search_args p) \<le> MULLE_OBJC_SEARCH_PREVIOUS_METHOD \<and>
     ((args_mode (search_args p) = MULLE_OBJC_SEARCH_PREVIOUS_METHOD \<and> search_previous_method p \<noteq> None) \<or>
      (args_mode (search_args p) \<noteq> MULLE_OBJC_SEARCH_PREVIOUS_METHOD \<and> search_previous_method p = None))"

definition mulle_objc_is_cacheablesearchmode :: "int \<Rightarrow> bool" where
  "mulle_objc_is_cacheablesearchmode mode \<longleftrightarrow>
     mode \<ge> uint MULLE_OBJC_SEARCH_SUPER_METHOD \<and> mode \<le> uint MULLE_OBJC_SEARCH_SPECIFIC_METHOD"

text \<open>The fields a compound literal leaves out are zero.\<close>

definition searcharguments_make ::
    "searchargumentscachable \<Rightarrow> 'imp option \<Rightarrow> method_ptr option \<Rightarrow> bool \<Rightarrow>
     ('imp, 'u) mulle_objc_searcharguments" where
  [c_defs]: "searcharguments_make args imp previous initialize =
     \<lparr> search_args = args, search_imp = imp, search_previous_method = previous, search_stop_classid = 0,
       search_callback = None, search_initialize = initialize \<rparr>"

definition mulle_objc_searcharguments_make_default :: "uint32 \<Rightarrow> ('imp, 'u) mulle_objc_searcharguments" where
  "mulle_objc_searcharguments_make_default methodid = searcharguments_make
     \<lparr> args_mode = MULLE_OBJC_SEARCH_DEFAULT, args_methodid = methodid, args_classid = 0, args_categoryid = 0 \<rparr>
     None None True"

definition mulle_objc_searcharguments_make_imp :: "'imp option \<Rightarrow> ('imp, 'u) mulle_objc_searcharguments" where
  "mulle_objc_searcharguments_make_imp imp = searcharguments_make
     \<lparr> args_mode = MULLE_OBJC_SEARCH_IMP, args_methodid = 0, args_classid = 0, args_categoryid = 0 \<rparr>
     imp None True"

definition mulle_objc_searcharguments_make_imp_no_initialize ::
    "'imp option \<Rightarrow> ('imp, 'u) mulle_objc_searcharguments" where
  "mulle_objc_searcharguments_make_imp_no_initialize imp = searcharguments_make
     \<lparr> args_mode = MULLE_OBJC_SEARCH_IMP, args_methodid = 0, args_classid = 0, args_categoryid = 0 \<rparr>
     imp None False"

definition mulle_objc_searcharguments_make_previous ::
    "'imp search_world \<Rightarrow> method_ptr \<Rightarrow> ('imp, 'u) mulle_objc_searcharguments" where
  "mulle_objc_searcharguments_make_previous w method = searcharguments_make
     \<lparr> args_mode = MULLE_OBJC_SEARCH_PREVIOUS_METHOD, args_methodid = method_methodid (world_method w method),
       args_classid = 0, args_categoryid = 0 \<rparr>
     None (Some method) True"

definition mulle_objc_searcharguments_make_super ::
    "uint32 \<Rightarrow> uint32 \<Rightarrow> ('imp, 'u) mulle_objc_searcharguments" where
  "mulle_objc_searcharguments_make_super methodid classid =
     searcharguments_make (mulle_objc_searchargumentscacheable_make_super methodid classid) None None True"

definition mulle_objc_searcharguments_make_overridden ::
    "uint32 \<Rightarrow> uint32 \<Rightarrow> uint32 \<Rightarrow> ('imp, 'u) mulle_objc_searcharguments" where
  "mulle_objc_searcharguments_make_overridden methodid classid category =
     searcharguments_make (mulle_objc_searchargumentscacheable_make_overridden methodid classid category)
       None None True"

definition mulle_objc_searcharguments_make_specific ::
    "uint32 \<Rightarrow> uint32 \<Rightarrow> uint32 \<Rightarrow> ('imp, 'u) mulle_objc_searcharguments" where
  "mulle_objc_searcharguments_make_specific methodid classid category =
     searcharguments_make (mulle_objc_searchargumentscacheable_make_specific methodid classid category)
       None None True"

definition mulle_objc_searcharguments_set_initialize ::
    "('imp, 'u) mulle_objc_searcharguments \<Rightarrow> bool \<Rightarrow> ('imp, 'u) mulle_objc_searcharguments" where
  "mulle_objc_searcharguments_set_initialize p flag = p\<lparr> search_initialize := flag \<rparr>"

definition mulle_objc_searcharguments_set_stop_classid ::
    "('imp, 'u) mulle_objc_searcharguments \<Rightarrow> uint32 \<Rightarrow> ('imp, 'u) mulle_objc_searcharguments" where
  "mulle_objc_searcharguments_set_stop_classid p classid = p\<lparr> search_stop_classid := classid \<rparr>"

text \<open>
  What a search uses of its surroundings: class setup (which may run \<open>+initialize\<close>), the
  callback that may load a missing method and answers 0 (here \<open>False\<close>) to ask for a retry,
  the registration of the thread, the state of the universe, its default forward method and
  its table of supers.
\<close>

record 'imp search_env =
  env_setup :: "nat \<Rightarrow> 'imp search_world \<Rightarrow> 'imp search_world"
  env_method_is_missing :: "'imp search_world \<Rightarrow> nat \<Rightarrow> uint32 \<Rightarrow> bool \<times> 'imp search_world"
  env_thread_registered :: "nat \<Rightarrow> bool"
  env_deinitializing :: bool
  env_classdefaults_forwardmethod :: "method_ptr option"
  env_lookup_super :: "uint32 \<Rightarrow> (uint32 \<times> uint32) option"

definition MULLE_OBJC_FORWARD_METHODID :: uint32 where [c_defs]: "MULLE_OBJC_FORWARD_METHODID = 0x295aa601"
definition MULLE_OBJC_LOAD_METHODID :: uint32 where [c_defs]: "MULLE_OBJC_LOAD_METHODID = 0x60759e9e"
definition MULLE_OBJC_UNLOAD_METHODID :: uint32 where [c_defs]: "MULLE_OBJC_UNLOAD_METHODID = 0xb6a58d22"
definition MULLE_OBJC_INITIALIZESELF_METHODID :: uint32 where
  [c_defs]: "MULLE_OBJC_INITIALIZESELF_METHODID = 0x2310585f"
definition MULLE_OBJC_DEINITIALIZESELF_METHODID :: uint32 where
  [c_defs]: "MULLE_OBJC_DEINITIALIZESELF_METHODID = 0x3099d426"

definition mulle_objc_class_is_initializing_or_initialized :: "'imp search_world \<Rightarrow> nat \<Rightarrow> bool" where
  "mulle_objc_class_is_initializing_or_initialized w cls =
     (let c = (case sc_infraclass (w_class w cls) of Some infra \<Rightarrow> infra | None \<Rightarrow> cls)
      in sc_state (w_class w c) AND CLASS_STATE_INITIALIZING \<noteq> 0)"

definition search_setup ::
    "'imp search_env \<Rightarrow> nat \<Rightarrow> ('imp, 'u) mulle_objc_searcharguments \<Rightarrow> 'imp search_world \<Rightarrow> 'imp search_world" where
  "search_setup env cls search w =
     (let mode = args_mode (search_args search); methodid = args_methodid (search_args search) in
      if search_initialize search \<and> \<not> mulle_objc_class_is_initializing_or_initialized w cls
      then if (mode = MULLE_OBJC_SEARCH_DEFAULT \<or> mode = MULLE_OBJC_SEARCH_PREVIOUS_METHOD) \<and>
              methodid \<in> {MULLE_OBJC_UNLOAD_METHODID, MULLE_OBJC_LOAD_METHODID,
                MULLE_OBJC_INITIALIZESELF_METHODID, MULLE_OBJC_DEINITIALIZESELF_METHODID}
           then w
           else env_setup env cls w
      else w)"

text \<open>
  The part from the label \<open>retry\<close> on. The mode is not reset before a retry. The second
  argument bounds the number of rounds: the loop is the callback's to end.
\<close>

fun search_method_retry ::
    "'imp search_env \<Rightarrow> nat \<Rightarrow> nat \<Rightarrow> ('imp, 'u) mulle_objc_searcharguments \<Rightarrow> nat \<Rightarrow> uint32 \<Rightarrow>
     ('imp, 'u) search_state \<Rightarrow> (method_ptr option \<times> ('imp, 'u) search_state) c_run" where
  "search_method_retry env depth 0 search cls inheritance s = None"
| "search_method_retry env depth (Suc rounds) search cls inheritance s =
     run_bind (mulle_objc_class_search_method_internal depth search cls inheritance s) (\<lambda>(m, s1).
       if st_mode s1 = MULLE_OBJC_SEARCH_PREVIOUS_METHOD \<or> st_mode s1 = MULLE_OBJC_SEARCH_SUPER_METHOD \<or>
          st_mode s1 = MULLE_OBJC_SEARCH_OVERRIDDEN_METHOD
       then run_return (None, set_error EINVAL s1)
       else case m of
              Method_Null \<Rightarrow> run_return (None, s1)
            | Method_Found method \<Rightarrow> run_return (Some method, s1)
            | Method_Fail \<Rightarrow>
                if result_error (st_result s1) = Some EEXIST then run_fault Aborted
                else c_assert (result_error (st_result s1) = Some ENOENT)
                  (if env_deinitializing env then run_return (None, s1)
                   else
                     let (declined, w) = env_method_is_missing env (st_world s1) cls
                                           (args_methodid (search_args search));
                         s2 = s1\<lparr> st_world := w \<rparr>
                     in if \<not> declined then search_method_retry env depth rounds search cls inheritance s2
                        else run_return (None, s2)))"

definition mulle_objc_class_search_method ::
    "'imp search_env \<Rightarrow> nat \<Rightarrow> nat \<Rightarrow> nat option \<Rightarrow> ('imp, 'u) mulle_objc_searcharguments option \<Rightarrow> uint32 \<Rightarrow>
     ('imp, 'u) search_state \<Rightarrow> (method_ptr option \<times> ('imp, 'u) search_state) c_run" where
  "mulle_objc_class_search_method env depth rounds cls0 search0 inheritance s =
     (case (cls0, search0) of
        (Some cls, Some search) \<Rightarrow>
          c_assert (mulle_objc_searcharguments_assert search)
            (let mode = args_mode (search_args search);
                 s1 = s\<lparr> st_mode := mode, st_world := search_setup env cls search (st_world s) \<rparr>
             in c_assert (env_thread_registered env cls)
               (if mode \<in> {MULLE_OBJC_SEARCH_DEFAULT, MULLE_OBJC_SEARCH_IMP, MULLE_OBJC_SEARCH_PREVIOUS_METHOD,
                     MULLE_OBJC_SEARCH_SPECIFIC_METHOD, MULLE_OBJC_SEARCH_SUPER_METHOD,
                     MULLE_OBJC_SEARCH_OVERRIDDEN_METHOD}
                then search_method_retry env depth rounds search cls inheritance (set_error ENOENT s1)
                else run_return (None, set_error EINVAL s1)))
      | _ \<Rightarrow> run_return (None, set_error EINVAL s))"

section \<open>Searches with a purpose\<close>

text \<open>The local variables of a caller: an unset result, no \<open>userinfo\<close>.\<close>

definition search_start :: "'imp search_world \<Rightarrow> ('imp, unit) search_state" where
  "search_start w = \<lparr> st_world = w,
     st_result = \<lparr> result_class = None, result_list = None, result_method = None, result_error = None \<rparr>,
     st_mode = 0, st_user = () \<rparr>"

text \<open>These return the method, what they store in \<open>*error\<close> (\<open>None\<close>: not stored) and the heap.\<close>

type_synonym 'imp searched = "(method_ptr option \<times> errno option \<times> 'imp search_world) c_run"

definition search_and_get_error ::
    "'imp search_env \<Rightarrow> nat \<Rightarrow> nat \<Rightarrow> nat \<Rightarrow> ('imp, unit) mulle_objc_searcharguments \<Rightarrow> uint32 \<Rightarrow>
     'imp search_world \<Rightarrow> 'imp searched" where
  "search_and_get_error env depth rounds cls search inheritance w =
     run_bind (mulle_objc_class_search_method env depth rounds (Some cls) (Some search) inheritance (search_start w))
       (\<lambda>(method, s). run_return (method,
          if method = None then result_error (st_result s) else None, st_world s))"

definition mulle_objc_class_defaultsearch_method ::
    "'imp search_env \<Rightarrow> nat \<Rightarrow> nat \<Rightarrow> nat option \<Rightarrow> uint32 \<Rightarrow> 'imp search_world \<Rightarrow> 'imp searched" where
  "mulle_objc_class_defaultsearch_method env depth rounds cls methodid w =
     (case cls of
        None \<Rightarrow> run_return (None, Some EINVAL, w)
      | Some cls \<Rightarrow> search_and_get_error env depth rounds cls
          (mulle_objc_searcharguments_make_default methodid) (sc_inheritance (w_class w cls)) w)"

text \<open>The two \<open>None\<close> arguments of \<open>search_non_inherited_method\<close> are the \<open>NULL\<close> pointers.\<close>

definition mulle_objc_class_search_non_inherited_method ::
    "'imp search_env \<Rightarrow> nat \<Rightarrow> nat \<Rightarrow> nat option \<Rightarrow> uint32 \<Rightarrow> unit option \<Rightarrow> 'imp search_world \<Rightarrow> 'imp searched" where
  "mulle_objc_class_search_non_inherited_method env depth rounds cls methodid error w =
     (case (cls, error) of
        (Some cls, Some _) \<Rightarrow> search_and_get_error env depth rounds cls
          (mulle_objc_searcharguments_make_default methodid)
          (sc_inheritance (w_class w cls) OR DONT_INHERIT_SUPERCLASS) w
      | _ \<Rightarrow> run_return (None, None, w))"

definition mulle_objc_class_search_forwardmethod ::
    "'imp search_env \<Rightarrow> nat \<Rightarrow> nat \<Rightarrow> nat \<Rightarrow> 'imp search_world \<Rightarrow> 'imp searched" where
  "mulle_objc_class_search_forwardmethod env depth rounds cls w =
     run_bind (mulle_objc_class_defaultsearch_method env depth rounds (Some cls) MULLE_OBJC_FORWARD_METHODID w)
       (\<lambda>(method, e, w1).
         run_return (case method of None \<Rightarrow> env_classdefaults_forwardmethod env | Some m \<Rightarrow> Some m, e, w1))"

definition mulle_objc_class_set_forwardmethod :: "nat \<Rightarrow> method_ptr \<Rightarrow> 'imp search_world \<Rightarrow> 'imp search_world" where
  "mulle_objc_class_set_forwardmethod cls method w =
     w\<lparr> w_class := (w_class w)(cls := (w_class w cls)\<lparr> sc_forwardmethod := Some method \<rparr>) \<rparr>"

definition mulle_objc_class_lazyget_forwardmethod ::
    "'imp search_env \<Rightarrow> nat \<Rightarrow> nat \<Rightarrow> nat \<Rightarrow> 'imp search_world \<Rightarrow> 'imp searched" where
  "mulle_objc_class_lazyget_forwardmethod env depth rounds cls w =
     c_assert (env_thread_registered env cls)
       (case sc_forwardmethod (w_class w cls) of
          Some method \<Rightarrow> run_return (Some method, None, w)
        | None \<Rightarrow>
            run_bind (mulle_objc_class_search_forwardmethod env depth rounds cls w) (\<lambda>(method, e, w1).
              case method of
                None \<Rightarrow> run_return (None, e, w1)
              | Some m \<Rightarrow> run_return (Some m, e, mulle_objc_class_set_forwardmethod cls m w1)))"

text \<open>\<open>_mulle_objc_class_fail_forwardmethodnotfound\<close> ends the program on each of its paths.\<close>

definition mulle_objc_class_get_forwardmethod_lazy_nofail ::
    "'imp search_env \<Rightarrow> nat \<Rightarrow> nat \<Rightarrow> nat \<Rightarrow> uint32 \<Rightarrow> 'imp search_world \<Rightarrow>
     (method_ptr \<times> 'imp search_world) c_run" where
  "mulle_objc_class_get_forwardmethod_lazy_nofail env depth rounds cls missing_method w =
     run_bind (mulle_objc_class_lazyget_forwardmethod env depth rounds cls w) (\<lambda>(method, e, w1).
       case method of Some m \<Rightarrow> run_return (m, w1) | None \<Rightarrow> run_fault Aborted)"

definition mulle_objc_class_get_forwardimplementation ::
    "'imp search_env \<Rightarrow> nat \<Rightarrow> nat \<Rightarrow> nat option \<Rightarrow> 'imp search_world \<Rightarrow>
     ('imp option \<times> 'imp search_world) c_run" where
  "mulle_objc_class_get_forwardimplementation env depth rounds cls w =
     (case cls of
        None \<Rightarrow> run_return (None, w)
      | Some cls \<Rightarrow>
          run_bind (mulle_objc_class_search_forwardmethod env depth rounds cls w) (\<lambda>(method, e, w1).
            run_return (map_option (\<lambda>m. method_implementation (world_method w1 m)) method, w1)))"

definition mulle_objc_class_search_method_nofail ::
    "'imp search_env \<Rightarrow> nat \<Rightarrow> nat \<Rightarrow> nat \<Rightarrow> uint32 \<Rightarrow> 'imp search_world \<Rightarrow>
     (method_ptr \<times> 'imp search_world) c_run" where
  "mulle_objc_class_search_method_nofail env depth rounds cls methodid w =
     run_bind (mulle_objc_class_defaultsearch_method env depth rounds (Some cls) methodid w) (\<lambda>(method, e, w1).
       case method of
         Some m \<Rightarrow> c_assert (method_methodid (world_method w1 m) = methodid) (run_return (m, w1))
       | None \<Rightarrow> mulle_objc_class_get_forwardmethod_lazy_nofail env depth rounds cls methodid w1)"

definition mulle_objc_class_supersearch_method ::
    "'imp search_env \<Rightarrow> nat \<Rightarrow> nat \<Rightarrow> nat \<Rightarrow> uint32 \<Rightarrow> 'imp search_world \<Rightarrow>
     (method_ptr option \<times> 'imp search_world) c_run" where
  "mulle_objc_class_supersearch_method env depth rounds cls superid w =
     (case env_lookup_super env superid of
        None \<Rightarrow> run_fault Aborted
      | Some (methodid, classid) \<Rightarrow>
          run_bind (mulle_objc_class_search_method env depth rounds (Some cls)
            (Some (mulle_objc_searcharguments_make_super methodid classid))
            (sc_inheritance (w_class w cls)) (search_start w)) (\<lambda>(method, s).
              run_return (method, st_world s)))"

definition mulle_objc_class_supersearch_method_nofail ::
    "'imp search_env \<Rightarrow> nat \<Rightarrow> nat \<Rightarrow> nat \<Rightarrow> uint32 \<Rightarrow> 'imp search_world \<Rightarrow>
     (method_ptr \<times> 'imp search_world) c_run" where
  "mulle_objc_class_supersearch_method_nofail env depth rounds cls superid w =
     (case env_lookup_super env superid of
        None \<Rightarrow> run_fault Aborted
      | Some (methodid, classid) \<Rightarrow>
          run_bind (mulle_objc_class_search_method env depth rounds (Some cls)
            (Some (mulle_objc_searcharguments_make_super methodid classid))
            (sc_inheritance (w_class w cls)) (search_start w)) (\<lambda>(method, s).
              case method of
                Some m \<Rightarrow> run_return (m, st_world s)
              | None \<Rightarrow> mulle_objc_class_get_forwardmethod_lazy_nofail env depth rounds cls methodid (st_world s)))"

text \<open>The chain of the implementations that overrode each other in one class.\<close>

definition mulle_objc_searchresult_get_categoryid :: "'imp search_world \<Rightarrow> mulle_objc_searchresult option \<Rightarrow> uint32" where
  "mulle_objc_searchresult_get_categoryid w p =
     (case p of
        None \<Rightarrow> MULLE_OBJC_NO_UNIQUEID
      | Some p \<Rightarrow> (case result_list p of
                    None \<Rightarrow> MULLE_OBJC_NO_UNIQUEID
                  | Some list \<Rightarrow> mulle_objc_methodlist_get_categoryid (w_list w list)))"

definition mulle_objc_searchresult_get_classid :: "'imp search_world \<Rightarrow> mulle_objc_searchresult option \<Rightarrow> uint32" where
  "mulle_objc_searchresult_get_classid w p =
     (case p of
        None \<Rightarrow> MULLE_OBJC_NO_UNIQUEID
      | Some p \<Rightarrow> (case result_class p of None \<Rightarrow> MULLE_OBJC_NO_UNIQUEID | Some cls \<Rightarrow> sc_classid (w_class w cls)))"

record 'imp clobberchainenumerator =
  clobber_cls :: "nat option"
  clobber_args :: "('imp, unit) mulle_objc_searcharguments"
  clobber_result :: mulle_objc_searchresult

definition mulle_objc_class_clobberchain_enumerate :: "nat option \<Rightarrow> uint32 \<Rightarrow> 'imp clobberchainenumerator" where
  "mulle_objc_class_clobberchain_enumerate cls methodid =
     \<lparr> clobber_cls = cls, clobber_args = mulle_objc_searcharguments_make_default methodid,
       clobber_result = \<lparr> result_class = None, result_list = None, result_method = None, result_error = Some (EOTHER 0) \<rparr> \<rparr>"

definition mulle_objc_clobberchainenumerator_next ::
    "'imp search_env \<Rightarrow> nat \<Rightarrow> nat \<Rightarrow> 'imp clobberchainenumerator \<Rightarrow> 'imp search_world \<Rightarrow>
     ('imp option \<times> 'imp clobberchainenumerator \<times> 'imp search_world) c_run" where
  "mulle_objc_clobberchainenumerator_next env depth rounds rover w =
     (case clobber_cls rover of
        None \<Rightarrow> run_return (None, rover, w)
      | Some cls \<Rightarrow>
          let inheritance = sc_inheritance (w_class w cls) OR DONT_INHERIT_SUPERCLASS
                OR DONT_INHERIT_PROTOCOLS OR DONT_INHERIT_PROTOCOL_CATEGORIES in
          run_bind (mulle_objc_class_search_method env depth rounds (Some cls) (Some (clobber_args rover)) inheritance
              ((search_start w)\<lparr> st_result := clobber_result rover \<rparr>)) (\<lambda>(method, s).
            let w1 = st_world s; rover1 = rover\<lparr> clobber_result := st_result s \<rparr> in
            case method of
              None \<Rightarrow> run_return (None, rover1, w1)
            | Some m \<Rightarrow>
                run_return (Some (method_implementation (world_method w1 m)),
                  rover1\<lparr> clobber_args := mulle_objc_searcharguments_make_overridden
                    (method_methodid (world_method w1 m))
                    (mulle_objc_searchresult_get_classid w1 (Some (st_result s)))
                    (mulle_objc_searchresult_get_categoryid w1 (Some (st_result s))) \<rparr>, w1)))"

end
