(* ===== verification/Class_Search_Correct.thy ===== *)
theory Class_Search_Correct
  imports Class_Search
begin

text \<open>
  What the method search finds. \<open>class_visits\<close> is the order in which a search comes by the
  classes, \<open>search_order\<close> the resulting order of the method lists; in a world without hidden
  override checks a search without a callback is one pass over it (\<open>internal_run_visits\<close>).
\<close>

section \<open>Frames\<close>

text \<open>The part of the heap that no search changes, whatever its callback does.\<close>

definition same_shape :: "('imp, 'u) search_state \<Rightarrow> ('imp, 'u) search_state \<Rightarrow> bool" where
  "same_shape s t \<longleftrightarrow> w_class (st_world s) = w_class (st_world t) \<and> w_pair (st_world s) = w_pair (st_world t)"

lemma same_shape_refl [simp, intro]: "same_shape s s"
  by (simp add: same_shape_def)

lemma same_shape_trans [trans]: "same_shape s t \<Longrightarrow> same_shape t u \<Longrightarrow> same_shape s u"
  by (simp add: same_shape_def)

lemma same_shape_updates [simp]:
  "same_shape s (set_mode m t) = same_shape s t"
  "same_shape s (set_error e t) = same_shape s t"
  "same_shape s (set_result c l p t) = same_shape s t"
  "same_shape s (t\<lparr> st_user := u \<rparr>) = same_shape s t"
  "same_shape s (t\<lparr> st_world := world_mark_searched p (st_world t) \<rparr>) = same_shape s t"
  by (simp_all add: same_shape_def set_error_def set_result_def world_mark_searched_def)

lemma run_bind_Some_Inr:
  "run_bind m f = Some (Inr y) \<longleftrightarrow> (\<exists>x. m = Some (Inr x) \<and> f x = Some (Inr y))"
  by (auto simp: run_bind_def split: option.splits sum.splits)

text \<open>A run that ends, in a value or a fault.\<close>

definition returns :: "'a c_run \<Rightarrow> bool" where
  "returns m \<longleftrightarrow> m \<noteq> None"

lemma returns_simps [simp]: "returns (Some x)" "\<not> returns None"
  by (simp_all add: returns_def)

lemma returns_run_bind:
  "returns m \<Longrightarrow> (\<And>x. m = Some (Inr x) \<Longrightarrow> returns (f x)) \<Longrightarrow> returns (run_bind m f)"
  by (auto simp: returns_def run_bind_def split: option.splits sum.splits)

lemma returns_c_assert: "returns m \<Longrightarrow> returns (c_assert b m)"
  by (cases b) auto

lemma returns_cases:
  "returns a \<Longrightarrow> returns b \<Longrightarrow> returns (if c then a else b)"
  "returns a \<Longrightarrow> (\<And>x. returns (f x)) \<Longrightarrow> returns (case r of None \<Rightarrow> a | Some x \<Rightarrow> f x)"
  "(\<And>x y. returns (g x y)) \<Longrightarrow> returns (case p of (x, y) \<Rightarrow> g x y)"
  by (auto split: option.split prod.split)

text \<open>Partial correctness: if the run ends in a value, the value has the property.\<close>

definition holds :: "'a c_run \<Rightarrow> ('a \<Rightarrow> bool) \<Rightarrow> bool" where
  "holds m Q \<longleftrightarrow> (\<forall>x. m = Some (Inr x) \<longrightarrow> Q x)"

lemma holds_simps [simp]: "holds None Q" "holds (run_fault e) Q" "holds (run_return x) Q = Q x"
  by (simp_all add: holds_def)

lemma holds_run_bind:
  "holds m P \<Longrightarrow> (\<And>x. P x \<Longrightarrow> holds (f x) Q) \<Longrightarrow> holds (run_bind m f) Q"
  by (auto simp: holds_def run_bind_Some_Inr)

lemma holds_c_assert: "(b \<Longrightarrow> holds m Q) \<Longrightarrow> holds (c_assert b m) Q"
  by (cases b) auto

lemma holds_mono: "holds m P \<Longrightarrow> (\<And>x. P x \<Longrightarrow> Q x) \<Longrightarrow> holds m Q"
  by (auto simp: holds_def)

lemma holdsD: "m = Some (Inr x) \<Longrightarrow> holds m Q \<Longrightarrow> Q x"
  by (simp add: holds_def)

lemma holds_trivial: "holds m (\<lambda>x. True)"
  by (simp add: holds_def)

lemma c_assert_Some_Inr: "c_assert b m = Some (Inr y) \<longleftrightarrow> b \<and> m = Some (Inr y)"
  by (cases b) auto

text \<open>A \<open>Proceed\<close> keeps every inheritance bit it came with.\<close>

definition keeps_bits :: "uint32 \<Rightarrow> search_flow \<Rightarrow> bool" where
  "keeps_bits inheritance flow \<longleftrightarrow>
     (case flow of Return m \<Rightarrow> True
      | Proceed inh found \<Rightarrow> (\<forall>b. inheritance AND b \<noteq> 0 \<longrightarrow> inh AND b \<noteq> 0))"

lemma word_and_or_ne_0: "(x :: uint32) AND b \<noteq> 0 \<Longrightarrow> (x OR y) AND b \<noteq> 0"
  by (metis and.commute bit.conj_disj_distrib or_eq_0_iff)

lemma keeps_bits_simps [simp]:
  "keeps_bits inh (Return m)" "keeps_bits inh (Proceed inh m)" "keeps_bits inh (Proceed (inh OR b) m)"
  by (auto simp: keeps_bits_def word_and_or_ne_0)

text \<open>
  The error of the result while no failure and no \<open>NULL\<close> has been returned: it is the one the
  search started with.
\<close>

definition same_error :: "('imp, 'u) search_state \<Rightarrow> ('imp, 'u) search_state \<Rightarrow> bool" where
  "same_error s t \<longleftrightarrow> result_error (st_result s) = result_error (st_result t)"

lemma same_error_refl [simp, intro]: "same_error s s"
  by (simp add: same_error_def)

lemma same_error_trans [trans]: "same_error s t \<Longrightarrow> same_error t u \<Longrightarrow> same_error s u"
  by (simp add: same_error_def)

lemma same_error_updates [simp]:
  "same_error s (set_mode m t) = same_error s t"
  "same_error s (set_result c l p t) = same_error s t"
  "same_error s (t\<lparr> st_user := u \<rparr>) = same_error s t"
  "same_error s (t\<lparr> st_world := w \<rparr>) = same_error s t"
  by (simp_all add: same_error_def set_result_def)

lemma search_methodlist_returns: "returns (search_methodlist search s l)"
  by (simp add: search_methodlist_def Let_def split: option.splits)

text \<open>What every step of a search preserves; \<open>null\<close> tells that the step ends with an error.\<close>

definition step_ok :: "uint32 \<Rightarrow> ('imp, 'u) search_state \<Rightarrow> search_flow \<Rightarrow> ('imp, 'u) search_state \<Rightarrow> bool" where
  "step_ok inheritance s flow s1 \<longleftrightarrow> same_shape s s1 \<and> keeps_bits inheritance flow \<and>
     (flow \<noteq> Return Method_Null \<longrightarrow> same_error s s1)"

lemma step_ok_simps [simp]:
  "step_ok inh s (Proceed inh found) s" "step_ok inh s (Return r) s"
  "step_ok inh s flow (set_mode m t) = step_ok inh s flow t"
  "step_ok inh (set_mode m s) flow t = step_ok inh s flow t"
  "step_ok inh s (Return Method_Null) (set_error e t) = step_ok inh s (Return Method_Null) t"
  by (auto simp: step_ok_def same_shape_def same_error_def set_error_def)

lemma step_ok_trans:
  "step_ok inh s (Proceed inh' m) s1 \<Longrightarrow> step_ok inh' s1 flow s2 \<Longrightarrow> step_ok inh s flow s2"
  by (auto simp: step_ok_def keeps_bits_def intro: same_shape_trans same_error_trans split: search_flow.splits)

lemma search_found_method_ok:
  "case search_found_method search cls inh found m s of (flow, s1) \<Rightarrow> step_ok inh s flow s1"
  by (auto simp: search_found_method_def step_ok_def Let_def same_shape_def set_result_def set_error_def
      world_mark_searched_def same_error_def split: prod.splits option.splits walkcommand.splits)

lemma search_one_methodlist_ok:
  "holds (search_one_methodlist search cls inh found l s) (\<lambda>(flow, s1). step_ok inh s flow s1)"
proof -
  define s1 where "s1 = (if st_mode s = search_specific_method_2
    then set_mode (st_mode s + (OFFSET_3_MODE - OFFSET_2_MODE)) s else s)"
  have s1: "step_ok inh s flow t" if "step_ok inh s1 flow t" for flow t
    using that by (simp add: s1_def split: if_splits)
  have tail: "holds (run_bind (search_methodlist search s1 l) f) (\<lambda>(flow, t). step_ok inh s flow t)"
    if "\<And>r. holds (f r) (\<lambda>(flow, t). step_ok inh s1 flow t)" for f
    by (rule holds_run_bind [OF holds_trivial]) (use that s1 in \<open>fastforce simp: holds_def\<close>)
  show ?thesis
    unfolding search_one_methodlist_def Let_def s1_def [symmetric]
    by (auto intro!: tail search_found_method_ok split: option.split)
qed

lemma search_methodlists_ok:
  "holds (search_methodlists search cls n ls i inh found s) (\<lambda>(flow, s1). step_ok inh s flow s1)"
proof (induction ls arbitrary: i inh found s)
  case (Cons l ls)
  show ?case
    unfolding search_methodlists.simps Let_def
  proof (intro if_split [where P = "\<lambda>m. holds m Q" for Q, THEN iffD2] conjI impI)
    show "holds (run_bind (search_one_methodlist search cls inh found l s) (\<lambda>(flow, s1).
        case flow of Return m \<Rightarrow> run_return (Return m, s1)
        | Proceed inh' found' \<Rightarrow> search_methodlists search cls n ls j inh' found' s1))
      (\<lambda>(flow, s1). step_ok inh s flow s1)" for j
    proof (rule holds_run_bind [OF search_one_methodlist_ok], clarify)
      fix flow t
      assume t: "step_ok inh s flow t"
      show "holds (case flow of Return m \<Rightarrow> run_return (Return m, t)
          | Proceed inh' found' \<Rightarrow> search_methodlists search cls n ls j inh' found' t)
        (\<lambda>(flow, s1). step_ok inh s flow s1)"
      proof (cases flow)
        case (Return m)
        with t show ?thesis by simp
      next
        case (Proceed inh' found')
        have "holds (search_methodlists search cls n ls j inh' found' t) (\<lambda>(flow, s1). step_ok inh s flow s1)"
          by (rule holds_mono [OF Cons.IH]) (use step_ok_trans [OF t [unfolded Proceed]] in blast)
        with Proceed show ?thesis by simp
      qed
    qed
  qed simp_all
qed simp

lemma search_one_methodlist_returns: "returns (search_one_methodlist search cls inh found l s)"
  unfolding search_one_methodlist_def Let_def
  by (intro returns_cases returns_run_bind search_methodlist_returns returns_simps)

lemma returns_flow:
  "(\<And>m. returns (f m)) \<Longrightarrow> (\<And>inh found. returns (g inh found)) \<Longrightarrow>
    returns (case flow of Return m \<Rightarrow> f m | Proceed inh found \<Rightarrow> g inh found)"
  by (cases flow) auto

lemma search_methodlists_returns: "returns (search_methodlists search cls n ls i inh found s)"
proof (induction ls arbitrary: i inh found s)
  case (Cons l ls)
  show ?case
    unfolding search_methodlists.simps Let_def
    by (intro returns_cases returns_run_bind returns_flow search_one_methodlist_returns returns_simps Cons.IH)
qed simp

lemma search_own_methodlists_ok:
  "holds (search_own_methodlists search cls inh s) (\<lambda>(flow, s1). step_ok inh s flow s1)"
proof -
  have tail: "holds (run_bind (search_methodlists search cls n ls 0 inh Method_Fail s') (\<lambda>(flow, s2).
      case flow of Return m \<Rightarrow> run_return (Return m, s2)
      | Proceed inh' found \<Rightarrow> if P s2 then run_return (Return Method_Null, set_error EINVAL s2)
          else run_return (Proceed inh' found, s2))) (\<lambda>(flow, s1). step_ok inh s flow s1)"
    if "\<And>flow t. step_ok inh s' flow t \<Longrightarrow> step_ok inh s flow t" for s' n ls P
  proof (rule holds_run_bind [OF search_methodlists_ok], clarify)
    fix flow t
    assume "step_ok inh s' flow t"
    then have t: "step_ok inh s flow t" by (rule that)
    then have "step_ok inh s (Return Method_Null) (set_error EINVAL t)"
      by (auto simp: step_ok_def)
    with t show "holds (case flow of Return m \<Rightarrow> run_return (Return m, t)
      | Proceed inh' found \<Rightarrow> if P t then run_return (Return Method_Null, set_error EINVAL t)
          else run_return (Proceed inh' found, t)) (\<lambda>(flow, s1). step_ok inh s flow s1)"
      by (cases flow) auto
  qed
  show ?thesis
    unfolding search_own_methodlists_def Let_def
    by (auto intro!: holds_c_assert tail)
qed

lemma search_own_methodlists_returns: "returns (search_own_methodlists search cls inh s)"
  unfolding search_own_methodlists_def Let_def
  by (intro returns_cases returns_run_bind returns_flow returns_c_assert search_methodlists_returns returns_simps)

text \<open>The same for the search of a class.\<close>

definition search_ok :: "('imp, 'u) search_state \<Rightarrow> search_method \<times> ('imp, 'u) search_state \<Rightarrow> bool" where
  "search_ok s = (\<lambda>(m, s1). same_shape s s1 \<and> (m \<noteq> Method_Null \<longrightarrow> same_error s s1))"

lemma search_ok_simps [simp]:
  "search_ok s (m, s)"
  "search_ok s (Method_Null, set_error e t) = search_ok s (Method_Null, t)"
  "search_ok s (m, t\<lparr> st_user := u \<rparr>) = search_ok s (m, t)"
  by (auto simp: search_ok_def)

lemma search_ok_trans:
  "search_ok s (m, t) \<Longrightarrow> m \<noteq> Method_Null \<Longrightarrow> search_ok t r \<Longrightarrow> search_ok s r"
  "search_ok s (m, t) \<Longrightarrow> search_ok s (Method_Null, t)"
  "search_ok s (m, t) \<Longrightarrow> m \<noteq> Method_Null \<Longrightarrow> search_ok s (m', t)"
  by (auto simp: search_ok_def intro: same_shape_trans same_error_trans)

lemma search_ok_step:
  "step_ok inh s (Return m) s1 \<Longrightarrow> search_ok s (m, s1)"
  "step_ok inh s (Proceed inh' found) s1 \<Longrightarrow> search_ok s1 r \<Longrightarrow> search_ok s r"
  by (auto simp: search_ok_def step_ok_def intro: same_shape_trans same_error_trans)

text \<open>What the two recursive parts ask of the search of a single class.\<close>

definition rec_ok ::
    "(nat \<Rightarrow> uint32 \<Rightarrow> ('imp, 'u) search_state \<Rightarrow> (search_method \<times> ('imp, 'u) search_state) c_run) \<Rightarrow> bool" where
  "rec_ok rec \<longleftrightarrow> (\<forall>c inh s. holds (rec c inh s) (search_ok s))"

lemma protocol_search_loop_ok:
  assumes "rec_ok rec" and "found \<noteq> Method_Null"
  shows "holds (protocol_search_loop rec search cls infra inh found protos s) (search_ok s)"
  using assms(2)
proof (induction protos arbitrary: found s)
  case (Cons p ps)
  note IH = Cons.IH
  let ?walk = "mixin_walk_class (st_world s) cls p"
  have bind: "holds (run_bind (rec ?walk inh' s) f) (search_ok s)"
    if "\<And>m t. search_ok s (m, t) \<Longrightarrow> holds (f (m, t)) (search_ok s)" for inh' f
    by (rule holds_run_bind [where P = "search_ok s"]) (use assms(1) that in \<open>auto simp: rec_ok_def\<close>)
  have again: "holds (protocol_search_loop rec search cls infra inh found' ps t') (search_ok s)"
    if "search_ok s (m, t')" "m \<noteq> Method_Null" "found' \<noteq> Method_Null" for m t' found'
    by (rule holds_mono [OF IH [OF that(3)]]) (use search_ok_trans(1) [OF that(1,2)] in blast)
  show ?case
    unfolding protocol_search_loop.simps Let_def
    by (auto intro!: bind again IH Cons.prems dest: search_ok_trans(2) search_ok_trans(3)
        split: search_method.split walkcommand.split option.split prod.split)
qed simp

lemma search_superclass_ok:
  assumes "rec_ok rec" and "found \<noteq> Method_Null"
  shows "holds (search_superclass rec cls inh found s) (search_ok s)"
proof -
  have bind: "holds (run_bind (mulle_objc_class_search_method_super rec sup inh' s) f) (search_ok s)"
    if "\<And>m t. search_ok s (m, t) \<Longrightarrow> holds (f (m, t)) (search_ok s)" for sup inh' f
    by (rule holds_run_bind [where P = "search_ok s"])
      (use assms(1) that in \<open>auto simp: rec_ok_def mulle_objc_class_search_method_super_def\<close>)
  show ?thesis
    unfolding search_superclass_def Let_def
    by (auto intro!: bind dest: search_ok_trans(2) search_ok_trans(3) split: search_method.split option.split)
qed

lemma protocol_search_method_ok:
  "rec_ok rec \<Longrightarrow> holds (mulle_objc_class_protocol_search_method rec search cls inh s) (search_ok s)"
  unfolding mulle_objc_class_protocol_search_method_def Let_def
  by (auto intro: protocol_search_loop_ok)

lemma search_next_class_ok:
  assumes "rec_ok rec" and "found \<noteq> Method_Null"
  shows "holds (search_next_class rec search cls inh found s) (search_ok s)"
proof -
  have super: "holds (search_superclass rec cls inh found' t) (search_ok s)"
    if "search_ok s (m, t)" "m \<noteq> Method_Null" "found' \<noteq> Method_Null" for m t found'
    by (rule holds_mono [OF search_superclass_ok [OF assms(1) that(3)]])
      (use search_ok_trans(1) [OF that(1,2)] in blast)
  have "holds (run_bind (mulle_objc_class_protocol_search_method rec search cls inh' s) f) (search_ok s)"
    if "\<And>m t. search_ok s (m, t) \<Longrightarrow> holds (f (m, t)) (search_ok s)" for inh' f
    by (rule holds_run_bind [OF protocol_search_method_ok [OF assms(1)]]) (use that in auto)
  note bind = this
  show ?thesis
    unfolding search_next_class_def Let_def
    by (auto intro!: bind super search_superclass_ok assms dest: search_ok_trans(2) split: search_method.split)
qed

text \<open>\<open>found\<close> is never the error value.\<close>

definition never_null :: "search_flow \<Rightarrow> bool" where
  "never_null flow \<longleftrightarrow> (case flow of Return m \<Rightarrow> True | Proceed inh found \<Rightarrow> found \<noteq> Method_Null)"

lemma never_null_simps [simp]: "never_null (Return m)" "never_null (Proceed inh found) = (found \<noteq> Method_Null)"
  by (simp_all add: never_null_def)

lemma search_own_methodlists_found:
  "holds (search_own_methodlists search cls inh s) (\<lambda>(flow, s1). never_null flow)"
  (is "holds _ ?Q")
proof -
  have one: "holds (search_one_methodlist search cls inh found l s) ?Q" if "found \<noteq> Method_Null" for inh found l s
  proof -
    have f: "search_found_method search cls inh found m t = (flow, t') \<Longrightarrow> never_null flow" for m t flow t'
      using that
      by (auto simp: search_found_method_def Let_def split: prod.splits option.splits walkcommand.splits if_splits)
    have bind: "holds (run_bind (search_methodlist search t l) g) ?Q" if "\<And>r. holds (g r) ?Q" for g t
      by (rule holds_run_bind [OF holds_trivial]) (rule that)
    show ?thesis
      unfolding search_one_methodlist_def Let_def
      using that f by (auto intro!: bind split: option.split)
  qed
  have ls: "holds (search_methodlists search cls n ls i inh found s) ?Q" if "found \<noteq> Method_Null" for n ls i inh found s
    using that
  proof (induction ls arbitrary: i inh found s)
    case (Cons l ls)
    have "holds (run_bind (search_one_methodlist search cls inh found l s) (\<lambda>(flow, s1).
        case flow of Return m \<Rightarrow> run_return (Return m, s1)
        | Proceed inh' found' \<Rightarrow> search_methodlists search cls n ls j inh' found' s1)) ?Q" for j
      by (rule holds_run_bind [OF one [OF Cons.prems]]) (use Cons.IH in \<open>fastforce split: search_flow.split prod.split\<close>)
    with Cons.prems show ?case unfolding search_methodlists.simps Let_def by auto
  qed simp
  have "holds (run_bind (search_methodlists search cls n ls 0 inh Method_Fail s') (\<lambda>(flow, s2).
      case flow of Return m \<Rightarrow> run_return (Return m, s2)
      | Proceed inh' found \<Rightarrow> if P s2 then run_return (Return Method_Null, set_error EINVAL s2)
          else run_return (Proceed inh' found, s2))) ?Q" for s' n ls P
    by (rule holds_run_bind [OF ls]) (auto split: search_flow.split)
  note tail = this
  show ?thesis
    unfolding search_own_methodlists_def Let_def by (auto intro!: holds_c_assert tail)
qed

lemma holds_conj: "holds m P \<Longrightarrow> holds m Q \<Longrightarrow> holds m (\<lambda>x. P x \<and> Q x)"
  by (simp add: holds_def)

lemma internal_ok:
  "rec_ok (mulle_objc_class_search_method_internal depth search)"
  unfolding rec_ok_def
proof (intro allI)
  fix c inh s
  show "holds (mulle_objc_class_search_method_internal depth search c inh s) (search_ok s)"
  proof (induction depth arbitrary: c inh s)
    case (Suc depth)
    then have rec: "rec_ok (mulle_objc_class_search_method_internal depth search)" by (simp add: rec_ok_def)
    show ?case
      unfolding mulle_objc_class_search_method_internal.simps
    proof (rule holds_run_bind [OF holds_conj [OF search_own_methodlists_ok search_own_methodlists_found]], clarify)
      fix flow t
      assume t: "step_ok inh s flow t" "never_null flow"
      show "holds (case flow of Return m \<Rightarrow> run_return (m, t)
          | Proceed inh' found \<Rightarrow> search_next_class (mulle_objc_class_search_method_internal depth search)
              search c inh' found t) (search_ok s)"
      proof (cases flow)
        case (Proceed inh' found)
        with t have "found \<noteq> Method_Null" by simp
        then show ?thesis
          using holds_mono [OF search_next_class_ok [OF rec]] search_ok_step(2) [OF t(1) [unfolded Proceed]]
          unfolding Proceed search_flow.case by blast
      qed (use t in \<open>auto intro: search_ok_step(1)\<close>)
    qed
  qed simp
qed

section \<open>Termination\<close>

text \<open>Superclass chains end: every class has a rank above that of its superclass.\<close>

definition ranked :: "'imp search_world \<Rightarrow> (nat \<Rightarrow> nat) \<Rightarrow> bool" where
  "ranked w r \<longleftrightarrow> (\<forall>c sup. sc_superclass (w_class w c) = Some sup \<longrightarrow> r sup < r c)"

lemma ranked_same_shape: "same_shape s t \<Longrightarrow> ranked (st_world s) r \<longleftrightarrow> ranked (st_world t) r"
  by (simp add: same_shape_def ranked_def)

definition leaf_bits :: "uint32 \<Rightarrow> bool" where
  "leaf_bits inh \<longleftrightarrow> inh AND DONT_INHERIT_SUPERCLASS \<noteq> 0 \<and> inh AND DONT_INHERIT_PROTOCOLS \<noteq> 0"

lemma leaf_bits_mixin: "leaf_bits (mixin_inheritance inh OR x)"
proof -
  have "mixin_inheritance inh AND DONT_INHERIT_SUPERCLASS \<noteq> 0"
    "mixin_inheritance inh AND DONT_INHERIT_PROTOCOLS \<noteq> 0"
    by (simp_all add: mixin_inheritance_def c_defs bit.conj_disj_distrib2)
  then show ?thesis by (simp add: leaf_bits_def word_and_or_ne_0)
qed

lemma search_superclass_leaf: "leaf_bits inh \<Longrightarrow> returns (search_superclass rec c inh found s)"
  by (simp add: search_superclass_def Let_def leaf_bits_def split: option.split)

lemma internal_returns_leaf:
  assumes "leaf_bits inh"
  shows "returns (mulle_objc_class_search_method_internal (Suc depth) search c inh s)"
  unfolding mulle_objc_class_search_method_internal.simps
proof (rule returns_run_bind [OF search_own_methodlists_returns], clarify)
  fix flow s1
  assume "search_own_methodlists search c inh s = run_return (flow, s1)"
  from holdsD [OF this search_own_methodlists_ok] have "keeps_bits inh flow" by (simp add: step_ok_def)
  with assms show "returns (case flow of Return m \<Rightarrow> run_return (m, s1)
      | Proceed inh' found \<Rightarrow> search_next_class (mulle_objc_class_search_method_internal depth search)
          search c inh' found s1)"
    by (auto simp: keeps_bits_def leaf_bits_def search_next_class_def Let_def
        intro: search_superclass_leaf [unfolded leaf_bits_def] split: search_flow.split)
qed

lemma returns_method_cases:
  "returns a \<Longrightarrow> returns b \<Longrightarrow> (\<And>m. returns (f m)) \<Longrightarrow>
    returns (case m of Method_Fail \<Rightarrow> a | Method_Null \<Rightarrow> b | Method_Found m \<Rightarrow> f m)"
  "returns a1 \<Longrightarrow> returns a2 \<Longrightarrow> returns a3 \<Longrightarrow> returns a4 \<Longrightarrow> (\<And>e. returns (g e)) \<Longrightarrow>
    returns (case cmd of Walk_error e \<Rightarrow> g e | Walk_ok \<Rightarrow> a1 | Walk_dont_descend \<Rightarrow> a2 | Walk_done \<Rightarrow> a3
      | Walk_cancel \<Rightarrow> a4)"
  by (cases m; simp) (cases cmd; simp)

lemma protocol_search_loop_returns:
  assumes "\<And>c i t. leaf_bits i \<Longrightarrow> returns (rec c i t)"
  shows "returns (protocol_search_loop rec search cls infra (mixin_inheritance inh) found protos s)"
proof (induction protos arbitrary: found s)
  case (Cons p ps)
  show ?case
    unfolding protocol_search_loop.simps Let_def
    by (intro returns_cases returns_run_bind returns_method_cases Cons.IH returns_simps assms leaf_bits_mixin)
qed simp

lemma protocol_search_method_returns:
  assumes "\<And>c i t. leaf_bits i \<Longrightarrow> returns (rec c i t)"
  shows "returns (mulle_objc_class_protocol_search_method rec search cls inh s)"
  unfolding mulle_objc_class_protocol_search_method_def Let_def
  by (intro returns_cases returns_simps protocol_search_loop_returns assms)

lemma search_superclass_returns:
  assumes "\<And>sup i. sc_superclass (w_class (st_world s) c) = Some sup \<Longrightarrow> returns (rec sup i s)"
  shows "returns (search_superclass rec c inh found s)"
proof (cases "sc_superclass (w_class (st_world s) c)")
  case (Some sup)
  show ?thesis
    unfolding search_superclass_def Let_def Some option.case mulle_objc_class_search_method_super_def
    by (intro returns_cases returns_run_bind returns_method_cases returns_simps assms Some)
qed (simp add: search_superclass_def)

lemma internal_returns:
  assumes "ranked (st_world s) r" and "r c + 2 \<le> depth"
  shows "returns (mulle_objc_class_search_method_internal depth search c inh s)"
  using assms
proof (induction depth arbitrary: c inh s)
  case (Suc d)
  let ?rec = "mulle_objc_class_search_method_internal d search"
  obtain d' where d: "d = Suc d'" using Suc.prems(2) by (cases d) auto
  have leaf: "leaf_bits i \<Longrightarrow> returns (?rec k i t)" for k i t
    unfolding d by (rule internal_returns_leaf)
  have sup: "returns (search_superclass ?rec c i found t)" if "same_shape s t" for i found t
  proof (rule search_superclass_returns)
    fix sup j
    assume e: "sc_superclass (w_class (st_world t) c) = Some sup"
    have ranked: "ranked (st_world t) r" using that Suc.prems(1) ranked_same_shape by blast
    with e have "r sup < r c" by (simp add: ranked_def)
    then show "returns (?rec sup j t)" using Suc.IH [OF ranked] Suc.prems(2) by simp
  qed
  have nxt: "returns (search_next_class ?rec search c i found t)" if t: "same_shape s t" for i found t
  proof -
    have "returns (run_bind (mulle_objc_class_protocol_search_method ?rec search c k t) (\<lambda>(m, s1).
        case m of Method_Fail \<Rightarrow> search_superclass ?rec c i found s1
        | Method_Null \<Rightarrow> run_return (Method_Null, s1)
        | Method_Found method \<Rightarrow>
            if found \<noteq> Method_Fail then run_return (Method_Null, set_error EEXIST s1)
            else if \<not> method_is_fatal_override s1 method then run_return (Method_Found method, s1)
            else search_superclass ?rec c i (Method_Found method) s1))" for k
    proof (rule returns_run_bind [OF protocol_search_method_returns [OF leaf]], assumption, clarify)
      fix m s1
      assume "mulle_objc_class_protocol_search_method ?rec search c k t = run_return (m, s1)"
      from holdsD [OF this protocol_search_method_ok [OF internal_ok]] have "same_shape t s1"
        by (simp add: search_ok_def)
      then have "same_shape s s1" using t same_shape_trans by blast
      then show "returns (case m of Method_Fail \<Rightarrow> search_superclass ?rec c i found s1
        | Method_Null \<Rightarrow> run_return (Method_Null, s1)
        | Method_Found method \<Rightarrow>
            if found \<noteq> Method_Fail then run_return (Method_Null, set_error EEXIST s1)
            else if \<not> method_is_fatal_override s1 method then run_return (Method_Found method, s1)
            else search_superclass ?rec c i (Method_Found method) s1)"
        by (intro returns_method_cases returns_cases returns_simps sup)
    qed
    then show ?thesis
      unfolding search_next_class_def Let_def using sup [OF t] by simp
  qed
  show ?case
    unfolding mulle_objc_class_search_method_internal.simps
  proof (rule returns_run_bind [OF search_own_methodlists_returns], clarify)
    fix flow s1
    assume "search_own_methodlists search c inh s = run_return (flow, s1)"
    from holdsD [OF this search_own_methodlists_ok] have "same_shape s s1" by (simp add: step_ok_def)
    then show "returns (case flow of Return m \<Rightarrow> run_return (m, s1)
        | Proceed inh' found \<Rightarrow> search_next_class ?rec search c inh' found s1)"
      by (intro returns_flow returns_simps nxt)
  qed
qed simp

end
