(* ===== verification/Class_Search_Order.thy ===== *)
theory Class_Search_Order
  imports Class_Search_Correct
begin

text \<open>
  The order of a method search. \<open>class_visits\<close> lists the classes a search comes by: a class,
  its mixins (last one first), then the same for its superclass. Without a callback and
  without hidden override checks the search is one pass over this list
  (\<open>internal_eq_run_visits\<close>); the properties say what the pass finds in each mode.
\<close>

section \<open>The order\<close>

fun class_visits :: "nat \<Rightarrow> 'imp search_world \<Rightarrow> nat \<Rightarrow> uint32 \<Rightarrow> (nat \<times> uint32) list" where
  "class_visits 0 w cls inh = []"
| "class_visits (Suc d) w cls inh =
     (cls, inh) #
     (let infra = pair_infraclass (w_pair w (sc_classpair (w_class w cls)));
          inh' = mixin_inheritance (if inh AND DONT_INHERIT_PROTOCOL_CATEGORIES \<noteq> 0 then DONT_INHERIT_CATEGORIES else 0)
      in if inh AND DONT_INHERIT_PROTOCOLS \<noteq> 0 \<or> mulle_objc_class_is_mixin (w_class w infra) then []
         else concat (map (\<lambda>p. class_visits d w (mixin_walk_class w cls p)
                               (inh' OR sc_inheritance (w_class w (mixin_walk_class w cls p))))
                (filter (\<lambda>p. p \<noteq> infra) (rev (pair_mixins (w_pair w (sc_classpair (w_class w cls)))))))) @
     (case sc_superclass (w_class w cls) of
        None \<Rightarrow> []
      | Some super \<Rightarrow>
          if inh AND DONT_INHERIT_SUPERCLASS \<noteq> 0 then []
          else let inh' = superclass_inheritance (w_class w cls) (w_class w super) inh in
               class_visits d w super
                 (if inh' AND DONT_INHERIT_SUPERCLASS_INHERITANCE \<noteq> 0 then inh' else sc_inheritance (w_class w super)))"

text \<open>The method lists of a class that a visit looks at: last category first, the class's own list last.\<close>

definition visit_lists :: "'imp search_world \<Rightarrow> nat \<times> uint32 \<Rightarrow> nat list" where
  "visit_lists w = (\<lambda>(cls, inh).
     let ls = sc_methodlists (w_class w cls);
         n = (if inh AND DONT_INHERIT_CATEGORIES \<noteq> 0 then 1 else length ls);
         vs = rev (take n ls)
     in if inh AND DONT_INHERIT_CLASS \<noteq> 0 then butlast vs else vs)"

text \<open>The method lists in the order of the search, each with the class it is visited in.\<close>

definition lists_of_visits :: "'imp search_world \<Rightarrow> (nat \<times> uint32) list \<Rightarrow> (nat \<times> nat) list" where
  "lists_of_visits w vs = concat (map (\<lambda>v. map (Pair (fst v)) (visit_lists w v)) vs)"

fun first_some :: "('a \<Rightarrow> 'b option) \<Rightarrow> 'a list \<Rightarrow> 'b option" where
  "first_some f [] = None"
| "first_some f (x # xs) = (case f x of None \<Rightarrow> first_some f xs | Some y \<Rightarrow> Some y)"

definition method_in :: "'imp search_world \<Rightarrow> uint32 \<Rightarrow> nat \<times> nat \<Rightarrow> (nat \<times> method_ptr) option" where
  "method_in w methodid = (\<lambda>(cls, l).
     map_option (\<lambda>k. (cls, l, k)) (mulle_objc_methodlist_find (ml_methods (w_list w l)) methodid))"

lemma first_some_append: "first_some f (xs @ ys) = (case first_some f xs of None \<Rightarrow> first_some f ys | Some y \<Rightarrow> Some y)"
  by (induction xs) (auto split: option.splits)

text \<open>
  A world the order is stated for: sorted method lists with distinct ids, none of their
  methods with the hidden override check, every class with a method list and none with the
  class id at which the search is to stop.
\<close>

definition searchable_list :: "'imp mulle_objc_method list \<Rightarrow> bool" where
  "searchable_list ms \<longleftrightarrow> sorted (map method_methodid ms) \<and> distinct (map method_methodid ms) \<and>
     length ms \<le> 2 ^ 30 \<and> (\<forall>m \<in> set ms. \<not> mulle_objc_descriptor_is_hidden_override_fatal (method_descriptor m))"

definition searchable_world :: "'imp search_world \<Rightarrow> uint32 \<Rightarrow> bool" where
  "searchable_world w stop \<longleftrightarrow> (\<forall>l. searchable_list (ml_methods (w_list w l))) \<and>
     (\<forall>c. sc_methodlists (w_class w c) \<noteq> [] \<and> sc_classid (w_class w c) \<noteq> stop)"

section \<open>A search is a pass over the order\<close>

primrec run_visits ::
    "('imp, 'u) mulle_objc_searcharguments \<Rightarrow> (nat \<times> uint32) list \<Rightarrow>
     ('imp, 'u) search_state \<Rightarrow> (search_method \<times> ('imp, 'u) search_state) c_run" where
  "run_visits search [] s = run_return (Method_Fail, s)"
| "run_visits search (v # vs) s =
     run_bind (search_own_methodlists search (fst v) (snd v) s) (\<lambda>(flow, s1).
       case flow of Return m \<Rightarrow> run_return (m, s1) | Proceed inh found \<Rightarrow> run_visits search vs s1)"

text \<open>
  The conditions under which the pass is the search: no specific mode, in which a class may
  end its own search without ending the whole.
\<close>

definition plain_state :: "'imp search_world \<Rightarrow> ('imp, 'u) search_state \<Rightarrow> bool" where
  "plain_state w s \<longleftrightarrow> st_world s = w \<and> st_mode s \<noteq> MULLE_OBJC_SEARCH_SPECIFIC_METHOD \<and>
     st_mode s \<noteq> search_specific_method_2 \<and> st_mode s \<noteq> search_specific_method_3"

text \<open>How a visit may end.\<close>

definition visit_end :: "'imp search_world \<Rightarrow> uint32 \<Rightarrow> search_flow \<times> ('imp, 'u) search_state \<Rightarrow> bool" where
  "visit_end w inh = (\<lambda>(flow, s1). case flow of
     Proceed inh' found \<Rightarrow> inh' = inh \<and> found = Method_Fail \<and> plain_state w s1
   | Return m \<Rightarrow> m \<noteq> Method_Fail \<and> (\<forall>p. m = Method_Found p \<longrightarrow> \<not> method_is_fatal_override s1 p))"

lemma visit_end_simps [simp]:
  "visit_end w inh (Proceed inh' found, s1) \<longleftrightarrow> inh' = inh \<and> found = Method_Fail \<and> plain_state w s1"
  "visit_end w inh (Return Method_Null, s1)"
  "visit_end w inh (Return (Method_Found p), s1) \<longleftrightarrow> \<not> method_is_fatal_override s1 p"
  "\<not> visit_end w inh (Return Method_Fail, s1)"
  by (auto simp: visit_end_def)

lemma plain_state_mode [simp]:
  "plain_state w s \<Longrightarrow> m \<notin> {MULLE_OBJC_SEARCH_SPECIFIC_METHOD, search_specific_method_2, search_specific_method_3} \<Longrightarrow>
    plain_state w (set_mode m s)"
  by (simp add: plain_state_def)

lemma searchable_fatal:
  assumes "searchable_world w stop" and "k < length (ml_methods (w_list w l))"
  shows "\<not> mulle_objc_descriptor_is_hidden_override_fatal (method_descriptor (world_method w (l, k)))"
proof -
  have "searchable_list (ml_methods (w_list w l))" using assms(1) by (simp add: searchable_world_def)
  with nth_mem [OF assms(2)] show ?thesis by (simp add: searchable_list_def world_method_def)
qed

lemma fatal_mark_searched [simp]:
  "mulle_objc_descriptor_is_hidden_override_fatal (method_descriptor (mark_searched m)) =
   mulle_objc_descriptor_is_hidden_override_fatal (method_descriptor m)"
proof -
  have "(x OR 0x80) AND (1 :: uint32) = x AND 1" for x
    by (simp add: bit.conj_disj_distrib2)
  then show ?thesis
    by (simp add: mulle_objc_descriptor_is_hidden_override_fatal_def mark_searched_def c_defs)
qed

lemma world_method_mark [simp]:
  "k < length (ml_methods (w_list w l)) \<Longrightarrow>
    world_method (world_mark_searched (l, k) w) (l, k) = mark_searched (world_method w (l, k))"
  by (simp add: world_method_def world_mark_searched_def)

text \<open>A found method: what is stored in the result, and the bit it leaves in the method.\<close>

definition found_state :: "nat \<Rightarrow> method_ptr \<Rightarrow> ('imp, 'u) search_state \<Rightarrow> ('imp, 'u) search_state" where
  "found_state cls m s = (set_result cls (fst m) m s)\<lparr> st_world := world_mark_searched m (st_world s) \<rparr>"

lemma search_found_plain:
  assumes "search_callback search = None" and "searchable_world w stop" and "st_world s = w"
    and "k < length (ml_methods (w_list w l))"
  shows "search_found_method search cls inh found (l, k) s = (Return (Method_Found (l, k)), found_state cls (l, k) s)"
    and "\<not> method_is_fatal_override (found_state cls (l, k) s) (l, k)"
proof -
  have "\<not> method_is_fatal_override (set_result cls l (l, k) s) (l, k)"
    using searchable_fatal [OF assms(2,4)] assms(3) by (simp add: method_is_fatal_override_def set_result_def)
  then show "search_found_method search cls inh found (l, k) s = (Return (Method_Found (l, k)), found_state cls (l, k) s)"
    using assms(1,3) by (simp add: search_found_method_def found_state_def set_result_def)
  show "\<not> method_is_fatal_override (found_state cls (l, k) s) (l, k)"
    using searchable_fatal [OF assms(2,4)] assms(3,4)
    by (simp add: method_is_fatal_override_def found_state_def)
qed

lemma search_methodlist_range:
  assumes "searchable_world w stop" and "st_world s = w"
  shows "holds (search_methodlist search s l) (\<lambda>r. \<forall>k. r = Some k \<longrightarrow> k < length (ml_methods (w_list w l)))"
proof -
  have "mulle_objc_methodlist_search (ml_methods (w_list w l)) u =
      Inr (mulle_objc_methodlist_find (ml_methods (w_list w l)) u)" for u
    using assms(1) by (intro methods.search_eq_find) (auto simp: searchable_world_def searchable_list_def)
  then show ?thesis
    using assms(2)
    by (auto simp: search_methodlist_def Let_def mulle_objc_methodlist_linear_impsearch_def
        mulle_objc_methodlist_find_def list_find_loop_Some split: option.split)
qed

lemma plain_modes [simp]:
  "search_overridden_method_2 + (OFFSET_3_MODE - OFFSET_2_MODE) = search_overridden_method_3"
  "MULLE_OBJC_SEARCH_OVERRIDDEN_METHOD + OFFSET_2_MODE = search_overridden_method_2"
  "MULLE_OBJC_SEARCH_SUPER_METHOD + OFFSET_2_MODE = search_super_method_2"
  "MULLE_OBJC_SEARCH_SPECIFIC_METHOD + OFFSET_2_MODE = search_specific_method_2"
  "search_specific_method_2 + (OFFSET_3_MODE - OFFSET_2_MODE) = search_specific_method_3"
  by (simp_all add: c_defs)

lemma one_methodlist_end:
  assumes cb: "search_callback search = None" and w: "searchable_world w stop" and s: "plain_state w (s :: ('imp, 'u) search_state)"
  shows "holds (search_one_methodlist search cls inh Method_Fail l s) (visit_end w inh)"
proof (cases "st_mode s = search_overridden_method_2")
  case True
  with s show ?thesis
    by (simp add: search_one_methodlist_def) (simp add: plain_state_def c_defs)
next
  case False
  have nospec: "st_mode s \<noteq> search_specific_method_2" "st_mode s \<noteq> search_specific_method_3"
    using s by (simp_all add: plain_state_def)
  have ws: "st_world s = w" using s by (simp add: plain_state_def)
  have prev: "plain_state w (set_mode search_previous_method_2 s)"
    using s by (simp add: plain_state_def c_defs)
  have "holds (run_bind (search_methodlist search s l) f) (visit_end w inh)"
    if "\<And>r. (\<And>k. r = Some k \<Longrightarrow> k < length (ml_methods (w_list w l))) \<Longrightarrow> holds (f r) (visit_end w inh)" for f
    by (rule holds_run_bind [OF search_methodlist_range [OF w ws]]) (use that in blast)
  note bind = this
  show ?thesis
    unfolding search_one_methodlist_def Let_def
    using False nospec s prev
    by (auto intro!: bind simp: search_found_plain [OF cb w ws] split: option.split)
qed

lemma methodlists_end:
  assumes cb: "search_callback search = None" and w: "searchable_world w stop" and s: "plain_state w (s :: ('imp, 'u) search_state)"
  shows "holds (search_methodlists search cls n ls i inh Method_Fail s) (visit_end w inh)"
  using s
proof (induction ls arbitrary: i s)
  case (Cons l ls)
  have "holds (run_bind (search_one_methodlist search cls inh Method_Fail l s) (\<lambda>(flow, s1).
      case flow of Return m \<Rightarrow> run_return (Return m, s1)
      | Proceed inh' found' \<Rightarrow> search_methodlists search cls n ls j inh' found' s1)) (visit_end w inh)" for j
  proof (rule holds_run_bind [OF one_methodlist_end [OF cb w Cons.prems]], clarify)
    fix flow and t :: "('imp, 'u) search_state"
    assume "visit_end w inh (flow, t)"
    then show "holds (case flow of Return m \<Rightarrow> run_return (Return m, t)
      | Proceed inh' found' \<Rightarrow> search_methodlists search cls n ls j inh' found' t) (visit_end w inh)"
      using Cons.IH by (cases flow) auto
  qed
  with Cons.prems show ?case unfolding search_methodlists.simps Let_def by auto
qed simp

lemma own_methodlists_end:
  assumes cb: "search_callback search = None" and w: "searchable_world w stop" and s: "plain_state w (s :: ('imp, 'u) search_state)"
  shows "holds (search_own_methodlists search cls inh s) (visit_end w inh)"
proof -
  have tail: "holds (run_bind (search_methodlists search cls n ls 0 inh Method_Fail t) (\<lambda>(flow, s2).
      case flow of Return m \<Rightarrow> run_return (Return m, s2)
      | Proceed inh' found \<Rightarrow> if P s2 then run_return (Return Method_Null, set_error EINVAL s2)
          else run_return (Proceed inh' found, s2))) (visit_end w inh)" if "plain_state w t" for n ls P t
  proof (rule holds_run_bind [OF methodlists_end [OF cb w that]], clarify)
    fix flow and t :: "('imp, 'u) search_state"
    assume "visit_end w inh (flow, t)"
    then show "holds (case flow of Return m \<Rightarrow> run_return (Return m, t)
      | Proceed inh' found \<Rightarrow> if P t then run_return (Return Method_Null, set_error EINVAL t)
          else run_return (Proceed inh' found, t)) (visit_end w inh)"
      by (cases flow) auto
  qed
  have ov: "plain_state w (set_mode search_overridden_method_2 s)" "plain_state w (set_mode search_super_method_2 s)"
    using s by (simp_all add: plain_state_def c_defs)
  have "st_mode s \<noteq> MULLE_OBJC_SEARCH_SPECIFIC_METHOD" using s by (simp add: plain_state_def)
  then show ?thesis
    unfolding search_own_methodlists_def Let_def
    using s ov by (auto intro!: holds_c_assert tail)
qed

text \<open>A pass over two parts of the order.\<close>

definition run_end :: "'imp search_world \<Rightarrow> search_method \<times> ('imp, 'u) search_state \<Rightarrow> bool" where
  "run_end w = (\<lambda>(m, s1). case m of
     Method_Fail \<Rightarrow> plain_state w s1 | Method_Null \<Rightarrow> True | Method_Found p \<Rightarrow> \<not> method_is_fatal_override s1 p)"

lemma run_end_simps [simp]:
  "run_end w (Method_Fail, s1) = plain_state w s1" "run_end w (Method_Null, s1)"
  "run_end w (Method_Found p, s1) \<longleftrightarrow> \<not> method_is_fatal_override s1 p"
  by (simp_all add: run_end_def)

definition or_else ::
    "(search_method \<times> ('imp, 'u) search_state) c_run \<Rightarrow>
     (('imp, 'u) search_state \<Rightarrow> (search_method \<times> ('imp, 'u) search_state) c_run) \<Rightarrow>
     (search_method \<times> ('imp, 'u) search_state) c_run" where
  "or_else m f = run_bind m (\<lambda>(r, s). if r = Method_Fail then f s else run_return (r, s))"

lemma run_visits_end:
  assumes cb: "search_callback search = None" and w: "searchable_world w stop" and s: "plain_state w (s :: ('imp, 'u) search_state)"
  shows "holds (run_visits search vs s) (run_end w)"
  using s
proof (induction vs arbitrary: s)
  case (Cons v vs)
  show ?case
    unfolding run_visits.simps
  proof (rule holds_run_bind [OF own_methodlists_end [OF cb w Cons.prems]], clarify)
    fix flow and t :: "('imp, 'u) search_state"
    assume t: "visit_end w (snd v) (flow, t)"
    show "holds (case flow of Return m \<Rightarrow> run_return (m, t) | Proceed inh found \<Rightarrow> run_visits search vs t) (run_end w)"
    proof (cases flow)
      case (Return m)
      with t show ?thesis by (cases m) auto
    qed (use t Cons.IH in auto)
  qed
qed simp

lemma run_bind_assoc: "run_bind (run_bind m f) g = run_bind m (\<lambda>x. run_bind (f x) g)"
  by (auto simp: run_bind_def split: option.split sum.split)

lemma run_bind_cong_holds:
  "holds m P \<Longrightarrow> (\<And>x. P x \<Longrightarrow> f x = g x) \<Longrightarrow> run_bind m f = run_bind m g"
  by (auto simp: run_bind_def holds_def split: option.split sum.split)

lemma run_visits_append:
  assumes cb: "search_callback search = None" and w: "searchable_world w stop" and s: "plain_state w (s :: ('imp, 'u) search_state)"
  shows "run_visits search (us @ vs) s = or_else (run_visits search us s) (run_visits search vs)"
  using s
proof (induction us arbitrary: s)
  case (Cons u us)
  have "run_visits search ((u # us) @ vs) s = run_bind (search_own_methodlists search (fst u) (snd u) s)
      (\<lambda>(flow, s1). or_else (case flow of Return m \<Rightarrow> run_return (m, s1)
         | Proceed inh found \<Rightarrow> run_visits search us s1) (run_visits search vs))"
    unfolding append_Cons run_visits.simps
  proof (rule run_bind_cong_holds [OF own_methodlists_end [OF cb w Cons.prems]], clarify)
    fix flow and t :: "('imp, 'u) search_state"
    assume t: "visit_end w (snd u) (flow, t)"
    show "(case flow of Return m \<Rightarrow> run_return (m, t) | Proceed inh found \<Rightarrow> run_visits search (us @ vs) t) =
      or_else (case flow of Return m \<Rightarrow> run_return (m, t) | Proceed inh found \<Rightarrow> run_visits search us t)
        (run_visits search vs)"
    proof (cases flow)
      case (Return m)
      with t show ?thesis by (cases m) (auto simp: or_else_def)
    qed (use t Cons.IH in auto)
  qed
  then show ?case by (simp add: or_else_def run_bind_assoc case_prod_unfold)
qed (simp add: or_else_def)

lemma or_else_cong:
  "holds m (run_end w) \<Longrightarrow> (\<And>t. plain_state w t \<Longrightarrow> f t = g t) \<Longrightarrow> or_else m f = or_else m g"
  unfolding or_else_def by (erule run_bind_cong_holds) auto

lemma or_else_Fail [simp]: "or_else (run_return (Method_Fail, s)) f = f s"
  by (simp add: or_else_def)

lemma or_else_return: "or_else m (\<lambda>t. run_return (Method_Fail, t)) = m"
  by (auto simp: or_else_def run_bind_def split: option.split sum.split prod.split)

text \<open>Where the code distinguishes the results of a recursive search, nothing was found before.\<close>

lemma method_case_or_else:
  fixes m :: "(search_method \<times> ('imp, 'u) search_state) c_run"
  assumes "holds m (run_end w)"
    and g: "\<And>p s1. \<not> method_is_fatal_override s1 p \<Longrightarrow> g p s1 = run_return (Method_Found p, s1)"
  shows "run_bind m (\<lambda>(r, s1). case r of Method_Fail \<Rightarrow> f s1 | Method_Null \<Rightarrow> run_return (Method_Null, s1)
      | Method_Found p \<Rightarrow> g p s1) = or_else m f"
  unfolding or_else_def
proof (rule run_bind_cong_holds [OF assms(1)], clarify)
  fix r and s1 :: "('imp, 'u) search_state"
  assume "run_end w (r, s1)"
  then show "(case r of Method_Fail \<Rightarrow> f s1 | Method_Null \<Rightarrow> run_return (Method_Null, s1) | Method_Found p \<Rightarrow> g p s1) =
    (if r = Method_Fail then f s1 else run_return (r, s1))"
    using g by (cases r) auto
qed

lemma protocol_loop_visits:
  assumes cb: "search_callback search = None" and w: "searchable_world w stop"
    and s: "plain_state w (s :: ('imp, 'u) search_state)"
    and rec: "\<And>p t. p \<in> set ps \<Longrightarrow> plain_state w t \<Longrightarrow>
      rec (mixin_walk_class w cls p) (inh OR sc_inheritance (w_class w (mixin_walk_class w cls p))) t =
      run_visits search (V p) t"
    and infra: "infra \<notin> set ps"
  shows "protocol_search_loop rec search cls infra inh Method_Fail ps s = run_visits search (concat (map V ps)) s"
  using s rec infra
proof (induction ps arbitrary: s)
  case (Cons p ps)
  have ws: "st_world s = w" using Cons.prems(1) by (simp add: plain_state_def)
  have "protocol_search_loop rec search cls infra inh Method_Fail (p # ps) s =
      or_else (run_visits search (V p) s) (\<lambda>t. protocol_search_loop rec search cls infra inh Method_Fail ps t)"
    unfolding protocol_search_loop.simps Let_def ws Cons.prems(2) [OF list.set_intros(1) Cons.prems(1)]
    using Cons.prems(3) cb
    by (simp, intro method_case_or_else [OF run_visits_end [OF cb w Cons.prems(1)]])
      (simp add: method_is_fatal_override_def)
  also have "\<dots> = or_else (run_visits search (V p) s) (run_visits search (concat (map V ps)))"
    by (rule or_else_cong [OF run_visits_end [OF cb w Cons.prems(1)]]) (use Cons in auto)
  also have "\<dots> = run_visits search (concat (map V (p # ps))) s"
    by (simp add: run_visits_append [OF cb w Cons.prems(1)])
  finally show ?case .
qed simp

text \<open>The two parts of the order behind a class.\<close>

definition mixin_visits :: "nat \<Rightarrow> 'imp search_world \<Rightarrow> nat \<Rightarrow> uint32 \<Rightarrow> (nat \<times> uint32) list" where
  "mixin_visits d w cls inh =
     (let infra = pair_infraclass (w_pair w (sc_classpair (w_class w cls)));
          inh' = mixin_inheritance (if inh AND DONT_INHERIT_PROTOCOL_CATEGORIES \<noteq> 0 then DONT_INHERIT_CATEGORIES else 0)
      in if inh AND DONT_INHERIT_PROTOCOLS \<noteq> 0 \<or> mulle_objc_class_is_mixin (w_class w infra) then []
         else concat (map (\<lambda>p. class_visits d w (mixin_walk_class w cls p)
                               (inh' OR sc_inheritance (w_class w (mixin_walk_class w cls p))))
                (filter (\<lambda>p. p \<noteq> infra) (rev (pair_mixins (w_pair w (sc_classpair (w_class w cls))))))))"

definition super_visits :: "nat \<Rightarrow> 'imp search_world \<Rightarrow> nat \<Rightarrow> uint32 \<Rightarrow> (nat \<times> uint32) list" where
  "super_visits d w cls inh =
     (case sc_superclass (w_class w cls) of
        None \<Rightarrow> []
      | Some super \<Rightarrow>
          if inh AND DONT_INHERIT_SUPERCLASS \<noteq> 0 then []
          else let inh' = superclass_inheritance (w_class w cls) (w_class w super) inh in
               class_visits d w super
                 (if inh' AND DONT_INHERIT_SUPERCLASS_INHERITANCE \<noteq> 0 then inh' else sc_inheritance (w_class w super)))"

lemma class_visits_Suc: "class_visits (Suc d) w cls inh = (cls, inh) # mixin_visits d w cls inh @ super_visits d w cls inh"
  by (simp add: mixin_visits_def super_visits_def)

lemma class_visits_leaf: "leaf_bits inh \<Longrightarrow> class_visits (Suc d) w cls inh = [(cls, inh)]"
  unfolding class_visits_Suc
  by (simp add: mixin_visits_def super_visits_def leaf_bits_def split: option.split)

text \<open>The search of one class agrees with the pass over its visits.\<close>

definition agrees ::
    "'imp search_world \<Rightarrow> ('imp, 'u) mulle_objc_searcharguments \<Rightarrow> nat \<Rightarrow> nat \<Rightarrow> uint32 \<Rightarrow> bool" where
  "agrees w search d cls inh \<longleftrightarrow> (\<forall>s. plain_state w s \<longrightarrow>
     mulle_objc_class_search_method_internal d search cls inh s = run_visits search (class_visits d w cls inh) s)"

lemma agreesD:
  "agrees w search d cls inh \<Longrightarrow> plain_state w s \<Longrightarrow>
    mulle_objc_class_search_method_internal d search cls inh s = run_visits search (class_visits d w cls inh) s"
  by (simp add: agrees_def)

lemma superclass_agrees:
  assumes cb: "search_callback search = None" and w: "searchable_world w stop"
    and s: "plain_state w (s :: ('imp, 'u) search_state)"
    and rec: "\<And>super i. sc_superclass (w_class w cls) = Some super \<Longrightarrow> inh AND DONT_INHERIT_SUPERCLASS = 0 \<Longrightarrow>
      agrees w search d super i"
  shows "search_superclass (mulle_objc_class_search_method_internal d search) cls inh Method_Fail s =
    run_visits search (super_visits d w cls inh) s"
proof (cases "sc_superclass (w_class w cls)")
  case None
  then show ?thesis using s by (simp add: search_superclass_def super_visits_def plain_state_def)
next
  case (Some super)
  have ws: "st_world s = w" using s by (simp add: plain_state_def)
  show ?thesis
  proof (cases "inh AND DONT_INHERIT_SUPERCLASS = 0")
    case True
    note rec = agreesD [OF rec [OF Some True] s]
    show ?thesis
      unfolding search_superclass_def super_visits_def Let_def ws Some option.case
        mulle_objc_class_search_method_super_def rec
      using True
      by (simp split del: if_split)
        (rule trans [OF method_case_or_else [OF run_visits_end [OF cb w s]] or_else_return], simp)
  qed (simp add: search_superclass_def super_visits_def ws Some)
qed

lemma next_class_agrees:
  assumes cb: "search_callback search = None" and w: "searchable_world w stop"
    and s: "plain_state w (s :: ('imp, 'u) search_state)"
    and leaf: "\<And>c i. leaf_bits i \<Longrightarrow> agrees w search d c i"
    and rec: "\<And>super i. sc_superclass (w_class w cls) = Some super \<Longrightarrow> inh AND DONT_INHERIT_SUPERCLASS = 0 \<Longrightarrow>
      agrees w search d super i"
  shows "search_next_class (mulle_objc_class_search_method_internal d search) search cls inh Method_Fail s =
    run_visits search (mixin_visits d w cls inh @ super_visits d w cls inh) s"
proof -
  let ?rec = "mulle_objc_class_search_method_internal d search"
  have ws: "st_world s = w" using s by (simp add: plain_state_def)
  have super: "search_superclass ?rec cls inh Method_Fail t = run_visits search (super_visits d w cls inh) t"
    if "plain_state w t" for t
    by (rule superclass_agrees [OF cb w that rec])
  show ?thesis
  proof (cases "inh AND DONT_INHERIT_PROTOCOLS = 0")
    case False
    then show ?thesis by (simp add: search_next_class_def mixin_visits_def super [OF s])
  next
    case True
    let ?tmp = "if inh AND DONT_INHERIT_PROTOCOL_CATEGORIES \<noteq> 0 then DONT_INHERIT_CATEGORIES else 0"
    have mix: "mulle_objc_class_protocol_search_method ?rec search cls ?tmp s =
        run_visits search (mixin_visits d w cls inh) s"
    proof (cases "mulle_objc_class_is_mixin (w_class w (pair_infraclass (w_pair w (sc_classpair (w_class w cls)))))")
      case notmixin: False
      show ?thesis
        unfolding mulle_objc_class_protocol_search_method_def mixin_visits_def Let_def ws
        using True notmixin
        by (simp split del: if_split)
          (rule protocol_loop_visits [OF cb w s], rule agreesD [OF leaf [OF leaf_bits_mixin]], auto)
    qed (simp add: mulle_objc_class_protocol_search_method_def mixin_visits_def ws)
    have "search_next_class ?rec search cls inh Method_Fail s =
        or_else (run_visits search (mixin_visits d w cls inh) s) (search_superclass ?rec cls inh Method_Fail)"
      unfolding search_next_class_def Let_def or.left_neutral mix
      using True
      by (simp split del: if_split)
        (rule method_case_or_else [OF run_visits_end [OF cb w s]], simp)
    also have "\<dots> = run_visits search (mixin_visits d w cls inh @ super_visits d w cls inh) s"
      unfolding run_visits_append [OF cb w s]
      by (rule or_else_cong [OF run_visits_end [OF cb w s]]) (rule super)
    finally show ?thesis .
  qed
qed

lemma internal_step_agrees:
  assumes cb: "search_callback search = None" and w: "searchable_world w stop"
    and nxt: "\<And>s. plain_state w (s :: ('imp, 'u) search_state) \<Longrightarrow>
      search_next_class (mulle_objc_class_search_method_internal d search) search cls inh Method_Fail s =
      run_visits search (mixin_visits d w cls inh @ super_visits d w cls inh) s"
  shows "agrees w search (Suc d) cls inh"
  unfolding agrees_def class_visits_Suc run_visits.simps mulle_objc_class_search_method_internal.simps
proof (intro allI impI, unfold fst_conv snd_conv)
  fix s :: "('imp, 'u) search_state"
  assume s: "plain_state w s"
  show "run_bind (search_own_methodlists search cls inh s) (\<lambda>(flow, s1).
        case flow of Return m \<Rightarrow> run_return (m, s1)
        | Proceed inh' found \<Rightarrow> search_next_class (mulle_objc_class_search_method_internal d search) search cls
            inh' found s1) =
      run_bind (search_own_methodlists search cls inh s) (\<lambda>(flow, s1).
        case flow of Return m \<Rightarrow> run_return (m, s1)
        | Proceed inh' found \<Rightarrow> run_visits search (mixin_visits d w cls inh @ super_visits d w cls inh) s1)"
    by (rule run_bind_cong_holds [OF own_methodlists_end [OF cb w s]]) (auto simp: nxt split: search_flow.split)
qed

lemma leaf_agrees:
  fixes search :: "('imp, 'u) mulle_objc_searcharguments"
  assumes cb: "search_callback search = None" and w: "searchable_world w stop" and "leaf_bits inh"
  shows "agrees w search (Suc d) c inh"
proof (rule internal_step_agrees [OF cb w])
  fix s :: "('imp, 'u) search_state"
  assume "plain_state w s"
  with assms(3) show "search_next_class (mulle_objc_class_search_method_internal d search) search c inh Method_Fail s =
      run_visits search (mixin_visits d w c inh @ super_visits d w c inh) s"
    by (auto simp: search_next_class_def search_superclass_def mixin_visits_def super_visits_def leaf_bits_def
        Let_def plain_state_def split: option.split)
qed

lemma internal_agrees:
  assumes cb: "search_callback search = None" and w: "searchable_world w stop"
    and r: "ranked w r" and "r c + 2 \<le> depth"
  shows "agrees w search depth c inh"
  using assms(4)
proof (induction depth arbitrary: c inh)
  case (Suc d)
  obtain d' where d: "d = Suc d'" using Suc.prems by (cases d) auto
  show ?case
  proof (rule internal_step_agrees [OF cb w], rule next_class_agrees [OF cb w], assumption)
    show "agrees w search d k i" if "leaf_bits i" for k i
      unfolding d by (rule leaf_agrees [OF cb w that])
    show "agrees w search d super i" if "sc_superclass (w_class w c) = Some super" for super i
      using Suc.IH [of super i] Suc.prems r that by (fastforce simp: ranked_def)
  qed
qed simp

section \<open>What the pass finds\<close>

text \<open>
  The modes in which every list is looked into and the first hit is the result; behind an
  overridden method its own class and category do not count.
\<close>

definition finding_mode :: "uint32 \<Rightarrow> bool" where
  "finding_mode m \<longleftrightarrow> m = MULLE_OBJC_SEARCH_DEFAULT \<or> m = search_super_method_2 \<or> m = search_previous_method_2 \<or>
     m = search_overridden_method_3"

definition hit ::
    "('imp, 'u) mulle_objc_searcharguments \<Rightarrow> uint32 \<Rightarrow> 'imp search_world \<Rightarrow> nat \<times> nat \<Rightarrow>
     (nat \<times> method_ptr) option" where
  "hit search m w = (\<lambda>(cls, l).
     if m = search_overridden_method_3 \<and> args_classid (search_args search) = sc_classid (w_class w cls) \<and>
        args_categoryid (search_args search) = mulle_objc_methodlist_get_categoryid (w_list w l)
     then None else method_in w (args_methodid (search_args search)) (cls, l))"

lemma hit_eq_method_in:
  "m \<noteq> search_overridden_method_3 \<Longrightarrow> hit search m w = method_in w (args_methodid (search_args search))"
  by (auto simp: hit_def)

lemma finding_modeD:
  assumes "finding_mode m"
  shows "m \<noteq> MULLE_OBJC_SEARCH_IMP" "m \<noteq> MULLE_OBJC_SEARCH_SUPER_METHOD" "m \<noteq> MULLE_OBJC_SEARCH_OVERRIDDEN_METHOD"
    "m \<noteq> MULLE_OBJC_SEARCH_SPECIFIC_METHOD" "m \<noteq> MULLE_OBJC_SEARCH_PREVIOUS_METHOD"
    "m \<noteq> search_overridden_method_2" "m \<noteq> search_specific_method_2"
    "m \<noteq> search_specific_method_3"
  using assms by (auto simp: finding_mode_def c_defs)

definition outcome_of ::
    "(nat \<times> method_ptr) option \<Rightarrow> ('imp, 'u) search_state \<Rightarrow> search_method \<times> ('imp, 'u) search_state" where
  "outcome_of r s = (case r of None \<Rightarrow> (Method_Fail, s) | Some (c, p) \<Rightarrow> (Method_Found p, found_state c p s))"

definition flow_of ::
    "uint32 \<Rightarrow> (nat \<times> method_ptr) option \<Rightarrow> ('imp, 'u) search_state \<Rightarrow> search_flow \<times> ('imp, 'u) search_state" where
  "flow_of inh r s = (case r of None \<Rightarrow> (Proceed inh Method_Fail, s) | Some (c, p) \<Rightarrow> (Return (Method_Found p), found_state c p s))"

lemma search_methodlist_id:
  assumes "searchable_world w stop" and "st_world s = w" and "st_mode s \<noteq> MULLE_OBJC_SEARCH_IMP"
  shows "search_methodlist search s l =
    run_return (mulle_objc_methodlist_find (ml_methods (w_list w l)) (args_methodid (search_args search)))"
proof -
  have "mulle_objc_methodlist_search (ml_methods (w_list w l)) u =
      Inr (mulle_objc_methodlist_find (ml_methods (w_list w l)) u)" for u
    using assms(1) by (intro methods.search_eq_find) (auto simp: searchable_world_def searchable_list_def)
  with assms(2,3) show ?thesis by (simp add: search_methodlist_def)
qed

lemma methodlist_find_range:
  "mulle_objc_methodlist_find ms u = Some k \<Longrightarrow> k < length ms \<and> method_methodid (ms ! k) = u"
  by (simp add: mulle_objc_methodlist_find_def list_find_loop_Some)

lemma one_methodlist_finds:
  assumes "search_callback search = None" and "searchable_world w stop" and "st_world s = w" and "finding_mode (st_mode s)"
  shows "search_one_methodlist search cls inh Method_Fail l s =
    run_return (flow_of inh (hit search (st_mode s) w (cls, l)) s)"
  using finding_modeD [OF assms(4)]
  by (auto simp: search_one_methodlist_def search_methodlist_id [OF assms(2,3)] flow_of_def method_in_def hit_def
      search_found_plain [OF assms(1-3)] assms(3) dest: methodlist_find_range split: option.split)

lemma methodlists_find:
  assumes "search_callback search = None" and "searchable_world w stop" and "st_world s = w" and "finding_mode (st_mode s)"
    and "inh AND DONT_INHERIT_CLASS \<noteq> 0 \<Longrightarrow> i + length ls = n"
  shows "search_methodlists search cls n ls i inh Method_Fail s =
    run_return (flow_of inh (first_some (hit search (st_mode s) w)
      (map (Pair cls) (if inh AND DONT_INHERIT_CLASS \<noteq> 0 then butlast ls else ls))) s)"
  using assms(5)
proof (induction ls arbitrary: i)
  case (Cons l ls)
  show ?case
  proof (cases "inh AND DONT_INHERIT_CLASS \<noteq> 0 \<and> ls = []")
    case True
    with Cons.prems show ?thesis by (simp add: flow_of_def)
  next
    case False
    then have "\<not> (inh AND DONT_INHERIT_CLASS \<noteq> 0 \<and> Suc i = n)" using Cons.prems by auto
    with False Cons show ?thesis
      by (auto simp: one_methodlist_finds [OF assms(1-4)] flow_of_def split: option.split)
  qed
qed (simp add: flow_of_def)

lemma own_methodlists_find:
  assumes "search_callback search = None" and "searchable_world w (search_stop_classid search)" and "st_world s = w"
    and "finding_mode (st_mode s)"
  shows "search_own_methodlists search cls inh s =
    run_return (flow_of inh (first_some (hit search (st_mode s) w)
      (map (Pair cls) (visit_lists w (cls, inh)))) s)"
proof -
  let ?ls = "sc_methodlists (w_class w cls)"
  let ?n = "if inh AND DONT_INHERIT_CATEGORIES \<noteq> 0 then 1 else length ?ls"
  note modes = finding_modeD [OF assms(4)]
  have ne: "?ls \<noteq> []" "sc_classid (w_class w cls) \<noteq> search_stop_classid search"
    using assms(2) by (auto simp: searchable_world_def)
  then have "length (rev (take ?n ?ls)) = ?n" by (cases ?ls) auto
  then have "search_methodlists search cls ?n (rev (take ?n ?ls)) 0 inh Method_Fail s =
      run_return (flow_of inh (first_some (hit search (st_mode s) w)
        (map (Pair cls) (visit_lists w (cls, inh)))) s)"
    by (simp add: methodlists_find [OF assms(1-4)] visit_lists_def Let_def)
  with modes ne show ?thesis
    by (auto simp: search_own_methodlists_def Let_def assms(3) flow_of_def split: option.split)
qed

lemma run_visits_finds:
  assumes "search_callback search = None" and "searchable_world w (search_stop_classid search)" and "st_world s = w"
    and "finding_mode (st_mode s)"
  shows "run_visits search vs s =
    run_return (outcome_of (first_some (hit search (st_mode s) w) (lists_of_visits w vs)) s)"
proof (induction vs)
  case (Cons v vs)
  show ?case
    unfolding run_visits.simps own_methodlists_find [OF assms] run_bind_simps
    using Cons.IH
    by (auto simp: lists_of_visits_def first_some_append flow_of_def outcome_of_def split: option.split)
qed (simp add: lists_of_visits_def outcome_of_def)

text \<open>In super mode the visits up to the first one of the named class only move the mode.\<close>

lemma run_visits_super:
  assumes "search_callback search = None" and "searchable_world w (search_stop_classid search)" and "st_world s = w"
    and "st_mode s = MULLE_OBJC_SEARCH_SUPER_METHOD"
  shows "run_visits search vs s =
    (let behind = dropWhile (\<lambda>v. sc_classid (w_class w (fst v)) \<noteq> args_classid (search_args search)) vs
     in if behind = [] then run_return (Method_Fail, s)
        else run_visits search (tl behind) (set_mode search_super_method_2 s))"
  by (induction vs) (auto simp: Let_def search_own_methodlists_def assms(3,4))

text \<open>
  In overridden mode the visits up to the first one of the named class are skipped, and in
  this class the lists up to the first one of the named category.
\<close>

lemma methodlists_overridden:
  assumes "search_callback search = None" and "searchable_world w (search_stop_classid search)" and "st_world s = w"
    and "st_mode s = search_overridden_method_2" and "inh AND DONT_INHERIT_CLASS \<noteq> 0 \<Longrightarrow> i + length ls = n"
  shows "search_methodlists search cls n ls i inh Method_Fail s =
    (let behind = dropWhile (\<lambda>l. mulle_objc_methodlist_get_categoryid (w_list w l) \<noteq> args_categoryid (search_args search))
           (if inh AND DONT_INHERIT_CLASS \<noteq> 0 then butlast ls else ls)
     in if behind = [] then run_return (Proceed inh Method_Fail, s)
        else run_return (flow_of inh (first_some (hit search search_overridden_method_3 w) (map (Pair cls) (tl behind)))
               (set_mode search_overridden_method_3 s)))"
  using assms(5)
proof (induction ls arbitrary: i)
  case (Cons l ls)
  let ?s3 = "set_mode search_overridden_method_3 s"
  show ?case
  proof (cases "inh AND DONT_INHERIT_CLASS \<noteq> 0 \<and> ls = []")
    case True
    with Cons.prems show ?thesis by simp
  next
    case False
    then have go: "\<not> (inh AND DONT_INHERIT_CLASS \<noteq> 0 \<and> Suc i = n)" using Cons.prems by auto
    have one: "search_one_methodlist search cls inh Method_Fail l s = run_return (Proceed inh Method_Fail,
        if args_categoryid (search_args search) = mulle_objc_methodlist_get_categoryid (w_list w l) then ?s3 else s)"
      by (simp add: search_one_methodlist_def assms(3,4))
    have rest: "search_methodlists search cls n ls j inh Method_Fail ?s3 =
        run_return (flow_of inh (first_some (hit search search_overridden_method_3 w)
          (map (Pair cls) (if inh AND DONT_INHERIT_CLASS \<noteq> 0 then butlast ls else ls))) ?s3)"
      if "inh AND DONT_INHERIT_CLASS \<noteq> 0 \<Longrightarrow> j + length ls = n" for j
      using methodlists_find [OF assms(1,2), of ?s3 inh j ls n cls] assms(3) that
      by (simp add: finding_mode_def)
    show ?thesis
      using False go Cons rest
      by (cases "mulle_objc_methodlist_get_categoryid (w_list w l) = args_categoryid (search_args search)")
        (auto simp: one Let_def)
  qed
qed simp

lemma own_overridden:
  assumes "search_callback search = None" and "searchable_world w (search_stop_classid search)" and "st_world s = w"
    and "st_mode s = MULLE_OBJC_SEARCH_OVERRIDDEN_METHOD"
    and "sc_classid (w_class w cls) = args_classid (search_args search)"
  shows "search_own_methodlists search cls inh s =
    (let behind = dropWhile (\<lambda>l. mulle_objc_methodlist_get_categoryid (w_list w l) \<noteq> args_categoryid (search_args search))
           (visit_lists w (cls, inh))
     in if behind = [] then run_return (Return Method_Null, set_error EINVAL (set_mode search_overridden_method_2 s))
        else run_return (flow_of inh (first_some (hit search search_overridden_method_3 w) (map (Pair cls) (tl behind)))
               (set_mode search_overridden_method_3 s)))"
proof -
  let ?ls = "sc_methodlists (w_class w cls)"
  let ?n = "if inh AND DONT_INHERIT_CATEGORIES \<noteq> 0 then 1 else length ?ls"
  let ?s2 = "set_mode search_overridden_method_2 s"
  have ne: "?ls \<noteq> []" "sc_classid (w_class w cls) \<noteq> search_stop_classid search"
    using assms(2) by (auto simp: searchable_world_def)
  then have len: "length (rev (take ?n ?ls)) = ?n" by (cases ?ls) auto
  have lists: "visit_lists w (cls, inh) =
      (if inh AND DONT_INHERIT_CLASS \<noteq> 0 then butlast (rev (take ?n ?ls)) else rev (take ?n ?ls))"
    by (simp add: visit_lists_def Let_def)
  have modes: "search_overridden_method_3 \<noteq> search_overridden_method_2"
    "search_overridden_method_3 \<noteq> search_specific_method_2"
    "MULLE_OBJC_SEARCH_OVERRIDDEN_METHOD \<noteq> MULLE_OBJC_SEARCH_SUPER_METHOD"
    by (simp_all add: c_defs)
  have "search_methodlists search cls ?n (rev (take ?n ?ls)) 0 inh Method_Fail ?s2 =
    (let behind = dropWhile (\<lambda>l. mulle_objc_methodlist_get_categoryid (w_list w l) \<noteq> args_categoryid (search_args search))
           (visit_lists w (cls, inh))
     in if behind = [] then run_return (Proceed inh Method_Fail, ?s2)
        else run_return (flow_of inh (first_some (hit search search_overridden_method_3 w) (map (Pair cls) (tl behind)))
               (set_mode search_overridden_method_3 s)))"
    unfolding lists using methodlists_overridden [OF assms(1,2), of ?s2 inh 0 "rev (take ?n ?ls)" ?n cls] len assms(3)
    by (simp del: take_all)
  with ne modes assms(4,5) show ?thesis
    by (auto simp: search_own_methodlists_def Let_def assms(3) flow_of_def found_state_def set_result_def split: option.split)
qed

lemma run_visits_overridden:
  assumes "search_callback search = None" and "searchable_world w (search_stop_classid search)" and "st_world s = w"
    and "st_mode s = MULLE_OBJC_SEARCH_OVERRIDDEN_METHOD"
  shows "run_visits search vs s =
    (case dropWhile (\<lambda>v. sc_classid (w_class w (fst v)) \<noteq> args_classid (search_args search)) vs of
       [] \<Rightarrow> run_return (Method_Fail, s)
     | v # rest \<Rightarrow>
         (let behind = dropWhile (\<lambda>l. mulle_objc_methodlist_get_categoryid (w_list w l) \<noteq> args_categoryid (search_args search))
                (visit_lists w v)
          in if behind = [] then run_return (Method_Null, set_error EINVAL (set_mode search_overridden_method_2 s))
             else run_return (outcome_of (first_some (hit search search_overridden_method_3 w)
                    (map (Pair (fst v)) (tl behind) @ lists_of_visits w rest)) (set_mode search_overridden_method_3 s))))"
proof (induction vs)
  case (Cons v vs)
  show ?case
  proof (cases "sc_classid (w_class w (fst v)) = args_classid (search_args search)")
    case True
    have "run_visits search vs (set_mode search_overridden_method_3 s) =
      run_return (outcome_of (first_some (hit search search_overridden_method_3 w) (lists_of_visits w vs))
        (set_mode search_overridden_method_3 s))"
      using run_visits_finds [OF assms(1,2), of "set_mode search_overridden_method_3 s" vs] assms(3)
      by (simp add: finding_mode_def)
    then show ?thesis
      using True own_overridden [OF assms True, of "snd v"]
      by (auto simp: Let_def flow_of_def outcome_of_def first_some_append split: option.split)
  next
    case False
    then have "search_own_methodlists search (fst v) (snd v) s = run_return (Proceed (snd v) Method_Fail, s)"
      by (auto simp: search_own_methodlists_def assms(3,4) c_defs)
    with False Cons.IH show ?thesis by simp
  qed
qed simp

end
