(* ===== verification/Class_Search_Properties.thy ===== *)
theory Class_Search_Properties
  imports Class_Search_Order
begin

text \<open>The properties of the method search, stated for the functions its callers use.\<close>

section \<open>From the interface to the pass\<close>

text \<open>
  What the interface asserts or prepares before the search proper: an initialized class, a
  registered thread, ids that are neither 0 nor invalid.
\<close>

definition search_ready :: "'imp search_env \<Rightarrow> 'imp search_world \<Rightarrow> nat \<Rightarrow> uint32 \<Rightarrow> bool" where
  "search_ready env w cls methodid \<longleftrightarrow> env_thread_registered env cls \<and>
     mulle_objc_class_is_initializing_or_initialized w cls \<and>
     methodid \<noteq> MULLE_OBJC_NO_UNIQUEID \<and> methodid \<noteq> MULLE_OBJC_INVALID_UNIQUEID"

text \<open>The callback for a missing method leaves it at that.\<close>

definition missing_declines :: "'imp search_env \<Rightarrow> 'imp search_world \<Rightarrow> nat \<Rightarrow> uint32 \<Rightarrow> bool" where
  "missing_declines env w cls methodid \<longleftrightarrow> env_deinitializing env \<or> fst (env_method_is_missing env w cls methodid)"

definition world_after_missing :: "'imp search_env \<Rightarrow> 'imp search_world \<Rightarrow> nat \<Rightarrow> uint32 \<Rightarrow> 'imp search_world" where
  "world_after_missing env w cls methodid =
     (if env_deinitializing env then w else snd (env_method_is_missing env w cls methodid))"

lemma search_setup_ready:
  "mulle_objc_class_is_initializing_or_initialized w cls \<Longrightarrow> search_setup env cls search w = w"
  by (simp add: search_setup_def)

lemma set_error_sel [simp]:
  "st_world (set_error e s) = st_world s" "st_mode (set_error e s) = st_mode s" "st_user (set_error e s) = st_user s"
  "result_error (st_result (set_error e s)) = Some e"
  by (simp_all add: set_error_def)

lemma found_state_sel [simp]:
  "st_world (found_state c p s) = world_mark_searched p (st_world s)" "st_mode (found_state c p s) = st_mode s"
  "result_error (st_result (found_state c p s)) = result_error (st_result s)"
  by (simp_all add: found_state_def set_result_def)

lemma found_state_result [simp]:
  "result_class (st_result (found_state c p s)) = Some c" "result_list (st_result (found_state c p s)) = Some (fst p)"
  "result_method (st_result (found_state c p s)) = Some p"
  by (simp_all add: found_state_def set_result_def)

lemma search_start_sel [simp]: "st_world (search_start w) = w" "st_mode (search_start w) = 0"
  by (simp_all add: search_start_def)

text \<open>One round of the search that ends in a pass with a known outcome.\<close>

lemma retry_outcome:
  assumes "mulle_objc_class_search_method_internal depth search cls inh s = run_return (outcome_of r s1)"
    and "st_mode s1 \<notin> {MULLE_OBJC_SEARCH_PREVIOUS_METHOD, MULLE_OBJC_SEARCH_SUPER_METHOD, MULLE_OBJC_SEARCH_OVERRIDDEN_METHOD}"
    and "result_error (st_result s1) = Some ENOENT"
  shows "search_method_retry env depth (Suc rounds) search cls inh s =
    (case r of
       Some (c, p) \<Rightarrow> run_return (Some p, found_state c p s1)
     | None \<Rightarrow>
         if env_deinitializing env then run_return (None, s1)
         else let (declined, w) = env_method_is_missing env (st_world s1) cls (args_methodid (search_args search));
                  s2 = s1\<lparr> st_world := w \<rparr>
              in if \<not> declined then search_method_retry env depth rounds search cls inh s2 else run_return (None, s2))"
  using assms by (auto simp: outcome_of_def split: option.split)

lemma outcome_cases:
  "(case r of Some (c, p) \<Rightarrow> f c p | None \<Rightarrow> g) = (case r of None \<Rightarrow> g | Some x \<Rightarrow> f (fst x) (snd x))"
  by (auto split: option.split)

text \<open>The internal search of a pass in a finding mode.\<close>

lemma internal_finds:
  assumes "search_callback search = None" and "searchable_world w (search_stop_classid search)" and "ranked w r"
    and "r cls + 2 \<le> depth" and "st_world s = w" and "finding_mode (st_mode s)"
  shows "mulle_objc_class_search_method_internal depth search cls inh s =
    run_return (outcome_of (first_some (hit search (st_mode s) w) (lists_of_visits w (class_visits depth w cls inh))) s)"
proof -
  have "plain_state w s" using finding_modeD [OF assms(6)] assms(5) by (simp add: plain_state_def)
  then show ?thesis
    using agreesD [OF internal_agrees [OF assms(1,2,3,4)]] run_visits_finds [OF assms(1,2,5,6)] by simp
qed

lemma internal_super:
  assumes "search_callback search = None" and "searchable_world w (search_stop_classid search)" and "ranked w r"
    and "r cls + 2 \<le> depth" and "st_world s = w" and "st_mode s = MULLE_OBJC_SEARCH_SUPER_METHOD"
  shows "mulle_objc_class_search_method_internal depth search cls inh s =
    (case dropWhile (\<lambda>v. sc_classid (w_class w (fst v)) \<noteq> args_classid (search_args search)) (class_visits depth w cls inh) of
       [] \<Rightarrow> run_return (Method_Fail, s)
     | v # rest \<Rightarrow> run_return (outcome_of (first_some (method_in w (args_methodid (search_args search))) (lists_of_visits w rest))
                      (set_mode search_super_method_2 s)))"
proof -
  have "plain_state w s" using assms(5,6) by (simp add: plain_state_def c_defs)
  have "finding_mode search_super_method_2" "search_super_method_2 \<noteq> search_overridden_method_3"
    by (auto simp: finding_mode_def c_defs)
  then show ?thesis
    using agreesD [OF internal_agrees [OF assms(1,2,3,4)] \<open>plain_state w s\<close>] run_visits_super [OF assms(1,2,5,6)]
      run_visits_finds [OF assms(1,2), of "set_mode search_super_method_2 s"] assms(5)
    by (cases "dropWhile (\<lambda>v. sc_classid (w_class w (fst v)) \<noteq> args_classid (search_args search))
          (class_visits depth w cls inh)") (simp_all add: Let_def hit_eq_method_in del: dropWhile_eq_Nil_conv)
qed

lemma internal_overridden:
  assumes "search_callback search = None" and "searchable_world w (search_stop_classid search)" and "ranked w r"
    and "r cls + 2 \<le> depth" and "st_world s = w" and "st_mode s = MULLE_OBJC_SEARCH_OVERRIDDEN_METHOD"
  shows "mulle_objc_class_search_method_internal depth search cls inh s =
    run_visits search (class_visits depth w cls inh) s"
proof -
  have "plain_state w s" using assms(5,6) by (simp add: plain_state_def c_defs)
  then show ?thesis by (rule agreesD [OF internal_agrees [OF assms(1,2,3,4)]])
qed

text \<open>An ordinary search, for the searches that start with one.\<close>

lemma default_search_outcome:
  assumes "searchable_world w 0" and "ranked w r" and "r cls + 2 \<le> depth" and "search_ready env w cls methodid"
    and "missing_declines env w cls methodid"
  shows "mulle_objc_class_defaultsearch_method env depth (Suc rounds) (Some cls) methodid w =
    run_return (case first_some (method_in w methodid)
                       (lists_of_visits w (class_visits depth w cls (sc_inheritance (w_class w cls)))) of
        Some (c, p) \<Rightarrow> (Some p, None, world_mark_searched p w)
      | None \<Rightarrow> (None, Some ENOENT, world_after_missing env w cls methodid))"
proof -
  let ?search = "mulle_objc_searcharguments_make_default methodid :: ('a, unit) mulle_objc_searcharguments"
  let ?inh = "sc_inheritance (w_class w cls)"
  let ?s = "set_error ENOENT (search_start w)"
  have args: "search_callback ?search = None" "search_stop_classid ?search = 0" "args_mode (search_args ?search) = 0"
    "args_methodid (search_args ?search) = methodid" "search_previous_method ?search = None"
    by (simp_all add: mulle_objc_searcharguments_make_default_def c_defs)
  have mode: "st_mode ?s = 0" "st_world ?s = w" by (simp_all add: search_start_def)
  have ok: "mulle_objc_searcharguments_assert ?search"
    using assms(4) by (simp add: mulle_objc_searcharguments_assert_def mulle_objc_searchargumentscacheable_assert_def
        args search_ready_def c_defs)
  have start: "mulle_objc_class_search_method env depth (Suc rounds) (Some cls) (Some ?search) ?inh (search_start w) =
      search_method_retry env depth (Suc rounds) ?search cls ?inh ?s"
    using assms(4) ok by (simp add: mulle_objc_class_search_method_def args search_setup_ready search_ready_def
        search_start_def c_defs)
  have "hit ?search 0 w = method_in w methodid"
    using hit_eq_method_in [of 0 ?search w] args by (simp add: c_defs)
  then have internal: "mulle_objc_class_search_method_internal depth ?search cls ?inh ?s =
      run_return (outcome_of (first_some (method_in w methodid) (lists_of_visits w (class_visits depth w cls ?inh))) ?s)"
    using internal_finds [of ?search w r cls depth ?s ?inh] assms(1-3) args mode by (simp add: finding_mode_def c_defs)
  have "st_mode ?s \<notin> {MULLE_OBJC_SEARCH_PREVIOUS_METHOD, MULLE_OBJC_SEARCH_SUPER_METHOD, MULLE_OBJC_SEARCH_OVERRIDDEN_METHOD}"
    using mode by (simp add: c_defs)
  note result = retry_outcome [OF internal this set_error_sel(4), of env rounds]
  show ?thesis
    unfolding mulle_objc_class_defaultsearch_method_def search_and_get_error_def option.case start result
    using assms(5)
    by (auto simp: args mode missing_declines_def world_after_missing_def Let_def split: option.split prod.split)
qed

section \<open>Ordinary searches\<close>

text \<open>C1: An ordinary method search finds the first method with the id in the order: the last
  category of a class first, its own methods after its categories, then the mixins of the class from
  the last to the first, then the superclass in the same way; the found method is marked as searched.
  When no list has it and nothing is loaded for it the search fails with ENOENT.\<close>

theorem default_search_finds_first:
  assumes "searchable_world w 0" and "ranked w r" and "r cls + 2 \<le> depth" and "search_ready env w cls methodid"
    and "missing_declines env w cls methodid"
  shows "mulle_objc_class_defaultsearch_method env depth (Suc rounds) (Some cls) methodid w =
    run_return (case first_some (method_in w methodid)
                       (lists_of_visits w (class_visits depth w cls (sc_inheritance (w_class w cls)))) of
        Some (c, p) \<Rightarrow> (Some p, None, world_mark_searched p w)
      | None \<Rightarrow> (None, Some ENOENT, world_after_missing env w cls methodid))"
  by (rule default_search_outcome [OF assms])

text \<open>
  A world to try the searches on: class 1 (id 11) with its own method list 1 and the list 2
  of its category 77, below the root class 0 (id 10) with the list 0; each of the lists has
  the method 5.
\<close>

definition example_method_of :: "nat \<Rightarrow> nat mulle_objc_method" where
  "example_method_of i = \<lparr> method_descriptor = \<lparr> desc_methodid = 5, desc_signature = ''@'', desc_name = ''foo'',
     desc_bits = 0 \<rparr>, method_implementation = i \<rparr>"

definition example_list :: "nat \<Rightarrow> nat search_methodlist" where
  "example_list l = (if l < 3 then \<lparr> ml_loadcategory = (if l = 2 then Some 77 else None), ml_methods = [example_method_of l] \<rparr>
     else \<lparr> ml_loadcategory = None, ml_methods = [] \<rparr>)"

definition example_class :: "nat \<Rightarrow> search_class" where
  "example_class c = \<lparr> sc_classid = (if c = 1 then 11 else 10), sc_superclass = (if c = 1 then Some 0 else None),
     sc_infraclass = None, sc_inheritance = 0, sc_state = CLASS_STATE_INITIALIZING,
     sc_methodlists = (if c = 1 then [1, 2] else [0]), sc_classpair = c, sc_forwardmethod = None \<rparr>"

definition example_world :: "nat search_world" where
  "example_world = \<lparr> w_class = example_class,
     w_pair = (\<lambda>p. \<lparr> pair_infraclass = p, pair_metaclass = p, pair_mixins = [] \<rparr>), w_list = example_list \<rparr>"

definition example_env :: "nat search_env" where
  "example_env = \<lparr> env_setup = (\<lambda>c w. w), env_method_is_missing = (\<lambda>w c m. (True, w)), env_thread_registered = (\<lambda>c. True),
     env_deinitializing = False, env_classdefaults_forwardmethod = None, env_lookup_super = (\<lambda>u. Some (5, 11)) \<rparr>"

definition example_rank :: "nat \<Rightarrow> nat" where
  "example_rank c = (if c = 1 then 1 else 0)"

lemma example_searchable: "searchable_world example_world 0"
  by (auto simp: searchable_world_def searchable_list_def example_world_def example_list_def example_class_def
      example_method_of_def mulle_objc_descriptor_is_hidden_override_fatal_def)

lemma example_ranked: "ranked example_world example_rank"
  by (auto simp: ranked_def example_world_def example_class_def example_rank_def split: if_splits)

lemma example_ready: "m = 5 \<Longrightarrow> search_ready example_env example_world 1 m"
  by (simp add: search_ready_def example_env_def example_world_def example_class_def
      mulle_objc_class_is_initializing_or_initialized_def c_defs)

lemmas example_defs = example_world_def example_class_def example_list_def example_method_of_def example_env_def

lemma example_visits:
  "class_visits 3 example_world 1 0 = [(1, 0), (0, 0)]"
  by (simp add: class_visits_Suc mixin_visits_def super_visits_def numeral_3_eq_3 example_defs superclass_inheritance_def
      mulle_objc_class_is_mixin_def c_defs)

lemma example_lists: "lists_of_visits example_world [(1, 0), (0, 0)] = [(1, 2), (1, 1), (0, 0)]"
  by (simp add: lists_of_visits_def visit_lists_def example_defs)

lemma example_method_in: "l < 3 \<Longrightarrow> method_in example_world 5 (c, l) = Some (c, l, 0)"
  by (simp add: method_in_def mulle_objc_methodlist_find_def example_defs)

theorem default_search_finds_first_witness:
  "mulle_objc_class_defaultsearch_method example_env 3 1 (Some 1) 5 example_world =
     run_return (Some (2, 0), None, world_mark_searched (2, 0) example_world)"
proof -
  have inh: "sc_inheritance (w_class example_world 1) = 0" by (simp add: example_defs)
  have "missing_declines example_env example_world 1 5" by (simp add: missing_declines_def example_defs)
  from default_search_finds_first [OF example_searchable example_ranked _ example_ready this, of 3 0] show ?thesis
    by (simp add: example_rank_def inh example_visits example_lists example_method_in
        One_nat_def [symmetric] del: One_nat_def)
qed

section \<open>Super calls\<close>

abbreviation super_args :: "uint32 \<Rightarrow> uint32 \<Rightarrow> ('imp, unit) mulle_objc_searcharguments" where
  "super_args \<equiv> mulle_objc_searcharguments_make_super"

abbreviation super_start :: "'imp search_world \<Rightarrow> ('imp, unit) search_state" where
  "super_start w \<equiv> set_mode MULLE_OBJC_SEARCH_SUPER_METHOD (set_error ENOENT (search_start w))"

lemma super_args_sel [simp]:
  "search_callback (super_args m c) = None" "search_stop_classid (super_args m c) = 0"
  "args_mode (search_args (super_args m c)) = MULLE_OBJC_SEARCH_SUPER_METHOD"
  "args_methodid (search_args (super_args m c)) = m" "args_classid (search_args (super_args m c)) = c"
  by (simp_all add: mulle_objc_searcharguments_make_super_def mulle_objc_searchargumentscacheable_make_super_def
      searcharguments_make_def)

lemma search_method_super_start:
  assumes "search_ready env w cls methodid" and "classid \<noteq> 0"
  shows "mulle_objc_class_search_method env depth rounds (Some cls) (Some (super_args methodid classid)) inh (search_start w)
    = search_method_retry env depth rounds (super_args methodid classid) cls inh (super_start w)"
proof -
  have ok: "mulle_objc_searcharguments_assert (super_args methodid classid :: ('a, unit) mulle_objc_searcharguments)"
    using assms by (simp add: mulle_objc_searcharguments_assert_def mulle_objc_searchargumentscacheable_assert_def
        search_ready_def mulle_objc_searcharguments_make_super_def mulle_objc_searchargumentscacheable_make_super_def c_defs)
  have "set_error ENOENT ((search_start w)\<lparr> st_mode := MULLE_OBJC_SEARCH_SUPER_METHOD, st_world := w \<rparr>) = super_start w"
    by (simp add: set_error_def search_start_def)
  with ok assms show ?thesis
    by (simp add: mulle_objc_class_search_method_def search_setup_ready search_ready_def)
qed

text \<open>The visits from the first one of the class with the id on.\<close>

abbreviation visits_from :: "'imp search_world \<Rightarrow> uint32 \<Rightarrow> (nat \<times> uint32) list \<Rightarrow> (nat \<times> uint32) list" where
  "visits_from w classid \<equiv> dropWhile (\<lambda>v. sc_classid (w_class w (fst v)) \<noteq> classid)"

lemma super_first_round:
  assumes "searchable_world w 0" and "ranked w r" and "r cls + 2 \<le> depth"
  shows "search_method_retry env depth (Suc rounds) (super_args methodid classid) cls inh (super_start w) =
    (case visits_from w classid (class_visits depth w cls inh) of
       [] \<Rightarrow> run_return (None, set_error EINVAL (super_start w))
     | v # rest \<Rightarrow>
         (case first_some (method_in w methodid) (lists_of_visits w rest) of
            Some (c, p) \<Rightarrow> run_return (Some p, found_state c p (set_mode search_super_method_2 (super_start w)))
          | None \<Rightarrow>
              if env_deinitializing env then run_return (None, set_mode search_super_method_2 (super_start w))
              else let (declined, w') = env_method_is_missing env w cls methodid;
                       s2 = (set_mode search_super_method_2 (super_start w))\<lparr> st_world := w' \<rparr>
                   in if \<not> declined then search_method_retry env depth rounds (super_args methodid classid) cls inh s2
                      else run_return (None, s2)))"
proof -
  have internal: "mulle_objc_class_search_method_internal depth (super_args methodid classid) cls inh (super_start w) =
    (case visits_from w classid (class_visits depth w cls inh) of
       [] \<Rightarrow> run_return (Method_Fail, super_start w)
     | v # rest \<Rightarrow> run_return (outcome_of (first_some (method_in w methodid) (lists_of_visits w rest))
                      (set_mode search_super_method_2 (super_start w))))"
    using internal_super [of "super_args methodid classid" w r cls depth "super_start w" inh, unfolded super_args_sel] assms
    by simp
  have modes: "search_super_method_2 \<notin>
      {MULLE_OBJC_SEARCH_PREVIOUS_METHOD, MULLE_OBJC_SEARCH_SUPER_METHOD, MULLE_OBJC_SEARCH_OVERRIDDEN_METHOD}"
    by (simp add: c_defs)
  show ?thesis
  proof (cases "visits_from w classid (class_visits depth w cls inh)")
    case Nil
    then show ?thesis by (simp add: internal del: dropWhile_eq_Nil_conv)
  next
    case (Cons v rest)
    with internal have "mulle_objc_class_search_method_internal depth (super_args methodid classid) cls inh (super_start w) =
        run_return (outcome_of (first_some (method_in w methodid) (lists_of_visits w rest))
          (set_mode search_super_method_2 (super_start w)))" by simp
    from retry_outcome [OF this] modes Cons show ?thesis
      by (simp split: option.split del: search_method_retry.simps)
  qed
qed

text \<open>C16: A super call finds the first implementation behind the class that makes the call: from the
  order of the search everything up to and including the first visit of that class is skipped, and the
  first list with the method wins. A class that is not in the order is an error and finds nothing,
  whatever implementations there are.\<close>

theorem super_search_finds_above:
  assumes "searchable_world w 0" and "ranked w r" and "r cls + 2 \<le> depth" and "search_ready env w cls methodid"
    and "missing_declines env w cls methodid" and "env_lookup_super env superid = Some (methodid, classid)"
    and "classid \<noteq> 0"
  shows "mulle_objc_class_supersearch_method env depth (Suc rounds) cls superid w =
    run_return (case visits_from w classid (class_visits depth w cls (sc_inheritance (w_class w cls))) of
        [] \<Rightarrow> (None, w)
      | v # rest \<Rightarrow>
          (case first_some (method_in w methodid) (lists_of_visits w rest) of
             Some (c, p) \<Rightarrow> (Some p, world_mark_searched p w)
           | None \<Rightarrow> (None, world_after_missing env w cls methodid)))"
  unfolding mulle_objc_class_supersearch_method_def assms(6) option.case prod.case
    search_method_super_start [OF assms(4,7)] super_first_round [OF assms(1-3)]
  using assms(5)
  by (auto simp: missing_declines_def world_after_missing_def simp del: dropWhile_eq_Nil_conv search_method_retry.simps
      split: list.split option.split prod.split)

lemma example_super:
  "visits_from example_world 11 (class_visits 3 example_world 1 0) = [(1, 0), (0, 0)]"
  unfolding example_visits by (simp add: example_defs)

theorem super_search_finds_above_witness:
  "mulle_objc_class_supersearch_method example_env 3 1 1 0 example_world =
     run_return (Some (0, 0), world_mark_searched (0, 0) example_world)"
proof -
  have inh: "sc_inheritance (w_class example_world 1) = 0" by (simp add: example_defs)
  have lists: "lists_of_visits example_world [(0, 0)] = [(0, 0)]"
    by (simp add: lists_of_visits_def visit_lists_def example_defs)
  have "missing_declines example_env example_world 1 5" "env_lookup_super example_env 0 = Some (5, 11)"
    by (simp_all add: missing_declines_def example_defs)
  from super_search_finds_above [OF example_searchable example_ranked _ example_ready this, of 3 0] show ?thesis
    by (simp add: example_rank_def inh example_super lists example_method_in One_nat_def [symmetric] del: One_nat_def)
qed

text \<open>C36: When the callback for missing methods asks for another try, the search that follows does not
  look for the class that makes the super call again: it starts with the class of the object, so a
  super call may find the very method it is made from.\<close>

theorem super_retry_forgets_the_caller:
  assumes "searchable_world w 0" and "ranked w r" and "r cls + 2 \<le> depth" and "search_ready env w cls methodid"
    and "env_lookup_super env superid = Some (methodid, classid)" and "classid \<noteq> 0"
    and "visits_from w classid (class_visits depth w cls (sc_inheritance (w_class w cls))) = v # rest"
    and "first_some (method_in w methodid) (lists_of_visits w rest) = None"
    and "\<not> env_deinitializing env" and "env_method_is_missing env w cls methodid = (False, w')"
    and "searchable_world w' 0" and "ranked w' r"
    and "first_some (method_in w' methodid)
          (lists_of_visits w' (class_visits depth w' cls (sc_inheritance (w_class w cls)))) = Some (c, p)"
  shows "mulle_objc_class_supersearch_method env depth (Suc (Suc rounds)) cls superid w =
    run_return (Some p, world_mark_searched p w')"
proof -
  let ?inh = "sc_inheritance (w_class w cls)"
  let ?search = "super_args methodid classid :: ('a, unit) mulle_objc_searcharguments"
  let ?s = "(set_mode search_super_method_2 (super_start w))\<lparr> st_world := w' \<rparr>"
  have modes: "search_super_method_2 \<notin>
      {MULLE_OBJC_SEARCH_PREVIOUS_METHOD, MULLE_OBJC_SEARCH_SUPER_METHOD, MULLE_OBJC_SEARCH_OVERRIDDEN_METHOD}"
    "finding_mode search_super_method_2" "search_super_method_2 \<noteq> search_overridden_method_3"
    by (auto simp: c_defs finding_mode_def)
  have "mulle_objc_class_search_method_internal depth ?search cls ?inh ?s = run_return (outcome_of (Some (c, p)) ?s)"
    using internal_finds [of ?search w' r cls depth ?s ?inh] assms(3,11,12,13) modes
    by (simp add: hit_eq_method_in)
  from retry_outcome [OF this, of env rounds]
  have "search_method_retry env depth (Suc rounds) ?search cls ?inh ?s = run_return (Some p, found_state c p ?s)"
    using modes(1) by (simp del: search_method_retry.simps)
  then show ?thesis
    unfolding mulle_objc_class_supersearch_method_def assms(5) option.case prod.case
      search_method_super_start [OF assms(4,6)] super_first_round [OF assms(1-3)]
    using assms(7-10) by (simp add: Let_def del: search_method_retry.simps)
qed

text \<open>A root class whose method arrives only with the callback: the super call of class 1 then finds class 1's own method.\<close>

definition example_before :: "nat search_world" where
  "example_before = example_world\<lparr> w_list := example_list(0 := \<lparr> ml_loadcategory = None, ml_methods = [] \<rparr>) \<rparr>"

theorem super_retry_forgets_the_caller_witness:
  "mulle_objc_class_supersearch_method (example_env\<lparr> env_method_is_missing := (\<lambda>w c m. (False, example_world)) \<rparr>)
     3 2 1 0 example_before = run_return (Some (2, 0), world_mark_searched (2, 0) example_world)"
proof -
  let ?env = "example_env\<lparr> env_method_is_missing := (\<lambda>w c m. (False, example_world)) \<rparr>"
  have searchable: "searchable_world example_before 0"
    using example_searchable by (simp add: searchable_world_def example_before_def searchable_list_def example_world_def)
  have ranked: "ranked example_before example_rank"
    using example_ranked by (simp add: ranked_def example_before_def)
  have inh: "sc_inheritance (w_class example_before 1) = 0" by (simp add: example_before_def example_defs)
  have visits: "class_visits 3 example_before 1 0 = [(1, 0), (0, 0)]"
    by (simp add: class_visits_Suc mixin_visits_def super_visits_def numeral_3_eq_3 example_before_def example_defs
        superclass_inheritance_def mulle_objc_class_is_mixin_def c_defs)
  have frm: "visits_from example_before 11 (class_visits 3 example_before 1 0) = [(1, 0), (0, 0)]"
    unfolding visits by (simp add: example_before_def example_defs)
  have none: "first_some (method_in example_before 5) (lists_of_visits example_before [(0, 0)]) = None"
    by (simp add: lists_of_visits_def visit_lists_def example_before_def example_defs method_in_def
        mulle_objc_methodlist_find_def)
  have found: "first_some (method_in example_world 5) (lists_of_visits example_world (class_visits 3 example_world 1 0))
      = Some (1, 2, 0)"
    by (simp add: example_visits example_lists example_method_in One_nat_def [symmetric] del: One_nat_def)
  have ready: "search_ready ?env example_before 1 5"
    using example_ready [OF refl] by (simp add: search_ready_def example_before_def
        mulle_objc_class_is_initializing_or_initialized_def)
  have "mulle_objc_class_supersearch_method ?env 3 (Suc (Suc 0)) 1 0 example_before =
      run_return (Some (2, 0), world_mark_searched (2, 0) example_world)"
  proof (rule super_retry_forgets_the_caller [OF searchable ranked _ ready _ _ _ none _ _ example_searchable example_ranked])
    show "visits_from example_before 11 (class_visits 3 example_before 1 (sc_inheritance (w_class example_before 1))) =
        [(1, 0), (0, 0)]"
      unfolding inh by (rule frm)
    show "first_some (method_in example_world 5) (lists_of_visits example_world
        (class_visits 3 example_world 1 (sc_inheritance (w_class example_before 1)))) = Some (1, 2, 0)"
      unfolding inh by (rule found)
  qed (simp_all add: example_rank_def example_env_def)
  then show ?thesis by (simp add: numeral_2_eq_2)
qed

section \<open>Overridden methods\<close>

abbreviation overridden_args :: "uint32 \<Rightarrow> uint32 \<Rightarrow> uint32 \<Rightarrow> ('imp, unit) mulle_objc_searcharguments" where
  "overridden_args \<equiv> mulle_objc_searcharguments_make_overridden"

lemma overridden_args_sel [simp]:
  "search_callback (overridden_args m c g) = None" "search_stop_classid (overridden_args m c g) = 0"
  "args_mode (search_args (overridden_args m c g)) = MULLE_OBJC_SEARCH_OVERRIDDEN_METHOD"
  "args_methodid (search_args (overridden_args m c g)) = m" "args_classid (search_args (overridden_args m c g)) = c"
  "args_categoryid (search_args (overridden_args m c g)) = g"
  by (simp_all add: mulle_objc_searcharguments_make_overridden_def mulle_objc_searchargumentscacheable_make_overridden_def
      searcharguments_make_def)

text \<open>A method of a list, but not of the named category in the named class.\<close>

definition method_in_other ::
    "'imp search_world \<Rightarrow> uint32 \<Rightarrow> uint32 \<Rightarrow> uint32 \<Rightarrow> nat \<times> nat \<Rightarrow> (nat \<times> method_ptr) option" where
  "method_in_other w methodid classid categoryid = (\<lambda>(cls, l).
     if classid = sc_classid (w_class w cls) \<and> categoryid = mulle_objc_methodlist_get_categoryid (w_list w l)
     then None else method_in w methodid (cls, l))"

lemma hit_overridden:
  "hit (overridden_args m c g) search_overridden_method_3 w = method_in_other w m c g"
  by (simp add: hit_def method_in_other_def fun_eq_iff)

text \<open>What a caller sees of a search: the method and the error.\<close>

definition search_view ::
    "(method_ptr option \<times> ('imp, 'u) search_state) c_run \<Rightarrow> (method_ptr option \<times> errno option) c_run" where
  "search_view m = run_bind m (\<lambda>(p, s). run_return (p, result_error (st_result s)))"

lemma search_method_overridden_start:
  assumes "search_ready env w cls methodid" and "classid \<noteq> 0" and "categoryid \<noteq> MULLE_OBJC_INVALID_UNIQUEID"
  shows "mulle_objc_class_search_method env depth rounds (Some cls)
      (Some (overridden_args methodid classid categoryid)) inh (search_start w)
    = search_method_retry env depth rounds (overridden_args methodid classid categoryid) cls inh
        (set_mode MULLE_OBJC_SEARCH_OVERRIDDEN_METHOD (set_error ENOENT (search_start w)))"
proof -
  have ok: "mulle_objc_searcharguments_assert
      (overridden_args methodid classid categoryid :: ('a, unit) mulle_objc_searcharguments)"
    using assms by (simp add: mulle_objc_searcharguments_assert_def mulle_objc_searchargumentscacheable_assert_def
        search_ready_def mulle_objc_searcharguments_make_overridden_def
        mulle_objc_searchargumentscacheable_make_overridden_def c_defs)
  have "set_error ENOENT ((search_start w)\<lparr> st_mode := MULLE_OBJC_SEARCH_OVERRIDDEN_METHOD, st_world := w \<rparr>) =
      set_mode MULLE_OBJC_SEARCH_OVERRIDDEN_METHOD (set_error ENOENT (search_start w))"
    by (simp add: set_error_def search_start_def)
  with ok assms show ?thesis
    by (simp add: mulle_objc_class_search_method_def search_setup_ready search_ready_def)
qed

abbreviation overridden_start :: "'imp search_world \<Rightarrow> ('imp, unit) search_state" where
  "overridden_start w \<equiv> set_mode MULLE_OBJC_SEARCH_OVERRIDDEN_METHOD (set_error ENOENT (search_start w))"

text \<open>The list of the named category in a visit and those behind it.\<close>

abbreviation lists_from :: "'imp search_world \<Rightarrow> uint32 \<Rightarrow> nat list \<Rightarrow> nat list" where
  "lists_from w categoryid \<equiv> dropWhile (\<lambda>l. mulle_objc_methodlist_get_categoryid (w_list w l) \<noteq> categoryid)"

lemma overridden_round:
  assumes "searchable_world w 0" and "ranked w r" and "r cls + 2 \<le> depth"
  shows "mulle_objc_class_search_method_internal depth (overridden_args methodid classid categoryid) cls inh (overridden_start w) =
    (case visits_from w classid (class_visits depth w cls inh) of
       [] \<Rightarrow> run_return (Method_Fail, overridden_start w)
     | v # rest \<Rightarrow>
         (case lists_from w categoryid (visit_lists w v) of
            [] \<Rightarrow> run_return (Method_Null, set_error EINVAL (set_mode search_overridden_method_2 (overridden_start w)))
          | l # ls \<Rightarrow> run_return (outcome_of (first_some (method_in_other w methodid classid categoryid)
                (map (Pair (fst v)) ls @ lists_of_visits w rest))
                (set_mode search_overridden_method_3 (overridden_start w)))))"
proof -
  let ?search = "overridden_args methodid classid categoryid :: ('a, unit) mulle_objc_searcharguments"
  have "mulle_objc_class_search_method_internal depth ?search cls inh (overridden_start w) =
    run_visits ?search (class_visits depth w cls inh) (overridden_start w)"
    using internal_overridden [of ?search w r cls depth "overridden_start w" inh] assms by simp
  moreover note run_visits_overridden [of ?search w "overridden_start w" "class_visits depth w cls inh",
      unfolded overridden_args_sel hit_overridden Let_def]
  ultimately show ?thesis
    using assms(1)
    by (auto split: list.split simp del: dropWhile_eq_Nil_conv)
qed

text \<open>C19: The search for the method that a category overrides skips the order up to the named category
  of the named class and finds the first implementation behind it, never one of the same category in
  the same class again. If the class is not in the order, or has no such category, the search ends
  with EINVAL, and with ENOENT if nothing behind it has the method.\<close>

theorem overridden_search_finds_next:
  assumes "searchable_world w 0" and "ranked w r" and "r cls + 2 \<le> depth" and "search_ready env w cls methodid"
    and "missing_declines env w cls methodid" and "classid \<noteq> 0" and "categoryid \<noteq> MULLE_OBJC_INVALID_UNIQUEID"
  shows "search_view (mulle_objc_class_search_method env depth (Suc rounds) (Some cls)
      (Some (overridden_args methodid classid categoryid)) inh (search_start w)) =
    run_return (case visits_from w classid (class_visits depth w cls inh) of
        [] \<Rightarrow> (None, Some EINVAL)
      | v # rest \<Rightarrow>
          (case lists_from w categoryid (visit_lists w v) of
             [] \<Rightarrow> (None, Some EINVAL)
           | l # ls \<Rightarrow>
               (map_option snd (first_some (method_in_other w methodid classid categoryid)
                  (map (Pair (fst v)) ls @ lists_of_visits w rest)), Some ENOENT)))"
    (is "?view = ?result")
proof (cases "visits_from w classid (class_visits depth w cls inh)")
  case Nil
  then show "?view = ?result"
    using overridden_round [OF assms(1-3), of methodid classid categoryid inh]
    by (simp add: search_view_def search_method_overridden_start [OF assms(4,6,7)] del: dropWhile_eq_Nil_conv)
next
  case visits: (Cons v rest)
  show "?view = ?result"
  proof (cases "lists_from w categoryid (visit_lists w v)")
    case Nil
    then show ?thesis
      using overridden_round [OF assms(1-3), of methodid classid categoryid inh] visits
      by (simp add: search_view_def search_method_overridden_start [OF assms(4,6,7)] c_defs del: dropWhile_eq_Nil_conv)
  next
    case (Cons l ls)
    have modes: "search_overridden_method_3 \<notin>
      {MULLE_OBJC_SEARCH_PREVIOUS_METHOD, MULLE_OBJC_SEARCH_SUPER_METHOD, MULLE_OBJC_SEARCH_OVERRIDDEN_METHOD}"
      by (simp add: c_defs)
    let ?r = "first_some (method_in_other w methodid classid categoryid) (map (Pair (fst v)) ls @ lists_of_visits w rest)"
    have "mulle_objc_class_search_method_internal depth (overridden_args methodid classid categoryid) cls inh
        (overridden_start w) = run_return (outcome_of ?r (set_mode search_overridden_method_3 (overridden_start w)))"
      using overridden_round [OF assms(1-3), of methodid classid categoryid inh] visits Cons
      by (simp del: dropWhile_eq_Nil_conv)
    from retry_outcome [OF this, of env rounds] modes assms(5) visits Cons show ?thesis
      by (auto simp: search_view_def missing_declines_def search_method_overridden_start [OF assms(4,6,7)] simp del: search_method_retry.simps
          split: option.split prod.split)
  qed
qed

theorem overridden_search_finds_next_witness:
  "search_view (mulle_objc_class_search_method example_env 3 1 (Some 1) (Some (overridden_args 5 11 77)) 0
      (search_start example_world)) = run_return (Some (1, 0), Some ENOENT)"
proof -
  have "missing_declines example_env example_world 1 5" by (simp add: missing_declines_def example_defs)
  note found = overridden_search_finds_next [OF example_searchable example_ranked _ example_ready [OF refl] this,
      of 3 11 77 0 0]
  have lists: "lists_from example_world 77 (visit_lists example_world (1, 0)) = [2, 1]"
    by (simp add: visit_lists_def example_defs mulle_objc_methodlist_get_categoryid_def)
  have other: "method_in_other example_world 5 11 77 (1, 1) = Some (1, 1, 0)"
    using example_method_in [of 1 1] by (simp add: method_in_other_def example_defs
        mulle_objc_methodlist_get_categoryid_def MULLE_OBJC_NO_UNIQUEID_def)
  show ?thesis
    using found by (simp add: example_rank_def example_super lists other MULLE_OBJC_INVALID_UNIQUEID_def
        One_nat_def [symmetric] del: One_nat_def)
qed

section \<open>Termination and errors\<close>



text \<open>A search that does not find the method never changes the error: the internal search fails with
  the error the caller had set, ENOENT, so the report of a hidden method override, which the
  interface makes for the error EEXIST of a failed search, is never made.\<close>

theorem failed_search_keeps_error:
  assumes "mulle_objc_class_search_method_internal depth search cls inh s = run_return (Method_Fail, s')"
  shows "result_error (st_result s') = result_error (st_result s)"
  using holdsD [OF assms internal_ok [unfolded rec_ok_def, rule_format]]
  by (simp add: search_ok_def same_error_def)

theorem failed_search_keeps_error_witness:
  "result_error (st_result (super_start example_world)) = Some ENOENT \<and>
   (\<exists>s'. mulle_objc_class_search_method_internal 3 (super_args 5 99) 1 0 (super_start example_world) =
      run_return (Method_Fail, s') \<and> result_error (st_result s') = Some ENOENT)"
proof -
  have "visits_from example_world 99 (class_visits 3 example_world 1 0) = []"
    unfolding example_visits by (simp add: example_defs)
  then have run: "mulle_objc_class_search_method_internal 3 (super_args 5 99) 1 0 (super_start example_world) =
      run_return (Method_Fail, super_start example_world)"
    using internal_super [of "super_args 5 99" example_world example_rank 1 3 "super_start example_world" 0]
      example_searchable example_ranked by (simp add: example_rank_def del: dropWhile_eq_Nil_conv)
  from failed_search_keeps_error [OF this] run show ?thesis by simp
qed

end
