(* ===== verification/Cache.thy ===== *)
theory Cache
  imports Tables
begin

text \<open>
  The open-addressing caches of \<open>mulle-objc-cache.h\<close> and \<open>mulle-objc-cache.c\<close>: method
  caches, class lookup caches and KVC caches share this layout. A cache has a power of two
  of entries; the byte offset of an entry is found by masking the unique id with the
  preshifted mask, and collisions probe linearly, wrapping around.
  Entry values (\<open>functionpointer\<close> or \<open>pointer\<close>, both one word on LP64) are \<open>'v option\<close>,
  \<open>None\<close> being NULL; the key word is the 32 bit unique id, zero when unset.
  The build is the non-test one, where an entry holds just the key and the value and its
  size is 16 bytes.
\<close>

section \<open>State\<close>

record 'v mulle_objc_cacheentry =
  entry_key :: uint32
  entry_value :: "'v option"

record 'v mulle_objc_cache =
  cache_n :: uint64
  cache_size :: uint32
  cache_mask :: uint32
  cache_entries :: "'v mulle_objc_cacheentry list"

datatype mulle_objc_cachesizing_t =
    MULLE_OBJC_CACHESIZE_SHRINK
  | MULLE_OBJC_CACHESIZE_STAGNATE
  | MULLE_OBJC_CACHESIZE_GROW

definition MULLE_OBJC_MIN_CACHE_SIZE :: uint32 where [c_defs]: "MULLE_OBJC_MIN_CACHE_SIZE = 4"
definition MULLE_OBJC_MAX_CACHE_SIZE :: uint32 where
  [c_defs]: "MULLE_OBJC_MAX_CACHE_SIZE = 4 * 1024 * 1024"

definition cacheentry_sizeof :: uint32 where [c_defs]: "cacheentry_sizeof = 16"

definition cacheentry_zero :: "'v mulle_objc_cacheentry" where
  "cacheentry_zero = \<lparr> entry_key = 0, entry_value = None \<rparr>"

text \<open>Addressing \<open>(char *) entries + offset\<close>: the offsets used are multiples of the entry size.\<close>

definition cache_entry_at :: "'v mulle_objc_cacheentry list \<Rightarrow> uint32 \<Rightarrow> 'v mulle_objc_cacheentry c_result" where
  "cache_entry_at entries offset = c_read entries (uint (offset div cacheentry_sizeof))"

definition cache_write_entry ::
    "'v mulle_objc_cache \<Rightarrow> uint32 \<Rightarrow> 'v mulle_objc_cacheentry \<Rightarrow> 'v mulle_objc_cache" where
  "cache_write_entry cache offset entry =
     cache\<lparr> cache_entries := (cache_entries cache)[unat (offset div cacheentry_sizeof) := entry] \<rparr>"

section \<open>Creation and sizing\<close>

definition mulle_objc_cache_init :: "'v mulle_objc_cache \<Rightarrow> uint32 \<Rightarrow> 'v mulle_objc_cache" where
  "mulle_objc_cache_init cache sz =
     cache\<lparr> cache_size := sz, cache_mask := (sz - 1) * cacheentry_sizeof \<rparr>"

definition cache_calloc :: "uint32 \<Rightarrow> 'v mulle_objc_cache" where
  "cache_calloc sz =
     \<lparr> cache_n = 0, cache_size = 0, cache_mask = 0,
       cache_entries = replicate (unat sz) cacheentry_zero \<rparr>"

definition mulle_objc_cache_new :: "uint32 \<Rightarrow> 'v mulle_objc_cache c_run" where
  "mulle_objc_cache_new sz0 =
     (let sz = (if sz0 < MULLE_OBJC_MIN_CACHE_SIZE then MULLE_OBJC_MIN_CACHE_SIZE else sz0)
      in c_assert (sz AND (sz - 1) = 0)
           (run_return (mulle_objc_cache_init (cache_calloc sz) sz)))"

definition mulle_objc_cache_get_resize ::
    "'v mulle_objc_cache \<Rightarrow> mulle_objc_cachesizing_t \<Rightarrow> uint32" where
  "mulle_objc_cache_get_resize cache strategy =
     (case strategy of
        MULLE_OBJC_CACHESIZE_STAGNATE \<Rightarrow> cache_size cache
      | MULLE_OBJC_CACHESIZE_SHRINK \<Rightarrow>
          (if cache_size cache \<le> MULLE_OBJC_MIN_CACHE_SIZE * 2
           then MULLE_OBJC_MIN_CACHE_SIZE else drop_bit 1 (cache_size cache))
      | MULLE_OBJC_CACHESIZE_GROW \<Rightarrow> cache_size cache * 2)"

definition mulle_objc_cache_grow_with_strategy ::
    "'v mulle_objc_cache \<Rightarrow> mulle_objc_cachesizing_t \<Rightarrow> 'v mulle_objc_cache c_run" where
  "mulle_objc_cache_grow_with_strategy old_cache strategy =
     mulle_objc_cache_new (mulle_objc_cache_get_resize old_cache strategy)"

definition mulle_objc_cache_get_count :: "'v mulle_objc_cache \<Rightarrow> uint32" where
  "mulle_objc_cache_get_count cache = ucast (cache_n cache)"

definition mulle_objc_cache_should_grow :: "'v mulle_objc_cache \<Rightarrow> uint32 \<Rightarrow> bool c_run" where
  "mulle_objc_cache_should_grow cache fillrate =
     (let used = cache_n cache; sz = ucast (cache_size cache) :: uint64 in
      if fillrate = 0 then run_return (used * 3 \<ge> sz)
      else c_assert (fillrate \<ge> 1 \<and> fillrate \<le> 90)
             (run_return (used * 100 \<ge> sz * ucast fillrate)))"

section \<open>Probing\<close>

text \<open>
  The four probes are one loop  : mask the offset, stop at an entry whose key matches or whose
  value is NULL, else advance by one entry. On a cache without a NULL value and without the
  key none of them ever returns. \<open>entryindex\<close> also counts the steps in an \<open>int\<close>.
\<close>

partial_function (option) cache_probe_loop ::
    "'v mulle_objc_cacheentry list \<Rightarrow> uint32 \<Rightarrow> uint32 \<Rightarrow> uint32 \<Rightarrow>
     (uint32 \<times> 'v mulle_objc_cacheentry) c_run" where
  "cache_probe_loop entries msk uniqueid offset0 =
     (let offset = offset0 AND msk in
      case cache_entry_at entries offset of
        Inl e \<Rightarrow> run_fault e
      | Inr entry \<Rightarrow>
          if entry_key entry = uniqueid then run_return (offset, entry)
          else if entry_value entry = None then run_return (offset, entry)
          else cache_probe_loop entries msk uniqueid (offset + cacheentry_sizeof))"

definition mulle_objc_cache_probe_entryoffset :: "'v mulle_objc_cache \<Rightarrow> uint32 \<Rightarrow> uint32 c_run" where
  "mulle_objc_cache_probe_entryoffset cache uniqueid =
     c_assert (mulle_objc_uniqueid_is_sane uniqueid)
       (run_bind (cache_probe_loop (cache_entries cache) (cache_mask cache) uniqueid uniqueid)
          (\<lambda>(offset, entry). run_return offset))"

definition mulle_objc_cache_probe_pointer :: "'v mulle_objc_cache \<Rightarrow> uint32 \<Rightarrow> 'v option c_run" where
  "mulle_objc_cache_probe_pointer cache uniqueid =
     c_assert (mulle_objc_uniqueid_is_sane uniqueid)
       (run_bind (cache_probe_loop (cache_entries cache) (cache_mask cache) uniqueid uniqueid)
          (\<lambda>(offset, entry).
             run_return (if entry_key entry = uniqueid then entry_value entry else None)))"

definition mulle_objc_cache_probe_functionpointer :: "'v mulle_objc_cache \<Rightarrow> uint32 \<Rightarrow> 'v option c_run" where
  "mulle_objc_cache_probe_functionpointer cache uniqueid =
     c_assert (mulle_objc_uniqueid_is_sane uniqueid)
       (run_bind (cache_probe_loop (cache_entries cache) (cache_mask cache) uniqueid uniqueid)
          (\<lambda>(offset, entry).
             run_return (if entry_key entry = uniqueid then entry_value entry else None)))"

partial_function (option) cache_probe_entryindex_loop ::
    "'v mulle_objc_cacheentry list \<Rightarrow> uint32 \<Rightarrow> uint32 \<Rightarrow> uint32 \<Rightarrow> int \<Rightarrow> int c_run" where
  "cache_probe_entryindex_loop entries msk uniqueid offset0 index =
     (let offset = offset0 AND msk in
      case cache_entry_at entries offset of
        Inl e \<Rightarrow> run_fault e
      | Inr entry \<Rightarrow>
          if entry_key entry = uniqueid then run_return index
          else if entry_value entry = None then run_return (- 1)
          else (case c_int_add index 1 of
                  Inl e \<Rightarrow> run_fault e
                | Inr index' \<Rightarrow>
                    cache_probe_entryindex_loop entries msk uniqueid
                      (offset + cacheentry_sizeof) index'))"

definition mulle_objc_cache_probe_entryindex :: "'v mulle_objc_cache \<Rightarrow> uint32 \<Rightarrow> int c_run" where
  "mulle_objc_cache_probe_entryindex cache uniqueid =
     c_assert (mulle_objc_uniqueid_is_sane uniqueid)
       (cache_probe_entryindex_loop (cache_entries cache) (cache_mask cache) uniqueid uniqueid 0)"

section \<open>Statistics\<close>

definition mulle_objc_cache_calculate_fillpercentage :: "'v mulle_objc_cache option \<Rightarrow> uint32" where
  "mulle_objc_cache_calculate_fillpercentage cache_p =
     (case cache_p of
        None \<Rightarrow> 0
      | Some cache \<Rightarrow>
          if cache_size cache = 0 then 0
          else ucast (cache_n cache * 100 + ucast (cache_size cache div 2)) div cache_size cache)"

text \<open>
  \<open>calculate_hits\<close> walks the entries with their byte offset and classifies each used entry by
  the distance from its home offset; \<open>counts\<close> is the caller's four element array.
\<close>

definition cache_hit_steps :: "uint32 \<Rightarrow> uint32 \<Rightarrow> uint32 \<Rightarrow> uint32 \<Rightarrow> uint32" where
  "cache_hit_steps sz msk key offset =
     (let expected = key AND msk;
          steps = (if expected > offset
                   then sz * cacheentry_sizeof - expected + offset
                   else offset - expected);
          steps = steps div cacheentry_sizeof
      in if steps > 3 then 3 else steps)"

fun cache_hits_loop ::
    "uint32 \<Rightarrow> uint32 \<Rightarrow> 'v mulle_objc_cacheentry list \<Rightarrow> uint32 \<Rightarrow> uint32 list \<Rightarrow> uint32 \<Rightarrow>
     uint32 \<times> uint32 list" where
  "cache_hits_loop sz msk [] offset counts tot = (tot, counts)"
| "cache_hits_loop sz msk (p # ps) offset counts tot =
     (if entry_key p \<noteq> 0
      then let steps = unat (cache_hit_steps sz msk (entry_key p) offset) in
           cache_hits_loop sz msk ps (offset + cacheentry_sizeof)
             (counts[steps := counts ! steps + 1]) (tot + 1)
      else cache_hits_loop sz msk ps (offset + cacheentry_sizeof) counts tot)"

definition mulle_objc_cache_calculate_hits :: "'v mulle_objc_cache option \<Rightarrow> uint32 \<times> uint32 list" where
  "mulle_objc_cache_calculate_hits cache_p =
     (let counts = replicate 4 0 in
      case cache_p of
        None \<Rightarrow> (0, counts)
      | Some cache \<Rightarrow>
          if cache_size cache = 0 then (0, counts)
          else if cache_n cache = 0 then (0, counts)
          else cache_hits_loop (cache_size cache) (cache_mask cache) (cache_entries cache) 0 counts 0)"

text \<open>
  \<open>calculate_percentage\<close>: a histogram of the runs of used entries, longer runs in the last
  bucket; the result also carries the caller's array, untouched on the early returns.
\<close>

fun cache_percentage_loop ::
    "'v mulle_objc_cacheentry list \<Rightarrow> uint32 \<Rightarrow> uint32 \<Rightarrow> uint32 list \<Rightarrow> uint32 \<Rightarrow> uint32 \<times> uint32 list" where
  "cache_percentage_loop [] sz i percentages tot = (tot, percentages)"
| "cache_percentage_loop (p # ps) sz i percentages tot =
     (if entry_key p \<noteq> 0
      then let b = unat (if i < sz then i else sz - 1) in
           cache_percentage_loop ps sz (i + 1) (percentages[b := percentages ! b + 1]) (tot + 1)
      else cache_percentage_loop ps sz 0 percentages tot)"

fun cache_percentage_scale :: "uint32 \<Rightarrow> uint32 \<Rightarrow> uint32 \<Rightarrow> uint32 list \<Rightarrow> uint32 \<times> uint32 list" where
  "cache_percentage_scale tot i n [] = (n, [])"
| "cache_percentage_scale tot i n (c # cs) =
     (let n' = (if c \<noteq> 0 then i + 1 else n);
          (m, cs') = cache_percentage_scale tot (i + 1) n' cs
      in (m, (c * 100 + drop_bit 1 tot) div tot # cs'))"

definition mulle_objc_cache_calculate_percentage ::
    "'v mulle_objc_cache option \<Rightarrow> uint32 list option \<Rightarrow> uint32 \<Rightarrow> (uint32 \<times> uint32 list option) c_run" where
  "mulle_objc_cache_calculate_percentage cache_p percentages_p sz =
     (if percentages_p = None \<or> sz \<le> 1 then run_return (0, percentages_p)
      else case cache_p of
        None \<Rightarrow> run_return (0, percentages_p)
      | Some cache \<Rightarrow>
          if cache_size cache = 0 then run_return (0, percentages_p)
          else if cache_n cache = 0 then run_return (0, percentages_p)
          else
            let (tot, percentages) =
                  cache_percentage_loop (cache_entries cache) sz 0 (replicate (unat sz) 0) 0;
                (n, scaled) = cache_percentage_scale tot 0 0 percentages
            in c_assert (tot \<noteq> 0) (run_return (n, Some scaled)))"

section \<open>Adding entries\<close>

text \<open>
  The inactive adds fill a cache no other thread sees; the entry adds claim the value word
  with a compare-and-swap, then count the entry, then publish its key. Here they run without
  interference, the steps in their order; their races are the subject of
  \<open>Cache_Concurrent\<close>. All return the entry's offset beside the updated cache.
\<close>

definition mulle_objc_cache_add_pointer_inactive ::
    "'v mulle_objc_cache \<Rightarrow> 'v option \<Rightarrow> uint32 \<Rightarrow> ('v mulle_objc_cache \<times> uint32) c_run" where
  "mulle_objc_cache_add_pointer_inactive cache pointer uniqueid =
     run_bind (mulle_objc_cache_probe_entryoffset cache uniqueid) (\<lambda>offset.
     run_bind (Some (cache_entry_at (cache_entries cache) offset)) (\<lambda>entry.
       if entry_value entry \<noteq> None then run_return (cache, offset)
       else run_return
         ((cache_write_entry cache offset \<lparr> entry_key = uniqueid, entry_value = pointer \<rparr>)
            \<lparr> cache_n := cache_n cache + 1 \<rparr>, offset)))"

definition mulle_objc_cache_add_functionpointer_inactive ::
    "'v mulle_objc_cache \<Rightarrow> 'v option \<Rightarrow> uint32 \<Rightarrow> ('v mulle_objc_cache \<times> uint32) c_run" where
  "mulle_objc_cache_add_functionpointer_inactive cache pointer uniqueid =
     run_bind (mulle_objc_cache_probe_entryoffset cache uniqueid) (\<lambda>offset.
     run_bind (Some (cache_entry_at (cache_entries cache) offset)) (\<lambda>entry.
       if entry_key entry \<noteq> 0
       then c_assert (entry_key entry = uniqueid) (run_return (cache, offset))
       else c_assert (entry_value entry = None) (run_return
         ((cache_write_entry cache offset \<lparr> entry_key = uniqueid, entry_value = pointer \<rparr>)
            \<lparr> cache_n := cache_n cache + 1 \<rparr>, offset))))"

definition mulle_objc_cache_add_pointer_entry ::
    "'v mulle_objc_cache \<Rightarrow> 'v \<Rightarrow> uint32 \<Rightarrow> ('v mulle_objc_cache \<times> uint32 option) c_run" where
  "mulle_objc_cache_add_pointer_entry cache pointer uniqueid =
     c_assert (mulle_objc_uniqueid_is_sane uniqueid)
     (run_bind (mulle_objc_cache_probe_entryoffset cache uniqueid) (\<lambda>offset.
      run_bind (Some (cache_entry_at (cache_entries cache) offset)) (\<lambda>entry.
       if entry_value entry \<noteq> None
       then if entry_key entry = uniqueid
            then c_assert (entry_value entry = Some pointer) (run_return (cache, Some offset))
            else run_return (cache, None)
       else
         let claimed = cache_write_entry cache offset (entry\<lparr> entry_value := Some pointer \<rparr>);
             counted = claimed\<lparr> cache_n := cache_n claimed + 1 \<rparr>
         in c_assert (entry_key entry = 0)
              (run_return
                (cache_write_entry counted offset
                   \<lparr> entry_key = uniqueid, entry_value = Some pointer \<rparr>, Some offset)))))"

definition mulle_objc_cache_add_functionpointer_entry ::
    "'v mulle_objc_cache \<Rightarrow> 'v \<Rightarrow> uint32 \<Rightarrow> ('v mulle_objc_cache \<times> uint32 option) c_run" where
  "mulle_objc_cache_add_functionpointer_entry cache pointer uniqueid =
     c_assert (mulle_objc_uniqueid_is_sane uniqueid)
     (run_bind (mulle_objc_cache_probe_entryoffset cache uniqueid) (\<lambda>offset.
      run_bind (Some (cache_entry_at (cache_entries cache) offset)) (\<lambda>entry.
       if entry_value entry \<noteq> None
       then if entry_key entry = uniqueid
            then c_assert (entry_value entry = Some pointer) (run_return (cache, Some offset))
            else run_return (cache, None)
       else
         let claimed = cache_write_entry cache offset (entry\<lparr> entry_value := Some pointer \<rparr>);
             counted = claimed\<lparr> cache_n := cache_n claimed + 1 \<rparr>
         in c_assert (entry_key entry = 0)
              (run_return
                (cache_write_entry counted offset
                   \<lparr> entry_key = uniqueid, entry_value = Some pointer \<rparr>, Some offset)))))"

section \<open>Pivots: replacing a cache\<close>

text \<open>
  A pivot holds the address of the current cache's entries, an address being an index into
  the heap of allocated blocks. \<open>heap_freed\<close> lists the blocks released at once, \<open>heap_abafreed\<close>
  those handed to the deferred (ABA) collection, which readers may still use.
\<close>

record 'c cache_heap =
  heap_blocks :: "'c list"
  heap_freed :: "nat list"
  heap_abafreed :: "nat list"

definition heap_get :: "'c cache_heap \<Rightarrow> nat \<Rightarrow> 'c c_run" where
  "heap_get h a =
     (if a \<in> set (heap_freed h) then run_fault Use_After_Free
      else if a < length (heap_blocks h) then run_return (heap_blocks h ! a)
      else run_fault Out_Of_Bounds)"

definition heap_alloc :: "'c cache_heap \<Rightarrow> 'c \<Rightarrow> 'c cache_heap \<times> nat" where
  "heap_alloc h c = (h\<lparr> heap_blocks := heap_blocks h @ [c] \<rparr>, length (heap_blocks h))"

definition heap_put :: "'c cache_heap \<Rightarrow> nat \<Rightarrow> 'c \<Rightarrow> 'c cache_heap" where
  "heap_put h a c = h\<lparr> heap_blocks := (heap_blocks h)[a := c] \<rparr>"

definition mulle_objc_cache_free :: "'c cache_heap \<Rightarrow> nat \<Rightarrow> 'c cache_heap" where
  "mulle_objc_cache_free h a = h\<lparr> heap_freed := a # heap_freed h \<rparr>"

definition mulle_objc_cache_abafree :: "'c cache_heap \<Rightarrow> nat option \<Rightarrow> 'c cache_heap" where
  "mulle_objc_cache_abafree h a_p =
     (case a_p of None \<Rightarrow> h | Some a \<Rightarrow> h\<lparr> heap_abafreed := a # heap_abafreed h \<rparr>)"

text \<open>\<open>cas_entries\<close> returns 0 when the pivot still held the old entries.\<close>

definition mulle_objc_cachepivot_cas_entries ::
    "nat option \<Rightarrow> nat option \<Rightarrow> nat option \<Rightarrow> (nat option \<times> int) c_run" where
  "mulle_objc_cachepivot_cas_entries pivot new_entries old_entries =
     c_assert (old_entries \<noteq> new_entries)
       (run_return (if pivot = old_entries then (new_entries, 0) else (pivot, 1)))"

definition mulle_objc_cachepivot_swap ::
    "nat option \<Rightarrow> 'c cache_heap \<Rightarrow> nat \<Rightarrow> nat option \<Rightarrow> (nat option \<times> 'c cache_heap \<times> int) c_run" where
  "mulle_objc_cachepivot_swap pivot h cache old_cache =
     run_bind (mulle_objc_cachepivot_cas_entries pivot (Some cache) old_cache) (\<lambda>(pivot', failed).
       if failed \<noteq> 0
       then run_return (pivot', mulle_objc_cache_free h cache, - 1)
       else run_return (pivot', mulle_objc_cache_abafree h old_cache, 0))"

text \<open>
  \<open>fill_functionpointer\<close> for one thread: its loop re-reads the pivot, grows when the fill
  rate is reached and retries, else adds. It returns the heap, the pivot and the entry.
\<close>

partial_function (option) mulle_objc_cachepivot_fill_functionpointer ::
    "nat option \<Rightarrow> 'v mulle_objc_cache cache_heap \<Rightarrow> 'v \<Rightarrow> uint32 \<Rightarrow> uint32 \<Rightarrow>
     (nat option \<times> 'v mulle_objc_cache cache_heap \<times> nat \<times> uint32) c_run" where
  "mulle_objc_cachepivot_fill_functionpointer pivot h imp uniqueid fillrate =
     (case pivot of
        None \<Rightarrow> run_fault Out_Of_Bounds
      | Some a \<Rightarrow>
     (case heap_get h a of None \<Rightarrow> None | Some (Inl e) \<Rightarrow> run_fault e | Some (Inr cache) \<Rightarrow>
     (case mulle_objc_cache_should_grow cache fillrate of
        None \<Rightarrow> None | Some (Inl e) \<Rightarrow> run_fault e | Some (Inr grow) \<Rightarrow>
      if grow
      then (case mulle_objc_cache_grow_with_strategy cache MULLE_OBJC_CACHESIZE_GROW of
              None \<Rightarrow> None | Some (Inl e) \<Rightarrow> run_fault e | Some (Inr new) \<Rightarrow>
            let (h1, b) = heap_alloc h new in
            (case mulle_objc_cachepivot_swap pivot h1 b (Some a) of
               None \<Rightarrow> None | Some (Inl e) \<Rightarrow> run_fault e | Some (Inr (pivot', h2, rval)) \<Rightarrow>
             mulle_objc_cachepivot_fill_functionpointer pivot' h2 imp uniqueid fillrate))
      else (case mulle_objc_cache_add_functionpointer_entry cache imp uniqueid of
              None \<Rightarrow> None | Some (Inl e) \<Rightarrow> run_fault e | Some (Inr (cache', entry)) \<Rightarrow>
            let h1 = heap_put h a cache' in
            (case entry of
               Some offset \<Rightarrow> run_return (pivot, h1, a, offset)
             | None \<Rightarrow> mulle_objc_cachepivot_fill_functionpointer pivot h1 imp uniqueid fillrate)))))"

end
