(* ===== verification/Cache_Correct.thy ===== *)
theory Cache_Correct
  imports Cache
begin

text \<open>
  Correctness of the caches: probing is a walk over slots, it returns exactly when the walk
  meets the key or a free entry, and under the cache invariant it agrees with the abstract
  map of the cache; adding updates that map, the first value of a key winning; filling
  through a pivot always returns, because a cache below its fill rate has a free entry.
\<close>

section \<open>Slots\<close>

definition preshift :: "nat \<Rightarrow> uint32" where
  "preshift k = (2 ^ k - 1) * 16"

definition cache_shape :: "nat \<Rightarrow> 'v mulle_objc_cache \<Rightarrow> bool" where
  "cache_shape k c \<longleftrightarrow> 2 \<le> k \<and> k < 28 \<and> cache_size c = 2 ^ k \<and>
     cache_mask c = preshift k \<and> length (cache_entries c) = 2 ^ k"

definition cache_slot :: "nat \<Rightarrow> uint32 \<Rightarrow> nat" where
  "cache_slot k x = (unat x div 16) mod 2 ^ k"

lemma cache_slot_less [simp]: "cache_slot k x < 2 ^ k"
  by (simp add: cache_slot_def)

lemma preshift_eq: "preshift k = push_bit 4 (mask k)"
  by (simp add: preshift_def push_bit_eq_mult mask_eq_exp_minus_1)

lemma nat_and_preshifted: "n AND push_bit 4 (mask k) = 16 * ((n div 16) mod 2 ^ k)" for n :: nat
proof -
  have "n AND push_bit 4 (mask k) = push_bit 4 (take_bit k (drop_bit 4 n))"
    by (rule bit_eqI) (auto simp: bit_simps)
  then show ?thesis by (simp add: push_bit_eq_mult take_bit_eq_mod drop_bit_eq_div)
qed

lemma pow_k_bound: "k < 28 \<Longrightarrow> (2::nat) ^ k \<le> 2 ^ 27"
  by (rule power_increasing) auto

lemma unat_and_mask:
  assumes "k < 28"
  shows "unat (x AND preshift k) = 16 * cache_slot k x"
proof -
  have eq: "(push_bit 4 (mask k) :: uint32) = word_of_nat (push_bit 4 (mask k))"
    by (simp add: push_bit_eq_mult mask_eq_exp_minus_1 of_nat_diff)
  have "(mask k :: nat) < 2 ^ k" by (simp add: mask_eq_exp_minus_1)
  with pow_k_bound [OF assms] have "(mask k :: nat) < 2 ^ 27" by (rule less_le_trans [rotated])
  then have "push_bit 4 (mask k) < (2::nat) ^ 32" by (simp add: push_bit_eq_mult)
  then have "unat (push_bit 4 (mask k) :: uint32) = push_bit 4 (mask k)"
    unfolding eq by (simp add: unat_of_nat)
  then show ?thesis
    by (simp add: preshift_eq unsigned_and_eq nat_and_preshifted cache_slot_def)
qed

definition slot_offset :: "nat \<Rightarrow> uint32" where
  "slot_offset i = word_of_nat (16 * i)"

lemma unat_slot_offset [simp]: "i < 2 ^ k \<Longrightarrow> k < 28 \<Longrightarrow> unat (slot_offset i) = 16 * i"
  using pow_k_bound [of k] unat_of_nat [where 'a = 32 and x = "16 * i"]
  by (simp add: slot_offset_def take_bit_nat_eq_self del: of_nat_mult)

lemma and_mask_slot_offset:
  "k < 28 \<Longrightarrow> x AND preshift k = slot_offset (cache_slot k x)"
  by (rule word_unat_eq_iff [THEN iffD2]) (simp only: unat_and_mask unat_slot_offset [of _ k] cache_slot_less)

lemma cache_slot_slot_offset [simp]: "i < 2 ^ k \<Longrightarrow> k < 28 \<Longrightarrow> cache_slot k (slot_offset i) = i"
  by (simp add: cache_slot_def unat_slot_offset [of i k])

lemma slot_offset_div [simp]: "i < 2 ^ k \<Longrightarrow> k < 28 \<Longrightarrow> unat (slot_offset i div 16) = i"
  by (simp add: unat_div unat_slot_offset [of i k])

lemma cache_slot_next:
  assumes "i < 2 ^ k" "k < 28"
  shows "cache_slot k (slot_offset i + 16) = Suc i mod 2 ^ k"
proof -
  have "16 * i + 16 < 2 ^ 32" using pow_k_bound [OF assms(2)] assms(1) by simp
  then have "unat (slot_offset i + 16) = 16 * Suc i"
    using unat_slot_offset [OF assms]
    by (subst unat_word_ariths(1)) simp
  then show ?thesis by (simp add: cache_slot_def)
qed

lemma cache_entry_at_slot [simp]:
  assumes "i < 2 ^ k" "k < 28" "length es = 2 ^ k"
  shows "cache_entry_at es (slot_offset i) = Inr (es ! i)"
  using slot_offset_div [OF assms(1,2)] assms(1,3)
  by (simp add: cache_entry_at_def cacheentry_sizeof_def uint_nat c_read_Inr del: c_read_Inr)
     (simp add: c_read_def)

section \<open>Probing as a walk over slots\<close>

definition entry_stops :: "uint32 \<Rightarrow> 'v mulle_objc_cacheentry \<Rightarrow> bool" where
  "entry_stops uniqueid e \<longleftrightarrow> entry_key e = uniqueid \<or> entry_value e = None"

lemma probe_loop_step:
  assumes "k < 28" "length es = 2 ^ k"
  shows "cache_probe_loop es (preshift k) uniqueid x =
    (let i = cache_slot k x in
     if entry_stops uniqueid (es ! i) then run_return (slot_offset i, es ! i)
     else cache_probe_loop es (preshift k) uniqueid (slot_offset i + 16))"
  using assms cache_entry_at_slot [OF cache_slot_less assms, of x]
  by (subst cache_probe_loop.simps)
     (auto simp: and_mask_slot_offset Let_def entry_stops_def cacheentry_sizeof_def)

lemma probe_loop_from_slot:
  assumes "k < 28" "length es = 2 ^ k" "i < 2 ^ k"
  shows "cache_probe_loop es (preshift k) uniqueid (slot_offset i) =
    (if entry_stops uniqueid (es ! i) then run_return (slot_offset i, es ! i)
     else cache_probe_loop es (preshift k) uniqueid (slot_offset (Suc i mod 2 ^ k)))"
proof -
  have "cache_slot k (slot_offset (Suc i mod 2 ^ k)) = cache_slot k (slot_offset i + 16)"
    using assms by (simp add: cache_slot_next)
  then have "cache_probe_loop es (preshift k) uniqueid (slot_offset i + 16) =
      cache_probe_loop es (preshift k) uniqueid (slot_offset (Suc i mod 2 ^ k))"
    using probe_loop_step [OF assms(1,2), of uniqueid] by metis
  then show ?thesis
    using probe_loop_step [OF assms(1,2), of uniqueid "slot_offset i"] assms
    by (simp add: Let_def)
qed

lemma probe_loop_start:
  assumes "k < 28" "length es = 2 ^ k"
  shows "cache_probe_loop es (preshift k) uniqueid x =
    cache_probe_loop es (preshift k) uniqueid (slot_offset (cache_slot k x))"
  using probe_loop_step [OF assms, of uniqueid x]
    probe_loop_step [OF assms, of uniqueid "slot_offset (cache_slot k x)"] assms
  by (simp add: Let_def)

lemma probe_loop_finds:
  assumes "k < 28" "length es = 2 ^ k" "i < 2 ^ k"
    and "\<And>j. j < d \<Longrightarrow> \<not> entry_stops uniqueid (es ! ((i + j) mod 2 ^ k))"
    and "entry_stops uniqueid (es ! ((i + d) mod 2 ^ k))"
  shows "cache_probe_loop es (preshift k) uniqueid (slot_offset i) =
    run_return (slot_offset ((i + d) mod 2 ^ k), es ! ((i + d) mod 2 ^ k))"
  using assms(3-)
proof (induction d arbitrary: i)
  case 0
  then show ?case using probe_loop_from_slot [OF assms(1,2)] by simp
next
  case (Suc d)
  have shift: "(Suc i mod 2 ^ k + j) mod 2 ^ k = (i + Suc j) mod 2 ^ k" for j
    by (simp add: mod_simps)
  have "\<not> entry_stops uniqueid (es ! i)"
    using Suc.prems(2) [of 0] Suc.prems(1) by simp
  moreover have "cache_probe_loop es (preshift k) uniqueid (slot_offset (Suc i mod 2 ^ k)) =
      run_return (slot_offset ((i + Suc d) mod 2 ^ k), es ! ((i + Suc d) mod 2 ^ k))"
    using Suc.IH [of "Suc i mod 2 ^ k"] Suc.prems(2) Suc.prems(3)
    by (simp only: shift) (simp add: Suc.prems(2))
  ultimately show ?case
    using probe_loop_from_slot [OF assms(1,2) Suc.prems(1)] by simp
qed

lemma probe_loop_result:
  "cache_probe_loop es msk uniqueid x = Some r \<Longrightarrow>
   \<forall>y. \<exists>e\<in>set es. cache_entry_at es (y AND msk) = Inr e \<Longrightarrow>
   \<exists>off e. r = Inr (off, e) \<and> e \<in> set es \<and> entry_stops uniqueid e"
proof (induction rule: cache_probe_loop.raw_induct [rotated, consumes 1])
  case (1 loop es msk uniqueid x r)
  obtain e where e: "e \<in> set es" "cache_entry_at es (x AND msk) = Inr e"
    using 1(3) by blast
  show ?case
  proof (cases "entry_stops uniqueid e")
    case True
    then show ?thesis using 1(2) e by (auto simp: Let_def entry_stops_def split: if_splits)
  next
    case False
    then show ?thesis using 1 e by (auto simp: Let_def entry_stops_def)
  qed
qed

text \<open>The distance walked from slot \<open>h\<close> to slot \<open>i\<close>, wrapping around.\<close>

definition slot_dist :: "nat \<Rightarrow> nat \<Rightarrow> nat \<Rightarrow> nat" where
  "slot_dist k h i = (i + 2 ^ k - h) mod 2 ^ k"

lemma slot_dist_less [simp]: "slot_dist k h i < 2 ^ k"
  by (simp add: slot_dist_def)

lemma slot_dist_reaches [simp]:
  "h < 2 ^ k \<Longrightarrow> i < 2 ^ k \<Longrightarrow> (h + slot_dist k h i) mod 2 ^ k = i"
  by (simp add: slot_dist_def mod_simps)

lemma slot_dist_unique:
  assumes "h < 2 ^ k" "d < 2 ^ k"
  shows "slot_dist k h ((h + d) mod 2 ^ k) = d"
proof -
  have "(h + d) mod 2 ^ k + 2 ^ k - h = (h + d) mod 2 ^ k + (2 ^ k - h)" using assms by simp
  moreover have "((h + d) mod 2 ^ k + (2 ^ k - h)) mod 2 ^ k = (h + d + (2 ^ k - h)) mod 2 ^ k"
    by (simp only: mod_add_left_eq)
  moreover have "h + d + (2 ^ k - h) = d + 2 ^ k" using assms by simp
  ultimately show ?thesis using assms(2) by (simp add: slot_dist_def)
qed

lemma probe_loop_stops_somewhere:
  assumes "k < 28" "length es = 2 ^ k" "e \<in> set es" "entry_stops uniqueid e"
  obtains d where "d < 2 ^ k"
    and "\<And>j. j < d \<Longrightarrow> \<not> entry_stops uniqueid (es ! ((cache_slot k x + j) mod 2 ^ k))"
    and "entry_stops uniqueid (es ! ((cache_slot k x + d) mod 2 ^ k))"
    and "cache_probe_loop es (preshift k) uniqueid x =
      run_return (slot_offset ((cache_slot k x + d) mod 2 ^ k), es ! ((cache_slot k x + d) mod 2 ^ k))"
proof -
  let ?P = "\<lambda>d. entry_stops uniqueid (es ! ((cache_slot k x + d) mod 2 ^ k))"
  obtain i where i: "i < 2 ^ k" "es ! i = e" using assms(2,3) by (metis in_set_conv_nth)
  have ex: "?P (slot_dist k (cache_slot k x) i)" using i assms(4) by simp
  let ?d = "LEAST d. ?P d"
  have P: "?P ?d" using ex by (rule LeastI)
  have le: "?d \<le> slot_dist k (cache_slot k x) i" using ex by (rule Least_le)
  have before: "\<not> ?P j" if "j < ?d" for j using not_less_Least [OF that] .
  have "cache_probe_loop es (preshift k) uniqueid x =
      run_return (slot_offset ((cache_slot k x + ?d) mod 2 ^ k), es ! ((cache_slot k x + ?d) mod 2 ^ k))"
    unfolding probe_loop_start [OF assms(1,2), of _ x]
    by (rule probe_loop_finds [OF assms(1,2) cache_slot_less before P])
  then show ?thesis
    using that P before le slot_dist_less [of k "cache_slot k x" i] by (meson le_less_trans)
qed

lemma probe_loop_returns_iff:
  assumes "k < 28" "length es = 2 ^ k"
  shows "cache_probe_loop es (preshift k) uniqueid x \<noteq> None \<longleftrightarrow> (\<exists>e\<in>set es. entry_stops uniqueid e)"
proof
  assume "cache_probe_loop es (preshift k) uniqueid x \<noteq> None"
  then obtain r where r: "cache_probe_loop es (preshift k) uniqueid x = Some r" by blast
  have "\<forall>y. \<exists>e\<in>set es. cache_entry_at es (y AND preshift k) = Inr e"
    using cache_entry_at_slot [OF cache_slot_less assms] assms
    by (metis and_mask_slot_offset cache_slot_less nth_mem)
  with probe_loop_result [OF r] show "\<exists>e\<in>set es. entry_stops uniqueid e" by blast
next
  assume "\<exists>e\<in>set es. entry_stops uniqueid e"
  then show "cache_probe_loop es (preshift k) uniqueid x \<noteq> None"
    using probe_loop_stops_somewhere [OF assms, of _ uniqueid x] by (metis option.distinct(1))
qed

section \<open>The cache invariant and its abstract map\<close>

text \<open>
  Keys and values are set together, no key occurs twice, the slots a probe passes before it
  meets a key are occupied, and \<open>n\<close> counts the occupied slots.
\<close>

definition cache_reachable :: "nat \<Rightarrow> 'v mulle_objc_cacheentry list \<Rightarrow> nat \<Rightarrow> bool" where
  "cache_reachable k es i \<longleftrightarrow>
     (let h = cache_slot k (entry_key (es ! i)) in
      \<forall>j < slot_dist k h i. entry_value (es ! ((h + j) mod 2 ^ k)) \<noteq> None)"

definition cache_used :: "'v mulle_objc_cacheentry list \<Rightarrow> nat" where
  "cache_used es = length (filter (\<lambda>e. entry_value e \<noteq> None) es)"

definition cache_inv :: "nat \<Rightarrow> 'v mulle_objc_cache \<Rightarrow> bool" where
  "cache_inv k c \<longleftrightarrow> cache_shape k c \<and>
     (\<forall>e\<in>set (cache_entries c). entry_key e = 0 \<longleftrightarrow> entry_value e = None) \<and>
     (\<forall>i<2 ^ k. \<forall>j<2 ^ k. entry_key (cache_entries c ! i) \<noteq> 0 \<longrightarrow>
        entry_key (cache_entries c ! i) = entry_key (cache_entries c ! j) \<longrightarrow> i = j) \<and>
     (\<forall>i<2 ^ k. entry_key (cache_entries c ! i) \<noteq> 0 \<longrightarrow> cache_reachable k (cache_entries c) i) \<and>
     unat (cache_n c) = cache_used (cache_entries c)"

definition cache_lookup :: "'v mulle_objc_cache \<Rightarrow> uint32 \<Rightarrow> 'v option" where
  "cache_lookup c uniqueid =
     (case find (\<lambda>e. entry_key e = uniqueid) (cache_entries c) of
        None \<Rightarrow> None | Some e \<Rightarrow> entry_value e)"

lemma cache_inv_shape: "cache_inv k c \<Longrightarrow> cache_shape k c"
  by (simp add: cache_inv_def)

lemma cache_shapeD:
  assumes "cache_shape k c"
  shows "k < 28" "length (cache_entries c) = 2 ^ k" "cache_mask c = preshift k"
    "2 \<le> k" "cache_size c = 2 ^ k"
  using assms by (simp_all add: cache_shape_def)

lemma cache_inv_unique:
  assumes "cache_inv k c" "i < 2 ^ k" "j < 2 ^ k" "entry_key (cache_entries c ! i) \<noteq> 0"
    "entry_key (cache_entries c ! i) = entry_key (cache_entries c ! j)"
  shows "i = j"
  using assms unfolding cache_inv_def by blast

lemma cache_inv_key_iff:
  assumes "cache_inv k c" "i < 2 ^ k"
  shows "entry_key (cache_entries c ! i) = 0 \<longleftrightarrow> entry_value (cache_entries c ! i) = None"
  using assms by (simp add: cache_inv_def cache_shape_def)

lemma sane_nonzero: "mulle_objc_uniqueid_is_sane u \<Longrightarrow> u \<noteq> 0"
  by (auto simp: mulle_objc_uniqueid_is_sane_def c_defs)

lemma cache_lookup_None:
  "\<forall>e\<in>set (cache_entries c). entry_key e \<noteq> u \<Longrightarrow> cache_lookup c u = None"
  by (auto simp: cache_lookup_def dest!: find_Some_iff [THEN iffD1] split: option.splits)

lemma cache_lookup_at:
  assumes "cache_inv k c" "i < 2 ^ k" "entry_key (cache_entries c ! i) = u" "u \<noteq> 0"
  shows "cache_lookup c u = entry_value (cache_entries c ! i)"
proof (cases "find (\<lambda>e. entry_key e = u) (cache_entries c)")
  case None
  then have "\<forall>e\<in>set (cache_entries c). entry_key e \<noteq> u" by (simp add: find_None_iff)
  moreover have "cache_entries c ! i \<in> set (cache_entries c)"
    using assms(2) cache_shapeD(2) [OF cache_inv_shape [OF assms(1)]] by simp
  ultimately show ?thesis using assms(3) by blast
next
  case (Some e)
  then obtain j where j: "j < length (cache_entries c)" "entry_key (cache_entries c ! j) = u"
      "e = cache_entries c ! j"
    by (auto simp: find_Some_iff)
  then have "j = i" using cache_inv_unique [OF assms(1), of j i] assms
      cache_shapeD(2) [OF cache_inv_shape [OF assms(1)]] by simp
  then show ?thesis using Some j by (simp add: cache_lookup_def)
qed

lemma cache_lookup_Some_iff:
  assumes "cache_inv k c" "u \<noteq> 0"
  shows "cache_lookup c u \<noteq> None \<longleftrightarrow> (\<exists>i<2 ^ k. entry_key (cache_entries c ! i) = u)"
proof
  assume "cache_lookup c u \<noteq> None"
  then have "\<not> (\<forall>e\<in>set (cache_entries c). entry_key e \<noteq> u)"
    using cache_lookup_None [of c u] by linarith
  then obtain i where "i < length (cache_entries c)" "entry_key (cache_entries c ! i) = u"
    by (auto simp: in_set_conv_nth)
  then show "\<exists>i<2 ^ k. entry_key (cache_entries c ! i) = u"
    using cache_shapeD(2) [OF cache_inv_shape [OF assms(1)]] by auto
next
  assume "\<exists>i<2 ^ k. entry_key (cache_entries c ! i) = u"
  then obtain i where i: "i < 2 ^ k" "entry_key (cache_entries c ! i) = u" by blast
  then show "cache_lookup c u \<noteq> None"
    using cache_lookup_at [OF assms(1) i assms(2)] cache_inv_key_iff [OF assms(1) i(1)] assms(2) by simp
qed

text \<open>
  The central lemma: on a cache with the key or a free entry the probe loop stops at the
  key's entry if there is one and at a free entry otherwise, all slots before it occupied.
\<close>

lemma probe_loop_inv:
  assumes inv: "cache_inv k c" and u: "u \<noteq> 0"
    and stop: "cache_lookup c u \<noteq> None \<or> cache_used (cache_entries c) < 2 ^ k"
  obtains i where "i < 2 ^ k"
    and "cache_probe_loop (cache_entries c) (cache_mask c) u u = run_return (slot_offset i, cache_entries c ! i)"
    and "\<forall>j < slot_dist k (cache_slot k u) i.
           entry_value (cache_entries c ! ((cache_slot k u + j) mod 2 ^ k)) \<noteq> None"
    and "if cache_lookup c u = None
         then entry_key (cache_entries c ! i) = 0 \<and> entry_value (cache_entries c ! i) = None
         else entry_key (cache_entries c ! i) = u"
proof -
  let ?es = "cache_entries c" and ?h = "cache_slot k u"
  note sh = cache_shapeD [OF cache_inv_shape [OF inv]]
  have "\<exists>e\<in>set ?es. entry_stops u e"
  proof (cases "cache_lookup c u = None")
    case True
    then have "cache_used ?es \<noteq> length ?es" using stop sh(2) by simp
    moreover have "cache_used ?es = length ?es" if "\<forall>e\<in>set ?es. entry_value e \<noteq> None"
      using that unfolding cache_used_def by (subst filter_True) simp_all
    ultimately have "\<not> (\<forall>e\<in>set ?es. entry_value e \<noteq> None)" by metis
    then show ?thesis by (auto simp: entry_stops_def)
  next
    case False
    then have "\<not> (\<forall>e\<in>set ?es. entry_key e \<noteq> u)" using cache_lookup_None [of c u] by linarith
    then show ?thesis by (auto simp: entry_stops_def)
  qed
  then obtain d where d: "d < 2 ^ k"
      "\<And>j. j < d \<Longrightarrow> \<not> entry_stops u (?es ! ((?h + j) mod 2 ^ k))"
      "entry_stops u (?es ! ((?h + d) mod 2 ^ k))"
      "cache_probe_loop ?es (preshift k) u u =
        run_return (slot_offset ((?h + d) mod 2 ^ k), ?es ! ((?h + d) mod 2 ^ k))"
    using probe_loop_stops_somewhere [OF sh(1,2), of _ u u] by blast
  let ?i = "(?h + d) mod 2 ^ k"
  have i: "?i < 2 ^ k" by simp
  have dist: "slot_dist k ?h ?i = d" using slot_dist_unique [OF cache_slot_less d(1)] .
  have occ: "\<forall>j < slot_dist k ?h ?i. entry_value (?es ! ((?h + j) mod 2 ^ k)) \<noteq> None"
    unfolding dist using d(2) by (auto simp: entry_stops_def)
  have key: "if cache_lookup c u = None then entry_key (?es ! ?i) = 0 \<and> entry_value (?es ! ?i) = None
         else entry_key (?es ! ?i) = u"
  proof (cases "entry_key (?es ! ?i) = u")
    case True
    then show ?thesis using cache_lookup_Some_iff [OF inv u] i by auto
  next
    case False
    then have free: "entry_value (?es ! ?i) = None" using d(3) by (simp add: entry_stops_def)
    have "cache_lookup c u = None"
    proof (rule ccontr)
      assume "cache_lookup c u \<noteq> None"
      then obtain m where m: "m < 2 ^ k" "entry_key (?es ! m) = u"
        using cache_lookup_Some_iff [OF inv u] by blast
      then have reach: "\<forall>j < slot_dist k ?h m. entry_value (?es ! ((?h + j) mod 2 ^ k)) \<noteq> None"
        using inv u unfolding cache_inv_def cache_reachable_def Let_def by blast
      have "\<not> slot_dist k ?h m < d"
        using d(2) [of "slot_dist k ?h m"] m by (auto simp: entry_stops_def)
      moreover have "\<not> d < slot_dist k ?h m" using reach free by blast
      ultimately have "slot_dist k ?h m = d" by simp
      then have "m = ?i" using slot_dist_reaches [OF cache_slot_less m(1)] by metis
      then show False using m(2) False by simp
    qed
    then show ?thesis using free cache_inv_key_iff [OF inv i] by simp
  qed
  show ?thesis using that [OF i _ occ key] d(4) sh(3) by simp
qed

lemma probe_functionpointer_correct:
  assumes "cache_inv k c" "mulle_objc_uniqueid_is_sane u"
    "cache_lookup c u \<noteq> None \<or> cache_used (cache_entries c) < 2 ^ k"
  shows "mulle_objc_cache_probe_functionpointer c u = run_return (cache_lookup c u)"
proof -
  obtain i where i: "i < 2 ^ k"
      "cache_probe_loop (cache_entries c) (cache_mask c) u u = run_return (slot_offset i, cache_entries c ! i)"
      "if cache_lookup c u = None
       then entry_key (cache_entries c ! i) = 0 \<and> entry_value (cache_entries c ! i) = None
       else entry_key (cache_entries c ! i) = u"
    using probe_loop_inv [OF assms(1) sane_nonzero [OF assms(2)] assms(3)] by metis
  show ?thesis
    using i assms(2) cache_lookup_at [OF assms(1) i(1)] sane_nonzero [OF assms(2)]
    by (auto simp: mulle_objc_cache_probe_functionpointer_def split: if_splits)
qed

lemma probe_pointer_eq: "mulle_objc_cache_probe_pointer = mulle_objc_cache_probe_functionpointer"
  by (intro ext) (simp add: mulle_objc_cache_probe_pointer_def mulle_objc_cache_probe_functionpointer_def)

section \<open>Adding an entry\<close>

definition cache_insert_at :: "'v mulle_objc_cache \<Rightarrow> nat \<Rightarrow> uint32 \<Rightarrow> 'v \<Rightarrow> 'v mulle_objc_cache" where
  "cache_insert_at c i u v =
     c\<lparr> cache_entries := (cache_entries c)[i := \<lparr> entry_key = u, entry_value = Some v \<rparr>],
        cache_n := cache_n c + 1 \<rparr>"

lemma cache_used_update:
  assumes "i < length es" "entry_value (es ! i) = None" "entry_value e \<noteq> None"
  shows "cache_used (es[i := e]) = Suc (cache_used es)"
proof -
  have "es = take i es @ es ! i # drop (Suc i) es" using assms(1) by (rule id_take_nth_drop)
  then have "cache_used es = cache_used (take i es @ es ! i # drop (Suc i) es)" by (rule arg_cong)
  then show ?thesis using assms by (simp add: upd_conv_take_nth_drop cache_used_def)
qed

lemma cache_used_le: "cache_used es \<le> length es"
  by (simp add: cache_used_def)

lemma cache_insert_at_inv:
  assumes inv: "cache_inv k c" and u: "u \<noteq> 0" and none: "cache_lookup c u = None"
    and i: "i < 2 ^ k" "entry_key (cache_entries c ! i) = 0"
    and occ: "\<forall>j < slot_dist k (cache_slot k u) i.
           entry_value (cache_entries c ! ((cache_slot k u + j) mod 2 ^ k)) \<noteq> None"
  shows "cache_inv k (cache_insert_at c i u v)"
proof -
  let ?es = "cache_entries c"
  let ?es' = "?es[i := \<lparr> entry_key = u, entry_value = Some v \<rparr>]"
  note sh = cache_shapeD [OF cache_inv_shape [OF inv]]
  have free: "entry_value (?es ! i) = None" using cache_inv_key_iff [OF inv i(1)] i(2) by simp
  have absent: "entry_key (?es ! j) \<noteq> u" if "j < 2 ^ k" for j
    using none cache_lookup_Some_iff [OF inv u] that by blast
  have nth: "?es' ! j = (if j = i then \<lparr> entry_key = u, entry_value = Some v \<rparr> else ?es ! j)"
    if "j < 2 ^ k" for j using that sh(2) by (simp add: nth_list_update)
  have grown: "entry_value (?es' ! j) \<noteq> None" if "entry_value (?es ! j) \<noteq> None" "j < 2 ^ k" for j
    using that nth by simp
  have used: "cache_used ?es' = Suc (cache_used ?es)"
    using cache_used_update [of i ?es] i(1) free sh(2) by simp
  have n: "unat (cache_n c) = cache_used ?es" using inv by (simp add: cache_inv_def)
  have "cache_used ?es' \<le> 2 ^ 27"
    using cache_used_le [of ?es'] sh(2) pow_k_bound [OF sh(1)] by simp
  then have "unat (cache_n c + 1) = cache_used ?es'"
    using n used by (subst unat_word_ariths(1)) simp
  moreover have "cache_shape k (cache_insert_at c i u v)"
    using cache_inv_shape [OF inv] by (simp add: cache_shape_def cache_insert_at_def)
  moreover have "\<forall>e\<in>set ?es'. entry_key e = 0 \<longleftrightarrow> entry_value e = None"
    using inv u set_update_subset_insert [of ?es i] by (fastforce simp: cache_inv_def)
  moreover have "a = b" if "a < 2 ^ k" "b < 2 ^ k" "entry_key (?es' ! a) \<noteq> 0"
      "entry_key (?es' ! a) = entry_key (?es' ! b)" for a b
    using that absent cache_inv_unique [OF inv, of a b] by (simp add: nth split: if_splits) metis
  moreover have "cache_reachable k ?es' a" if a: "a < 2 ^ k" "entry_key (?es' ! a) \<noteq> 0" for a
  proof (cases "a = i")
    case True
    then show ?thesis using occ grown nth [OF i(1)]
      by (auto simp: cache_reachable_def Let_def)
  next
    case False
    then have "cache_reachable k ?es a" using inv a nth [OF a(1)] by (simp add: cache_inv_def)
    then show ?thesis using grown nth [OF a(1)] False
      by (auto simp: cache_reachable_def Let_def)
  qed
  ultimately show ?thesis unfolding cache_inv_def by (auto simp: cache_insert_at_def)
qed

lemma cache_insert_at_lookup:
  assumes inv: "cache_inv k c" and inv': "cache_inv k (cache_insert_at c i u v)"
    and none: "cache_lookup c u = None" and i: "i < 2 ^ k" "entry_key (cache_entries c ! i) = 0"
    and uq: "u \<noteq> 0" "q \<noteq> 0"
  shows "cache_lookup (cache_insert_at c i u v) q = (if q = u then Some v else cache_lookup c q)"
proof -
  let ?c' = "cache_insert_at c i u v"
  have nth: "cache_entries ?c' ! j =
      (if j = i then \<lparr> entry_key = u, entry_value = Some v \<rparr> else cache_entries c ! j)"
    if "j < 2 ^ k" for j
    using that i(1) cache_shapeD(2) [OF cache_inv_shape [OF inv]]
    by (simp add: cache_insert_at_def nth_list_update)
  show ?thesis
  proof (cases "q = u")
    case True
    then show ?thesis using cache_lookup_at [OF inv' i(1)] nth [OF i(1)] uq by simp
  next
    case False
    show ?thesis
    proof (cases "cache_lookup c q")
      case None
      then have "\<not> (\<exists>j<2 ^ k. entry_key (cache_entries ?c' ! j) = q)"
        using cache_lookup_Some_iff [OF inv uq(2)] False nth by auto
      then have "cache_lookup ?c' q = None" using cache_lookup_Some_iff [OF inv' uq(2)] by blast
      then show ?thesis using None False by simp
    next
      case (Some w)
      then obtain j where j: "j < 2 ^ k" "entry_key (cache_entries c ! j) = q"
        using cache_lookup_Some_iff [OF inv uq(2)] by auto
      then have "j \<noteq> i" using i(2) uq(2) by auto
      then show ?thesis
        using cache_lookup_at [OF inv j uq(2)] cache_lookup_at [OF inv' j(1)] nth [OF j(1)] j uq(2) False
        by simp
    qed
  qed
qed

text \<open>Which cache an insertion step produces; all four adds are instances.\<close>

definition cache_inserted :: "nat \<Rightarrow> 'v mulle_objc_cache \<Rightarrow> uint32 \<Rightarrow> 'v \<Rightarrow> 'v mulle_objc_cache \<Rightarrow> bool" where
  "cache_inserted k c u v c' \<longleftrightarrow> cache_inv k c' \<and>
     cache_used (cache_entries c') = Suc (cache_used (cache_entries c)) \<and>
     (\<forall>q. q \<noteq> 0 \<longrightarrow> cache_lookup c' q = (if q = u then Some v else cache_lookup c q))"

lemma probe_for_insert:
  assumes inv: "cache_inv k c" and u: "u \<noteq> 0"
    and none: "cache_lookup c u = None" and room: "cache_used (cache_entries c) < 2 ^ k"
  obtains i where "i < 2 ^ k"
    and "cache_probe_loop (cache_entries c) (cache_mask c) u u = run_return (slot_offset i, cache_entries c ! i)"
    and "entry_key (cache_entries c ! i) = 0" "entry_value (cache_entries c ! i) = None"
    and "\<And>v. cache_inserted k c u v (cache_insert_at c i u v)"
proof -
  obtain i where i: "i < 2 ^ k"
      "cache_probe_loop (cache_entries c) (cache_mask c) u u = run_return (slot_offset i, cache_entries c ! i)"
      "\<forall>j < slot_dist k (cache_slot k u) i.
           entry_value (cache_entries c ! ((cache_slot k u + j) mod 2 ^ k)) \<noteq> None"
      "entry_key (cache_entries c ! i) = 0" "entry_value (cache_entries c ! i) = None"
    using probe_loop_inv [OF inv u, of thesis] none room by auto
  have inv': "cache_inv k (cache_insert_at c i u v)" for v
    using cache_insert_at_inv [OF inv u none i(1) i(4) i(3)] .
  have "cache_used (cache_entries (cache_insert_at c i u v)) = Suc (cache_used (cache_entries c))" for v
    using cache_used_update [of i "cache_entries c"] i(1,5) cache_shapeD(2) [OF cache_inv_shape [OF inv]]
    by (simp add: cache_insert_at_def)
  then have "cache_inserted k c u v (cache_insert_at c i u v)" for v
    using inv' cache_insert_at_lookup [OF inv inv' none i(1) i(4) u] by (simp add: cache_inserted_def)
  then show ?thesis using that i by blast
qed

lemma probe_for_present:
  assumes inv: "cache_inv k c" and u: "u \<noteq> 0" and some: "cache_lookup c u = Some w"
  obtains i where "i < 2 ^ k"
    and "cache_probe_loop (cache_entries c) (cache_mask c) u u = run_return (slot_offset i, cache_entries c ! i)"
    and "entry_key (cache_entries c ! i) = u" "entry_value (cache_entries c ! i) = Some w"
proof -
  obtain i where i: "i < 2 ^ k"
      "cache_probe_loop (cache_entries c) (cache_mask c) u u = run_return (slot_offset i, cache_entries c ! i)"
      "entry_key (cache_entries c ! i) = u"
    using probe_loop_inv [OF inv u, of thesis] some by auto
  then show ?thesis using that cache_lookup_at [OF inv i(1,3) u] some by simp
qed

lemmas add_entry_defs = mulle_objc_cache_add_functionpointer_entry_def
  mulle_objc_cache_add_pointer_entry_def mulle_objc_cache_add_functionpointer_inactive_def
  mulle_objc_cache_add_pointer_inactive_def mulle_objc_cache_probe_entryoffset_def

lemma cache_write_insert:
  assumes "cache_inv k c" "i < 2 ^ k"
  shows "cache_write_entry (cache_write_entry c (slot_offset i) e\<lparr>cache_n := cache_n c + 1\<rparr>)
           (slot_offset i) \<lparr> entry_key = u, entry_value = Some v \<rparr> = cache_insert_at c i u v"
    and "cache_write_entry c (slot_offset i) \<lparr> entry_key = u, entry_value = Some v \<rparr>\<lparr>cache_n := cache_n c + 1\<rparr>
           = cache_insert_at c i u v"
  using slot_offset_div [OF assms(2) cache_shapeD(1) [OF cache_inv_shape [OF assms(1)]]]
  by (simp_all add: cache_write_entry_def cache_insert_at_def cacheentry_sizeof_def)

lemma cache_n_write [simp]: "cache_n (cache_write_entry c off e) = cache_n c"
  by (simp add: cache_write_entry_def)

lemma add_absent:
  assumes "cache_inv k c" "mulle_objc_uniqueid_is_sane u" "cache_lookup c u = None"
    "cache_used (cache_entries c) < 2 ^ k"
  obtains i where "i < 2 ^ k" "cache_inserted k c u v (cache_insert_at c i u v)"
    "mulle_objc_cache_add_functionpointer_entry c v u = run_return (cache_insert_at c i u v, Some (slot_offset i))"
    "mulle_objc_cache_add_pointer_entry c v u = run_return (cache_insert_at c i u v, Some (slot_offset i))"
    "mulle_objc_cache_add_functionpointer_inactive c (Some v) u = run_return (cache_insert_at c i u v, slot_offset i)"
    "mulle_objc_cache_add_pointer_inactive c (Some v) u = run_return (cache_insert_at c i u v, slot_offset i)"
proof -
  note sh = cache_shapeD [OF cache_inv_shape [OF assms(1)]]
  obtain i where i: "i < 2 ^ k"
      "cache_probe_loop (cache_entries c) (cache_mask c) u u = run_return (slot_offset i, cache_entries c ! i)"
      "entry_key (cache_entries c ! i) = 0" "entry_value (cache_entries c ! i) = None"
      "\<And>v. cache_inserted k c u v (cache_insert_at c i u v)"
    using probe_for_insert [OF assms(1) sane_nonzero [OF assms(2)] assms(3,4)] by metis
  have at: "cache_entry_at (cache_entries c) (slot_offset i) = Inr (cache_entries c ! i)"
    using cache_entry_at_slot [OF i(1) sh(1,2)] .
  show ?thesis
    by (rule that [OF i(1) i(5)])
       (insert assms(2), simp_all add: add_entry_defs i(2-4) at Let_def cache_write_insert [OF assms(1) i(1)])
qed

lemma add_present:
  assumes "cache_inv k c" "mulle_objc_uniqueid_is_sane u" "cache_lookup c u = Some w"
  obtains i where "i < 2 ^ k"
    "mulle_objc_cache_add_functionpointer_entry c v u =
       (if v = w then run_return (c, Some (slot_offset i)) else run_fault Assertion)"
    "mulle_objc_cache_add_pointer_entry c v u =
       (if v = w then run_return (c, Some (slot_offset i)) else run_fault Assertion)"
    "mulle_objc_cache_add_functionpointer_inactive c (Some v) u = run_return (c, slot_offset i)"
    "mulle_objc_cache_add_pointer_inactive c (Some v) u = run_return (c, slot_offset i)"
proof -
  note sh = cache_shapeD [OF cache_inv_shape [OF assms(1)]]
  obtain i where i: "i < 2 ^ k"
      "cache_probe_loop (cache_entries c) (cache_mask c) u u = run_return (slot_offset i, cache_entries c ! i)"
      "entry_key (cache_entries c ! i) = u" "entry_value (cache_entries c ! i) = Some w"
    using probe_for_present [OF assms(1) sane_nonzero [OF assms(2)] assms(3)] by metis
  have at: "cache_entry_at (cache_entries c) (slot_offset i) = Inr (cache_entries c ! i)"
    using cache_entry_at_slot [OF i(1) sh(1,2)] .
  show ?thesis
    by (rule that [OF i(1)])
       (insert assms(2), auto simp: add_entry_defs i(2-4) at)
qed

section \<open>New caches, growth\<close>

lemma cache_entries_new [simp]:
  "cache_entries (mulle_objc_cache_init (cache_calloc sz) sz') = replicate (unat sz) cacheentry_zero"
  by (simp add: mulle_objc_cache_init_def cache_calloc_def)

lemma cache_lookup_new:
  "cache_lookup (mulle_objc_cache_init (cache_calloc sz) sz') q = None"
  by (auto simp: cache_lookup_def find_Some_iff cacheentry_zero_def split: option.splits)

lemma power_word32:
  assumes "k < 28"
  shows "unat (2 ^ k :: uint32) = 2 ^ k"
proof -
  have "unat (word_of_nat (2 ^ k) :: uint32) = 2 ^ k"
    using pow_k_bound [OF assms] by (subst unat_of_nat) simp
  then show ?thesis by simp
qed

lemma cache_new_inv:
  assumes "2 \<le> k" "k < 28"
  shows "mulle_objc_cache_new (2 ^ k) =
      run_return (mulle_objc_cache_init (cache_calloc (2 ^ k)) (2 ^ k) :: 'v mulle_objc_cache)"
    and "cache_inv k (mulle_objc_cache_init (cache_calloc (2 ^ k)) (2 ^ k) :: 'v mulle_objc_cache)"
    and "cache_used (cache_entries (mulle_objc_cache_init (cache_calloc (2 ^ k)) (2 ^ k) :: 'v mulle_objc_cache)) = 0"
proof -
  note un = power_word32 [OF assms(2)]
  have "(2::nat) ^ 2 \<le> 2 ^ k" using assms(1) by (intro power_increasing) auto
  then have "\<not> (2 ^ k :: uint32) < 4" using un by (simp add: word_less_nat_alt)
  moreover have "(2 ^ k :: uint32) AND (2 ^ k - 1) = 0"
    by (rule bit_word_eqI) (auto simp: bit_simps simp flip: mask_eq_exp_minus_1)
  ultimately show "mulle_objc_cache_new (2 ^ k) =
      run_return (mulle_objc_cache_init (cache_calloc (2 ^ k)) (2 ^ k) :: 'v mulle_objc_cache)"
    by (simp add: mulle_objc_cache_new_def c_defs Let_def)
  show "cache_used (cache_entries (mulle_objc_cache_init (cache_calloc (2 ^ k)) (2 ^ k) :: 'v mulle_objc_cache)) = 0"
    by (simp add: cache_used_def cacheentry_zero_def)
  then show "cache_inv k (mulle_objc_cache_init (cache_calloc (2 ^ k)) (2 ^ k) :: 'v mulle_objc_cache)"
    using assms un
    by (simp add: cache_inv_def cache_shape_def mulle_objc_cache_init_def cache_calloc_def
        cacheentry_zero_def cacheentry_sizeof_def preshift_def)
qed

lemma cache_grow:
  assumes "cache_inv k c" "Suc k < 28"
  shows "mulle_objc_cache_grow_with_strategy c MULLE_OBJC_CACHESIZE_GROW =
    run_return (mulle_objc_cache_init (cache_calloc (2 ^ Suc k)) (2 ^ Suc k))"
proof -
  have "cache_size c * 2 = 2 ^ Suc k"
    using cache_shapeD(5) [OF cache_inv_shape [OF assms(1)]] by (simp add: mult.commute)
  then show ?thesis
    using cache_new_inv(1) [of "Suc k"] cache_shapeD(4) [OF cache_inv_shape [OF assms(1)]] assms(2)
    by (simp add: mulle_objc_cache_grow_with_strategy_def mulle_objc_cache_get_resize_def)
qed

lemma unat_mult_small: "unat (x :: uint64) * unat y < 2 ^ 64 \<Longrightarrow> unat (x * y) = unat x * unat y"
  by (simp add: unat_word_ariths(2))

text \<open>When a fill rate of a cache with \<open>2 ^ k\<close> entries is reached.\<close>

definition fill_reached :: "nat \<Rightarrow> uint32 \<Rightarrow> nat \<Rightarrow> bool" where
  "fill_reached k fillrate used \<longleftrightarrow>
     (if fillrate = 0 then 2 ^ k \<le> used * 3 else 2 ^ k * unat fillrate \<le> used * 100)"

lemma should_grow_correct:
  assumes inv: "cache_inv k c" and rate: "fillrate \<le> 90"
  shows "mulle_objc_cache_should_grow c fillrate =
    run_return (fill_reached k fillrate (cache_used (cache_entries c)))"
proof -
  let ?u = "cache_used (cache_entries c)"
  note sh = cache_shapeD [OF cache_inv_shape [OF inv]]
  note b = pow_k_bound [OF sh(1)]
  have n: "unat (cache_n c) = ?u" using inv by (simp add: cache_inv_def)
  have u: "?u \<le> 2 ^ 27" using cache_used_le [of "cache_entries c"] sh(2) b by simp
  have sz: "unat (ucast (cache_size c) :: uint64) = 2 ^ k"
    using sh(1,5) by (simp add: power_word32 unsigned_ucast_eq take_bit_nat_eq_self)
  have fr: "unat fillrate \<le> 90" using rate by (simp add: word_le_nat_alt)
  then have fr': "unat (ucast fillrate :: uint64) = unat fillrate"
    by (simp add: unsigned_ucast_eq take_bit_nat_eq_self)
  have 3: "unat (cache_n c * 3) = ?u * 3" using n u by (subst unat_mult_small) simp_all
  have 100: "unat (cache_n c * 100) = ?u * 100" using n u by (subst unat_mult_small) simp_all
  have "2 ^ k * unat fillrate \<le> 2 ^ 27 * 90" using b fr by (rule mult_le_mono)
  then have szf: "unat (ucast (cache_size c) * ucast fillrate :: uint64) = 2 ^ k * unat fillrate"
    by (subst unat_mult_small) (simp_all add: sz fr')
  have "fillrate = 0 \<or> 1 \<le> fillrate" by (metis word_gt_0 less_eq_Suc_le unat_eq_zero word_le_nat_alt One_nat_def unat_1 neq0_conv)
  then show ?thesis
    using rate by (auto simp: mulle_objc_cache_should_grow_def fill_reached_def Let_def
        word_le_nat_alt 3 100 sz szf)
qed

lemma fill_room:
  assumes "\<not> fill_reached k fillrate used" "2 \<le> k" "fillrate \<le> 75"
  shows "Suc used < 2 ^ k"
proof -
  have "(2::nat) ^ 2 \<le> 2 ^ k" using assms(2) by (intro power_increasing) auto
  moreover have "used * 4 < 2 ^ k * 3"
  proof (cases "fillrate = 0")
    case True
    then show ?thesis using assms(1) by (simp add: fill_reached_def)
  next
    case False
    then have "\<not> 2 ^ k * unat fillrate \<le> used * 100" using assms(1) by (simp add: fill_reached_def)
    moreover have "2 ^ k * unat fillrate \<le> 2 ^ k * 75"
      using assms(3) by (intro mult_le_mono2) (simp add: word_le_nat_alt)
    ultimately show ?thesis by linarith
  qed
  ultimately show ?thesis by simp
qed

lemma fill_room_90:
  assumes "\<not> fill_reached k fillrate used" "fillrate \<le> 90"
  shows "used < 2 ^ k"
proof (cases "fillrate = 0")
  case True
  then show ?thesis using assms(1) by (simp add: fill_reached_def)
next
  case False
  then have "\<not> 2 ^ k * unat fillrate \<le> used * 100" using assms(1) by (simp add: fill_reached_def)
  moreover have "2 ^ k * unat fillrate \<le> 2 ^ k * 90"
    using assms(2) by (intro mult_le_mono2) (simp add: word_le_nat_alt)
  ultimately show ?thesis by linarith
qed

lemma fill_not_reached_empty: "\<not> fill_reached k fillrate 0"
  by (simp add: fill_reached_def unat_eq_zero)

section \<open>Filling through a pivot\<close>

definition pivot_ok :: "nat \<Rightarrow> 'v mulle_objc_cache cache_heap \<Rightarrow> nat \<Rightarrow> bool" where
  "pivot_ok k h a \<longleftrightarrow> a < length (heap_blocks h) \<and> a \<notin> set (heap_freed h) \<and>
     (\<forall>x\<in>set (heap_freed h). x < length (heap_blocks h)) \<and> cache_inv k (heap_blocks h ! a)"

lemma pivot_get: "pivot_ok k h a \<Longrightarrow> heap_get h a = run_return (heap_blocks h ! a)"
  by (simp add: pivot_ok_def heap_get_def)

lemma pivot_put:
  "pivot_ok k h a \<Longrightarrow> cache_inv k c \<Longrightarrow> pivot_ok k (heap_put h a c) a"
  "pivot_ok k h a \<Longrightarrow> heap_blocks (heap_put h a c) ! a = c"
  by (simp_all add: pivot_ok_def heap_put_def)

text \<open>The heap after the pivot at \<open>a\<close> moved to a new, empty cache of twice the size.\<close>

definition heap_grown :: "nat \<Rightarrow> 'v mulle_objc_cache cache_heap \<Rightarrow> nat \<Rightarrow> 'v mulle_objc_cache cache_heap" where
  "heap_grown k h a =
     h\<lparr> heap_blocks := heap_blocks h @ [mulle_objc_cache_init (cache_calloc (2 ^ Suc k)) (2 ^ Suc k)],
        heap_abafreed := a # heap_abafreed h \<rparr>"

lemma pivot_grown:
  assumes "pivot_ok k h a" "Suc k < 28"
  shows "pivot_ok (Suc k) (heap_grown k h a) (length (heap_blocks h))"
proof -
  have "2 \<le> Suc k" using assms(1) by (simp add: pivot_ok_def cache_inv_def cache_shape_def)
  from cache_new_inv(2) [OF this assms(2)] show ?thesis
    using assms(1) by (auto simp: pivot_ok_def heap_grown_def simp del: power_Suc)
qed

lemma fill_step_grow:
  assumes "pivot_ok k h a" "Suc k < 28" "fillrate \<le> 90"
    "fill_reached k fillrate (cache_used (cache_entries (heap_blocks h ! a)))"
  shows "mulle_objc_cachepivot_fill_functionpointer (Some a) h v u fillrate =
    mulle_objc_cachepivot_fill_functionpointer (Some (length (heap_blocks h))) (heap_grown k h a) v u fillrate"
proof -
  have inv: "cache_inv k (heap_blocks h ! a)" using assms(1) by (simp add: pivot_ok_def)
  have "a \<noteq> length (heap_blocks h)" using assms(1) by (simp add: pivot_ok_def)
  then have swap: "mulle_objc_cachepivot_swap (Some a) (fst (heap_alloc h c)) (length (heap_blocks h)) (Some a) =
      run_return (Some (length (heap_blocks h)), h\<lparr> heap_blocks := heap_blocks h @ [c], heap_abafreed := a # heap_abafreed h \<rparr>, 0)"
    for c
    by (simp add: mulle_objc_cachepivot_swap_def mulle_objc_cachepivot_cas_entries_def
        mulle_objc_cache_abafree_def heap_alloc_def)
  show ?thesis
    using swap
    by (subst mulle_objc_cachepivot_fill_functionpointer.simps)
       (simp add: pivot_get [OF assms(1)] should_grow_correct [OF inv assms(3)] assms(4)
         cache_grow [OF inv assms(2)] heap_alloc_def heap_grown_def del: power_Suc)
qed

lemma fill_step_add:
  assumes "pivot_ok k h a" "fillrate \<le> 90"
    "\<not> fill_reached k fillrate (cache_used (cache_entries (heap_blocks h ! a)))"
    "mulle_objc_cache_add_functionpointer_entry (heap_blocks h ! a) v u = run_return (c', Some off)"
  shows "mulle_objc_cachepivot_fill_functionpointer (Some a) h v u fillrate =
    run_return (Some a, heap_put h a c', a, off)"
proof -
  have inv: "cache_inv k (heap_blocks h ! a)" using assms(1) by (simp add: pivot_ok_def)
  show ?thesis
    by (subst mulle_objc_cachepivot_fill_functionpointer.simps)
       (simp add: pivot_get [OF assms(1)] should_grow_correct [OF inv assms(2)] assms(3,4) Let_def)
qed

lemma fill_without_growth:
  assumes ok: "pivot_ok k h a" and rate: "fillrate \<le> 75" and u: "mulle_objc_uniqueid_is_sane u"
    and old: "cache_lookup (heap_blocks h ! a) u \<in> {None, Some v}"
    and not: "\<not> fill_reached k fillrate (cache_used (cache_entries (heap_blocks h ! a)))"
  shows "\<exists>c' off. mulle_objc_cachepivot_fill_functionpointer (Some a) h v u fillrate =
      run_return (Some a, heap_put h a c', a, off) \<and> cache_inv k c' \<and>
      cache_used (cache_entries c') < 2 ^ k \<and>
      (\<forall>q. q \<noteq> 0 \<longrightarrow> cache_lookup c' q = (if q = u then Some v else cache_lookup (heap_blocks h ! a) q))"
proof -
  let ?c = "heap_blocks h ! a"
  have inv: "cache_inv k ?c" using ok by (simp add: pivot_ok_def)
  have rate90: "fillrate \<le> 90" using rate by (simp add: word_le_nat_alt)
  have room: "Suc (cache_used (cache_entries ?c)) < 2 ^ k"
    using fill_room [OF not] rate cache_shapeD(4) [OF cache_inv_shape [OF inv]] by simp
  show ?thesis
  proof (cases "cache_lookup ?c u")
    case None
    have "cache_used (cache_entries ?c) < 2 ^ k" using room by simp
    from add_absent [OF inv u None this]
    obtain i where i: "cache_inserted k ?c u v (cache_insert_at ?c i u v)"
      "mulle_objc_cache_add_functionpointer_entry ?c v u = run_return (cache_insert_at ?c i u v, Some (slot_offset i))"
      by metis
    then show ?thesis using fill_step_add [OF ok rate90 not i(2)] room
      by (auto simp: cache_inserted_def)
  next
    case (Some w)
    then have w: "w = v" using old by simp
    from add_present [OF inv u Some]
    obtain i where i: "mulle_objc_cache_add_functionpointer_entry ?c v u = run_return (?c, Some (slot_offset i))"
      using w by metis
    have "cache_used (cache_entries ?c) < 2 ^ k" using room by simp
    then show ?thesis using fill_step_add [OF ok rate90 not i] inv Some w by fastforce
  qed
qed

lemma probes_of_lookup:
  assumes "cache_inv k c" "cache_used (cache_entries c) < 2 ^ k"
    "\<forall>q. q \<noteq> 0 \<longrightarrow> cache_lookup c q = f q"
  shows "\<forall>q. mulle_objc_uniqueid_is_sane q \<longrightarrow>
    mulle_objc_cache_probe_functionpointer c q = run_return (f q)"
  using probe_functionpointer_correct [OF assms(1)] assms(2,3) sane_nonzero by metis

text \<open>C6: Filling the cache behind a pivot always returns, for any fill rate up to 75 percent: the
  pivot then points to a well-formed cache with a free entry that maps the id to the
  implementation; other ids keep their values if the cache was not replaced, and a replaced
  cache is retired to the deferred collection, never freed at once.\<close>

theorem fill_functionpointer_correct:
  assumes ok: "pivot_ok k h a" and k: "Suc k < 28" and rate: "fillrate \<le> 75"
    and u: "mulle_objc_uniqueid_is_sane u"
    and old: "cache_lookup (heap_blocks h ! a) u \<in> {None, Some v}"
  shows "\<exists>k' h' b off. mulle_objc_cachepivot_fill_functionpointer (Some a) h v u fillrate =
        run_return (Some b, h', b, off) \<and>
      pivot_ok k' h' b \<and> cache_used (cache_entries (heap_blocks h' ! b)) < 2 ^ k' \<and>
      (\<forall>q. mulle_objc_uniqueid_is_sane q \<longrightarrow>
         mulle_objc_cache_probe_functionpointer (heap_blocks h' ! b) q =
           run_return (if q = u then Some v
                       else if b = a then cache_lookup (heap_blocks h ! a) q else None)) \<and>
      heap_freed h' = heap_freed h \<and>
      heap_abafreed h' = (if b = a then [] else [a]) @ heap_abafreed h"
proof (cases "fill_reached k fillrate (cache_used (cache_entries (heap_blocks h ! a)))")
  case False
  from fill_without_growth [OF ok rate u old False] obtain c' off where c':
      "mulle_objc_cachepivot_fill_functionpointer (Some a) h v u fillrate = run_return (Some a, heap_put h a c', a, off)"
      "cache_inv k c'" "cache_used (cache_entries c') < 2 ^ k"
      "\<forall>q. q \<noteq> 0 \<longrightarrow> cache_lookup c' q = (if q = u then Some v else cache_lookup (heap_blocks h ! a) q)"
    by blast
  show ?thesis
    using c' probes_of_lookup [OF c'(2-4)] pivot_put [OF ok, of c']
    by (intro exI [of _ k] exI [of _ "heap_put h a c'"] exI [of _ a] exI [of _ off])
       (simp add: heap_put_def)
next
  case True
  let ?b = "length (heap_blocks h)" and ?g = "heap_grown k h a"
  have rate90: "fillrate \<le> 90" using rate by (simp add: word_le_nat_alt)
  have ok': "pivot_ok (Suc k) ?g ?b" using pivot_grown [OF ok k] .
  have ba: "?b \<noteq> a" using ok by (simp add: pivot_ok_def)
  have blk: "heap_blocks ?g ! ?b = mulle_objc_cache_init (cache_calloc (2 ^ Suc k)) (2 ^ Suc k)"
    by (simp add: heap_grown_def)
  have empty: "cache_lookup (heap_blocks ?g ! ?b) q = None" for q
    by (simp add: blk cache_lookup_new)
  have "cache_used (cache_entries (heap_blocks ?g ! ?b)) = 0"
    by (simp add: blk cache_used_def cacheentry_zero_def)
  then have not: "\<not> fill_reached (Suc k) fillrate (cache_used (cache_entries (heap_blocks ?g ! ?b)))"
    by (metis fill_not_reached_empty)
  from fill_without_growth [OF ok' rate u _ not, of v] obtain c' off where c':
      "mulle_objc_cachepivot_fill_functionpointer (Some ?b) ?g v u fillrate = run_return (Some ?b, heap_put ?g ?b c', ?b, off)"
      "cache_inv (Suc k) c'" "cache_used (cache_entries c') < 2 ^ Suc k"
      "\<forall>q. q \<noteq> 0 \<longrightarrow> cache_lookup c' q = (if q = u then Some v else None)"
    using empty by auto
  show ?thesis
    using c' probes_of_lookup [OF c'(2-4)] pivot_put [OF ok', of c'] fill_step_grow [OF ok k rate90 True] ba
    by (intro exI [of _ "Suc k"] exI [of _ "heap_put ?g ?b c'"] exI [of _ ?b] exI [of _ off])
       (simp add: heap_put_def heap_grown_def)
qed

text \<open>A fresh pivot: one empty cache of four entries, nothing freed.\<close>

definition pivot_fresh :: "nat \<Rightarrow> 'v mulle_objc_cache cache_heap" where
  "pivot_fresh k = \<lparr> heap_blocks = [mulle_objc_cache_init (cache_calloc (2 ^ k)) (2 ^ k)],
     heap_freed = [], heap_abafreed = [] \<rparr>"

lemma pivot_fresh_ok: "2 \<le> k \<Longrightarrow> k < 28 \<Longrightarrow> pivot_ok k (pivot_fresh k) 0"
  by (simp add: pivot_ok_def pivot_fresh_def cache_new_inv)

lemma pivot_fresh_lookup [simp]: "cache_lookup (heap_blocks (pivot_fresh k) ! 0) q = None"
  by (simp add: pivot_fresh_def cache_lookup_new)

lemma fill_functionpointer_correct_witness:
  "\<exists>k' h' b off. mulle_objc_cachepivot_fill_functionpointer (Some 0) (pivot_fresh 2) (7 :: nat) 0x12340 0 =
        run_return (Some b, h', b, off) \<and>
      pivot_ok k' h' b \<and> cache_used (cache_entries (heap_blocks h' ! b)) < 2 ^ k' \<and>
      mulle_objc_cache_probe_functionpointer (heap_blocks h' ! b) 0x12340 = run_return (Some 7)"
proof -
  have "mulle_objc_uniqueid_is_sane 0x12340" by (simp add: mulle_objc_uniqueid_is_sane_def c_defs)
  with fill_functionpointer_correct [of 2 "pivot_fresh 2" 0 0 "0x12340" "7 :: nat"] pivot_fresh_ok [of 2]
  show ?thesis by (simp only: pivot_fresh_lookup) fastforce
qed

text \<open>C28: A probe returns exactly when the cache has an entry with the id or a free entry:
  on a full cache, probing for an id it does not hold never ends.\<close>

theorem cache_probe_returns_iff:
  assumes "cache_shape k c" "mulle_objc_uniqueid_is_sane u"
  shows "mulle_objc_cache_probe_functionpointer c u \<noteq> None \<longleftrightarrow>
    (\<exists>e\<in>set (cache_entries c). entry_key e = u \<or> entry_value e = None)"
proof -
  note sh = cache_shapeD [OF assms(1)]
  have "mulle_objc_cache_probe_functionpointer c u \<noteq> None \<longleftrightarrow>
      cache_probe_loop (cache_entries c) (preshift k) u u \<noteq> None"
    using assms(2) sh(3)
    by (auto simp: mulle_objc_cache_probe_functionpointer_def run_bind_def split: option.splits sum.splits)
  then show ?thesis using probe_loop_returns_iff [OF sh(1,2), of u u] by (simp add: entry_stops_def)
qed

lemma cache_probe_returns_iff_witness:
  "mulle_objc_cache_probe_functionpointer
     (mulle_objc_cache_init (cache_calloc 4) 4 :: nat mulle_objc_cache) 0x12340 \<noteq> None"
proof -
  have "cache_shape 2 (mulle_objc_cache_init (cache_calloc 4) 4 :: nat mulle_objc_cache)"
    using cache_inv_shape [OF cache_new_inv(2) [of 2]] by simp
  moreover have "mulle_objc_uniqueid_is_sane 0x12340" by (simp add: mulle_objc_uniqueid_is_sane_def c_defs)
  ultimately show ?thesis
    using cache_probe_returns_iff [of 2 "mulle_objc_cache_init (cache_calloc 4) 4 :: nat mulle_objc_cache" "0x12340"]
    by (simp add: cacheentry_zero_def)
qed

lemma probe_diverges:
  assumes "cache_shape k c" "mulle_objc_uniqueid_is_sane q"
    "\<forall>e\<in>set (cache_entries c). entry_key e \<noteq> q \<and> entry_value e \<noteq> None"
  shows "mulle_objc_cache_probe_functionpointer c q = None"
proof -
  note sh = cache_shapeD [OF assms(1)]
  have "cache_probe_loop (cache_entries c) (preshift k) q q = None"
    using probe_loop_returns_iff [OF sh(1,2), of q q] assms(3) by (auto simp: entry_stops_def)
  then show ?thesis using assms(2) sh(3) by (simp add: mulle_objc_cache_probe_functionpointer_def)
qed

lemma all_less_4: "(\<forall>i<4. P i) \<longleftrightarrow> P 0 \<and> P 1 \<and> P 2 \<and> P (3 :: nat)"
  by (auto simp: numeral_eq_Suc less_Suc_eq)

text \<open>C29: A fill rate above 75 percent, which the assertion in should_grow admits, lets the
  fourth entry into a cache of four: no free entry is left, and every later lookup of an id
  that is not in the cache spins forever.\<close>

theorem fillrate_above_75_lookups_hang:
  assumes ok: "pivot_ok 2 h a" and rate: "76 \<le> fillrate" "fillrate \<le> 90"
    and three: "cache_used (cache_entries (heap_blocks h ! a)) = 3"
    and u: "mulle_objc_uniqueid_is_sane u" "cache_lookup (heap_blocks h ! a) u = None"
  shows "\<exists>h' off. mulle_objc_cachepivot_fill_functionpointer (Some a) h v u fillrate =
        run_return (Some a, h', a, off) \<and>
      (\<forall>q. mulle_objc_uniqueid_is_sane q \<longrightarrow> q \<noteq> u \<longrightarrow> cache_lookup (heap_blocks h ! a) q = None \<longrightarrow>
         mulle_objc_cache_probe_functionpointer (heap_blocks h' ! a) q = None)"
proof -
  let ?c = "heap_blocks h ! a"
  have inv: "cache_inv 2 ?c" using ok by (simp add: pivot_ok_def)
  have not: "\<not> fill_reached 2 fillrate (cache_used (cache_entries ?c))"
    using rate three by (auto simp: fill_reached_def word_le_nat_alt)
  obtain i where i: "cache_inserted 2 ?c u v (cache_insert_at ?c i u v)"
      "mulle_objc_cache_add_functionpointer_entry ?c v u = run_return (cache_insert_at ?c i u v, Some (slot_offset i))"
  proof -
    have "cache_used (cache_entries ?c) < 2 ^ 2" using three by simp
    from add_absent [OF inv u this] that show thesis by metis
  qed
  let ?c' = "cache_insert_at ?c i u v"
  have inv': "cache_inv 2 ?c'" and full: "cache_used (cache_entries ?c') = 4"
    and look: "\<And>q. q \<noteq> 0 \<Longrightarrow> cache_lookup ?c' q = (if q = u then Some v else cache_lookup ?c q)"
    using i(1) three by (auto simp: cache_inserted_def)
  note sh' = cache_inv_shape [OF inv']
  have nofree: "entry_value e \<noteq> None" if "e \<in> set (cache_entries ?c')" for e
    using full cache_shapeD(2) [OF sh'] that
    using length_filter_less [of e "cache_entries ?c'" "\<lambda>e. entry_value e \<noteq> None"]
    by (auto simp: cache_used_def)
  have "mulle_objc_cache_probe_functionpointer ?c' q = None"
    if q: "mulle_objc_uniqueid_is_sane q" "q \<noteq> u" "cache_lookup ?c q = None" for q
  proof -
    have "cache_lookup ?c' q = None" using look [OF sane_nonzero [OF q(1)]] q by simp
    then have "\<forall>e\<in>set (cache_entries ?c'). entry_key e \<noteq> q"
      using cache_lookup_Some_iff [OF inv' sane_nonzero [OF q(1)]] cache_shapeD(2) [OF sh']
      by (auto simp: in_set_conv_nth)
    then show ?thesis using probe_diverges [OF sh' q(1)] nofree by blast
  qed
  then show ?thesis
    using fill_step_add [OF ok rate(2) not i(2)] pivot_put(2) [OF ok, of ?c'] by auto
qed

definition cache_with_three :: "nat mulle_objc_cache cache_heap" where
  "cache_with_three = \<lparr> heap_blocks = [\<lparr> cache_n = 3, cache_size = 4, cache_mask = 0x30,
     cache_entries = [cacheentry_zero, \<lparr> entry_key = 0x10, entry_value = Some 1 \<rparr>,
       \<lparr> entry_key = 0x20, entry_value = Some 2 \<rparr>, \<lparr> entry_key = 0x30, entry_value = Some 3 \<rparr>] \<rparr>],
     heap_freed = [], heap_abafreed = [] \<rparr>"

lemma fillrate_above_75_lookups_hang_witness:
  "\<exists>h' off. mulle_objc_cachepivot_fill_functionpointer (Some 0) cache_with_three 9 0x40 90 =
        run_return (Some 0, h', 0, off) \<and>
      mulle_objc_cache_probe_functionpointer (heap_blocks h' ! 0) 0x50 = None"
proof -
  have "pivot_ok 2 cache_with_three 0"
    by (simp add: pivot_ok_def cache_with_three_def cache_inv_def cache_shape_def preshift_def
        all_less_4 cache_reachable_def cache_slot_def slot_dist_def cache_used_def cacheentry_zero_def)
  moreover have "cache_used (cache_entries (heap_blocks cache_with_three ! 0)) = 3" by code_simp
  moreover have "mulle_objc_uniqueid_is_sane 0x40" "mulle_objc_uniqueid_is_sane 0x50"
    by code_simp+
  moreover have "cache_lookup (heap_blocks cache_with_three ! 0) 0x40 = None"
    "cache_lookup (heap_blocks cache_with_three ! 0) 0x50 = None"
    by code_simp+
  ultimately show ?thesis
    using fillrate_above_75_lookups_hang [of cache_with_three 0 90 "0x40" 9] by fastforce
qed

section \<open>The contract of an inactive cache\<close>

text \<open>
  What the code relies on when it fills a cache nobody sees yet: a probe returns, an add
  keeps the invariant and uses at most one free entry, and the first value of an id stays.
\<close>

fun cache_add_all :: "('c \<Rightarrow> 'v \<Rightarrow> uint32 \<Rightarrow> 'c c_run) \<Rightarrow> 'c \<Rightarrow> (uint32 \<times> 'v) list \<Rightarrow> 'c c_run" where
  "cache_add_all add c [] = run_return c"
| "cache_add_all add c ((u, v) # kvs) = run_bind (add c v u) (\<lambda>c'. cache_add_all add c' kvs)"

locale first_wins_cache =
  fixes inv :: "'c \<Rightarrow> bool"
    and room :: "'c \<Rightarrow> nat"
    and add :: "'c \<Rightarrow> 'v \<Rightarrow> uint32 \<Rightarrow> 'c c_run"
    and probe :: "'c \<Rightarrow> uint32 \<Rightarrow> 'v option c_run"
  assumes probe_total:
      "inv c \<Longrightarrow> 0 < room c \<Longrightarrow> mulle_objc_uniqueid_is_sane q \<Longrightarrow> \<exists>r. probe c q = run_return r"
    and add_total:
      "inv c \<Longrightarrow> 1 < room c \<Longrightarrow> mulle_objc_uniqueid_is_sane u \<Longrightarrow>
       \<exists>c'. add c v u = run_return c' \<and> inv c' \<and> room c \<le> Suc (room c') \<and>
         (\<forall>q. mulle_objc_uniqueid_is_sane q \<longrightarrow>
            probe c' q = (if q = u \<and> probe c u = run_return None then run_return (Some v) else probe c q))"
begin

lemma add_all_first_wins:
  assumes "inv c" "length kvs < room c" "\<forall>u\<in>fst ` set kvs. mulle_objc_uniqueid_is_sane u"
  shows "\<exists>c'. cache_add_all add c kvs = run_return c' \<and> inv c' \<and>
    (\<forall>q. mulle_objc_uniqueid_is_sane q \<longrightarrow>
       probe c' q = (if probe c q = run_return None then run_return (map_of kvs q) else probe c q))"
  using assms
proof (induction kvs arbitrary: c)
  case Nil
  then show ?case by simp
next
  case (Cons kv kvs)
  obtain u v where kv: "kv = (u, v)" by (cases kv)
  have u: "mulle_objc_uniqueid_is_sane u" using Cons.prems(3) kv by simp
  have "1 < room c" using Cons.prems(2) by simp
  from add_total [OF Cons.prems(1) this u, of v] obtain c1 where c1: "add c v u = run_return c1" "inv c1"
      "room c \<le> Suc (room c1)"
      "\<And>q. mulle_objc_uniqueid_is_sane q \<Longrightarrow>
         probe c1 q = (if q = u \<and> probe c u = run_return None then run_return (Some v) else probe c q)"
    by blast
  have "length kvs < room c1" using Cons.prems(2) c1(3) by simp
  from Cons.IH [OF c1(2) this] Cons.prems(3) obtain c' where c': "cache_add_all add c1 kvs = run_return c'"
      "inv c'" "\<And>q. mulle_objc_uniqueid_is_sane q \<Longrightarrow>
         probe c' q = (if probe c1 q = run_return None then run_return (map_of kvs q) else probe c1 q)"
    by auto
  have "probe c' q = (if probe c q = run_return None then run_return (map_of (kv # kvs) q) else probe c q)"
    if "mulle_objc_uniqueid_is_sane q" for q
    using c'(3) [OF that] c1(4) [OF that] kv by (auto split: if_splits)
  then show ?case using kv c1(1) c'(1,2) by auto
qed

end

definition add_functionpointer_inactive ::
    "'v mulle_objc_cache \<Rightarrow> 'v \<Rightarrow> uint32 \<Rightarrow> 'v mulle_objc_cache c_run" where
  "add_functionpointer_inactive c v u =
     run_bind (mulle_objc_cache_add_functionpointer_inactive c (Some v) u) (\<lambda>(c', offset). run_return c')"

definition add_pointer_inactive ::
    "'v mulle_objc_cache \<Rightarrow> 'v \<Rightarrow> uint32 \<Rightarrow> 'v mulle_objc_cache c_run" where
  "add_pointer_inactive c v u =
     run_bind (mulle_objc_cache_add_pointer_inactive c (Some v) u) (\<lambda>(c', offset). run_return c')"

definition cache_room :: "nat \<Rightarrow> 'v mulle_objc_cache \<Rightarrow> nat" where
  "cache_room k c = 2 ^ k - cache_used (cache_entries c)"

lemma inactive_probe_total:
  "cache_inv k c \<Longrightarrow> 0 < cache_room k c \<Longrightarrow> mulle_objc_uniqueid_is_sane q \<Longrightarrow>
   mulle_objc_cache_probe_functionpointer c q = run_return (cache_lookup c q)"
  by (rule probe_functionpointer_correct) (auto simp: cache_room_def)

lemma inactive_add_total:
  assumes inv: "cache_inv k c" and room: "1 < cache_room k c" and u: "mulle_objc_uniqueid_is_sane u"
  shows "\<exists>c'. add_functionpointer_inactive c v u = run_return c' \<and> add_pointer_inactive c v u = run_return c' \<and>
     cache_inv k c' \<and> cache_room k c \<le> Suc (cache_room k c') \<and>
     (\<forall>q. mulle_objc_uniqueid_is_sane q \<longrightarrow>
        mulle_objc_cache_probe_functionpointer c' q =
          (if q = u \<and> mulle_objc_cache_probe_functionpointer c u = run_return None
           then run_return (Some v) else mulle_objc_cache_probe_functionpointer c q))"
proof (cases "cache_lookup c u")
  case None
  have used: "cache_used (cache_entries c) < 2 ^ k" using room by (simp add: cache_room_def)
  obtain c' off where c': "cache_inserted k c u v c'"
      "mulle_objc_cache_add_functionpointer_inactive c (Some v) u = run_return (c', off)"
      "mulle_objc_cache_add_pointer_inactive c (Some v) u = run_return (c', off)"
    using add_absent [OF inv u None used] by metis
  have inv': "cache_inv k c'" and room': "cache_room k c = Suc (cache_room k c')" "0 < cache_room k c'"
    using c'(1) room by (auto simp: cache_inserted_def cache_room_def)
  show ?thesis
    using c' inv' room' None inactive_probe_total [OF inv' room'(2)] inactive_probe_total [OF inv]
      room u sane_nonzero
    by (auto simp: add_functionpointer_inactive_def add_pointer_inactive_def cache_inserted_def)
next
  case (Some w)
  obtain off where "mulle_objc_cache_add_functionpointer_inactive c (Some v) u = run_return (c, off)"
      "mulle_objc_cache_add_pointer_inactive c (Some v) u = run_return (c, off)"
    using add_present [OF inv u Some] by metis
  then show ?thesis using inv Some inactive_probe_total [OF inv _ u] room
    by (auto simp: add_functionpointer_inactive_def add_pointer_inactive_def)
qed

interpretation fp: first_wins_cache "cache_inv k" "cache_room k" add_functionpointer_inactive
    mulle_objc_cache_probe_functionpointer for k
proof unfold_locales
  fix c :: "'b mulle_objc_cache" and v u
  assume "cache_inv k c" "1 < cache_room k c" "mulle_objc_uniqueid_is_sane u"
  from inactive_add_total [OF this, of v]
  show "\<exists>c'. add_functionpointer_inactive c v u = run_return c' \<and> cache_inv k c' \<and>
      cache_room k c \<le> Suc (cache_room k c') \<and>
      (\<forall>q. mulle_objc_uniqueid_is_sane q \<longrightarrow> mulle_objc_cache_probe_functionpointer c' q =
         (if q = u \<and> mulle_objc_cache_probe_functionpointer c u = run_return None
          then run_return (Some v) else mulle_objc_cache_probe_functionpointer c q))" by blast
qed (use inactive_probe_total in blast)

interpretation pp: first_wins_cache "cache_inv k" "cache_room k" add_pointer_inactive
    mulle_objc_cache_probe_pointer for k
proof unfold_locales
  fix c :: "'b mulle_objc_cache" and v u
  assume "cache_inv k c" "1 < cache_room k c" "mulle_objc_uniqueid_is_sane u"
  from inactive_add_total [OF this, of v]
  show "\<exists>c'. add_pointer_inactive c v u = run_return c' \<and> cache_inv k c' \<and>
      cache_room k c \<le> Suc (cache_room k c') \<and>
      (\<forall>q. mulle_objc_uniqueid_is_sane q \<longrightarrow> mulle_objc_cache_probe_pointer c' q =
         (if q = u \<and> mulle_objc_cache_probe_pointer c u = run_return None
          then run_return (Some v) else mulle_objc_cache_probe_pointer c q))"
    unfolding probe_pointer_eq by blast
qed (use inactive_probe_total in \<open>unfold probe_pointer_eq, blast\<close>)

text \<open>C30: Adding a list of methods to an empty inactive cache that is large enough makes a probe
  find, for every id, the first method of the list with that id (overrides come first), and
  NULL for the others.\<close>

theorem inactive_cache_first_wins:
  fixes kvs :: "(uint32 \<times> 'v) list"
  assumes "2 \<le> k" "k < 28" "length kvs < 2 ^ k" "\<forall>u\<in>fst ` set kvs. mulle_objc_uniqueid_is_sane u"
  shows "\<exists>new c. mulle_objc_cache_new (2 ^ k) = run_return new \<and>
     cache_add_all add_functionpointer_inactive new kvs = run_return c \<and>
     (\<forall>q. mulle_objc_uniqueid_is_sane q \<longrightarrow>
        mulle_objc_cache_probe_functionpointer c q = run_return (map_of kvs q))"
proof -
  let ?new = "mulle_objc_cache_init (cache_calloc (2 ^ k)) (2 ^ k) :: 'v mulle_objc_cache"
  note new = cache_new_inv [OF assms(1,2)]
  have room: "length kvs < cache_room k ?new" using assms(3) by (simp only: cache_room_def new(3) minus_nat.diff_0)
  then have "0 < cache_room k ?new" by linarith
  then have "mulle_objc_cache_probe_functionpointer ?new q = run_return None"
    if "mulle_objc_uniqueid_is_sane q" for q
    using inactive_probe_total [OF new(2) _ that] by (simp add: cache_lookup_new)
  then show ?thesis using fp.add_all_first_wins [OF new(2) room assms(4)] new(1) by auto
qed

lemma inactive_cache_first_wins_witness:
  "\<exists>new c. mulle_objc_cache_new 4 = run_return new \<and>
     cache_add_all add_functionpointer_inactive new [(0x40, 1 :: nat), (0x80, 2), (0x40, 3)] = run_return c \<and>
     mulle_objc_cache_probe_functionpointer c 0x40 = run_return (Some 1)"
proof -
  have "mulle_objc_uniqueid_is_sane 0x40" "mulle_objc_uniqueid_is_sane 0x80" by code_simp+
  with inactive_cache_first_wins [of 2 "[(0x40, 1 :: nat), (0x80, 2), (0x40, 3)]"] show ?thesis by auto
qed

end
