(* ===== verification/Cache_Concurrent.thy ===== *)
theory Cache_Concurrent
  imports Cache_Correct
begin

text \<open>
  Races on an active cache (\<open>_mulle_objc_cache_add_functionpointer_entry\<close>,
  \<open>_mulle_objc_cache_add_pointer_entry\<close> and the probes of \<open>mulle-objc-cache.h\<close>): any number
  of threads add and look up at once, and every read, compare-and-swap, increment and write
  of shared memory is one atomic step. The implementation of an id is the same for all
  threads that add it, as the assertion of the code demands; it is the parameter
  \<open>imp_of\<close>. The flag of a lookup records whether its id had been published when it began.
\<close>

section \<open>Threads\<close>

datatype cache_op = Op_Add uint32 | Op_Lookup uint32 bool

fun op_key :: "cache_op \<Rightarrow> uint32" where
  "op_key (Op_Add u) = u"
| "op_key (Op_Lookup u b) = u"

datatype 'v cache_pc =
    Idle
  | Probe_Key cache_op uint32
  | Probe_Value cache_op uint32
  | Read_Value uint32 bool uint32
  | Claim uint32 uint32
  | Conflict uint32 uint32
  | Count uint32 uint32
  | Publish uint32 uint32
  | Added uint32 "uint32 option"
  | Found uint32 bool "'v option"
  | Fault c_fault

text \<open>What a probe does at the slot where it stops: an add claims it, a lookup reads the value or gives up.\<close>

fun probe_match :: "cache_op \<Rightarrow> uint32 \<Rightarrow> 'v cache_pc" where
  "probe_match (Op_Add u) offset = Claim u offset"
| "probe_match (Op_Lookup u b) offset = Read_Value u b offset"

fun probe_empty :: "cache_op \<Rightarrow> uint32 \<Rightarrow> 'v cache_pc" where
  "probe_empty (Op_Add u) offset = Claim u offset"
| "probe_empty (Op_Lookup u b) offset = Found u b None"

definition with_entry ::
    "'v mulle_objc_cache \<Rightarrow> uint32 \<Rightarrow>
     ('v mulle_objc_cacheentry \<Rightarrow> 'v mulle_objc_cache \<times> 'v cache_pc) \<Rightarrow> 'v mulle_objc_cache \<times> 'v cache_pc" where
  "with_entry c offset f =
     (case cache_entry_at (cache_entries c) offset of Inl e \<Rightarrow> (c, Fault e) | Inr entry \<Rightarrow> f entry)"

fun cache_thread_step ::
    "(uint32 \<Rightarrow> 'v) \<Rightarrow> 'v mulle_objc_cache \<Rightarrow> 'v cache_pc \<Rightarrow> ('v mulle_objc_cache \<times> 'v cache_pc) option" where
  "cache_thread_step imp_of c (Probe_Key op off) =
     (let offset = off AND cache_mask c in
      Some (with_entry c offset (\<lambda>entry.
        if entry_key entry = op_key op then (c, probe_match op offset)
        else (c, Probe_Value op offset))))"
| "cache_thread_step imp_of c (Probe_Value op offset) =
     Some (with_entry c offset (\<lambda>entry.
        if entry_value entry = None then (c, probe_empty op offset)
        else (c, Probe_Key op (offset + cacheentry_sizeof))))"
| "cache_thread_step imp_of c (Read_Value u b offset) =
     Some (with_entry c offset (\<lambda>entry. (c, Found u b (entry_value entry))))"
| "cache_thread_step imp_of c (Claim u offset) =
     Some (with_entry c offset (\<lambda>entry.
        if entry_value entry = None
        then (cache_write_entry c offset (entry\<lparr> entry_value := Some (imp_of u) \<rparr>), Count u offset)
        else (c, Conflict u offset)))"
| "cache_thread_step imp_of c (Conflict u offset) =
     Some (with_entry c offset (\<lambda>entry.
        if entry_key entry = u
        then (c, if entry_value entry = Some (imp_of u) then Added u (Some offset) else Fault Assertion)
        else (c, Added u None)))"
| "cache_thread_step imp_of c (Count u offset) =
     Some (c\<lparr> cache_n := cache_n c + 1 \<rparr>, Publish u offset)"
| "cache_thread_step imp_of c (Publish u offset) =
     Some (with_entry c offset (\<lambda>entry.
        if entry_key entry \<noteq> 0 then (c, Fault Assertion)
        else (cache_write_entry c offset (entry\<lparr> entry_key := u \<rparr>), Added u (Some offset))))"
| "cache_thread_step imp_of c Idle = None"
| "cache_thread_step imp_of c (Added u r) = None"
| "cache_thread_step imp_of c (Found u b r) = None"
| "cache_thread_step imp_of c (Fault e) = None"

fun pc_finished :: "'v cache_pc \<Rightarrow> bool" where
  "pc_finished Idle = True"
| "pc_finished (Added u r) = True"
| "pc_finished (Found u b r) = True"
| "pc_finished pc = False"

definition cache_publishes :: "'v mulle_objc_cache \<Rightarrow> uint32 \<Rightarrow> bool" where
  "cache_publishes c u \<longleftrightarrow> (\<exists>e\<in>set (cache_entries c). entry_key e = u)"

type_synonym 'v cache_system = "'v mulle_objc_cache \<times> 'v cache_pc list"

inductive cache_step :: "(uint32 \<Rightarrow> 'v) \<Rightarrow> 'v cache_system \<Rightarrow> 'v cache_system \<Rightarrow> bool"
  for imp_of where
  begin_add: "t < length P \<Longrightarrow> pc_finished (P ! t) \<Longrightarrow> mulle_objc_uniqueid_is_sane u \<Longrightarrow>
     cache_step imp_of (c, P) (c, P[t := Probe_Key (Op_Add u) u])"
| begin_lookup: "t < length P \<Longrightarrow> pc_finished (P ! t) \<Longrightarrow> mulle_objc_uniqueid_is_sane u \<Longrightarrow>
     cache_step imp_of (c, P) (c, P[t := Probe_Key (Op_Lookup u (cache_publishes c u)) u])"
| advance: "t < length P \<Longrightarrow> cache_thread_step imp_of c (P ! t) = Some (c', pc') \<Longrightarrow>
     cache_step imp_of (c, P) (c', P[t := pc'])"

inductive cache_reaches :: "(uint32 \<Rightarrow> 'v) \<Rightarrow> nat \<Rightarrow> nat \<Rightarrow> 'v cache_system \<Rightarrow> bool"
  for imp_of k threads where
  initial: "cache_reaches imp_of k threads
     (mulle_objc_cache_init (cache_calloc (2 ^ k)) (2 ^ k), replicate threads Idle)"
| step: "cache_reaches imp_of k threads s \<Longrightarrow> cache_step imp_of s s' \<Longrightarrow> cache_reaches imp_of k threads s'"

inductive_cases cache_stepE: "cache_step imp_of s s'"

section \<open>The invariant\<close>

definition occupied_path :: "nat \<Rightarrow> 'v mulle_objc_cacheentry list \<Rightarrow> uint32 \<Rightarrow> nat \<Rightarrow> bool" where
  "occupied_path k es u s \<longleftrightarrow>
     (\<forall>j < slot_dist k (cache_slot k u) s. entry_value (es ! ((cache_slot k u + j) mod 2 ^ k)) \<noteq> None)"

text \<open>A lookup that began after its id was published is not yet past an entry with the id.\<close>

definition still_ahead :: "nat \<Rightarrow> 'v mulle_objc_cacheentry list \<Rightarrow> uint32 \<Rightarrow> nat \<Rightarrow> bool" where
  "still_ahead k es u s \<longleftrightarrow>
     (\<exists>i<2 ^ k. entry_key (es ! i) = u \<and>
        slot_dist k (cache_slot k u) s \<le> slot_dist k (cache_slot k u) i)"

fun op_ahead :: "nat \<Rightarrow> 'v mulle_objc_cacheentry list \<Rightarrow> cache_op \<Rightarrow> nat \<Rightarrow> bool" where
  "op_ahead k es (Op_Add u) s = True"
| "op_ahead k es (Op_Lookup u b) s = (b \<longrightarrow> still_ahead k es u s)"

definition at_slot :: "nat \<Rightarrow> uint32 \<Rightarrow> (nat \<Rightarrow> bool) \<Rightarrow> bool" where
  "at_slot k offset Q \<longleftrightarrow> (\<exists>s<2 ^ k. offset = slot_offset s \<and> Q s)"

fun pc_ok :: "(uint32 \<Rightarrow> 'v) \<Rightarrow> nat \<Rightarrow> 'v mulle_objc_cacheentry list \<Rightarrow> 'v cache_pc \<Rightarrow> bool" where
  "pc_ok imp_of k es (Probe_Key op off) =
     (op_key op \<noteq> 0 \<and> occupied_path k es (op_key op) (cache_slot k off) \<and> op_ahead k es op (cache_slot k off))"
| "pc_ok imp_of k es (Probe_Value op offset) =
     (op_key op \<noteq> 0 \<and> at_slot k offset (\<lambda>s. occupied_path k es (op_key op) s \<and>
        op_ahead k es op s \<and>
        (\<forall>u. op = Op_Lookup u True \<longrightarrow> entry_value (es ! s) \<noteq> None \<and> 
            still_ahead k es u ((Suc s) mod 2 ^ k))))"
| "pc_ok imp_of k es (Read_Value u b offset) = at_slot k offset (\<lambda>s. entry_key (es ! s) = u \<and> u \<noteq> 0)"
| "pc_ok imp_of k es (Claim u offset) = (u \<noteq> 0 \<and> at_slot k offset (occupied_path k es u))"
| "pc_ok imp_of k es (Conflict u offset) = (u \<noteq> 0 \<and> at_slot k offset (\<lambda>s. True))"
| "pc_ok imp_of k es (Count u offset) = (u \<noteq> 0 \<and> at_slot k offset (\<lambda>s.
     occupied_path k es u s \<and> entry_key (es ! s) = 0 \<and> entry_value (es ! s) = Some (imp_of u)))"
| "pc_ok imp_of k es (Publish u offset) = (u \<noteq> 0 \<and> at_slot k offset (\<lambda>s.
     occupied_path k es u s \<and> entry_key (es ! s) = 0 \<and> entry_value (es ! s) = Some (imp_of u)))"
| "pc_ok imp_of k es (Found u b r) = (r = Some (imp_of u) \<or> (\<not> b \<and> r = None))"
| "pc_ok imp_of k es (Fault e) = False"
| "pc_ok imp_of k es Idle = True"
| "pc_ok imp_of k es (Added u r) = True"

fun pc_owns :: "'v cache_pc \<Rightarrow> uint32 option" where
  "pc_owns (Count u offset) = Some offset"
| "pc_owns (Publish u offset) = Some offset"
| "pc_owns pc = None"

fun pc_uncounted :: "'v cache_pc \<Rightarrow> bool" where
  "pc_uncounted (Count u offset) = True"
| "pc_uncounted pc = False"

definition cache_system_inv :: "(uint32 \<Rightarrow> 'v) \<Rightarrow> nat \<Rightarrow> 'v cache_system \<Rightarrow> bool" where
  "cache_system_inv imp_of k s \<longleftrightarrow> (case s of (c, P) \<Rightarrow>
     cache_shape k c \<and>
     (\<forall>i<2 ^ k. entry_key (cache_entries c ! i) \<noteq> 0 \<longrightarrow>
        entry_value (cache_entries c ! i) = Some (imp_of (entry_key (cache_entries c ! i))) \<and>
        occupied_path k (cache_entries c) (entry_key (cache_entries c ! i)) i) \<and>
     (\<forall>pc\<in>set P. pc_ok imp_of k (cache_entries c) pc) \<and>
     (\<forall>t<length P. \<forall>t'<length P. pc_owns (P ! t) \<noteq> None \<longrightarrow> pc_owns (P ! t) = pc_owns (P ! t') \<longrightarrow> t = t') \<and>
     (\<forall>i<2 ^ k. entry_key (cache_entries c ! i) = 0 \<longrightarrow> entry_value (cache_entries c ! i) \<noteq> None \<longrightarrow>
        (\<exists>t<length P. pc_owns (P ! t) = Some (slot_offset i))) \<and>
     unat (cache_n c) + length (filter pc_uncounted P) = cache_used (cache_entries c))"

section \<open>Stability\<close>

definition entries_extend :: "nat \<Rightarrow> 'v mulle_objc_cacheentry list \<Rightarrow> 'v mulle_objc_cacheentry list \<Rightarrow> bool" where
  "entries_extend k es es' \<longleftrightarrow> (\<forall>i<2 ^ k.
     (entry_key (es ! i) \<noteq> 0 \<longrightarrow> entry_key (es' ! i) = entry_key (es ! i)) \<and>
     (entry_value (es ! i) \<noteq> None \<longrightarrow> entry_value (es' ! i) = entry_value (es ! i)))"

lemma occupied_path_extend:
  "entries_extend k es es' \<Longrightarrow> occupied_path k es u s \<Longrightarrow> occupied_path k es' u s"
  by (simp add: entries_extend_def occupied_path_def)

lemma still_ahead_extend:
  "entries_extend k es es' \<Longrightarrow> u \<noteq> 0 \<Longrightarrow> still_ahead k es u s \<Longrightarrow> still_ahead k es' u s"
  unfolding entries_extend_def still_ahead_def by metis

lemma op_ahead_extend:
  "entries_extend k es es' \<Longrightarrow> op_key op \<noteq> 0 \<Longrightarrow> op_ahead k es op s \<Longrightarrow> op_ahead k es' op s"
  by (cases op) (auto intro: still_ahead_extend)

lemma at_slot_mono:
  "at_slot k off Q \<Longrightarrow> (\<And>s. s < 2 ^ k \<Longrightarrow> off = slot_offset s \<Longrightarrow> Q s \<Longrightarrow> R s) \<Longrightarrow> at_slot k off R"
  by (auto simp: at_slot_def)

lemma at_slotI: "s < 2 ^ k \<Longrightarrow> Q s \<Longrightarrow> at_slot k (slot_offset s) Q"
  by (auto simp: at_slot_def)

lemma pc_ok_extend:
  assumes ext: "entries_extend k es es'" and ok: "pc_ok imp_of k es pc"
    and own: "\<And>i. i < 2 ^ k \<Longrightarrow> pc_owns pc = Some (slot_offset i) \<Longrightarrow> es' ! i = es ! i"
  shows "pc_ok imp_of k es' pc"
proof (cases pc)
  case (Probe_Key op off)
  then show ?thesis using ok ext
    by (auto intro: occupied_path_extend op_ahead_extend)
next
  case (Probe_Value op off)
  then have u: "op_key op \<noteq> 0" and at: "at_slot k off (\<lambda>s. occupied_path k es (op_key op) s \<and>
        op_ahead k es op s \<and> (\<forall>u. op = Op_Lookup u True \<longrightarrow> entry_value (es ! s) \<noteq> None \<and>
            still_ahead k es u ((Suc s) mod 2 ^ k)))" using ok by auto
  have "at_slot k off (\<lambda>s. occupied_path k es' (op_key op) s \<and>
        op_ahead k es' op s \<and> (\<forall>u. op = Op_Lookup u True \<longrightarrow> entry_value (es' ! s) \<noteq> None \<and>
            still_ahead k es' u ((Suc s) mod 2 ^ k)))"
    by (rule at_slot_mono [OF at])
       (use ext u in \<open>auto intro: occupied_path_extend op_ahead_extend still_ahead_extend
          simp: entries_extend_def\<close>)
  then show ?thesis using u Probe_Value by simp
next
  case (Read_Value u b off)
  then show ?thesis using ok ext by (auto simp: at_slot_def entries_extend_def)
next
  case (Claim u off)
  then show ?thesis using ok ext by (auto simp: at_slot_def intro: occupied_path_extend)
next
  case (Count u off)
  then show ?thesis using ok own
    by (auto intro!: occupied_path_extend [OF ext] elim!: at_slot_mono)
next
  case (Publish u off)
  then show ?thesis using ok own
    by (auto intro!: occupied_path_extend [OF ext] elim!: at_slot_mono)
qed (use ok in auto)

lemma slot_offset_inj: "k < 28 \<Longrightarrow> i < 2 ^ k \<Longrightarrow> j < 2 ^ k \<Longrightarrow> slot_offset i = slot_offset j \<longleftrightarrow> i = j"
  by (metis slot_offset_div)

lemma slot_dist_Suc:
  assumes "h < 2 ^ k" "s < 2 ^ k"
  shows "slot_dist k h (Suc s mod 2 ^ k) = Suc (slot_dist k h s) mod 2 ^ k"
proof -
  have "Suc s mod 2 ^ k + 2 ^ k - h = Suc s mod 2 ^ k + (2 ^ k - h)"
    and "s + 2 ^ k - h = s + (2 ^ k - h)" using assms by simp_all
  then show ?thesis by (simp add: slot_dist_def mod_simps)
qed

lemma occupied_path_Suc:
  assumes "occupied_path k es u s" "s < 2 ^ k" "entry_value (es ! s) \<noteq> None"
  shows "occupied_path k es u (Suc s mod 2 ^ k)"
proof -
  let ?d = "slot_dist k (cache_slot k u) s"
  have at: "(cache_slot k u + ?d) mod 2 ^ k = s" using assms(2) by simp
  have occ: "entry_value (es ! ((cache_slot k u + j) mod 2 ^ k)) \<noteq> None" if "j < Suc ?d" for j
    using that assms(1,3) at by (cases "j = ?d") (auto simp: occupied_path_def)
  have "slot_dist k (cache_slot k u) (Suc s mod 2 ^ k) \<le> Suc ?d"
    using slot_dist_Suc [OF cache_slot_less assms(2)] by (simp add: mod_less_eq_dividend)
  then show ?thesis using occ by (auto simp: occupied_path_def)
qed

lemma occupied_path_home: "occupied_path k es u (cache_slot k u)"
  by (simp add: occupied_path_def slot_dist_def)

lemma still_ahead_Suc:
  assumes "still_ahead k es u s" "s < 2 ^ k" "entry_key (es ! s) \<noteq> u"
    and path: "\<And>i. i < 2 ^ k \<Longrightarrow> entry_key (es ! i) = u \<Longrightarrow> occupied_path k es u i"
  shows "entry_value (es ! s) \<noteq> None \<and> still_ahead k es u (Suc s mod 2 ^ k)"
proof -
  let ?d = "slot_dist k (cache_slot k u)"
  obtain i where i: "i < 2 ^ k" "entry_key (es ! i) = u" "?d s \<le> ?d i"
    using assms(1) by (auto simp: still_ahead_def)
  have "?d s \<noteq> ?d i"
    using i assms(2,3) slot_dist_reaches [OF cache_slot_less [of k u]] by metis
  then have less: "?d s < ?d i" using i(3) by simp
  then have "entry_value (es ! ((cache_slot k u + ?d s) mod 2 ^ k)) \<noteq> None"
    using path [OF i(1,2)] by (simp add: occupied_path_def)
  moreover have "?d (Suc s mod 2 ^ k) \<le> ?d i"
    using slot_dist_Suc [OF cache_slot_less assms(2)] less mod_less_eq_dividend order.trans Suc_leI by metis
  ultimately show ?thesis using i assms(2) by (auto simp: still_ahead_def)
qed

lemma still_ahead_start:
  "cache_shape k c \<Longrightarrow> cache_publishes c u \<Longrightarrow> still_ahead k (cache_entries c) u (cache_slot k u)"
  using cache_shapeD(2) [of k c]
  by (auto simp: cache_publishes_def still_ahead_def in_set_conv_nth slot_dist_def)

section \<open>Preservation\<close>

lemma length_filter_update:
  assumes "t < length P"
  shows "length (filter f (P[t := x])) + (if f (P ! t) then 1 else 0) =
    length (filter f P) + (if f x then 1 else 0)"
proof -
  have P: "P = take t P @ P ! t # drop (Suc t) P" using assms by (rule id_take_nth_drop)
  have "length (filter f P) = length (filter f (take t P @ P ! t # drop (Suc t) P))"
    using P by (rule arg_cong)
  then show ?thesis using assms by (simp add: upd_conv_take_nth_drop)
qed

lemma system_invD:
  assumes "cache_system_inv imp_of k (c, P)"
  shows "cache_shape k c"
    and "i < 2 ^ k \<Longrightarrow> entry_key (cache_entries c ! i) \<noteq> 0 \<Longrightarrow>
        entry_value (cache_entries c ! i) = Some (imp_of (entry_key (cache_entries c ! i)))"
    and "i < 2 ^ k \<Longrightarrow> entry_key (cache_entries c ! i) \<noteq> 0 \<Longrightarrow>
        occupied_path k (cache_entries c) (entry_key (cache_entries c ! i)) i"
    and "t < length P \<Longrightarrow> pc_ok imp_of k (cache_entries c) (P ! t)"
    and "t < length P \<Longrightarrow> t' < length P \<Longrightarrow> pc_owns (P ! t) \<noteq> None \<Longrightarrow>
        pc_owns (P ! t) = pc_owns (P ! t') \<Longrightarrow> t = t'"
    and "i < 2 ^ k \<Longrightarrow> entry_key (cache_entries c ! i) = 0 \<Longrightarrow> entry_value (cache_entries c ! i) \<noteq> None \<Longrightarrow>
        \<exists>t<length P. pc_owns (P ! t) = Some (slot_offset i)"
    and "unat (cache_n c) + length (filter pc_uncounted P) = cache_used (cache_entries c)"
  using assms by (auto simp: cache_system_inv_def)

text \<open>A step that leaves the cache alone and owns what it owned.\<close>

lemma inv_local_step:
  assumes inv: "cache_system_inv imp_of k (c, P)" and t: "t < length P"
    and ok: "pc_ok imp_of k (cache_entries c) pc"
    and owns: "pc_owns pc = pc_owns (P ! t)" and unc: "pc_uncounted pc = pc_uncounted (P ! t)"
  shows "cache_system_inv imp_of k (c, P[t := pc])"
proof -
  have ow: "pc_owns (P[t := pc] ! t') = pc_owns (P ! t')" if "t' < length P" for t'
    using that owns t by (cases "t' = t") simp_all
  have "length (filter pc_uncounted (P[t := pc])) = length (filter pc_uncounted P)"
    using length_filter_update [OF t, of pc_uncounted pc] unc by (simp split: if_splits)
  moreover have "\<forall>x\<in>set (P[t := pc]). pc_ok imp_of k (cache_entries c) x"
    using inv ok set_update_subset_insert [of P t pc] by (fastforce simp: cache_system_inv_def)
  moreover have "\<exists>a<length P. pc_owns (P[t := pc] ! a) = Some (slot_offset i)"
    if "i < 2 ^ k" "entry_key (cache_entries c ! i) = 0" "entry_value (cache_entries c ! i) \<noteq> None" for i
    using system_invD(6) [OF inv that] ow by metis
  ultimately show ?thesis using inv ow by (auto simp: cache_system_inv_def)
qed

lemma inv_count_step:
  assumes inv: "cache_system_inv imp_of k (c, P)" and t: "t < length P" and pc: "P ! t = Count u off"
  shows "cache_system_inv imp_of k (c\<lparr> cache_n := cache_n c + 1 \<rparr>, P[t := Publish u off])"
proof -
  note D = system_invD [OF inv]
  have ow: "pc_owns (P[t := Publish u off] ! t') = pc_owns (P ! t')" if "t' < length P" for t'
    using that pc t by (cases "t' = t") simp_all
  have len: "length (filter pc_uncounted P) = Suc (length (filter pc_uncounted (P[t := Publish u off])))"
    using length_filter_update [OF t, of pc_uncounted "Publish u off"] pc by simp
  have "cache_used (cache_entries c) \<le> 2 ^ 27"
    using cache_used_le [of "cache_entries c"] cache_shapeD(1,2) [OF D(1)] pow_k_bound [of k] by simp
  then have n: "unat (cache_n c + 1) = Suc (unat (cache_n c))"
    using D(7) by (subst unat_word_ariths(1)) simp
  have "pc_ok imp_of k (cache_entries c) (Publish u off)" using D(4) [OF t] pc by simp
  then have "\<forall>x\<in>set (P[t := Publish u off]). pc_ok imp_of k (cache_entries c) x"
    using inv set_update_subset_insert [of P t "Publish u off"] by (fastforce simp: cache_system_inv_def)
  moreover have "cache_shape k (c\<lparr> cache_n := cache_n c + 1 \<rparr>)" using D(1) by (simp add: cache_shape_def)
  moreover have "\<exists>a<length P. pc_owns (P[t := Publish u off] ! a) = Some (slot_offset i)"
    if "i < 2 ^ k" "entry_key (cache_entries c ! i) = 0" "entry_value (cache_entries c ! i) \<noteq> None" for i
    using D(6) [OF that] ow by metis
  ultimately show ?thesis using inv ow n len by (auto simp: cache_system_inv_def)
qed

lemma update_extends:
  assumes "length es = 2 ^ k" "i < 2 ^ k"
    "entry_key (es ! i) \<noteq> 0 \<Longrightarrow> entry_key e = entry_key (es ! i)"
    "entry_value (es ! i) \<noteq> None \<Longrightarrow> entry_value e = entry_value (es ! i)"
  shows "entries_extend k es (es[i := e])"
  using assms by (auto simp: entries_extend_def nth_list_update)

text \<open>A step that rewrites the slot \<open>i\<close>, which no other thread owns.\<close>

lemma inv_write_step:
  assumes inv: "cache_system_inv imp_of k (c, P)" and t: "t < length P" and i: "i < 2 ^ k"
    and ext: "entries_extend k (cache_entries c) ((cache_entries c)[i := e])"
    and free: "\<And>t'. t' < length P \<Longrightarrow> t' \<noteq> t \<Longrightarrow> pc_owns (P ! t') \<noteq> Some (slot_offset i)"
    and ok: "pc_ok imp_of k ((cache_entries c)[i := e]) pc"
    and key: "entry_key e \<noteq> 0 \<Longrightarrow> entry_value e = Some (imp_of (entry_key e)) \<and>
        occupied_path k (cache_entries c) (entry_key e) i"
    and owner: "entry_key e = 0 \<Longrightarrow> entry_value e \<noteq> None \<Longrightarrow> pc_owns pc = Some (slot_offset i)"
    and owns: "pc_owns (P ! t) \<in> {None, Some (slot_offset i)}" "pc_owns pc \<in> {None, Some (slot_offset i)}"
    and used: "unat (cache_n c) + length (filter pc_uncounted (P[t := pc])) =
        cache_used ((cache_entries c)[i := e])"
  shows "cache_system_inv imp_of k (c\<lparr> cache_entries := (cache_entries c)[i := e] \<rparr>, P[t := pc])"
proof -
  let ?es = "cache_entries c" and ?es' = "(cache_entries c)[i := e]"
  note D = system_invD [OF inv]
  note sh = cache_shapeD [OF D(1)]
  have nth: "?es' ! j = (if j = i then e else ?es ! j)" if "j < 2 ^ k" for j
    using that sh(2) by (simp add: nth_list_update)
  have oks: "pc_ok imp_of k ?es' (P ! t')" if t': "t' < length P" "t' \<noteq> t" for t'
    by (rule pc_ok_extend [OF ext D(4) [OF t'(1)]]) (use nth free [OF t'] in auto)
  have "\<forall>x\<in>set (P[t := pc]). pc_ok imp_of k ?es' x"
    using oks ok t by (auto simp: in_set_conv_nth nth_list_update)
  moreover have "entry_value (?es' ! j) = Some (imp_of (entry_key (?es' ! j))) \<and>
      occupied_path k ?es' (entry_key (?es' ! j)) j" if j: "j < 2 ^ k" "entry_key (?es' ! j) \<noteq> 0" for j
    using j nth [OF j(1)] key D(2,3) [OF j(1)] occupied_path_extend [OF ext] by (cases "j = i") auto
  moreover have "a = b" if "a < length P" "b < length P" "pc_owns (P[t := pc] ! a) \<noteq> None"
      "pc_owns (P[t := pc] ! a) = pc_owns (P[t := pc] ! b)" for a b
    using that D(5) [of a b] free [of a] free [of b] owns(2) t
    by (cases "a = t"; cases "b = t") auto
  moreover have "\<exists>a<length P. pc_owns (P[t := pc] ! a) = Some (slot_offset j)"
    if j: "j < 2 ^ k" "entry_key (?es' ! j) = 0" "entry_value (?es' ! j) \<noteq> None" for j
  proof (cases "j = i")
    case True
    then show ?thesis using owner j nth [OF i] t by auto
  next
    case False
    then obtain a where a: "a < length P" "pc_owns (P ! a) = Some (slot_offset j)"
      using D(6) [OF j(1)] j nth [OF j(1)] by auto
    moreover have "a \<noteq> t" using a(2) owns(1) False slot_offset_inj [OF sh(1) i j(1)] by auto
    ultimately show ?thesis by auto
  qed
  ultimately show ?thesis using D(1) used unfolding cache_system_inv_def
    by (auto simp: cache_shape_def)
qed

lemma owner_slot:
  assumes inv: "cache_system_inv imp_of k (c, P)" and t: "t < length P"
    and own: "pc_owns (P ! t) = Some (slot_offset i)" and i: "i < 2 ^ k"
  shows "entry_key (cache_entries c ! i) = 0" and "entry_value (cache_entries c ! i) \<noteq> None"
proof -
  note inj = slot_offset_inj [OF cache_shapeD(1) [OF system_invD(1) [OF inv]] i]
  have "pc_ok imp_of k (cache_entries c) (P ! t)" using system_invD(4) [OF inv t] .
  then show "entry_key (cache_entries c ! i) = 0" "entry_value (cache_entries c ! i) \<noteq> None"
    using own inj by (cases "P ! t"; auto simp: at_slot_def)+
qed

lemma inv_claim_step:
  assumes inv: "cache_system_inv imp_of k (c, P)" and t: "t < length P"
    and pc: "P ! t = Claim u (slot_offset i)" and i: "i < 2 ^ k"
    and none: "entry_value (cache_entries c ! i) = None"
  shows "cache_system_inv imp_of k
    (c\<lparr> cache_entries := (cache_entries c)[i := (cache_entries c ! i)\<lparr> entry_value := Some (imp_of u) \<rparr>] \<rparr>,
     P[t := Count u (slot_offset i)])"
proof -
  let ?e = "(cache_entries c ! i)\<lparr> entry_value := Some (imp_of u) \<rparr>"
  note D = system_invD [OF inv] and sh = cache_shapeD [OF system_invD(1) [OF inv]]
  have key: "entry_key (cache_entries c ! i) = 0" using D(2) [OF i] none by auto
  have ext: "entries_extend k (cache_entries c) ((cache_entries c)[i := ?e])"
    by (rule update_extends [OF sh(2) i]) (use none in auto)
  have ok: "u \<noteq> 0" "occupied_path k (cache_entries c) u i"
    using D(4) [OF t] pc slot_offset_inj [OF sh(1) i] by (auto simp: at_slot_def)
  have ok': "pc_ok imp_of k ((cache_entries c)[i := ?e]) (Count u (slot_offset i))"
    using ok occupied_path_extend [OF ext ok(2)] key i sh(2) by (auto simp: at_slot_def)
  have free: "pc_owns (P ! t') \<noteq> Some (slot_offset i)" if "t' < length P" for t'
    using owner_slot(2) [OF inv that _ i] none by auto
  have used: "cache_used ((cache_entries c)[i := ?e]) = Suc (cache_used (cache_entries c))"
    using cache_used_update [of i "cache_entries c" ?e] i sh(2) none by simp
  have "length (filter pc_uncounted (P[t := Count u (slot_offset i)])) = Suc (length (filter pc_uncounted P))"
    using length_filter_update [OF t, of pc_uncounted "Count u (slot_offset i)"] pc by simp
  then show ?thesis
    using inv_write_step [OF inv t i ext _ ok'] free key pc used D(7) by simp
qed

lemma cache_used_values: "cache_used es = length (filter (\<lambda>v. v \<noteq> None) (map entry_value es))"
  by (simp add: cache_used_def filter_map o_def)

lemma inv_publish_step:
  assumes inv: "cache_system_inv imp_of k (c, P)" and t: "t < length P"
    and pc: "P ! t = Publish u (slot_offset i)" and i: "i < 2 ^ k"
  shows "entry_key (cache_entries c ! i) = 0"
    and "cache_system_inv imp_of k
      (c\<lparr> cache_entries := (cache_entries c)[i := (cache_entries c ! i)\<lparr> entry_key := u \<rparr>] \<rparr>,
       P[t := Added u (Some (slot_offset i))])"
proof -
  let ?e = "(cache_entries c ! i)\<lparr> entry_key := u \<rparr>"
  note D = system_invD [OF inv] and sh = cache_shapeD [OF system_invD(1) [OF inv]]
  have ok: "u \<noteq> 0" "occupied_path k (cache_entries c) u i" "entry_key (cache_entries c ! i) = 0"
      "entry_value (cache_entries c ! i) = Some (imp_of u)"
    using D(4) [OF t] pc slot_offset_inj [OF sh(1) i] by (auto simp: at_slot_def)
  then show "entry_key (cache_entries c ! i) = 0" by simp
  have ext: "entries_extend k (cache_entries c) ((cache_entries c)[i := ?e])"
    by (rule update_extends [OF sh(2) i]) (use ok in auto)
  have free: "pc_owns (P ! t') \<noteq> Some (slot_offset i)" if "t' < length P" "t' \<noteq> t" for t'
    using D(5) [OF t that(1)] that(2) pc by auto
  have "map entry_value ((cache_entries c)[i := ?e]) = map entry_value (cache_entries c)"
    using i sh(2) by (simp add: map_update list_update_same_conv)
  then have used: "cache_used ((cache_entries c)[i := ?e]) = cache_used (cache_entries c)"
    by (simp add: cache_used_values)
  have "length (filter pc_uncounted (P[t := Added u (Some (slot_offset i))])) = length (filter pc_uncounted P)"
    using length_filter_update [OF t, of pc_uncounted "Added u (Some (slot_offset i))"] pc by simp
  then show "cache_system_inv imp_of k
      (c\<lparr> cache_entries := (cache_entries c)[i := ?e] \<rparr>, P[t := Added u (Some (slot_offset i))])"
    using inv_write_step [OF inv t i ext free] ok pc used D(7) by simp
qed

lemma thread_entry:
  assumes "cache_system_inv imp_of k (c, P)" "i < 2 ^ k"
  shows "with_entry c (slot_offset i) f = f (cache_entries c ! i)"
  using cache_entry_at_slot [OF assms(2) cache_shapeD(1,2) [OF system_invD(1) [OF assms(1)]]]
  by (simp add: with_entry_def)

lemma write_at_slot:
  assumes "cache_system_inv imp_of k (c, P)" "i < 2 ^ k"
  shows "cache_write_entry c (slot_offset i) e = c\<lparr> cache_entries := (cache_entries c)[i := e] \<rparr>"
  using slot_offset_div [OF assms(2) cache_shapeD(1) [OF system_invD(1) [OF assms(1)]]]
  by (simp add: cache_write_entry_def cacheentry_sizeof_def)

lemma inv_probe_key:
  assumes inv: "cache_system_inv imp_of k (c, P)" and t: "t < length P"
    and pc: "P ! t = Probe_Key op off" and st: "cache_thread_step imp_of c (P ! t) = Some (c', pc')"
  shows "cache_system_inv imp_of k (c', P[t := pc'])"
proof -
  note D = system_invD [OF inv] and sh = cache_shapeD [OF system_invD(1) [OF inv]]
  let ?i = "cache_slot k off" and ?es = "cache_entries c"
  have ok: "op_key op \<noteq> 0" "occupied_path k ?es (op_key op) ?i" "op_ahead k ?es op ?i"
    using D(4) [OF t] pc by auto
  have step: "(c', pc') = (if entry_key (?es ! ?i) = op_key op then (c, probe_match op (slot_offset ?i))
      else (c, Probe_Value op (slot_offset ?i)))"
    using st pc thread_entry [OF inv, of ?i] by (auto simp: Let_def sh(3) and_mask_slot_offset [OF sh(1)] split: if_splits)
  have "pc_ok imp_of k ?es pc' \<and> pc_owns pc' = None \<and> \<not> pc_uncounted pc'"
  proof (cases "entry_key (?es ! ?i) = op_key op")
    case True
    then show ?thesis using step ok cache_slot_less by (cases op) (auto intro!: at_slotI)
  next
    case False
    have "entry_value (?es ! ?i) \<noteq> None \<and> still_ahead k ?es u (Suc ?i mod 2 ^ k)"
      if op: "op = Op_Lookup u True" for u
      by (rule still_ahead_Suc) (use ok op False D(3) in auto)
    then show ?thesis using step ok False cache_slot_less [of k off] by (auto intro!: at_slotI)
  qed
  moreover have "c' = c" using step by (auto split: if_splits)
  ultimately show ?thesis using inv_local_step [OF inv t] pc by simp
qed

lemma inv_probe_value:
  assumes inv: "cache_system_inv imp_of k (c, P)" and t: "t < length P"
    and pc: "P ! t = Probe_Value op off" and st: "cache_thread_step imp_of c (P ! t) = Some (c', pc')"
  shows "cache_system_inv imp_of k (c', P[t := pc'])"
proof -
  note D = system_invD [OF inv] and sh = cache_shapeD [OF system_invD(1) [OF inv]]
  let ?es = "cache_entries c"
  obtain i where i: "i < 2 ^ k" "off = slot_offset i" and ok: "op_key op \<noteq> 0"
      "occupied_path k ?es (op_key op) i" "op_ahead k ?es op i"
      "\<forall>u. op = Op_Lookup u True \<longrightarrow> entry_value (?es ! i) \<noteq> None \<and> still_ahead k ?es u (Suc i mod 2 ^ k)"
    using D(4) [OF t] pc by (auto simp: at_slot_def)
  have step: "(c', pc') = (if entry_value (?es ! i) = None then (c, probe_empty op off)
      else (c, Probe_Key op (off + 16)))"
    using st pc thread_entry [OF inv i(1)] i(2)
    by (auto simp: cacheentry_sizeof_def split: if_splits)
  have "pc_ok imp_of k ?es pc' \<and> pc_owns pc' = None \<and> \<not> pc_uncounted pc'"
  proof (cases "entry_value (?es ! i) = None")
    case True
    then show ?thesis using step ok i by (cases op) (auto intro!: at_slotI)
  next
    case False
    have slot: "cache_slot k (off + 16) = Suc i mod 2 ^ k"
      using cache_slot_next [OF i(1) sh(1)] i(2) by simp
    have "op_ahead k ?es op (Suc i mod 2 ^ k)" using ok(4) by (cases op) auto
    then show ?thesis using step ok False occupied_path_Suc [OF ok(2) i(1) False] slot by simp
  qed
  moreover have "c' = c" using step by (auto split: if_splits)
  ultimately show ?thesis using inv_local_step [OF inv t] pc by simp
qed

lemma inv_advance:
  assumes inv: "cache_system_inv imp_of k (c, P)" and t: "t < length P"
    and st: "cache_thread_step imp_of c (P ! t) = Some (c', pc')"
  shows "cache_system_inv imp_of k (c', P[t := pc'])"
proof -
  note D = system_invD [OF inv]
  let ?es = "cache_entries c"
  have ok: "pc_ok imp_of k ?es (P ! t)" using D(4) [OF t] .
  show ?thesis
  proof (cases "P ! t")
    case (Probe_Key op off)
    then show ?thesis using inv_probe_key [OF inv t _ st] by blast
  next
    case (Probe_Value op off)
    then show ?thesis using inv_probe_value [OF inv t _ st] by blast
  next
    case (Read_Value u b off)
    then obtain i where i: "i < 2 ^ k" "off = slot_offset i" "entry_key (?es ! i) = u" "u \<noteq> 0"
      using ok by (auto simp: at_slot_def)
    then have "c' = c" "pc' = Found u b (entry_value (?es ! i))"
      using st Read_Value thread_entry [OF inv i(1)] by auto
    then show ?thesis using inv_local_step [OF inv t] Read_Value D(2) [OF i(1)] i by simp
  next
    case (Claim u off)
    then obtain i where i: "i < 2 ^ k" "off = slot_offset i" and u: "u \<noteq> 0"
      using ok by (auto simp: at_slot_def)
    show ?thesis
    proof (cases "entry_value (?es ! i)")
      case None
      then show ?thesis using st Claim i inv_claim_step [OF inv t _ i(1) None, of u]
          thread_entry [OF inv i(1)] write_at_slot [OF inv i(1)] by auto
    next
      case (Some v)
      then have "c' = c" "pc' = Conflict u off" using st Claim i thread_entry [OF inv i(1)] by auto
      then show ?thesis using inv_local_step [OF inv t, of "Conflict u off"] Claim u i
        by (auto intro!: at_slotI)
    qed
  next
    case (Conflict u off)
    then obtain i where i: "i < 2 ^ k" "off = slot_offset i" and u: "u \<noteq> 0"
      using ok by (auto simp: at_slot_def)
    have "c' = c \<and> (\<exists>r. pc' = Added u r)"
      using st Conflict thread_entry [OF inv i(1)] i u D(2) [OF i(1)] by (auto split: if_splits)
    then show ?thesis using inv_local_step [OF inv t] Conflict by auto
  next
    case (Count u off)
    then show ?thesis using st inv_count_step [OF inv t Count] by simp
  next
    case (Publish u off)
    then obtain i where i: "i < 2 ^ k" "off = slot_offset i" using ok by (auto simp: at_slot_def)
    then show ?thesis using st Publish inv_publish_step [OF inv t _ i(1), of u]
        thread_entry [OF inv i(1)] write_at_slot [OF inv i(1)] by auto
  qed (use st in auto)
qed

lemma inv_step:
  assumes "cache_system_inv imp_of k s" "cache_step imp_of s s'"
  shows "cache_system_inv imp_of k s'"
  using assms(2)
proof (cases rule: cache_step.cases)
  case (begin_add t P u c)
  have "pc_owns (P ! t) = None" "\<not> pc_uncounted (P ! t)" using begin_add by (cases "P ! t"; simp)+
  then show ?thesis using assms(1) begin_add inv_local_step [of imp_of k c P t "Probe_Key (Op_Add u) u"]
    by (auto simp: occupied_path_home dest: sane_nonzero)
next
  case (begin_lookup t P u c)
  have idle: "pc_owns (P ! t) = None" "\<not> pc_uncounted (P ! t)" using begin_lookup by (cases "P ! t"; simp)+
  have shape: "cache_shape k c" using assms(1) begin_lookup system_invD(1) by metis
  show ?thesis using idle assms(1) begin_lookup still_ahead_start [OF shape]
      inv_local_step [of imp_of k c P t "Probe_Key (Op_Lookup u (cache_publishes c u)) u"] sane_nonzero
    by (auto simp: occupied_path_home)
next
  case (advance t P c c' pc')
  then show ?thesis using assms(1) inv_advance by metis
qed

lemma inv_initial:
  assumes "2 \<le> k" "k < 28"
  shows "cache_system_inv imp_of k
    (mulle_objc_cache_init (cache_calloc (2 ^ k)) (2 ^ k), replicate threads Idle)"
proof -
  let ?c = "mulle_objc_cache_init (cache_calloc (2 ^ k)) (2 ^ k) :: 'a mulle_objc_cache"
  have "cache_inv k ?c" using cache_new_inv(2) [OF assms] .
  moreover have "cache_n ?c = 0" by (simp add: mulle_objc_cache_init_def cache_calloc_def)
  moreover have "unat (2 ^ k :: uint32) = 2 ^ k" using power_word32 [OF assms(2)] .
  ultimately show ?thesis
    using cache_new_inv(3) [OF assms, where 'v = 'a]
    by (auto simp: cache_system_inv_def cache_inv_def cacheentry_zero_def)
qed

lemma reaches_inv:
  assumes "2 \<le> k" "k < 28" "cache_reaches imp_of k threads s"
  shows "cache_system_inv imp_of k s"
  using assms(3) by induction (auto intro: inv_initial [OF assms(1,2)] inv_step)

text \<open>Running a schedule: the list names the thread of each step.\<close>

fun cache_exec :: "(uint32 \<Rightarrow> 'v) \<Rightarrow> 'v cache_system \<Rightarrow> nat list \<Rightarrow> 'v cache_system" where
  "cache_exec imp_of (c, P) [] = (c, P)"
| "cache_exec imp_of (c, P) (t # ts) =
     (if t < length P
      then case cache_thread_step imp_of c (P ! t) of
             None \<Rightarrow> (c, P)
           | Some (c', pc') \<Rightarrow> cache_exec imp_of (c', P[t := pc']) ts
      else (c, P))"

lemma exec_reaches:
  "cache_reaches imp_of k threads s \<Longrightarrow> cache_reaches imp_of k threads (cache_exec imp_of s ts)"
proof (induction imp_of s ts rule: cache_exec.induct)
  case (2 imp_of c P t ts)
  show ?case
  proof (cases "t < length P \<and> cache_thread_step imp_of c (P ! t) \<noteq> None")
    case True
    then obtain c' pc' where st: "cache_thread_step imp_of c (P ! t) = Some (c', pc')" by auto
    have "cache_reaches imp_of k threads (c', P[t := pc'])"
      using cache_reaches.step [OF 2(2) cache_step.advance [of t P imp_of c c' pc']] True st by simp
    then show ?thesis using 2(1) [of "(c', pc')" c' pc'] True st by simp
  next
    case False
    then show ?thesis using 2(2) by (cases "cache_thread_step imp_of c (P ! t)") auto
  qed
qed auto

definition race_start :: "nat cache_system" where
  "race_start = (mulle_objc_cache_init (cache_calloc 4) 4,
     [Probe_Key (Op_Add 0x10) 0x10, Probe_Key (Op_Lookup 0x10 False) 0x10])"

lemma race_start_reached: "cache_reaches unat 2 2 race_start"
proof -
  let ?c = "mulle_objc_cache_init (cache_calloc 4) 4 :: nat mulle_objc_cache"
  have "cache_reaches unat 2 2 (?c, [Idle, Idle])"
    using cache_reaches.initial [of unat 2 2] by (simp add: numeral_2_eq_2)
  from cache_reaches.step [OF this cache_step.begin_add [of 0 _ "0x10"]]
  have "cache_reaches unat 2 2 (?c, [Probe_Key (Op_Add 0x10) 0x10, Idle])"
    by (simp add: mulle_objc_uniqueid_is_sane_def c_defs)
  from cache_reaches.step [OF this cache_step.begin_lookup [of 1 _ "0x10"]]
  show ?thesis
    by (simp add: mulle_objc_uniqueid_is_sane_def c_defs race_start_def cache_publishes_def cacheentry_zero_def)
qed

text \<open>C17: However adds and lookups of any number of threads interleave, no assertion of the code
  fails and nothing is read out of bounds; a lookup answers NULL or the implementation of its
  id, and never NULL when the id had been published before the lookup began.\<close>

theorem concurrent_lookups_sound:
  assumes "2 \<le> k" "k < 28" "cache_reaches imp_of k threads (c, P)" "t < length P"
  shows "(\<forall>e. P ! t \<noteq> Fault e) \<and>
    (\<forall>u b r. P ! t = Found u b r \<longrightarrow> r \<in> {None, Some (imp_of u)} \<and> (b \<longrightarrow> r = Some (imp_of u)))"
proof -
  have "pc_ok imp_of k (cache_entries c) (P ! t)"
    using system_invD(4) [OF reaches_inv [OF assms(1-3)] assms(4)] .
  then show ?thesis by (cases "P ! t") auto
qed

text \<open>C27: Once all threads have finished, the count of the cache is its number of used entries,
  keys and values are set together, and every key carries its own implementation.\<close>

theorem concurrent_adds_quiesce:
  assumes "2 \<le> k" "k < 28" "cache_reaches imp_of k threads (c, P)" "\<forall>pc\<in>set P. pc_finished pc"
  shows "unat (cache_n c) = cache_used (cache_entries c) \<and>
    (\<forall>e\<in>set (cache_entries c).
       (entry_key e = 0 \<longleftrightarrow> entry_value e = None) \<and>
       (entry_key e \<noteq> 0 \<longrightarrow> entry_value e = Some (imp_of (entry_key e))))"
proof -
  note D = system_invD [OF reaches_inv [OF assms(1-3)]]
  have fin: "\<not> pc_uncounted pc \<and> pc_owns pc = None" if "pc \<in> set P" for pc
    using assms(4) that by (cases pc) auto
  then have "unat (cache_n c) = cache_used (cache_entries c)"
    using D(7) by (simp add: filter_empty_conv [THEN iffD2])
  moreover have no_owner: "entry_value (cache_entries c ! i) = None"
    if "i < 2 ^ k" "entry_key (cache_entries c ! i) = 0" for i
  proof (rule ccontr)
    assume "entry_value (cache_entries c ! i) \<noteq> None"
    from D(6) [OF that this] obtain a where "a < length P" "pc_owns (P ! a) \<noteq> None" by auto
    moreover from this have "pc_owns (P ! a) = None" using fin [of "P ! a"] by simp
    ultimately show False by simp
  qed
  moreover have "(entry_key e = 0 \<longleftrightarrow> entry_value e = None) \<and>
      (entry_key e \<noteq> 0 \<longrightarrow> entry_value e = Some (imp_of (entry_key e)))"
    if e: "e \<in> set (cache_entries c)" for e
  proof -
    obtain i where "i < length (cache_entries c)" "cache_entries c ! i = e"
      using e by (auto simp: in_set_conv_nth)
    then have "i < 2 ^ k" "cache_entries c ! i = e" using cache_shapeD(2) [OF D(1)] by simp_all
    then show ?thesis using D(2) [of i] no_owner [of i]
      by (cases "entry_key (cache_entries c ! i) = 0") auto
  qed
  ultimately show ?thesis by blast
qed

lemma concurrent_lookups_sound_witness:
  "snd (cache_exec unat race_start [0, 0, 1, 0, 0, 0]) ! 1 = Probe_Value (Op_Lookup 0x10 False) 0x10 \<and>
   (\<forall>e. snd (cache_exec unat race_start [0, 0, 1, 0, 0, 0]) ! 1 \<noteq> Fault e)"
proof -
  let ?s = "cache_exec unat race_start [0, 0, 1, 0, 0, 0]"
  have "cache_reaches unat 2 2 (fst ?s, snd ?s)" using exec_reaches [OF race_start_reached] by simp
  moreover have s1: "snd ?s ! 1 = Probe_Value (Op_Lookup 0x10 False) 0x10 \<and> 1 < length (snd ?s)" by code_simp
  ultimately show ?thesis using concurrent_lookups_sound [of 2 unat 2 "fst ?s" "snd ?s" 1] by simp
qed

lemma concurrent_adds_quiesce_witness:
  "unat (cache_n (fst (cache_exec unat race_start [0, 0, 1, 0, 0, 0, 1, 1, 1]))) = 1 \<and>
   1 = cache_used (cache_entries (fst (cache_exec unat race_start [0, 0, 1, 0, 0, 0, 1, 1, 1])))"
proof -
  let ?s = "cache_exec unat race_start [0, 0, 1, 0, 0, 0, 1, 1, 1]"
  have "cache_reaches unat 2 2 (fst ?s, snd ?s)" using exec_reaches [OF race_start_reached] by simp
  moreover have "\<forall>pc\<in>set (snd ?s). pc_finished pc" by code_simp
  moreover have "unat (cache_n (fst ?s)) = 1" by code_simp
  ultimately show ?thesis using concurrent_adds_quiesce [of 2 unat 2 "fst ?s" "snd ?s"] by simp
qed

end
