(* ===== verification/Impcache.thy ===== *)
theory Impcache
  imports Cache_Concurrent
begin

text \<open>
  Method caches: \<open>mulle-objc-impcache.h\<close>/\<open>.c\<close> (a cache preceded by its call vector), their
  use by a class in \<open>mulle-objc-class-impcache.c\<close>, and the growth decision of the universe
  (\<open>_mulle_objc_universe_cache_should_grow\<close>). The call vector is a value of \<open>'cb\<close>; tracing
  output is left out. One thread runs, so a compare-and-swap fails only when the pivot does
  not hold the expected address.
\<close>

section \<open>Impcaches\<close>

record ('cb, 'v) mulle_objc_impcache =
  impcache_callback :: 'cb
  impcache_cache :: "'v mulle_objc_cache"

text \<open>The size of a new impcache: clamped, then smeared up to a power of two.\<close>

definition impcache_round_size :: "uint32 \<Rightarrow> uint32" where
  "impcache_round_size size0 =
     (let size1 = (if size0 < MULLE_OBJC_MIN_CACHE_SIZE then MULLE_OBJC_MIN_CACHE_SIZE else size0);
          size2 = (if size1 > MULLE_OBJC_MAX_CACHE_SIZE then MULLE_OBJC_MAX_CACHE_SIZE else size1)
      in if size2 AND (size2 - 1) \<noteq> 0
         then let s0 = size2 - 1;
                  s1 = s0 OR drop_bit 1 s0;
                  s2 = s1 OR drop_bit 2 s1;
                  s4 = s2 OR drop_bit 4 s2;
                  s8 = s4 OR drop_bit 8 s4;
                  s16 = s8 OR drop_bit 16 s8
              in s16 + 1
         else size2)"

definition mulle_objc_impcache_init ::
    "'cb \<Rightarrow> 'v mulle_objc_cache \<Rightarrow> 'cb option \<Rightarrow> uint32 \<Rightarrow> ('cb, 'v) mulle_objc_impcache" where
  "mulle_objc_impcache_init callback_normal cache callback sz =
     \<lparr> impcache_callback = (case callback of Some cb \<Rightarrow> cb | None \<Rightarrow> callback_normal),
       impcache_cache = mulle_objc_cache_init cache sz \<rparr>"

definition mulle_objc_impcache_new ::
    "'cb \<Rightarrow> uint32 \<Rightarrow> 'cb option \<Rightarrow> ('cb, 'v) mulle_objc_impcache" where
  "mulle_objc_impcache_new callback_normal size0 callback =
     (let sz = impcache_round_size size0 in
      mulle_objc_impcache_init callback_normal (cache_calloc sz) callback sz)"

definition mulle_objc_impcache_grow_with_strategy ::
    "'cb \<Rightarrow> ('cb, 'v) mulle_objc_impcache \<Rightarrow> mulle_objc_cachesizing_t \<Rightarrow> ('cb, 'v) mulle_objc_impcache" where
  "mulle_objc_impcache_grow_with_strategy callback_normal old_cache strategy =
     mulle_objc_impcache_new callback_normal
       (mulle_objc_cache_get_resize (impcache_cache old_cache) strategy)
       (Some (impcache_callback old_cache))"

text \<open>
  The lookups of \<open>mulle-objc-impcache.h\<close> stop at the first empty key, where the cache probe
  stops at the first empty value.
\<close>

partial_function (option) impcachepivot_probe_loop ::
    "'v mulle_objc_cacheentry list \<Rightarrow> uint32 \<Rightarrow> uint32 \<Rightarrow> uint32 \<Rightarrow> 'v option c_run" where
  "impcachepivot_probe_loop entries msk uniqueid offset0 =
     (let offset = offset0 AND msk in
      case cache_entry_at entries offset of
        Inl e \<Rightarrow> run_fault e
      | Inr entry \<Rightarrow>
          if entry_key entry = uniqueid then run_return (entry_value entry)
          else if entry_key entry = 0 then run_return None
          else impcachepivot_probe_loop entries msk uniqueid (offset + cacheentry_sizeof))"

definition mulle_objc_impcachepivot_probe_inline :: "('cb, 'v) mulle_objc_impcache \<Rightarrow> uint32 \<Rightarrow> 'v option c_run" where
  "mulle_objc_impcachepivot_probe_inline icache uniqueid =
     c_assert (mulle_objc_uniqueid_is_sane uniqueid)
       (impcachepivot_probe_loop (cache_entries (impcache_cache icache))
          (cache_mask (impcache_cache icache)) uniqueid uniqueid)"

definition mulle_objc_impcachepivot_lookup_inline_full :: "('cb, 'v) mulle_objc_impcache \<Rightarrow> uint32 \<Rightarrow> 'v option c_run" where
  "mulle_objc_impcachepivot_lookup_inline_full icache uniqueid =
     c_assert (mulle_objc_uniqueid_is_sane uniqueid)
       (impcachepivot_probe_loop (cache_entries (impcache_cache icache))
          (cache_mask (impcache_cache icache)) uniqueid uniqueid)"

section \<open>Swapping and filling\<close>

text \<open>
  What the functions read of the universe: the addresses of its two static impcaches, the
  fill rate, and the \<open>debug.method_call\<close> bits.
\<close>

record 'cb impcache_universe =
  universe_empty_impcache :: nat
  universe_initial_impcache :: nat
  universe_callback_normal :: 'cb
  universe_cache_fillrate :: uint32
  universe_method_call :: uint32

definition mulle_objc_universe_cache_should_grow ::
    "'cb impcache_universe \<Rightarrow> 'v mulle_objc_cache \<Rightarrow> bool c_run" where
  "mulle_objc_universe_cache_should_grow universe cache =
     mulle_objc_cache_should_grow cache (universe_cache_fillrate universe)"

definition mulle_objc_impcachepivot_swap ::
    "nat option \<Rightarrow> ('cb, 'v) mulle_objc_impcache cache_heap \<Rightarrow> nat \<Rightarrow> nat option \<Rightarrow>
     (nat option \<times> ('cb, 'v) mulle_objc_impcache cache_heap \<times> int) c_run" where
  "mulle_objc_impcachepivot_swap pivot h icache old_cache =
     run_bind (mulle_objc_cachepivot_cas_entries pivot (Some icache) old_cache) (\<lambda>(pivot', failed).
       if failed \<noteq> 0
       then run_return (pivot', mulle_objc_cache_free h icache, - 1)
       else run_return (pivot', mulle_objc_cache_abafree h old_cache, 0))"

definition mulle_objc_impcachepivot_convenient_swap ::
    "'cb impcache_universe \<Rightarrow> nat option \<Rightarrow> ('cb, 'v) mulle_objc_impcache cache_heap \<Rightarrow> nat \<Rightarrow>
     (nat option \<times> ('cb, 'v) mulle_objc_impcache cache_heap \<times> int) c_run" where
  "mulle_objc_impcachepivot_convenient_swap universe pivot h new_cache =
     c_assert (pivot \<noteq> Some (universe_empty_impcache universe))
     (c_assert (pivot \<noteq> Some (universe_initial_impcache universe))
       (run_bind (mulle_objc_impcachepivot_swap pivot h new_cache pivot) (\<lambda>(pivot', h', failed).
          if failed \<noteq> 0 then run_return (pivot', h', 0) else run_return (pivot', h', 1))))"

text \<open>
  \<open>_mulle_objc_impcachepivot_fill\<close> declares \<open>entry\<close> without a value, and its \<open>continue\<close>
  jumps to the loop condition \<open>! entry\<close>: the argument \<open>entry\<close> is the content of that
  variable when the body starts, initially whatever the stack held.
\<close>

partial_function (option) mulle_objc_impcachepivot_fill ::
    "'cb impcache_universe \<Rightarrow> mulle_objc_cachesizing_t \<Rightarrow> 'v \<Rightarrow> uint32 \<Rightarrow>
     (nat \<times> uint32) option \<Rightarrow> nat option \<Rightarrow> ('cb, 'v) mulle_objc_impcache cache_heap \<Rightarrow>
     (nat option \<times> ('cb, 'v) mulle_objc_impcache cache_heap \<times> (nat \<times> uint32)) c_run" where
  "mulle_objc_impcachepivot_fill universe strategy imp uniqueid entry pivot h =
     (case pivot of
        None \<Rightarrow> run_fault Out_Of_Bounds
      | Some a \<Rightarrow>
     (case heap_get h a of None \<Rightarrow> None | Some (Inl e) \<Rightarrow> run_fault e | Some (Inr icache) \<Rightarrow>
     (case mulle_objc_universe_cache_should_grow universe (impcache_cache icache) of
        None \<Rightarrow> None | Some (Inl e) \<Rightarrow> run_fault e | Some (Inr grow) \<Rightarrow>
      if grow
      then
        (let new = mulle_objc_impcache_grow_with_strategy (universe_callback_normal universe) icache strategy;
             (h1, b) = heap_alloc h new in
         case mulle_objc_impcachepivot_convenient_swap universe pivot h1 b of
           None \<Rightarrow> None | Some (Inl e) \<Rightarrow> run_fault e | Some (Inr (pivot', h2, rval)) \<Rightarrow>
         (case entry of
            Some en \<Rightarrow> run_return (pivot', h2, en)
          | None \<Rightarrow> mulle_objc_impcachepivot_fill universe strategy imp uniqueid entry pivot' h2))
      else
        (case mulle_objc_cache_add_functionpointer_entry (impcache_cache icache) imp uniqueid of
           None \<Rightarrow> None | Some (Inl e) \<Rightarrow> run_fault e | Some (Inr (cache', offset)) \<Rightarrow>
         let h1 = heap_put h a (icache\<lparr> impcache_cache := cache' \<rparr>) in
         (case offset of
            Some off \<Rightarrow> run_return (pivot, h1, (a, off))
          | None \<Rightarrow> mulle_objc_impcachepivot_fill universe strategy imp uniqueid None pivot h1)))))"

section \<open>The method cache of a class\<close>

record impcache_class =
  class_state :: uint32
  class_cachepivot :: "nat option"
  class_infra_state :: uint32

definition MULLE_OBJC_CLASS_CACHE_READY :: uint32 where [c_defs]: "MULLE_OBJC_CLASS_CACHE_READY = 0x0001"
definition MULLE_OBJC_CLASS_ALWAYS_EMPTY_CACHE :: uint32 where [c_defs]: "MULLE_OBJC_CLASS_ALWAYS_EMPTY_CACHE = 0x0002"
definition MULLE_OBJC_CLASS_IS_NOT_THREAD_AFFINE :: uint32 where [c_defs]: "MULLE_OBJC_CLASS_IS_NOT_THREAD_AFFINE = 0x0040"
definition MULLE_OBJC_INFRACLASS_INITIALIZING :: uint32 where [c_defs]: "MULLE_OBJC_INFRACLASS_INITIALIZING = 0x4000"
definition MULLE_OBJC_UNIVERSE_CALL_TRACE_BIT :: uint32 where [c_defs]: "MULLE_OBJC_UNIVERSE_CALL_TRACE_BIT = 1"
definition MULLE_OBJC_UNIVERSE_CALL_TAO_BIT :: uint32 where [c_defs]: "MULLE_OBJC_UNIVERSE_CALL_TAO_BIT = 2"

definition mulle_objc_class_is_threadaffine :: "impcache_class \<Rightarrow> bool" where
  "mulle_objc_class_is_threadaffine cls \<longleftrightarrow> \<not> (class_state cls AND MULLE_OBJC_CLASS_IS_NOT_THREAD_AFFINE \<noteq> 0)"

definition mulle_objc_class_convenient_swap_impcache ::
    "'cb impcache_universe \<Rightarrow> nat option \<Rightarrow> ('cb, 'v) mulle_objc_impcache cache_heap \<Rightarrow>
     mulle_objc_cachesizing_t \<Rightarrow> (nat option \<times> ('cb, 'v) mulle_objc_impcache cache_heap \<times> int) c_run" where
  "mulle_objc_class_convenient_swap_impcache universe pivot h strategy =
     (case pivot of
        None \<Rightarrow> run_fault Out_Of_Bounds
      | Some a \<Rightarrow>
          run_bind (heap_get h a) (\<lambda>old_cache.
            let icache = mulle_objc_impcache_grow_with_strategy (universe_callback_normal universe) old_cache strategy;
                (h1, b) = heap_alloc h icache
            in mulle_objc_impcachepivot_convenient_swap universe pivot h1 b))"

partial_function (option) mulle_objc_class_fill_impcachepivot_imp ::
    "'cb impcache_universe \<Rightarrow> 'v \<Rightarrow> uint32 \<Rightarrow> nat option \<Rightarrow> ('cb, 'v) mulle_objc_impcache cache_heap \<Rightarrow>
     (nat option \<times> ('cb, 'v) mulle_objc_impcache cache_heap \<times> (nat \<times> uint32)) c_run" where
  "mulle_objc_class_fill_impcachepivot_imp universe imp uniqueid pivot h =
     (case pivot of
        None \<Rightarrow> run_fault Out_Of_Bounds
      | Some a \<Rightarrow>
     (case heap_get h a of None \<Rightarrow> None | Some (Inl e) \<Rightarrow> run_fault e | Some (Inr icache) \<Rightarrow>
     (case mulle_objc_universe_cache_should_grow universe (impcache_cache icache) of
        None \<Rightarrow> None | Some (Inl e) \<Rightarrow> run_fault e | Some (Inr grow) \<Rightarrow>
      if grow
      then
        (case mulle_objc_class_convenient_swap_impcache universe pivot h MULLE_OBJC_CACHESIZE_GROW of
           None \<Rightarrow> None | Some (Inl e) \<Rightarrow> run_fault e | Some (Inr (pivot', h2, rval)) \<Rightarrow>
         mulle_objc_class_fill_impcachepivot_imp universe imp uniqueid pivot' h2)
      else
        (case mulle_objc_cache_add_functionpointer_entry (impcache_cache icache) imp uniqueid of
           None \<Rightarrow> None | Some (Inl e) \<Rightarrow> run_fault e | Some (Inr (cache', offset)) \<Rightarrow>
         let h1 = heap_put h a (icache\<lparr> impcache_cache := cache' \<rparr>) in
         (case offset of
            Some off \<Rightarrow> run_return (pivot, h1, (a, off))
          | None \<Rightarrow> mulle_objc_class_fill_impcachepivot_imp universe imp uniqueid pivot h1)))))"

text \<open>
  \<open>fill_impcache_method\<close> is the gate in front of the fill; the failure of a call that comes
  too early ends the program. \<open>invalidate_impcacheentry\<close> drops the whole cache if the id may
  be in it.
\<close>

definition mulle_objc_class_fill_impcache_method ::
    "'cb impcache_universe \<Rightarrow> impcache_class \<Rightarrow> ('cb, 'v) mulle_objc_impcache cache_heap \<Rightarrow>
     'v mulle_objc_method \<Rightarrow> uint32 \<Rightarrow>
     (impcache_class \<times> ('cb, 'v) mulle_objc_impcache cache_heap) c_run" where
  "mulle_objc_class_fill_impcache_method universe cls h method uniqueid =
     (if class_state cls AND MULLE_OBJC_CLASS_ALWAYS_EMPTY_CACHE \<noteq> 0 then run_return (cls, h)
      else if universe_method_call universe AND MULLE_OBJC_UNIVERSE_CALL_TRACE_BIT \<noteq> 0 then run_return (cls, h)
      else if universe_method_call universe AND MULLE_OBJC_UNIVERSE_CALL_TAO_BIT \<noteq> 0 \<and>
              mulle_objc_class_is_threadaffine cls \<and> mulle_objc_method_is_threadaffine method
      then run_return (cls, h)
      else if class_state cls AND MULLE_OBJC_CLASS_CACHE_READY = 0
      then if class_infra_state cls AND MULLE_OBJC_INFRACLASS_INITIALIZING = 0
           then run_fault Aborted
           else run_return (cls, h)
      else run_bind (mulle_objc_class_fill_impcachepivot_imp universe (method_implementation method) uniqueid
                       (class_cachepivot cls) h)
             (\<lambda>(pivot', h', entry). run_return (cls\<lparr> class_cachepivot := pivot' \<rparr>, h')))"

definition mulle_objc_class_invalidate_impcacheentry ::
    "'cb impcache_universe \<Rightarrow> impcache_class \<Rightarrow> ('cb, 'v) mulle_objc_impcache cache_heap \<Rightarrow> uint32 \<Rightarrow>
     (impcache_class \<times> ('cb, 'v) mulle_objc_impcache cache_heap \<times> int) c_run" where
  "mulle_objc_class_invalidate_impcacheentry universe cls h uniqueid =
     (if class_state cls AND MULLE_OBJC_CLASS_ALWAYS_EMPTY_CACHE \<noteq> 0 then run_return (cls, h, 0)
      else case class_cachepivot cls of
        None \<Rightarrow> run_fault Out_Of_Bounds
      | Some a \<Rightarrow>
      run_bind (heap_get h a) (\<lambda>icache.
        let cache = impcache_cache icache;
            swap = run_bind
              (mulle_objc_class_convenient_swap_impcache universe (class_cachepivot cls) h
                 MULLE_OBJC_CACHESIZE_STAGNATE)
              (\<lambda>(pivot', h', rval). run_return (cls\<lparr> class_cachepivot := pivot' \<rparr>, h', 1))
        in if cache_n cache = 0 then run_return (cls, h, 0)
           else if uniqueid \<noteq> 0
           then c_assert (mulle_objc_uniqueid_is_sane uniqueid)
             (run_bind (mulle_objc_cache_probe_entryoffset cache uniqueid) (\<lambda>offset.
              run_bind (Some (cache_entry_at (cache_entries cache) offset)) (\<lambda>entry.
                if entry_key entry = 0 then run_return (cls, h, 0) else swap)))
           else swap))"

end
