(* ===== verification/Impcache_Correct.thy ===== *)
theory Impcache_Correct
  imports Impcache
begin

text \<open>
  Correctness of the method caches: the size rounding finds the least power of two, filling
  the cache of a class makes the method visible and retires a replaced cache, invalidating
  makes the stale entry invisible, and the unlucky path of \<open>_mulle_objc_impcachepivot_fill\<close>
  returns whatever its uninitialised variable held.
\<close>

section \<open>Sizes\<close>

definition bits_spread :: "nat \<Rightarrow> uint32 \<Rightarrow> uint32 \<Rightarrow> bool" where
  "bits_spread w y x \<longleftrightarrow> (\<forall>n. bit y n \<longleftrightarrow> (\<exists>d<w. bit x (n + d)))"

lemma bits_spread_1: "bits_spread 1 x x"
  by (simp add: bits_spread_def)

lemma bits_spread_double:
  assumes "bits_spread w y x" "0 < w"
  shows "bits_spread (w + w) (y OR drop_bit w y) x"
proof -
  have "(\<exists>d<w. bit x (n + d)) \<or> (\<exists>d<w. bit x (n + w + d)) \<longleftrightarrow> (\<exists>d<w + w. bit x (n + d))" for n
  proof
    assume "\<exists>d<w + w. bit x (n + d)"
    then obtain d where d: "d < w + w" "bit x (n + d)" by blast
    show "(\<exists>d<w. bit x (n + d)) \<or> (\<exists>d<w. bit x (n + w + d))"
    proof (cases "d < w")
      case False
      then have "d - w < w" "n + w + (d - w) = n + d" using d(1) by auto
      then show ?thesis using d(2) by metis
    qed (use d in blast)
  qed (metis add.assoc nat_add_left_cancel_less trans_less_add2)
  then show ?thesis using assms by (simp add: bits_spread_def bit_or_iff bit_drop_bit_eq add.commute add.left_commute)
qed

definition smear :: "uint32 \<Rightarrow> uint32" where
  "smear s0 =
     (let s1 = s0 OR drop_bit 1 s0; s2 = s1 OR drop_bit 2 s1; s4 = s2 OR drop_bit 4 s2;
          s8 = s4 OR drop_bit 8 s4 in s8 OR drop_bit 16 s8)"

lemma smear_spread: "bits_spread 32 (smear x) x"
  using bits_spread_double [OF bits_spread_double [OF bits_spread_double [OF bits_spread_double
        [OF bits_spread_double [OF bits_spread_1]]]], of x]
  by (simp add: smear_def Let_def numeral_eq_Suc)

lemma smear_bit: "bit (smear x) n \<longleftrightarrow> (\<exists>m\<ge>n. bit x m)"
proof
  assume "bit (smear x) n"
  then obtain d where "bit x (n + d)" using smear_spread [of x] by (auto simp: bits_spread_def)
  then show "\<exists>m\<ge>n. bit x m" using le_add1 by blast
next
  assume "\<exists>m\<ge>n. bit x m"
  then obtain m where m: "n \<le> m" "bit x m" by blast
  then have "m < 32" using bit_imp_le_length [of x m] by simp
  then have "m - n < 32" "bit x (n + (m - n))" using m by simp_all
  then show "bit (smear x) n" using smear_spread [of x] unfolding bits_spread_def by blast
qed

lemma bit_le_unat: "bit (x :: uint32) m \<Longrightarrow> 2 ^ m \<le> unat x"
proof -
  assume "bit x m"
  then have "odd (unat x div 2 ^ m)" by (simp add: bit_unsigned_iff flip: bit_iff_odd)
  then show ?thesis by (metis div_less even_zero not_le)
qed

lemma smear_mask:
  assumes "x \<noteq> 0"
  obtains j where "smear x = mask j" "unat x < 2 ^ j" "2 ^ j \<le> 2 * unat x" "j \<le> 32"
proof -
  let ?S = "{m. bit x m}"
  have fin: "finite ?S" by (rule finite_subset [of _ "{..<32}"]) (auto dest: bit_imp_le_length)
  have ne: "?S \<noteq> {}" using assms bit_eq_iff [of x 0] by auto
  define t where "t = Max ?S"
  have t: "bit x t" using Max_in [OF fin ne] by (simp add: t_def)
  have le: "m \<le> t" if "bit x m" for m using Max_ge [OF fin] that by (simp add: t_def)
  have t32: "t < 32" using bit_imp_le_length [OF t] by simp
  have "bit (smear x) n \<longleftrightarrow> n < Suc t" for n
    using smear_bit [of x n] t le less_Suc_eq_le le_trans by metis
  then have "smear x = mask (Suc t)" by (intro bit_word_eqI) (simp add: bit_mask_iff)
  moreover have "take_bit (Suc t) x = x"
    by (rule bit_word_eqI) (use le in \<open>auto simp: bit_take_bit_iff less_Suc_eq_le\<close>)
  then have "unat x < 2 ^ Suc t"
    by (metis take_bit_nat_less_exp unsigned_take_bit_eq)
  moreover have "2 ^ Suc t \<le> 2 * unat x" using bit_le_unat [OF t] by simp
  ultimately show ?thesis using that [of "Suc t"] t32 by simp
qed

lemma power_of_two_word:
  assumes "j < 32"
  shows "unat (2 ^ j :: uint32) = 2 ^ j"
proof -
  have "(2::nat) ^ j < 2 ^ 32" using assms by (intro power_strict_increasing) auto
  then have "unat (word_of_nat (2 ^ j) :: uint32) = 2 ^ j" by (subst unat_of_nat) simp
  then show ?thesis by simp
qed

text \<open>The tumeni test \<open>size & (size - 1)\<close> is the test for a power of two.\<close>

lemma pow2_and_pred: "(2 ^ j :: uint32) AND (2 ^ j - 1) = 0"
  by (rule bit_word_eqI) (auto simp: bit_simps simp flip: mask_eq_exp_minus_1)

lemma and_pred_0_pow2:
  assumes "x \<noteq> 0" "x AND (x - 1) = (0 :: uint32)"
  obtains j where "x = 2 ^ j" "j < 32"
proof (cases "x = 1")
  case True
  then show ?thesis using that [of 0] by simp
next
  case False
  then have "x - 1 \<noteq> 0" by simp
  obtain j where j: "smear (x - 1) = mask j" "unat (x - 1) < 2 ^ j" "2 ^ j \<le> 2 * unat (x - 1)" "j \<le> 32"
    using smear_mask [OF \<open>x - 1 \<noteq> 0\<close>] by blast
  have pred: "unat (x - 1) = unat x - 1" using assms(1) by (simp add: unat_gt_0 unat_minus_one)
  have j0: "0 < j" using j(2,3) by (cases j) auto
  have top: "bit (x - 1) (j - 1)"
  proof (rule ccontr)
    assume not: "\<not> bit (x - 1) (j - 1)"
    have "bit (smear (x - 1)) (j - 1)" using j(1,4) j0 by (simp add: bit_mask_iff)
    then obtain m where "j - 1 \<le> m" "bit (x - 1) m" by (auto simp: smear_bit)
    then have "j \<le> m" using not by (cases "m = j - 1") auto
    then have "2 ^ j \<le> (2::nat) ^ m" by (rule power_increasing) simp
    then show False using bit_le_unat [OF \<open>bit (x - 1) m\<close>] j(2) by linarith
  qed
  then have "\<not> bit x (j - 1)" using assms(2) by (metis bit_0_eq bit_and_iff bot_apply bot_bool_def)
  have "2 ^ (j - 1) \<le> unat (x - 1)" using bit_le_unat [OF top] .
  have x: "unat x = Suc (unat (x - 1))" using pred assms(1) by (simp add: unat_gt_0)
  have "unat x = 2 ^ j"
  proof (rule ccontr)
    assume "unat x \<noteq> 2 ^ j"
    then have lt: "unat x < 2 ^ j" using x j(2) by simp
    have "2 ^ j = 2 * (2::nat) ^ (j - 1)" using j0 by (cases j) auto
    then have "unat x div 2 ^ (j - 1) = 1"
      using lt x \<open>2 ^ (j - 1) \<le> unat (x - 1)\<close> by (intro div_nat_eqI) auto
    then have "bit (unat x) (j - 1)" by (simp add: bit_iff_odd)
    then have "bit x (j - 1)" by (simp add: bit_unsigned_iff)
    then show False using \<open>\<not> bit x (j - 1)\<close> by simp
  qed
  moreover from this have "j < 32" using unsigned_less [of x, where 'a = nat] j(4)
    by (cases "j = 32") auto
  ultimately show ?thesis using that [of j] power_of_two_word word_unat_eq_iff by metis
qed

definition impcache_clamp :: "uint32 \<Rightarrow> uint32" where
  "impcache_clamp size0 = max 4 (min size0 0x400000)"

lemma impcache_round_size_alt:
  "impcache_round_size size0 =
     (let s = impcache_clamp size0 in if s AND (s - 1) \<noteq> 0 then smear (s - 1) + 1 else s)"
proof -
  have "(if (if size0 < 4 then 4 else size0) > 0x400000 then 0x400000
         else (if size0 < 4 then 4 else size0)) = impcache_clamp size0"
    by (auto simp: impcache_clamp_def max_def min_def not_le not_less word_le_nat_alt word_less_nat_alt)
  moreover have "MULLE_OBJC_MIN_CACHE_SIZE = 4" "MULLE_OBJC_MAX_CACHE_SIZE = 0x400000"
    by (simp_all add: c_defs)
  ultimately show ?thesis unfolding impcache_round_size_def Let_def smear_def by (simp only:)
qed

lemma impcache_clamp_bounds: "4 \<le> unat (impcache_clamp s)" "unat (impcache_clamp s) \<le> 2 ^ 22"
  by (auto simp: impcache_clamp_def max_def min_def word_le_nat_alt)

text \<open>Whatever size a new impcache is asked for, it gets the least power of two that is at
  least the requested size, the request first being clamped to between 4 and 4194304.\<close>

theorem impcache_round_size_least:
  "\<exists>j. 2 \<le> j \<and> j \<le> 22 \<and> impcache_round_size size0 = 2 ^ j \<and>
     unat (impcache_clamp size0) \<le> 2 ^ j \<and> 2 ^ j < 2 * unat (impcache_clamp size0)"
proof -
  let ?s = "impcache_clamp size0"
  note b = impcache_clamp_bounds [of size0]
  have nz: "?s \<noteq> 0" using b(1) by auto
  have "\<exists>j \<le> 32. impcache_round_size size0 = 2 ^ j \<and> unat ?s \<le> 2 ^ j \<and> 2 ^ j < 2 * unat ?s"
  proof (cases "?s AND (?s - 1) = 0")
    case True
    from and_pred_0_pow2 [OF nz this] obtain j where "?s = 2 ^ j" "j < 32" .
    then show ?thesis using True power_of_two_word [of j]
      by (intro exI [of _ j]) (simp add: impcache_round_size_alt Let_def)
  next
    case False
    then have "?s - 1 \<noteq> 0" by auto
    from smear_mask [OF this] obtain j where j: "smear (?s - 1) = mask j" "unat (?s - 1) < 2 ^ j"
        "2 ^ j \<le> 2 * unat (?s - 1)" "j \<le> 32" .
    have s: "unat ?s = Suc (unat (?s - 1))" using nz by (simp add: unat_gt_0 unat_minus_one)
    have "impcache_round_size size0 = 2 ^ j"
      using False j(1) by (simp add: impcache_round_size_alt Let_def mask_eq_exp_minus_1)
    moreover have "unat ?s \<le> 2 ^ j" "2 ^ j < 2 * unat ?s" unfolding s using j(2,3) by simp_all
    ultimately show ?thesis using j(4) by blast
  qed
  then obtain j where j: "impcache_round_size size0 = 2 ^ j" "unat ?s \<le> 2 ^ j" "2 ^ j < 2 * unat ?s" by blast
  have "(2::nat) ^ 2 \<le> 2 ^ j" "(2::nat) ^ j < 2 ^ 23" using j(2,3) b by simp_all
  then have "2 \<le> j" "j \<le> 22" by (simp_all only: power_increasing_iff power_strict_increasing_iff one_less_numeral_iff semiring_norm)
  then show ?thesis using j by blast
qed

lemma impcache_round_size_pow2:
  assumes "2 \<le> j" "j \<le> 22"
  shows "impcache_round_size (2 ^ j) = 2 ^ j"
proof -
  have "(2::nat) ^ 2 \<le> 2 ^ j" "(2::nat) ^ j \<le> 2 ^ 22" using assms by (intro power_increasing; simp)+
  then have "impcache_clamp (2 ^ j) = 2 ^ j"
    using power_of_two_word [of j] assms
    by (simp add: impcache_clamp_def max_def min_def word_le_nat_alt)
  then show ?thesis using pow2_and_pred [of j] by (simp add: impcache_round_size_alt Let_def)
qed

lemma impcache_round_size_beyond: "impcache_round_size (2 ^ 23) = 2 ^ 22"
  by (simp add: impcache_round_size_alt impcache_clamp_def Let_def max_def min_def)

section \<open>Filling the method cache of a class\<close>

text \<open>
  The pivot of a class that is ready: its current cache is alive, well formed, and neither of
  the two static caches of the universe.
\<close>

definition impcache_pivot_ok ::
    "'cb impcache_universe \<Rightarrow> nat \<Rightarrow> ('cb, 'v) mulle_objc_impcache cache_heap \<Rightarrow> nat \<Rightarrow> bool" where
  "impcache_pivot_ok universe k h a \<longleftrightarrow> k \<le> 22 \<and>
     a < length (heap_blocks h) \<and> a \<notin> set (heap_freed h) \<and>
     (\<forall>x\<in>set (heap_freed h). x < length (heap_blocks h)) \<and>
     universe_empty_impcache universe < length (heap_blocks h) \<and>
     universe_initial_impcache universe < length (heap_blocks h) \<and>
     a \<noteq> universe_empty_impcache universe \<and> a \<noteq> universe_initial_impcache universe \<and>
     cache_inv k (impcache_cache (heap_blocks h ! a))"

definition impcache_at :: "('cb, 'v) mulle_objc_impcache cache_heap \<Rightarrow> nat \<Rightarrow> 'v mulle_objc_cache" where
  "impcache_at h a = impcache_cache (heap_blocks h ! a)"

text \<open>The heap after a swap to a new, empty cache.\<close>

definition impcache_swapped ::
    "'cb impcache_universe \<Rightarrow> mulle_objc_cachesizing_t \<Rightarrow> ('cb, 'v) mulle_objc_impcache cache_heap \<Rightarrow> nat \<Rightarrow>
     ('cb, 'v) mulle_objc_impcache cache_heap" where
  "impcache_swapped universe strategy h a =
     h\<lparr> heap_blocks := heap_blocks h @ [mulle_objc_impcache_grow_with_strategy
          (universe_callback_normal universe) (heap_blocks h ! a) strategy],
        heap_abafreed := a # heap_abafreed h \<rparr>"

lemma impcache_get: "impcache_pivot_ok universe k h a \<Longrightarrow> heap_get h a = run_return (heap_blocks h ! a)"
  by (simp add: impcache_pivot_ok_def heap_get_def)

lemma convenient_swap_impcache:
  assumes "impcache_pivot_ok universe k h a"
  shows "mulle_objc_class_convenient_swap_impcache universe (Some a) h strategy =
    run_return (Some (length (heap_blocks h)), impcache_swapped universe strategy h a, 1)"
proof -
  have "a \<noteq> length (heap_blocks h)" using assms by (simp add: impcache_pivot_ok_def)
  then show ?thesis
    using assms by (simp add: mulle_objc_class_convenient_swap_impcache_def impcache_get [OF assms]
        heap_alloc_def mulle_objc_impcachepivot_convenient_swap_def mulle_objc_impcachepivot_swap_def
        mulle_objc_cachepivot_cas_entries_def mulle_objc_cache_abafree_def impcache_swapped_def
        impcache_pivot_ok_def)
qed

lemma impcache_swapped_ok:
  assumes ok: "impcache_pivot_ok universe k h a" and st: "strategy \<noteq> MULLE_OBJC_CACHESIZE_SHRINK"
  obtains k' where "impcache_pivot_ok universe k' (impcache_swapped universe strategy h a) (length (heap_blocks h))"
    and "cache_used (cache_entries (impcache_at (impcache_swapped universe strategy h a) (length (heap_blocks h)))) = 0"
    and "\<And>q. cache_lookup (impcache_at (impcache_swapped universe strategy h a) (length (heap_blocks h))) q = None"
proof -
  let ?k = "if strategy = MULLE_OBJC_CACHESIZE_GROW \<and> k < 22 then Suc k else k"
  note sh = cache_shapeD [of k "impcache_cache (heap_blocks h ! a)"]
  have inv: "cache_shape k (impcache_cache (heap_blocks h ! a))" and k: "k \<le> 22"
    using ok by (simp_all add: impcache_pivot_ok_def cache_inv_shape)
  note sh = cache_shapeD [OF inv]
  have round: "impcache_round_size (mulle_objc_cache_get_resize (impcache_cache (heap_blocks h ! a)) strategy) = 2 ^ ?k"
  proof (cases strategy)
    case MULLE_OBJC_CACHESIZE_GROW
    show ?thesis
    proof (cases "k < 22")
      case True
      then show ?thesis using MULLE_OBJC_CACHESIZE_GROW sh(4,5) impcache_round_size_pow2 [of "Suc k"]
        by (simp add: mulle_objc_cache_get_resize_def mult.commute)
    next
      case False
      then have "k = 22" using k by simp
      then show ?thesis using MULLE_OBJC_CACHESIZE_GROW sh(5) impcache_round_size_beyond
        by (simp add: mulle_objc_cache_get_resize_def)
    qed
  qed (use st sh(4,5) k impcache_round_size_pow2 in \<open>auto simp: mulle_objc_cache_get_resize_def\<close>)
  have k': "2 \<le> ?k" "?k < 28" "?k \<le> 22" using sh(4) k by auto
  have new: "impcache_at (impcache_swapped universe strategy h a) (length (heap_blocks h)) =
      mulle_objc_cache_init (cache_calloc (2 ^ ?k)) (2 ^ ?k)"
    unfolding impcache_at_def impcache_swapped_def mulle_objc_impcache_grow_with_strategy_def
      mulle_objc_impcache_new_def mulle_objc_impcache_init_def Let_def round by simp
  show ?thesis
  proof (rule that [of ?k])
    show "impcache_pivot_ok universe ?k (impcache_swapped universe strategy h a) (length (heap_blocks h))"
      using ok cache_new_inv(2) [OF k'(1,2)] new k'(3)
      by (auto simp: impcache_pivot_ok_def impcache_at_def impcache_swapped_def)
    show "cache_used (cache_entries (impcache_at (impcache_swapped universe strategy h a) (length (heap_blocks h)))) = 0"
      unfolding new using cache_new_inv(3) [OF k'(1,2)] .
    show "cache_lookup (impcache_at (impcache_swapped universe strategy h a) (length (heap_blocks h))) q = None" for q
      unfolding new by (rule cache_lookup_new)
  qed
qed

lemma class_fill_grow:
  assumes "impcache_pivot_ok universe k h a" "universe_cache_fillrate universe \<le> 90"
    "fill_reached k (universe_cache_fillrate universe) (cache_used (cache_entries (impcache_at h a)))"
  shows "mulle_objc_class_fill_impcachepivot_imp universe v u (Some a) h =
    mulle_objc_class_fill_impcachepivot_imp universe v u (Some (length (heap_blocks h)))
      (impcache_swapped universe MULLE_OBJC_CACHESIZE_GROW h a)"
proof -
  have inv: "cache_inv k (impcache_at h a)" using assms(1) by (simp add: impcache_pivot_ok_def impcache_at_def)
  show ?thesis
    using should_grow_correct [OF inv assms(2)] assms(3)
    by (subst mulle_objc_class_fill_impcachepivot_imp.simps)
       (simp add: impcache_get [OF assms(1)] mulle_objc_universe_cache_should_grow_def
         convenient_swap_impcache [OF assms(1)] impcache_at_def)
qed

definition impcache_put ::
    "('cb, 'v) mulle_objc_impcache cache_heap \<Rightarrow> nat \<Rightarrow> 'v mulle_objc_cache \<Rightarrow> ('cb, 'v) mulle_objc_impcache cache_heap" where
  "impcache_put h a c = heap_put h a ((heap_blocks h ! a)\<lparr> impcache_cache := c \<rparr>)"

lemma impcache_put_ok:
  assumes "impcache_pivot_ok universe k h a" "cache_inv k c"
  shows "impcache_pivot_ok universe k (impcache_put h a c) a" "impcache_at (impcache_put h a c) a = c"
    "heap_freed (impcache_put h a c) = heap_freed h" "heap_abafreed (impcache_put h a c) = heap_abafreed h"
  using assms by (auto simp: impcache_pivot_ok_def impcache_put_def heap_put_def impcache_at_def)

lemma class_fill_add:
  assumes ok: "impcache_pivot_ok universe k h a" and rate: "universe_cache_fillrate universe \<le> 75"
    and u: "mulle_objc_uniqueid_is_sane u" and old: "cache_lookup (impcache_at h a) u \<in> {None, Some v}"
    and not: "\<not> fill_reached k (universe_cache_fillrate universe) (cache_used (cache_entries (impcache_at h a)))"
  shows "\<exists>c off. mulle_objc_class_fill_impcachepivot_imp universe v u (Some a) h =
      run_return (Some a, impcache_put h a c, (a, off)) \<and> cache_inv k c \<and>
      cache_used (cache_entries c) < 2 ^ k \<and>
      (\<forall>q. q \<noteq> 0 \<longrightarrow> cache_lookup c q = (if q = u then Some v else cache_lookup (impcache_at h a) q))"
proof -
  let ?c = "impcache_at h a"
  have inv: "cache_inv k ?c" using ok by (simp add: impcache_pivot_ok_def impcache_at_def)
  have rate90: "universe_cache_fillrate universe \<le> 90" using rate by (simp add: word_le_nat_alt)
  have room: "Suc (cache_used (cache_entries ?c)) < 2 ^ k"
    using fill_room [OF not] rate cache_shapeD(4) [OF cache_inv_shape [OF inv]] by simp
  have step: "mulle_objc_class_fill_impcachepivot_imp universe v u (Some a) h =
      run_return (Some a, impcache_put h a c, (a, off))"
    if "mulle_objc_cache_add_functionpointer_entry ?c v u = run_return (c, Some off)" for c off
    using should_grow_correct [OF inv rate90] not that
    by (subst mulle_objc_class_fill_impcachepivot_imp.simps)
       (simp add: impcache_get [OF ok] mulle_objc_universe_cache_should_grow_def impcache_at_def impcache_put_def Let_def)
  show ?thesis
  proof (cases "cache_lookup ?c u")
    case None
    have "cache_used (cache_entries ?c) < 2 ^ k" using room by simp
    from add_absent [OF inv u None this] obtain i where
      "cache_inserted k ?c u v (cache_insert_at ?c i u v)"
      "mulle_objc_cache_add_functionpointer_entry ?c v u = run_return (cache_insert_at ?c i u v, Some (slot_offset i))"
      by metis
    then show ?thesis using step room by (auto simp: cache_inserted_def)
  next
    case (Some w)
    then have w: "w = v" using old by simp
    from add_present [OF inv u Some] obtain i where
      "mulle_objc_cache_add_functionpointer_entry ?c v u = run_return (?c, Some (slot_offset i))"
      using w by metis
    from step [OF this] inv Some w room show ?thesis by fastforce
  qed
qed

text \<open>
  What a fill leaves alone: every block but the one of the cache that is filled, and the call
  vector. The cache is the old one or a new one.
\<close>

definition heap_extends ::
    "nat \<Rightarrow> nat \<Rightarrow> ('cb, 'v) mulle_objc_impcache cache_heap \<Rightarrow> ('cb, 'v) mulle_objc_impcache cache_heap \<Rightarrow> bool" where
  "heap_extends a b h h' \<longleftrightarrow> (b = a \<or> length (heap_blocks h) \<le> b) \<and> heap_freed h' = heap_freed h \<and>
     length (heap_blocks h) \<le> length (heap_blocks h') \<and>
     (\<forall>x < length (heap_blocks h). x \<noteq> a \<longrightarrow> heap_blocks h' ! x = heap_blocks h ! x) \<and>
     impcache_callback (heap_blocks h' ! b) = impcache_callback (heap_blocks h ! a)"

lemma heap_extends_put:
  "a < length (heap_blocks h) \<Longrightarrow> heap_extends a a h (impcache_put h a c)"
  by (simp add: heap_extends_def impcache_put_def heap_put_def)

lemma heap_extends_swapped:
  "a < length (heap_blocks h) \<Longrightarrow> heap_extends a (length (heap_blocks h)) h
     (impcache_put (impcache_swapped universe strategy h a) (length (heap_blocks h)) c)"
  by (auto simp: heap_extends_def impcache_put_def heap_put_def impcache_swapped_def nth_append
      mulle_objc_impcache_grow_with_strategy_def mulle_objc_impcache_new_def mulle_objc_impcache_init_def Let_def)

text \<open>Both paths of the fill, with and without growth.\<close>

lemma class_fill_correct:
  assumes ok: "impcache_pivot_ok universe k h a" and rate: "universe_cache_fillrate universe \<le> 75"
    and u: "mulle_objc_uniqueid_is_sane u" and old: "cache_lookup (impcache_at h a) u \<in> {None, Some v}"
  shows "\<exists>k' h' b off. mulle_objc_class_fill_impcachepivot_imp universe v u (Some a) h =
        run_return (Some b, h', (b, off)) \<and> impcache_pivot_ok universe k' h' b \<and>
      (\<forall>q. mulle_objc_uniqueid_is_sane q \<longrightarrow>
         mulle_objc_cache_probe_functionpointer (impcache_at h' b) q =
           run_return (if q = u then Some v else if b = a then cache_lookup (impcache_at h a) q else None)) \<and>
      heap_freed h' = heap_freed h \<and> heap_abafreed h' = (if b = a then [] else [a]) @ heap_abafreed h \<and>
      heap_extends a b h h'"
proof (cases "fill_reached k (universe_cache_fillrate universe) (cache_used (cache_entries (impcache_at h a)))")
  case False
  from class_fill_add [OF ok rate u old False] obtain c off where c:
      "mulle_objc_class_fill_impcachepivot_imp universe v u (Some a) h = run_return (Some a, impcache_put h a c, (a, off))"
      "cache_inv k c" "cache_used (cache_entries c) < 2 ^ k"
      "\<forall>q. q \<noteq> 0 \<longrightarrow> cache_lookup c q = (if q = u then Some v else cache_lookup (impcache_at h a) q)"
    by blast
  show ?thesis
    using c(1) probes_of_lookup [OF c(2-4)] impcache_put_ok [OF ok c(2)] heap_extends_put [of a h c] ok
    by (intro exI [of _ k] exI [of _ "impcache_put h a c"] exI [of _ a] exI [of _ off]) (simp add: impcache_pivot_ok_def)
next
  case True
  let ?b = "length (heap_blocks h)" and ?g = "impcache_swapped universe MULLE_OBJC_CACHESIZE_GROW h a"
  have rate90: "universe_cache_fillrate universe \<le> 90" using rate by (simp add: word_le_nat_alt)
  have ba: "?b \<noteq> a" using ok by (simp add: impcache_pivot_ok_def)
  obtain k' where ok': "impcache_pivot_ok universe k' ?g ?b"
      and empty: "cache_used (cache_entries (impcache_at ?g ?b)) = 0" "\<And>q. cache_lookup (impcache_at ?g ?b) q = None"
    using impcache_swapped_ok [OF ok] by blast
  have "\<not> fill_reached k' (universe_cache_fillrate universe) (cache_used (cache_entries (impcache_at ?g ?b)))"
    unfolding empty(1) by (rule fill_not_reached_empty)
  from class_fill_add [OF ok' rate u _ this, of v] empty(2) obtain c off where c:
      "mulle_objc_class_fill_impcachepivot_imp universe v u (Some ?b) ?g = run_return (Some ?b, impcache_put ?g ?b c, (?b, off))"
      "cache_inv k' c" "cache_used (cache_entries c) < 2 ^ k'"
      "\<forall>q. q \<noteq> 0 \<longrightarrow> cache_lookup c q = (if q = u then Some v else None)"
    by auto
  have "heap_freed ?g = heap_freed h" "heap_abafreed ?g = a # heap_abafreed h"
    by (simp_all add: impcache_swapped_def)
  then show ?thesis
    using c(1) probes_of_lookup [OF c(2-4)] impcache_put_ok [OF ok' c(2)] class_fill_grow [OF ok rate90 True] ba
      heap_extends_swapped [of a h universe MULLE_OBJC_CACHESIZE_GROW c] ok
    by (intro exI [of _ k'] exI [of _ "impcache_put ?g ?b c"] exI [of _ ?b] exI [of _ off]) (simp add: impcache_pivot_ok_def)
qed

text \<open>The inlined lookup, which tests keys only, agrees with the cache probe.\<close>

lemma cache_entry_at_mem: "cache_entry_at es off = Inr e \<Longrightarrow> e \<in> set es"
proof -
  let ?i = "off div cacheentry_sizeof"
  assume "cache_entry_at es off = Inr e"
  then have e: "e = es ! unat ?i" and "uint ?i < int (length es)"
    by (auto simp: cache_entry_at_def c_read_def split: if_splits)
  then have "int (unat ?i) < int (length es)" by simp
  then show ?thesis unfolding e by (intro nth_mem) (simp only: of_nat_less_iff)
qed

definition probe_answer :: "uint32 \<Rightarrow> uint32 \<times> 'v mulle_objc_cacheentry \<Rightarrow> 'v option c_run" where
  "probe_answer u = (\<lambda>(off, e). run_return (if entry_key e = u then entry_value e else None))"

lemma inline_loop_of_probe:
  "cache_probe_loop es msk u x = Some r \<Longrightarrow> u \<noteq> 0 \<Longrightarrow>
   \<forall>e\<in>set es. entry_key e = 0 \<longleftrightarrow> entry_value e = None \<Longrightarrow>
   impcachepivot_probe_loop es msk u x = run_bind (Some r) (probe_answer u)"
proof (induction rule: cache_probe_loop.raw_induct [rotated, consumes 1])
  case (1 loop es msk u x r)
  show ?case
  proof (cases "cache_entry_at es (x AND msk)")
    case (Inl e)
    then show ?thesis using 1(2) by (subst impcachepivot_probe_loop.simps) (auto simp: Let_def)
  next
    case (Inr e)
    then have "entry_key e = 0 \<longleftrightarrow> entry_value e = None" using 1(4) cache_entry_at_mem by blast
    then show ?thesis using 1 Inr
      by (subst impcachepivot_probe_loop.simps) (auto simp: Let_def probe_answer_def split: if_splits)
  qed
qed

lemma probe_of_inline_loop:
  "impcachepivot_probe_loop es msk u x = Some r \<Longrightarrow>
   \<forall>e\<in>set es. entry_key e = 0 \<longleftrightarrow> entry_value e = None \<Longrightarrow>
   cache_probe_loop es msk u x \<noteq> None"
proof (induction rule: impcachepivot_probe_loop.raw_induct [rotated, consumes 1])
  case (1 loop es msk u x r)
  show ?case
  proof (cases "cache_entry_at es (x AND msk)")
    case (Inl e)
    then show ?thesis by (subst cache_probe_loop.simps) (simp add: Let_def)
  next
    case (Inr e)
    then have "entry_key e = 0 \<longleftrightarrow> entry_value e = None" using 1(3) cache_entry_at_mem by blast
    then show ?thesis using 1 Inr
      by (subst cache_probe_loop.simps) (auto simp: Let_def split: if_splits)
  qed
qed

lemma probe_inline_eq:
  assumes "cache_inv k (impcache_cache icache)"
  shows "mulle_objc_impcachepivot_probe_inline icache u =
    mulle_objc_cache_probe_functionpointer (impcache_cache icache) u"
proof (cases "mulle_objc_uniqueid_is_sane u")
  case True
  let ?c = "impcache_cache icache"
  have kv: "\<forall>e\<in>set (cache_entries ?c). entry_key e = 0 \<longleftrightarrow> entry_value e = None"
    using assms by (simp add: cache_inv_def)
  have "impcachepivot_probe_loop (cache_entries ?c) (cache_mask ?c) u u =
      run_bind (cache_probe_loop (cache_entries ?c) (cache_mask ?c) u u) (probe_answer u)"
  proof (cases "cache_probe_loop (cache_entries ?c) (cache_mask ?c) u u")
    case None
    then show ?thesis using probe_of_inline_loop [OF _ kv, of "cache_mask ?c" u u]
      by (cases "impcachepivot_probe_loop (cache_entries ?c) (cache_mask ?c) u u") auto
  next
    case (Some r)
    then show ?thesis using inline_loop_of_probe [OF Some sane_nonzero [OF True] kv] by simp
  qed
  then show ?thesis
    by (simp add: mulle_objc_impcachepivot_probe_inline_def mulle_objc_cache_probe_functionpointer_def
        probe_answer_def)
qed (auto simp: mulle_objc_impcachepivot_probe_inline_def mulle_objc_cache_probe_functionpointer_def)

text \<open>C18: When a class is ready and nothing forbids caching, filling its cache with a method under
  an id returns, and from then on the inlined lookup of the class finds that method's
  implementation under the id; a replaced cache is retired, never freed at once.\<close>

theorem fill_impcache_method_then_lookup:
  assumes ok: "impcache_pivot_ok universe k h a" and rate: "universe_cache_fillrate universe \<le> 75"
    and u: "mulle_objc_uniqueid_is_sane u"
    and old: "cache_lookup (impcache_at h a) u \<in> {None, Some (method_implementation method)}"
    and cls: "class_cachepivot cls = Some a" "class_state cls AND MULLE_OBJC_CLASS_ALWAYS_EMPTY_CACHE = 0"
      "class_state cls AND MULLE_OBJC_CLASS_CACHE_READY \<noteq> 0"
    and call: "universe_method_call universe = 0"
  shows "\<exists>k' h' b. mulle_objc_class_fill_impcache_method universe cls h method u =
        run_return (cls\<lparr> class_cachepivot := Some b \<rparr>, h') \<and>
      impcache_pivot_ok universe k' h' b \<and>
      mulle_objc_impcachepivot_probe_inline (heap_blocks h' ! b) u = run_return (Some (method_implementation method)) \<and>
      heap_freed h' = heap_freed h \<and> heap_abafreed h' = (if b = a then [] else [a]) @ heap_abafreed h"
proof -
  obtain k' h' b off where f: "mulle_objc_class_fill_impcachepivot_imp universe (method_implementation method) u (Some a) h =
        run_return (Some b, h', (b, off))" "impcache_pivot_ok universe k' h' b"
      "mulle_objc_cache_probe_functionpointer (impcache_at h' b) u = run_return (Some (method_implementation method))"
      "heap_freed h' = heap_freed h" "heap_abafreed h' = (if b = a then [] else [a]) @ heap_abafreed h"
    using class_fill_correct [OF ok rate u old] u by fastforce
  have "mulle_objc_class_fill_impcache_method universe cls h method u =
      run_return (cls\<lparr> class_cachepivot := Some b \<rparr>, h')"
    using f(1) cls call by (simp add: mulle_objc_class_fill_impcache_method_def)
  moreover have "mulle_objc_impcachepivot_probe_inline (heap_blocks h' ! b) u =
      run_return (Some (method_implementation method))"
    using probe_inline_eq [of k' "heap_blocks h' ! b" u] f(2,3) by (simp add: impcache_pivot_ok_def impcache_at_def)
  ultimately show ?thesis using f by blast
qed

section \<open>Invalidation\<close>

lemma entryoffset_result:
  assumes inv: "cache_inv k c" and u: "mulle_objc_uniqueid_is_sane u"
    and room: "cache_used (cache_entries c) < 2 ^ k"
  obtains off e where "mulle_objc_cache_probe_entryoffset c u = run_return off"
    and "cache_entry_at (cache_entries c) off = Inr e" and "entry_key e = 0 \<longleftrightarrow> cache_lookup c u = None"
proof -
  have nz: "u \<noteq> 0" using u by (rule sane_nonzero)
  obtain i where i: "i < 2 ^ k"
      "cache_probe_loop (cache_entries c) (cache_mask c) u u = run_return (slot_offset i, cache_entries c ! i)"
      "entry_key (cache_entries c ! i) = 0 \<longleftrightarrow> cache_lookup c u = None"
  proof (cases "cache_lookup c u")
    case None
    then show ?thesis using probe_for_insert [OF inv nz None room] that by metis
  next
    case (Some w)
    then show ?thesis using probe_for_present [OF inv nz Some] that nz by (metis option.distinct(1))
  qed
  then show ?thesis
    using that [of "slot_offset i"] cache_entry_at_slot [OF i(1)] cache_shapeD(1,2) [OF cache_inv_shape [OF inv]] u
    by (simp add: mulle_objc_cache_probe_entryoffset_def)
qed

lemma cache_empty_lookup: "cache_inv k c \<Longrightarrow> cache_n c = 0 \<Longrightarrow> cache_lookup c q = None"
  by (auto simp: cache_inv_def cache_lookup_def cache_used_def filter_empty_conv find_Some_iff split: option.splits)

lemma invalidate_result:
  assumes ok: "impcache_pivot_ok universe k h a" and room: "cache_used (cache_entries (impcache_at h a)) < 2 ^ k"
    and u: "u = 0 \<or> mulle_objc_uniqueid_is_sane u"
    and cls: "class_cachepivot cls = Some a" "class_state cls AND MULLE_OBJC_CLASS_ALWAYS_EMPTY_CACHE = 0"
  shows "mulle_objc_class_invalidate_impcacheentry universe cls h u =
    (if cache_n (impcache_at h a) = 0 \<or> u \<noteq> 0 \<and> cache_lookup (impcache_at h a) u = None
     then run_return (cls, h, 0)
     else run_return (cls\<lparr> class_cachepivot := Some (length (heap_blocks h)) \<rparr>,
            impcache_swapped universe MULLE_OBJC_CACHESIZE_STAGNATE h a, 1))"
proof (cases "u = 0")
  case True
  then show ?thesis using cls convenient_swap_impcache [OF ok, of MULLE_OBJC_CACHESIZE_STAGNATE] impcache_get [OF ok]
    by (simp add: mulle_objc_class_invalidate_impcacheentry_def impcache_at_def Let_def)
next
  case False
  then have sane: "mulle_objc_uniqueid_is_sane u" using u by blast
  have inv: "cache_inv k (impcache_at h a)" using ok by (simp add: impcache_pivot_ok_def impcache_at_def)
  obtain off e where "mulle_objc_cache_probe_entryoffset (impcache_at h a) u = run_return off"
      "cache_entry_at (cache_entries (impcache_at h a)) off = Inr e"
      "entry_key e = 0 \<longleftrightarrow> cache_lookup (impcache_at h a) u = None"
    using entryoffset_result [OF inv sane room] .
  then show ?thesis using cls convenient_swap_impcache [OF ok, of MULLE_OBJC_CACHESIZE_STAGNATE] impcache_get [OF ok] False sane
    by (simp add: mulle_objc_class_invalidate_impcacheentry_def impcache_at_def Let_def)
qed

text \<open>C31: After invalidating an id in the cache of a class, a lookup of that id finds nothing; the
  cache is either untouched (result 0) or replaced by an empty one (result 1), and
  invalidating with the id 0 empties it for all ids.\<close>

theorem invalidate_impcacheentry_forgets:
  assumes ok: "impcache_pivot_ok universe k h a" and room: "cache_used (cache_entries (impcache_at h a)) < 2 ^ k"
    and u: "u = 0 \<or> mulle_objc_uniqueid_is_sane u"
    and cls: "class_cachepivot cls = Some a" "class_state cls AND MULLE_OBJC_CLASS_ALWAYS_EMPTY_CACHE = 0"
  shows "\<exists>k' h' b r. mulle_objc_class_invalidate_impcacheentry universe cls h u =
        run_return (cls\<lparr> class_cachepivot := Some b \<rparr>, h', r) \<and>
      impcache_pivot_ok universe k' h' b \<and>
      (r = 0 \<and> b = a \<and> h' = h \<or> r = 1 \<and> b \<noteq> a \<and> heap_abafreed h' = a # heap_abafreed h) \<and>
      (\<forall>q. mulle_objc_uniqueid_is_sane q \<longrightarrow> q = u \<or> u = 0 \<longrightarrow>
         mulle_objc_cache_probe_functionpointer (impcache_at h' b) q = run_return None)"
proof (cases "cache_n (impcache_at h a) = 0 \<or> u \<noteq> 0 \<and> cache_lookup (impcache_at h a) u = None")
  case True
  have inv: "cache_inv k (impcache_at h a)" using ok by (simp add: impcache_pivot_ok_def impcache_at_def)
  have "cls\<lparr> class_cachepivot := Some a \<rparr> = cls" using cls(1) by simp
  moreover have "cache_lookup (impcache_at h a) q = None" if "q = u \<or> u = 0" for q
    using True cache_empty_lookup [OF inv] that by auto
  then have "mulle_objc_cache_probe_functionpointer (impcache_at h a) q = run_return None"
    if "mulle_objc_uniqueid_is_sane q" "q = u \<or> u = 0" for q
    using probe_functionpointer_correct [OF inv that(1)] that(2) room by simp
  ultimately show ?thesis using invalidate_result [OF assms] True ok
    by (intro exI [of _ k] exI [of _ h] exI [of _ a] exI [of _ 0]) auto
next
  case False
  let ?b = "length (heap_blocks h)" and ?g = "impcache_swapped universe MULLE_OBJC_CACHESIZE_STAGNATE h a"
  obtain k' where ok': "impcache_pivot_ok universe k' ?g ?b"
      and none: "cache_used (cache_entries (impcache_at ?g ?b)) = 0" "\<And>q. cache_lookup (impcache_at ?g ?b) q = None"
    using impcache_swapped_ok [OF ok, of MULLE_OBJC_CACHESIZE_STAGNATE] by blast
  have inv': "cache_inv k' (impcache_at ?g ?b)" using ok' by (simp add: impcache_pivot_ok_def impcache_at_def)
  have "mulle_objc_cache_probe_functionpointer (impcache_at ?g ?b) q = run_return None"
    if "mulle_objc_uniqueid_is_sane q" for q
    using probe_functionpointer_correct [OF inv' that] none by simp
  moreover have "?b \<noteq> a" "heap_abafreed ?g = a # heap_abafreed h"
    using ok by (auto simp: impcache_pivot_ok_def impcache_swapped_def)
  ultimately show ?thesis using invalidate_result [OF assms] False ok'
    by (intro exI [of _ k'] exI [of _ ?g] exI [of _ ?b] exI [of _ 1]) simp
qed

text \<open>C32: When the cache behind a pivot has to grow, and the uninitialised variable of
  _mulle_objc_impcachepivot_fill happens not to be NULL, the function returns that stray
  pointer and the method is not in the new cache.\<close>

theorem impcachepivot_fill_returns_garbage:
  assumes ok: "impcache_pivot_ok universe k h a" and rate: "universe_cache_fillrate universe \<le> 90"
    and full: "fill_reached k (universe_cache_fillrate universe) (cache_used (cache_entries (impcache_at h a)))"
    and u: "mulle_objc_uniqueid_is_sane u"
  shows "\<exists>h' b. mulle_objc_impcachepivot_fill universe MULLE_OBJC_CACHESIZE_GROW imp u (Some garbage) (Some a) h =
        run_return (Some b, h', garbage) \<and>
      mulle_objc_cache_probe_functionpointer (impcache_at h' b) u = run_return None"
proof -
  let ?b = "length (heap_blocks h)" and ?g = "impcache_swapped universe MULLE_OBJC_CACHESIZE_GROW h a"
  have inv: "cache_inv k (impcache_at h a)" using ok by (simp add: impcache_pivot_ok_def impcache_at_def)
  obtain k' where ok': "impcache_pivot_ok universe k' ?g ?b"
      and none: "cache_used (cache_entries (impcache_at ?g ?b)) = 0" "\<And>q. cache_lookup (impcache_at ?g ?b) q = None"
    using impcache_swapped_ok [OF ok, of MULLE_OBJC_CACHESIZE_GROW] by blast
  have inv': "cache_inv k' (impcache_at ?g ?b)" using ok' by (simp add: impcache_pivot_ok_def impcache_at_def)
  have "mulle_objc_impcachepivot_fill universe MULLE_OBJC_CACHESIZE_GROW imp u (Some garbage) (Some a) h =
      run_return (Some ?b, ?g, garbage)"
    using should_grow_correct [OF inv rate] full convenient_swap_impcache [OF ok, of MULLE_OBJC_CACHESIZE_GROW]
    by (subst mulle_objc_impcachepivot_fill.simps)
       (simp add: impcache_get [OF ok] mulle_objc_universe_cache_should_grow_def impcache_at_def
         mulle_objc_class_convenient_swap_impcache_def heap_alloc_def Let_def)
  then show ?thesis using probe_functionpointer_correct [OF inv' u] none by auto
qed

section \<open>Concrete instances\<close>

text \<open>
  A universe with its two static caches at 0 and 1, and a class cache at 2: four entries,
  three of them in use.
\<close>

definition example_universe :: "unit impcache_universe" where
  "example_universe = \<lparr> universe_empty_impcache = 0, universe_initial_impcache = 1,
     universe_callback_normal = (), universe_cache_fillrate = 0, universe_method_call = 0 \<rparr>"

definition example_impcache :: "(unit, nat) mulle_objc_impcache" where
  "example_impcache = \<lparr> impcache_callback = (), impcache_cache = \<lparr> cache_n = 3, cache_size = 4, cache_mask = 0x30,
     cache_entries = [cacheentry_zero, \<lparr> entry_key = 0x10, entry_value = Some 1 \<rparr>,
       \<lparr> entry_key = 0x20, entry_value = Some 2 \<rparr>, \<lparr> entry_key = 0x30, entry_value = Some 3 \<rparr>] \<rparr> \<rparr>"

definition example_impcache_heap :: "(unit, nat) mulle_objc_impcache cache_heap" where
  "example_impcache_heap = \<lparr> heap_blocks = [example_impcache, example_impcache, example_impcache],
     heap_freed = [], heap_abafreed = [] \<rparr>"

definition example_class :: impcache_class where
  "example_class = \<lparr> class_state = 1, class_cachepivot = Some 2, class_infra_state = 0 \<rparr>"

definition example_method :: "nat mulle_objc_method" where
  "example_method = \<lparr> method_descriptor = \<lparr> desc_methodid = 0x40, desc_signature = [], desc_name = [],
      desc_bits = 0 \<rparr>, method_implementation = 9 \<rparr>"

lemma example_pivot_ok: "impcache_pivot_ok example_universe 2 example_impcache_heap 2"
  by (simp add: impcache_pivot_ok_def example_universe_def example_impcache_heap_def example_impcache_def
      cache_inv_def cache_shape_def preshift_def all_less_4 cache_reachable_def cache_slot_def slot_dist_def
      cache_used_def cacheentry_zero_def)

lemma example_impcache_facts:
  "cache_lookup (impcache_at example_impcache_heap 2) 0x40 = None"
  "cache_lookup (impcache_at example_impcache_heap 2) 0x10 = Some 1"
  "cache_used (cache_entries (impcache_at example_impcache_heap 2)) = 3"
  "mulle_objc_uniqueid_is_sane 0x40" "mulle_objc_uniqueid_is_sane 0x10"
  by code_simp+

lemma fill_impcache_method_then_lookup_witness:
  "\<exists>k' h' b. mulle_objc_class_fill_impcache_method example_universe example_class example_impcache_heap example_method 0x40 =
        run_return (example_class\<lparr> class_cachepivot := Some b \<rparr>, h') \<and>
      impcache_pivot_ok example_universe k' h' b \<and>
      mulle_objc_impcachepivot_probe_inline (heap_blocks h' ! b) 0x40 = run_return (Some 9)"
  using fill_impcache_method_then_lookup [OF example_pivot_ok, of "0x40" example_method example_class] example_impcache_facts
  by (fastforce simp: example_universe_def example_class_def example_method_def c_defs)

lemma invalidate_impcacheentry_forgets_witness:
  "\<exists>k' h' b r. mulle_objc_class_invalidate_impcacheentry example_universe example_class example_impcache_heap 0x10 =
        run_return (example_class\<lparr> class_cachepivot := Some b \<rparr>, h', r) \<and>
      impcache_pivot_ok example_universe k' h' b \<and>
      mulle_objc_cache_probe_functionpointer (impcache_at h' b) 0x10 = run_return None"
  using invalidate_impcacheentry_forgets [OF example_pivot_ok, of "0x10" example_class] example_impcache_facts
  by (fastforce simp: example_class_def c_defs)

lemma impcachepivot_fill_returns_garbage_witness:
  "\<exists>h' b. mulle_objc_impcachepivot_fill example_universe MULLE_OBJC_CACHESIZE_GROW 9 0x40 (Some (77, 0)) (Some 2) example_impcache_heap =
        run_return (Some b, h', (77, 0)) \<and>
      mulle_objc_cache_probe_functionpointer (impcache_at h' b) 0x40 = run_return None"
  using impcachepivot_fill_returns_garbage [OF example_pivot_ok, of "0x40" 9 "(77, 0)"] example_impcache_facts
  by (simp add: example_universe_def fill_reached_def)

end
