(* ===== verification/Kvccache.thy ===== *)
theory Kvccache
  imports Impcache_Correct
begin

text \<open>
  The key-value-coding cache (\<open>mulle-objc-kvccache.h\<close>/\<open>.c\<close>) and the class cache of the
  universe (\<open>mulle-objc-universe-class.c\<close>): caches whose values are pointers and that start
  from a shared, static empty cache, which is never released. The address of the empty cache
  is an argument; one thread runs.
\<close>

section \<open>KVC entries\<close>

text \<open>
  A \<open>kvcinfo\<close> as the cache uses it: its key, and a payload for the implementations, ids,
  offset and value types it carries. Its address identifies it; freeing is by address.
\<close>

record 'p mulle_objc_kvcinfo =
  kvcinfo_address :: nat
  kvcinfo_cKey :: string
  kvcinfo_payload :: 'p

definition mulle_objc_kvcinfo_equals :: "'p mulle_objc_kvcinfo \<Rightarrow> 'p mulle_objc_kvcinfo \<Rightarrow> bool" where
  "mulle_objc_kvcinfo_equals entry other = (c_strcmp (kvcinfo_cKey entry) (kvcinfo_cKey other) = 0)"

type_synonym 'p kvccache = "'p mulle_objc_kvcinfo mulle_objc_cache"

record 'p kvc_state =
  kvc_pivot :: "nat option"
  kvc_heap :: "'p kvccache cache_heap"
  kvc_abafreed_infos :: "nat list"

datatype 'p kvc_lookup = Kvc_Null | Kvc_Conflict | Kvc_Info "'p mulle_objc_kvcinfo"

definition mulle_objc_kvccache_new :: "uint32 \<Rightarrow> 'p kvccache c_run" where
  "mulle_objc_kvccache_new sz = mulle_objc_cache_new sz"

definition mulle_objc_kvccache_add_entry ::
    "'p kvccache \<Rightarrow> 'p mulle_objc_kvcinfo \<Rightarrow> uint32 \<Rightarrow> ('p kvccache \<times> uint32 option) c_run" where
  "mulle_objc_kvccache_add_entry cache info keyid = mulle_objc_cache_add_pointer_entry cache info keyid"

definition mulle_objc_kvccache_inactivecache_add_entry ::
    "'p kvccache \<Rightarrow> 'p mulle_objc_kvcinfo \<Rightarrow> uint32 \<Rightarrow> ('p kvccache \<times> uint32) c_run" where
  "mulle_objc_kvccache_inactivecache_add_entry cache info keyid =
     mulle_objc_cache_add_pointer_inactive cache (Some info) keyid"

definition mulle_objc_kvccache_lookup_kvcinfo ::
    "(string \<Rightarrow> uint32) \<Rightarrow> 'p kvccache \<Rightarrow> string \<Rightarrow> 'p kvc_lookup c_run" where
  "mulle_objc_kvccache_lookup_kvcinfo from_string cache key =
     run_bind (mulle_objc_cache_probe_pointer cache (from_string key)) (\<lambda>info.
       case info of
         None \<Rightarrow> run_return Kvc_Null
       | Some i \<Rightarrow> if c_strcmp (kvcinfo_cKey i) key \<noteq> 0 then run_return Kvc_Conflict
                   else run_return (Kvc_Info i))"

text \<open>Releasing a KVC cache also releases every info in it (\<open>free\<close> of NULL does nothing).\<close>

definition mulle_objc_kvccache_abafree :: "'p kvc_state \<Rightarrow> nat \<Rightarrow> 'p kvc_state c_run" where
  "mulle_objc_kvccache_abafree s a =
     run_bind (heap_get (kvc_heap s) a) (\<lambda>cache.
       run_return (s\<lparr> kvc_abafreed_infos :=
           rev (map kvcinfo_address (List.map_filter entry_value (cache_entries cache))) @ kvc_abafreed_infos s,
         kvc_heap := (kvc_heap s)\<lparr> heap_abafreed := a # heap_abafreed (kvc_heap s) \<rparr> \<rparr>))"

definition mulle_objc_kvccachepivot_add_cacheentry_by_swapping_caches ::
    "'p kvc_state \<Rightarrow> nat \<Rightarrow> nat \<Rightarrow> 'p mulle_objc_kvcinfo \<Rightarrow> uint32 \<Rightarrow> ('p kvc_state \<times> (nat \<times> uint32) option) c_run" where
  "mulle_objc_kvccachepivot_add_cacheentry_by_swapping_caches s old_cache empty_cache info keyid =
     run_bind (heap_get (kvc_heap s) old_cache) (\<lambda>old.
     run_bind (mulle_objc_kvccache_new (cache_size old * 2)) (\<lambda>new.
     run_bind (mulle_objc_kvccache_inactivecache_add_entry new info keyid) (\<lambda>(new', offset).
       let (h1, b) = heap_alloc (kvc_heap s) new' in
       run_bind (mulle_objc_cachepivot_cas_entries (kvc_pivot s) (Some b) (Some old_cache)) (\<lambda>(pivot', failed).
         if failed \<noteq> 0
         then run_return (s\<lparr> kvc_pivot := pivot', kvc_heap := mulle_objc_cache_free h1 b \<rparr>, None)
         else
           let s1 = s\<lparr> kvc_pivot := pivot', kvc_heap := h1 \<rparr> in
           if old_cache \<noteq> empty_cache
           then run_bind (mulle_objc_kvccache_abafree s1 old_cache) (\<lambda>s2. run_return (s2, Some (b, offset)))
           else run_return (s1, Some (b, offset))))))"

text \<open>\<open>set_kvcinfo\<close> returns 0 on success and -1 on a conflict.\<close>

partial_function (option) mulle_objc_kvccachepivot_set_kvcinfo ::
    "(string \<Rightarrow> uint32) \<Rightarrow> 'p mulle_objc_kvcinfo \<Rightarrow> nat \<Rightarrow> 'p kvc_state \<Rightarrow> ('p kvc_state \<times> int) c_run" where
  "mulle_objc_kvccachepivot_set_kvcinfo from_string info empty_cache s =
     (let keyid = from_string (kvcinfo_cKey info) in
      case kvc_pivot s of
        None \<Rightarrow> run_fault Out_Of_Bounds
      | Some a \<Rightarrow>
     (case heap_get (kvc_heap s) a of None \<Rightarrow> None | Some (Inl e) \<Rightarrow> run_fault e | Some (Inr cache) \<Rightarrow>
      if cache_n cache \<ge> ucast (drop_bit 1 (cache_size cache))
      then
        (case mulle_objc_kvccachepivot_add_cacheentry_by_swapping_caches s a empty_cache info keyid of
           None \<Rightarrow> None | Some (Inl e) \<Rightarrow> run_fault e | Some (Inr (s', entry)) \<Rightarrow>
         if entry \<noteq> None then run_return (s', 0)
         else mulle_objc_kvccachepivot_set_kvcinfo from_string info empty_cache s')
      else
        (case mulle_objc_kvccache_add_entry cache info keyid of
           None \<Rightarrow> None | Some (Inl e) \<Rightarrow> run_fault e | Some (Inr (cache', entry)) \<Rightarrow>
         let s' = s\<lparr> kvc_heap := heap_put (kvc_heap s) a cache' \<rparr> in
         if entry \<noteq> None then run_return (s', 0) else run_return (s', - 1))))"

definition mulle_objc_kvccachepivot_invalidate :: "'p kvc_state \<Rightarrow> nat \<Rightarrow> ('p kvc_state \<times> int) c_run" where
  "mulle_objc_kvccachepivot_invalidate s empty_cache =
     (case kvc_pivot s of
        None \<Rightarrow> run_fault Out_Of_Bounds
      | Some a \<Rightarrow>
          if a = empty_cache then run_return (s, 0)
          else run_bind (mulle_objc_cachepivot_cas_entries (kvc_pivot s) (Some empty_cache) (Some a)) (\<lambda>(pivot', failed).
            run_bind (mulle_objc_kvccache_abafree (s\<lparr> kvc_pivot := pivot' \<rparr>) a) (\<lambda>s'. run_return (s', 1))))"

section \<open>The class cache of the universe\<close>

text \<open>Values are classes, of which only the class id is read; \<open>'k\<close> is the class pointer.\<close>

record 'k classcache_state =
  classcache_pivot :: "nat option"
  classcache_heap :: "'k mulle_objc_cache cache_heap"

definition mulle_objc_universe_add_classcacheentry_swapcaches ::
    "('k \<Rightarrow> uint32) \<Rightarrow> nat \<Rightarrow> 'k classcache_state \<Rightarrow> nat \<Rightarrow> 'k \<Rightarrow> ('k classcache_state \<times> (nat \<times> uint32) option) c_run" where
  "mulle_objc_universe_add_classcacheentry_swapcaches classid_of empty_cache s old_cache cls =
     run_bind (heap_get (classcache_heap s) old_cache) (\<lambda>old.
     run_bind (mulle_objc_cache_new (cache_size old * 2)) (\<lambda>new.
     run_bind (mulle_objc_cache_add_pointer_inactive new (Some cls) (classid_of cls)) (\<lambda>(new', offset).
       let (h1, b) = heap_alloc (classcache_heap s) new' in
       run_bind (mulle_objc_cachepivot_cas_entries (classcache_pivot s) (Some b) (Some old_cache)) (\<lambda>(pivot', failed).
         if failed \<noteq> 0
         then run_return (s\<lparr> classcache_pivot := pivot', classcache_heap := mulle_objc_cache_free h1 b \<rparr>, None)
         else run_return (s\<lparr> classcache_pivot := pivot',
                classcache_heap := (if old_cache \<noteq> empty_cache then mulle_objc_cache_abafree h1 (Some old_cache) else h1) \<rparr>,
                Some (b, offset))))))"

partial_function (option) mulle_objc_universe_fill_classcache ::
    "('k \<Rightarrow> uint32) \<Rightarrow> nat \<Rightarrow> uint32 \<Rightarrow> 'k \<Rightarrow> 'k classcache_state \<Rightarrow> ('k classcache_state \<times> (nat \<times> uint32)) c_run" where
  "mulle_objc_universe_fill_classcache classid_of empty_cache fillrate infra s =
     (case classcache_pivot s of
        None \<Rightarrow> run_fault Out_Of_Bounds
      | Some a \<Rightarrow>
     (case heap_get (classcache_heap s) a of None \<Rightarrow> None | Some (Inl e) \<Rightarrow> run_fault e | Some (Inr cache) \<Rightarrow>
     (case mulle_objc_cache_should_grow cache fillrate of
        None \<Rightarrow> None | Some (Inl e) \<Rightarrow> run_fault e | Some (Inr grow) \<Rightarrow>
      if grow
      then
        (case mulle_objc_universe_add_classcacheentry_swapcaches classid_of empty_cache s a infra of
           None \<Rightarrow> None | Some (Inl e) \<Rightarrow> run_fault e | Some (Inr (s', entry)) \<Rightarrow>
         (case entry of
            Some en \<Rightarrow> run_return (s', en)
          | None \<Rightarrow> mulle_objc_universe_fill_classcache classid_of empty_cache fillrate infra s'))
      else
        (case mulle_objc_cache_add_pointer_entry cache infra (classid_of infra) of
           None \<Rightarrow> None | Some (Inl e) \<Rightarrow> run_fault e | Some (Inr (cache', offset)) \<Rightarrow>
         let s' = s\<lparr> classcache_heap := heap_put (classcache_heap s) a cache' \<rparr> in
         (case offset of
            Some off \<Rightarrow> run_return (s', (a, off))
          | None \<Rightarrow> mulle_objc_universe_fill_classcache classid_of empty_cache fillrate infra s')))))"

text \<open>
  \<open>refresh_classcache\<close>: the class table is a lookup function of the state of the universe
  \<open>'u\<close>, the callback \<open>class_is_missing\<close> may load classes and says whether nothing changed;
  it is asked at most once.
\<close>

definition mulle_objc_universe_refresh_classcache ::
    "('u \<Rightarrow> uint32 \<Rightarrow> 'k option) \<Rightarrow> ('u \<Rightarrow> uint32 \<Rightarrow> 'u \<times> bool) \<Rightarrow> bool \<Rightarrow>
     ('k \<Rightarrow> uint32) \<Rightarrow> nat \<Rightarrow> uint32 \<Rightarrow> 'u \<Rightarrow> 'k classcache_state \<Rightarrow> uint32 \<Rightarrow>
     ('u \<times> 'k classcache_state \<times> (nat \<times> uint32) option) c_run" where
  "mulle_objc_universe_refresh_classcache classtable class_is_missing deinitializing
       classid_of empty_cache fillrate universe s classid =
     (let fill = (\<lambda>u infra. run_bind (mulle_objc_universe_fill_classcache classid_of empty_cache fillrate infra s)
            (\<lambda>(s', entry). run_return (u, s', Some entry))) in
      case classtable universe classid of
        Some infra \<Rightarrow> fill universe infra
      | None \<Rightarrow>
          if deinitializing then run_return (universe, s, None)
          else
            let (universe', nochange) = class_is_missing universe classid in
            if nochange then run_return (universe', s, None)
            else (case classtable universe' classid of
                    Some infra \<Rightarrow> fill universe' infra
                  | None \<Rightarrow> run_return (universe', s, None)))"

definition mulle_objc_universe_invalidate_classcache :: "'k classcache_state \<Rightarrow> nat \<Rightarrow> 'k classcache_state c_run" where
  "mulle_objc_universe_invalidate_classcache s empty_cache =
     (case classcache_pivot s of
        None \<Rightarrow> run_fault Out_Of_Bounds
      | Some a \<Rightarrow>
          if a = empty_cache then run_return s
          else run_return (s\<lparr> classcache_pivot := Some empty_cache,
                  classcache_heap := mulle_objc_cache_abafree (classcache_heap s) (Some a) \<rparr>))"

section \<open>Setting and finding a KVC entry\<close>

definition kvc_ok :: "nat \<Rightarrow> 'p kvc_state \<Rightarrow> nat \<Rightarrow> bool" where
  "kvc_ok k s a \<longleftrightarrow> kvc_pivot s = Some a \<and> pivot_ok k (kvc_heap s) a"

definition kvc_cache :: "'p kvc_state \<Rightarrow> nat \<Rightarrow> 'p kvccache" where
  "kvc_cache s a = heap_blocks (kvc_heap s) ! a"

lemma half_full_iff:
  assumes inv: "cache_inv k c"
  shows "cache_n c \<ge> ucast (drop_bit 1 (cache_size c)) \<longleftrightarrow> 2 ^ (k - 1) \<le> cache_used (cache_entries c)"
proof -
  note sh = cache_shapeD [OF cache_inv_shape [OF inv]]
  have "unat (drop_bit 1 (cache_size c)) = 2 ^ k div 2"
    by (simp add: drop_bit_eq_div sh(5) unat_div power_word32 [OF sh(1)])
  also have "\<dots> = 2 ^ (k - 1)" using sh(4) by (cases k) auto
  finally have h: "unat (drop_bit 1 (cache_size c)) = 2 ^ (k - 1)" .
  have "k - 1 < 64" using sh(1) by simp
  then have "unat (ucast (drop_bit 1 (cache_size c)) :: uint64) = 2 ^ (k - 1)"
    by (simp add: unsigned_ucast_eq h [unfolded One_nat_def] take_bit_nat_eq_self)
  then show ?thesis using inv by (simp add: word_le_nat_alt cache_inv_def)
qed

text \<open>The state after the cache at \<open>a\<close> was replaced by \<open>new\<close>.\<close>

definition kvc_grown :: "'p kvc_state \<Rightarrow> nat \<Rightarrow> nat \<Rightarrow> 'p kvccache \<Rightarrow> 'p kvc_state" where
  "kvc_grown s a empty_cache new =
     (let s1 = s\<lparr> kvc_pivot := Some (length (heap_blocks (kvc_heap s))),
                kvc_heap := (kvc_heap s)\<lparr> heap_blocks := heap_blocks (kvc_heap s) @ [new] \<rparr> \<rparr>
      in if a \<noteq> empty_cache
         then s1\<lparr> kvc_abafreed_infos :=
                rev (map kvcinfo_address (List.map_filter entry_value (cache_entries (kvc_cache s a)))) @ kvc_abafreed_infos s,
              kvc_heap := (kvc_heap s1)\<lparr> heap_abafreed := a # heap_abafreed (kvc_heap s) \<rparr> \<rparr>
         else s1)"

lemma kvc_grown_ok:
  assumes "kvc_ok k s a" "cache_inv k' new"
  shows "kvc_ok k' (kvc_grown s a empty_cache new) (length (heap_blocks (kvc_heap s)))"
    and "kvc_cache (kvc_grown s a empty_cache new) (length (heap_blocks (kvc_heap s))) = new"
  using assms by (auto simp: kvc_ok_def pivot_ok_def kvc_grown_def kvc_cache_def Let_def)

lemma kvc_grow:
  assumes ok: "kvc_ok k s a" and k: "Suc k < 28" and u: "mulle_objc_uniqueid_is_sane u"
  obtains new off where "mulle_objc_kvccachepivot_add_cacheentry_by_swapping_caches s a empty_cache info u =
      run_return
       (kvc_grown s a empty_cache new, Some (length (heap_blocks (kvc_heap s)), off))"
    and "cache_inv (Suc k) new" "cache_lookup new u = Some info" "cache_used (cache_entries new) = 1"
proof -
  let ?c = "kvc_cache s a"
  have piv: "kvc_pivot s = Some a" and pok: "pivot_ok k (kvc_heap s) a" using ok by (simp_all add: kvc_ok_def)
  have inv: "cache_inv k ?c" using pok by (simp add: pivot_ok_def kvc_cache_def)
  note sh = cache_shapeD [OF cache_inv_shape [OF inv]]
  have k2: "2 \<le> Suc k" using sh(4) by simp
  let ?e = "mulle_objc_cache_init (cache_calloc (2 ^ Suc k)) (2 ^ Suc k) :: 'a kvccache"
  note new = cache_new_inv [OF k2 k, where 'v = "'a mulle_objc_kvcinfo"]
  have "cache_used (cache_entries ?e) < 2 ^ Suc k" unfolding new(3) by simp
  from add_absent [OF new(2) u cache_lookup_new this, of info]
  obtain i where i: "cache_inserted (Suc k) ?e u info (cache_insert_at ?e i u info)"
      "mulle_objc_cache_add_pointer_inactive ?e (Some info) u = run_return (cache_insert_at ?e i u info, slot_offset i)"
    by metis
  have size: "cache_size ?c * 2 = 2 ^ Suc k" using sh(5) by (simp add: mult.commute)
  have get: "heap_get (kvc_heap s) a = run_return ?c" using pivot_get [OF pok] by (simp add: kvc_cache_def)
  have al: "a < length (heap_blocks (kvc_heap s))" "a \<notin> set (heap_freed (kvc_heap s))"
    using pok by (simp_all add: pivot_ok_def)
  let ?n = "cache_insert_at ?e i u info"
  show ?thesis
  proof (rule that [of ?n "slot_offset i"])
    show "mulle_objc_kvccachepivot_add_cacheentry_by_swapping_caches s a empty_cache info u =
      run_return
       (kvc_grown s a empty_cache ?n, Some (length (heap_blocks (kvc_heap s)), slot_offset i))"
      unfolding mulle_objc_kvccachepivot_add_cacheentry_by_swapping_caches_def get run_bind_simps size
        mulle_objc_kvccache_new_def new(1) mulle_objc_kvccache_inactivecache_add_entry_def i(2)
      using al piv
      by (simp add: heap_alloc_def mulle_objc_cachepivot_cas_entries_def mulle_objc_kvccache_abafree_def
          heap_get_def nth_append kvc_cache_def kvc_grown_def Let_def del: power_Suc)
  qed (use i(1) new(3) in \<open>auto simp: cache_inserted_def sane_nonzero [OF u] simp del: power_Suc cache_entries_new\<close>)
qed

text \<open>C33: Setting a KVC entry whose key id is not in the cache yet succeeds, with or without growth,
  and looking its key up afterwards finds exactly this entry.\<close>

theorem kvccache_set_then_lookup:
  assumes ok: "kvc_ok k s a" and k: "Suc k < 28"
    and u: "mulle_objc_uniqueid_is_sane (from_string (kvcinfo_cKey info))"
    and none: "cache_lookup (kvc_cache s a) (from_string (kvcinfo_cKey info)) = None"
  shows "\<exists>s' k' b. mulle_objc_kvccachepivot_set_kvcinfo from_string info empty_cache s = run_return (s', 0) \<and>
    kvc_ok k' s' b \<and>
    mulle_objc_kvccache_lookup_kvcinfo from_string (kvc_cache s' b) (kvcinfo_cKey info) = run_return (Kvc_Info info)"
proof -
  let ?c = "kvc_cache s a" and ?u = "from_string (kvcinfo_cKey info)"
  have piv: "kvc_pivot s = Some a" and pok: "pivot_ok k (kvc_heap s) a" using ok by (simp_all add: kvc_ok_def)
  have inv: "cache_inv k ?c" using pok by (simp add: pivot_ok_def kvc_cache_def)
  have get: "heap_get (kvc_heap s) a = run_return ?c" using pivot_get [OF pok] by (simp add: kvc_cache_def)
  have found: "mulle_objc_kvccache_lookup_kvcinfo from_string c (kvcinfo_cKey info) = run_return (Kvc_Info info)"
    if "cache_inv j c" "cache_lookup c ?u = Some info" for j c
    using probe_functionpointer_correct [OF that(1) u] that(2)
    by (simp add: mulle_objc_kvccache_lookup_kvcinfo_def probe_pointer_eq)
  show ?thesis
  proof (cases "2 ^ (k - 1) \<le> cache_used (cache_entries ?c)")
    case True
    obtain new off where g: "mulle_objc_kvccachepivot_add_cacheentry_by_swapping_caches s a empty_cache info ?u =
      run_return
       (kvc_grown s a empty_cache new, Some (length (heap_blocks (kvc_heap s)), off))"
      "cache_inv (Suc k) new" "cache_lookup new ?u = Some info"
      using kvc_grow [OF ok k u, of empty_cache info] by metis
    have "mulle_objc_kvccachepivot_set_kvcinfo from_string info empty_cache s =
        run_return (kvc_grown s a empty_cache new, 0)"
      using piv get half_full_iff [OF inv] True g(1)
      by (subst mulle_objc_kvccachepivot_set_kvcinfo.simps) (simp add: Let_def)
    then show ?thesis using kvc_grown_ok [OF ok g(2), of empty_cache] found [OF g(2,3)] by metis
  next
    case False
    have "2 ^ (k - 1) \<le> (2::nat) ^ k" by (rule power_increasing) auto
    then have "cache_used (cache_entries ?c) < 2 ^ k" using False by linarith
    from add_absent [OF inv u none this, of info] obtain i where i: "cache_inserted k ?c ?u info (cache_insert_at ?c i ?u info)"
        "mulle_objc_cache_add_pointer_entry ?c info ?u = run_return (cache_insert_at ?c i ?u info, Some (slot_offset i))"
      by metis
    let ?n = "cache_insert_at ?c i ?u info"
    let ?s = "s\<lparr> kvc_heap := heap_put (kvc_heap s) a ?n \<rparr>"
    have n: "cache_inv k ?n" "cache_lookup ?n ?u = Some info"
      using i(1) sane_nonzero [OF u] by (auto simp: cache_inserted_def)
    have "mulle_objc_kvccachepivot_set_kvcinfo from_string info empty_cache s = run_return (?s, 0)"
      using piv get half_full_iff [OF inv] False i(2)
      by (subst mulle_objc_kvccachepivot_set_kvcinfo.simps) (simp add: Let_def mulle_objc_kvccache_add_entry_def)
    moreover have "kvc_ok k ?s a" "kvc_cache ?s a = ?n"
      using piv pivot_put [OF pok, of ?n] n(1) by (simp_all add: kvc_ok_def kvc_cache_def)
    ultimately show ?thesis using found [OF n] by metis
  qed
qed

definition example_kvcinfo :: "string \<Rightarrow> nat \<Rightarrow> unit mulle_objc_kvcinfo" where
  "example_kvcinfo key n = \<lparr> kvcinfo_address = n, kvcinfo_cKey = key, kvcinfo_payload = () \<rparr>"

definition example_kvc_state :: "unit kvc_state" where
  "example_kvc_state = \<lparr> kvc_pivot = Some 0, kvc_heap = pivot_fresh 2, kvc_abafreed_infos = [] \<rparr>"

lemma example_kvc_ok: "kvc_ok 2 example_kvc_state 0"
  using pivot_fresh_ok [of 2] by (simp add: kvc_ok_def example_kvc_state_def)

lemma kvccache_set_then_lookup_witness:
  "\<exists>s' k' b. mulle_objc_kvccachepivot_set_kvcinfo (\<lambda>key. 0x50) (example_kvcinfo [] 1) 9 example_kvc_state = run_return (s', 0) \<and>
    kvc_ok k' s' b \<and>
    mulle_objc_kvccache_lookup_kvcinfo (\<lambda>key. 0x50) (kvc_cache s' b) [] = run_return (Kvc_Info (example_kvcinfo [] 1))"
proof -
  have "cache_lookup (kvc_cache example_kvc_state 0) 0x50 = None"
    by (simp add: kvc_cache_def example_kvc_state_def)
  moreover have "mulle_objc_uniqueid_is_sane 0x50" by code_simp
  ultimately show ?thesis
    using kvccache_set_then_lookup [OF example_kvc_ok, of "\<lambda>key. 0x50" "example_kvcinfo [] 1" 9]
    by (simp add: example_kvcinfo_def)
qed

text \<open>When another entry with the same key id is already in a KVC cache that need not grow, the
  set does not report the documented conflict result -1: the add underneath it fails its
  assertion. (The result -1 needs a second thread to win the compare-and-swap.)\<close>

theorem kvccache_conflict_asserts:
  assumes ok: "kvc_ok k s a"
    and u: "mulle_objc_uniqueid_is_sane (from_string (kvcinfo_cKey info))"
    and other: "cache_lookup (kvc_cache s a) (from_string (kvcinfo_cKey info)) = Some w" "w \<noteq> info"
    and room: "cache_used (cache_entries (kvc_cache s a)) < 2 ^ (k - 1)"
  shows "mulle_objc_kvccachepivot_set_kvcinfo from_string info empty_cache s = run_fault Assertion"
proof -
  have inv: "cache_inv k (kvc_cache s a)" using ok by (simp add: kvc_ok_def pivot_ok_def kvc_cache_def)
  have "mulle_objc_cache_add_pointer_entry (kvc_cache s a) info (from_string (kvcinfo_cKey info)) = run_fault Assertion"
    using add_present [OF inv u other(1)] other(2) by metis
  moreover have "heap_get (kvc_heap s) a = run_return (kvc_cache s a)" "kvc_pivot s = Some a"
    using ok pivot_get [of k "kvc_heap s" a] by (simp_all add: kvc_ok_def kvc_cache_def)
  ultimately show ?thesis
    using half_full_iff [OF inv] room
    by (subst mulle_objc_kvccachepivot_set_kvcinfo.simps) (simp add: Let_def mulle_objc_kvccache_add_entry_def)
qed

definition example_kvc_used :: "unit kvc_state" where
  "example_kvc_used = \<lparr> kvc_pivot = Some 0, kvc_heap = \<lparr> heap_blocks = [\<lparr> cache_n = 1, cache_size = 4, cache_mask = 0x30,
     cache_entries = [cacheentry_zero, \<lparr> entry_key = 0x50, entry_value = Some (example_kvcinfo [CHR ''a''] 1) \<rparr>,
       cacheentry_zero, cacheentry_zero] \<rparr>],
     heap_freed = [], heap_abafreed = [] \<rparr>, kvc_abafreed_infos = [] \<rparr>"

lemma kvccache_conflict_asserts_witness:
  "mulle_objc_kvccachepivot_set_kvcinfo (\<lambda>key. 0x50) (example_kvcinfo [CHR ''b''] 2) 9 example_kvc_used = run_fault Assertion"
proof -
  have "kvc_ok 2 example_kvc_used 0"
    by (simp add: kvc_ok_def pivot_ok_def example_kvc_used_def cache_inv_def cache_shape_def preshift_def
        all_less_4 cache_reachable_def cache_slot_def slot_dist_def cache_used_def cacheentry_zero_def)
  moreover have "mulle_objc_uniqueid_is_sane 0x50" by code_simp
  ultimately show ?thesis
    by (rule kvccache_conflict_asserts [where w = "example_kvcinfo [CHR ''a''] 1"])
       (simp_all add: example_kvc_used_def kvc_cache_def cache_lookup_def example_kvcinfo_def
         cacheentry_zero_def cache_used_def)
qed

end
