(* ===== verification/Class_Lookup.thy ===== *)
theory Class_Lookup
  imports Class_Search_Properties Kvccache
begin

text \<open>
  Method lookup (\<open>mulle-objc-class-lookup.h\<close>, \<open>.c\<close>): the method cache of a class in front of
  the method search. The state joins the heap of the search with the class's cache pivot and
  the heap of the caches; the class whose methods are looked up, the environment of the
  search and the universe of the caches are parameters.
\<close>

section \<open>The lookup\<close>

record ('cb, 'imp) lookup_state =
  lk_world :: "'imp search_world"
  lk_class :: impcache_class
  lk_heap :: "('cb, 'imp) mulle_objc_impcache cache_heap"

definition lookup_noprobe :: uint32 where [c_defs]: "lookup_noprobe = 0x1"
definition lookup_noforward :: uint32 where [c_defs]: "lookup_noforward = 0x2"
definition lookup_lazyforward :: uint32 where [c_defs]: "lookup_lazyforward = 0x4"
definition lookup_nofail :: uint32 where [c_defs]: "lookup_nofail = 0x8"
definition lookup_nofill :: uint32 where [c_defs]: "lookup_nofill = 0x10"

text \<open>The probe is the loop of the inlined impcache probe: it stops at the key or at an empty key.\<close>

definition mulle_objc_class_probe_implementation ::
    "('cb, 'imp) lookup_state \<Rightarrow> uint32 \<Rightarrow> 'imp option c_run" where
  "mulle_objc_class_probe_implementation st methodid =
     (case class_cachepivot (lk_class st) of
        None \<Rightarrow> run_fault Out_Of_Bounds
      | Some a \<Rightarrow> run_bind (heap_get (lk_heap st) a) (\<lambda>icache.
          impcachepivot_probe_loop (cache_entries (impcache_cache icache)) (cache_mask (impcache_cache icache))
            methodid methodid))"

definition mulle_objc_class_is_forwardimplementation :: "'imp search_world \<Rightarrow> nat \<Rightarrow> 'imp \<Rightarrow> bool" where
  "mulle_objc_class_is_forwardimplementation w cls imp =
     (case sc_forwardmethod (w_class w cls) of
        None \<Rightarrow> False
      | Some m \<Rightarrow> method_implementation (world_method w m) = imp)"

definition lookup_fill ::
    "'cb impcache_universe \<Rightarrow> method_ptr \<Rightarrow> uint32 \<Rightarrow> ('cb, 'imp) lookup_state \<Rightarrow> ('cb, 'imp) lookup_state c_run" where
  "lookup_fill universe method uniqueid st =
     run_bind (mulle_objc_class_fill_impcache_method universe (lk_class st) (lk_heap st)
                 (world_method (lk_world st) method) uniqueid) (\<lambda>(c, h).
       run_return (st\<lparr> lk_class := c, lk_heap := h \<rparr>))"

definition mulle_objc_class_lookup_implementation_mode ::
    "'imp search_env \<Rightarrow> nat \<Rightarrow> nat \<Rightarrow> 'cb impcache_universe \<Rightarrow> nat \<Rightarrow> uint32 \<Rightarrow> uint32 \<Rightarrow>
     ('cb, 'imp) lookup_state \<Rightarrow> ('imp option \<times> ('cb, 'imp) lookup_state) c_run" where
  "mulle_objc_class_lookup_implementation_mode env depth rounds universe cls methodid mode st =
     c_assert (mulle_objc_uniqueid_is_sane methodid)
     (run_bind (if mode AND lookup_noprobe = 0 then mulle_objc_class_probe_implementation st methodid else run_return None)
       (\<lambda>cached.
        case cached of
          Some imp \<Rightarrow>
            if mode AND lookup_noforward \<noteq> 0 \<and> mulle_objc_class_is_forwardimplementation (lk_world st) cls imp
            then if mode AND lookup_nofail \<noteq> 0 then run_fault Aborted else run_return (None, st)
            else run_return (Some imp, st)
        | None \<Rightarrow>
            run_bind (mulle_objc_class_defaultsearch_method env depth rounds (Some cls) methodid (lk_world st))
              (\<lambda>(method0, e, w1).
            run_bind
              (case method0 of
                 Some m \<Rightarrow> run_return (Some m, w1)
               | None \<Rightarrow>
                   run_bind (if mode AND lookup_lazyforward \<noteq> 0
                             then mulle_objc_class_lazyget_forwardmethod env depth rounds cls w1
                             else run_return (None, None, w1)) (\<lambda>(method1, e1, w2).
                     if method1 = None \<and> mode AND lookup_nofail \<noteq> 0 then run_fault Aborted
                     else run_return (method1, w2)))
              (\<lambda>(method, w3).
                let st3 = st\<lparr> lk_world := w3 \<rparr> in
                case method of
                  None \<Rightarrow> if mode AND lookup_nofail \<noteq> 0 then run_fault Aborted else run_return (None, st3)
                | Some m \<Rightarrow>
                    run_bind (if mode AND lookup_nofill = 0 then lookup_fill universe m methodid st3 else run_return st3)
                      (\<lambda>st4. run_return (Some (method_implementation (world_method w3 m)), st4))))))"

definition mulle_objc_class_lookup_implementation where
  "mulle_objc_class_lookup_implementation env depth rounds universe cls methodid =
     mulle_objc_class_lookup_implementation_mode env depth rounds universe cls methodid lookup_lazyforward"

definition mulle_objc_class_lookup_implementation_nofail where
  "mulle_objc_class_lookup_implementation_nofail env depth rounds universe cls methodid =
     mulle_objc_class_lookup_implementation_mode env depth rounds universe cls methodid
       (lookup_lazyforward OR lookup_nofail)"

definition mulle_objc_class_lookup_implementation_nofill where
  "mulle_objc_class_lookup_implementation_nofill env depth rounds universe cls methodid =
     mulle_objc_class_lookup_implementation_mode env depth rounds universe cls methodid
       (lookup_lazyforward OR lookup_nofill)"

definition mulle_objc_class_lookup_implementation_noforward where
  "mulle_objc_class_lookup_implementation_noforward env depth rounds universe cls methodid =
     mulle_objc_class_lookup_implementation_mode env depth rounds universe cls methodid lookup_noforward"

definition mulle_objc_class_lookup_implementation_noforward_nofill where
  "mulle_objc_class_lookup_implementation_noforward_nofill env depth rounds universe cls methodid =
     mulle_objc_class_lookup_implementation_mode env depth rounds universe cls methodid
       (lookup_nofill OR lookup_noforward)"

definition mulle_objc_class_lookup_implementation_nofail_nofill where
  "mulle_objc_class_lookup_implementation_nofail_nofill env depth rounds universe cls methodid =
     mulle_objc_class_lookup_implementation_mode env depth rounds universe cls methodid
       ((lookup_nofill OR lookup_lazyforward) OR lookup_nofail)"

section \<open>Refreshing the cache\<close>

definition mulle_objc_class_refresh_method_nofail ::
    "'imp search_env \<Rightarrow> nat \<Rightarrow> nat \<Rightarrow> 'cb impcache_universe \<Rightarrow> nat \<Rightarrow> uint32 \<Rightarrow>
     ('cb, 'imp) lookup_state \<Rightarrow> (method_ptr \<times> ('cb, 'imp) lookup_state) c_run" where
  "mulle_objc_class_refresh_method_nofail env depth rounds universe cls methodid st =
     run_bind (mulle_objc_class_search_method_nofail env depth rounds cls methodid (lk_world st)) (\<lambda>(m, w).
     run_bind (lookup_fill universe m methodid (st\<lparr> lk_world := w \<rparr>)) (\<lambda>st'. run_return (m, st')))"

definition mulle_objc_class_refresh_implementation_nofail ::
    "'imp search_env \<Rightarrow> nat \<Rightarrow> nat \<Rightarrow> 'cb impcache_universe \<Rightarrow> nat \<Rightarrow> uint32 \<Rightarrow>
     ('cb, 'imp) lookup_state \<Rightarrow> ('imp \<times> ('cb, 'imp) lookup_state) c_run" where
  "mulle_objc_class_refresh_implementation_nofail env depth rounds universe cls methodid st =
     run_bind (mulle_objc_class_search_method_nofail env depth rounds cls methodid (lk_world st)) (\<lambda>(m, w).
     run_bind (lookup_fill universe m methodid (st\<lparr> lk_world := w \<rparr>)) (\<lambda>st'.
       run_return (method_implementation (world_method (lk_world st') m), st')))"

definition mulle_objc_class_refresh_supermethod_nofail ::
    "'imp search_env \<Rightarrow> nat \<Rightarrow> nat \<Rightarrow> 'cb impcache_universe \<Rightarrow> nat \<Rightarrow> uint32 \<Rightarrow>
     ('cb, 'imp) lookup_state \<Rightarrow> (method_ptr \<times> ('cb, 'imp) lookup_state) c_run" where
  "mulle_objc_class_refresh_supermethod_nofail env depth rounds universe cls superid st =
     run_bind (mulle_objc_class_supersearch_method_nofail env depth rounds cls superid (lk_world st)) (\<lambda>(m, w).
     run_bind (lookup_fill universe m superid (st\<lparr> lk_world := w \<rparr>)) (\<lambda>st'. run_return (m, st')))"

definition mulle_objc_class_refresh_superimplementation_nofail ::
    "'imp search_env \<Rightarrow> nat \<Rightarrow> nat \<Rightarrow> 'cb impcache_universe \<Rightarrow> nat \<Rightarrow> uint32 \<Rightarrow>
     ('cb, 'imp) lookup_state \<Rightarrow> ('imp \<times> ('cb, 'imp) lookup_state) c_run" where
  "mulle_objc_class_refresh_superimplementation_nofail env depth rounds universe cls superid st =
     run_bind (mulle_objc_class_supersearch_method_nofail env depth rounds cls superid (lk_world st)) (\<lambda>(m, w).
     run_bind (lookup_fill universe m superid (st\<lparr> lk_world := w \<rparr>)) (\<lambda>st'.
       run_return (method_implementation (world_method (lk_world st') m), st')))"

definition mulle_objc_class_lookup_superimplementation_inline_nofail ::
    "'imp search_env \<Rightarrow> nat \<Rightarrow> nat \<Rightarrow> 'cb impcache_universe \<Rightarrow> nat \<Rightarrow> uint32 \<Rightarrow>
     ('cb, 'imp) lookup_state \<Rightarrow> ('imp \<times> ('cb, 'imp) lookup_state) c_run" where
  "mulle_objc_class_lookup_superimplementation_inline_nofail env depth rounds universe cls superid st =
     run_bind (mulle_objc_class_probe_implementation st superid) (\<lambda>cached.
       case cached of
         Some imp \<Rightarrow> run_return (imp, st)
       | None \<Rightarrow> mulle_objc_class_refresh_superimplementation_nofail env depth rounds universe cls superid st)"

text \<open>\<open>search_supermethod_nofail\<close> repeats the body of \<open>supersearch_method_nofail\<close>.\<close>

definition mulle_objc_class_search_supermethod_nofail ::
    "'imp search_env \<Rightarrow> nat \<Rightarrow> nat \<Rightarrow> nat \<Rightarrow> uint32 \<Rightarrow> 'imp search_world \<Rightarrow> (method_ptr \<times> 'imp search_world) c_run" where
  "mulle_objc_class_search_supermethod_nofail env depth rounds cls superid w =
     (case env_lookup_super env superid of
        None \<Rightarrow> run_fault Aborted
      | Some (methodid, classid) \<Rightarrow>
          run_bind (mulle_objc_class_search_method env depth rounds (Some cls)
            (Some (mulle_objc_searcharguments_make_super methodid classid))
            (sc_inheritance (w_class w cls)) (search_start w)) (\<lambda>(method, s).
              case method of
                Some m \<Rightarrow> run_return (m, st_world s)
              | None \<Rightarrow> mulle_objc_class_get_forwardmethod_lazy_nofail env depth rounds cls methodid (st_world s)))"

definition mulle_objc_object_lookup_superimplementation_noforward_nofill ::
    "'imp search_env \<Rightarrow> nat \<Rightarrow> nat \<Rightarrow> nat \<Rightarrow> uint32 \<Rightarrow> 'imp search_world \<Rightarrow> ('imp option \<times> 'imp search_world) c_run" where
  "mulle_objc_object_lookup_superimplementation_noforward_nofill env depth rounds isa superid w =
     (case env_lookup_super env superid of
        None \<Rightarrow> run_fault Aborted
      | Some (methodid, classid) \<Rightarrow>
          run_bind (mulle_objc_class_search_method env depth rounds (Some isa)
            (Some (mulle_objc_searcharguments_make_super methodid classid))
            (sc_inheritance (w_class w isa)) (search_start w)) (\<lambda>(method, s).
              run_return (map_option (\<lambda>m. method_implementation (world_method (st_world s) m)) method, st_world s)))"

section \<open>Marking a method changes no answer\<close>

lemma mark_searched_sel [simp]:
  "method_methodid (mark_searched m) = method_methodid m"
  "method_implementation (mark_searched m) = method_implementation m"
  by (simp_all add: mark_searched_def)

lemma world_mark_sel [simp]:
  "w_class (world_mark_searched p w) = w_class w" "w_pair (world_mark_searched p w) = w_pair w"
  by (simp_all add: world_mark_searched_def)

text \<open>The view of the method lists that a search depends on.\<close>

definition same_methods :: "'imp search_world \<Rightarrow> 'imp search_world \<Rightarrow> bool" where
  "same_methods w w' \<longleftrightarrow> w_pair w = w_pair w' \<and> w_class w = w_class w' \<and>
     (\<forall>l. map method_methodid (ml_methods (w_list w l)) = map method_methodid (ml_methods (w_list w' l)) \<and>
          map method_implementation (ml_methods (w_list w l)) = map method_implementation (ml_methods (w_list w' l)) \<and>
          map (\<lambda>m. mulle_objc_descriptor_is_hidden_override_fatal (method_descriptor m)) (ml_methods (w_list w l)) =
          map (\<lambda>m. mulle_objc_descriptor_is_hidden_override_fatal (method_descriptor m)) (ml_methods (w_list w' l)))"

lemma same_methods_refl [simp]: "same_methods w w"
  by (simp add: same_methods_def)

lemma same_methods_sym: "same_methods w w' \<Longrightarrow> same_methods w' w"
  by (simp add: same_methods_def)

lemma same_methods_trans: "same_methods w w' \<Longrightarrow> same_methods w' w'' \<Longrightarrow> same_methods w w''"
  by (simp add: same_methods_def)

lemma map_list_update_same: "f y = f (xs ! k) \<Longrightarrow> map f (xs[k := y]) = map f xs"
  by (cases "k < length xs") (auto simp: map_update list_update_same_conv list_update_beyond)

lemma same_methods_mark: "same_methods w (world_mark_searched p w)"
  by (auto simp: same_methods_def world_mark_searched_def world_method_def map_list_update_same)

lemma searchable_list_alt:
  "searchable_list ms \<longleftrightarrow> sorted (map method_methodid ms) \<and> distinct (map method_methodid ms) \<and>
     length (map method_methodid ms) \<le> 2 ^ 30 \<and>
     (\<forall>b \<in> set (map (\<lambda>m. mulle_objc_descriptor_is_hidden_override_fatal (method_descriptor m)) ms). \<not> b)"
  by (simp add: searchable_list_def)

lemma searchable_same_methods: "same_methods w w' \<Longrightarrow> searchable_world w stop \<Longrightarrow> searchable_world w' stop"
  unfolding searchable_world_def searchable_list_alt same_methods_def by metis

lemma ranked_same_methods: "same_methods w w' \<Longrightarrow> ranked w r \<Longrightarrow> ranked w' r"
  by (simp add: same_methods_def ranked_def)

lemma visits_same_methods:
  assumes "same_methods w w'"
  shows "class_visits d w c inh = class_visits d w' c inh"
proof (induction d arbitrary: c inh)
  case (Suc d)
  have same: "w_class w = w_class w'" "w_pair w = w_pair w'" using assms by (simp_all add: same_methods_def)
  show ?case unfolding class_visits.simps same mixin_walk_class_def Suc.IH by (rule refl)
qed simp

lemma lists_same_methods:
  assumes "same_methods w w'"
  shows "lists_of_visits w vs = lists_of_visits w' vs"
proof -
  have "w_class w = w_class w'" using assms by (simp add: same_methods_def)
  then have "visit_lists w = visit_lists w'" by (simp add: visit_lists_def)
  then show ?thesis by (simp add: lists_of_visits_def)
qed

lemma list_find_loop_key: "list_find_loop (\<lambda>m. f m = u) xs i = list_find_loop (\<lambda>k. k = u) (map f xs) i"
  by (induction xs arbitrary: i) auto

lemma method_in_same_methods:
  assumes "same_methods w w'"
  shows "method_in w u = method_in w' u"
proof
  fix x :: "nat \<times> nat"
  have "map method_methodid (ml_methods (w_list w (snd x))) = map method_methodid (ml_methods (w_list w' (snd x)))"
    using assms by (simp add: same_methods_def)
  then show "method_in w u x = method_in w' u x"
    by (simp add: method_in_def mulle_objc_methodlist_find_def list_find_loop_key [of method_methodid] case_prod_unfold)
qed

text \<open>What the scan finds is a method of a list, with the id.\<close>

lemma first_some_SomeD: "first_some f xs = Some y \<Longrightarrow> \<exists>x \<in> set xs. f x = Some y"
  by (induction xs) (auto split: option.splits)

lemma first_method_range:
  assumes "first_some (method_in w u) ls = Some (c, p)"
  shows "snd p < length (ml_methods (w_list w (fst p))) \<and> method_methodid (world_method w p) = u"
proof -
  obtain x where "method_in w u x = Some (c, p)" using first_some_SomeD [OF assms] by blast
  then show ?thesis by (cases x) (auto simp: method_in_def world_method_def dest: methodlist_find_range)
qed

lemma imp_same_methods:
  assumes "same_methods w w'" and "snd p < length (ml_methods (w_list w (fst p)))"
  shows "method_implementation (world_method w p) = method_implementation (world_method w' p)"
proof -
  let ?f = "\<lambda>w. map method_implementation (ml_methods (w_list w (fst p)))"
  have "?f w = ?f w'" using assms(1) by (simp add: same_methods_def)
  then have "?f w ! snd p = ?f w' ! snd p" "length (?f w) = length (?f w')" by simp_all
  then show ?thesis using assms(2) by (simp add: world_method_def)
qed

lemma methodid_same_methods:
  assumes "same_methods w w'" and "snd p < length (ml_methods (w_list w (fst p)))"
  shows "method_methodid (world_method w p) = method_methodid (world_method w' p)"
proof -
  let ?f = "\<lambda>w. map method_methodid (ml_methods (w_list w (fst p)))"
  have "?f w = ?f w'" using assms(1) by (simp add: same_methods_def)
  then have "?f w ! snd p = ?f w' ! snd p" "length (?f w) = length (?f w')" by simp_all
  then show ?thesis using assms(2) by (simp add: world_method_def)
qed

section \<open>Lookups agree with searches\<close>

definition first_method :: "nat \<Rightarrow> 'imp search_world \<Rightarrow> nat \<Rightarrow> uint32 \<Rightarrow> (nat \<times> method_ptr) option" where
  "first_method depth w cls u =
     first_some (method_in w u) (lists_of_visits w (class_visits depth w cls (sc_inheritance (w_class w cls))))"

text \<open>The implementation a message has: the first in the order of the search, else the forward method's.\<close>

definition resolve :: "nat \<Rightarrow> 'imp search_world \<Rightarrow> nat \<Rightarrow> uint32 \<Rightarrow> 'imp option" where
  "resolve depth w cls u = map_option (\<lambda>m. method_implementation (world_method w m))
     (case first_method depth w cls u of Some (c, p) \<Rightarrow> Some p | None \<Rightarrow> sc_forwardmethod (w_class w cls))"

text \<open>
  A class to send messages to: its world can be searched, it is initialized and has a forward
  method, caching is not forbidden, and no method is loaded on demand.
\<close>

definition lookup_setting ::
    "'imp search_env \<Rightarrow> nat \<Rightarrow> 'cb impcache_universe \<Rightarrow> nat \<Rightarrow> 'imp search_world \<Rightarrow> bool" where
  "lookup_setting env depth universe cls w \<longleftrightarrow>
     searchable_world w 0 \<and> (\<exists>r. ranked w r \<and> r cls + 2 \<le> depth) \<and> env_thread_registered env cls \<and>
     mulle_objc_class_is_initializing_or_initialized w cls \<and> (\<forall>w u. env_method_is_missing env w cls u = (True, w)) \<and>
     universe_cache_fillrate universe \<le> 75 \<and> universe_method_call universe = 0 \<and>
     (\<exists>f. sc_forwardmethod (w_class w cls) = Some f \<and> snd f < length (ml_methods (w_list w (fst f))))"

text \<open>The cache of the class answers each id with nothing or with the implementation it stands for.\<close>

definition coherent_with ::
    "(uint32 \<Rightarrow> 'imp option) \<Rightarrow> 'cb impcache_universe \<Rightarrow> ('cb, 'imp) lookup_state \<Rightarrow> bool" where
  "coherent_with reference universe st \<longleftrightarrow>
     class_state (lk_class st) AND MULLE_OBJC_CLASS_ALWAYS_EMPTY_CACHE = 0 \<and>
     class_state (lk_class st) AND MULLE_OBJC_CLASS_CACHE_READY \<noteq> 0 \<and>
     (\<exists>k a. class_cachepivot (lk_class st) = Some a \<and> impcache_pivot_ok universe k (lk_heap st) a \<and>
        (\<forall>q. mulle_objc_uniqueid_is_sane q \<longrightarrow>
           (\<exists>v. mulle_objc_cache_probe_functionpointer (impcache_at (lk_heap st) a) q = run_return v \<and>
                v \<in> {None, reference q})))"

definition cache_coherent ::
    "nat \<Rightarrow> nat \<Rightarrow> 'cb impcache_universe \<Rightarrow> 'imp search_world \<Rightarrow> ('cb, 'imp) lookup_state \<Rightarrow> bool" where
  "cache_coherent depth cls universe w st \<longleftrightarrow> coherent_with (resolve depth w cls) universe st"

definition lookup_inv ::
    "'imp search_env \<Rightarrow> nat \<Rightarrow> 'cb impcache_universe \<Rightarrow> nat \<Rightarrow> 'imp search_world \<Rightarrow> ('cb, 'imp) lookup_state \<Rightarrow> bool" where
  "lookup_inv env depth universe cls w st \<longleftrightarrow>
     lookup_setting env depth universe cls w \<and> same_methods w (lk_world st) \<and> cache_coherent depth cls universe w st"

lemma first_method_same: "same_methods w w' \<Longrightarrow> first_method depth w cls u = first_method depth w' cls u"
  unfolding first_method_def
  by (simp add: lists_same_methods visits_same_methods method_in_same_methods) (simp add: same_methods_def)

lemma probe_implementation_eq:
  assumes "class_cachepivot (lk_class st) = Some a" and "impcache_pivot_ok universe k (lk_heap st) a"
    and "mulle_objc_uniqueid_is_sane u"
  shows "mulle_objc_class_probe_implementation st u = mulle_objc_cache_probe_functionpointer (impcache_at (lk_heap st) a) u"
proof -
  have "cache_inv k (impcache_cache (heap_blocks (lk_heap st) ! a))" using assms(2) by (simp add: impcache_pivot_ok_def)
  from probe_inline_eq [OF this, of u] assms show ?thesis
    by (simp add: mulle_objc_class_probe_implementation_def impcache_get mulle_objc_impcachepivot_probe_inline_def
        impcache_at_def)
qed

text \<open>Filling a coherent cache with the implementation of the message keeps it coherent.\<close>

definition lookup_frame :: "('cb, 'imp) lookup_state \<Rightarrow> ('cb, 'imp) lookup_state \<Rightarrow> bool" where
  "lookup_frame st st' \<longleftrightarrow>
     (\<exists>a b. class_cachepivot (lk_class st) = Some a \<and> class_cachepivot (lk_class st') = Some b \<and>
        heap_extends a b (lk_heap st) (lk_heap st')) \<and>
     class_state (lk_class st') = class_state (lk_class st) \<and>
     class_infra_state (lk_class st') = class_infra_state (lk_class st)"

lemma lookup_fill_coherent:
  assumes "coherent_with reference universe st" and "universe_cache_fillrate universe \<le> 75"
    and "universe_method_call universe = 0" and u: "mulle_objc_uniqueid_is_sane u"
    and "reference u = Some (method_implementation (world_method (lk_world st) m))"
  obtains st' where "lookup_fill universe m u st = run_return st'" "coherent_with reference universe st'"
    "lk_world st' = lk_world st" "lookup_frame st st'"
proof -
  let ?v = "method_implementation (world_method (lk_world st) m)"
  obtain k a where a: "class_cachepivot (lk_class st) = Some a" and ok: "impcache_pivot_ok universe k (lk_heap st) a"
    and probes: "\<And>q. mulle_objc_uniqueid_is_sane q \<Longrightarrow>
      \<exists>v. mulle_objc_cache_probe_functionpointer (impcache_at (lk_heap st) a) q = run_return v \<and>
          v \<in> {None, reference q}"
    using assms(1) unfolding coherent_with_def by blast
  have inv: "cache_inv k (impcache_at (lk_heap st) a)" using ok by (simp add: impcache_pivot_ok_def impcache_at_def)
  have lookup: "cache_lookup (impcache_at (lk_heap st) a) q \<in> {None, reference q}"
    if "mulle_objc_uniqueid_is_sane q" for q
    using probes [OF that] probe_functionpointer_correct [OF inv that]
    by (cases "cache_lookup (impcache_at (lk_heap st) a) q") auto
  have "cache_lookup (impcache_at (lk_heap st) a) u \<in> {None, Some ?v}" using lookup [OF u] assms(5) by simp
  from class_fill_correct [OF ok assms(2) u this] obtain k' h' b off
    where fill: "mulle_objc_class_fill_impcachepivot_imp universe ?v u (Some a) (lk_heap st) = run_return (Some b, h', (b, off))"
      and ok': "impcache_pivot_ok universe k' h' b"
      and probes': "\<And>q. mulle_objc_uniqueid_is_sane q \<Longrightarrow> mulle_objc_cache_probe_functionpointer (impcache_at h' b) q =
         run_return (if q = u then Some ?v else if b = a then cache_lookup (impcache_at (lk_heap st) a) q else None)"
      and frame: "heap_extends a b (lk_heap st) h'"
    by blast
  let ?st' = "st\<lparr> lk_class := (lk_class st)\<lparr> class_cachepivot := Some b \<rparr>, lk_heap := h' \<rparr>"
  show ?thesis
  proof (rule that [of ?st'])
    show "lookup_fill universe m u st = run_return ?st'"
      using fill assms(1,3) a
      by (simp add: lookup_fill_def mulle_objc_class_fill_impcache_method_def coherent_with_def)
    have "\<exists>v. mulle_objc_cache_probe_functionpointer (impcache_at h' b) q = run_return v \<and> v \<in> {None, reference q}"
      if "mulle_objc_uniqueid_is_sane q" for q
      using probes' [OF that] lookup [OF that] assms(5) by auto
    with ok' assms(1) show "coherent_with reference universe ?st'" by (auto simp: coherent_with_def)
    show "lookup_frame st ?st'" using a frame by (simp add: lookup_frame_def)
  qed simp
qed

lemma cache_coherent_world [simp]:
  "cache_coherent depth cls universe w (st\<lparr> lk_world := w' \<rparr>) = cache_coherent depth cls universe w st"
  by (simp add: cache_coherent_def coherent_with_def)

text \<open>The uncached part of a lookup with a lazy forward method.\<close>

lemma uncached_lookup:
  assumes set: "lookup_setting env depth universe cls w0" and same: "same_methods w0 w"
    and u: "mulle_objc_uniqueid_is_sane u"
  obtains m e w1 where
    "mulle_objc_class_defaultsearch_method env depth (Suc rounds) (Some cls) u w = run_return (m, e, w1)"
    and "same_methods w0 w1"
    and "case m of Some p \<Rightarrow> method_methodid (world_method w1 p) = u \<and>
             resolve depth w0 cls u = Some (method_implementation (world_method w1 p))
         | None \<Rightarrow> (\<exists>f. sc_forwardmethod (w_class w1 cls) = Some f \<and>
             resolve depth w0 cls u = Some (method_implementation (world_method w1 f)))"
proof -
  obtain r where r: "ranked w0 r" "r cls + 2 \<le> depth" using set by (auto simp: lookup_setting_def)
  have miss: "env_method_is_missing env w cls u = (True, w)" and searchable: "searchable_world w 0"
    using set searchable_same_methods [OF same] by (auto simp: lookup_setting_def)
  have cls: "w_class w = w_class w0" using same by (simp add: same_methods_def)
  have ready: "search_ready env w cls u"
    using set u by (simp add: search_ready_def lookup_setting_def mulle_objc_class_is_initializing_or_initialized_def
        cls c_defs)
  have declines: "missing_declines env w cls u" "world_after_missing env w cls u = w"
    using miss by (simp_all add: missing_declines_def world_after_missing_def)
  note search = default_search_outcome [OF searchable ranked_same_methods [OF same r(1)] r(2) ready declines(1), of rounds,
      folded first_method_def, unfolded declines(2)]
  have first: "first_method depth w cls u = first_method depth w0 cls u"
    using first_method_same [OF same] by simp
  show ?thesis
  proof (cases "first_method depth w0 cls u")
    case None
    obtain f where f: "sc_forwardmethod (w_class w0 cls) = Some f" "snd f < length (ml_methods (w_list w0 (fst f)))"
      using set by (auto simp: lookup_setting_def)
    have "resolve depth w0 cls u = Some (method_implementation (world_method w f))"
      using None f imp_same_methods [OF same f(2)] by (simp add: resolve_def)
    then show ?thesis using that [OF _ same, of None] search None f first by (simp add: cls)
  next
    case (Some x)
    obtain c p where x: "x = (c, p)" by (cases x)
    have range: "snd p < length (ml_methods (w_list w0 (fst p)))" and id: "method_methodid (world_method w0 p) = u"
      using first_method_range [of w0 u _ c p] Some x by (simp_all add: first_method_def)
    have same1: "same_methods w0 (world_mark_searched p w)"
      using same same_methods_mark same_methods_trans by blast
    have "resolve depth w0 cls u = Some (method_implementation (world_method (world_mark_searched p w) p))"
      using Some x imp_same_methods [OF same1 range] by (simp add: resolve_def)
    then show ?thesis
      using that [OF _ same1, of "Some p"] search Some x first methodid_same_methods [OF same1 range] id by simp
  qed
qed

lemma lookup_step:
  assumes inv: "lookup_inv env depth universe cls w0 st" and u: "mulle_objc_uniqueid_is_sane u"
  shows "\<exists>st'. mulle_objc_class_lookup_implementation env depth (Suc rounds) universe cls u st =
    run_return (resolve depth w0 cls u, st') \<and> lookup_inv env depth universe cls w0 st'"
proof -
  have set: "lookup_setting env depth universe cls w0" and coh: "cache_coherent depth cls universe w0 st"
    and same: "same_methods w0 (lk_world st)"
    using inv by (simp_all add: lookup_inv_def)
  have bits: "lookup_lazyforward AND lookup_noprobe = 0" "lookup_lazyforward AND lookup_noforward = 0"
    "lookup_lazyforward AND lookup_lazyforward \<noteq> 0" "lookup_lazyforward AND lookup_nofail = 0"
    "lookup_lazyforward AND lookup_nofill = 0"
    by (simp_all add: c_defs)
  obtain v where v: "mulle_objc_class_probe_implementation st u = run_return v" "v \<in> {None, resolve depth w0 cls u}"
    using coh u probe_implementation_eq unfolding cache_coherent_def coherent_with_def by metis
  show ?thesis
  proof (cases v)
    case (Some imp)
    then have imp: "mulle_objc_class_probe_implementation st u = run_return (Some imp)" "resolve depth w0 cls u = Some imp"
      using v by auto
    then show ?thesis
      using u inv bits by (simp add: mulle_objc_class_lookup_implementation_def
          mulle_objc_class_lookup_implementation_mode_def)
  next
    case None
    obtain m e w1 where search:
        "mulle_objc_class_defaultsearch_method env depth (Suc rounds) (Some cls) u (lk_world st) = run_return (m, e, w1)"
        "same_methods w0 w1"
        "case m of Some p \<Rightarrow> method_methodid (world_method w1 p) = u \<and>
             resolve depth w0 cls u = Some (method_implementation (world_method w1 p))
         | None \<Rightarrow> (\<exists>f. sc_forwardmethod (w_class w1 cls) = Some f \<and>
             resolve depth w0 cls u = Some (method_implementation (world_method w1 f)))"
      by (rule uncached_lookup [OF set same u])
    obtain p where p: "resolve depth w0 cls u = Some (method_implementation (world_method w1 p))"
        "m = Some p \<or> m = None \<and> sc_forwardmethod (w_class w1 cls) = Some p"
      using search(3) by (cases m) auto
    let ?st = "st\<lparr> lk_world := w1 \<rparr>"
    have "cache_coherent depth cls universe w0 ?st" using coh by simp
    then obtain st' where st': "lookup_fill universe p u ?st = run_return st'" "cache_coherent depth cls universe w0 st'"
        "lk_world st' = w1"
      using lookup_fill_coherent [of "resolve depth w0 cls" universe ?st u p] set u p(1)
      by (auto simp: lookup_setting_def cache_coherent_def)
    have "env_thread_registered env cls" using set by (simp add: lookup_setting_def)
    then have "mulle_objc_class_lookup_implementation env depth (Suc rounds) universe cls u st =
        run_return (resolve depth w0 cls u, st')"
      using v(1) None u search(1) p st'(1) bits
      by (auto simp: mulle_objc_class_lookup_implementation_def mulle_objc_class_lookup_implementation_mode_def
          mulle_objc_class_lazyget_forwardmethod_def)
    moreover have "lookup_inv env depth universe cls w0 st'"
      using set search(2) st' by (simp add: lookup_inv_def)
    ultimately show ?thesis by blast
  qed
qed

section \<open>Sequences of lookups\<close>

text \<open>
  The contract of a memoised function: under an invariant an operation returns the value of
  a reference function and keeps the invariant. A sequence of operations then is a map.
\<close>

fun run_sequence :: "('k \<Rightarrow> 's \<Rightarrow> ('v \<times> 's) c_run) \<Rightarrow> 'k list \<Rightarrow> 's \<Rightarrow> ('v list \<times> 's) c_run" where
  "run_sequence f [] s = run_return ([], s)"
| "run_sequence f (k # ks) s =
     run_bind (f k s) (\<lambda>(v, s1). run_bind (run_sequence f ks s1) (\<lambda>(vs, s2). run_return (v # vs, s2)))"

locale memoised =
  fixes inv :: "'s \<Rightarrow> bool" and key_ok :: "'k \<Rightarrow> bool" and reference :: "'k \<Rightarrow> 'v"
    and operation :: "'k \<Rightarrow> 's \<Rightarrow> ('v \<times> 's) c_run"
  assumes operation_spec: "inv s \<Longrightarrow> key_ok k \<Longrightarrow> \<exists>s'. operation k s = run_return (reference k, s') \<and> inv s'"
begin

lemma sequence_spec:
  "inv s \<Longrightarrow> (\<And>k. k \<in> set ks \<Longrightarrow> key_ok k) \<Longrightarrow>
    \<exists>s'. run_sequence operation ks s = run_return (map reference ks, s') \<and> inv s'"
proof (induction ks arbitrary: s)
  case (Cons k ks)
  obtain s1 where s1: "operation k s = run_return (reference k, s1)" "inv s1"
    using operation_spec Cons.prems by fastforce
  obtain s2 where "run_sequence operation ks s1 = run_return (map reference ks, s2)" "inv s2"
    using Cons.IH [OF s1(2)] Cons.prems(2) by auto
  with s1 show ?case by simp
qed simp

end

interpretation cached: memoised "lookup_inv env depth universe cls w" mulle_objc_uniqueid_is_sane "resolve depth w cls"
  "mulle_objc_class_lookup_implementation env depth (Suc rounds) universe cls"
  for env depth universe cls w rounds
  by unfold_locales (rule lookup_step)

text \<open>C7: Cached method lookup is method search: a sequence of lookups of any sane ids, starting with a
  class whose cache is coherent, returns for each id the implementation the uncached search finds in
  the original world (the forward method's if there is none), and the cache stays coherent.\<close>

theorem cached_lookups_refine_search:
  assumes "lookup_inv env depth universe cls w st" and "\<forall>u\<in>set us. mulle_objc_uniqueid_is_sane u"
  shows "\<exists>st'. run_sequence (mulle_objc_class_lookup_implementation env depth (Suc rounds) universe cls) us st =
    run_return (map (resolve depth w cls) us, st') \<and> lookup_inv env depth universe cls w st'"
  using assms by (intro cached.sequence_spec) auto

text \<open>Class 1 of the example world with a forward method and an empty cache of four entries.\<close>

definition forward_world :: "nat search_world" where
  "forward_world = example_world\<lparr> w_class := (\<lambda>c. (Class_Search_Properties.example_class c)\<lparr> sc_forwardmethod := Some (0, 0) \<rparr>) \<rparr>"

definition empty_impcache :: "(unit, nat) mulle_objc_impcache" where
  "empty_impcache = \<lparr> impcache_callback = (), impcache_cache = \<lparr> cache_n = 0, cache_size = 4, cache_mask = 0x30,
     cache_entries = [cacheentry_zero, cacheentry_zero, cacheentry_zero, cacheentry_zero] \<rparr> \<rparr>"

definition forward_state :: "(unit, nat) lookup_state" where
  "forward_state = \<lparr> lk_world = forward_world,
     lk_class = \<lparr> class_state = 1, class_cachepivot = Some 2, class_infra_state = 0 \<rparr>,
     lk_heap = \<lparr> heap_blocks = [empty_impcache, empty_impcache, empty_impcache], heap_freed = [], heap_abafreed = [] \<rparr> \<rparr>"

lemma forward_setting: "lookup_setting example_env 3 example_universe 1 forward_world"
proof -
  have "searchable_world forward_world 0"
    using example_searchable by (simp add: searchable_world_def forward_world_def example_world_def)
  moreover have "ranked forward_world example_rank"
    using example_ranked by (simp add: ranked_def forward_world_def example_world_def)
  ultimately show ?thesis
    by (auto simp: lookup_setting_def intro!: exI [of _ example_rank])
      (simp_all add: example_rank_def example_env_def forward_world_def Class_Search_Properties.example_class_def
        example_universe_def example_world_def example_list_def mulle_objc_class_is_initializing_or_initialized_def c_defs)
qed

lemma forward_coherent: "cache_coherent 3 1 example_universe forward_world forward_state"
proof -
  let ?h = "lk_heap forward_state"
  have ok: "impcache_pivot_ok example_universe 2 ?h 2"
    by (simp add: impcache_pivot_ok_def forward_state_def empty_impcache_def example_universe_def
      cache_inv_def cache_shape_def preshift_def all_less_4 cache_reachable_def cache_slot_def slot_dist_def
      cache_used_def cacheentry_zero_def)
  have none: "cache_lookup (impcache_at ?h 2) q = None" "cache_used (cache_entries (impcache_at ?h 2)) < 2 ^ 2" for q
    by (simp_all add: impcache_at_def forward_state_def empty_impcache_def cache_lookup_def cacheentry_zero_def cache_used_def)
  have "mulle_objc_cache_probe_functionpointer (impcache_at ?h 2) q = run_return None" if "mulle_objc_uniqueid_is_sane q" for q
    using probe_functionpointer_correct [of 2 "impcache_at ?h 2" q] ok that none
    by (simp add: impcache_pivot_ok_def impcache_at_def)
  with ok show ?thesis
    by (auto simp: cache_coherent_def coherent_with_def forward_state_def c_defs)
qed

theorem cached_lookups_refine_search_witness:
  "\<exists>st'. run_sequence (mulle_objc_class_lookup_implementation example_env 3 1 example_universe 1) [5, 6, 5, 6] forward_state =
    run_return ([Some 2, Some 0, Some 2, Some 0], st')"
proof -
  have "lookup_inv example_env 3 example_universe 1 forward_world forward_state"
    using forward_setting forward_coherent by (simp add: lookup_inv_def forward_state_def)
  from cached_lookups_refine_search [OF this, of "[5, 6, 5, 6]" 0]
  obtain st' where "run_sequence (mulle_objc_class_lookup_implementation example_env 3 1 example_universe 1) [5, 6, 5, 6]
      forward_state = run_return (map (resolve 3 forward_world 1) [5, 6, 5, 6], st')"
    by auto
  moreover have "resolve 3 forward_world 1 5 = Some 2" "resolve 3 forward_world 1 6 = Some 0"
    by code_simp+
  ultimately show ?thesis by simp
qed

end
