(* ===== verification/Signature.thy ===== *)
theory Signature
  imports Mulle_Prelude
begin

text \<open>
  \<open>mulle-objc-signature.c\<close>: the parser of Objective-C type encodings such as
  \<open>{?=i[2q]^v}\<close>, and the routines of the MetaABI that rest on it.  The model is for an
  LP64 target in the default build, where no type qualifier is defined.

  A \<open>char *\<close> into a signature is the rest of the signature from that place on, so that
  two pointers differ by the difference of the lengths, and \<open>NULL\<close> is \<open>None\<close>.  A parsing
  routine yields a fault (an \<open>assert\<close>, an \<open>abort\<close>, signed overflow or a read behind
  the terminator), \<open>NULL\<close>, which in all of the parser means that \<open>errno\<close> is \<open>EINVAL\<close>, or
  the place behind the type.
\<close>

section \<open>Type characters\<close>

abbreviation C_ARY_B :: char where "C_ARY_B \<equiv> CHR ''[''"
abbreviation C_ARY_E :: char where "C_ARY_E \<equiv> CHR '']''"
abbreviation C_ATOM :: char where "C_ATOM \<equiv> CHR ''%''"
abbreviation C_BFLD :: char where "C_BFLD \<equiv> CHR ''b''"
abbreviation C_BOOL :: char where "C_BOOL \<equiv> CHR ''B''"
abbreviation C_CHARPTR :: char where "C_CHARPTR \<equiv> CHR ''*''"
abbreviation C_CHR :: char where "C_CHR \<equiv> CHR ''c''"
abbreviation C_CLASS :: char where "C_CLASS \<equiv> CHR ''#''"
abbreviation C_DBL :: char where "C_DBL \<equiv> CHR ''d''"
abbreviation C_FLT :: char where "C_FLT \<equiv> CHR ''f''"
abbreviation C_INT :: char where "C_INT \<equiv> CHR ''i''"
abbreviation C_LNG :: char where "C_LNG \<equiv> CHR ''l''"
abbreviation C_LNG_LNG :: char where "C_LNG_LNG \<equiv> CHR ''q''"
abbreviation C_PTR :: char where "C_PTR \<equiv> CHR ''^''"
abbreviation C_SEL :: char where "C_SEL \<equiv> CHR '':''"
abbreviation C_SHT :: char where "C_SHT \<equiv> CHR ''s''"
abbreviation C_STRUCT_B :: char where "C_STRUCT_B \<equiv> CHR ''{''"
abbreviation C_STRUCT_E :: char where "C_STRUCT_E \<equiv> CHR ''}''"
abbreviation C_UCHR :: char where "C_UCHR \<equiv> CHR ''C''"
abbreviation C_UINT :: char where "C_UINT \<equiv> CHR ''I''"
abbreviation C_ULNG :: char where "C_ULNG \<equiv> CHR ''L''"
abbreviation C_ULNG_LNG :: char where "C_ULNG_LNG \<equiv> CHR ''Q''"
abbreviation C_UNDEF :: char where "C_UNDEF \<equiv> CHR ''?''"
abbreviation C_UNION_B :: char where "C_UNION_B \<equiv> CHR ''(''"
abbreviation C_UNION_E :: char where "C_UNION_E \<equiv> CHR '')''"
abbreviation C_USHT :: char where "C_USHT \<equiv> CHR ''S''"
abbreviation C_VOID :: char where "C_VOID \<equiv> CHR ''v''"
abbreviation C_ASSIGN_ID :: char where "C_ASSIGN_ID \<equiv> CHR ''=''"
abbreviation C_COPY_ID :: char where "C_COPY_ID \<equiv> CHR ''~''"
abbreviation C_RETAIN_ID :: char where "C_RETAIN_ID \<equiv> CHR ''@''"

definition is_digit :: "char \<Rightarrow> bool" where
  "is_digit c \<longleftrightarrow> (48::nat) \<le> of_char c \<and> of_char c \<le> (57::nat)"

definition digit_value :: "char \<Rightarrow> int" where
  "digit_value c = int (of_char c) - 48"

section \<open>What the parser reports\<close>

record typeinfo =
  ti_type :: string
  ti_pure_type_end :: "string option"
  ti_member_type_start :: "string option"
  ti_name :: "string option"
  ti_n_members :: nat
  ti_natural_size :: nat
  ti_bits_size :: nat
  ti_invocation_offset :: int
  ti_bits_struct_alignment :: nat
  ti_natural_alignment :: nat
  ti_has_object :: bool
  ti_has_retainable_type :: bool

text \<open>
  A local \<open>struct mulle_objc_typeinfo\<close> before the parser has filled it; the parser sets
  every field before it reads one.
\<close>

definition typeinfo_blank :: typeinfo where
  "typeinfo_blank = \<lparr> ti_type = [], ti_pure_type_end = None, ti_member_type_start = None,
     ti_name = None, ti_n_members = 0, ti_natural_size = 0, ti_bits_size = 0,
     ti_invocation_offset = 0, ti_bits_struct_alignment = 0, ti_natural_alignment = 0,
     ti_has_object = False, ti_has_retainable_type = False \<rparr>"

text \<open>\<open>size_t\<close> and \<open>uint32_t\<close> arithmetic of the sizes.\<close>

abbreviation size_mod :: "nat \<Rightarrow> nat" where "size_mod n \<equiv> n mod 2 ^ 64"
abbreviation uint32_mod :: "nat \<Rightarrow> nat" where "uint32_mod n \<equiv> n mod 2 ^ 32"

definition CLEAR_RUNTIME_TYPE_INFO :: "typeinfo \<Rightarrow> typeinfo" where
  "CLEAR_RUNTIME_TYPE_INFO info = info \<lparr> ti_natural_size := 0, ti_natural_alignment := 0,
     ti_bits_struct_alignment := 0, ti_bits_size := 0,
     ti_has_object := False, ti_has_retainable_type := False \<rparr>"

text \<open>The size of a type stands for the type: on LP64 the alignment of every scalar is its size.\<close>

definition SUPPLY_RUNTIME_TYPE_INFO :: "typeinfo \<Rightarrow> nat \<Rightarrow> typeinfo" where
  "SUPPLY_RUNTIME_TYPE_INFO info sz = info \<lparr> ti_natural_size := sz, ti_natural_alignment := sz,
     ti_bits_struct_alignment := sz * 8, ti_bits_size := sz * 8 \<rparr>"

definition SUPPLY_RUNTIME_C_TYPE_INFO :: "typeinfo \<Rightarrow> nat \<Rightarrow> typeinfo" where
  "SUPPLY_RUNTIME_C_TYPE_INFO info sz =
     (SUPPLY_RUNTIME_TYPE_INFO info sz) \<lparr> ti_has_object := False, ti_has_retainable_type := False \<rparr>"

definition SUPPLY_RUNTIME_CHARPTR_TYPE_INFO :: "typeinfo \<Rightarrow> typeinfo" where
  "SUPPLY_RUNTIME_CHARPTR_TYPE_INFO info =
     (SUPPLY_RUNTIME_TYPE_INFO info 8) \<lparr> ti_has_object := False, ti_has_retainable_type := True \<rparr>"

definition SUPPLY_RUNTIME_OBJC_TYPE_INFO :: "typeinfo \<Rightarrow> bool \<Rightarrow> typeinfo" where
  "SUPPLY_RUNTIME_OBJC_TYPE_INFO info retain =
     (SUPPLY_RUNTIME_TYPE_INFO info 8) \<lparr> ti_has_object := True, ti_has_retainable_type := retain \<rparr>"

type_synonym supplier = "char \<Rightarrow> typeinfo \<Rightarrow> int \<times> typeinfo"

definition mulle_objc_signature_supply_scalar_typeinfo :: supplier where
  "mulle_objc_signature_supply_scalar_typeinfo c info =
    (if c = NUL then (- 1, CLEAR_RUNTIME_TYPE_INFO info)
     else if c = C_VOID then (0, CLEAR_RUNTIME_TYPE_INFO info)
     else if c = C_COPY_ID then (0, SUPPLY_RUNTIME_OBJC_TYPE_INFO info True)
     else if c = C_RETAIN_ID then (1, SUPPLY_RUNTIME_OBJC_TYPE_INFO info True)
     else if c = C_ASSIGN_ID then (0, SUPPLY_RUNTIME_OBJC_TYPE_INFO info False)
     else if c = C_CLASS then (0, SUPPLY_RUNTIME_OBJC_TYPE_INFO info False)
     else if c = C_SEL then (0, SUPPLY_RUNTIME_C_TYPE_INFO info 4)
     else if c = C_CHR then (0, SUPPLY_RUNTIME_C_TYPE_INFO info 1)
     else if c = C_BOOL then (0, SUPPLY_RUNTIME_C_TYPE_INFO info 4)
     else if c = C_UCHR then (0, SUPPLY_RUNTIME_C_TYPE_INFO info 1)
     else if c = C_SHT then (0, SUPPLY_RUNTIME_C_TYPE_INFO info 2)
     else if c = C_USHT then (0, SUPPLY_RUNTIME_C_TYPE_INFO info 2)
     else if c = C_INT then (0, SUPPLY_RUNTIME_C_TYPE_INFO info 4)
     else if c = C_UINT then (0, SUPPLY_RUNTIME_C_TYPE_INFO info 4)
     else if c = C_LNG then (0, SUPPLY_RUNTIME_C_TYPE_INFO info 8)
     else if c = C_ULNG then (0, SUPPLY_RUNTIME_C_TYPE_INFO info 8)
     else if c = C_LNG_LNG then (0, SUPPLY_RUNTIME_C_TYPE_INFO info 8)
     else if c = C_ULNG_LNG then (0, SUPPLY_RUNTIME_C_TYPE_INFO info 8)
     else if c = C_FLT then (0, SUPPLY_RUNTIME_C_TYPE_INFO info 4)
     else if c = C_DBL then (0, SUPPLY_RUNTIME_C_TYPE_INFO info 8)
     else if c = C_CHARPTR then (0, SUPPLY_RUNTIME_CHARPTR_TYPE_INFO info)
     else if c = C_UNDEF then (0, SUPPLY_RUNTIME_C_TYPE_INFO info 8)
     else if c = C_ATOM then (0, SUPPLY_RUNTIME_C_TYPE_INFO info 8)
     else (1, CLEAR_RUNTIME_TYPE_INFO info))"

section \<open>The parser\<close>

text \<open>
  The callback may change the info it is given and the client's own data.  Calling it when
  it is \<open>NULL\<close> is a fault.  The routine \<open>mulle_address_align\<close> comes from another library;
  it is the parameter \<open>al\<close>.
\<close>

type_synonym 'u callback = "string \<Rightarrow> typeinfo \<Rightarrow> 'u \<Rightarrow> typeinfo \<times> 'u"

type_synonym 'a p_run = "'a option c_result"

type_synonym 'u parsed = "(string \<times> typeinfo option \<times> 'u) p_run"

definition p_bind :: "'a p_run \<Rightarrow> ('a \<Rightarrow> 'b p_run) \<Rightarrow> 'b p_run" where
  "p_bind m f = c_bind m (\<lambda>r. case r of None \<Rightarrow> Inr None | Some x \<Rightarrow> f x)"

lemma p_bind_simps [simp]:
  "p_bind (Inl e) f = Inl e"
  "p_bind (Inr None) f = Inr None"
  "p_bind (Inr (Some x)) f = f x"
  by (simp_all add: p_bind_def)

lemma p_bind_cong [fundef_cong]:
  "m = m' \<Longrightarrow> (\<And>x. m' = Inr (Some x) \<Longrightarrow> f x = g x) \<Longrightarrow> p_bind m f = p_bind m' g"
  by (auto simp: p_bind_def c_bind_def split: sum.split option.split)

lemma p_bind_eq_Some:
  "p_bind m f = Inr (Some y) \<longleftrightarrow> (\<exists>x. m = Inr (Some x) \<and> f x = Inr (Some y))"
  by (auto simp: p_bind_def c_bind_def split: sum.split option.split)

lemma c_bind_pair_Inr:
  "c_bind m (\<lambda>(a, b). f a b) = Inr y \<longleftrightarrow> (\<exists>a b. m = Inr (a, b) \<and> f a b = Inr y)"
  by (cases m) auto

lemma p_bind_triple_Some:
  "p_bind m (\<lambda>(a, b, c). f a b c) = Inr (Some y) \<longleftrightarrow>
    (\<exists>a b c. m = Inr (Some (a, b, c)) \<and> f a b c = Inr (Some y))"
  by (auto simp: p_bind_eq_Some)

definition call_callback ::
    "'u callback option \<Rightarrow> string \<Rightarrow> typeinfo \<Rightarrow> 'u \<Rightarrow> (typeinfo \<times> 'u) c_result" where
  "call_callback cb s info u =
     (case cb of None \<Rightarrow> Inl Null_Dereference | Some f \<Rightarrow> Inr (f s info u))"

text \<open>\<open>if( info) (*callback)( s, info, userinfo)\<close>, after \<open>g\<close> has filled the info.\<close>

definition notify ::
    "'u callback option \<Rightarrow> string \<Rightarrow> (typeinfo \<Rightarrow> typeinfo) \<Rightarrow> typeinfo option \<Rightarrow> 'u
      \<Rightarrow> (typeinfo option \<times> 'u) c_result" where
  "notify cb s g info u =
     (case info of
        None \<Rightarrow> Inr (None, u)
      | Some i \<Rightarrow> c_bind (call_callback cb s (g i) u) (\<lambda>(i', u'). Inr (Some i', u')))"

text \<open>\<open>++s\<close> on a pointer that is read afterwards.\<close>

definition c_advance :: "string \<Rightarrow> string c_result" where
  "c_advance s = (case s of [] \<Rightarrow> Inl Out_Of_Bounds | c # t \<Rightarrow> Inr t)"

lemma c_advance_simps [simp]: "c_advance [] = Inl Out_Of_Bounds" "c_advance (c # s) = Inr s"
  by (simp_all add: c_advance_def)

fun scan_length :: "int \<Rightarrow> string \<Rightarrow> (int \<times> string) c_result" where
  "scan_length len [] = Inr (len, [])"
| "scan_length len (c # s) =
     (if is_digit c
      then (if len * 10 \<le> INT_MAX
            then c_bind (c_int_add (len * 10) (digit_value c)) (\<lambda>l. scan_length l s)
            else Inl Signed_Overflow)
      else Inr (len, c # s))"

text \<open>The C library's \<open>isspace\<close> and \<open>atoi\<close>; a value outside of \<open>int\<close> is undefined.\<close>

definition c_isspace :: "char \<Rightarrow> bool" where
  "c_isspace c \<longleftrightarrow> of_char c = (32::nat) \<or> (9::nat) \<le> of_char c \<and> of_char c \<le> (13::nat)"

definition c_atoi :: "string \<Rightarrow> int c_result" where
  "c_atoi s =
    (let s = dropWhile c_isspace s;
         neg = (c_peek s = CHR ''-'');
         s = (if neg \<or> c_peek s = CHR ''+'' then tl s else s)
     in c_bind (scan_length 0 s) (\<lambda>(n, _). Inr (if neg then - n else n)))"

definition mulle_objc_signature_supply_bitfield_typeinfo ::
    "string \<Rightarrow> typeinfo option \<Rightarrow> 'u callback option \<Rightarrow> 'u \<Rightarrow> 'u parsed" where
  "mulle_objc_signature_supply_bitfield_typeinfo type info cb u =
    c_bind (c_atoi type) (\<lambda>len.
      if len < 0 then Inl Aborted
      else (let s = dropWhile is_digit type in
        c_bind (notify cb (C_BFLD # type)
                 (\<lambda>i. i \<lparr> ti_n_members := nat len, ti_bits_size := nat len,
                          ti_natural_size := ((nat len + 7) div 8 + 4 - 1) div 4,
                          ti_natural_alignment := 0, ti_bits_struct_alignment := 1,
                          ti_has_object := False, ti_has_retainable_type := False \<rparr>) info u)
          (\<lambda>(info, u). Inr (Some (s, info, u)))))"

definition update_array_typeinfo_with_length :: "typeinfo \<Rightarrow> typeinfo \<Rightarrow> typeinfo" where
  "update_array_typeinfo_with_length info tmp = info \<lparr>
     ti_bits_size := size_mod (ti_n_members info * ti_bits_size tmp),
     ti_natural_size := size_mod (ti_n_members info * ti_natural_size tmp),
     ti_natural_alignment := ti_natural_alignment tmp,
     ti_bits_struct_alignment := ti_bits_struct_alignment tmp,
     ti_has_object := ti_has_object tmp,
     ti_has_retainable_type := ti_has_retainable_type tmp \<rparr>"

definition update_struct_typeinfo_with_first_member_typeinfo :: "typeinfo \<Rightarrow> typeinfo \<Rightarrow> typeinfo" where
  "update_struct_typeinfo_with_first_member_typeinfo info tmp = info \<lparr>
     ti_bits_size := ti_bits_size tmp,
     ti_bits_struct_alignment := ti_bits_struct_alignment tmp,
     ti_natural_alignment := ti_natural_alignment tmp,
     ti_has_object := ti_has_object tmp,
     ti_has_retainable_type := ti_has_retainable_type tmp \<rparr>"

definition update_struct_typeinfo_with_subsequent_member_typeinfo ::
    "(nat \<Rightarrow> nat \<Rightarrow> nat) \<Rightarrow> typeinfo \<Rightarrow> typeinfo \<Rightarrow> typeinfo" where
  "update_struct_typeinfo_with_subsequent_member_typeinfo al info tmp = info \<lparr>
     ti_bits_size := size_mod (uint32_mod (al (ti_bits_size info) (ti_bits_struct_alignment tmp))
                               + ti_bits_size tmp),
     ti_natural_alignment := (if ti_natural_alignment info < ti_natural_alignment tmp
                              then ti_natural_alignment tmp else ti_natural_alignment info),
     ti_bits_struct_alignment := (if ti_bits_struct_alignment info < ti_bits_struct_alignment tmp
                                  then ti_bits_struct_alignment tmp
                                  else ti_bits_struct_alignment info),
     ti_has_object := (ti_has_object info \<or> ti_has_object tmp),
     ti_has_retainable_type := (ti_has_retainable_type info \<or> ti_has_retainable_type tmp) \<rparr>"

definition finalize_struct_typeinfo :: "(nat \<Rightarrow> nat \<Rightarrow> nat) \<Rightarrow> nat \<Rightarrow> typeinfo \<Rightarrow> typeinfo" where
  "finalize_struct_typeinfo al n info =
    (let bits = uint32_mod (al (ti_bits_size info) (ti_bits_struct_alignment info))
     in info \<lparr> ti_bits_size := bits, ti_natural_size := bits div 8, ti_n_members := n \<rparr>)"

definition update_union_typeinfo_with_member_typeinfo :: "typeinfo \<Rightarrow> typeinfo \<Rightarrow> typeinfo" where
  "update_union_typeinfo_with_member_typeinfo info tmp = info \<lparr>
     ti_natural_alignment := (if ti_natural_alignment info < ti_natural_alignment tmp
                              then ti_natural_alignment tmp else ti_natural_alignment info),
     ti_bits_struct_alignment := (if ti_bits_struct_alignment info < ti_bits_struct_alignment tmp
                                  then ti_bits_struct_alignment tmp
                                  else ti_bits_struct_alignment info),
     ti_bits_size := (if ti_bits_size info < ti_bits_size tmp then ti_bits_size tmp
                      else ti_bits_size info),
     ti_natural_size := (if ti_natural_size info < ti_natural_size tmp then ti_natural_size tmp
                         else ti_natural_size info),
     ti_has_object := (ti_has_object info \<or> ti_has_object tmp),
     ti_has_retainable_type := (ti_has_retainable_type info \<or> ti_has_retainable_type tmp) \<rparr>"

definition finalize_union_typeinfo :: "nat \<Rightarrow> typeinfo \<Rightarrow> typeinfo" where
  "finalize_union_typeinfo n info = info \<lparr> ti_n_members := n \<rparr>"

definition mulle_objc_signature_supply_block_typeinfo ::
    "string \<Rightarrow> typeinfo option \<Rightarrow> 'u callback option \<Rightarrow> 'u \<Rightarrow> 'u parsed" where
  "mulle_objc_signature_supply_block_typeinfo type info cb u =
    c_bind (notify cb (C_RETAIN_ID # type) (\<lambda>i. SUPPLY_RUNTIME_C_TYPE_INFO i 8) info u)
      (\<lambda>(info, u). c_bind (c_advance type) (\<lambda>s. Inr (Some (s, info, u))))"

definition mulle_objc_signature_supply_object_typeinfo ::
    "string \<Rightarrow> typeinfo option \<Rightarrow> 'u callback option \<Rightarrow> 'u \<Rightarrow> 'u parsed" where
  "mulle_objc_signature_supply_object_typeinfo type info cb u =
    (if c_peek type = CHR ''?''
     then mulle_objc_signature_supply_block_typeinfo type info cb u
     else c_bind (notify cb (C_RETAIN_ID # type)
                   (\<lambda>i. SUPPLY_RUNTIME_OBJC_TYPE_INFO i True) info u)
            (\<lambda>(info, u). Inr (Some (type, info, u))))"

definition is_multi_character_type :: "char \<Rightarrow> bool" where
  "is_multi_character_type c \<longleftrightarrow>
     c \<in> {C_PTR, C_ARY_B, C_STRUCT_B, C_UNION_B, C_BFLD, C_RETAIN_ID}"

text \<open>
  The start of \<open>_mulle_objc_type_parse\<close>: the supplier's verdict on the first character
  (an unknown type counts as complex) and the reset of the other fields.
\<close>

definition type_parse_start ::
    "supplier \<Rightarrow> string \<Rightarrow> typeinfo option \<Rightarrow> int \<times> typeinfo option" where
  "type_parse_start scalar type info =
    (case info of
       None \<Rightarrow> (if is_multi_character_type (c_peek type) then 1 else 0, None)
     | Some i \<Rightarrow> (let (complex, i) = scalar (c_peek type) i
                 in (complex, Some (i \<lparr> ti_type := type, ti_member_type_start := None,
                       ti_pure_type_end := None, ti_name := None,
                       ti_invocation_offset := 0, ti_n_members := 0 \<rparr>))))"

text \<open>The scratch info of a member is on the caller's stack, there if the caller has an info.\<close>

definition member_info :: "typeinfo option \<Rightarrow> typeinfo option" where
  "member_info info = map_option (\<lambda>_. typeinfo_blank) info"

definition start_members :: "string \<Rightarrow> string \<Rightarrow> typeinfo \<Rightarrow> typeinfo" where
  "start_members name start i = i \<lparr> ti_name := Some name, ti_member_type_start := Some start \<rparr>"

definition update_info ::
    "(typeinfo \<Rightarrow> typeinfo \<Rightarrow> typeinfo) \<Rightarrow> typeinfo option \<Rightarrow> typeinfo option \<Rightarrow> typeinfo option" where
  "update_info upd info tmp =
     (case (info, tmp) of (Some i, Some t) \<Rightarrow> Some (upd i t) | _ \<Rightarrow> info)"

lemmas parse_defs = notify_def call_callback_def type_parse_start_def member_info_def
  start_members_def update_info_def

function (domintros) mulle_objc_type_parse ::
    "(nat \<Rightarrow> nat \<Rightarrow> nat) \<Rightarrow> supplier \<Rightarrow> string \<Rightarrow> int \<Rightarrow> typeinfo option
      \<Rightarrow> 'u callback option \<Rightarrow> 'u \<Rightarrow> 'u parsed"
  and mulle_objc_signature_supply_array_typeinfo ::
    "(nat \<Rightarrow> nat \<Rightarrow> nat) \<Rightarrow> supplier \<Rightarrow> string \<Rightarrow> int \<Rightarrow> typeinfo option
      \<Rightarrow> 'u callback option \<Rightarrow> 'u \<Rightarrow> 'u parsed"
  and mulle_objc_signature_supply_struct_typeinfo ::
    "(nat \<Rightarrow> nat \<Rightarrow> nat) \<Rightarrow> supplier \<Rightarrow> string \<Rightarrow> nat \<Rightarrow> string \<Rightarrow> int \<Rightarrow> typeinfo option
      \<Rightarrow> 'u callback option \<Rightarrow> 'u \<Rightarrow> 'u parsed"
  and mulle_objc_signature_supply_union_typeinfo ::
    "(nat \<Rightarrow> nat \<Rightarrow> nat) \<Rightarrow> supplier \<Rightarrow> string \<Rightarrow> nat \<Rightarrow> string \<Rightarrow> int \<Rightarrow> typeinfo option
      \<Rightarrow> 'u callback option \<Rightarrow> 'u \<Rightarrow> 'u parsed"
where
  "mulle_objc_type_parse al scalar type level info cb u =
    (if \<not> Option.is_none cb \<and> Option.is_none info then Inl Assertion
     else (case type_parse_start scalar type info of (complex, info) \<Rightarrow>
       if complex = 0
       then c_bind (notify cb type id info u) (\<lambda>(info, u).
              c_bind (c_advance type) (\<lambda>s. Inr (Some (s, info, u))))
       else if complex = 1 then
         (case type of [] \<Rightarrow> Inr None
          | c # s \<Rightarrow>
            if c = C_PTR then
              (if c_peek s = CHR ''?'' \<and> \<not> Option.is_none info
               then c_bind (notify cb (c # s) (\<lambda>i. SUPPLY_RUNTIME_C_TYPE_INFO i 8) info u)
                      (\<lambda>(info, u). Inr (Some (tl s, info, u)))
               else c_bind (notify cb (c # s) (\<lambda>i. SUPPLY_RUNTIME_C_TYPE_INFO i 8) info u)
                      (\<lambda>(info, u). p_bind (mulle_objc_type_parse al scalar s (level + 1) None None u)
                        (\<lambda>(s, _, _). Inr (Some (s, info, u)))))
            else if c = C_ARY_B then
              (if level + 1 = 0
               then c_bind (notify cb (c # s) (\<lambda>i. SUPPLY_RUNTIME_C_TYPE_INFO i 8) info u)
                      (\<lambda>(info, u). p_bind
                        (mulle_objc_signature_supply_array_typeinfo al scalar s 0 None cb u)
                        (\<lambda>(s, _, u). Inr (Some (s, info, u))))
               else mulle_objc_signature_supply_array_typeinfo al scalar s (level + 1) info cb u)
            else if c = C_BFLD then mulle_objc_signature_supply_bitfield_typeinfo s info cb u
            else if c = C_RETAIN_ID then mulle_objc_signature_supply_object_typeinfo s info cb u
            else if c = C_STRUCT_B then
              mulle_objc_signature_supply_struct_typeinfo al scalar s 0 s (level + 1) info cb u
            else if c = C_UNION_B then
              mulle_objc_signature_supply_union_typeinfo al scalar s 0 s (level + 1) info cb u
            else Inr None)
       else Inr None))"
| "mulle_objc_signature_supply_array_typeinfo al scalar type level info cb u =
    c_bind (scan_length 0 type) (\<lambda>(len, start).
    c_bind (notify cb (C_ARY_B # type)
             (\<lambda>i. i \<lparr> ti_n_members := nat len, ti_member_type_start := Some start \<rparr>) info u)
      (\<lambda>(info, u).
    p_bind (mulle_objc_type_parse al scalar start level (member_info info) cb u)
      (\<lambda>(s, tmp, u).
    if c_peek s \<noteq> C_ARY_E then Inl Assertion
    else c_bind (notify cb s
                  (\<lambda>i. case tmp of None \<Rightarrow> i | Some t \<Rightarrow> update_array_typeinfo_with_length i t) info u)
           (\<lambda>(info, u). Inr (Some (tl s, info, u))))))"
| "mulle_objc_signature_supply_struct_typeinfo al scalar memo n type level info cb u =
    (case type of [] \<Rightarrow> Inr None
     | c # s \<Rightarrow>
       if c = C_STRUCT_E then
         c_bind (notify cb (c # s) (finalize_struct_typeinfo al n) info u)
           (\<lambda>(info, u). Inr (Some (s, info, u)))
       else if n = 0 \<and> c \<noteq> CHR ''='' then
         mulle_objc_signature_supply_struct_typeinfo al scalar memo n s level info cb u
       else
         c_bind (if n = 0 then notify cb (C_STRUCT_B # memo) (start_members memo s) info u
                 else Inr (info, u))
           (\<lambda>(info, u).
         p_bind (mulle_objc_type_parse al scalar (if n = 0 then s else type) level (member_info info) cb u)
           (\<lambda>(s', tmp, u).
         mulle_objc_signature_supply_struct_typeinfo al scalar memo (n + 1) s' level
           (update_info (if n = 0 then update_struct_typeinfo_with_first_member_typeinfo
              else update_struct_typeinfo_with_subsequent_member_typeinfo al) info tmp) cb u)))"
| "mulle_objc_signature_supply_union_typeinfo al scalar memo n type level info cb u =
    (case type of [] \<Rightarrow> Inr None
     | c # s \<Rightarrow>
       if c = C_UNION_E then
         c_bind (notify cb (c # s) (finalize_union_typeinfo n) info u)
           (\<lambda>(info, u). Inr (Some (s, info, u)))
       else if n = 0 \<and> c \<noteq> CHR ''='' then
         mulle_objc_signature_supply_union_typeinfo al scalar memo n s level info cb u
       else
         c_bind (if n = 0 then notify cb (C_UNION_B # memo) (start_members memo s) info u
                 else Inr (info, u))
           (\<lambda>(info, u).
         p_bind (mulle_objc_type_parse al scalar (if n = 0 then s else type) level (member_info info) cb u)
           (\<lambda>(s', tmp, u).
         mulle_objc_signature_supply_union_typeinfo al scalar memo (n + 1) s' level
           (update_info update_union_typeinfo_with_member_typeinfo info tmp) cb u)))"
  by pat_completeness auto

text \<open>
  The parser always returns: whatever it accepts is shorter than what it was given, so that
  each turn of the member loops gets closer to the end of the string.
\<close>

lemma scan_length_rest:
  "scan_length len s = Inr (n, t) \<Longrightarrow> t = dropWhile is_digit s"
  by (induction len s rule: scan_length.induct) (auto simp: c_bind_Inr_iff split: if_splits)

lemma notify_Inr_cases:
  assumes "notify cb s g info u = Inr (info', u')"
  obtains "info = None" "info' = None" "u' = u"
  | i f where "info = Some i" "cb = Some f" "f s (g i) u = (the info', u')" "info' \<noteq> None"
  using assms by (auto simp: notify_def call_callback_def c_bind_Inr_iff split: option.splits prod.splits)

lemma bitfield_consumes:
  "mulle_objc_signature_supply_bitfield_typeinfo type info cb u = Inr (Some (s, r)) \<Longrightarrow>
    length s \<le> length type"
  by (auto simp: mulle_objc_signature_supply_bitfield_typeinfo_def c_bind_Inr_iff Let_def
      length_dropWhile_le split: if_splits)

lemma object_consumes:
  "mulle_objc_signature_supply_object_typeinfo type info cb u = Inr (Some (s, r)) \<Longrightarrow>
    length s \<le> length type"
  by (cases type) (auto simp: mulle_objc_signature_supply_object_typeinfo_def c_bind_Inr_iff
      mulle_objc_signature_supply_block_typeinfo_def split: if_splits)

lemma parse_consumes_partial:
  fixes cb :: "'u callback option"
  shows
  "mulle_objc_type_parse_mulle_objc_signature_supply_array_typeinfo_mulle_objc_signature_supply_struct_typeinfo_mulle_objc_signature_supply_union_typeinfo_dom
     (Inl (Inl (al, scalar, type, level, info, cb, u))) \<Longrightarrow>
     (\<And>s r. mulle_objc_type_parse al scalar type level info cb u = Inr (Some (s, r)) \<Longrightarrow> length s < length type)"
  "mulle_objc_type_parse_mulle_objc_signature_supply_array_typeinfo_mulle_objc_signature_supply_struct_typeinfo_mulle_objc_signature_supply_union_typeinfo_dom
     (Inl (Inr (al, scalar, type, level, info, cb, u))) \<Longrightarrow>
     (\<And>s r. mulle_objc_signature_supply_array_typeinfo al scalar type level info cb u = Inr (Some (s, r))
       \<Longrightarrow> length s < length type)"
  "mulle_objc_type_parse_mulle_objc_signature_supply_array_typeinfo_mulle_objc_signature_supply_struct_typeinfo_mulle_objc_signature_supply_union_typeinfo_dom
     (Inr (Inl (al, scalar, memo, n, type, level, info, cb, u))) \<Longrightarrow>
     (\<And>s r. mulle_objc_signature_supply_struct_typeinfo al scalar memo n type level info cb u = Inr (Some (s, r))
       \<Longrightarrow> length s < length type)"
  "mulle_objc_type_parse_mulle_objc_signature_supply_array_typeinfo_mulle_objc_signature_supply_struct_typeinfo_mulle_objc_signature_supply_union_typeinfo_dom
     (Inr (Inr (al, scalar, memo, n, type, level, info, cb, u))) \<Longrightarrow>
     (\<And>s r. mulle_objc_signature_supply_union_typeinfo al scalar memo n type level info cb u = Inr (Some (s, r))
       \<Longrightarrow> length s < length type)"
proof (induction rule: mulle_objc_type_parse_mulle_objc_signature_supply_array_typeinfo_mulle_objc_signature_supply_struct_typeinfo_mulle_objc_signature_supply_union_typeinfo.pinduct)
  case (1 al scalar type level info cb u)
  show ?case
    using 1(7) unfolding mulle_objc_type_parse.psimps [OF 1(1)]
    by (cases type)
       (auto simp: c_bind_Inr_iff p_bind_eq_Some split: if_splits prod.splits
         dest: 1(2) [rotated -1] 1(3) [rotated -1] 1(4) [rotated -1] 1(5) [rotated -1]
           1(6) [rotated -1] bitfield_consumes object_consumes)
next
  case (2 al scalar type level info cb u)
  show ?case
    using 2(3) unfolding mulle_objc_signature_supply_array_typeinfo.psimps [OF 2(1)]
    using length_dropWhile_le [of is_digit type]
    by (fastforce simp: c_bind_Inr_iff p_bind_eq_Some length_tl split: if_splits prod.splits
         dest: 2(2) [rotated -1] scan_length_rest)
next
  case (3 al scalar memo n type level info cb u)
  note run = 3(5) [unfolded mulle_objc_signature_supply_struct_typeinfo.psimps [OF 3(1)]]
  show ?case
  proof (cases type)
    case (Cons c t)
    consider (close) "c = C_STRUCT_E" | (name) "c \<noteq> C_STRUCT_E" "n = 0 \<and> c \<noteq> CHR ''=''"
      | (member) "c \<noteq> C_STRUCT_E" "\<not> (n = 0 \<and> c \<noteq> CHR ''='')"
      by blast
    then show ?thesis
    proof cases
      case close
      with run Cons show ?thesis by (auto simp: c_bind_Inr_iff split: prod.splits)
    next
      case name
      with run Cons have "length s < length t"
        by (intro 3(2)) auto
      with Cons show ?thesis by simp
    next
      case member
      obtain info' u' s' tmp u'' where
        first: "(if n = 0 then notify cb (C_STRUCT_B # memo) (start_members memo t) info u
                 else Inr (info, u)) = Inr (info', u')"
        and mem: "mulle_objc_type_parse al scalar (if n = 0 then t else c # t) level
                    (member_info info') cb u' = Inr (Some (s', tmp, u''))"
        and rest: "mulle_objc_signature_supply_struct_typeinfo al scalar memo (n + 1) s' level
          (update_info (if n = 0 then update_struct_typeinfo_with_first_member_typeinfo
            else update_struct_typeinfo_with_subsequent_member_typeinfo al) info' tmp) cb u'' = Inr (Some (s, r))"
        using run unfolding Cons list.case if_not_P [OF member(1)] if_not_P [OF member(2)]
        by (auto simp only: c_bind_pair_Inr p_bind_triple_Some)
      from 3(3) [OF Cons member first refl mem [folded Cons]]
      have "length s' < length (if n = 0 then t else type)" .
      moreover from 3(4) [OF Cons member first refl mem [folded Cons] refl refl rest]
      have "length s < length s'" by simp
      ultimately show ?thesis using Cons by (simp split: if_splits)
    qed
  qed (use run in simp)
next
  case (4 al scalar memo n type level info cb u)
  note run = 4(5) [unfolded mulle_objc_signature_supply_union_typeinfo.psimps [OF 4(1)]]
  show ?case
  proof (cases type)
    case (Cons c t)
    consider (close) "c = C_UNION_E" | (name) "c \<noteq> C_UNION_E" "n = 0 \<and> c \<noteq> CHR ''=''"
      | (member) "c \<noteq> C_UNION_E" "\<not> (n = 0 \<and> c \<noteq> CHR ''='')"
      by blast
    then show ?thesis
    proof cases
      case close
      with run Cons show ?thesis by (auto simp: c_bind_Inr_iff split: prod.splits)
    next
      case name
      with run Cons have "length s < length t"
        by (intro 4(2)) auto
      with Cons show ?thesis by simp
    next
      case member
      obtain info' u' s' tmp u'' where
        first: "(if n = 0 then notify cb (C_UNION_B # memo) (start_members memo t) info u
                 else Inr (info, u)) = Inr (info', u')"
        and mem: "mulle_objc_type_parse al scalar (if n = 0 then t else c # t) level
                    (member_info info') cb u' = Inr (Some (s', tmp, u''))"
        and rest: "mulle_objc_signature_supply_union_typeinfo al scalar memo (n + 1) s' level
          (update_info update_union_typeinfo_with_member_typeinfo info' tmp) cb u'' = Inr (Some (s, r))"
        using run unfolding Cons list.case if_not_P [OF member(1)] if_not_P [OF member(2)]
        by (auto simp only: c_bind_pair_Inr p_bind_triple_Some)
      from 4(3) [OF Cons member first refl mem [folded Cons]]
      have "length s' < length (if n = 0 then t else type)" .
      moreover from 4(4) [OF Cons member first refl mem [folded Cons] refl refl rest]
      have "length s < length s'" by simp
      ultimately show ?thesis using Cons by (simp split: if_splits)
    qed
  qed (use run in simp)
qed


lemma scan_length_shorter: "scan_length len s = Inr (n, t) \<Longrightarrow> length t \<le> length s"
  using length_dropWhile_le [of is_digit s] by (auto dest: scan_length_rest)

lemma parse_terminates:
  "All mulle_objc_type_parse_mulle_objc_signature_supply_array_typeinfo_mulle_objc_signature_supply_struct_typeinfo_mulle_objc_signature_supply_union_typeinfo_dom"
proof (relation "measure (\<lambda>x. case x of
      Inl (Inl (al, scalar, type, level, info, cb, u)) \<Rightarrow> 2 * length type
    | Inl (Inr (al, scalar, type, level, info, cb, u)) \<Rightarrow> 2 * length type + 1
    | Inr (Inl (al, scalar, memo, n, type, level, info, cb, u)) \<Rightarrow> 2 * length type + 1
    | Inr (Inr (al, scalar, memo, n, type, level, info, cb, u)) \<Rightarrow> 2 * length type + 1)")
qed (auto dest!: parse_consumes_partial(1) scan_length_shorter split: if_splits)

termination mulle_objc_type_parse
  by (rule parse_terminates)

lemma parse_consumes:
  "mulle_objc_type_parse al scalar type level info cb u = Inr (Some (s, r)) \<Longrightarrow>
    length s < length type"
  by (rule parse_consumes_partial(1) [OF spec [OF parse_terminates]])

lemma array_consumes:
  "mulle_objc_signature_supply_array_typeinfo al scalar type level info cb u = Inr (Some (s, r)) \<Longrightarrow>
    length s < length type"
  by (rule parse_consumes_partial(2) [OF spec [OF parse_terminates]])

lemma struct_consumes:
  "mulle_objc_signature_supply_struct_typeinfo al scalar memo n type level info cb u = Inr (Some (s, r)) \<Longrightarrow>
    length s < length type"
  by (rule parse_consumes_partial(3) [OF spec [OF parse_terminates]])

lemma union_consumes:
  "mulle_objc_signature_supply_union_typeinfo al scalar memo n type level info cb u = Inr (Some (s, r)) \<Longrightarrow>
    length s < length type"
  by (rule parse_consumes_partial(4) [OF spec [OF parse_terminates]])

declare mulle_objc_type_parse.simps [simp del]
  mulle_objc_signature_supply_array_typeinfo.simps [simp del]
  mulle_objc_signature_supply_struct_typeinfo.simps [simp del]
  mulle_objc_signature_supply_union_typeinfo.simps [simp del]

lemmas parse_simps = mulle_objc_type_parse.simps
  mulle_objc_signature_supply_array_typeinfo.simps
  mulle_objc_signature_supply_struct_typeinfo.simps
  mulle_objc_signature_supply_union_typeinfo.simps

end
