(* ===== verification/Metaabi.thy ===== *)
theory Metaabi
  imports Signature
begin

text \<open>
  The routines of \<open>mulle-objc-signature.c\<close> and \<open>.h\<close> over whole signatures, and the
  classification of \<open>mulle-metaabi.h\<close>: iteration over the types, the layout of the
  invocation frame, the parameter and return classes of the MetaABI, and the comparison
  of method and ivar signatures.
\<close>

section \<open>One type with its trailing information\<close>

record signaturesupplier =
  ss_supplier :: "supplier option"
  ss_index :: nat
  ss_level :: int
  ss_invocation_offset :: int

definition signaturesupplier_zero :: signaturesupplier where
  "signaturesupplier_zero = \<lparr> ss_supplier = None, ss_index = 0, ss_level = 0, ss_invocation_offset = 0 \<rparr>"

definition dummy_callback :: "unit callback" where
  "dummy_callback type info u = (info, u)"

text \<open>Conversion to \<open>int32_t\<close>, and of a signed offset to an address.\<close>

definition int32_cast :: "int \<Rightarrow> int" where
  "int32_cast i = signed_take_bit 31 i"

definition offset_address :: "int \<Rightarrow> nat" where
  "offset_address i = nat (i mod 2 ^ 64)"

text \<open>Behind a \<open><\<close>: past the closing bracket, \<open>NULL\<close> at the end of the string.\<close>

fun skip_to_bracket :: "string \<Rightarrow> string option" where
  "skip_to_bracket [] = None"
| "skip_to_bracket (c # s) = (if c = CHR ''>'' then Some s else skip_to_bracket s)"

text \<open>Behind a quote: the loop does not look for the end of the string.\<close>

fun skip_to_quote :: "string \<Rightarrow> string c_result" where
  "skip_to_quote [] = Inl Out_Of_Bounds"
| "skip_to_quote (c # s) = (if c = CHR 0x22 then Inr s else skip_to_quote s)"

definition skip_char :: "char \<Rightarrow> string \<Rightarrow> string" where
  "skip_char c s = (if c_peek s = c then tl s else s)"

definition alignof_long_double :: nat where
  "alignof_long_double = 16"

definition update_invocation_offset ::
    "(nat \<Rightarrow> nat \<Rightarrow> nat) \<Rightarrow> signaturesupplier \<Rightarrow> typeinfo option
      \<Rightarrow> (signaturesupplier \<times> typeinfo option) c_result" where
  "update_invocation_offset al supplier info =
    (case info of
       None \<Rightarrow> Inr (supplier \<lparr> ss_invocation_offset := - 1 \<rparr>, None)
     | Some i \<Rightarrow>
        if ss_invocation_offset supplier = - 1 then Inl Assertion
        else (let off = int32_cast (int (al (offset_address (ss_invocation_offset supplier))
                          (if ss_index supplier = 2 then alignof_long_double
                           else ti_bits_struct_alignment i div 8)));
                  after = int32_cast (int (size_mod (offset_address off + ti_natural_size i)))
              in Inr (supplier \<lparr> ss_invocation_offset := after \<rparr>,
                      Some (i \<lparr> ti_invocation_offset := off \<rparr>))))"

definition mulle_objc_signature_supply_typeinfo_nonnull ::
    "(nat \<Rightarrow> nat \<Rightarrow> nat) \<Rightarrow> string \<Rightarrow> signaturesupplier option \<Rightarrow> typeinfo option
      \<Rightarrow> (string \<times> signaturesupplier \<times> typeinfo option) p_run" where
  "mulle_objc_signature_supply_typeinfo_nonnull al types supplier info =
    (let supplier = (case supplier of None \<Rightarrow> signaturesupplier_zero | Some s \<Rightarrow> s);
         scalar = (case ss_supplier supplier of
                     None \<Rightarrow> mulle_objc_signature_supply_scalar_typeinfo | Some f \<Rightarrow> f);
         cb = (case info of None \<Rightarrow> None | Some _ \<Rightarrow> Some dummy_callback)
     in p_bind (mulle_objc_type_parse al scalar types (ss_level supplier) info cb ())
      (\<lambda>(rest, info, _).
     let info = map_option (\<lambda>i. i \<lparr> ti_pure_type_end := Some rest \<rparr>) info
     in p_bind (Inr (if c_peek rest = CHR ''<'' then skip_to_bracket (tl rest) else Some rest))
      (\<lambda>rest.
     let named = (c_peek rest = CHR 0x22);
         info = (if named then map_option (\<lambda>i. i \<lparr> ti_name := Some rest \<rparr>) info else info)
     in c_bind (if named then skip_to_quote (tl rest) else Inr rest)
      (\<lambda>rest.
     let rest = dropWhile is_digit (skip_char (CHR ''+'') (skip_char (CHR ''-'') rest))
     in c_bind (update_invocation_offset al supplier info)
      (\<lambda>(supplier, info). Inr (Some (rest, supplier, info)))))))"

definition mulle_objc_signature_supply_typeinfo ::
    "(nat \<Rightarrow> nat \<Rightarrow> nat) \<Rightarrow> string option \<Rightarrow> signaturesupplier option \<Rightarrow> typeinfo option
      \<Rightarrow> (string \<times> signaturesupplier \<times> typeinfo option) p_run" where
  "mulle_objc_signature_supply_typeinfo al types supplier info =
    (case types of None \<Rightarrow> Inr None
     | Some s \<Rightarrow> if s = [] then Inr None
                 else mulle_objc_signature_supply_typeinfo_nonnull al s supplier info)"

section \<open>Walking over a signature\<close>

text \<open>
  \<open>_mulle_objc_signature_skip_extendedtypeinfo\<close>: in its two inner loops the pointer moves
  behind the closing character, and after the \<open>switch\<close> once more.  It is stated by the
  character that it looks for; moving behind the terminator is a fault.
\<close>

fun mulle_objc_signature_skip_extendedtypeinfo_until :: "char option \<Rightarrow> string \<Rightarrow> string p_run" where
  "mulle_objc_signature_skip_extendedtypeinfo_until None [] = Inr (Some [])"
| "mulle_objc_signature_skip_extendedtypeinfo_until (Some d) [] = Inr None"
| "mulle_objc_signature_skip_extendedtypeinfo_until None (c # s) =
    (if c = CHR ''<'' then mulle_objc_signature_skip_extendedtypeinfo_until (Some (CHR ''>'')) s
     else if c = CHR 0x22 then mulle_objc_signature_skip_extendedtypeinfo_until (Some (CHR 0x22)) s
     else if c = CHR ''-'' \<or> c = CHR ''+'' \<or> is_digit c
     then mulle_objc_signature_skip_extendedtypeinfo_until None s
     else Inr (Some (c # s)))"
| "mulle_objc_signature_skip_extendedtypeinfo_until (Some d) (c # s) =
    (if c = d
     then (case s of [] \<Rightarrow> Inl Out_Of_Bounds
           | e # t \<Rightarrow> mulle_objc_signature_skip_extendedtypeinfo_until None t)
     else mulle_objc_signature_skip_extendedtypeinfo_until (Some d) s)"

definition mulle_objc_signature_skip_extendedtypeinfo :: "string \<Rightarrow> string p_run" where
  "mulle_objc_signature_skip_extendedtypeinfo s =
     mulle_objc_signature_skip_extendedtypeinfo_until None s"

definition mulle_objc_signature_next_type ::
    "(nat \<Rightarrow> nat \<Rightarrow> nat) \<Rightarrow> string option \<Rightarrow> string p_run" where
  "mulle_objc_signature_next_type al types =
    (case types of None \<Rightarrow> Inr None
     | Some s \<Rightarrow>
        if s = [] then Inr None
        else p_bind (mulle_objc_type_parse al mulle_objc_signature_supply_scalar_typeinfo
                       s (- 1) None None ())
               (\<lambda>(rest, _, _). mulle_objc_signature_skip_extendedtypeinfo rest))"

text \<open>
  With no info to fill, the parser never calls the supplier, so that \<open>next_type\<close> may give
  \<open>NULL\<close> for it; the model names one because its parser takes a function.
\<close>


lemma skip_extendedtypeinfo_shorter:
  "mulle_objc_signature_skip_extendedtypeinfo_until d s = Inr (Some t) \<Longrightarrow> length t \<le> length s"
  by (induction d s rule: mulle_objc_signature_skip_extendedtypeinfo_until.induct)
     (auto split: if_splits list.splits)

lemma next_type_shorter:
  "mulle_objc_signature_next_type al (Some s) = Inr (Some t) \<Longrightarrow> length t < length s"
  by (auto simp: mulle_objc_signature_next_type_def p_bind_triple_Some
      mulle_objc_signature_skip_extendedtypeinfo_def split: if_splits
      dest!: parse_consumes skip_extendedtypeinfo_shorter)

function mulle_objc_signature_count_typeinfos ::
    "(nat \<Rightarrow> nat \<Rightarrow> nat) \<Rightarrow> string option \<Rightarrow> nat c_result" where
  "mulle_objc_signature_count_typeinfos al types =
    c_bind (mulle_objc_signature_next_type al types) (\<lambda>rest.
      case rest of None \<Rightarrow> Inr 0
      | Some s \<Rightarrow> c_bind (mulle_objc_signature_count_typeinfos al (Some s)) (\<lambda>n. Inr (n + 1)))"
  by pat_completeness auto
termination
proof (relation "measure (\<lambda>(al, types). case types of None \<Rightarrow> 0 | Some s \<Rightarrow> length s)")
  show "wf (measure (\<lambda>(al :: nat \<Rightarrow> nat \<Rightarrow> nat, types).
          case types of None \<Rightarrow> 0 | Some s \<Rightarrow> length (s :: string)))"
    by simp
next
  fix al :: "nat \<Rightarrow> nat \<Rightarrow> nat" and types rest and t :: string
  assume "mulle_objc_signature_next_type al types = Inr rest" "rest = Some t"
  then show "((al, Some t), (al, types)) \<in> measure (\<lambda>(al, types).
          case types of None \<Rightarrow> 0 | Some s \<Rightarrow> length s)"
    using next_type_shorter [of al _ t]
    by (cases types) (simp_all add: mulle_objc_signature_next_type_def [of _ None])
qed

declare mulle_objc_signature_count_typeinfos.simps [simp del]

text \<open>
  The enumerator yields self, the selector and the arguments; the return value was parsed
  first and comes last.  A type that does not parse leaves an info that is filled in part;
  it is \<open>None\<close>, and reading it is a fault.
\<close>

record signatureenumerator =
  se_types :: "string option"
  se_supplier :: signaturesupplier
  se_rval :: "typeinfo option"

definition nonempty_types :: "string option \<Rightarrow> string option" where
  "nonempty_types types = (case types of Some (c # s) \<Rightarrow> Some (c # s) | _ \<Rightarrow> None)"

definition mulle_objc_signature_enumerate ::
    "(nat \<Rightarrow> nat \<Rightarrow> nat) \<Rightarrow> string option \<Rightarrow> signatureenumerator c_result" where
  "mulle_objc_signature_enumerate al types =
    (case nonempty_types types of
       None \<Rightarrow> Inr \<lparr> se_types = None, se_supplier = signaturesupplier_zero,
                     se_rval = Some typeinfo_blank \<rparr>
     | Some s \<Rightarrow>
        c_bind (mulle_objc_signature_supply_typeinfo_nonnull al s None (Some typeinfo_blank)) (\<lambda>r.
          case r of
            None \<Rightarrow> Inr \<lparr> se_types = None, se_supplier = signaturesupplier_zero, se_rval = None \<rparr>
          | Some (rest, _, info) \<Rightarrow>
              Inr \<lparr> se_types = nonempty_types (Some rest), se_supplier = signaturesupplier_zero,
                    se_rval = info \<rparr>))"

definition mulle_objc_signatureenumerator_next ::
    "(nat \<Rightarrow> nat \<Rightarrow> nat) \<Rightarrow> signatureenumerator
      \<Rightarrow> (bool \<times> signatureenumerator \<times> typeinfo option) c_result" where
  "mulle_objc_signatureenumerator_next al rover =
    (case se_types rover of
       None \<Rightarrow> Inr (False, rover, None)
     | Some s \<Rightarrow>
        c_bind (mulle_objc_signature_supply_typeinfo_nonnull al s (Some (se_supplier rover))
                 (Some typeinfo_blank))
          (\<lambda>r. let (rest, supplier, info) =
                      (case r of None \<Rightarrow> (None, se_supplier rover, None)
                       | Some (rest, supplier, info) \<Rightarrow> (Some rest, supplier, info))
               in Inr (True, rover \<lparr> se_types := nonempty_types rest,
                     se_supplier := supplier \<lparr> ss_index := ss_index supplier + 1 \<rparr> \<rparr>, info)))"

definition mulle_objc_signatureenumerator_get_type :: "signatureenumerator \<Rightarrow> string option" where
  "mulle_objc_signatureenumerator_get_type rover = map_option ti_type (se_rval rover)"

definition mulle_objc_signatureenumerator_rval :: "signatureenumerator \<Rightarrow> typeinfo c_result" where
  "mulle_objc_signatureenumerator_rval rover =
    (if ss_invocation_offset (se_supplier rover) = - 1 then Inl Assertion
     else (case se_rval rover of
             None \<Rightarrow> Inl Uninitialized
           | Some i \<Rightarrow> Inr (i \<lparr> ti_invocation_offset := ss_invocation_offset (se_supplier rover) \<rparr>)))"

lemma supply_typeinfo_shorter:
  assumes "mulle_objc_signature_supply_typeinfo_nonnull al s supplier info = Inr (Some (t, r))"
  shows "length t < length s"
proof -
  have b: "skip_to_bracket x = Some y \<Longrightarrow> length y \<le> length x" for x y
    by (induction x) (auto split: if_splits)
  have q: "skip_to_quote x = Inr y \<Longrightarrow> length y \<le> length x" for x y
    by (induction x) (auto split: if_splits)
  have c: "length (skip_char d x) \<le> length x" for d x
    by (simp add: skip_char_def)
  show ?thesis
    using assms
    apply (clarsimp simp: mulle_objc_signature_supply_typeinfo_nonnull_def Let_def p_bind_eq_Some
        c_bind_Inr_iff simp del: length_dropWhile_le)
    apply (drule parse_consumes)
    apply (rule le_less_trans [OF length_dropWhile_le])
    apply (rule le_less_trans [OF c], rule le_less_trans [OF c])
    apply (auto split: if_splits dest!: b q)
    done
qed


definition types_length :: "string option \<Rightarrow> nat" where
  "types_length types = (case types of None \<Rightarrow> 0 | Some s \<Rightarrow> length s)"

lemma types_length_simps [simp]: "types_length None = 0" "types_length (Some s) = length s"
  by (simp_all add: types_length_def)

lemma nonempty_types_length [simp]: "types_length (nonempty_types t) = types_length t"
  by (auto simp: nonempty_types_def types_length_def split: option.splits list.splits)

lemma nonempty_types_simps [simp]:
  "nonempty_types None = None" "nonempty_types (Some []) = None"
  "nonempty_types (Some (c # s)) = Some (c # s)"
  by (simp_all add: nonempty_types_def)

lemma nonempty_types_Some_iff: "nonempty_types t = Some s \<longleftrightarrow> t = Some s \<and> s \<noteq> []"
  by (cases t; cases "the t") auto

text \<open>A place of the enumerator that is not at the end of the signature.\<close>

definition rover_ok :: "signatureenumerator \<Rightarrow> bool" where
  "rover_ok rover \<longleftrightarrow> se_types rover \<noteq> Some []"

lemma enumerator_next_shorter:
  assumes "mulle_objc_signatureenumerator_next al rover = Inr (True, rover', info)"
  shows "types_length (se_types rover') < types_length (se_types rover) \<or> se_types rover = Some []"
proof (cases "se_types rover")
  case (Some s)
  then obtain r where
    "mulle_objc_signature_supply_typeinfo_nonnull al s (Some (se_supplier rover))
      (Some typeinfo_blank) = Inr r"
    using assms by (auto simp: mulle_objc_signatureenumerator_next_def c_bind_Inr_iff)
  then show ?thesis
    using assms Some
    by (cases r) (auto simp: mulle_objc_signatureenumerator_next_def dest: supply_typeinfo_shorter)
qed (use assms in \<open>simp add: mulle_objc_signatureenumerator_next_def\<close>)

record arginfo =
  ai_invocation_offset :: nat
  ai_natural_size :: nat
  ai_type_offset :: nat
  ai_natural_alignment :: nat
  ai_has_retainable_type :: bool

definition arginfo_of_typeinfo :: "string \<Rightarrow> typeinfo \<Rightarrow> arginfo" where
  "arginfo_of_typeinfo types i = \<lparr>
     ai_invocation_offset = nat (ti_invocation_offset i mod 2 ^ 32),
     ai_natural_size = uint32_mod (ti_natural_size i),
     ai_type_offset = (length types - length (ti_type i)) mod 2 ^ 16,
     ai_natural_alignment = ti_natural_alignment i mod 2 ^ 8,
     ai_has_retainable_type = ti_has_retainable_type i \<rparr>"

text \<open>
  \<open>while( _mulle_objc_signatureenumerator_next( &rover, &info))\<close> with a loop body that
  changes a state.
\<close>

function enumerate_while ::
    "(nat \<Rightarrow> nat \<Rightarrow> nat) \<Rightarrow> (typeinfo option \<Rightarrow> 's \<Rightarrow> 's c_result) \<Rightarrow> signatureenumerator \<Rightarrow> 's
      \<Rightarrow> (signatureenumerator \<times> 's) c_result" where
  "enumerate_while al body rover s =
    (case se_types rover of
       None \<Rightarrow> Inr (rover, s)
     | Some [] \<Rightarrow> Inl Out_Of_Bounds
     | Some (_ # _) \<Rightarrow>
        c_bind (mulle_objc_signatureenumerator_next al rover) (\<lambda>(more, rover', info).
          if more then c_bind (body info s) (\<lambda>s'. enumerate_while al body rover' s')
          else Inr (rover', s)))"
  by pat_completeness auto
termination
  by (relation "measure (\<lambda>(al, body, rover, s). types_length (se_types rover))")
     (auto dest: enumerator_next_shorter)

declare enumerate_while.simps [simp del]

definition fill_arginfo_step ::
    "string \<Rightarrow> typeinfo option \<Rightarrow> nat \<times> arginfo list \<Rightarrow> (nat \<times> arginfo list) c_result" where
  "fill_arginfo_step types info = (\<lambda>(p, infos).
     if length infos \<le> p then Inl Assertion
     else (case info of None \<Rightarrow> Inl Uninitialized
           | Some i \<Rightarrow> Inr (p + 1, infos [p := arginfo_of_typeinfo types i])))"

text \<open>The caller's array has as many elements as it counts.\<close>

definition mulle_objc_signature_fill_arginfos ::
    "(nat \<Rightarrow> nat \<Rightarrow> nat) \<Rightarrow> string option \<Rightarrow> arginfo list \<Rightarrow> arginfo list c_result" where
  "mulle_objc_signature_fill_arginfos al types infos =
    (case types of None \<Rightarrow> Inr infos
     | Some s \<Rightarrow>
        if infos = [] then Inr infos
        else
          c_bind (mulle_objc_signature_enumerate al types) (\<lambda>rover.
          c_bind (enumerate_while al (fill_arginfo_step s) rover (1, infos)) (\<lambda>(rover, _, infos).
          c_bind (mulle_objc_signatureenumerator_rval rover) (\<lambda>i.
            Inr (infos [0 := arginfo_of_typeinfo s i])))))"

definition mulle_metaabi_voidptr5 :: "nat \<Rightarrow> nat" where
  "mulle_metaabi_voidptr5 sz = size_mod (sz + 40 - 1) div 40"

definition mulle_metaabi_sizeof_union :: "nat \<Rightarrow> nat" where
  "mulle_metaabi_sizeof_union sz = size_mod (40 * mulle_metaabi_voidptr5 sz)"

definition mulle_objc_signature_sizeof_metaabistruct ::
    "(nat \<Rightarrow> nat \<Rightarrow> nat) \<Rightarrow> string option \<Rightarrow> nat c_result" where
  "mulle_objc_signature_sizeof_metaabistruct al types =
    c_bind (mulle_objc_signature_enumerate al types) (\<lambda>rover.
    c_bind (mulle_objc_signatureenumerator_next al rover) (\<lambda>(_, rover, _).
    c_bind (mulle_objc_signatureenumerator_next al rover) (\<lambda>(_, rover, _).
    c_bind (enumerate_while al (\<lambda>_ s. Inr s) rover ()) (\<lambda>(rover, _).
    c_bind (mulle_objc_signatureenumerator_rval rover) (\<lambda>info.
      Inr (mulle_metaabi_sizeof_union
             (size_mod (offset_address (ti_invocation_offset info) + ti_natural_size info))))))))"

section \<open>Classes of the MetaABI\<close>

datatype metaabi_param =
    metaabi_param_error
  | metaabi_param_void_pointer
  | metaabi_param_void
  | metaabi_param_struct

definition mulle_metaabi_is_voidptr_storage_compatible :: "nat \<Rightarrow> nat \<Rightarrow> bool" where
  "mulle_metaabi_is_voidptr_storage_compatible alignment sz \<longleftrightarrow> alignment \<le> 8 \<and> sz \<le> 8"

definition mulle_metaabi_get_metaabiparamtype :: "string \<Rightarrow> metaabi_param" where
  "mulle_metaabi_get_metaabiparamtype type =
    (let c = c_peek type;
         stored = (\<lambda>sz. if mulle_metaabi_is_voidptr_storage_compatible sz sz
                        then metaabi_param_void_pointer else metaabi_param_struct)
     in if c = NUL \<or> c = C_VOID then metaabi_param_void
        else if c = C_UNDEF then metaabi_param_error
        else if c \<in> {C_ATOM, C_BOOL, C_CHARPTR, C_RETAIN_ID, C_COPY_ID, C_ASSIGN_ID, C_CLASS,
                     C_SEL, C_CHR, C_UCHR, C_SHT, C_USHT, C_INT, C_UINT}
        then metaabi_param_void_pointer
        else if c = C_LNG then stored 8
        else if c = C_ULNG then stored 8
        else if c = C_LNG_LNG then stored 8
        else if c = C_ULNG_LNG then stored 8
        else if c = C_PTR
        then (if c_peek (tl type) \<noteq> CHR ''?'' then metaabi_param_void_pointer else stored 8)
        else metaabi_param_struct)"

definition mulle_objc_signature_get_metaabiparamtype_nonnull :: "string \<Rightarrow> metaabi_param" where
  "mulle_objc_signature_get_metaabiparamtype_nonnull type = mulle_metaabi_get_metaabiparamtype type"

definition mulle_objc_signature_get_metaabiparamtype_for_param ::
    "(nat \<Rightarrow> nat \<Rightarrow> nat) \<Rightarrow> string \<Rightarrow> metaabi_param c_result" where
  "mulle_objc_signature_get_metaabiparamtype_for_param al type =
    (if c_peek type \<in> {C_STRUCT_B, C_UNION_B}
     then c_bind (mulle_objc_signature_supply_typeinfo_nonnull al type None (Some typeinfo_blank))
       (\<lambda>r. case r of
          Some (_, _, Some info) \<Rightarrow>
            Inr (if ti_natural_size info \<le> 8 \<and> ti_natural_alignment info \<le> 8
                 then metaabi_param_void_pointer else metaabi_param_struct)
        | _ \<Rightarrow> Inr metaabi_param_error)
     else Inr (mulle_metaabi_get_metaabiparamtype type))"

definition mulle_objc_signature_get_metaabireturntype :: "string option \<Rightarrow> metaabi_param" where
  "mulle_objc_signature_get_metaabireturntype type =
    (case type of None \<Rightarrow> metaabi_param_error
     | Some s \<Rightarrow> mulle_objc_signature_get_metaabiparamtype_nonnull s)"

definition mulle_objc_signature_get_metaabiparamtype ::
    "(nat \<Rightarrow> nat \<Rightarrow> nat) \<Rightarrow> string option \<Rightarrow> metaabi_param c_result" where
  "mulle_objc_signature_get_metaabiparamtype al types =
    (if types = None then Inr metaabi_param_error
     else if mulle_objc_signature_get_metaabireturntype types = metaabi_param_struct
     then Inr metaabi_param_struct
     else
       c_bind (mulle_objc_signature_next_type al types) (\<lambda>types.
       c_bind (mulle_objc_signature_next_type al types) (\<lambda>types.
       c_bind (mulle_objc_signature_next_type al types) (\<lambda>types.
       case types of
         None \<Rightarrow> Inr metaabi_param_void
       | Some s \<Rightarrow>
          c_bind (mulle_objc_signature_get_metaabiparamtype_for_param al s) (\<lambda>p_type.
            if p_type = metaabi_param_void_pointer
            then c_bind (mulle_objc_signature_next_type al types) (\<lambda>rest.
                   Inr (if nonempty_types rest \<noteq> None then metaabi_param_struct else p_type))
            else Inr p_type)))))"


section \<open>Questions about one type\<close>

definition mulle_objc_signature_supply_size_and_alignment ::
    "(nat \<Rightarrow> nat \<Rightarrow> nat) \<Rightarrow> string option \<Rightarrow> (string \<times> nat \<times> nat) p_run" where
  "mulle_objc_signature_supply_size_and_alignment al types =
    (case nonempty_types types of None \<Rightarrow> Inr None
     | Some s \<Rightarrow>
        p_bind (mulle_objc_signature_supply_typeinfo_nonnull al s None (Some typeinfo_blank))
          (\<lambda>(rest, _, info).
             case info of None \<Rightarrow> Inl Uninitialized
             | Some i \<Rightarrow> Inr (Some (rest, uint32_mod (ti_bits_size i div 8), ti_natural_alignment i))))"

definition supplied_flag ::
    "(nat \<Rightarrow> nat \<Rightarrow> nat) \<Rightarrow> (typeinfo \<Rightarrow> bool) \<Rightarrow> string option \<Rightarrow> int c_result" where
  "supplied_flag al flag type =
    c_bind (mulle_objc_signature_supply_typeinfo al type None (Some typeinfo_blank)) (\<lambda>r.
      case r of Some (_, _, Some info) \<Rightarrow> Inr (if flag info then 1 else 0) | _ \<Rightarrow> Inr (- 1))"

definition mulle_objc_signature_contains_retainable_type ::
    "(nat \<Rightarrow> nat \<Rightarrow> nat) \<Rightarrow> string option \<Rightarrow> int c_result" where
  "mulle_objc_signature_contains_retainable_type al type = supplied_flag al ti_has_retainable_type type"

definition mulle_objc_signature_contains_object ::
    "(nat \<Rightarrow> nat \<Rightarrow> nat) \<Rightarrow> string option \<Rightarrow> int c_result" where
  "mulle_objc_signature_contains_object al type = supplied_flag al ti_has_object type"

definition mulle_objc_type_is_pointer :: "string \<Rightarrow> bool" where
  "mulle_objc_type_is_pointer type \<longleftrightarrow>
     c_peek type \<in> {C_ASSIGN_ID, C_ATOM, C_CHARPTR, C_CLASS, C_COPY_ID, C_UNDEF, C_PTR, C_RETAIN_ID}"

definition mulle_objc_type_is_object :: "string \<Rightarrow> bool" where
  "mulle_objc_type_is_object type \<longleftrightarrow>
     c_peek type \<in> {C_ASSIGN_ID, C_CLASS, C_COPY_ID, C_RETAIN_ID}"

definition mulle_objc_type_is_fp :: "string \<Rightarrow> bool" where
  "mulle_objc_type_is_fp type \<longleftrightarrow> c_peek type \<in> {C_FLT, C_DBL}"

definition mulle_objc_signature_is_object :: "string \<Rightarrow> bool" where
  "mulle_objc_signature_is_object type \<longleftrightarrow>
     c_peek type \<in> {C_COPY_ID, C_RETAIN_ID, C_ASSIGN_ID, C_CLASS}"

definition mulle_objc_signature_is_retainable_type :: "string \<Rightarrow> bool" where
  "mulle_objc_signature_is_retainable_type type \<longleftrightarrow> c_peek type \<in> {C_COPY_ID, C_RETAIN_ID}"

section \<open>Comparisons\<close>

definition c_strncmp :: "string \<Rightarrow> string \<Rightarrow> nat \<Rightarrow> int" where
  "c_strncmp a b n = c_strcmp (take n a) (take n b)"

fun c_strstr :: "string \<Rightarrow> string \<Rightarrow> string option" where
  "c_strstr [] needle = (if needle = [] then Some [] else None)"
| "c_strstr (c # s) needle =
     (if take (length needle) (c # s) = needle then Some (c # s) else c_strstr s needle)"

text \<open>\<open>info->pure_type_end - info->type\<close>, of an info that \<open>supply_typeinfo\<close> has filled.\<close>

definition pure_length :: "typeinfo \<Rightarrow> nat" where
  "pure_length i =
     (case ti_pure_type_end i of None \<Rightarrow> 0 | Some e \<Rightarrow> length (ti_type i) - length e)"

definition mulle_objc_typeinfo_compare :: "typeinfo \<Rightarrow> typeinfo \<Rightarrow> int" where
  "mulle_objc_typeinfo_compare a b =
    (let a_len = pure_length a; b_len = pure_length b;
         comparison = c_strncmp (ti_type a) (ti_type b) (if a_len < b_len then a_len else b_len)
     in if comparison \<noteq> 0 then comparison
        else if a_len \<noteq> b_len then (if a_len < b_len then - 1 else 1)
        else 0)"

text \<open>The shared shape of the comparisons: \<open>NULL\<close> is smaller than any type.\<close>

definition supply_filled ::
    "(nat \<Rightarrow> nat \<Rightarrow> nat) \<Rightarrow> string \<Rightarrow> (string \<times> typeinfo) option c_result" where
  "supply_filled al s =
    c_bind (mulle_objc_signature_supply_typeinfo_nonnull al s None (Some typeinfo_blank)) (\<lambda>r.
      case r of Some (rest, _, Some info) \<Rightarrow> Inr (Some (rest, info)) | _ \<Rightarrow> Inr None)"

definition supply_both ::
    "(nat \<Rightarrow> nat \<Rightarrow> nat) \<Rightarrow> string \<Rightarrow> string
      \<Rightarrow> (string \<Rightarrow> typeinfo \<Rightarrow> string \<Rightarrow> typeinfo \<Rightarrow> int c_result) \<Rightarrow> int c_result" where
  "supply_both al a b continue =
    c_bind (supply_filled al a) (\<lambda>ra. c_bind (supply_filled al b) (\<lambda>rb.
      case ra of
        None \<Rightarrow> Inr (if rb = None then 0 else - 1)
      | Some (a', a_info) \<Rightarrow>
         (case rb of None \<Rightarrow> Inr 1 | Some (b', b_info) \<Rightarrow> continue a' a_info b' b_info)))"

definition mulle_objc_ivarsignature_compare :: "(nat \<Rightarrow> nat \<Rightarrow> nat) \<Rightarrow> string \<Rightarrow> string \<Rightarrow> int c_result" where
  "mulle_objc_ivarsignature_compare al a b =
     supply_both al a b (\<lambda>_ a_info _ b_info. Inr (mulle_objc_typeinfo_compare a_info b_info))"

lemma supply_filled_Some:
  "supply_filled al s = Inr (Some (t, info)) \<longleftrightarrow>
    (\<exists>supplier. mulle_objc_signature_supply_typeinfo_nonnull al s None (Some typeinfo_blank)
      = Inr (Some (t, supplier, Some info)))" (is "_ \<longleftrightarrow> (\<exists>supplier. ?r = _ supplier)")
proof (cases ?r)
  case (Inr x)
  show ?thesis
  proof (cases x)
    case (Some y)
    obtain t' supplier i where "y = (t', supplier, i)"
      by (cases y)
    with Inr Some show ?thesis
      by (cases i) (auto simp: supply_filled_def)
  qed (use Inr in \<open>auto simp: supply_filled_def\<close>)
qed (auto simp: supply_filled_def)

lemma supply_filled_shorter: "supply_filled al s = Inr (Some (t, info)) \<Longrightarrow> length t < length s"
  by (auto simp: supply_filled_Some dest: supply_typeinfo_shorter)

lemma supply_both_cong [fundef_cong]:
  assumes "al = al'" "a = a'" "b = b'"
    and "\<And>s i t j. supply_filled al' a' = Inr (Some (s, i)) \<Longrightarrow>
      supply_filled al' b' = Inr (Some (t, j)) \<Longrightarrow> f s i t j = g s i t j"
  shows "supply_both al a b f = supply_both al' a' b' g"
  using assms(4) unfolding supply_both_def assms(1-3)
  by (intro c_bind_cong refl) (auto split: option.splits)

text \<open>The loop of the lenient comparison, over the types behind the return type.\<close>

function methodsignature_compare_loop ::
    "(nat \<Rightarrow> nat \<Rightarrow> nat) \<Rightarrow> string \<Rightarrow> string \<Rightarrow> int c_result" where
  "methodsignature_compare_loop al a b =
     supply_both al a b (\<lambda>a' a_info b' b_info.
       if mulle_objc_typeinfo_compare a_info b_info \<noteq> 0
       then Inr (mulle_objc_typeinfo_compare a_info b_info)
       else methodsignature_compare_loop al a' b')"
  by pat_completeness auto
termination
  by (relation "measure (\<lambda>(al, a, b). length a)") (auto dest: supply_filled_shorter)

declare methodsignature_compare_loop.simps [simp del]

definition mulle_objc_methodsignature_compare_lenient ::
    "(nat \<Rightarrow> nat \<Rightarrow> nat) \<Rightarrow> string \<Rightarrow> string \<Rightarrow> int c_result" where
  "mulle_objc_methodsignature_compare_lenient al a b =
     supply_both al a b (\<lambda>a' _ b' _. methodsignature_compare_loop al a' b')"

definition mulle_objc_methodsignature_compare :: "string \<Rightarrow> string \<Rightarrow> int" where
  "mulle_objc_methodsignature_compare a b =
    (case c_strstr a ''@0:'' of
       None \<Rightarrow> (if c_strstr b ''@0:'' = None then 0 else - 1)
     | Some a' \<Rightarrow> (case c_strstr b ''@0:'' of None \<Rightarrow> 1 | Some b' \<Rightarrow> c_strcmp a' b'))"

definition mulle_objc_signature_compare_strict :: "string \<Rightarrow> string \<Rightarrow> int" where
  "mulle_objc_signature_compare_strict a b = c_strcmp a b"

definition mulle_objc_get_untypedsignature_length :: "nat \<Rightarrow> nat" where
  "mulle_objc_get_untypedsignature_length args = args + 3"

definition mulle_objc_sprint_untypedsignature :: "nat \<Rightarrow> nat \<Rightarrow> string c_result" where
  "mulle_objc_sprint_untypedsignature sz args =
    (if mulle_objc_get_untypedsignature_length args + 1 \<le> sz
     then Inr (C_RETAIN_ID # C_RETAIN_ID # C_SEL # replicate args C_RETAIN_ID)
     else Inl Assertion)"

text \<open>
  \<open>_mulle_objc_type_is_equal_to_type\<close>: the loop over protocol names compares until the
  first string has a closing bracket, the loop over aggregates until the brackets close.
\<close>

fun protocols_are_equal :: "string \<Rightarrow> string \<Rightarrow> bool" where
  "protocols_are_equal a b =
    (case a of [] \<Rightarrow> False
     | c # a' \<Rightarrow>
        if c \<noteq> c_peek b then False
        else if c_peek a' = CHR ''>'' then True
        else protocols_are_equal a' (tl b))"

fun aggregates_are_equal :: "nat \<Rightarrow> string \<Rightarrow> string \<Rightarrow> bool" where
  "aggregates_are_equal level [] b = False"
| "aggregates_are_equal level (c # a) b =
    (if c \<noteq> c_peek b then False
     else if c \<in> {C_STRUCT_B, C_UNION_B, C_ARY_B} then aggregates_are_equal (level + 1) a (tl b)
     else if c \<in> {C_STRUCT_E, C_UNION_E, C_ARY_E}
     then (if level - 1 = 0 then True else aggregates_are_equal (level - 1) a (tl b))
     else aggregates_are_equal level a (tl b))"

definition mulle_objc_type_is_equal_to_type :: "string \<Rightarrow> string \<Rightarrow> bool" where
  "mulle_objc_type_is_equal_to_type a b =
    (let c = c_peek a
     in if c \<noteq> c_peek b then False
        else if c \<in> {C_RETAIN_ID, C_ASSIGN_ID, C_COPY_ID}
        then (if c_peek (tl a) \<noteq> CHR ''<'' then True else protocols_are_equal (tl a) (tl b))
        else if c \<in> {C_STRUCT_B, C_UNION_B, C_ARY_B} then aggregates_are_equal 1 (tl a) (tl b)
        else True)"

end
