(* ===== verification/Signature_Layout.thy ===== *)
theory Signature_Layout
  imports Metaabi
begin

text \<open>
  What a type encoding means: C types as a datatype, their encoding as the compiler writes
  it, and their size and alignment as the C ABI of an LP64 target lays them out.  The
  parser is shown to read back exactly the encoding and to compute exactly that layout.
\<close>

section \<open>Types, encodings and layout\<close>

datatype ctype =
    Scalar char
  | Block
  | Function
  | Pointer ctype
  | Array nat ctype
  | Bits nat
  | Struct string "ctype list"
  | Union string "ctype list"

fun decimal :: "nat \<Rightarrow> string" where
  "decimal n = (if n < 10 then [char_of (48 + n)] else decimal (n div 10) @ [char_of (48 + n mod 10)])"

declare decimal.simps [simp del]

fun encode :: "ctype \<Rightarrow> string" where
  "encode (Scalar c) = [c]"
| "encode Block = ''@?''"
| "encode Function = ''^?''"
| "encode (Pointer t) = C_PTR # encode t"
| "encode (Array n t) = C_ARY_B # decimal n @ encode t @ [C_ARY_E]"
| "encode (Bits n) = C_BFLD # decimal n"
| "encode (Struct name ms) =
     C_STRUCT_B # name @ CHR ''='' # concat (map encode ms) @ [C_STRUCT_E]"
| "encode (Union name ms) =
     C_UNION_B # name @ CHR ''='' # concat (map encode ms) @ [C_UNION_E]"

text \<open>The single character types with a value; \<open>@\<close> stands alone, not before a question mark.\<close>

definition value_scalars :: "char set" where
  "value_scalars = {C_COPY_ID, C_RETAIN_ID, C_ASSIGN_ID, C_CLASS, C_SEL, C_CHR, C_BOOL, C_UCHR,
     C_SHT, C_USHT, C_INT, C_UINT, C_LNG, C_ULNG, C_LNG_LNG, C_ULNG_LNG, C_FLT, C_DBL, C_CHARPTR,
     C_ATOM}"

fun well_encoded :: "ctype \<Rightarrow> bool" where
  "well_encoded (Scalar c) \<longleftrightarrow> c \<in> value_scalars \<or> c = C_VOID"
| "well_encoded Block \<longleftrightarrow> True"
| "well_encoded Function \<longleftrightarrow> True"
| "well_encoded (Pointer t) \<longleftrightarrow> well_encoded t"
| "well_encoded (Array n t) \<longleftrightarrow> int n \<le> INT_MAX \<and> well_encoded t"
| "well_encoded (Bits n) \<longleftrightarrow> int n \<le> INT_MAX"
| "well_encoded (Struct name ms) \<longleftrightarrow>
     CHR ''='' \<notin> set name \<and> C_STRUCT_E \<notin> set name \<and> ms \<noteq> [] \<and> (\<forall>m\<in>set ms. well_encoded m)"
| "well_encoded (Union name ms) \<longleftrightarrow>
     CHR ''='' \<notin> set name \<and> C_UNION_E \<notin> set name \<and> ms \<noteq> [] \<and> (\<forall>m\<in>set ms. well_encoded m)"

definition align_up :: "nat \<Rightarrow> nat \<Rightarrow> nat" where
  "align_up n a = (n + a - 1) div a * a"

definition scalar_size :: "char \<Rightarrow> nat" where
  "scalar_size c =
    (if c \<in> {C_CHR, C_UCHR} then 1
     else if c \<in> {C_SHT, C_USHT} then 2
     else if c \<in> {C_SEL, C_BOOL, C_INT, C_UINT, C_FLT} then 4
     else if c = C_VOID then 0
     else 8)"

fun members_end :: "nat \<Rightarrow> (nat \<times> nat) list \<Rightarrow> nat" where
  "members_end off [] = off"
| "members_end off ((sz, a) # ms) = members_end (align_up off a + sz) ms"

definition largest :: "nat list \<Rightarrow> nat" where
  "largest ns = foldr max ns 0"

fun alignof :: "ctype \<Rightarrow> nat" where
  "alignof (Scalar c) = scalar_size c"
| "alignof Block = 8"
| "alignof Function = 8"
| "alignof (Pointer t) = 8"
| "alignof (Array n t) = alignof t"
| "alignof (Bits n) = 0"
| "alignof (Struct name ms) = largest (map alignof ms)"
| "alignof (Union name ms) = largest (map alignof ms)"

fun sizeof :: "ctype \<Rightarrow> nat" where
  "sizeof (Scalar c) = scalar_size c"
| "sizeof Block = 8"
| "sizeof Function = 8"
| "sizeof (Pointer t) = 8"
| "sizeof (Array n t) = n * sizeof t"
| "sizeof (Bits n) = 0"
| "sizeof (Struct name ms) =
     align_up (members_end 0 (map (\<lambda>m. (sizeof m, alignof m)) ms)) (largest (map alignof ms))"
| "sizeof (Union name ms) = align_up (largest (map sizeof ms)) (largest (map alignof ms))"

fun holds_object :: "ctype \<Rightarrow> bool" where
  "holds_object (Scalar c) \<longleftrightarrow> c \<in> {C_RETAIN_ID, C_COPY_ID, C_ASSIGN_ID, C_CLASS}"
| "holds_object (Array n t) \<longleftrightarrow> holds_object t"
| "holds_object (Struct name ms) \<longleftrightarrow> (\<exists>m\<in>set ms. holds_object m)"
| "holds_object (Union name ms) \<longleftrightarrow> (\<exists>m\<in>set ms. holds_object m)"
| "holds_object _ \<longleftrightarrow> False"

fun holds_retainable :: "ctype \<Rightarrow> bool" where
  "holds_retainable (Scalar c) \<longleftrightarrow> c \<in> {C_RETAIN_ID, C_COPY_ID, C_CHARPTR}"
| "holds_retainable (Array n t) \<longleftrightarrow> holds_retainable t"
| "holds_retainable (Struct name ms) \<longleftrightarrow> (\<exists>m\<in>set ms. holds_retainable m)"
| "holds_retainable (Union name ms) \<longleftrightarrow> (\<exists>m\<in>set ms. holds_retainable m)"
| "holds_retainable _ \<longleftrightarrow> False"

fun member_count :: "ctype \<Rightarrow> nat" where
  "member_count (Array n t) = n"
| "member_count (Struct name ms) = length ms"
| "member_count (Union name ms) = length ms"
| "member_count _ = 0"

text \<open>
  The types for which the runtime's layout is that of C: no bitfields, no member of type
  \<open>void\<close>, sizes in bits that fit an \<open>uint32_t\<close>, and unions whose largest member needs no
  padding behind it.
\<close>

fun laid_out :: "ctype \<Rightarrow> bool" where
  "laid_out (Scalar c) \<longleftrightarrow> c \<in> value_scalars"
| "laid_out Block \<longleftrightarrow> True"
| "laid_out Function \<longleftrightarrow> True"
| "laid_out (Pointer t) \<longleftrightarrow> well_encoded t"
| "laid_out (Array n t) \<longleftrightarrow> int n \<le> INT_MAX \<and> 8 * sizeof (Array n t) < 2 ^ 32 \<and> laid_out t"
| "laid_out (Bits n) \<longleftrightarrow> False"
| "laid_out (Struct name ms) \<longleftrightarrow>
     CHR ''='' \<notin> set name \<and> C_STRUCT_E \<notin> set name \<and> ms \<noteq> [] \<and>
     8 * sizeof (Struct name ms) < 2 ^ 32 \<and> (\<forall>m\<in>set ms. laid_out m)"
| "laid_out (Union name ms) \<longleftrightarrow>
     CHR ''='' \<notin> set name \<and> C_UNION_E \<notin> set name \<and> ms \<noteq> [] \<and>
     largest (map alignof ms) dvd largest (map sizeof ms) \<and> (\<forall>m\<in>set ms. laid_out m)"

text \<open>Which text may follow a type without becoming a part of it.\<close>

fun ends_in_bits :: "ctype \<Rightarrow> bool" where
  "ends_in_bits (Bits n) \<longleftrightarrow> True"
| "ends_in_bits (Pointer t) \<longleftrightarrow> ends_in_bits t"
| "ends_in_bits _ \<longleftrightarrow> False"

definition may_follow :: "ctype \<Rightarrow> string \<Rightarrow> bool" where
  "may_follow t rest \<longleftrightarrow> c_peek rest \<noteq> CHR ''?'' \<and> (ends_in_bits t \<longrightarrow> \<not> is_digit (c_peek rest))"

section \<open>Numbers\<close>

lemma is_digit_decimal: "n < 10 \<Longrightarrow> is_digit (char_of (48 + n))"
  and digit_value_decimal: "n < 10 \<Longrightarrow> digit_value (char_of (48 + n)) = int n"
  by (auto simp: is_digit_def digit_value_def of_char_of)

lemma decimal_digits: "c \<in> set (decimal n) \<Longrightarrow> is_digit c"
proof (induction n arbitrary: c rule: decimal.induct)
  case (1 n)
  from 1(2) show ?case
    by (subst (asm) decimal.simps) (use 1(1) in \<open>auto split: if_splits intro: is_digit_decimal\<close>)
qed

lemma decimal_not_Nil [simp]: "decimal n \<noteq> []"
  by (subst decimal.simps) simp

lemma dropWhile_digits:
  "\<not> is_digit (c_peek rest) \<Longrightarrow> dropWhile is_digit (decimal n @ rest) = rest"
  by (cases rest) (auto simp: dropWhile_append dest: decimal_digits)

lemma scan_length_append:
  assumes "\<And>c. c \<in> set ds \<Longrightarrow> is_digit c"
  shows "scan_length len (ds @ rest) = c_bind (scan_length len ds) (\<lambda>(n, _). scan_length n rest)"
  using assms
  by (induction ds arbitrary: len) (auto simp: c_bind_def split: sum.splits)

lemma scan_length_stop: "\<not> is_digit (c_peek rest) \<Longrightarrow> scan_length n rest = Inr (n, rest)"
  by (cases rest) auto

lemma scan_length_decimal: "int n \<le> INT_MAX \<Longrightarrow> scan_length 0 (decimal n) = Inr (int n, [])"
proof (induction n rule: decimal.induct)
  case (1 n)
  show ?case
  proof (cases "n < 10")
    case True
    then show ?thesis
      by (subst decimal.simps)
         (simp add: is_digit_decimal digit_value_decimal c_int_add_def)
  next
    case False
    with 1 have "scan_length 0 (decimal (n div 10)) = Inr (int (n div 10), [])"
      by (auto simp: of_nat_div)
    moreover have "int (n div 10) * 10 + int (n mod 10) = int n"
      by (metis of_nat_add of_nat_mult of_nat_numeral div_mult_mod_eq)
    ultimately show ?thesis
      using False 1(2)
      by (subst decimal.simps)
         (simp add: scan_length_append decimal_digits is_digit_decimal digit_value_decimal c_int_add_def)
  qed
qed

lemma scan_length_text:
  "int n \<le> INT_MAX \<Longrightarrow> \<not> is_digit (c_peek rest) \<Longrightarrow>
    scan_length 0 (decimal n @ rest) = Inr (int n, rest)"
  by (simp add: scan_length_append decimal_digits scan_length_decimal scan_length_stop)

lemma digit_not_space: "is_digit c \<Longrightarrow> \<not> c_isspace c"
  by (auto simp: is_digit_def c_isspace_def)

lemma digit_not_sign: "is_digit c \<Longrightarrow> c \<noteq> CHR ''-'' \<and> c \<noteq> CHR ''+''"
  by (auto simp: is_digit_def)

lemma atoi_text:
  assumes "int n \<le> INT_MAX" "\<not> is_digit (c_peek rest)"
  shows "c_atoi (decimal n @ rest) = Inr (int n)"
proof -
  obtain c s where cs: "decimal n = c # s" using decimal_not_Nil [of n] by (cases "decimal n") auto
  then have "is_digit c" using decimal_digits [of c n] by simp
  with cs show ?thesis
    using scan_length_text [OF assms] digit_not_sign [of c]
    by (simp add: c_atoi_def digit_not_space)
qed


section \<open>Skipping a type\<close>

lemma may_follow_cons [simp]:
  "may_follow t (c # s) \<longleftrightarrow> c \<noteq> CHR ''?'' \<and> (ends_in_bits t \<longrightarrow> \<not> is_digit c)"
  by (simp add: may_follow_def)

lemma value_scalars_start:
  "c \<in> value_scalars \<or> c = C_VOID \<Longrightarrow>
    c \<notin> {CHR ''?'', C_STRUCT_E, C_UNION_E, C_ARY_E, NUL} \<and> \<not> is_digit c"
  by (auto simp: value_scalars_def is_digit_def NUL_def)

lemma encode_start:
  assumes "well_encoded t"
  obtains c s where "encode t = c # s"
    "c \<notin> {CHR ''?'', C_STRUCT_E, C_UNION_E, C_ARY_E, NUL}" "\<not> is_digit c"
proof (cases t)
  case (Scalar c)
  with assms that [of c "[]"] value_scalars_start [of c] show ?thesis by simp
qed (use that in \<open>auto simp: is_digit_def NUL_def\<close>)

lemma may_follow_encode:
  "well_encoded t' \<Longrightarrow> may_follow t (encode t' @ rest)"
  by (erule encode_start) auto

lemma may_follow_members:
  "\<forall>m\<in>set ms. well_encoded m \<Longrightarrow> c \<noteq> CHR ''?'' \<Longrightarrow> \<not> is_digit c \<Longrightarrow>
    may_follow t (concat (map encode ms) @ c # rest)"
  by (cases ms) (auto intro: may_follow_encode)

lemma not_digit_simps [simp]:
  "\<not> is_digit CHR '']''" "\<not> is_digit CHR ''}''" "\<not> is_digit CHR '')''" "\<not> is_digit NUL"
  "\<not> is_digit CHR 0x22" "\<not> is_digit CHR ''<''"
  by (simp_all add: is_digit_def NUL_def)

lemma notify_None [simp]: "notify cb s g None u = Inr (None, u)"
  by (simp add: notify_def)

lemma notify_Some [simp]:
  "notify (Some f) s g (Some i) u = Inr (Some (fst (f s (g i) u)), snd (f s (g i) u))"
  by (simp add: notify_def call_callback_def split: prod.split)

lemma type_parse_start_None [simp]:
  "type_parse_start scalar type None = (if is_multi_character_type (c_peek type) then 1 else 0, None)"
  by (simp add: type_parse_start_def)

lemma member_info_simps [simp]:
  "member_info None = None" "member_info (Some i) = Some typeinfo_blank"
  by (simp_all add: member_info_def)

lemma update_info_simps [simp]:
  "update_info f None tmp = None" "update_info f (Some i) (Some t) = Some (f i t)"
  by (simp_all add: update_info_def)

lemma struct_name:
  "CHR ''='' \<notin> set name \<Longrightarrow> C_STRUCT_E \<notin> set name \<Longrightarrow>
    mulle_objc_signature_supply_struct_typeinfo al scalar memo 0 (name @ rest) level info cb u =
    mulle_objc_signature_supply_struct_typeinfo al scalar memo 0 rest level info cb u"
proof (induction name)
  case (Cons c name)
  then show ?case
    by (subst mulle_objc_signature_supply_struct_typeinfo.simps) auto
qed simp

lemma union_name:
  "CHR ''='' \<notin> set name \<Longrightarrow> C_UNION_E \<notin> set name \<Longrightarrow>
    mulle_objc_signature_supply_union_typeinfo al scalar memo 0 (name @ rest) level info cb u =
    mulle_objc_signature_supply_union_typeinfo al scalar memo 0 rest level info cb u"
proof (induction name)
  case (Cons c name)
  then show ?case
    by (subst mulle_objc_signature_supply_union_typeinfo.simps) auto
qed simp

lemma struct_members_skip:
  assumes "\<And>m rest u. m \<in> set ms \<Longrightarrow> may_follow m rest \<Longrightarrow>
      mulle_objc_type_parse al scalar (encode m @ rest) level None None (u :: 'u) = Inr (Some (rest, None, u))"
    and "\<forall>m\<in>set ms. well_encoded m" "0 < n"
  shows "mulle_objc_signature_supply_struct_typeinfo al scalar memo n
      (concat (map encode ms) @ C_STRUCT_E # rest) level None None (u :: 'u) = Inr (Some (rest, None, u))"
  using assms
proof (induction ms arbitrary: n u)
  case Nil
  then show ?case by (subst mulle_objc_signature_supply_struct_typeinfo.simps) simp
next
  case (Cons m ms)
  obtain c s where c: "encode m = c # s" "c \<notin> {CHR ''?'', C_STRUCT_E, C_UNION_E, C_ARY_E, NUL}"
    using Cons.prems(2) by (meson encode_start list.set_intros(1))
  have "mulle_objc_type_parse al scalar (encode m @ concat (map encode ms) @ C_STRUCT_E # rest)
      level None None u = Inr (Some (concat (map encode ms) @ C_STRUCT_E # rest, None, u))"
    by (rule Cons.prems(1)) (use Cons.prems(2) in \<open>auto intro: may_follow_members\<close>)
  moreover have "mulle_objc_signature_supply_struct_typeinfo al scalar memo (n + 1)
      (concat (map encode ms) @ C_STRUCT_E # rest) level None None u = Inr (Some (rest, None, u))"
    by (rule Cons.IH) (use Cons.prems in auto)
  ultimately show ?case
    using c Cons.prems(3)
    by (subst mulle_objc_signature_supply_struct_typeinfo.simps) simp
qed

lemma union_members_skip:
  assumes "\<And>m rest u. m \<in> set ms \<Longrightarrow> may_follow m rest \<Longrightarrow>
      mulle_objc_type_parse al scalar (encode m @ rest) level None None (u :: 'u) = Inr (Some (rest, None, u))"
    and "\<forall>m\<in>set ms. well_encoded m" "0 < n"
  shows "mulle_objc_signature_supply_union_typeinfo al scalar memo n
      (concat (map encode ms) @ C_UNION_E # rest) level None None (u :: 'u) = Inr (Some (rest, None, u))"
  using assms
proof (induction ms arbitrary: n u)
  case Nil
  then show ?case by (subst mulle_objc_signature_supply_union_typeinfo.simps) simp
next
  case (Cons m ms)
  obtain c s where c: "encode m = c # s" "c \<notin> {CHR ''?'', C_STRUCT_E, C_UNION_E, C_ARY_E, NUL}"
    using Cons.prems(2) by (meson encode_start list.set_intros(1))
  have "mulle_objc_type_parse al scalar (encode m @ concat (map encode ms) @ C_UNION_E # rest)
      level None None u = Inr (Some (concat (map encode ms) @ C_UNION_E # rest, None, u))"
    by (rule Cons.prems(1)) (use Cons.prems(2) in \<open>auto intro: may_follow_members\<close>)
  moreover have "mulle_objc_signature_supply_union_typeinfo al scalar memo (n + 1)
      (concat (map encode ms) @ C_UNION_E # rest) level None None u = Inr (Some (rest, None, u))"
    by (rule Cons.IH) (use Cons.prems in auto)
  ultimately show ?case
    using c Cons.prems(3)
    by (subst mulle_objc_signature_supply_union_typeinfo.simps) simp
qed

lemma array_skip:
  assumes "mulle_objc_type_parse al scalar (encode t @ C_ARY_E # rest) level None None (u :: 'u)
      = Inr (Some (C_ARY_E # rest, None, u))"
    and "int n \<le> INT_MAX" "well_encoded t"
  shows "mulle_objc_signature_supply_array_typeinfo al scalar (decimal n @ encode t @ C_ARY_E # rest)
      level None None u = Inr (Some (rest, None, u))"
proof -
  obtain c s where "encode t = c # s" "\<not> is_digit c"
    using assms(3) by (auto intro: encode_start)
  then have "scan_length 0 (decimal n @ encode t @ C_ARY_E # rest) = Inr (int n, encode t @ C_ARY_E # rest)"
    using assms(2) by (intro scan_length_text) auto
  then show ?thesis
    using assms(1) by (subst mulle_objc_signature_supply_array_typeinfo.simps) simp
qed

lemma parse_skip:
  "well_encoded t \<Longrightarrow> may_follow t rest \<Longrightarrow>
    mulle_objc_type_parse al scalar (encode t @ rest) level None None (u :: 'u) = Inr (Some (rest, None, u))"
proof (induction t arbitrary: rest level u)
  case (Scalar c)
  show ?case
  proof (cases "c = C_RETAIN_ID")
    case True
    with Scalar show ?thesis
      by (subst mulle_objc_type_parse.simps)
         (simp add: is_multi_character_type_def mulle_objc_signature_supply_object_typeinfo_def
           may_follow_def)
  next
    case False
    with Scalar(1) have "\<not> is_multi_character_type c"
      by (auto simp: is_multi_character_type_def value_scalars_def)
    then show ?thesis
      by (subst mulle_objc_type_parse.simps) simp
  qed
next
  case Block
  show ?case
    by (subst mulle_objc_type_parse.simps)
       (simp add: is_multi_character_type_def mulle_objc_signature_supply_object_typeinfo_def
         mulle_objc_signature_supply_block_typeinfo_def)
next
  case Function
  have "mulle_objc_type_parse al scalar (CHR ''?'' # rest) (level + 1) None None u
      = Inr (Some (rest, None, u))"
    by (subst mulle_objc_type_parse.simps) (simp add: is_multi_character_type_def)
  then show ?case
    by (subst mulle_objc_type_parse.simps) (simp add: is_multi_character_type_def)
next
  case (Pointer t)
  then have "mulle_objc_type_parse al scalar (encode t @ rest) (level + 1) None None u
      = Inr (Some (rest, None, u))"
    by (simp add: may_follow_def)
  then show ?case
    by (subst mulle_objc_type_parse.simps) (simp add: is_multi_character_type_def)
next
  case (Array n t)
  have "mulle_objc_signature_supply_array_typeinfo al scalar (decimal n @ encode t @ C_ARY_E # rest)
      level' None None u = Inr (Some (rest, None, u))" for level'
    by (rule array_skip, rule Array.IH) (use Array.prems in auto)
  then show ?case
    by (subst mulle_objc_type_parse.simps) (simp add: is_multi_character_type_def)
next
  case (Bits n)
  then have "c_atoi (decimal n @ rest) = Inr (int n)" "dropWhile is_digit (decimal n @ rest) = rest"
    by (simp_all add: atoi_text dropWhile_digits may_follow_def)
  then show ?case
    by (subst mulle_objc_type_parse.simps)
       (simp add: is_multi_character_type_def mulle_objc_signature_supply_bitfield_typeinfo_def)
next
  case (Struct name ms)
  obtain m ms' where ms: "ms = m # ms'" using Struct.prems(1) by (cases ms) auto
  let ?tail = "concat (map encode ms') @ C_STRUCT_E # rest"
  have "mulle_objc_type_parse al scalar (encode m @ ?tail) (level + 1) None None u
      = Inr (Some (?tail, None, u))"
    by (rule Struct.IH) (use Struct.prems ms in \<open>auto intro: may_follow_members\<close>)
  moreover have "mulle_objc_signature_supply_struct_typeinfo al scalar memo 1 ?tail (level + 1) None None u
      = Inr (Some (rest, None, u))" for memo
    by (rule struct_members_skip, rule Struct.IH) (use Struct.prems ms in auto)
  ultimately have "mulle_objc_signature_supply_struct_typeinfo al scalar memo 0
      (CHR ''='' # encode m @ ?tail) (level + 1) None None u = Inr (Some (rest, None, u))" for memo
    by (subst mulle_objc_signature_supply_struct_typeinfo.simps) simp
  then show ?case
    using Struct.prems(1)
    by (subst mulle_objc_type_parse.simps) (simp add: is_multi_character_type_def struct_name ms)
next
  case (Union name ms)
  obtain m ms' where ms: "ms = m # ms'" using Union.prems(1) by (cases ms) auto
  let ?tail = "concat (map encode ms') @ C_UNION_E # rest"
  have "mulle_objc_type_parse al scalar (encode m @ ?tail) (level + 1) None None u
      = Inr (Some (?tail, None, u))"
    by (rule Union.IH) (use Union.prems ms in \<open>auto intro: may_follow_members\<close>)
  moreover have "mulle_objc_signature_supply_union_typeinfo al scalar memo 1 ?tail (level + 1) None None u
      = Inr (Some (rest, None, u))" for memo
    by (rule union_members_skip, rule Union.IH) (use Union.prems ms in auto)
  ultimately have "mulle_objc_signature_supply_union_typeinfo al scalar memo 0
      (CHR ''='' # encode m @ ?tail) (level + 1) None None u = Inr (Some (rest, None, u))" for memo
    by (subst mulle_objc_signature_supply_union_typeinfo.simps) simp
  then show ?case
    using Union.prems(1)
    by (subst mulle_objc_type_parse.simps) (simp add: is_multi_character_type_def union_name ms)
qed


section \<open>Alignment arithmetic\<close>

text \<open>
  What the library documents of \<open>mulle_address_align\<close>: for an alignment that is a power of
  two, the address is rounded up to a multiple of it.
\<close>

definition address_align :: "(nat \<Rightarrow> nat \<Rightarrow> nat) \<Rightarrow> bool" where
  "address_align al \<longleftrightarrow> (\<forall>n k. n < 2 ^ 40 \<longrightarrow> k \<le> 8 \<longrightarrow> al n (2 ^ k) = align_up n (2 ^ k))"

lemma align_up_ge: "0 < a \<Longrightarrow> n \<le> align_up n a"
proof -
  assume a: "0 < a"
  have "n + a - 1 < (n + a - 1) div a * a + a"
    using a by (metis add.commute mod_less_divisor div_mult_mod_eq nat_add_left_cancel_less)
  then show ?thesis by (simp add: align_up_def)
qed

lemma align_up_less: "0 < a \<Longrightarrow> align_up n a < n + a"
  by (simp add: align_up_def) (metis Suc_pred add_gr_0 div_times_less_eq_dividend less_Suc_eq_le)

lemma align_up_dvd: "a dvd align_up n a"
  by (simp add: align_up_def)

lemma round_down: "0 < (b :: nat) \<Longrightarrow> (b * m + (b - 1)) div b = m"
  by (simp only: div_mult_self4) simp

lemma align_up_dvd_eq:
  assumes "0 < a" "a dvd n"
  shows "align_up n a = n"
proof -
  from assms(2) obtain m where "n = a * m" ..
  then show ?thesis
    using round_down [OF assms(1), of m] assms(1) by (simp add: align_up_def)
qed

lemma align_up_0 [simp]: "0 < a \<Longrightarrow> align_up 0 a = 0"
  by (simp add: align_up_def)

lemma align_up_scale: "0 < a \<Longrightarrow> 0 < b \<Longrightarrow> align_up (b * n) (b * a) = b * align_up n a"
proof -
  assume a: "0 < a" and b: "0 < b"
  have "b * n + b * a - 1 = b * (n + a - 1) + (b - 1)"
    using a b by (cases b; cases a) (auto simp: algebra_simps)
  moreover have "(b * (n + a - 1) + (b - 1)) div b = n + a - 1"
    using b by (rule round_down)
  ultimately show ?thesis
    by (simp add: align_up_def div_mult2_eq)
qed

definition c_alignments :: "nat set" where
  "c_alignments = {1, 2, 4, 8}"

lemma address_align_bits:
  assumes "address_align al" "a \<in> c_alignments" "8 * n < 2 ^ 40"
  shows "al (8 * n) (8 * a) = 8 * align_up n a"
proof -
  obtain k where k: "8 * a = 2 ^ k" "k \<le> 8"
  proof -
    have "\<exists>k\<le>8. 8 * a = 2 ^ k"
      using assms(2) unfolding c_alignments_def
      by (auto intro: exI [of _ 3] exI [of _ 4] exI [of _ 5] exI [of _ 6])
    then show ?thesis using that by blast
  qed
  then have "al (8 * n) (8 * a) = align_up (8 * n) (8 * a)"
    using assms(1,3) unfolding address_align_def by metis
  also have "\<dots> = 8 * align_up n a"
    using assms(2) by (intro align_up_scale) (auto simp: c_alignments_def)
  finally show ?thesis .
qed

lemma largest_Cons [simp]: "largest (n # ns) = max n (largest ns)"
  and largest_Nil [simp]: "largest [] = 0"
  by (simp_all add: largest_def)

lemma largest_in: "ns \<noteq> [] \<Longrightarrow> largest ns \<in> set ns"
proof (induction ns)
  case (Cons n ns)
  then show ?case by (cases ns) (auto simp: max_def)
qed simp

lemma largest_ge: "n \<in> set ns \<Longrightarrow> n \<le> largest ns"
  by (induction ns) auto

lemma alignof_laid_out: "laid_out t \<Longrightarrow> alignof t \<in> c_alignments"
proof (induction t)
  case (Scalar c)
  then show ?case by (auto simp: value_scalars_def scalar_size_def c_alignments_def)
next
  case (Struct name ms)
  then show ?case using largest_in [of "map alignof ms"] by auto
next
  case (Union name ms)
  then show ?case using largest_in [of "map alignof ms"] by auto
qed (auto simp: c_alignments_def)

lemma laid_out_encoded: "laid_out t \<Longrightarrow> well_encoded t"
  by (induction t) auto

lemma c_alignments_pos: "a \<in> c_alignments \<Longrightarrow> 0 < a"
  and c_alignments_le: "a \<in> c_alignments \<Longrightarrow> a \<le> 8"
  by (auto simp: c_alignments_def)

lemma max_c_alignments: "a \<in> c_alignments \<Longrightarrow> b \<in> c_alignments \<Longrightarrow> max a b \<in> c_alignments"
  by (simp add: max_def)

lemma sizeof_bound: "laid_out t \<Longrightarrow> 8 * sizeof t < 2 ^ 32"
proof (induction t)
  case (Scalar c)
  then show ?case by (simp add: scalar_size_def)
next
  case (Union name ms)
  then have "align_up (largest (map sizeof ms)) (largest (map alignof ms)) = largest (map sizeof ms)"
    using alignof_laid_out [of "Union name ms"]
    by (intro align_up_dvd_eq) (auto dest: c_alignments_pos)
  moreover have "largest (map sizeof ms) \<in> sizeof ` set ms"
    using Union.prems largest_in [of "map sizeof ms"] by auto
  ultimately show ?case using Union by auto
qed simp_all

lemma sizeof_union:
  assumes "laid_out (Union name ms)"
  shows "sizeof (Union name ms) = largest (map sizeof ms)"
  using assms alignof_laid_out [OF assms]
  by (auto intro!: align_up_dvd_eq dest: c_alignments_pos)

lemma members_end_ge:
  "\<forall>m\<in>set ms. 0 < snd m \<Longrightarrow> off \<le> members_end off ms"
proof (induction ms arbitrary: off)
  case (Cons m ms)
  obtain sz a where m: "m = (sz, a)" by force
  with Cons.prems have "0 < a" "\<forall>m\<in>set ms. 0 < snd m" by auto
  then show ?case
    using Cons.IH [of "align_up off a + sz"] align_up_ge [of a off] m by simp
qed simp


section \<open>Parsing a type with its layout\<close>

text \<open>A callback that only looks.\<close>

definition observing :: "(string \<Rightarrow> typeinfo \<Rightarrow> 'u \<Rightarrow> 'u) \<Rightarrow> 'u callback" where
  "observing g = (\<lambda>s i u. (i, g s i u))"

lemma observing_simps [simp]: "fst (observing g s i u) = i" "snd (observing g s i u) = g s i u"
  by (simp_all add: observing_def)

lemma observing_dummy: "dummy_callback = observing (\<lambda>_ _ u. u)"
  by (simp add: dummy_callback_def observing_def fun_eq_iff)

definition layout_fields :: "typeinfo \<Rightarrow> nat \<Rightarrow> nat \<Rightarrow> bool \<Rightarrow> bool \<Rightarrow> bool" where
  "layout_fields i sz a obj ret \<longleftrightarrow>
     ti_bits_size i = 8 * sz \<and> ti_natural_alignment i = a \<and> ti_bits_struct_alignment i = 8 * a \<and>
     ti_has_object i = obj \<and> ti_has_retainable_type i = ret"

definition describes :: "typeinfo \<Rightarrow> ctype \<Rightarrow> bool" where
  "describes i t \<longleftrightarrow>
     layout_fields i (sizeof t) (alignof t) (holds_object t) (holds_retainable t) \<and>
     ti_natural_size i = sizeof t \<and> ti_n_members i = member_count t"

lemma struct_members_info:
  assumes "\<And>m rest u. m \<in> set ms \<Longrightarrow> may_follow m rest \<Longrightarrow>
      \<exists>i u'. mulle_objc_type_parse al scalar (encode m @ rest) level (Some typeinfo_blank)
        (Some (observing g)) (u :: 'u) = Inr (Some (rest, Some i, u')) \<and> describes i m"
    and "\<forall>m\<in>set ms. laid_out m" "0 < n" "address_align al"
    and "layout_fields i off a obj ret" "a \<in> c_alignments"
    and "8 * align_up (members_end off (map (\<lambda>m. (sizeof m, alignof m)) ms))
                      (max a (largest (map alignof ms))) < 2 ^ 32"
  shows "\<exists>j u'. mulle_objc_signature_supply_struct_typeinfo al scalar memo n
      (concat (map encode ms) @ C_STRUCT_E # rest) level (Some i) (Some (observing g)) (u :: 'u)
      = Inr (Some (rest, Some j, u')) \<and>
    (let sz = align_up (members_end off (map (\<lambda>m. (sizeof m, alignof m)) ms))
                       (max a (largest (map alignof ms)))
     in layout_fields j sz (max a (largest (map alignof ms)))
          (obj \<or> (\<exists>m\<in>set ms. holds_object m)) (ret \<or> (\<exists>m\<in>set ms. holds_retainable m)) \<and>
        ti_natural_size j = sz \<and> ti_n_members j = n + length ms \<and> ti_type j = ti_type i)"
  using assms
proof (induction ms arbitrary: n u i off a obj ret)
  case Nil
  have "8 * off < 2 ^ 40"
    using Nil.prems(6,7) align_up_ge [of a off] by (auto dest: c_alignments_pos)
  with Nil.prems have "al (8 * off) (8 * a) = 8 * align_up off a"
    by (intro address_align_bits)
  with Nil.prems show ?case
    by (subst mulle_objc_signature_supply_struct_typeinfo.simps)
       (simp add: finalize_struct_typeinfo_def layout_fields_def Let_def)
next
  case (Cons m ms)
  let ?layout = "map (\<lambda>m. (sizeof m, alignof m)) ms"
  let ?tail = "concat (map encode ms) @ C_STRUCT_E # rest"
  let ?off = "align_up off (alignof m) + sizeof m"
  have enc: "\<forall>m\<in>set (m # ms). well_encoded m"
    using Cons.prems(2) by (auto dest: laid_out_encoded)
  then obtain c s where c: "encode m = c # s" "c \<notin> {CHR ''?'', C_STRUCT_E, C_UNION_E, C_ARY_E, NUL}"
    by (meson encode_start list.set_intros(1))
  have "may_follow m ?tail"
    using enc by (intro may_follow_members) auto
  then obtain t u' where parse: "mulle_objc_type_parse al scalar (encode m @ ?tail) level
      (Some typeinfo_blank) (Some (observing g)) u = Inr (Some (?tail, Some t, u'))" and t: "describes t m"
    using Cons.prems(1) [of m ?tail u] by auto
  have am: "alignof m \<in> c_alignments" and pos: "\<forall>x\<in>set ?layout. 0 < snd x"
    using Cons.prems(2) by (auto dest!: alignof_laid_out dest: c_alignments_pos)
  let ?i = "update_struct_typeinfo_with_subsequent_member_typeinfo al i t"
  have fits: "8 * align_up (members_end ?off ?layout)
      (max (max a (alignof m)) (largest (map alignof ms))) < 2 ^ 32"
    using Cons.prems(7) by (simp add: max.assoc)
  have "0 < max (max a (alignof m)) (largest (map alignof ms))"
    using c_alignments_pos [OF Cons.prems(6)] by simp
  from align_up_ge [OF this, of "members_end ?off ?layout"] fits
  have bound: "8 * ?off < 2 ^ 32"
    using members_end_ge [OF pos, of ?off] by simp
  then have "8 * off < 2 ^ 40"
    using align_up_ge [of "alignof m" off] c_alignments_pos [OF am] by simp
  then have "al (8 * off) (8 * alignof m) = 8 * align_up off (alignof m)"
    using Cons.prems(4) am by (intro address_align_bits)
  then have "layout_fields ?i ?off (max a (alignof m)) (obj \<or> holds_object m) (ret \<or> holds_retainable m)"
    using Cons.prems(5) t bound
    by (auto simp: layout_fields_def describes_def max_def
        update_struct_typeinfo_with_subsequent_member_typeinfo_def)
  from Cons.IH [OF Cons.prems(1) _ _ Cons.prems(4) this max_c_alignments [OF Cons.prems(6) am] fits,
      where n = "n + 1" and u = u'] Cons.prems(2)
  obtain j u'' where rest: "mulle_objc_signature_supply_struct_typeinfo al scalar memo (n + 1) ?tail level
      (Some ?i) (Some (observing g)) u' = Inr (Some (rest, Some j, u''))"
    and j: "let sz = align_up (members_end ?off ?layout)
                       (max (max a (alignof m)) (largest (map alignof ms)))
     in layout_fields j sz (max (max a (alignof m)) (largest (map alignof ms)))
          ((obj \<or> holds_object m) \<or> (\<exists>m\<in>set ms. holds_object m))
          ((ret \<or> holds_retainable m) \<or> (\<exists>m\<in>set ms. holds_retainable m)) \<and>
        ti_natural_size j = sz \<and> ti_n_members j = n + 1 + length ms \<and> ti_type j = ti_type ?i"
    by auto
  have "mulle_objc_signature_supply_struct_typeinfo al scalar memo n
      (concat (map encode (m # ms)) @ C_STRUCT_E # rest) level (Some i) (Some (observing g)) u
      = Inr (Some (rest, Some j, u''))"
    using parse rest c Cons.prems(3)
    by (subst mulle_objc_signature_supply_struct_typeinfo.simps) simp
  moreover have "ti_type ?i = ti_type i"
    by (simp add: update_struct_typeinfo_with_subsequent_member_typeinfo_def)
  ultimately show ?case
    using j by (auto simp: Let_def max.assoc disj_assoc)
qed


lemma union_members_info:
  assumes "\<And>m rest u. m \<in> set ms \<Longrightarrow> may_follow m rest \<Longrightarrow>
      \<exists>i u'. mulle_objc_type_parse al scalar (encode m @ rest) level (Some typeinfo_blank)
        (Some (observing g)) (u :: 'u) = Inr (Some (rest, Some i, u')) \<and> describes i m"
    and "\<forall>m\<in>set ms. laid_out m" "0 < n"
    and "layout_fields i sz a obj ret" "ti_natural_size i = sz"
  shows "\<exists>j u'. mulle_objc_signature_supply_union_typeinfo al scalar memo n
      (concat (map encode ms) @ C_UNION_E # rest) level (Some i) (Some (observing g)) (u :: 'u)
      = Inr (Some (rest, Some j, u')) \<and>
    layout_fields j (max sz (largest (map sizeof ms))) (max a (largest (map alignof ms)))
      (obj \<or> (\<exists>m\<in>set ms. holds_object m)) (ret \<or> (\<exists>m\<in>set ms. holds_retainable m)) \<and>
    ti_natural_size j = max sz (largest (map sizeof ms)) \<and>
    ti_n_members j = n + length ms \<and> ti_type j = ti_type i"
  using assms
proof (induction ms arbitrary: n u i sz a obj ret)
  case Nil
  then show ?case
    by (subst mulle_objc_signature_supply_union_typeinfo.simps)
       (simp add: finalize_union_typeinfo_def layout_fields_def)
next
  case (Cons m ms)
  let ?tail = "concat (map encode ms) @ C_UNION_E # rest"
  have enc: "\<forall>m\<in>set (m # ms). well_encoded m"
    using Cons.prems(2) by (auto dest: laid_out_encoded)
  then obtain c s where c: "encode m = c # s" "c \<notin> {CHR ''?'', C_STRUCT_E, C_UNION_E, C_ARY_E, NUL}"
    by (meson encode_start list.set_intros(1))
  have "may_follow m ?tail"
    using enc by (intro may_follow_members) auto
  then obtain t u' where parse: "mulle_objc_type_parse al scalar (encode m @ ?tail) level
      (Some typeinfo_blank) (Some (observing g)) u = Inr (Some (?tail, Some t, u'))" and t: "describes t m"
    using Cons.prems(1) [of m ?tail u] by auto
  let ?i = "update_union_typeinfo_with_member_typeinfo i t"
  have i: "layout_fields ?i (max sz (sizeof m)) (max a (alignof m))
      (obj \<or> holds_object m) (ret \<or> holds_retainable m)"
    "ti_natural_size ?i = max sz (sizeof m)" "ti_type ?i = ti_type i"
    using Cons.prems(4,5) t
    by (auto simp: layout_fields_def describes_def max_def update_union_typeinfo_with_member_typeinfo_def)
  from Cons.IH [OF Cons.prems(1) _ _ i(1,2), where n = "n + 1" and u = u'] Cons.prems(2)
  obtain j u'' where rest: "mulle_objc_signature_supply_union_typeinfo al scalar memo (n + 1) ?tail level
      (Some ?i) (Some (observing g)) u' = Inr (Some (rest, Some j, u''))"
    and j: "layout_fields j (max (max sz (sizeof m)) (largest (map sizeof ms)))
        (max (max a (alignof m)) (largest (map alignof ms)))
        ((obj \<or> holds_object m) \<or> (\<exists>m\<in>set ms. holds_object m))
        ((ret \<or> holds_retainable m) \<or> (\<exists>m\<in>set ms. holds_retainable m))"
      "ti_natural_size j = max (max sz (sizeof m)) (largest (map sizeof ms))"
      "ti_n_members j = n + 1 + length ms" "ti_type j = ti_type ?i"
    by auto
  have "mulle_objc_signature_supply_union_typeinfo al scalar memo n
      (concat (map encode (m # ms)) @ C_UNION_E # rest) level (Some i) (Some (observing g)) u
      = Inr (Some (rest, Some j, u''))"
    using parse rest c Cons.prems(3)
    by (subst mulle_objc_signature_supply_union_typeinfo.simps) simp
  then show ?case
    using j i(3) by (auto simp: max.assoc disj_assoc)
qed


lemmas supply_defs = CLEAR_RUNTIME_TYPE_INFO_def SUPPLY_RUNTIME_TYPE_INFO_def
  SUPPLY_RUNTIME_C_TYPE_INFO_def SUPPLY_RUNTIME_CHARPTR_TYPE_INFO_def SUPPLY_RUNTIME_OBJC_TYPE_INFO_def

text \<open>What the start of the parser does for the character of an aggregate.\<close>

lemma parse_start_multi:
  assumes "c \<in> {C_PTR, C_ARY_B, C_STRUCT_B, C_UNION_B}"
  shows "\<exists>i. type_parse_start mulle_objc_signature_supply_scalar_typeinfo (c # s) (Some i0) = (1, Some i) \<and>
    ti_natural_size i = 0 \<and> ti_natural_alignment i = 0 \<and> ti_bits_struct_alignment i = 0 \<and>
    ti_bits_size i = 0 \<and> ti_has_object i = False \<and> ti_has_retainable_type i = False \<and>
    ti_n_members i = 0 \<and> ti_type i = c # s"
  using assms
  by (elim insertE emptyE)
     (simp_all add: type_parse_start_def mulle_objc_signature_supply_scalar_typeinfo_def
       CLEAR_RUNTIME_TYPE_INFO_def NUL_def)

lemma parse_start_object:
  "\<exists>i. type_parse_start mulle_objc_signature_supply_scalar_typeinfo (C_RETAIN_ID # s) (Some i0) = (1, Some i) \<and>
    ti_n_members i = 0 \<and> ti_type i = C_RETAIN_ID # s"
  by (simp add: type_parse_start_def mulle_objc_signature_supply_scalar_typeinfo_def NUL_def)

lemma parse_start_scalar:
  assumes "c \<in> value_scalars" "c \<noteq> C_RETAIN_ID"
  shows "\<exists>i. type_parse_start mulle_objc_signature_supply_scalar_typeinfo (c # s) (Some i0) = (0, Some i) \<and>
    describes i (Scalar c) \<and> ti_type i = c # s"
  using assms unfolding value_scalars_def
  by (elim insertE emptyE)
     (simp_all add: type_parse_start_def mulle_objc_signature_supply_scalar_typeinfo_def supply_defs
       NUL_def describes_def layout_fields_def scalar_size_def)

lemma parse_union_info:
  assumes IH: "\<And>m rest level i0 u. m \<in> set ms \<Longrightarrow> laid_out m \<Longrightarrow> may_follow m rest \<Longrightarrow> 0 \<le> level \<Longrightarrow>
      \<exists>i u'. mulle_objc_type_parse al mulle_objc_signature_supply_scalar_typeinfo (encode m @ rest)
        level (Some i0) (Some (observing g)) (u :: 'u) = Inr (Some (rest, Some i, u')) \<and>
      describes i m \<and> ti_type i = encode m @ rest"
    and name: "CHR ''='' \<notin> set name" "C_UNION_E \<notin> set name"
    and "ms \<noteq> []" and ok: "\<forall>m\<in>set ms. laid_out m" and "0 \<le> level"
  shows "\<exists>j u'. mulle_objc_type_parse al mulle_objc_signature_supply_scalar_typeinfo
      (encode (Union name ms) @ rest) level (Some i0) (Some (observing g)) (u :: 'u)
      = Inr (Some (rest, Some j, u')) \<and>
    layout_fields j (largest (map sizeof ms)) (largest (map alignof ms))
      (\<exists>m\<in>set ms. holds_object m) (\<exists>m\<in>set ms. holds_retainable m) \<and>
    ti_natural_size j = largest (map sizeof ms) \<and> ti_n_members j = length ms \<and>
    ti_type j = encode (Union name ms) @ rest"
proof -
  obtain m ms' where ms: "ms = m # ms'" using assms(4) by (cases ms) auto
  let ?tail = "concat (map encode ms') @ C_UNION_E # rest"
  let ?memo = "name @ CHR ''='' # encode m @ ?tail"
  have enc: "\<forall>x\<in>set ms. well_encoded x"
    using ok by (auto dest: laid_out_encoded)
  have member: "\<exists>i u'. mulle_objc_type_parse al mulle_objc_signature_supply_scalar_typeinfo
      (encode x @ rest') (level + 1) (Some typeinfo_blank) (Some (observing g)) v
      = Inr (Some (rest', Some i, u')) \<and> describes i x"
    if "x \<in> set ms" "may_follow x rest'" for x rest' v
  proof -
    from IH [OF that(1) _ that(2), of "level + 1" typeinfo_blank v] ok that(1) assms(6)
    show ?thesis by auto
  qed
  obtain i where i: "type_parse_start mulle_objc_signature_supply_scalar_typeinfo
      (C_UNION_B # ?memo) (Some i0) = (1, Some i)" "ti_type i = C_UNION_B # ?memo"
    "layout_fields i 0 0 False False" "ti_natural_size i = 0"
    using parse_start_multi [of C_UNION_B ?memo i0] by (auto simp: layout_fields_def)
  let ?i = "start_members ?memo (encode m @ ?tail) i"
  have "may_follow m ?tail"
    using enc ms by (intro may_follow_members) auto
  then obtain t u' where t: "mulle_objc_type_parse al mulle_objc_signature_supply_scalar_typeinfo
      (encode m @ ?tail) (level + 1) (Some typeinfo_blank) (Some (observing g))
      (g (C_UNION_B # ?memo) ?i u) = Inr (Some (?tail, Some t, u'))" "describes t m"
    using member ms by (metis list.set_intros(1))
  have "layout_fields (update_union_typeinfo_with_member_typeinfo ?i t)
      (sizeof m) (alignof m) (holds_object m) (holds_retainable m)"
    "ti_natural_size (update_union_typeinfo_with_member_typeinfo ?i t) = sizeof m"
    using t(2) i(3,4)
    by (auto simp: layout_fields_def describes_def update_union_typeinfo_with_member_typeinfo_def
        start_members_def)
  then obtain j u'' where
    rest: "mulle_objc_signature_supply_union_typeinfo al mulle_objc_signature_supply_scalar_typeinfo
      ?memo 1 ?tail (level + 1) (Some (update_union_typeinfo_with_member_typeinfo ?i t))
      (Some (observing g)) u' = Inr (Some (rest, Some j, u''))"
    and j: "layout_fields j (max (sizeof m) (largest (map sizeof ms')))
        (max (alignof m) (largest (map alignof ms')))
        (holds_object m \<or> (\<exists>m\<in>set ms'. holds_object m))
        (holds_retainable m \<or> (\<exists>m\<in>set ms'. holds_retainable m))"
      "ti_natural_size j = max (sizeof m) (largest (map sizeof ms'))"
      "ti_n_members j = 1 + length ms'"
      "ti_type j = ti_type (update_union_typeinfo_with_member_typeinfo ?i t)"
    using union_members_info [of ms' al mulle_objc_signature_supply_scalar_typeinfo "level + 1" g 1
        "update_union_typeinfo_with_member_typeinfo ?i t" "sizeof m" "alignof m"
        "holds_object m" "holds_retainable m" ?memo rest u'] member ok ms
    by auto
  have "mulle_objc_signature_supply_union_typeinfo al mulle_objc_signature_supply_scalar_typeinfo
      ?memo 0 ?memo (level + 1) (Some i) (Some (observing g)) u = Inr (Some (rest, Some j, u''))"
    using name t(1) rest
    by (simp add: union_name mulle_objc_signature_supply_union_typeinfo.simps
        [of al _ ?memo 0 "CHR ''='' # encode m @ ?tail"])
  then have "mulle_objc_type_parse al mulle_objc_signature_supply_scalar_typeinfo
      (encode (Union name ms) @ rest) level (Some i0) (Some (observing g)) u
      = Inr (Some (rest, Some j, u''))"
    using i(1) ms by (subst mulle_objc_type_parse.simps) simp
  moreover have "ti_type j = encode (Union name ms) @ rest"
    using j(4) i(2) ms
    by (simp add: update_union_typeinfo_with_member_typeinfo_def start_members_def)
  ultimately show ?thesis using j(1-3) ms by auto
qed

lemma parse_info:
  assumes "laid_out t" "may_follow t rest" "0 \<le> level" and al: "address_align al"
  shows "\<exists>i u'. mulle_objc_type_parse al mulle_objc_signature_supply_scalar_typeinfo (encode t @ rest)
      level (Some i0) (Some (observing g)) (u :: 'u) = Inr (Some (rest, Some i, u')) \<and>
    describes i t \<and> ti_type i = encode t @ rest"
  using assms(1-3)
proof (induction t arbitrary: rest level i0 u)
  case (Scalar c)
  show ?case
  proof (cases "c = C_RETAIN_ID")
    case True
    with Scalar show ?thesis
      using parse_start_object [of rest i0]
      by (subst mulle_objc_type_parse.simps)
         (auto simp: mulle_objc_signature_supply_object_typeinfo_def supply_defs describes_def
           layout_fields_def scalar_size_def may_follow_def)
  next
    case False
    with Scalar show ?thesis
      using parse_start_scalar [of c rest i0]
      by (subst mulle_objc_type_parse.simps) auto
  qed
next
  case Block
  then show ?case
    using parse_start_object [of "CHR ''?'' # rest" i0]
    by (subst mulle_objc_type_parse.simps)
       (auto simp: mulle_objc_signature_supply_object_typeinfo_def supply_defs describes_def
         mulle_objc_signature_supply_block_typeinfo_def layout_fields_def)
next
  case Function
  then show ?case
    using parse_start_multi [of C_PTR "CHR ''?'' # rest" i0]
    by (subst mulle_objc_type_parse.simps)
       (auto simp: supply_defs describes_def layout_fields_def)
next
  case (Pointer t)
  have enc: "well_encoded t" using Pointer.prems(1) by simp
  then obtain c s where c: "encode t = c # s" "c \<noteq> CHR ''?''"
    by (metis encode_start insertI1)
  have "mulle_objc_type_parse al mulle_objc_signature_supply_scalar_typeinfo (encode t @ rest)
      (level + 1) None None (u' :: 'u) = Inr (Some (rest, None, u'))" for u'
    using enc Pointer.prems(2) by (intro parse_skip) (auto simp: may_follow_def)
  then show ?case
    using parse_start_multi [of C_PTR "encode t @ rest" i0] c
    by (subst mulle_objc_type_parse.simps)
       (auto simp: supply_defs describes_def layout_fields_def)
next
  case (Array n t)
  have enc: "well_encoded t" using Array.prems(1) by (auto dest: laid_out_encoded)
  then obtain c s where c: "encode t = c # s" "\<not> is_digit c"
    by (meson encode_start)
  then have scan: "scan_length 0 (decimal n @ encode t @ C_ARY_E # rest)
      = Inr (int n, encode t @ C_ARY_E # rest)"
    using Array.prems(1) by (intro scan_length_text) auto
  have member: "\<exists>i u'. mulle_objc_type_parse al mulle_objc_signature_supply_scalar_typeinfo
      (encode t @ C_ARY_E # rest) (level + 1) (Some typeinfo_blank) (Some (observing g)) v
      = Inr (Some (C_ARY_E # rest, Some i, u')) \<and> describes i t" for v
    using Array.IH [of "C_ARY_E # rest" "level + 1" typeinfo_blank v] Array.prems by auto
  obtain i where i: "type_parse_start mulle_objc_signature_supply_scalar_typeinfo
      (encode (Array n t) @ rest) (Some i0) = (1, Some i)" "ti_type i = encode (Array n t) @ rest"
    using parse_start_multi [of C_ARY_B "decimal n @ encode t @ C_ARY_E # rest" i0] by auto
  obtain j u' where j: "mulle_objc_type_parse al mulle_objc_signature_supply_scalar_typeinfo
      (encode t @ C_ARY_E # rest) (level + 1) (Some typeinfo_blank) (Some (observing g))
      (g (C_ARY_B # decimal n @ encode t @ C_ARY_E # rest)
         (i \<lparr> ti_n_members := n, ti_member_type_start := Some (encode t @ C_ARY_E # rest) \<rparr>) u)
      = Inr (Some (C_ARY_E # rest, Some j, u'))" "describes j t"
    using member by blast
  have "8 * (n * sizeof t) < 2 ^ 32"
    using Array.prems(1) by simp
  moreover from this have "n * (8 * sizeof t) < 2 ^ 64"
    by (simp add: mult.left_commute)
  ultimately show ?case
    using Array.prems(3) scan i j
    by (subst mulle_objc_type_parse.simps, subst mulle_objc_signature_supply_array_typeinfo.simps)
       (simp add: describes_def layout_fields_def update_array_typeinfo_with_length_def)
next
  case (Bits n)
  then show ?case by simp
next
  case (Struct name ms)
  obtain m ms' where ms: "ms = m # ms'" using Struct.prems(1) by (cases ms) auto
  let ?layout = "map (\<lambda>m. (sizeof m, alignof m)) ms'"
  let ?tail = "concat (map encode ms') @ C_STRUCT_E # rest"
  let ?memo = "name @ CHR ''='' # encode m @ ?tail"
  have ok: "\<forall>x\<in>set ms. laid_out x" and enc: "\<forall>x\<in>set ms. well_encoded x"
    using Struct.prems(1) by (auto dest: laid_out_encoded)
  have member: "\<exists>i u'. mulle_objc_type_parse al mulle_objc_signature_supply_scalar_typeinfo
      (encode x @ rest') (level + 1) (Some typeinfo_blank) (Some (observing g)) v
      = Inr (Some (rest', Some i, u')) \<and> describes i x"
    if "x \<in> set ms" "may_follow x rest'" for x rest' v
  proof -
    from Struct.IH [OF that(1) _ that(2), of "level + 1" typeinfo_blank v] ok that(1) Struct.prems(3)
    show ?thesis by auto
  qed
  obtain i where i: "type_parse_start mulle_objc_signature_supply_scalar_typeinfo
      (C_STRUCT_B # ?memo) (Some i0) = (1, Some i)" "ti_type i = C_STRUCT_B # ?memo"
    using parse_start_multi [of C_STRUCT_B ?memo i0] by auto
  let ?i = "start_members ?memo (encode m @ ?tail) i"
  have "may_follow m ?tail"
    using enc ms by (intro may_follow_members) auto
  then obtain t u' where t: "mulle_objc_type_parse al mulle_objc_signature_supply_scalar_typeinfo
      (encode m @ ?tail) (level + 1) (Some typeinfo_blank) (Some (observing g))
      (g (C_STRUCT_B # ?memo) ?i u) = Inr (Some (?tail, Some t, u'))" "describes t m"
    using member ms by (metis list.set_intros(1))
  have am: "alignof m \<in> c_alignments"
    using ok ms by (auto dest: alignof_laid_out)
  have "layout_fields (update_struct_typeinfo_with_first_member_typeinfo ?i t)
      (sizeof m) (alignof m) (holds_object m) (holds_retainable m)"
    using t(2)
    by (simp add: layout_fields_def describes_def update_struct_typeinfo_with_first_member_typeinfo_def)
  moreover have "8 * align_up (members_end (sizeof m) ?layout)
      (max (alignof m) (largest (map alignof ms'))) < 2 ^ 32"
    using Struct.prems(1) ms c_alignments_pos [OF am] by simp
  ultimately obtain j u'' where
    rest: "mulle_objc_signature_supply_struct_typeinfo al mulle_objc_signature_supply_scalar_typeinfo
      ?memo 1 ?tail (level + 1) (Some (update_struct_typeinfo_with_first_member_typeinfo ?i t))
      (Some (observing g)) u' = Inr (Some (rest, Some j, u''))"
    and j: "let sz = align_up (members_end (sizeof m) ?layout)
                       (max (alignof m) (largest (map alignof ms')))
     in layout_fields j sz (max (alignof m) (largest (map alignof ms')))
          (holds_object m \<or> (\<exists>m\<in>set ms'. holds_object m))
          (holds_retainable m \<or> (\<exists>m\<in>set ms'. holds_retainable m)) \<and>
        ti_natural_size j = sz \<and> ti_n_members j = 1 + length ms' \<and>
        ti_type j = ti_type (update_struct_typeinfo_with_first_member_typeinfo ?i t)"
    using struct_members_info [of ms' al mulle_objc_signature_supply_scalar_typeinfo "level + 1" g 1
        "update_struct_typeinfo_with_first_member_typeinfo ?i t" "sizeof m" "alignof m"
        "holds_object m" "holds_retainable m" ?memo rest u'] member ok al am ms
    by auto
  have "mulle_objc_signature_supply_struct_typeinfo al mulle_objc_signature_supply_scalar_typeinfo
      ?memo 0 ?memo (level + 1) (Some i) (Some (observing g)) u = Inr (Some (rest, Some j, u''))"
    using Struct.prems(1) t(1) rest
    by (simp add: struct_name mulle_objc_signature_supply_struct_typeinfo.simps
        [of al _ ?memo 0 "CHR ''='' # encode m @ ?tail"])
  then have "mulle_objc_type_parse al mulle_objc_signature_supply_scalar_typeinfo
      (encode (Struct name ms) @ rest) level (Some i0) (Some (observing g)) u
      = Inr (Some (rest, Some j, u''))"
    using i(1) ms by (subst mulle_objc_type_parse.simps) simp
  moreover have "describes j (Struct name ms)"
    using j ms c_alignments_pos [OF am] by (simp add: describes_def Let_def)
  moreover have "ti_type j = encode (Struct name ms) @ rest"
    using j i(2) ms
    by (simp add: Let_def update_struct_typeinfo_with_first_member_typeinfo_def start_members_def)
  ultimately show ?case by blast
next
  case (Union name ms)
  have "\<exists>j u'. mulle_objc_type_parse al mulle_objc_signature_supply_scalar_typeinfo
      (encode (Union name ms) @ rest) level (Some i0) (Some (observing g)) u
      = Inr (Some (rest, Some j, u')) \<and>
    layout_fields j (largest (map sizeof ms)) (largest (map alignof ms))
      (\<exists>m\<in>set ms. holds_object m) (\<exists>m\<in>set ms. holds_retainable m) \<and>
    ti_natural_size j = largest (map sizeof ms) \<and> ti_n_members j = length ms \<and>
    ti_type j = encode (Union name ms) @ rest"
    using Union.prems by (intro parse_union_info Union.IH) auto
  then show ?case
    using sizeof_union [OF Union.prems(1)] by (auto simp: describes_def)
qed


text \<open>A return type may be \<open>void\<close>, of no size.\<close>

lemma parse_info_void:
  "\<exists>i u'. mulle_objc_type_parse al mulle_objc_signature_supply_scalar_typeinfo (C_VOID # rest)
      level (Some i0) (Some (observing g)) (u :: 'u) = Inr (Some (rest, Some i, u')) \<and>
    describes i (Scalar C_VOID) \<and> ti_type i = C_VOID # rest"
  by (subst mulle_objc_type_parse.simps)
     (simp add: type_parse_start_def mulle_objc_signature_supply_scalar_typeinfo_def NUL_def
       CLEAR_RUNTIME_TYPE_INFO_def describes_def layout_fields_def scalar_size_def)


lemma address_align_align_up: "address_align align_up"
  by (simp add: address_align_def)

definition example_struct :: ctype where
  "example_struct = Struct ''?'' [Scalar C_CHR, Array 2 (Scalar C_LNG_LNG), Pointer (Scalar C_VOID),
     Union ''u'' [Scalar C_INT, Scalar C_FLT], Scalar C_RETAIN_ID]"


text \<open>The runtime does not pad a union to its alignment: whatever the members, it reports
  the size of the largest one, while the C ABI rounds that size up to a multiple of the
  largest alignment.  The two agree just when the alignment divides the size.
\<close>

theorem union_size_is_not_padded:
  assumes "CHR ''='' \<notin> set name" "C_UNION_E \<notin> set name" "ms \<noteq> []" "\<forall>m\<in>set ms. laid_out m"
    and "address_align al" "0 \<le> level"
  shows "\<exists>i u'. mulle_objc_type_parse al mulle_objc_signature_supply_scalar_typeinfo
        (encode (Union name ms) @ rest) level (Some i0) (Some (observing g)) u
        = Inr (Some (rest, Some i, u')) \<and>
      ti_natural_size i = largest (map sizeof ms) \<and>
      (ti_natural_size i = sizeof (Union name ms) \<longleftrightarrow>
         largest (map alignof ms) dvd largest (map sizeof ms))"
proof -
  have "0 < largest (map alignof ms)"
  proof -
    obtain m where "m \<in> set ms" "largest (map alignof ms) = alignof m"
      using assms(3) largest_in [of "map alignof ms"] by auto
    then show ?thesis
      using assms(4) c_alignments_pos [OF alignof_laid_out, of m] by simp
  qed
  then have pad: "largest (map sizeof ms) = sizeof (Union name ms) \<longleftrightarrow>
      largest (map alignof ms) dvd largest (map sizeof ms)"
    using align_up_dvd_eq [of "largest (map alignof ms)" "largest (map sizeof ms)"]
      align_up_dvd [of "largest (map alignof ms)" "largest (map sizeof ms)"]
    by auto
  have "\<exists>j u'. mulle_objc_type_parse al mulle_objc_signature_supply_scalar_typeinfo
      (encode (Union name ms) @ rest) level (Some i0) (Some (observing g)) u
      = Inr (Some (rest, Some j, u')) \<and>
    layout_fields j (largest (map sizeof ms)) (largest (map alignof ms))
      (\<exists>m\<in>set ms. holds_object m) (\<exists>m\<in>set ms. holds_retainable m) \<and>
    ti_natural_size j = largest (map sizeof ms) \<and> ti_n_members j = length ms \<and>
    ti_type j = encode (Union name ms) @ rest"
    using assms by (intro parse_union_info parse_info) auto
  then obtain j u' where "mulle_objc_type_parse al mulle_objc_signature_supply_scalar_typeinfo
      (encode (Union name ms) @ rest) level (Some i0) (Some (observing g)) u
      = Inr (Some (rest, Some j, u'))" "ti_natural_size j = largest (map sizeof ms)"
    by blast
  with pad show ?thesis
    by (intro exI [of _ j] exI [of _ u'] conjI) (simp_all del: encode.simps sizeof.simps)
qed

definition example_union :: ctype where
  "example_union = Union ''u'' [Scalar C_INT, Array 5 (Scalar C_CHR)]"

lemma union_size_is_not_padded_witness:
  "encode example_union = ''(u=i[5c])'' \<and> sizeof example_union = 8 \<and>
   (\<exists>i u'. mulle_objc_type_parse align_up mulle_objc_signature_supply_scalar_typeinfo
      (encode example_union @ []) 0 (Some typeinfo_blank) (Some (observing (\<lambda>_ _ u. u))) ()
      = Inr (Some ([], Some i, u')) \<and> ti_natural_size i = 5)"
proof (intro conjI)
  show "encode example_union = ''(u=i[5c])''" "sizeof example_union = 8"
    by code_simp+
  have members: "\<forall>m\<in>set [Scalar C_INT, Array 5 (Scalar C_CHR)]. laid_out m"
    by (simp add: value_scalars_def scalar_size_def)
  have largest: "largest (map sizeof [Scalar C_INT, Array 5 (Scalar C_CHR)]) = 5"
    by code_simp
  have name: "CHR ''='' \<notin> set ''u''" "C_UNION_E \<notin> set ''u''"
    by simp_all
  from union_size_is_not_padded [OF name list.distinct(2) members address_align_align_up order_refl,
      of "[]" typeinfo_blank "\<lambda>_ _ u. u" "()", unfolded largest, folded example_union_def]
  show "\<exists>i u'. mulle_objc_type_parse align_up mulle_objc_signature_supply_scalar_typeinfo
      (encode example_union @ []) 0 (Some typeinfo_blank) (Some (observing (\<lambda>_ _ u. u))) ()
      = Inr (Some ([], Some i, u')) \<and> ti_natural_size i = 5"
    by blast
qed

end
