(* ===== verification/Signature_Methods.thy ===== *)
theory Signature_Methods
  imports Signature_Layout
begin

text \<open>
  Signatures of methods as the compiler writes them: the encoding of the return type, of
  self, of the selector and of the arguments, each with a number behind it.  Shown are the
  layout of the invocation frame, the class of the parameter block, and when two
  signatures compare as equal.
\<close>

section \<open>Signatures\<close>

type_synonym method_signature = "(ctype \<times> nat) list"

definition encode_signature :: "method_signature \<Rightarrow> string" where
  "encode_signature ts = concat (map (\<lambda>(t, off). encode t @ decimal off) ts)"

definition method_type :: "ctype \<Rightarrow> bool" where
  "method_type t \<longleftrightarrow> laid_out t \<and> \<not> ends_in_bits t"

definition return_type :: "ctype \<Rightarrow> bool" where
  "return_type t \<longleftrightarrow> method_type t \<or> t = Scalar C_VOID"

lemma encode_signature_simps [simp]:
  "encode_signature [] = []"
  "encode_signature ((t, off) # ts) = encode t @ decimal off @ encode_signature ts"
  by (simp_all add: encode_signature_def)

lemma return_type_encoded: "return_type t \<Longrightarrow> well_encoded t"
  by (auto simp: return_type_def method_type_def laid_out_encoded)

lemma return_type_not_bits: "return_type t \<Longrightarrow> \<not> ends_in_bits t"
  by (auto simp: return_type_def method_type_def)

lemma method_return_type: "method_type t \<Longrightarrow> return_type t"
  by (simp add: return_type_def)

lemma encode_signature_Nil_iff: "\<forall>(t, off)\<in>set ts. return_type t \<Longrightarrow> encode_signature ts = [] \<longleftrightarrow> ts = []"
  by (cases ts) auto

lemma signature_start:
  "\<forall>(t, off)\<in>set ts. return_type t \<Longrightarrow> \<not> is_digit (c_peek (encode_signature ts))"
  by (cases ts) (auto dest!: return_type_encoded elim!: encode_start)

lemma decimal_start: "\<exists>c s. decimal n = c # s \<and> is_digit c"
proof -
  obtain c s where "decimal n = c # s" using decimal_not_Nil [of n] by (cases "decimal n") auto
  then show ?thesis using decimal_digits [of c n] by simp
qed

lemma digit_not_marks:
  "is_digit c \<Longrightarrow> c \<noteq> CHR ''<'' \<and> c \<noteq> CHR 0x22 \<and> c \<noteq> CHR ''?'' \<and> c \<noteq> CHR ''-'' \<and> c \<noteq> CHR ''+''"
  by (auto simp: is_digit_def)

text \<open>The number behind a type is skipped, also by \<open>next_type\<close>.\<close>

lemma skip_digits:
  "(\<And>c. c \<in> set ds \<Longrightarrow> is_digit c) \<Longrightarrow>
    mulle_objc_signature_skip_extendedtypeinfo_until None (ds @ rest) =
    mulle_objc_signature_skip_extendedtypeinfo_until None rest"
proof (induction ds)
  case (Cons c ds)
  then show ?case using digit_not_marks [of c] by simp
qed simp

lemma skip_signature:
  assumes "\<forall>(t, off)\<in>set ts. return_type t"
  shows "mulle_objc_signature_skip_extendedtypeinfo_until None (encode_signature ts)
    = Inr (Some (encode_signature ts))"
proof (cases "encode_signature ts")
  case (Cons c s)
  with assms obtain t off ts' where ts: "ts = (t, off) # ts'" by (cases ts) auto
  with assms have "well_encoded t" by (auto dest: return_type_encoded)
  then obtain d s' where d: "encode t = d # s'" by (auto elim: encode_start)
  have "c \<noteq> CHR ''<'' \<and> c \<noteq> CHR 0x22 \<and> c \<noteq> CHR ''-'' \<and> c \<noteq> CHR ''+'' \<and> \<not> is_digit c"
    using \<open>well_encoded t\<close> Cons ts
    by (cases t) (auto simp: value_scalars_def is_digit_def)
  with Cons show ?thesis by simp
qed simp

lemma next_type_signature:
  assumes "return_type t" "\<forall>(t, off)\<in>set ts. return_type t"
  shows "mulle_objc_signature_next_type al (Some (encode_signature ((t, off) # ts)))
    = Inr (Some (encode_signature ts))"
proof -
  obtain c s where c: "decimal off = c # s" "is_digit c" using decimal_start by blast
  have "may_follow t (decimal off @ encode_signature ts)"
    using c digit_not_marks return_type_not_bits [OF assms(1)] by (simp add: may_follow_def)
  then have "mulle_objc_type_parse al mulle_objc_signature_supply_scalar_typeinfo
      (encode t @ decimal off @ encode_signature ts) (- 1) None None ()
      = Inr (Some (decimal off @ encode_signature ts, None, ()))"
    using return_type_encoded [OF assms(1)] by (intro parse_skip)
  moreover have "mulle_objc_signature_skip_extendedtypeinfo (decimal off @ encode_signature ts)
      = Inr (Some (encode_signature ts))"
    using assms(2) by (simp add: mulle_objc_signature_skip_extendedtypeinfo_def skip_digits
        skip_signature decimal_digits)
  ultimately show ?thesis
    by (auto simp: mulle_objc_signature_next_type_def)
qed

lemma next_type_end: "mulle_objc_signature_next_type al (Some (encode_signature [])) = Inr None"
  "mulle_objc_signature_next_type al None = Inr None"
  by (simp_all add: mulle_objc_signature_next_type_def)

lemma count_signature:
  "\<forall>(t, off)\<in>set ts. return_type t \<Longrightarrow>
    mulle_objc_signature_count_typeinfos al (Some (encode_signature ts)) = Inr (length ts)"
proof (induction ts)
  case Nil
  then show ?case
    by (subst mulle_objc_signature_count_typeinfos.simps) (simp only: next_type_end, simp)
next
  case (Cons x ts)
  obtain t off where x: "x = (t, off)" by force
  have "mulle_objc_signature_next_type al (Some (encode_signature (x # ts))) = Inr (Some (encode_signature ts))"
    unfolding x by (rule next_type_signature) (use Cons.prems x in auto)
  with Cons show ?case
    by (subst mulle_objc_signature_count_typeinfos.simps) (simp del: encode_signature_simps)
qed

section \<open>One type of a signature\<close>

definition type_slot :: "nat \<Rightarrow> nat \<Rightarrow> ctype \<Rightarrow> nat" where
  "type_slot index off t = align_up off (if index = 2 then 16 else alignof t)"

lemma int32_cast_small: "n < 2 ^ 31 \<Longrightarrow> int32_cast (int n) = int n"
  by (simp add: int32_cast_def signed_take_bit_int_eq_self)

lemma offset_address_small: "n < 2 ^ 64 \<Longrightarrow> offset_address (int n) = n"
  by (simp add: offset_address_def)

text \<open>What \<open>supply_typeinfo\<close> says of the first type of a signature, but for the frame.\<close>

definition supplied :: "typeinfo \<Rightarrow> ctype \<Rightarrow> nat \<Rightarrow> string \<Rightarrow> bool" where
  "supplied i t off rest \<longleftrightarrow> describes i t \<and> ti_type i = encode t @ decimal off @ rest \<and>
     ti_pure_type_end i = Some (decimal off @ rest)"

lemma supply_signature:
  assumes "return_type t" "address_align al" "\<not> is_digit (c_peek rest)"
    and supplier: "ss_supplier (case supplier of None \<Rightarrow> signaturesupplier_zero | Some s \<Rightarrow> s) = None"
      "ss_level (case supplier of None \<Rightarrow> signaturesupplier_zero | Some s \<Rightarrow> s) = 0"
  shows "\<exists>i. supplied i t off rest \<and>
    mulle_objc_signature_supply_typeinfo_nonnull al (encode t @ decimal off @ rest) supplier
      (Some typeinfo_blank) =
    c_bind (update_invocation_offset al
        (case supplier of None \<Rightarrow> signaturesupplier_zero | Some s \<Rightarrow> s) (Some i))
      (\<lambda>(supplier, info). Inr (Some (rest, supplier, info)))"
proof -
  obtain c s where c: "decimal off = c # s" "is_digit c" using decimal_start by blast
  then have marks: "c \<noteq> CHR ''<''" "c \<noteq> CHR 0x22" "c \<noteq> CHR ''-''" "c \<noteq> CHR ''+''"
    using digit_not_marks by auto
  have follow: "may_follow t (decimal off @ rest)"
    using c digit_not_marks return_type_not_bits [OF assms(1)] by (simp add: may_follow_def)
  have "\<exists>i u'. mulle_objc_type_parse al mulle_objc_signature_supply_scalar_typeinfo
      (encode t @ decimal off @ rest) 0 (Some typeinfo_blank) (Some (observing (\<lambda>_ _ u. u))) ()
      = Inr (Some (decimal off @ rest, Some i, u')) \<and> describes i t \<and>
      ti_type i = encode t @ decimal off @ rest"
  proof (cases "t = Scalar C_VOID")
    case True
    show ?thesis
      unfolding True encode.simps append_Cons append_Nil by (rule parse_info_void)
  next
    case False
    with assms(1) have "laid_out t" by (simp add: return_type_def method_type_def)
    then show ?thesis using follow order_refl assms(2) by (rule parse_info)
  qed
  then obtain i where i: "mulle_objc_type_parse al mulle_objc_signature_supply_scalar_typeinfo
      (encode t @ decimal off @ rest) 0 (Some typeinfo_blank) (Some dummy_callback) ()
      = Inr (Some (decimal off @ rest, Some i, ()))" "describes i t"
      "ti_type i = encode t @ decimal off @ rest"
    by (auto simp: observing_dummy)
  have "skip_char (CHR ''+'') (skip_char (CHR ''-'') (decimal off @ rest)) = decimal off @ rest"
    using c marks by (simp add: skip_char_def)
  moreover have "dropWhile is_digit (decimal off @ rest) = rest"
    using assms(3) by (rule dropWhile_digits)
  ultimately have "mulle_objc_signature_supply_typeinfo_nonnull al (encode t @ decimal off @ rest) supplier
      (Some typeinfo_blank) =
    c_bind (update_invocation_offset al
        (case supplier of None \<Rightarrow> signaturesupplier_zero | Some s \<Rightarrow> s)
        (Some (i \<lparr> ti_pure_type_end := Some (decimal off @ rest) \<rparr>)))
      (\<lambda>(supplier, info). Inr (Some (rest, supplier, info)))"
    using i(1) c marks supplier
    by (simp add: mulle_objc_signature_supply_typeinfo_nonnull_def Let_def)
  moreover have "supplied (i \<lparr> ti_pure_type_end := Some (decimal off @ rest) \<rparr>) t off rest"
    using i(2,3) by (simp add: supplied_def describes_def layout_fields_def)
  ultimately show ?thesis by blast
qed


section \<open>The invocation frame\<close>

fun frame_offsets :: "nat \<Rightarrow> nat \<Rightarrow> ctype list \<Rightarrow> nat list" where
  "frame_offsets index off [] = []"
| "frame_offsets index off (t # ts) =
     type_slot index off t # frame_offsets (index + 1) (type_slot index off t + sizeof t) ts"

fun frame_end :: "nat \<Rightarrow> nat \<Rightarrow> ctype list \<Rightarrow> nat" where
  "frame_end index off [] = off"
| "frame_end index off (t # ts) = frame_end (index + 1) (type_slot index off t + sizeof t) ts"

lemma slot_alignment_pos: "method_type t \<Longrightarrow> 0 < (if index = 2 then 16 else alignof t)"
  by (auto simp: method_type_def intro: c_alignments_pos [OF alignof_laid_out])

lemma type_slot_ge: "method_type t \<Longrightarrow> off \<le> type_slot index off t"
  unfolding type_slot_def by (intro align_up_ge slot_alignment_pos)

lemma frame_end_ge:
  "\<forall>t\<in>set ts. method_type t \<Longrightarrow> off \<le> frame_end index off ts"
proof (induction ts arbitrary: index off)
  case (Cons t ts)
  then show ?case
    using type_slot_ge [of t off index]
      le_trans [of off "type_slot index off t + sizeof t"
        "frame_end (index + 1) (type_slot index off t + sizeof t) ts"]
    by simp
qed simp

lemma c_alignment_power: "a \<in> c_alignments \<Longrightarrow> \<exists>k\<le>8. a = 2 ^ k"
  unfolding c_alignments_def
  by (auto intro: exI [of _ 0] exI [of _ 1] exI [of _ 2] exI [of _ 3])

lemma address_align_slot:
  assumes "address_align al" "method_type t" "off < 2 ^ 31" "describes i t"
  shows "al off (if index = 2 then alignof_long_double else ti_bits_struct_alignment i div 8)
    = type_slot index off t"
proof -
  have "\<exists>k\<le>8. (if index = 2 then 16 else alignof t) = (2 :: nat) ^ k"
    using c_alignment_power [OF alignof_laid_out, of t] assms(2)
    by (auto simp: method_type_def intro: exI [of _ 4])
  then obtain k where k: "k \<le> 8" "(if index = 2 then 16 else alignof t) = (2 :: nat) ^ k"
    by blast
  have "al off (2 ^ k) = align_up off (2 ^ k)"
    using assms(1,3) k(1) by (simp add: address_align_def)
  then have "al off (if index = 2 then 16 else alignof t) = type_slot index off t"
    unfolding type_slot_def k(2) .
  moreover have "ti_bits_struct_alignment i div 8 = alignof t"
    using assms(4) by (simp add: describes_def layout_fields_def)
  ultimately show ?thesis
    by (simp add: alignof_long_double_def split: if_splits)
qed

lemma update_offset_slot:
  assumes "address_align al" "method_type t" "supplied i t n rest"
    and "ss_invocation_offset s = int off" "ss_index s = index"
    and "type_slot index off t + sizeof t < 2 ^ 31"
  shows "update_invocation_offset al s (Some i) =
    Inr (s \<lparr> ss_invocation_offset := int (type_slot index off t + sizeof t) \<rparr>,
         Some (i \<lparr> ti_invocation_offset := int (type_slot index off t) \<rparr>))"
proof -
  have slot: "off \<le> type_slot index off t" using assms(2) by (rule type_slot_ge)
  with assms(6) have "off < 2 ^ 31" by simp
  then have "al off (if index = 2 then alignof_long_double else ti_bits_struct_alignment i div 8)
      = type_slot index off t"
    using assms(1-3) by (intro address_align_slot) (auto simp: supplied_def)
  moreover have "ti_natural_size i = sizeof t"
    using assms(3) by (simp add: supplied_def describes_def)
  ultimately show ?thesis
    using assms(4-6) slot \<open>off < 2 ^ 31\<close>
    by (simp add: update_invocation_offset_def Let_def offset_address_small int32_cast_small
        del: of_nat_add)
qed

definition described_frame :: "method_signature \<Rightarrow> nat \<Rightarrow> nat \<Rightarrow> typeinfo list \<Rightarrow> bool" where
  "described_frame ts index off infos \<longleftrightarrow> length infos = length ts \<and>
     (\<forall>k<length ts. describes (infos ! k) (fst (ts ! k)) \<and>
        ti_invocation_offset (infos ! k) = int (frame_offsets index off (map fst ts) ! k) \<and>
        ti_type (infos ! k) = encode_signature (drop k ts))"

lemma described_frame_Cons:
  assumes "described_frame ts (index + 1) (type_slot index off t + sizeof t) infos"
    and "describes i t" "ti_invocation_offset i = int (type_slot index off t)"
    and "ti_type i = encode_signature ((t, n) # ts)"
  shows "described_frame ((t, n) # ts) index off (i # infos)"
  using assms by (auto simp: described_frame_def nth_Cons split: nat.splits)

text \<open>A loop body over a list of infos.\<close>

fun each_info :: "(typeinfo option \<Rightarrow> 's \<Rightarrow> 's c_result) \<Rightarrow> typeinfo list \<Rightarrow> 's \<Rightarrow> 's c_result" where
  "each_info body [] s = Inr s"
| "each_info body (i # infos) s = c_bind (body (Some i) s) (each_info body infos)"

lemma enumerator_next_signature:
  assumes "address_align al" "method_type t" "\<forall>(t, off)\<in>set ts. method_type t"
    and rover: "se_types rover = Some (encode_signature ((t, n) # ts))"
      "ss_supplier (se_supplier rover) = None" "ss_level (se_supplier rover) = 0"
      "ss_invocation_offset (se_supplier rover) = int off" "ss_index (se_supplier rover) = index"
    and "type_slot index off t + sizeof t < 2 ^ 31"
  obtains i supplier where
    "mulle_objc_signatureenumerator_next al rover = Inr (True,
       rover \<lparr> se_types := nonempty_types (Some (encode_signature ts)), se_supplier := supplier \<rparr>, Some i)"
    "describes i t" "ti_invocation_offset i = int (type_slot index off t)"
    "ti_type i = encode_signature ((t, n) # ts)"
    "ss_supplier supplier = None" "ss_level supplier = 0"
    "ss_invocation_offset supplier = int (type_slot index off t + sizeof t)"
    "ss_index supplier = index + 1"
proof -
  have "\<not> is_digit (c_peek (encode_signature ts))"
    using assms(3) by (intro signature_start) (auto dest: method_return_type)
  then obtain i where i: "supplied i t n (encode_signature ts)"
    and filled: "mulle_objc_signature_supply_typeinfo_nonnull al (encode_signature ((t, n) # ts))
      (Some (se_supplier rover)) (Some typeinfo_blank) =
    c_bind (update_invocation_offset al (se_supplier rover) (Some i))
      (\<lambda>(supplier, info). Inr (Some (encode_signature ts, supplier, info)))"
    using supply_signature [OF method_return_type [OF assms(2)] assms(1), of "encode_signature ts"
        "Some (se_supplier rover)" n] rover(2,3) by auto
  have "update_invocation_offset al (se_supplier rover) (Some i) =
    Inr ((se_supplier rover) \<lparr> ss_invocation_offset := int (type_slot index off t + sizeof t) \<rparr>,
         Some (i \<lparr> ti_invocation_offset := int (type_slot index off t) \<rparr>))"
    using assms i by (intro update_offset_slot)
  with filled rover have "mulle_objc_signatureenumerator_next al rover = Inr (True,
       rover \<lparr> se_types := nonempty_types (Some (encode_signature ts)),
         se_supplier := (se_supplier rover) \<lparr>
           ss_invocation_offset := int (type_slot index off t + sizeof t), ss_index := index + 1 \<rparr> \<rparr>,
       Some (i \<lparr> ti_invocation_offset := int (type_slot index off t) \<rparr>))"
    by (simp add: mulle_objc_signatureenumerator_next_def)
  from that [OF this] i rover show thesis
    by (simp add: supplied_def describes_def layout_fields_def)
qed


lemma enumerate_while_signature:
  assumes "address_align al"
  shows "\<forall>(t, off)\<in>set ts. method_type t \<Longrightarrow>
    se_types rover = nonempty_types (Some (encode_signature ts)) \<Longrightarrow>
    ss_supplier (se_supplier rover) = None \<Longrightarrow> ss_level (se_supplier rover) = 0 \<Longrightarrow>
    ss_invocation_offset (se_supplier rover) = int off \<Longrightarrow> ss_index (se_supplier rover) = index \<Longrightarrow>
    frame_end index off (map fst ts) < 2 ^ 31 \<Longrightarrow>
    \<exists>infos rover'. described_frame ts index off infos \<and>
      (\<forall>body (s :: 's). enumerate_while al body rover s =
         c_bind (each_info body infos s) (\<lambda>s'. Inr (rover', s'))) \<and>
      se_rval rover' = se_rval rover \<and>
      ss_invocation_offset (se_supplier rover') = int (frame_end index off (map fst ts))"
proof (induction ts arbitrary: rover index off)
  case Nil
  then have "enumerate_while al body rover s = Inr (rover, s)" for body and s :: 's
    by (subst enumerate_while.simps) simp
  with Nil show ?case
    by (intro exI [of _ "[]"] exI [of _ rover]) (simp add: described_frame_def)
next
  case (Cons x ts)
  obtain t n where x: "x = (t, n)" by force
  have types: "method_type t" "\<forall>(t, off)\<in>set ts. method_type t" using Cons.prems(1) x by auto
  let ?slot = "type_slot index off t + sizeof t"
  have "encode_signature (x # ts) \<noteq> []"
    using types(1) x by (auto simp: method_type_def dest!: laid_out_encoded elim!: encode_start)
  then have at: "se_types rover = Some (encode_signature ((t, n) # ts))"
    using Cons.prems(2) x by (auto simp: nonempty_types_Some_iff)
  have "?slot \<le> frame_end (index + 1) ?slot (map fst ts)"
    using types(2) by (intro frame_end_ge) auto
  then have slot: "?slot < 2 ^ 31" using Cons.prems(7) x by simp
  obtain i supplier where
    step: "mulle_objc_signatureenumerator_next al rover = Inr (True,
       rover \<lparr> se_types := nonempty_types (Some (encode_signature ts)), se_supplier := supplier \<rparr>, Some i)"
    and i: "describes i t" "ti_invocation_offset i = int (type_slot index off t)"
      "ti_type i = encode_signature ((t, n) # ts)"
    and supplier: "ss_supplier supplier = None" "ss_level supplier = 0"
      "ss_invocation_offset supplier = int ?slot" "ss_index supplier = index + 1"
    by (rule enumerator_next_signature [OF assms types at Cons.prems(3-6) slot])
  let ?rover = "rover \<lparr> se_types := nonempty_types (Some (encode_signature ts)), se_supplier := supplier \<rparr>"
  obtain infos rover' where
    infos: "described_frame ts (index + 1) ?slot infos"
    and loop: "\<And>body (s :: 's). enumerate_while al body ?rover s =
         c_bind (each_info body infos s) (\<lambda>s'. Inr (rover', s'))"
    and rover': "se_rval rover' = se_rval rover"
      "ss_invocation_offset (se_supplier rover') = int (frame_end (index + 1) ?slot (map fst ts))"
    using Cons.IH [of ?rover ?slot "index + 1"] types(2) supplier Cons.prems(7) x by auto
  have "enumerate_while al body rover s =
      c_bind (each_info body (i # infos) s) (\<lambda>s'. Inr (rover', s'))" for body and s :: 's
  proof -
    obtain c cs where "encode_signature ((t, n) # ts) = c # cs"
      using \<open>encode_signature (x # ts) \<noteq> []\<close> x by (cases "encode_signature ((t, n) # ts)") auto
    then show ?thesis
      using at step ext [of "enumerate_while al body ?rover", OF loop]
      by (subst enumerate_while.simps) simp
  qed
  moreover have "described_frame (x # ts) index off (i # infos)"
    unfolding x using infos i by (rule described_frame_Cons)
  ultimately show ?case
    using rover' x by (intro exI [of _ "i # infos"] exI [of _ rover']) simp
qed

lemma enumerate_signature:
  assumes "address_align al" "return_type rt" "\<forall>(t, off)\<in>set ts. method_type t"
  shows "\<exists>i. describes i rt \<and> ti_type i = encode_signature ((rt, n) # ts) \<and>
    mulle_objc_signature_enumerate al (Some (encode_signature ((rt, n) # ts))) =
      Inr \<lparr> se_types = nonempty_types (Some (encode_signature ts)),
            se_supplier = signaturesupplier_zero, se_rval = Some i \<rparr>"
proof -
  have "encode_signature ((rt, n) # ts) \<noteq> []"
    using assms(2) by (auto dest!: return_type_encoded elim!: encode_start)
  then have types: "nonempty_types (Some (encode_signature ((rt, n) # ts)))
      = Some (encode_signature ((rt, n) # ts))"
    by (simp add: nonempty_types_Some_iff del: encode_signature_simps)
  have "\<not> is_digit (c_peek (encode_signature ts))"
    using assms(3) by (intro signature_start) (auto dest: method_return_type)
  then obtain i where i: "supplied i rt n (encode_signature ts)"
    and filled: "mulle_objc_signature_supply_typeinfo_nonnull al (encode_signature ((rt, n) # ts))
      None (Some typeinfo_blank) =
    c_bind (update_invocation_offset al signaturesupplier_zero (Some i))
      (\<lambda>(supplier, info). Inr (Some (encode_signature ts, supplier, info)))"
    using supply_signature [OF assms(2,1), of "encode_signature ts" None n]
    by (auto simp: signaturesupplier_zero_def)
  obtain j supplier where "update_invocation_offset al signaturesupplier_zero (Some i)
      = Inr (supplier, Some (i \<lparr> ti_invocation_offset := j \<rparr>))"
    by (auto simp: update_invocation_offset_def signaturesupplier_zero_def Let_def)
  with filled types i show ?thesis
    by (intro exI [of _ "i \<lparr> ti_invocation_offset := j \<rparr>"])
       (simp add: mulle_objc_signature_enumerate_def supplied_def describes_def layout_fields_def
         del: encode_signature_simps, simp)
qed


lemma fill_each:
  "p + length infos \<le> length arr \<Longrightarrow>
    each_info (fill_arginfo_step s) infos (p, arr) =
    Inr (p + length infos,
         take p arr @ map (arginfo_of_typeinfo s) infos @ drop (p + length infos) arr)"
proof (induction infos arbitrary: p arr)
  case (Cons i infos)
  then show ?case
    by (simp add: fill_arginfo_step_def upd_conv_take_nth_drop min_absorb2 add.commute)
qed simp

lemma frame_slots:
  "\<forall>t\<in>set ts. method_type t \<Longrightarrow> k < length ts \<Longrightarrow>
    (let slots = frame_offsets index off ts @ [frame_end index off ts]
     in slots ! k + sizeof (ts ! k) \<le> slots ! (k + 1) \<and> alignof (ts ! k) dvd slots ! k \<and>
        (index + k = 2 \<longrightarrow> 16 dvd slots ! k) \<and> slots ! k + sizeof (ts ! k) \<le> frame_end index off ts)"
  (is "?types ts \<Longrightarrow> ?in k ts \<Longrightarrow> ?ok index off ts k")
proof (induction ts arbitrary: index off k)
  case (Cons t ts)
  let ?slot = "type_slot index off t"
  have t: "method_type t" "\<forall>t\<in>set ts. method_type t" using Cons.prems(1) by auto
  show ?case
  proof (cases k)
    case 0
    have "alignof t dvd (16 :: nat)"
      using t(1) alignof_laid_out [of t] by (auto simp: method_type_def c_alignments_def)
    then have "alignof t dvd ?slot" "index = 2 \<longrightarrow> 16 dvd ?slot"
      using align_up_dvd [of "alignof t" off] dvd_trans [OF _ align_up_dvd [of 16 off]]
      by (auto simp: type_slot_def)
    moreover have "?slot + sizeof t \<le>
        (frame_offsets (index + 1) (?slot + sizeof t) ts @ [frame_end (index + 1) (?slot + sizeof t) ts]) ! 0"
      using t(2) by (cases ts) (auto intro: type_slot_ge)
    moreover have "?slot + sizeof t \<le> frame_end (index + 1) (?slot + sizeof t) ts"
      using t(2) by (rule frame_end_ge)
    ultimately show ?thesis using 0 by simp
  next
    case (Suc j)
    from Cons.IH [OF t(2), of j "index + 1" "?slot + sizeof t"] Cons.prems(2) Suc
    show ?thesis by (simp add: Let_def)
  qed
qed simp

lemma length_frame_offsets [simp]: "length (frame_offsets index off ts) = length ts"
  by (induction ts arbitrary: index off) auto

lemma enumerator_next_Some:
  assumes "se_types rover = Some s" "mulle_objc_signatureenumerator_next al rover = Inr r"
  obtains rover' info where "r = (True, rover', info)" "se_types rover' \<noteq> Some []"
proof -
  from assms obtain x where "mulle_objc_signature_supply_typeinfo_nonnull al s
      (Some (se_supplier rover)) (Some typeinfo_blank) = Inr x"
    by (auto simp: mulle_objc_signatureenumerator_next_def c_bind_Inr_iff)
  with assms that show thesis
    by (cases x) (auto simp: mulle_objc_signatureenumerator_next_def nonempty_types_Some_iff)
qed

lemma enumerator_next_types:
  assumes "mulle_objc_signatureenumerator_next al rover = Inr (b, rover', i)" "se_types rover \<noteq> Some []"
  shows "se_types rover' \<noteq> Some []"
proof (cases "se_types rover")
  case (Some s)
  then show ?thesis
    using assms(1) by (rule enumerator_next_Some) auto
qed (use assms in \<open>auto simp: mulle_objc_signatureenumerator_next_def\<close>)

lemma enumerate_while_next:
  assumes "se_types rover \<noteq> Some []"
  shows "c_bind (mulle_objc_signatureenumerator_next al rover)
      (\<lambda>(_, rover, _). enumerate_while al (\<lambda>_ s. Inr s) rover ())
    = enumerate_while al (\<lambda>_ s. Inr s) rover ()"
proof (cases "se_types rover")
  case None
  then show ?thesis
    by (simp add: mulle_objc_signatureenumerator_next_def enumerate_while.simps [of _ _ rover])
next
  case (Some s)
  with assms obtain c s' where cs: "se_types rover = Some (c # s')" by (cases s) auto
  show ?thesis
  proof (cases "mulle_objc_signatureenumerator_next al rover")
    case (Inr r)
    then obtain rover' i where "r = (True, rover', i)"
      using cs by (blast elim: enumerator_next_Some)
    with Inr cs show ?thesis by (simp add: enumerate_while.simps [of _ _ rover])
  qed (use cs in \<open>simp add: enumerate_while.simps [of _ _ rover]\<close>)
qed


lemma sizeof_metaabistruct_loop:
  assumes "mulle_objc_signature_enumerate al types = Inr rover" "se_types rover \<noteq> Some []"
  shows "mulle_objc_signature_sizeof_metaabistruct al types =
    c_bind (enumerate_while al (\<lambda>_ s. Inr s) rover ()) (\<lambda>(rover, _).
    c_bind (mulle_objc_signatureenumerator_rval rover) (\<lambda>info.
      Inr (mulle_metaabi_sizeof_union
             (size_mod (offset_address (ti_invocation_offset info) + ti_natural_size info)))))"
  (is "_ = c_bind _ ?finish")
proof -
  let ?next = "mulle_objc_signatureenumerator_next al"
  let ?while = "\<lambda>rover. enumerate_while al (\<lambda>_ s. Inr s) rover ()"
  have again: "c_bind (?next r) (\<lambda>(_, r', _). c_bind (?while r') ?finish) = c_bind (?while r) ?finish"
    if "se_types r \<noteq> Some []" for r
    by (subst enumerate_while_next [OF that, symmetric]) (simp add: case_prod_unfold)
  have "mulle_objc_signature_sizeof_metaabistruct al types =
      c_bind (?next rover) (\<lambda>(_, r, _). c_bind (?next r) (\<lambda>(_, r', _). c_bind (?while r') ?finish))"
    by (simp add: mulle_objc_signature_sizeof_metaabistruct_def assms(1))
  also have "\<dots> = c_bind (?next rover) (\<lambda>(_, r, _). c_bind (?while r) ?finish)"
  proof (rule c_bind_cong [OF refl])
    fix x assume x: "?next rover = Inr x"
    obtain b r i where "x = (b, r, i)" by (cases x)
    with x have "se_types r \<noteq> Some []"
      using enumerator_next_types [of al rover b r i] assms(2) by simp
    then show "(case x of (_, r, _) \<Rightarrow> c_bind (?next r) (\<lambda>(_, r', _). c_bind (?while r') ?finish))
      = (case x of (_, r, _) \<Rightarrow> c_bind (?while r) ?finish)"
      unfolding \<open>x = (b, r, i)\<close> prod.case by (rule again)
  qed
  also have "\<dots> = c_bind (?while rover) ?finish"
    by (rule again [OF assms(2)])
  finally show ?thesis .
qed

lemma each_info_skip: "each_info (\<lambda>_ s. Inr s) infos s = Inr s"
  by (induction infos) auto


lemma metaabi_union_small:
  "n < 2 ^ 33 \<Longrightarrow> mulle_metaabi_sizeof_union (size_mod n) = 40 * ((n + 39) div 40)"
proof -
  assume n: "n < 2 ^ 33"
  then have "40 * ((n + 39) div 40) < 2 ^ 64"
    using div_times_less_eq_dividend [of "n + 39" 40] by (simp add: mult.commute)
  with n show ?thesis
    by (simp add: mulle_metaabi_sizeof_union_def mulle_metaabi_voidptr5_def)
qed

lemma encode_signature_append: "encode_signature (ts @ ts') = encode_signature ts @ encode_signature ts'"
  by (simp add: encode_signature_def)

lemma drop_encode_signature:
  "drop (length (encode_signature ts) - length (encode_signature (drop k ts))) (encode_signature ts)
    = encode_signature (drop k ts)"
proof -
  have "encode_signature ts = encode_signature (take k ts) @ encode_signature (drop k ts)"
    by (simp flip: encode_signature_append)
  then show ?thesis
    by (metis add_diff_cancel_right' append_eq_conv_conj length_append)
qed

lemma return_type_size: "return_type t \<Longrightarrow> sizeof t < 2 ^ 29"
  using sizeof_bound [of t] by (auto simp: return_type_def method_type_def scalar_size_def)

lemma sizeof_frame:
  assumes "address_align al" "return_type rt" "\<forall>(t, off)\<in>set ts. method_type t"
    and "frame_end 0 0 (map fst ts) < 2 ^ 31"
  obtains i infos where
    "describes i rt" "ti_type i = encode_signature ((rt, n) # ts)"
    "ti_invocation_offset i = int (frame_end 0 0 (map fst ts))"
    "described_frame ts 0 0 infos"
    "\<And>body (s :: 's). c_bind (mulle_objc_signature_enumerate al (Some (encode_signature ((rt, n) # ts))))
        (\<lambda>rover. c_bind (enumerate_while al body rover s) (\<lambda>(rover, s'). 
           c_bind (mulle_objc_signatureenumerator_rval rover) (\<lambda>r. Inr (r, s')))) =
      c_bind (each_info body infos s) (\<lambda>s'. Inr (i, s'))"
    "mulle_objc_signature_sizeof_metaabistruct al (Some (encode_signature ((rt, n) # ts))) =
      Inr (40 * ((frame_end 0 0 (map fst ts) + sizeof rt + 39) div 40))"
proof -
  let ?stop = "frame_end 0 0 (map fst ts)"
  obtain i0 where i0: "describes i0 rt" "ti_type i0 = encode_signature ((rt, n) # ts)"
    and rover: "mulle_objc_signature_enumerate al (Some (encode_signature ((rt, n) # ts))) =
      Inr \<lparr> se_types = nonempty_types (Some (encode_signature ts)),
            se_supplier = signaturesupplier_zero, se_rval = Some i0 \<rparr>" (is "_ = Inr ?rover")
    using enumerate_signature [OF assms(1-3), of n] by blast
  let ?i = "i0 \<lparr> ti_invocation_offset := int ?stop \<rparr>"
  have rval: "mulle_objc_signatureenumerator_rval r = Inr ?i"
    if "se_rval r = Some i0" "ss_invocation_offset (se_supplier r) = int ?stop" for r
    using that by (simp add: mulle_objc_signatureenumerator_rval_def)
  have start: "se_types ?rover = nonempty_types (Some (encode_signature ts))"
    "ss_supplier (se_supplier ?rover) = None" "ss_level (se_supplier ?rover) = 0"
    "ss_invocation_offset (se_supplier ?rover) = int 0" "ss_index (se_supplier ?rover) = 0"
    by (simp_all add: signaturesupplier_zero_def)
  from enumerate_while_signature [OF assms(1,3) start assms(4), where 's = 's]
  obtain infos r where infos: "described_frame ts 0 0 infos"
    and loop: "\<And>body (s :: 's). enumerate_while al body ?rover s =
         c_bind (each_info body infos s) (\<lambda>s'. Inr (r, s'))"
    and r: "se_rval r = se_rval ?rover" "ss_invocation_offset (se_supplier r) = int ?stop"
    by blast
  from enumerate_while_signature [OF assms(1,3) start assms(4), where 's = unit]
  obtain infos' r' where loop': "enumerate_while al (\<lambda>_ s. Inr s) ?rover () =
         c_bind (each_info (\<lambda>_ s. Inr s) infos' ()) (\<lambda>s'. Inr (r', s'))"
    and r': "se_rval r' = se_rval ?rover" "ss_invocation_offset (se_supplier r') = int ?stop"
    by blast
  have "se_types ?rover \<noteq> Some []"
    by (simp add: nonempty_types_Some_iff)
  from sizeof_metaabistruct_loop [OF rover this] loop' rval [of r'] r' i0
  have "mulle_objc_signature_sizeof_metaabistruct al (Some (encode_signature ((rt, n) # ts))) =
      Inr (mulle_metaabi_sizeof_union (size_mod (offset_address (int ?stop) + sizeof rt)))"
    by (simp add: each_info_skip describes_def)
  also have "\<dots> = Inr (40 * ((?stop + sizeof rt + 39) div 40))"
    using assms(4) return_type_size [OF assms(2)]
    by (subst metaabi_union_small) (simp_all add: offset_address_small)
  finally have "mulle_objc_signature_sizeof_metaabistruct al (Some (encode_signature ((rt, n) # ts))) = \<dots>" .
  moreover have "c_bind (mulle_objc_signature_enumerate al (Some (encode_signature ((rt, n) # ts))))
        (\<lambda>rover. c_bind (enumerate_while al body rover s) (\<lambda>(rover, s'). 
           c_bind (mulle_objc_signatureenumerator_rval rover) (\<lambda>r. Inr (r, s')))) =
      c_bind (each_info body infos s) (\<lambda>s'. Inr (?i, s'))" for body and s :: 's
    using rover loop rval [of r] r by simp
  ultimately show thesis
    using that [of ?i infos] i0 infos by (simp add: describes_def layout_fields_def)
qed


text \<open>C37: For the signature of a method, fill_arginfos fills one entry for each type.  Each
  argument has the size of its type, its place in the signature, and a slot in the
  invocation frame that is aligned for its type (the first argument behind the selector
  to 16 bytes) and ends before the next one starts; the entry of the return value, the
  first, starts where the last argument ends.  The MetaABI block is the smallest multiple
  of five pointers that holds all of it.
\<close>

theorem argument_frame:
  assumes "address_align al" "return_type rt" "\<forall>(t, off)\<in>set ts. method_type t"
    and "frame_end 0 0 (map fst ts) < 2 ^ 31"
    and "length (encode_signature ((rt, n) # ts)) < 2 ^ 16" "length arr = length ts + 1"
  shows "\<exists>args.
    mulle_objc_signature_fill_arginfos al (Some (encode_signature ((rt, n) # ts))) arr = Inr args \<and>
    length args = length ts + 1 \<and> ai_natural_size (args ! 0) = sizeof rt \<and>
    ai_invocation_offset (args ! 0) = frame_end 0 0 (map fst ts) \<and> ai_type_offset (args ! 0) = 0 \<and>
    (\<forall>k<length ts. let a = args ! (k + 1); t = fst (ts ! k) in
       ai_natural_size a = sizeof t \<and>
       drop (ai_type_offset a) (encode_signature ((rt, n) # ts)) = encode_signature (drop k ts) \<and>
       alignof t dvd ai_invocation_offset a \<and> (k = 2 \<longrightarrow> 16 dvd ai_invocation_offset a) \<and>
       ai_invocation_offset a + sizeof t \<le> ai_invocation_offset (args ! ((k + 2) mod (length ts + 1)))) \<and>
    mulle_objc_signature_sizeof_metaabistruct al (Some (encode_signature ((rt, n) # ts))) =
      Inr (40 * ((frame_end 0 0 (map fst ts) + sizeof rt + 39) div 40))"
proof -
  let ?sig = "encode_signature ((rt, n) # ts)"
  let ?stop = "frame_end 0 0 (map fst ts)"
  let ?offsets = "frame_offsets 0 0 (map fst ts)"
  obtain i infos where
    i: "describes i rt" "ti_type i = ?sig" "ti_invocation_offset i = int ?stop"
    and infos: "described_frame ts 0 0 infos"
    and loop: "\<And>body (s :: nat \<times> arginfo list). c_bind (mulle_objc_signature_enumerate al (Some ?sig))
        (\<lambda>rover. c_bind (enumerate_while al body rover s) (\<lambda>(rover, s'). 
           c_bind (mulle_objc_signatureenumerator_rval rover) (\<lambda>r. Inr (r, s')))) =
      c_bind (each_info body infos s) (\<lambda>s'. Inr (i, s'))"
    and block: "mulle_objc_signature_sizeof_metaabistruct al (Some ?sig) =
      Inr (40 * ((?stop + sizeof rt + 39) div 40))"
    by (rule sizeof_frame [OF assms(1-4), where n = n]) blast
  have len: "length infos = length ts" using infos by (simp add: described_frame_def)
  let ?args = "arginfo_of_typeinfo ?sig i # map (arginfo_of_typeinfo ?sig) infos"
  have "mulle_objc_signature_fill_arginfos al (Some ?sig) arr =
      c_bind (c_bind (mulle_objc_signature_enumerate al (Some ?sig))
        (\<lambda>rover. c_bind (enumerate_while al (fill_arginfo_step ?sig) rover (1, arr)) (\<lambda>(rover, s'). 
           c_bind (mulle_objc_signatureenumerator_rval rover) (\<lambda>r. Inr (r, s')))))
        (\<lambda>(r, _, infos). Inr (infos [0 := arginfo_of_typeinfo ?sig r]))"
    using assms(6)
    by (auto simp: mulle_objc_signature_fill_arginfos_def case_prod_unfold simp del: encode_signature_simps)
  also have "\<dots> = Inr ?args"
    unfolding loop using assms(6) len
    by (cases arr) (simp_all add: fill_each)
  finally have filled: "mulle_objc_signature_fill_arginfos al (Some ?sig) arr = Inr ?args" .
  have types: "\<forall>t\<in>set (map fst ts). method_type t"
    using assms(3) by auto
  have end0: "ai_invocation_offset (?args ! 0) = ?stop" "ai_natural_size (?args ! 0) = sizeof rt"
    "ai_type_offset (?args ! 0) = 0"
    using i assms(4) return_type_size [OF assms(2)]
    by (simp_all add: arginfo_of_typeinfo_def describes_def)
  have arg: "ai_natural_size (?args ! (k + 1)) = sizeof (fst (ts ! k)) \<and>
      ai_type_offset (?args ! (k + 1)) = length ?sig - length (encode_signature (drop k ts)) \<and>
      ai_invocation_offset (?args ! (k + 1)) = ?offsets ! k" if k: "k < length ts" for k
  proof -
    have d: "describes (infos ! k) (fst (ts ! k))" "ti_invocation_offset (infos ! k) = int (?offsets ! k)"
      "ti_type (infos ! k) = encode_signature (drop k ts)"
      using infos k by (auto simp: described_frame_def)
    have "sizeof (fst (ts ! k)) < 2 ^ 29"
      using types k by (intro return_type_size method_return_type) auto
    moreover have "?offsets ! k < 2 ^ 31"
      using frame_slots [OF types, of k 0 0] k assms(4) by (auto simp: Let_def nth_append)
    moreover have "length ?sig - length (encode_signature (drop k ts)) < 2 ^ 16"
      using assms(5) by (rule le_less_trans [OF diff_le_self])
    ultimately show ?thesis
      using d k len by (simp add: arginfo_of_typeinfo_def describes_def del: encode_signature_simps)
  qed
  have "let a = ?args ! (k + 1); t = fst (ts ! k) in
       ai_natural_size a = sizeof t \<and>
       drop (ai_type_offset a) ?sig = encode_signature (drop k ts) \<and>
       alignof t dvd ai_invocation_offset a \<and> (k = 2 \<longrightarrow> 16 dvd ai_invocation_offset a) \<and>
       ai_invocation_offset a + sizeof t \<le> ai_invocation_offset (?args ! ((k + 2) mod (length ts + 1)))"
    if k: "k < length ts" for k
  proof -
    have slots: "(?offsets @ [?stop]) ! k + sizeof (fst (ts ! k)) \<le> (?offsets @ [?stop]) ! (k + 1)"
      "alignof (fst (ts ! k)) dvd ?offsets ! k" "k = 2 \<longrightarrow> 16 dvd ?offsets ! k"
      using frame_slots [OF types, of k 0 0] k by (auto simp: Let_def nth_append)
    have "drop (length ?sig - length (encode_signature (drop k ts))) ?sig = encode_signature (drop k ts)"
      using drop_encode_signature [of "(rt, n) # ts" "k + 1"] by simp
    moreover have "?offsets ! k + sizeof (fst (ts ! k))
        \<le> ai_invocation_offset (?args ! ((k + 2) mod (length ts + 1)))"
    proof (cases "k + 1 < length ts")
      case True
      then have "ai_invocation_offset (?args ! ((k + 2) mod (length ts + 1))) = ?offsets ! (k + 1)"
        using arg [of "k + 1"] by simp
      then show ?thesis using slots(1) True by (simp add: nth_append)
    next
      case False
      with k have "k + 2 = length ts + 1" by linarith
      then have "(k + 2) mod (length ts + 1) = 0" by (simp only: mod_self)
      then show ?thesis
        unfolding \<open>(k + 2) mod (length ts + 1) = 0\<close> end0
        using slots(1) k False by (simp add: nth_append)
    qed
    moreover obtain a where a: "a = ?args ! (k + 1)" by blast
    ultimately show ?thesis
      using arg [OF k] slots(2,3) unfolding Let_def a [symmetric]
      by (auto simp del: encode_signature_simps)
  qed
  with filled end0 block len show ?thesis
    by (intro exI [of _ ?args]) (simp del: encode_signature_simps)
qed


definition example_method :: method_signature where
  "example_method = [(Scalar C_RETAIN_ID, 0), (Scalar C_SEL, 8), (Scalar C_INT, 16)]"

definition empty_arginfo :: arginfo where
  "empty_arginfo = \<lparr> ai_invocation_offset = 0, ai_natural_size = 0, ai_type_offset = 0,
     ai_natural_alignment = 0, ai_has_retainable_type = False \<rparr>"

text \<open>The method \<open>-(double) foo:(int) x\<close>; its return value lies at an offset that is no multiple of 8.\<close>

lemma argument_frame_witness:
  "encode_signature ((Scalar C_DBL, 24) # example_method) = ''d24@0:8i16'' \<and>
   (\<exists>args. mulle_objc_signature_fill_arginfos align_up
       (Some (encode_signature ((Scalar C_DBL, 24) # example_method))) (replicate 4 empty_arginfo) = Inr args \<and>
     ai_invocation_offset (args ! 0) = 20 \<and> ai_natural_size (args ! 0) = 8)"
proof (intro conjI)
  show sig: "encode_signature ((Scalar C_DBL, 24) # example_method) = ''d24@0:8i16''"
    by code_simp
  have "return_type (Scalar C_DBL)" "\<forall>(t, off)\<in>set example_method. method_type t"
    by (simp_all add: return_type_def method_type_def example_method_def value_scalars_def)
  moreover have fe: "frame_end 0 0 (map fst example_method) = 20"
    by (simp add: example_method_def type_slot_def align_up_def scalar_size_def)
  moreover have "length (replicate 4 empty_arginfo) = length example_method + 1"
    by (simp add: example_method_def)
  moreover have "length (encode_signature ((Scalar C_DBL, 24) # example_method)) < 2 ^ 16"
    unfolding sig by simp
  moreover have "sizeof (Scalar C_DBL) = 8"
    by (simp add: scalar_size_def)
  ultimately show "\<exists>args. mulle_objc_signature_fill_arginfos align_up
       (Some (encode_signature ((Scalar C_DBL, 24) # example_method))) (replicate 4 empty_arginfo) = Inr args \<and>
     ai_invocation_offset (args ! 0) = 20 \<and> ai_natural_size (args ! 0) = 8"
    using argument_frame [OF address_align_align_up, of "Scalar C_DBL" example_method 24 "replicate 4 empty_arginfo"]
    by (auto simp del: encode_signature_simps)
qed

section \<open>The class of the parameter block\<close>

text \<open>
  In the MetaABI a value goes into the space of a pointer if it is one, or an integer that
  is no larger.  A structure that fits is passed that way but never returned.
\<close>

fun fits_pointer :: "ctype \<Rightarrow> bool" where
  "fits_pointer (Scalar c) \<longleftrightarrow> c \<notin> {C_FLT, C_DBL}"
| "fits_pointer Block \<longleftrightarrow> True"
| "fits_pointer Function \<longleftrightarrow> True"
| "fits_pointer (Pointer t) \<longleftrightarrow> True"
| "fits_pointer _ \<longleftrightarrow> False"

fun fits_parameter :: "ctype \<Rightarrow> bool" where
  "fits_parameter (Struct name ms) \<longleftrightarrow> sizeof (Struct name ms) \<le> 8"
| "fits_parameter (Union name ms) \<longleftrightarrow> sizeof (Union name ms) \<le> 8"
| "fits_parameter t \<longleftrightarrow> fits_pointer t"

definition parameter_block :: "ctype \<Rightarrow> ctype list \<Rightarrow> metaabi_param" where
  "parameter_block rt args =
    (if rt \<noteq> Scalar C_VOID \<and> \<not> fits_pointer rt then metaabi_param_struct
     else (case args of
             [] \<Rightarrow> metaabi_param_void
           | [t] \<Rightarrow> if fits_parameter t then metaabi_param_void_pointer else metaabi_param_struct
           | _ \<Rightarrow> metaabi_param_struct))"

lemma class_of_scalar:
  assumes "c \<in> value_scalars"
  shows "mulle_metaabi_get_metaabiparamtype (c # s) =
    (if fits_pointer (Scalar c) then metaabi_param_void_pointer else metaabi_param_struct)"
  using assms unfolding value_scalars_def
  by (elim insertE emptyE)
     (simp_all add: mulle_metaabi_get_metaabiparamtype_def NUL_def Let_def
       mulle_metaabi_is_voidptr_storage_compatible_def)

lemma class_of_type:
  assumes "return_type t"
  shows "mulle_metaabi_get_metaabiparamtype (encode t @ s) =
    (if t = Scalar C_VOID then metaabi_param_void
     else if fits_pointer t then metaabi_param_void_pointer else metaabi_param_struct)"
proof (cases t)
  case (Scalar c)
  show ?thesis
  proof (cases "c = C_VOID")
    case True
    with Scalar show ?thesis by (simp add: mulle_metaabi_get_metaabiparamtype_def)
  next
    case False
    with Scalar assms have "c \<in> value_scalars"
      by (auto simp: return_type_def method_type_def)
    with Scalar False show ?thesis
      using class_of_scalar [of c s] by simp
  qed
qed (use assms in \<open>auto simp: return_type_def method_type_def NUL_def Let_def
       mulle_metaabi_get_metaabiparamtype_def mulle_metaabi_is_voidptr_storage_compatible_def\<close>)

lemma supply_described:
  assumes "return_type t" "address_align al" "\<forall>(t, off)\<in>set ts. return_type t"
  shows "\<exists>i s. describes i t \<and> mulle_objc_signature_supply_typeinfo_nonnull al
    (encode_signature ((t, n) # ts)) None (Some typeinfo_blank) = Inr (Some (encode_signature ts, s, Some i)) \<and>
    ti_type i = encode_signature ((t, n) # ts) \<and> pure_length i = length (encode t)"
proof -
  obtain i where i: "supplied i t n (encode_signature ts)"
    and filled: "mulle_objc_signature_supply_typeinfo_nonnull al (encode_signature ((t, n) # ts))
      None (Some typeinfo_blank) =
    c_bind (update_invocation_offset al signaturesupplier_zero (Some i))
      (\<lambda>(supplier, info). Inr (Some (encode_signature ts, supplier, info)))"
    using supply_signature [OF assms(1,2) signature_start [OF assms(3)], of None n]
    by (auto simp: signaturesupplier_zero_def)
  obtain j supplier where "update_invocation_offset al signaturesupplier_zero (Some i)
      = Inr (supplier, Some (i \<lparr> ti_invocation_offset := j \<rparr>))"
    by (auto simp: update_invocation_offset_def signaturesupplier_zero_def Let_def)
  with filled i show ?thesis
    by (intro exI [of _ "i \<lparr> ti_invocation_offset := j \<rparr>"] exI [of _ supplier])
       (simp add: supplied_def describes_def layout_fields_def pure_length_def)
qed

lemma for_param_class:
  assumes "method_type t" "address_align al" "\<forall>(t, off)\<in>set ts. return_type t"
  shows "mulle_objc_signature_get_metaabiparamtype_for_param al (encode_signature ((t, n) # ts)) =
    Inr (if fits_parameter t then metaabi_param_void_pointer else metaabi_param_struct)"
proof (cases "c_peek (encode t) \<in> {C_STRUCT_B, C_UNION_B}")
  case True
  have enc: "well_encoded t" "alignof t \<le> 8"
    using assms(1) c_alignments_le [OF alignof_laid_out, of t]
    by (auto simp: method_type_def laid_out_encoded)
  then have "fits_parameter t \<longleftrightarrow> sizeof t \<le> 8"
    using True by (cases t) (auto simp: value_scalars_def)
  moreover have "c_peek (encode_signature ((t, n) # ts)) = c_peek (encode t)"
    using enc(1) by (auto elim: encode_start)
  ultimately show ?thesis
    using True enc(2) supply_described [OF method_return_type [OF assms(1)] assms(2,3), of n]
    by (auto simp: mulle_objc_signature_get_metaabiparamtype_for_param_def describes_def layout_fields_def
        simp del: encode_signature_simps)
next
  case False
  have enc: "well_encoded t" "t \<noteq> Scalar C_VOID"
    using assms(1) by (auto simp: method_type_def laid_out_encoded value_scalars_def)
  then have "fits_parameter t \<longleftrightarrow> fits_pointer t"
    using False by (cases t) auto
  moreover have "c_peek (encode_signature ((t, n) # ts)) = c_peek (encode t)"
    using enc(1) by (auto elim: encode_start)
  ultimately show ?thesis
    using False enc(2) class_of_type [OF method_return_type [OF assms(1)], of "decimal n @ encode_signature ts"]
    by (auto simp: mulle_objc_signature_get_metaabiparamtype_for_param_def)
qed



definition tiny_struct :: ctype where
  "tiny_struct = Struct ''?'' [Scalar C_INT, Scalar C_FLT]"


section \<open>Comparing signatures\<close>

lemma supply_filled_end: "supply_filled al (encode_signature []) = Inr None"
  by (simp add: supply_filled_def mulle_objc_signature_supply_typeinfo_nonnull_def Let_def
      signaturesupplier_zero_def parse_simps(1) [of al _ "[]"] type_parse_start_def
      mulle_objc_signature_supply_scalar_typeinfo_def)

lemma supply_filled_signature:
  assumes "return_type t" "address_align al" "\<forall>(t, off)\<in>set ts. return_type t"
  shows "\<exists>i. supply_filled al (encode_signature ((t, n) # ts)) = Inr (Some (encode_signature ts, i)) \<and>
    ti_type i = encode_signature ((t, n) # ts) \<and> pure_length i = length (encode t)"
  using supply_described [OF assms, of n] by (auto simp: supply_filled_def simp del: encode_signature_simps)

lemma typeinfo_compare_0:
  assumes "ti_type a = x @ s" "pure_length a = length x" "ti_type b = y @ t" "pure_length b = length y"
  shows "mulle_objc_typeinfo_compare a b = 0 \<longleftrightarrow> x = y"
proof -
  let ?n = "min (length x) (length y)"
  have n: "(if length x < length y then length x else length y) = ?n"
    by (simp add: min_def)
  have "mulle_objc_typeinfo_compare a b = 0 \<longleftrightarrow> take ?n x = take ?n y \<and> length x = length y"
    unfolding mulle_objc_typeinfo_compare_def Let_def c_strncmp_def assms n by auto
  also have "\<dots> \<longleftrightarrow> x = y" by auto
  finally show ?thesis .
qed

lemma supply_both_signatures:
  assumes al: "address_align al"
    and "return_type t" "\<forall>(t, off)\<in>set ts. return_type t"
    and "return_type t'" "\<forall>(t, off)\<in>set ts'. return_type t"
  shows "\<exists>i i'. (mulle_objc_typeinfo_compare i i' = 0 \<longleftrightarrow> encode t = encode t') \<and>
    (\<forall>k. supply_both al (encode_signature ((t, n) # ts)) (encode_signature ((t', n') # ts')) k =
      k (encode_signature ts) i (encode_signature ts') i')"
proof -
  obtain i where i: "supply_filled al (encode_signature ((t, n) # ts)) = Inr (Some (encode_signature ts, i))"
    "ti_type i = encode t @ decimal n @ encode_signature ts" "pure_length i = length (encode t)"
    using supply_filled_signature [OF assms(2) al assms(3), of n] by auto
  obtain i' where i': "supply_filled al (encode_signature ((t', n') # ts')) = Inr (Some (encode_signature ts', i'))"
    "ti_type i' = encode t' @ decimal n' @ encode_signature ts'" "pure_length i' = length (encode t')"
    using supply_filled_signature [OF assms(4) al assms(5), of n'] by auto
  have "mulle_objc_typeinfo_compare i i' = 0 \<longleftrightarrow> encode t = encode t'"
    by (rule typeinfo_compare_0 [OF i(2,3) i'(2,3)])
  with i(1) i'(1) show ?thesis
    by (intro exI [of _ i] exI [of _ i']) (simp add: supply_both_def del: encode_signature_simps)
qed

lemma compare_loop_signatures:
  assumes al: "address_align al"
  shows "\<forall>(t, off)\<in>set ts. return_type t \<Longrightarrow> \<forall>(t, off)\<in>set ts'. return_type t \<Longrightarrow>
    \<exists>c. methodsignature_compare_loop al (encode_signature ts) (encode_signature ts') = Inr c \<and>
      (c = 0 \<longleftrightarrow> map (encode \<circ> fst) ts = map (encode \<circ> fst) ts')"
proof (induction ts arbitrary: ts')
  case Nil
  show ?case
  proof (cases ts')
    case Nil
    then show ?thesis
      by (subst methodsignature_compare_loop.simps) (simp add: supply_both_def supply_filled_end [simplified])
  next
    case (Cons x' us)
    with Nil.prems(2) have "return_type (fst x')" "\<forall>(t, off)\<in>set us. return_type t" by auto
    from supply_filled_signature [OF this(1) al this(2), of "snd x'"] Cons
    show ?thesis
      by (subst methodsignature_compare_loop.simps)
         (auto simp: supply_both_def supply_filled_end simp del: encode_signature_simps)
  qed
next
  case (Cons x ts)
  then have x: "return_type (fst x)" "\<forall>(t, off)\<in>set ts. return_type t" by auto
  show ?case
  proof (cases ts')
    case Nil
    with supply_filled_signature [OF x(1) al x(2), of "snd x"] show ?thesis
      by (subst methodsignature_compare_loop.simps)
         (auto simp: supply_both_def supply_filled_end simp del: encode_signature_simps)
  next
    case (Cons x' us)
    with Cons.prems have x': "return_type (fst x')" "\<forall>(t, off)\<in>set us. return_type t" by auto
    obtain i i' where i: "mulle_objc_typeinfo_compare i i' = 0 \<longleftrightarrow> encode (fst x) = encode (fst x')"
      and both: "\<And>k. supply_both al (encode_signature (x # ts)) (encode_signature (x' # us)) k =
        k (encode_signature ts) i (encode_signature us) i'"
      using supply_both_signatures [OF al x x', of "snd x" "snd x'"] by (auto simp del: encode_signature_simps)
    have "methodsignature_compare_loop al (encode_signature (x # ts)) (encode_signature (x' # us)) =
      (if mulle_objc_typeinfo_compare i i' \<noteq> 0 then Inr (mulle_objc_typeinfo_compare i i')
       else methodsignature_compare_loop al (encode_signature ts) (encode_signature us))"
      by (subst methodsignature_compare_loop.simps) (simp add: both del: encode_signature_simps)
    with i Cons.IH [OF x(2) x'(2)] Cons show ?thesis
      by (auto simp del: encode_signature_simps)
  qed
qed




section \<open>A class name behind an object type\<close>

lemma skip_to_quote_until:
  "CHR 0x22 \<notin> set name \<Longrightarrow>
    mulle_objc_signature_skip_extendedtypeinfo_until (Some (CHR 0x22)) (name @ CHR 0x22 # rest) =
      (case rest of [] \<Rightarrow> Inl Out_Of_Bounds
       | c # s \<Rightarrow> mulle_objc_signature_skip_extendedtypeinfo_until None s)"
  by (induction name) auto

text \<open>C40: Behind a class name in quotes next_type moves one character too far: with
  @"NSString" at the end of the signature it reads behind the terminator, otherwise it
  drops the first character of what follows, which may be a type.
\<close>

theorem next_type_overruns_class_name:
  assumes "CHR 0x22 \<notin> set name"
  shows "mulle_objc_signature_next_type al (Some (C_RETAIN_ID # CHR 0x22 # name @ CHR 0x22 # rest)) =
    (case rest of [] \<Rightarrow> Inl Out_Of_Bounds
     | c # s \<Rightarrow> mulle_objc_signature_skip_extendedtypeinfo s)"
proof -
  have "mulle_objc_type_parse al mulle_objc_signature_supply_scalar_typeinfo
      (C_RETAIN_ID # CHR 0x22 # name @ CHR 0x22 # rest) (- 1) None None ()
      = Inr (Some (CHR 0x22 # name @ CHR 0x22 # rest, None, ()))"
    using parse_skip [of "Scalar C_RETAIN_ID" "CHR 0x22 # name @ CHR 0x22 # rest"]
    by (simp add: value_scalars_def)
  then show ?thesis
    using skip_to_quote_until [OF assms, of rest]
    by (simp add: mulle_objc_signature_next_type_def mulle_objc_signature_skip_extendedtypeinfo_def
        split: list.split)
qed

lemma next_type_overruns_class_name_witness:
  "mulle_objc_signature_next_type align_up (Some (C_RETAIN_ID # CHR 0x22 # ''NSString'' @ [CHR 0x22]))
     = Inl Out_Of_Bounds \<and>
   mulle_objc_signature_next_type align_up
     (Some (C_RETAIN_ID # CHR 0x22 # ''NSString'' @ CHR 0x22 # ''i8'')) = Inr (Some [])"
  using next_type_overruns_class_name [of "''NSString''" align_up "[]"]
    next_type_overruns_class_name [of "''NSString''" align_up "''i8''"]
  by (simp add: mulle_objc_signature_skip_extendedtypeinfo_def is_digit_def)

end
