(* ===== verification/Signature_Fields.thy ===== *)
theory Signature_Fields
  imports Metaabi
begin

text \<open>
  The part of \<open>mulle-objc-signature.c\<close> that decides whether two ivars have binary
  compatible types, so that \<open>struct { float x, y; }\<close> may stand for \<open>float[ 2]\<close>: an
  enumerator of the fields of a type, and the comparison of two such enumerations.
\<close>

section \<open>The enumerator\<close>

definition MAX_ARRAY_DEPTH :: nat where
  "MAX_ARRAY_DEPTH = 8"

definition MAX_AGGREGATE_DEPTH :: nat where
  "MAX_AGGREGATE_DEPTH = 256 - 8 * 2 - 16 * MAX_ARRAY_DEPTH - 4 * 2"

text \<open>
  The two fixed arrays and their depths are stacks, the innermost element first.  The
  places \<open>curr\<close> and \<open>sentinel\<close> are compared by how much of the string is left.
\<close>

record field_enumerator =
  fe_curr :: string
  fe_sentinel :: string
  fe_array_state :: "(string \<times> nat) list"
  fe_stack :: string

definition mulle_signature_field_enumerator_make :: "string \<Rightarrow> nat \<Rightarrow> field_enumerator" where
  "mulle_signature_field_enumerator_make s len = \<lparr> fe_curr = s, fe_sentinel = drop len s,
     fe_array_state = [], fe_stack = [] \<rparr>"

fun skip_past :: "nat \<Rightarrow> string \<Rightarrow> char \<Rightarrow> bool \<times> string" where
  "skip_past sentinel [] c = (False, [])"
| "skip_past sentinel (d # s) c =
     (if length (d # s) \<le> sentinel then (False, d # s)
      else if d = c then (True, s) else skip_past sentinel s c)"

definition mulle_signature_field_enumerator_skip_past ::
    "field_enumerator \<Rightarrow> char \<Rightarrow> bool \<times> field_enumerator" where
  "mulle_signature_field_enumerator_skip_past p c =
    (let (found, s) = skip_past (length (fe_sentinel p)) (fe_curr p) c
     in (found, p \<lparr> fe_curr := s \<rparr>))"

fun skip_number :: "nat \<Rightarrow> int \<Rightarrow> string \<Rightarrow> (int \<times> string) c_result" where
  "skip_number sentinel nr [] = Inr (0, [])"
| "skip_number sentinel nr (c # s) =
     (if length (c # s) \<le> sentinel then Inr (0, c # s)
      else if \<not> is_digit c then Inr (nr, c # s)
      else if nr * 10 \<le> INT_MAX
      then c_bind (c_int_add (nr * 10) (digit_value c)) (\<lambda>n. skip_number sentinel n s)
      else Inl Signed_Overflow)"

definition mulle_signature_field_enumerator_skip_past_number ::
    "field_enumerator \<Rightarrow> (nat \<times> field_enumerator) c_result" where
  "mulle_signature_field_enumerator_skip_past_number p =
    c_bind (skip_number (length (fe_sentinel p)) 0 (fe_curr p))
      (\<lambda>(nr, s). Inr (nat nr, p \<lparr> fe_curr := s \<rparr>))"

text \<open>Behind the label \<open>next\<close>: the innermost aggregate, an array goes to its next element.\<close>

definition field_enumerator_enter :: "field_enumerator \<Rightarrow> char \<times> field_enumerator" where
  "field_enumerator_enter p =
    (case fe_stack p of
       [] \<Rightarrow> (NUL, p)
     | aggregate # _ \<Rightarrow>
        (aggregate,
         if aggregate = C_ARY_B
         then (case fe_array_state p of
                 (field, Suc repeat) # outer \<Rightarrow>
                   p \<lparr> fe_curr := field, fe_array_state := (field, repeat) # outer \<rparr>
               | _ \<Rightarrow> p)
         else p))"

text \<open>How a turn of the loop ends: \<open>return\<close>, \<open>goto next\<close> or \<open>continue\<close>.\<close>

datatype field_step =
    Return char field_enumerator
  | Goto_Next field_enumerator
  | Continue field_enumerator

definition field_push ::
    "char \<Rightarrow> field_enumerator \<Rightarrow> (field_enumerator \<Rightarrow> field_step c_result) \<Rightarrow> field_step c_result" where
  "field_push c p k =
    (if MAX_AGGREGATE_DEPTH \<le> length (fe_stack p) + 1 then Inl Assertion
     else k (p \<lparr> fe_stack := c # fe_stack p \<rparr>))"

definition field_pop :: "(field_enumerator \<Rightarrow> field_enumerator) \<Rightarrow> field_enumerator \<Rightarrow> field_step" where
  "field_pop f p =
    (let p = p \<lparr> fe_stack := tl (fe_stack p) \<rparr>
     in if fe_stack p = [] then Return NUL (p \<lparr> fe_sentinel := fe_curr p \<rparr>) else Goto_Next (f p))"

definition field_members :: "field_enumerator \<Rightarrow> field_step" where
  "field_members p =
    (case mulle_signature_field_enumerator_skip_past p (CHR ''='') of
       (found, p) \<Rightarrow> if found then Goto_Next p else Return NUL p)"

definition field_default :: "char \<Rightarrow> char \<Rightarrow> field_enumerator \<Rightarrow> field_step" where
  "field_default aggregate c p =
    (if aggregate = C_UNION_E then Continue p
     else (let p = (if aggregate = C_UNION_B then p \<lparr> fe_stack := C_UNION_E # tl (fe_stack p) \<rparr> else p);
               p = (if fe_stack p = [] then p \<lparr> fe_sentinel := fe_curr p \<rparr> else p)
           in Return c p))"

definition field_enumerator_step :: "char \<Rightarrow> field_enumerator \<Rightarrow> field_step c_result" where
  "field_enumerator_step aggregate p =
    (case fe_curr p of
       [] \<Rightarrow> if aggregate = C_UNION_E then Inl Out_Of_Bounds else Inr (field_default aggregate NUL p)
     | c # s \<Rightarrow>
        (let p = p \<lparr> fe_curr := s \<rparr>
         in if c = C_ARY_B then
              field_push c p (\<lambda>p.
                if MAX_ARRAY_DEPTH \<le> length (fe_array_state p) then Inl Assertion
                else c_bind (mulle_signature_field_enumerator_skip_past_number p) (\<lambda>(repeat, p).
                  Inr (Goto_Next
                    (p \<lparr> fe_array_state := (fe_curr p, repeat) # fe_array_state p \<rparr>))))
            else if c = C_ARY_E then
              (if aggregate \<noteq> C_ARY_B then Inl Assertion
               else Inr (field_pop (\<lambda>p. p \<lparr> fe_array_state := tl (fe_array_state p) \<rparr>) p))
            else if c = C_STRUCT_B then field_push c p (\<lambda>p. Inr (field_members p))
            else if c = C_STRUCT_E then
              (if aggregate \<noteq> C_STRUCT_B then Inl Assertion else Inr (field_pop id p))
            else if c = C_UNION_B then field_push c p (\<lambda>p. Inr (field_members p))
            else if c = C_UNION_E then
              (if aggregate \<noteq> C_UNION_B \<and> aggregate \<noteq> C_UNION_E then Inl Assertion
               else Inr (field_pop id p))
            else Inr (field_default aggregate c p)))"

text \<open>
  The loop, which may go through an array many times.  The terminator is yielded as the
  end of the enumeration.
\<close>

partial_function (option) field_enumerator_loop ::
    "char \<Rightarrow> field_enumerator \<Rightarrow> (char \<times> field_enumerator) c_run" where
  "field_enumerator_loop aggregate p =
    (case field_enumerator_step aggregate p of
       Inl e \<Rightarrow> run_fault e
     | Inr (Return c p') \<Rightarrow> run_return (c, p')
     | Inr (Continue p') \<Rightarrow> field_enumerator_loop aggregate p'
     | Inr (Goto_Next p') \<Rightarrow>
         field_enumerator_loop (fst (field_enumerator_enter p')) (snd (field_enumerator_enter p')))"

definition mulle_signature_field_enumerator_next ::
    "field_enumerator \<Rightarrow> (char \<times> field_enumerator) c_run" where
  "mulle_signature_field_enumerator_next p =
    (if length (fe_curr p) = length (fe_sentinel p) then run_return (NUL, p)
     else (case field_enumerator_enter p of (aggregate, p) \<Rightarrow> field_enumerator_loop aggregate p))"

section \<open>The comparison\<close>

definition fields_are_compatible :: "char \<Rightarrow> char \<Rightarrow> bool" where
  "fields_are_compatible a b \<longleftrightarrow>
    (if a \<in> {C_ASSIGN_ID, C_COPY_ID, C_RETAIN_ID, C_CLASS}
     then b \<in> {C_ASSIGN_ID, C_COPY_ID, C_RETAIN_ID, C_CLASS}
     else if a \<in> {C_LNG_LNG, C_ULNG_LNG} then b \<in> {C_LNG_LNG, C_ULNG_LNG}
     else if a \<in> {C_LNG, C_ULNG} then b \<in> {C_LNG, C_ULNG}
     else if a \<in> {C_INT, C_UINT} then b \<in> {C_INT, C_UINT}
     else if a \<in> {C_SHT, C_USHT} then b \<in> {C_SHT, C_USHT}
     else if a \<in> {C_CHR, C_UCHR} then b \<in> {C_CHR, C_UCHR}
     else a = b)"

partial_function (option) types_compatible_loop ::
    "field_enumerator \<Rightarrow> field_enumerator \<Rightarrow> bool c_run" where
  "types_compatible_loop a b =
    (case mulle_signature_field_enumerator_next a of
       None \<Rightarrow> None
     | Some (Inl e) \<Rightarrow> run_fault e
     | Some (Inr (c, a')) \<Rightarrow>
        (case mulle_signature_field_enumerator_next b of
           None \<Rightarrow> None
         | Some (Inl e) \<Rightarrow> run_fault e
         | Some (Inr (d, b')) \<Rightarrow>
             if c = NUL then run_return (d = NUL)
             else if d = NUL then run_return False
             else if \<not> fields_are_compatible c d then run_return False
             else types_compatible_loop a' b'))"

definition mulle_objc_types_are_binary_compatible :: "string \<Rightarrow> nat \<Rightarrow> string \<Rightarrow> nat \<Rightarrow> bool c_run" where
  "mulle_objc_types_are_binary_compatible a a_len b b_len =
     types_compatible_loop (mulle_signature_field_enumerator_make a a_len)
                           (mulle_signature_field_enumerator_make b b_len)"

definition mulle_objc_typeinfo_is_binary_compatible :: "typeinfo \<Rightarrow> typeinfo \<Rightarrow> bool c_run" where
  "mulle_objc_typeinfo_is_binary_compatible a b =
     mulle_objc_types_are_binary_compatible (ti_type a) (pure_length a) (ti_type b) (pure_length b)"

definition mulle_objc_ivarsignature_is_binary_compatible ::
    "(nat \<Rightarrow> nat \<Rightarrow> nat) \<Rightarrow> string \<Rightarrow> string \<Rightarrow> bool c_run" where
  "mulle_objc_ivarsignature_is_binary_compatible al a b =
    run_bind (Some (supply_filled al a)) (\<lambda>ra. run_bind (Some (supply_filled al b)) (\<lambda>rb.
      case ra of
        None \<Rightarrow> run_return (rb = None)
      | Some (_, a_info) \<Rightarrow>
         (case rb of None \<Rightarrow> run_return False
          | Some (_, b_info) \<Rightarrow> mulle_objc_typeinfo_is_binary_compatible a_info b_info)))"

end
