(* ===== verification/Signature_Compatible.thy ===== *)
theory Signature_Compatible
  imports Signature_Fields Signature_Layout
begin

text \<open>
  When two types are binary compatible: for types made of single character scalars, arrays
  and structures, the field enumerator yields the scalars in the order in which they lie
  in memory, so that two types are compatible just when those sequences are.
\<close>

section \<open>Plain types and their fields\<close>

fun plain :: "ctype \<Rightarrow> bool" where
  "plain (Scalar c) \<longleftrightarrow> c \<in> value_scalars"
| "plain (Array n t) \<longleftrightarrow> 0 < n \<and> int n \<le> INT_MAX \<and> plain t"
| "plain (Struct name ms) \<longleftrightarrow> CHR ''='' \<notin> set name \<and> (\<forall>m\<in>set ms. plain m)"
| "plain _ \<longleftrightarrow> False"

fun flatten :: "ctype \<Rightarrow> string" where
  "flatten (Scalar c) = [c]"
| "flatten (Array n t) = concat (replicate n (flatten t))"
| "flatten (Struct name ms) = concat (map flatten ms)"
| "flatten _ = []"

text \<open>How deep arrays, and aggregates of any kind, are nested.\<close>

fun array_depth :: "ctype \<Rightarrow> nat" where
  "array_depth (Array n t) = Suc (array_depth t)"
| "array_depth (Struct name ms) = largest (map array_depth ms)"
| "array_depth _ = 0"

fun aggregate_depth :: "ctype \<Rightarrow> nat" where
  "aggregate_depth (Array n t) = Suc (aggregate_depth t)"
| "aggregate_depth (Struct name ms) = Suc (largest (map aggregate_depth ms))"
| "aggregate_depth _ = 0"

section \<open>Runs of the enumerator\<close>

text \<open>
  From the label \<open>next\<close> to the label \<open>next\<close>, yielding fields; a field is only fetched
  while the sentinel has not been reached.
\<close>

inductive yields :: "field_enumerator \<Rightarrow> string \<Rightarrow> field_enumerator \<Rightarrow> bool" where
  yields_done: "yields p [] p"
| yields_goto: "field_enumerator_enter p = (aggregate, q) \<Longrightarrow>
    field_enumerator_step aggregate q = Inr (Goto_Next p1) \<Longrightarrow>
    yields p1 cs p' \<Longrightarrow> yields p cs p'"
| yields_field: "field_enumerator_enter p = (aggregate, q) \<Longrightarrow>
    field_enumerator_step aggregate q = Inr (Return c p1) \<Longrightarrow> c \<noteq> NUL \<Longrightarrow>
    length (fe_sentinel p1) < length (fe_curr p1) \<Longrightarrow>
    yields p1 cs p' \<Longrightarrow> yields p (c # cs) p'"

lemma yields_append: "yields p cs q \<Longrightarrow> yields q ds r \<Longrightarrow> yields p (cs @ ds) r"
proof (induction rule: yields.induct)
  case (yields_goto p aggregate q p1 cs p')
  then show ?case by (blast intro: yields.yields_goto)
next
  case (yields_field p aggregate q c p1 cs p')
  then show ?case by (auto intro: yields.yields_field)
qed simp

text \<open>
  The state with the innermost aggregate of the given kind about to read \<open>s\<close>; the last
  place in the text is behind the sentinel's distance.
\<close>

lemma enter_struct: "fe_stack p = C_STRUCT_B # st \<Longrightarrow> field_enumerator_enter p = (C_STRUCT_B, p)"
  by (simp add: field_enumerator_enter_def)

lemma enter_array_more:
  "fe_stack p = C_ARY_B # st \<Longrightarrow> fe_array_state p = (field, Suc n) # outer \<Longrightarrow>
    field_enumerator_enter p =
      (C_ARY_B, p \<lparr> fe_curr := field, fe_array_state := (field, n) # outer \<rparr>)"
  by (simp add: field_enumerator_enter_def)

lemma enter_array_last:
  "fe_stack p = C_ARY_B # st \<Longrightarrow> fe_array_state p = (field, 0) # outer \<Longrightarrow>
    field_enumerator_enter p = (C_ARY_B, p)"
  by (simp add: field_enumerator_enter_def)

lemma value_scalars_field:
  "c \<in> value_scalars \<Longrightarrow>
    c \<notin> {C_ARY_B, C_ARY_E, C_STRUCT_B, C_STRUCT_E, C_UNION_B, C_UNION_E, NUL}"
  by (auto simp: value_scalars_def NUL_def)

lemma step_scalar:
  assumes "c \<in> value_scalars" "fe_curr p = c # s" "fe_stack p = a # st" "a \<in> {C_ARY_B, C_STRUCT_B}"
  shows "field_enumerator_step a p = Inr (Return c (p \<lparr> fe_curr := s \<rparr>))"
  using assms value_scalars_field [OF assms(1)]
  by (auto simp: field_enumerator_step_def field_default_def Let_def)

lemma skip_number_text:
  assumes "\<And>c. c \<in> set ds \<Longrightarrow> is_digit c" "\<not> is_digit (c_peek s)" "sentinel < length s"
  shows "skip_number sentinel nr (ds @ s) = c_bind (scan_length nr ds) (\<lambda>(n, _). Inr (n, s))"
  using assms(1)
proof (induction ds arbitrary: nr)
  case Nil
  then show ?case using assms(2,3) by (cases s) auto
next
  case (Cons c ds)
  then show ?case using assms(3) by (auto simp: c_bind_def split: sum.splits)
qed

lemma skip_past_text:
  assumes "c \<notin> set name" "sentinel < length s + 1"
  shows "skip_past sentinel (name @ c # s) c = (True, s)"
  using assms by (induction name) auto


section \<open>An element of an aggregate\<close>

definition element_ok :: "ctype \<Rightarrow> field_enumerator \<Rightarrow> string \<Rightarrow> bool" where
  "element_ok t q rest \<longleftrightarrow>
     (\<exists>a st. fe_stack q = a # st \<and> a \<in> {C_ARY_B, C_STRUCT_B}) \<and>
     fe_curr q = encode t @ rest \<and> length (fe_sentinel q) < length rest \<and>
     length (fe_stack q) + aggregate_depth t < MAX_AGGREGATE_DEPTH \<and>
     length (fe_array_state q) + array_depth t \<le> MAX_ARRAY_DEPTH"

definition element_yields :: "ctype \<Rightarrow> bool" where
  "element_yields t \<longleftrightarrow>
     (\<forall>p a q rest. field_enumerator_enter p = (a, q) \<longrightarrow> a = hd (fe_stack q) \<longrightarrow> element_ok t q rest \<longrightarrow>
        yields p (flatten t) (q \<lparr> fe_curr := rest \<rparr>))"

lemma plain_start:
  assumes "plain t"
  obtains c s where "encode t = c # s" "\<not> is_digit c"
  using assms value_scalars_start
  by (cases t) (auto simp: is_digit_def)

lemma element_scalar: "c \<in> value_scalars \<Longrightarrow> element_yields (Scalar c)"
  unfolding element_yields_def
proof (intro allI impI)
  fix p a q rest
  assume c: "c \<in> value_scalars" and enter: "field_enumerator_enter p = (a, q)"
    and a: "a = hd (fe_stack q)" and ok: "element_ok (Scalar c) q rest"
  then obtain st where "fe_stack q = a # st" "a \<in> {C_ARY_B, C_STRUCT_B}" "fe_curr q = c # rest"
    by (auto simp: element_ok_def)
  with c have "field_enumerator_step a q = Inr (Return c (q \<lparr> fe_curr := rest \<rparr>))"
    by (intro step_scalar)
  with enter show "yields p (flatten (Scalar c)) (q \<lparr> fe_curr := rest \<rparr>)"
    using value_scalars_field [OF c] ok
    by (auto simp: element_ok_def intro: yields_field yields_done)
qed

lemma members_yield:
  assumes "\<And>m. m \<in> set ms \<Longrightarrow> element_yields m"
    and "fe_stack p = C_STRUCT_B # st" "fe_curr p = concat (map encode ms) @ rest"
    and "length (fe_sentinel p) < length rest"
    and "length (fe_stack p) + largest (map aggregate_depth ms) < MAX_AGGREGATE_DEPTH"
    and "length (fe_array_state p) + largest (map array_depth ms) \<le> MAX_ARRAY_DEPTH"
  shows "yields p (concat (map flatten ms)) (p \<lparr> fe_curr := rest \<rparr>)"
  using assms
proof (induction ms arbitrary: p)
  case Nil
  then have "p \<lparr> fe_curr := rest \<rparr> = p" by (cases p) simp
  then show ?case by (simp add: yields_done)
next
  case (Cons m ms)
  let ?rest = "concat (map encode ms) @ rest"
  let ?p = "p \<lparr> fe_curr := ?rest \<rparr>"
  have "element_ok m p ?rest"
    using Cons.prems(2-6) by (auto simp: element_ok_def)
  then have "yields p (flatten m) ?p"
    using Cons.prems(1) [of m] enter_struct [OF Cons.prems(2)] Cons.prems(2)
    by (auto simp: element_yields_def)
  moreover have "yields ?p (concat (map flatten ms)) (?p \<lparr> fe_curr := rest \<rparr>)"
    by (rule Cons.IH) (use Cons.prems in auto)
  ultimately show ?case by (auto intro: yields_append)
qed

lemma element_struct:
  assumes "CHR ''='' \<notin> set name" "\<And>m. m \<in> set ms \<Longrightarrow> element_yields m"
  shows "element_yields (Struct name ms)"
  unfolding element_yields_def
proof (intro allI impI)
  fix p a q rest
  assume enter: "field_enumerator_enter p = (a, q)" and a: "a = hd (fe_stack q)"
    and ok: "element_ok (Struct name ms) q rest"
  from ok a obtain st where st: "fe_stack q = a # st" by (auto simp: element_ok_def)
  let ?members = "concat (map encode ms) @ C_STRUCT_E # rest"
  let ?q = "q \<lparr> fe_curr := ?members, fe_stack := C_STRUCT_B # fe_stack q \<rparr>"
  have "skip_past (length (fe_sentinel q)) (name @ CHR ''='' # ?members) (CHR ''='') = (True, ?members)"
    using assms(1) ok by (intro skip_past_text) (simp_all add: element_ok_def)
  then have open_it: "field_enumerator_step a q = Inr (Goto_Next ?q)"
    using ok by (simp add: element_ok_def field_enumerator_step_def field_push_def field_members_def
        mulle_signature_field_enumerator_skip_past_def Let_def)
  have "yields ?q (concat (map flatten ms)) (?q \<lparr> fe_curr := C_STRUCT_E # rest \<rparr>)"
    by (rule members_yield [OF assms(2)]) (use ok in \<open>auto simp: element_ok_def\<close>)
  moreover have "yields (?q \<lparr> fe_curr := C_STRUCT_E # rest \<rparr>) [] (q \<lparr> fe_curr := rest \<rparr>)"
  proof (rule yields_goto)
    show "field_enumerator_enter (?q \<lparr> fe_curr := C_STRUCT_E # rest \<rparr>) =
        (C_STRUCT_B, ?q \<lparr> fe_curr := C_STRUCT_E # rest \<rparr>)"
      by (rule enter_struct) simp
    show "field_enumerator_step C_STRUCT_B (?q \<lparr> fe_curr := C_STRUCT_E # rest \<rparr>) =
        Inr (Goto_Next (q \<lparr> fe_curr := rest \<rparr>))"
      using st by (cases q) (simp add: field_enumerator_step_def field_pop_def Let_def)
  qed (rule yields_done)
  ultimately have "yields ?q (concat (map flatten ms)) (q \<lparr> fe_curr := rest \<rparr>)"
    using yields_append by fastforce
  with enter open_it show "yields p (flatten (Struct name ms)) (q \<lparr> fe_curr := rest \<rparr>)"
    by (auto intro: yields_goto)
qed

lemma repeats_yield:
  assumes "element_yields t"
    and "\<And>x k. element_ok t (r k (encode t @ rest)) rest"
    and stack: "\<And>x k. fe_stack (r k x) = C_ARY_B # st" 
    and state: "\<And>x k. fe_array_state (r k x) = (encode t @ rest, k) # outer"
    and change: "\<And>x y k k'. (r k x) \<lparr> fe_curr := y, fe_array_state := (encode t @ rest, k') # outer \<rparr> = r k' y"
    and curr: "\<And>x y k. (r k x) \<lparr> fe_curr := y \<rparr> = r k y"
    and "k = 0 \<longrightarrow> x = rest"
  shows "yields (r k x) (concat (replicate k (flatten t))) (r 0 rest)"
  using assms(7)
proof (induction k arbitrary: x)
  case 0
  then show ?case by (simp add: yields_done)
next
  case (Suc k)
  have "field_enumerator_enter (r (Suc k) x) = (C_ARY_B, r k (encode t @ rest))"
    using enter_array_more [OF stack state [of "Suc k" x]] change by simp
  then have "yields (r (Suc k) x) (flatten t) ((r k (encode t @ rest)) \<lparr> fe_curr := rest \<rparr>)"
    using assms(1,2) stack unfolding element_yields_def by fastforce
  moreover have "yields (r k rest) (concat (replicate k (flatten t))) (r 0 rest)"
    by (rule Suc.IH) simp
  ultimately show ?case using curr by (auto intro: yields_append)
qed

lemma element_array:
  assumes "0 < n" "int n \<le> INT_MAX" "plain t" "element_yields t"
  shows "element_yields (Array n t)"
  unfolding element_yields_def
proof (intro allI impI)
  fix p a q rest
  assume enter: "field_enumerator_enter p = (a, q)" and a: "a = hd (fe_stack q)"
    and ok: "element_ok (Array n t) q rest"
  from ok a obtain st where st: "fe_stack q = a # st" by (auto simp: element_ok_def)
  let ?rest = "C_ARY_E # rest"
  let ?field = "encode t @ ?rest"
  define r where "r k x = q \<lparr> fe_curr := x, fe_stack := C_ARY_B # fe_stack q,
      fe_array_state := (?field, k) # fe_array_state q \<rparr>" for k x
  obtain c s where "encode t = c # s" "\<not> is_digit c"
    by (rule plain_start [OF assms(3)])
  then have "skip_number (length (fe_sentinel q)) 0 (decimal n @ ?field) = Inr (int n, ?field)"
    using ok scan_length_decimal [OF assms(2)]
    by (subst skip_number_text) (auto simp: element_ok_def dest: decimal_digits)
  then have open_it: "field_enumerator_step a q = Inr (Goto_Next (r n ?field))"
    using ok by (simp add: element_ok_def field_enumerator_step_def field_push_def r_def
        mulle_signature_field_enumerator_skip_past_number_def Let_def)
  have "yields (r n ?field) (concat (replicate n (flatten t))) (r 0 ?rest)"
    by (rule repeats_yield [OF assms(4), where st = "fe_stack q" and outer = "fe_array_state q"])
       (use ok assms(1) in \<open>auto simp: r_def element_ok_def\<close>)
  moreover have "yields (r 0 ?rest) [] (q \<lparr> fe_curr := rest \<rparr>)"
  proof (rule yields_goto)
    show "field_enumerator_enter (r 0 ?rest) = (C_ARY_B, r 0 ?rest)"
      by (rule enter_array_last) (simp_all add: r_def)
    show "field_enumerator_step C_ARY_B (r 0 ?rest) = Inr (Goto_Next (q \<lparr> fe_curr := rest \<rparr>))"
      using st by (cases q) (simp add: field_enumerator_step_def field_pop_def r_def Let_def)
  qed (rule yields_done)
  ultimately have "yields (r n ?field) (concat (replicate n (flatten t))) (q \<lparr> fe_curr := rest \<rparr>)"
    using yields_append by fastforce
  with enter open_it show "yields p (flatten (Array n t)) (q \<lparr> fe_curr := rest \<rparr>)"
    by (auto intro: yields_goto)
qed

lemma plain_yields: "plain t \<Longrightarrow> element_yields t"
proof (induction t)
  case (Scalar c)
  then show ?case by (intro element_scalar) simp
next
  case (Array n t)
  then show ?case by (intro element_array) auto
next
  case (Struct name ms)
  then show ?case by (intro element_struct) auto
qed auto


section \<open>A whole type\<close>

text \<open>The fields that successive calls yield, up to the end of the enumeration.\<close>

fun enumerates :: "field_enumerator \<Rightarrow> string \<Rightarrow> bool" where
  "enumerates p [] \<longleftrightarrow> (\<exists>q. mulle_signature_field_enumerator_next p = run_return (NUL, q))"
| "enumerates p (c # cs) \<longleftrightarrow> c \<noteq> NUL \<and>
     (\<exists>q. mulle_signature_field_enumerator_next p = run_return (c, q) \<and> enumerates q cs)"

lemma enumerations_compatible:
  "enumerates a cs \<Longrightarrow> enumerates b ds \<Longrightarrow>
    types_compatible_loop a b = run_return (list_all2 fields_are_compatible cs ds)"
proof (induction cs arbitrary: a b ds)
  case Nil
  then show ?case
    by (cases ds) (auto simp: types_compatible_loop.simps [of a b])
next
  case (Cons c cs)
  then show ?case
    by (cases ds) (auto simp: types_compatible_loop.simps [of a b])
qed

definition loop_from :: "field_enumerator \<Rightarrow> (char \<times> field_enumerator) c_run" where
  "loop_from p = field_enumerator_loop (fst (field_enumerator_enter p)) (snd (field_enumerator_enter p))"

lemma next_loop:
  "length (fe_sentinel p) < length (fe_curr p) \<Longrightarrow> mulle_signature_field_enumerator_next p = loop_from p"
  by (simp add: mulle_signature_field_enumerator_next_def loop_from_def case_prod_unfold)

text \<open>The place before the closing bracket of the outermost aggregate.\<close>

definition closing :: "field_enumerator \<Rightarrow> bool" where
  "closing p \<longleftrightarrow> (\<exists>a q r. field_enumerator_enter p = (a, q) \<and>
     field_enumerator_step a q = Inr (Return NUL r))"

lemma yields_enumerates:
  "yields p cs p' \<Longrightarrow> closing p' \<Longrightarrow>
    (case cs of [] \<Rightarrow> \<exists>q. loop_from p = run_return (NUL, q)
     | c # cs' \<Rightarrow> c \<noteq> NUL \<and> (\<exists>q. loop_from p = run_return (c, q) \<and> enumerates q cs'))"
proof (induction rule: yields.induct)
  case (yields_done p)
  then show ?case
    by (auto simp: closing_def loop_from_def field_enumerator_loop.simps)
next
  case (yields_goto p aggregate q p1 cs p')
  then have "loop_from p = loop_from p1"
    by (simp add: loop_from_def field_enumerator_loop.simps [of aggregate q])
  with yields_goto.IH [OF yields_goto.prems] show ?case by (cases cs) simp_all
next
  case (yields_field p aggregate q c p1 cs p')
  then have "loop_from p = run_return (c, p1)"
    by (simp add: loop_from_def field_enumerator_loop.simps [of aggregate q])
  moreover have "enumerates p1 cs"
    using yields_field.IH [OF yields_field.prems] next_loop [OF yields_field.hyps(4)]
    by (cases cs) auto
  ultimately show ?case using yields_field.hyps(3) by simp
qed

lemma yields_all:
  assumes "yields p cs p'" "closing p'" "length (fe_sentinel p) < length (fe_curr p)"
  shows "enumerates p cs"
  using yields_enumerates [OF assms(1,2)] next_loop [OF assms(3)] by (cases cs) auto

definition shallow :: "ctype \<Rightarrow> bool" where
  "shallow t \<longleftrightarrow> aggregate_depth t < MAX_AGGREGATE_DEPTH \<and> array_depth t \<le> MAX_ARRAY_DEPTH"

lemma start_enumerates:
  assumes "plain t" "shallow t"
  shows "enumerates (mulle_signature_field_enumerator_make (encode t @ rest) (length (encode t))) (flatten t)"
    (is "enumerates ?p _")
proof (cases t)
  case (Scalar c)
  let ?q = "?p \<lparr> fe_curr := rest \<rparr>"
  have c: "c \<noteq> NUL" "field_enumerator_step NUL ?p = Inr (Return c ?q)"
    using assms(1) value_scalars_field [of c] Scalar
    by (simp_all add: mulle_signature_field_enumerator_make_def
        field_enumerator_step_def field_default_def Let_def NUL_def)
  then have "loop_from ?p = run_return (c, ?q)"
    by (simp add: loop_from_def field_enumerator_enter_def mulle_signature_field_enumerator_make_def
        field_enumerator_loop.simps [of NUL])
  then have "mulle_signature_field_enumerator_next ?p = run_return (c, ?q)"
    using next_loop [of ?p] Scalar by (simp add: mulle_signature_field_enumerator_make_def)
  moreover have "mulle_signature_field_enumerator_next ?q = run_return (NUL, ?q)"
    using Scalar
    by (simp add: mulle_signature_field_enumerator_next_def mulle_signature_field_enumerator_make_def)
  ultimately show ?thesis using Scalar c(1) by auto
next
  case (Struct name ms)
  let ?members = "concat (map encode ms) @ C_STRUCT_E # rest"
  let ?q = "?p \<lparr> fe_curr := ?members, fe_stack := [C_STRUCT_B] \<rparr>"
  have "skip_past (length rest) (name @ CHR ''='' # ?members) (CHR ''='') = (True, ?members)"
    using assms(1) Struct by (intro skip_past_text) simp_all
  then have "field_enumerator_step NUL ?p = Inr (Goto_Next ?q)"
    using Struct by (simp add: field_enumerator_step_def field_push_def field_members_def Let_def
        mulle_signature_field_enumerator_skip_past_def mulle_signature_field_enumerator_make_def
        MAX_AGGREGATE_DEPTH_def MAX_ARRAY_DEPTH_def)
  moreover have "yields ?q (concat (map flatten ms)) (?q \<lparr> fe_curr := C_STRUCT_E # rest \<rparr>)"
    by (rule members_yield)
       (use assms Struct in \<open>auto simp: shallow_def mulle_signature_field_enumerator_make_def intro: plain_yields\<close>)
  moreover have "field_enumerator_enter ?p = (NUL, ?p)"
    by (simp add: field_enumerator_enter_def mulle_signature_field_enumerator_make_def)
  ultimately have "yields ?p (flatten t) (?q \<lparr> fe_curr := C_STRUCT_E # rest \<rparr>)"
    using Struct by (auto intro: yields_goto)
  moreover have "closing (?q \<lparr> fe_curr := C_STRUCT_E # rest \<rparr>)"
    using enter_struct [of "?q \<lparr> fe_curr := C_STRUCT_E # rest \<rparr>" "[]"]
    by (simp add: closing_def field_enumerator_step_def field_pop_def Let_def)
  ultimately show ?thesis
    by (rule yields_all) (simp add: mulle_signature_field_enumerator_make_def Struct)
next
  case (Array n u)
  let ?rest = "C_ARY_E # rest"
  let ?field = "encode u @ ?rest"
  define r where "r k x = ?p \<lparr> fe_curr := x, fe_stack := [C_ARY_B],
      fe_array_state := [(?field, k)] \<rparr>" for k x
  have u: "0 < n" "int n \<le> INT_MAX" "plain u" using assms(1) Array by auto
  obtain c s where "encode u = c # s" "\<not> is_digit c"
    by (rule plain_start [OF u(3)])
  then have "skip_number (length rest) 0 (decimal n @ ?field) = Inr (int n, ?field)"
    using scan_length_decimal [OF u(2)]
    by (subst skip_number_text) (auto dest: decimal_digits)
  then have "field_enumerator_step NUL ?p = Inr (Goto_Next (r n ?field))"
    using Array by (simp add: field_enumerator_step_def field_push_def r_def Let_def
        mulle_signature_field_enumerator_skip_past_number_def mulle_signature_field_enumerator_make_def
        MAX_AGGREGATE_DEPTH_def MAX_ARRAY_DEPTH_def)
  moreover have "yields (r n ?field) (concat (replicate n (flatten u))) (r 0 ?rest)"
    by (rule repeats_yield [OF plain_yields [OF u(3)], where st = "[]" and outer = "[]"])
       (use assms(2) u(1) Array in \<open>auto simp: r_def element_ok_def shallow_def
          mulle_signature_field_enumerator_make_def\<close>)
  moreover have "field_enumerator_enter ?p = (NUL, ?p)"
    by (simp add: field_enumerator_enter_def mulle_signature_field_enumerator_make_def)
  ultimately have "yields ?p (flatten t) (r 0 ?rest)"
    using Array by (auto intro: yields_goto)
  moreover have "closing (r 0 ?rest)"
    using enter_array_last [of "r 0 ?rest" "[]" ?field "[]"]
    by (simp add: closing_def field_enumerator_step_def field_pop_def r_def Let_def)
  ultimately show ?thesis
    by (rule yields_all) (simp add: mulle_signature_field_enumerator_make_def Array)
qed (use assms(1) in auto)

lemma supply_filled_alone:
  assumes "laid_out t" "address_align al"
  shows "\<exists>i. supply_filled al (encode t) = Inr (Some ([], i)) \<and>
    ti_type i = encode t \<and> pure_length i = length (encode t)"
proof -
  have "\<exists>i u'. mulle_objc_type_parse al mulle_objc_signature_supply_scalar_typeinfo (encode t @ [])
      0 (Some typeinfo_blank) (Some (observing (\<lambda>_ _ u. u))) () = Inr (Some ([], Some i, u')) \<and>
    describes i t \<and> ti_type i = encode t @ []"
    using assms by (intro parse_info) (auto simp: may_follow_def NUL_def is_digit_def)
  then obtain i where i: "mulle_objc_type_parse al mulle_objc_signature_supply_scalar_typeinfo (encode t)
      0 (Some typeinfo_blank) (Some dummy_callback) () = Inr (Some ([], Some i, ()))"
    "ti_type i = encode t"
    by (auto simp: observing_dummy)
  let ?i = "i \<lparr> ti_pure_type_end := Some [] \<rparr>"
  obtain j supplier where "update_invocation_offset al signaturesupplier_zero (Some ?i)
      = Inr (supplier, Some (?i \<lparr> ti_invocation_offset := j \<rparr>))"
    by (auto simp: update_invocation_offset_def signaturesupplier_zero_def Let_def)
  with i show ?thesis
    by (intro exI [of _ "?i \<lparr> ti_invocation_offset := j \<rparr>"])
       (simp add: supply_filled_def mulle_objc_signature_supply_typeinfo_nonnull_def Let_def
         signaturesupplier_zero_def skip_char_def NUL_def pure_length_def)
qed




end
