(* ===== verification/Universe.thy ===== *)
theory Universe
  imports Class_Search Metaabi
begin

text \<open>
  The state of a universe (\<open>mulle-objc-universe-struct.h\<close>): the heap of classes that the
  method search walks, what else a class, a metaclass and a class pair hold
  (\<open>mulle-objc-class-struct.h\<close>, \<open>mulle-objc-infraclass.h\<close>, \<open>mulle-objc-metaclass.h\<close>,
  \<open>mulle-objc-classpair.h\<close>), the tables of the universe (\<open>mulle-objc-universe.c\<close>), and the
  data a compiler emits for the loader (\<open>mulle-objc-load.h\<close>). A hash table is an association
  list, a pointer array a list, and memory does not run out. A function of the universe that
  does not return reports why.
\<close>

section \<open>Failures\<close>

text \<open>
  Which of the fatal reports of the universe ends the program. \<open>Fail_stale_errno\<close> is the report of an
  \<open>errno\<close> that nobody set, \<open>Fault\<close> is a fault of C or a failed
  assertion, \<open>Fail_code_minus_1\<close> the report of the code \<open>-1\<close> that is no \<open>errno\<close>, and
  \<open>No_return\<close> stands for not returning: a bound that the model passes was too small, or the
  universe is configured to hang on a warning.
\<close>

datatype fail_reason =
    Hash_collision | Ivarhash_changed | Superclass_missing | Duplicate_class | Class_not_added
  | Null_dependencies | Duplicate_category | Duplicate_names | Duplicate_supers
  | Fastclass_out_of_bounds | Fastclass_taken | Not_a_mixin
  | Runtime_version | Load_version | No_foundation_versionassert | No_user_versionassert | Tagged_pointer_mismatch
  | Thread_affine_mismatch | Universe_with_tagged_pointers | Optlevel_mismatch
  | Fastcalls_mismatch | No_utf8_strings

datatype universe_failure =
    Fail_errno errno
  | Fail_stale_errno
  | Fail_code_minus_1
  | Fail_generic fail_reason
  | Fail_inconsistency fail_reason
  | Fail_methodnotfound uint32
  | Abort_on_warning
  | Fault c_fault
  | No_return

type_synonym 'a guarded = "universe_failure + 'a"

definition u_bind :: "'a guarded \<Rightarrow> ('a \<Rightarrow> 'b guarded) \<Rightarrow> 'b guarded" where
  "u_bind m f = (case m of Inl e \<Rightarrow> Inl e | Inr x \<Rightarrow> f x)"

lemma u_bind_simps [simp]:
  "u_bind (Inl e) f = Inl e"
  "u_bind (Inr x) f = f x"
  by (simp_all add: u_bind_def)

lemma u_bind_Inr: "u_bind m f = Inr y \<longleftrightarrow> (\<exists>x. m = Inr x \<and> f x = Inr y)"
  by (cases m) auto

lemma u_bind_assoc: "u_bind (u_bind m f) g = u_bind m (\<lambda>x. u_bind (f x) g)"
  by (cases m) simp_all

lemma u_bind_cong [fundef_cong]:
  "m = m' \<Longrightarrow> (\<And>x. m' = Inr x \<Longrightarrow> f x = g x) \<Longrightarrow> u_bind m f = u_bind m' g"
  by (cases m') auto

definition u_assert :: "bool \<Rightarrow> 'a guarded \<Rightarrow> 'a guarded" where
  "u_assert b m = (if b then m else Inl (Fault Assertion))"

lemma u_assert_simps [simp]: "u_assert True m = m" "u_assert False m = Inl (Fault Assertion)"
  by (simp_all add: u_assert_def)

lemma u_assert_Inr: "u_assert b m = Inr y \<longleftrightarrow> b \<and> m = Inr y"
  by (simp add: u_assert_def)

text \<open>A computation that may fault, and one that may also not return, inside a function of the universe.\<close>

definition of_c_result :: "'a c_result \<Rightarrow> 'a guarded" where
  "of_c_result m = (case m of Inl e \<Rightarrow> Inl (Fault e) | Inr x \<Rightarrow> Inr x)"

lemma of_c_result_simps [simp]: "of_c_result (Inl e) = Inl (Fault e)" "of_c_result (Inr x) = Inr x"
  by (simp_all add: of_c_result_def)

definition of_c_run :: "'a c_run \<Rightarrow> 'a guarded" where
  "of_c_run m = (case m of None \<Rightarrow> Inl No_return | Some r \<Rightarrow> of_c_result r)"

lemma of_c_run_simps [simp]: "of_c_run None = Inl No_return" "of_c_run (Some r) = of_c_result r"
  by (simp_all add: of_c_run_def)

text \<open>A loop over the elements of an array that threads the universe.\<close>

primrec u_each :: "('a \<Rightarrow> 's \<Rightarrow> 's guarded) \<Rightarrow> 'a list \<Rightarrow> 's \<Rightarrow> 's guarded" where
  "u_each f [] s = Inr s"
| "u_each f (x # xs) s = u_bind (f x s) (u_each f xs)"

lemma u_each_append: "u_each f (xs @ ys) s = u_bind (u_each f xs s) (u_each f ys)"
proof (induction xs arbitrary: s)
  case (Cons x xs)
  then show ?case by (cases "f x s") simp_all
qed simp

lemma u_each_cong [fundef_cong]:
  "xs = ys \<Longrightarrow> s = t \<Longrightarrow> (\<And>x u. x \<in> set ys \<Longrightarrow> f x u = g x u) \<Longrightarrow> u_each f xs s = u_each g ys t"
proof (induction xs arbitrary: s t ys)
  case (Cons x xs)
  then show ?case by (auto intro!: u_bind_cong)
qed auto

lemma u_each_invariant:
  assumes "u_each f xs s = Inr t" and "P s"
    and "\<And>x a b. x \<in> set xs \<Longrightarrow> P a \<Longrightarrow> f x a = Inr b \<Longrightarrow> P b"
  shows "P t"
  using assms
proof (induction xs arbitrary: s)
  case (Cons x xs)
  from Cons.prems(1) obtain s' where s': "f x s = Inr s'" "u_each f xs s' = Inr t"
    by (auto simp: u_bind_Inr)
  have "P s'" using Cons.prems(2,3) s'(1) by auto
  then show ?case using Cons.IH [OF s'(2)] Cons.prems(3) by auto
qed simp

section \<open>What the compiler emits\<close>

record mulle_objc_dependency =
  dep_classid :: uint32
  dep_categoryid :: uint32

definition no_dependency :: mulle_objc_dependency where
  "no_dependency = \<lparr> dep_classid = MULLE_OBJC_NO_UNIQUEID, dep_categoryid = MULLE_OBJC_NO_UNIQUEID \<rparr>"

record mulle_objc_super =
  super_superid :: uint32
  super_name :: "string option"
  super_classid :: uint32
  super_methodid :: uint32

record mulle_objc_loadhashedstring =
  lhs_uniqueid :: uint32
  lhs_string :: "string option"

text \<open>
  The arrays of mixin ids and of dependencies end at their first zero id; the end of the list
  stands for the terminator, too.
\<close>

record 'imp mulle_objc_loadclassbase =
  lcb_classid :: uint32
  lcb_classname :: "string option"
  lcb_classmethods :: "'imp search_methodlist option"
  lcb_instancemethods :: "'imp search_methodlist option"
  lcb_classproperties :: "mulle_objc_property list option"
  lcb_properties :: "mulle_objc_property list option"
  lcb_protocols :: "mulle_objc_protocol list option"
  lcb_origin :: "string option"

record 'imp mulle_objc_loadclass =
  lc_base :: "'imp mulle_objc_loadclassbase"
  lc_classivarhash :: uint32
  lc_superclassid :: uint32
  lc_superclassname :: string
  lc_superclassivarhash :: uint32
  lc_fastclassindex :: int
  lc_instancesize :: int
  lc_classinstancesize :: int
  lc_instancevariables :: "mulle_objc_ivar list option"
  lc_classvariables :: "mulle_objc_ivar list option"
  lc_mixinids :: "uint32 list option"

record 'imp mulle_objc_loadmixin =
  lm_base :: "'imp mulle_objc_loadclassbase"

record 'imp mulle_objc_loadcategory =
  lcat_categoryid :: uint32
  lcat_categoryname :: "string option"
  lcat_classid :: uint32
  lcat_classname :: "string option"
  lcat_classivarhash :: uint32
  lcat_classmethods :: "'imp search_methodlist option"
  lcat_instancemethods :: "'imp search_methodlist option"
  lcat_classproperties :: "mulle_objc_property list option"
  lcat_properties :: "mulle_objc_property list option"
  lcat_protocols :: "mulle_objc_protocol list option"
  lcat_mixinids :: "uint32 list option"
  lcat_origin :: "string option"

record mulle_objc_loadversion =
  version_load :: uint32
  version_runtime :: uint32
  version_foundation :: uint32
  version_user :: uint32
  version_bits :: uint32

record mulle_objc_loaduniverse =
  loaduniverse_universeid :: uint32
  loaduniverse_universename :: "string option"

text \<open>Static strings are objects, given by their index.\<close>

record 'imp mulle_objc_loadinfo =
  li_version :: mulle_objc_loadversion
  li_loaduniverse :: "mulle_objc_loaduniverse option"
  li_loadclasslist :: "'imp mulle_objc_loadclass list option"
  li_loadmixinlist :: "'imp mulle_objc_loadmixin list option"
  li_loadcategorylist :: "'imp mulle_objc_loadcategory list option"
  li_loadsuperlist :: "mulle_objc_super list option"
  li_loadstringlist :: "nat list option"
  li_loadhashedstringlist :: "mulle_objc_loadhashedstring list option"
  li_origin :: "string option"

section \<open>The universe\<close>

text \<open>
  What a class holds that the method search does not read. An infraclass and a metaclass have
  the same fields here; \<open>class_isa\<close> is the metaclass pointer in the object header in front of
  the class.
\<close>

record class_data =
  class_name :: string
  class_isa :: nat
  class_superclassid :: uint32
  class_allocationsize :: uint64
  class_headerextrasize :: uint16
  class_ivarhash :: uint32
  class_ivarlists :: "mulle_objc_ivar list list"
  class_propertylists :: "mulle_objc_property list list"

record 'imp pair_data =
  pair_protocolids :: "uint32 list"
  pair_categoryids :: "uint32 list"
  pair_loadclass :: "'imp mulle_objc_loadclassbase option"
  pair_classindex :: uint32

text \<open>Where \<open>isa\<close> of a static instance points: at first it holds the index of a class slot.\<close>

datatype static_isa = Class_slot nat | Class_pointer nat

text \<open>
  A class is addressed by its index in the heap \<open>u_world\<close>, so is a class pair; both are
  allocated by counting \<open>u_n_pairs\<close> up. The method list with index 0 is \<open>empty_methodlist\<close>.
  \<open>u_invalidations\<close> records the calls of \<open>invalidate_caches\<close> (class and method list),
  \<open>u_load_calls\<close> the calls of \<open>+load\<close> (metaclass and implementation).
\<close>

record 'imp universe =
  u_world :: "'imp search_world"
  u_class :: "nat \<Rightarrow> class_data"
  u_pair :: "nat \<Rightarrow> 'imp pair_data"
  u_n_pairs :: nat
  u_n_lists :: nat
  u_classindex :: uint64
  u_classtable :: "(uint32 \<times> nat) list"
  u_fastclasstable :: "nat \<Rightarrow> nat option"
  u_descriptortable :: "(uint32 \<times> mulle_objc_descriptor) list"
  u_varyingtypetable :: "uint32 list"
  u_protocoltable :: "(uint32 \<times> mulle_objc_protocol) list"
  u_categorytable :: "(uint32 \<times> string) list"
  u_supertable :: "(uint32 \<times> mulle_objc_super) list"
  u_propertyidtable :: "(uint32 \<times> uint32) list"
  u_hashnames :: "mulle_objc_loadhashedstring list list"
  u_staticinstances :: "nat list"
  u_static_isa :: "nat \<Rightarrow> static_isa"
  u_staticinstanceclass :: "nat \<Rightarrow> nat option"
  u_cachecount :: nat
  u_loadbits :: uint64
  u_classestoload :: "(uint64 \<times> 'imp mulle_objc_loadclass list) list"
  u_categoriestoload :: "(uint64 \<times> 'imp mulle_objc_loadcategory list) list"
  u_invalidations :: "(nat \<times> nat) list"
  u_load_calls :: "(nat \<times> 'imp) list"

end
