(* ===== verification/Universe_Tables.thy ===== *)
theory Universe_Tables
  imports Universe
begin

text \<open>
  The tables of the universe (\<open>mulle-objc-universe.c\<close>): registration and lookup of categories,
  protocols, supers, method descriptors, property ids, static instances, hashed strings, fast
  classes. A table keeps the first value registered for a key.
\<close>

section \<open>The environment\<close>

text \<open>
  What the functions of the universe and of the loader read and never change: the configuration
  and the build of the universe, and as parameters the code that is not the runtime's: the hash of
  a name, the sort, \<open>mulle_address_align\<close>, the names the symbolizer knows, the bodies of
  \<open>+dependencies\<close> and \<open>+load\<close> methods (the latter with the universe they leave), the callbacks of
  the foundation and the user. \<open>ue_alias\<close> reads the union of \<open>implementation\<close> and \<open>alias\<close> of a method as
  an id. \<open>ue_fastclass_index\<close> is \<open>mulle_objc_get_fastclasstable_index\<close>, whose \<open>switch\<close> the
  build of the foundation fills.
\<close>

record 'imp universe_env =
  ue_fnv1a_32 :: "string \<Rightarrow> uint32 \<Rightarrow> uint32"
  ue_align :: "nat \<Rightarrow> nat \<Rightarrow> nat"
  ue_known_name :: "uint32 \<Rightarrow> string option"
  ue_alias :: "'imp \<Rightarrow> uint32"
  ue_sort_ids :: "(uint32 \<Rightarrow> uint32 \<Rightarrow> int) \<Rightarrow> uint32 list \<Rightarrow> uint32 list"
  ue_sort_methods :: "('imp mulle_objc_method \<Rightarrow> 'imp mulle_objc_method \<Rightarrow> int) \<Rightarrow>
    'imp mulle_objc_method list \<Rightarrow> 'imp mulle_objc_method list"
  ue_sort_ivars :: "(mulle_objc_ivar \<Rightarrow> mulle_objc_ivar \<Rightarrow> int) \<Rightarrow> mulle_objc_ivar list \<Rightarrow> mulle_objc_ivar list"
  ue_sort_properties :: "(mulle_objc_property \<Rightarrow> mulle_objc_property \<Rightarrow> int) \<Rightarrow>
    mulle_objc_property list \<Rightarrow> mulle_objc_property list"
  ue_sort_protocols :: "(mulle_objc_protocol \<Rightarrow> mulle_objc_protocol \<Rightarrow> int) \<Rightarrow>
    mulle_objc_protocol list \<Rightarrow> mulle_objc_protocol list"
  ue_sort_strings :: "(mulle_objc_loadhashedstring \<Rightarrow> mulle_objc_loadhashedstring \<Rightarrow> int) \<Rightarrow>
    mulle_objc_loadhashedstring list \<Rightarrow> mulle_objc_loadhashedstring list"
  ue_search :: "'imp search_env"
  ue_search_rounds :: nat
  ue_dependencies :: "'imp \<Rightarrow> nat option \<Rightarrow> mulle_objc_dependency list option"
  ue_call_load :: "'imp \<Rightarrow> nat \<Rightarrow> 'imp universe \<Rightarrow> 'imp universe"
  ue_version :: uint32
  ue_should_load_loadinfo :: "('imp mulle_objc_loadinfo \<Rightarrow> bool) option"
  ue_fastclass_index :: "uint32 \<Rightarrow> int"
  ue_ignore_ivarhash_mismatch :: bool
  ue_max_optlevel :: uint32
  ue_min_optlevel :: uint32
  ue_no_tagged_pointer :: bool
  ue_no_fast_call :: bool
  ue_skip_consistency_checks :: bool
  ue_warn_method_type :: uint32
  ue_warn_method_bits :: bool
  ue_warn_crash :: bool
  ue_warn_hang :: bool
  ue_inheritance :: uint32
  ue_headerextrasize :: uint64
  ue_sizeof_objectheader :: uint64
  ue_sizeof_class :: uint64
  ue_foundation_versionassert :: "(mulle_objc_loadversion \<Rightarrow> universe_failure option) option"
  ue_user_versionassert :: "(mulle_objc_loadversion \<Rightarrow> universe_failure option) option"
  ue_utf8staticstrings :: bool
  ue_build_tao :: bool
  ue_build_fcs :: bool
  ue_build_no_fcs :: bool

text \<open>\<open>mulle_objc_universe_maybe_hang_or_abort\<close>, called after a warning.\<close>

definition mulle_objc_universe_maybe_hang_or_abort :: "'imp universe_env \<Rightarrow> 'a \<Rightarrow> 'a guarded" where
  "mulle_objc_universe_maybe_hang_or_abort env x =
     (if ue_warn_crash env then Inl Abort_on_warning
      else if ue_warn_hang env then Inl No_return
      else Inr x)"

abbreviation u_is_sane_string :: "'imp universe_env \<Rightarrow> uint32 \<Rightarrow> string option \<Rightarrow> bool" where
  "u_is_sane_string env uniqueid s \<equiv> fst (mulle_objc_uniqueid_is_sane_string (ue_fnv1a_32 env) uniqueid s)"

section \<open>Hash tables\<close>

text \<open>\<open>_mulle_concurrent_hashmap_register\<close> answers the value that is there already, or \<open>NULL\<close> when it added one.\<close>

definition table_register :: "('k \<times> 'v) list \<Rightarrow> 'k \<Rightarrow> 'v \<Rightarrow> ('k \<times> 'v) list \<times> 'v option" where
  "table_register table key v =
     (case map_of table key of
        Some dup \<Rightarrow> (table, Some dup)
      | None \<Rightarrow> (table @ [(key, v)], None))"

lemma table_register_None [simp]:
  "map_of table key = None \<Longrightarrow> table_register table key v = (table @ [(key, v)], None)"
  by (simp add: table_register_def)

lemma table_register_Some [simp]:
  "map_of table key = Some dup \<Longrightarrow> table_register table key v = (table, Some dup)"
  by (simp add: table_register_def)

lemma map_of_table_register:
  "map_of (fst (table_register table key v)) =
     (case map_of table key of Some dup \<Rightarrow> map_of table | None \<Rightarrow> (map_of table)(key \<mapsto> v))"
  by (cases "map_of table key") (auto simp: map_add_def fun_eq_iff split: option.splits)

section \<open>Categories, protocols, supers\<close>

definition mulle_objc_universe_lookup_category :: "'imp universe \<Rightarrow> uint32 \<Rightarrow> string option" where
  "mulle_objc_universe_lookup_category u categoryid = map_of (u_categorytable u) categoryid"

text \<open>The first component tells that 0 was returned, and not \<open>-1\<close>.\<close>

definition mulle_objc_universe_register_category ::
    "'imp universe \<Rightarrow> uint32 \<Rightarrow> string \<Rightarrow> (bool \<times> 'imp universe) guarded" where
  "mulle_objc_universe_register_category u categoryid name =
     (if categoryid = MULLE_OBJC_NO_UNIQUEID \<or> categoryid = MULLE_OBJC_INVALID_UNIQUEID
      then Inr (False, u)
      else case table_register (u_categorytable u) categoryid name of
             (table, None) \<Rightarrow> Inr (True, u\<lparr> u_categorytable := table \<rparr>)
           | (_, Some dup) \<Rightarrow>
               if c_strcmp dup name \<noteq> 0 then Inl (Fail_generic Duplicate_names) else Inr (True, u))"

definition mulle_objc_universe_register_category_nofail ::
    "'imp universe \<Rightarrow> uint32 \<Rightarrow> string \<Rightarrow> 'imp universe guarded" where
  "mulle_objc_universe_register_category_nofail u categoryid name =
     u_bind (mulle_objc_universe_register_category u categoryid name) (\<lambda>(ok, u').
       if ok then Inr u' else Inl (Fail_generic Duplicate_names))"

definition mulle_objc_universe_lookup_protocol :: "'imp universe \<Rightarrow> uint32 \<Rightarrow> mulle_objc_protocol option" where
  "mulle_objc_universe_lookup_protocol u protocolid = map_of (u_protocoltable u) protocolid"

definition mulle_objc_universe_register_protocol ::
    "'imp universe \<Rightarrow> mulle_objc_protocol \<Rightarrow> (bool \<times> 'imp universe) guarded" where
  "mulle_objc_universe_register_protocol u p =
     (if protocol_protocolid p = MULLE_OBJC_NO_UNIQUEID \<or> protocol_protocolid p = MULLE_OBJC_INVALID_UNIQUEID
      then Inr (False, u)
      else case table_register (u_protocoltable u) (protocol_protocolid p) p of
             (table, None) \<Rightarrow> Inr (True, u\<lparr> u_protocoltable := table \<rparr>)
           | (_, Some dup) \<Rightarrow>
               u_assert (protocol_protocolid dup = protocol_protocolid p)
                (if c_strcmp (protocol_name dup) (protocol_name p) \<noteq> 0
                 then Inl (Fail_generic Duplicate_names) else Inr (True, u)))"

definition mulle_objc_universe_register_protocol_nofail ::
    "'imp universe \<Rightarrow> mulle_objc_protocol \<Rightarrow> 'imp universe guarded" where
  "mulle_objc_universe_register_protocol_nofail u p =
     u_bind (mulle_objc_universe_register_protocol u p) (\<lambda>(ok, u').
       if ok then Inr u' else Inl Fail_stale_errno)"

definition mulle_objc_super_is_sane :: "'imp universe_env \<Rightarrow> mulle_objc_super option \<Rightarrow> bool" where
  "mulle_objc_super_is_sane env p =
     (case p of
        None \<Rightarrow> False
      | Some p \<Rightarrow> u_is_sane_string env (super_superid p) (super_name p) \<and>
          mulle_objc_uniqueid_is_sane (super_classid p) \<and> mulle_objc_uniqueid_is_sane (super_methodid p))"

definition mulle_objc_universe_lookup_super :: "'imp universe \<Rightarrow> uint32 \<Rightarrow> mulle_objc_super option" where
  "mulle_objc_universe_lookup_super u superid = map_of (u_supertable u) superid"

text \<open>Every way in which \<open>mulle_objc_super_is_sane\<close> fails sets \<open>errno\<close> to \<open>EINVAL\<close>.\<close>

definition mulle_objc_universe_register_super ::
    "'imp universe_env \<Rightarrow> 'imp universe \<Rightarrow> mulle_objc_super option \<Rightarrow> (bool \<times> 'imp universe) guarded" where
  "mulle_objc_universe_register_super env u p0 =
     (case p0 of
        None \<Rightarrow> Inr (False, u)
      | Some p \<Rightarrow>
          if \<not> mulle_objc_super_is_sane env (Some p) then Inr (False, u)
          else case table_register (u_supertable u) (super_superid p) p of
                 (table, None) \<Rightarrow> Inr (True, u\<lparr> u_supertable := table \<rparr>)
               | (_, Some dup) \<Rightarrow>
                   if super_classid dup \<noteq> super_classid p \<or> super_methodid dup \<noteq> super_methodid p
                   then Inl (Fail_generic Duplicate_supers) else Inr (True, u))"

definition mulle_objc_universe_register_super_nofail ::
    "'imp universe_env \<Rightarrow> 'imp universe \<Rightarrow> mulle_objc_super option \<Rightarrow> 'imp universe guarded" where
  "mulle_objc_universe_register_super_nofail env u p =
     u_bind (mulle_objc_universe_register_super env u p) (\<lambda>(ok, u').
       if ok then Inr u' else Inl (Fail_errno EINVAL))"

section \<open>Method descriptors and property ids\<close>

definition mulle_objc_universe_lookup_descriptor :: "'imp universe \<Rightarrow> uint32 \<Rightarrow> mulle_objc_descriptor option" where
  "mulle_objc_universe_lookup_descriptor u methodid = map_of (u_descriptortable u) methodid"

text \<open>How the signatures of two registrations are compared: not at all, leniently, without the
  offsets, strictly.\<close>

definition descriptor_signature_comparison ::
    "'imp universe_env \<Rightarrow> mulle_objc_descriptor \<Rightarrow> mulle_objc_descriptor \<Rightarrow> int c_result" where
  "descriptor_signature_comparison env dup p =
     (if ue_warn_method_type env = 1
      then mulle_objc_methodsignature_compare_lenient (ue_align env) (desc_signature dup) (desc_signature p)
      else if ue_warn_method_type env = 2
      then Inr (mulle_objc_methodsignature_compare (desc_signature dup) (desc_signature p))
      else if ue_warn_method_type env = 3
      then Inr (mulle_objc_signature_compare_strict (desc_signature dup) (desc_signature p))
      else Inr 0)"

text \<open>The three method ids for which a varying signature is not reported.\<close>

definition descriptor_may_vary :: "uint32 \<Rightarrow> bool" where
  "descriptor_may_vary methodid \<longleftrightarrow> methodid \<in> {0x7c165381, 0xf0cb86d3, 0x872e2a5d}"

definition mulle_objc_universe_register_descriptor_nonnull ::
    "'imp universe_env \<Rightarrow> 'imp universe \<Rightarrow> mulle_objc_descriptor \<Rightarrow>
     (mulle_objc_descriptor \<times> 'imp universe) guarded" where
  "mulle_objc_universe_register_descriptor_nonnull env u p =
     (case table_register (u_descriptortable u) (desc_methodid p) p of
        (table, None) \<Rightarrow> Inr (p, u\<lparr> u_descriptortable := table \<rparr>)
      | (_, Some dup) \<Rightarrow>
          u_assert (desc_methodid p = desc_methodid dup)
           (if c_strcmp (desc_name dup) (desc_name p) \<noteq> 0 then Inl (Fail_generic Duplicate_names)
            else u_bind (of_c_result (descriptor_signature_comparison env dup p)) (\<lambda>signature_comparison.
              let bit_comparison = (ue_warn_method_bits env \<and>
                                    \<not> mulle_objc_method_bits_type_equal (desc_bits dup) (desc_bits p))
              in if signature_comparison \<noteq> 0 \<or> bit_comparison
                 then let u' = u\<lparr> u_varyingtypetable := List.insert (desc_methodid p) (u_varyingtypetable u) \<rparr>
                      in if descriptor_may_vary (desc_methodid p) then Inr (dup, u')
                         else mulle_objc_universe_maybe_hang_or_abort env (dup, u')
                 else Inr (dup, u))))"

definition mulle_objc_universe_register_descriptor_nofail ::
    "'imp universe_env \<Rightarrow> 'imp universe \<Rightarrow> mulle_objc_descriptor \<Rightarrow> 'imp universe guarded" where
  "mulle_objc_universe_register_descriptor_nofail env u p =
     (if \<not> fst (mulle_objc_descriptor_is_sane (ue_fnv1a_32 env) (Some p)) then Inl (Fail_errno EINVAL)
      else u_bind (mulle_objc_universe_register_descriptor_nonnull env u p) (\<lambda>(_, u'). Inr u'))"

text \<open>
  A different property id for the method id is reported, and then fails. The result 0 stands
  for failure.
\<close>

definition mulle_objc_universe_register_propertyid_for_methodid ::
    "'imp universe_env \<Rightarrow> 'imp universe \<Rightarrow> uint32 \<Rightarrow> uint32 \<Rightarrow> (uint32 \<times> 'imp universe) guarded" where
  "mulle_objc_universe_register_propertyid_for_methodid env u propertyid methodid =
     (case table_register (u_propertyidtable u) methodid propertyid of
        (table, None) \<Rightarrow> Inr (propertyid, u\<lparr> u_propertyidtable := table \<rparr>)
      | (_, Some dup) \<Rightarrow>
          if dup \<noteq> propertyid then mulle_objc_universe_maybe_hang_or_abort env (0, u)
          else Inr (propertyid, u))"

definition mulle_objc_universe_register_propertyid_for_methodid_nofail ::
    "'imp universe_env \<Rightarrow> 'imp universe \<Rightarrow> uint32 \<Rightarrow> uint32 \<Rightarrow> 'imp universe guarded" where
  "mulle_objc_universe_register_propertyid_for_methodid_nofail env u propertyid methodid =
     (if \<not> mulle_objc_uniqueid_is_sane propertyid \<or> \<not> mulle_objc_uniqueid_is_sane methodid
      then Inl (Fail_errno EINVAL)
      else u_bind (mulle_objc_universe_register_propertyid_for_methodid env u propertyid methodid) (\<lambda>(r, u').
        if r = 0 then Inl Fail_stale_errno else Inr u'))"

section \<open>Classes\<close>

definition MULLE_OBJC_S_FASTCLASSES :: uint32 where [c_defs]: "MULLE_OBJC_S_FASTCLASSES = 64"

text \<open>The index is an \<open>unsigned int\<close>; the caller converts a signed one.\<close>

definition mulle_objc_universe_set_fastclass ::
    "'imp universe \<Rightarrow> nat \<Rightarrow> uint32 \<Rightarrow> 'imp universe guarded" where
  "mulle_objc_universe_set_fastclass u infra index =
     (if index \<ge> MULLE_OBJC_S_FASTCLASSES then Inl (Fail_generic Fastclass_out_of_bounds)
      else if u_fastclasstable u (unat index) \<noteq> None then Inl (Fail_inconsistency Fastclass_taken)
      else Inr (u\<lparr> u_fastclasstable := (u_fastclasstable u)(unat index := Some infra) \<rparr>))"

definition mulle_objc_universe_remove_fastclass_at_index ::
    "'imp universe \<Rightarrow> uint32 \<Rightarrow> 'imp universe guarded" where
  "mulle_objc_universe_remove_fastclass_at_index u index =
     u_assert (index < MULLE_OBJC_S_FASTCLASSES)
       (Inr (u\<lparr> u_fastclasstable := (u_fastclasstable u)(unat index := None) \<rparr>))"

text \<open>
  \<open>_mulle_objc_universe_lookup_infraclass_nodelegate\<close>: a class with a fast index is looked up in
  the fast class table only, any other in the class table. The class cache between the two only
  remembers what the class table holds (theory \<open>Kvccache\<close>), so it does not show here.
\<close>

definition mulle_objc_universe_lookup_infraclass_nodelegate ::
    "'imp universe_env \<Rightarrow> 'imp universe \<Rightarrow> uint32 \<Rightarrow> nat option" where
  "mulle_objc_universe_lookup_infraclass_nodelegate env u classid =
     (let index = ue_fastclass_index env classid in
      if ue_build_fcs env \<and> \<not> ue_no_fast_call env \<and> 0 \<le> index then u_fastclasstable u (nat index)
      else map_of (u_classtable u) classid)"

section \<open>Static instances\<close>

definition MULLE_OBJC_STATICINSTANCE_CLASS_SLOTS :: nat where
  [c_defs]: "MULLE_OBJC_STATICINSTANCE_CLASS_SLOTS = 8"

text \<open>An \<open>isa\<close> that is a class pointer already fails the assertion on the slot index.\<close>

definition mulle_objc_universe_add_staticinstance :: "'imp universe \<Rightarrow> nat \<Rightarrow> 'imp universe guarded" where
  "mulle_objc_universe_add_staticinstance u inst =
     (case u_static_isa u inst of
        Class_pointer _ \<Rightarrow> Inl (Fault Assertion)
      | Class_slot classindex \<Rightarrow>
          u_assert (classindex < MULLE_OBJC_STATICINSTANCE_CLASS_SLOTS)
           (case u_staticinstanceclass u classindex of
              None \<Rightarrow> Inr (u\<lparr> u_staticinstances := u_staticinstances u @ [inst] \<rparr>)
            | Some infra \<Rightarrow> Inr (u\<lparr> u_static_isa := (u_static_isa u)(inst := Class_pointer infra),
                                  u_staticinstances := u_staticinstances u @ [inst] \<rparr>)))"

definition patch_staticinstance :: "(nat \<Rightarrow> nat option) \<Rightarrow> nat \<Rightarrow> (nat \<Rightarrow> static_isa) \<Rightarrow> (nat \<Rightarrow> static_isa)" where
  "patch_staticinstance classes inst isa =
     (case isa inst of
        Class_pointer _ \<Rightarrow> isa
      | Class_slot classindex \<Rightarrow>
          if classindex \<ge> MULLE_OBJC_STATICINSTANCE_CLASS_SLOTS then isa
          else case classes classindex of None \<Rightarrow> isa | Some infra \<Rightarrow> isa(inst := Class_pointer infra))"

text \<open>\<open>constantify\<close> only changes the reference counts of the instances.\<close>

definition mulle_objc_universe_didchange_staticinstanceclass :: "'imp universe \<Rightarrow> 'imp universe" where
  "mulle_objc_universe_didchange_staticinstanceclass u =
     u\<lparr> u_static_isa := fold (patch_staticinstance (u_staticinstanceclass u)) (u_staticinstances u) (u_static_isa u) \<rparr>"

definition mulle_objc_universe_set_staticinstanceclasses ::
    "'imp universe \<Rightarrow> (nat \<Rightarrow> nat option) \<Rightarrow> 'imp universe" where
  "mulle_objc_universe_set_staticinstanceclasses u infra =
     mulle_objc_universe_didchange_staticinstanceclass
       (u\<lparr> u_staticinstanceclass := (\<lambda>i. if i < MULLE_OBJC_STATICINSTANCE_CLASS_SLOTS \<and> infra i \<noteq> None
                                       then infra i else u_staticinstanceclass u i) \<rparr>)"

section \<open>Hashed strings\<close>

definition mulle_objc_loadhashedstring_is_sane :: "'imp universe_env \<Rightarrow> mulle_objc_loadhashedstring option \<Rightarrow> bool" where
  "mulle_objc_loadhashedstring_is_sane env p =
     (case p of
        None \<Rightarrow> False
      | Some p \<Rightarrow> lhs_string p \<noteq> None \<and> u_is_sane_string env (lhs_uniqueid p) (lhs_string p))"

definition mulle_objc_loadhashedstring_compare_r ::
    "mulle_objc_loadhashedstring \<Rightarrow> mulle_objc_loadhashedstring \<Rightarrow> int" where
  "mulle_objc_loadhashedstring_compare_r a b =
     (if lhs_uniqueid a < lhs_uniqueid b then - 1 else of_bool (lhs_uniqueid a \<noteq> lhs_uniqueid b))"

definition mulle_objc_loadhashedstring_sort ::
    "'imp universe_env \<Rightarrow> mulle_objc_loadhashedstring list option \<Rightarrow> mulle_objc_loadhashedstring list option" where
  "mulle_objc_loadhashedstring_sort env list =
     (case list of None \<Rightarrow> None
      | Some entries \<Rightarrow> Some (ue_sort_strings env mulle_objc_loadhashedstring_compare_r entries))"

text \<open>A search answers the string of the entry.\<close>

definition mulle_objc_loadhashedstring_bsearch ::
    "mulle_objc_loadhashedstring list \<Rightarrow> uint32 \<Rightarrow> string option c_result" where
  "mulle_objc_loadhashedstring_bsearch buf search =
     (if mulle_objc_uniqueid_is_sane search
      then c_bind (bsearch_pre lhs_uniqueid buf search) (\<lambda>r.
             Inr (case r of None \<Rightarrow> None | Some i \<Rightarrow> lhs_string (buf ! i)))
      else Inl Assertion)"

fun mulle_objc_loadhashedstring_find :: "mulle_objc_loadhashedstring list \<Rightarrow> uint32 \<Rightarrow> string option" where
  "mulle_objc_loadhashedstring_find [] search = None"
| "mulle_objc_loadhashedstring_find (p # buf) search =
     (if lhs_uniqueid p = search then lhs_string p else mulle_objc_loadhashedstring_find buf search)"

definition mulle_objc_loadhashedstringlist_find ::
    "mulle_objc_loadhashedstring list option \<Rightarrow> uint32 \<Rightarrow> string option" where
  "mulle_objc_loadhashedstringlist_find list search =
     (case list of None \<Rightarrow> None | Some entries \<Rightarrow> mulle_objc_loadhashedstring_find entries search)"

definition mulle_objc_loadhashedstringlist_search ::
    "mulle_objc_loadhashedstring list option \<Rightarrow> uint32 \<Rightarrow> string option c_result" where
  "mulle_objc_loadhashedstringlist_search list search =
     (case list of None \<Rightarrow> Inr None | Some entries \<Rightarrow> mulle_objc_loadhashedstring_bsearch entries search)"

definition mulle_objc_universe_add_loadhashedstringlist ::
    "'imp universe \<Rightarrow> mulle_objc_loadhashedstring list \<Rightarrow> 'imp universe" where
  "mulle_objc_universe_add_loadhashedstringlist u hashnames =
     u\<lparr> u_hashnames := u_hashnames u @ [hashnames] \<rparr>"

primrec search_hashnames :: "mulle_objc_loadhashedstring list list \<Rightarrow> uint32 \<Rightarrow> string option c_result" where
  "search_hashnames [] hash = Inr None"
| "search_hashnames (entries # rest) hash =
     c_bind (mulle_objc_loadhashedstringlist_search (Some entries) hash) (\<lambda>s.
       case s of Some s \<Rightarrow> Inr (Some s) | None \<Rightarrow> search_hashnames rest hash)"

definition mulle_objc_universe_search_hashstring :: "'imp universe \<Rightarrow> uint32 \<Rightarrow> string option c_result" where
  "mulle_objc_universe_search_hashstring u hash = search_hashnames (u_hashnames u) hash"

definition mulle_objc_universe_describe_uniqueid :: "'imp universe_env \<Rightarrow> 'imp universe \<Rightarrow> uint32 \<Rightarrow> string c_result" where
  "mulle_objc_universe_describe_uniqueid env u uniqueid =
     (if uniqueid = MULLE_OBJC_NO_UNIQUEID then Inr ''NOT AN ID''
      else if uniqueid = MULLE_OBJC_INVALID_UNIQUEID then Inr ''INVALID ID''
      else c_bind (mulle_objc_universe_search_hashstring u uniqueid) (\<lambda>s.
        case s of Some s \<Rightarrow> Inr s
        | None \<Rightarrow> Inr (case ue_known_name env uniqueid of Some s \<Rightarrow> s | None \<Rightarrow> ''???'')))"

definition mulle_objc_universe_describe_methodid :: "'imp universe_env \<Rightarrow> 'imp universe \<Rightarrow> uint32 \<Rightarrow> string c_result" where
  "mulle_objc_universe_describe_methodid env u methodid =
     (case mulle_objc_universe_lookup_descriptor u methodid of
        Some desc \<Rightarrow> Inr (desc_name desc)
      | None \<Rightarrow> mulle_objc_universe_describe_uniqueid env u methodid)"

definition mulle_objc_universe_describe_protocolid :: "'imp universe_env \<Rightarrow> 'imp universe \<Rightarrow> uint32 \<Rightarrow> string c_result" where
  "mulle_objc_universe_describe_protocolid env u protocolid =
     (case mulle_objc_universe_lookup_protocol u protocolid of
        Some protocol \<Rightarrow> Inr (protocol_name protocol)
      | None \<Rightarrow> mulle_objc_universe_describe_uniqueid env u protocolid)"

definition mulle_objc_universe_describe_categoryid :: "'imp universe_env \<Rightarrow> 'imp universe \<Rightarrow> uint32 \<Rightarrow> string c_result" where
  "mulle_objc_universe_describe_categoryid env u categoryid =
     (case mulle_objc_universe_lookup_category u categoryid of
        Some name \<Rightarrow> Inr name
      | None \<Rightarrow> mulle_objc_universe_describe_uniqueid env u categoryid)"

definition mulle_objc_universe_describe_superid :: "'imp universe_env \<Rightarrow> 'imp universe \<Rightarrow> uint32 \<Rightarrow> string option c_result" where
  "mulle_objc_universe_describe_superid env u superid =
     (case mulle_objc_universe_lookup_super u superid of
        Some p \<Rightarrow> Inr (super_name p)
      | None \<Rightarrow> c_bind (mulle_objc_universe_describe_uniqueid env u superid) (\<lambda>s. Inr (Some s)))"

end
