(* ===== verification/Classpair.thy ===== *)
theory Classpair
  imports Universe_Tables
begin

text \<open>
  Class pairs (\<open>mulle-objc-classpair.c\<close>, \<open>mulle-objc-classpair.h\<close>): creation of a class and its
  metaclass, their method, ivar and property lists (\<open>mulle-objc-class.c\<close>,
  \<open>mulle-objc-infraclass.c\<close>, \<open>mulle-objc-metaclass.c\<close>), the categories, protocols and mixins of a
  pair, and the registration of the class in its universe (\<open>mulle-objc-universe.c\<close>).
\<close>

section \<open>State bits and accessors\<close>

definition CLASS_STATE_CACHE_READY :: uint32 where [c_defs]: "CLASS_STATE_CACHE_READY = 0x0001"
definition CLASS_STATE_IS_NOT_THREAD_AFFINE :: uint32 where [c_defs]: "CLASS_STATE_IS_NOT_THREAD_AFFINE = 0x0040"
definition CLASS_STATE_HAS_CLEARABLE_PROPERTY :: uint32 where [c_defs]: "CLASS_STATE_HAS_CLEARABLE_PROPERTY = 0x0400"
definition CLASS_STATE_LOAD_SCHEDULED :: uint32 where [c_defs]: "CLASS_STATE_LOAD_SCHEDULED = 0x0800"

abbreviation u_search_class :: "'imp universe \<Rightarrow> nat \<Rightarrow> search_class" where
  "u_search_class u \<equiv> w_class (u_world u)"

abbreviation u_search_pair :: "'imp universe \<Rightarrow> nat \<Rightarrow> search_classpair" where
  "u_search_pair u \<equiv> w_pair (u_world u)"

definition update_search_class :: "nat \<Rightarrow> (search_class \<Rightarrow> search_class) \<Rightarrow> 'imp universe \<Rightarrow> 'imp universe" where
  "update_search_class cls f u =
     u\<lparr> u_world := (u_world u)\<lparr> w_class := (u_search_class u)(cls := f (u_search_class u cls)) \<rparr> \<rparr>"

definition update_class :: "nat \<Rightarrow> (class_data \<Rightarrow> class_data) \<Rightarrow> 'imp universe \<Rightarrow> 'imp universe" where
  "update_class cls f u = u\<lparr> u_class := (u_class u)(cls := f (u_class u cls)) \<rparr>"

definition update_pair :: "nat \<Rightarrow> ('imp pair_data \<Rightarrow> 'imp pair_data) \<Rightarrow> 'imp universe \<Rightarrow> 'imp universe" where
  "update_pair pair f u = u\<lparr> u_pair := (u_pair u)(pair := f (u_pair u pair)) \<rparr>"

definition mulle_objc_class_get_state_bit :: "'imp universe \<Rightarrow> nat \<Rightarrow> uint32 \<Rightarrow> bool" where
  "mulle_objc_class_get_state_bit u cls b \<longleftrightarrow> sc_state (u_search_class u cls) AND b \<noteq> 0"

text \<open>\<open>__mulle_objc_class_set_state_bit\<close> sets or clears, and answers whether that changed anything.\<close>

definition mulle_objc_class_change_state_bit ::
    "nat \<Rightarrow> uint32 \<Rightarrow> bool \<Rightarrow> 'imp universe \<Rightarrow> (bool \<times> 'imp universe) guarded" where
  "mulle_objc_class_change_state_bit cls b clear u =
     u_assert (b \<noteq> 0)
      (let old = sc_state (u_search_class u cls);
           state = (if clear then old AND NOT b else old OR b)
       in Inr (if state = old then (False, u)
               else (True, update_search_class cls (sc_state_update (\<lambda>_. state)) u)))"

definition mulle_objc_class_set_state_bit :: "nat \<Rightarrow> uint32 \<Rightarrow> 'imp universe \<Rightarrow> 'imp universe guarded" where
  "mulle_objc_class_set_state_bit cls b u =
     u_bind (mulle_objc_class_change_state_bit cls b False u) (\<lambda>(_, u'). Inr u')"

definition mulle_objc_class_clear_state_bit :: "nat \<Rightarrow> uint32 \<Rightarrow> 'imp universe \<Rightarrow> 'imp universe guarded" where
  "mulle_objc_class_clear_state_bit cls b u =
     u_bind (mulle_objc_class_change_state_bit cls b True u) (\<lambda>(_, u'). Inr u')"

section \<open>Creating a class pair\<close>

text \<open>\<open>_mulle_objc_class_init\<close>; the object header of the class is set by the caller.\<close>

definition mulle_objc_class_init ::
    "'imp universe_env \<Rightarrow> string \<Rightarrow> uint64 \<Rightarrow> uint64 \<Rightarrow> uint32 \<Rightarrow> nat option \<Rightarrow> nat \<Rightarrow> nat \<Rightarrow> nat option \<Rightarrow>
     'imp universe \<Rightarrow> search_class \<times> class_data" where
  "mulle_objc_class_init env name instancesize headerextrasize classid superclass pair isa infraclass u =
     (\<lparr> sc_classid = classid, sc_superclass = superclass, sc_infraclass = infraclass,
        sc_inheritance = (case superclass of Some s \<Rightarrow> sc_inheritance (u_search_class u s)
                          | None \<Rightarrow> ue_inheritance env),
        sc_state = 0, sc_methodlists = [], sc_classpair = pair, sc_forwardmethod = None \<rparr>,
      \<lparr> class_name = name, class_isa = isa,
        class_superclassid = (case superclass of Some s \<Rightarrow> sc_classid (u_search_class u s)
                              | None \<Rightarrow> MULLE_OBJC_NO_UNIQUEID),
        class_allocationsize = ue_sizeof_objectheader env + instancesize + headerextrasize,
        class_headerextrasize = ucast headerextrasize, class_ivarhash = 0,
        class_ivarlists = [], class_propertylists = [] \<rparr>)"

text \<open>The metaclass starts with empty lists, and belongs to no thread.\<close>

definition mulle_objc_metaclass_plusinit :: "search_class \<Rightarrow> search_class" where
  "mulle_objc_metaclass_plusinit meta = meta\<lparr> sc_state := sc_state meta OR CLASS_STATE_IS_NOT_THREAD_AFFINE \<rparr>"

text \<open>The pair \<open>p\<close> has its infraclass at \<open>2 p\<close> and its metaclass at \<open>2 p + 1\<close> of the heap.\<close>

definition infra_of :: "nat \<Rightarrow> nat" where "infra_of pair = 2 * pair"
definition meta_of :: "nat \<Rightarrow> nat" where "meta_of pair = 2 * pair + 1"

definition mulle_objc_universe_new_classpair ::
    "'imp universe_env \<Rightarrow> uint32 \<Rightarrow> string option \<Rightarrow> uint64 \<Rightarrow> nat option \<Rightarrow> 'imp universe \<Rightarrow>
     errno + (nat \<times> 'imp universe)" where
  "mulle_objc_universe_new_classpair env classid name instancesize superclass u =
     (if classid = MULLE_OBJC_NO_UNIQUEID \<or> classid = MULLE_OBJC_INVALID_UNIQUEID then Inl EINVAL
      else case name of
        None \<Rightarrow> Inl EINVAL
      | Some s \<Rightarrow>
          if s = [] then Inl EINVAL
          else if classid \<noteq> fst (mulle_objc_uniqueid_from_string (ue_fnv1a_32 env) (Some s)) then Inl EINVAL
          else
            let pair = u_n_pairs u; infra = infra_of pair; meta = meta_of pair;
                super_meta = map_option (\<lambda>c. pair_metaclass (u_search_pair u (sc_classpair (u_search_class u c)))) superclass;
                super_meta_isa = map_option (\<lambda>m. class_isa (u_class u m)) super_meta;
                (infra_class, infra_data) = mulle_objc_class_init env s instancesize
                  (ue_headerextrasize env) classid superclass pair meta None u;
                u1 = u\<lparr> u_world := (u_world u)\<lparr> w_class := (u_search_class u)(infra := infra_class) \<rparr>,
                        u_class := (u_class u)(infra := infra_data) \<rparr>;
                (meta_class, meta_data) = mulle_objc_class_init env s (ue_sizeof_class env)
                  (ue_headerextrasize env) classid
                  (Some (case super_meta of Some m \<Rightarrow> m | None \<Rightarrow> infra))
                  pair (case super_meta_isa of Some m \<Rightarrow> m | None \<Rightarrow> infra) (Some infra) u1
            in Inr (pair, u1\<lparr>
                 u_world := (u_world u1)\<lparr>
                   w_class := (u_search_class u1)(meta := mulle_objc_metaclass_plusinit meta_class),
                   w_pair := (u_search_pair u1)(pair := \<lparr> pair_infraclass = infra, pair_metaclass = meta,
                                                          pair_mixins = [] \<rparr>) \<rparr>,
                 u_class := (u_class u1)(meta := meta_data),
                 u_pair := (u_pair u1)(pair := \<lparr> pair_protocolids = [], pair_categoryids = [],
                                                pair_loadclass = None, pair_classindex = 0 \<rparr>),
                 u_n_pairs := Suc pair \<rparr>))"

section \<open>Checks of a class\<close>

text \<open>
  A class is aligned memory, so the check that it does not look like a tagged pointer succeeds;
  the check of \<open>isa\<close> succeeds, as every class has one.
\<close>

definition mulle_objc_class_is_sane_base :: "'imp universe_env \<Rightarrow> 'imp universe \<Rightarrow> nat \<Rightarrow> bool \<times> errno option" where
  "mulle_objc_class_is_sane_base env u cls =
     (if class_name (u_class u cls) = [] then (False, Some EINVAL)
      else if \<not> u_is_sane_string env (sc_classid (u_search_class u cls)) (Some (class_name (u_class u cls)))
      then (False, Some EINVAL)
      else (True, None))"

definition mulle_objc_class_is_sane :: "'imp universe_env \<Rightarrow> 'imp universe \<Rightarrow> nat \<Rightarrow> bool \<times> errno option" where
  "mulle_objc_class_is_sane env u cls =
     (let (ok, e) = mulle_objc_class_is_sane_base env u cls in
      if \<not> ok then (False, e)
      else if sc_methodlists (u_search_class u cls) = [] then (False, Some ECHILD)
      else (True, None))"

definition mulle_objc_infraclass_is_sane :: "'imp universe_env \<Rightarrow> 'imp universe \<Rightarrow> nat \<Rightarrow> bool \<times> errno option" where
  "mulle_objc_infraclass_is_sane env u infra =
     (let (ok, e) = mulle_objc_class_is_sane env u infra in
      if \<not> ok then (False, e)
      else if class_ivarlists (u_class u infra) = [] then (False, Some ECHILD)
      else if class_propertylists (u_class u infra) = [] then (False, Some ECHILD)
      else (True, None))"

definition mulle_objc_metaclass_is_sane :: "'imp universe_env \<Rightarrow> 'imp universe \<Rightarrow> nat \<Rightarrow> bool \<times> errno option" where
  "mulle_objc_metaclass_is_sane env u meta = mulle_objc_class_is_sane env u meta"

section \<open>Registration in the universe\<close>

text \<open>The result \<open>Inl e\<close> stands for \<open>-1\<close> with that \<open>errno\<close>; the universe may have changed.\<close>

definition mulle_objc_universe_register_infraclass_for_classid ::
    "'imp universe \<Rightarrow> nat \<Rightarrow> uint32 \<Rightarrow> errno option \<times> 'imp universe" where
  "mulle_objc_universe_register_infraclass_for_classid u infra classid =
     (case table_register (u_classtable u) classid infra of
        (table, None) \<Rightarrow> (None, u\<lparr> u_classtable := table \<rparr>)
      | (_, Some dup) \<Rightarrow> (Some EEXIST, u))"

definition mulle_objc_universe_register_infraclass ::
    "'imp universe_env \<Rightarrow> 'imp universe \<Rightarrow> nat option \<Rightarrow> errno option \<times> 'imp universe" where
  "mulle_objc_universe_register_infraclass env u infra0 =
     (case infra0 of
        None \<Rightarrow> (Some EINVAL, u)
      | Some infra \<Rightarrow>
          let pair = sc_classpair (u_search_class u infra);
              meta = pair_metaclass (u_search_pair u pair);
              (infra_ok, e1) = mulle_objc_infraclass_is_sane env u infra;
              (meta_ok, e2) = mulle_objc_metaclass_is_sane env u meta
          in if \<not> infra_ok then (e1, u)
             else if \<not> meta_ok then (e2, u)
             else if (case sc_superclass (u_search_class u infra) of None \<Rightarrow> False
                      | Some superclass \<Rightarrow> map_of (u_classtable u) (sc_classid (u_search_class u superclass)) = None)
             then (Some EFAULT, u)
             else
               let classindex = u_classindex u;
                   u1 = update_pair pair (pair_classindex_update (\<lambda>_. ucast classindex))
                          (u\<lparr> u_classindex := classindex + 1 \<rparr>)
               in mulle_objc_universe_register_infraclass_for_classid u1 infra
                    (sc_classid (u_search_class u1 infra)))"

definition mulle_objc_universe_register_infraclass_nofail ::
    "'imp universe_env \<Rightarrow> 'imp universe \<Rightarrow> nat option \<Rightarrow> 'imp universe guarded" where
  "mulle_objc_universe_register_infraclass_nofail env u infra =
     (case mulle_objc_universe_register_infraclass env u infra of
        (Some e, _) \<Rightarrow> Inl (Fail_errno e)
      | (None, u') \<Rightarrow> Inr u')"

text \<open>
  Removal takes the class out of the class table and of the fast class table; a fast class with
  index 0 stays in the latter, since the test of the index is \<open>index > 0\<close>. The class cache is
  emptied, which does not show here.
\<close>

definition mulle_objc_universe_remove_infraclass ::
    "'imp universe_env \<Rightarrow> 'imp universe \<Rightarrow> nat option \<Rightarrow> (errno option \<times> 'imp universe) guarded" where
  "mulle_objc_universe_remove_infraclass env u infra0 =
     (case infra0 of
        None \<Rightarrow> Inr (Some EINVAL, u)
      | Some infra \<Rightarrow>
          let classid = sc_classid (u_search_class u infra) in
          if map_of (u_classtable u) classid = None then Inr (Some ENOENT, u)
          else
            let u1 = u\<lparr> u_classtable := filter (\<lambda>(key, _). key \<noteq> classid) (u_classtable u) \<rparr>;
                index = ue_fastclass_index env classid
            in if index > 0
               then u_bind (mulle_objc_universe_remove_fastclass_at_index u1 (word_of_int index)) (\<lambda>u2.
                      Inr (None, u2))
               else Inr (None, u1))"

section \<open>Method lists\<close>

definition method_infra_alias_on_load :: uint32 where [c_defs]: "method_infra_alias_on_load = 0x100"
definition method_meta_alias_on_load :: uint32 where [c_defs]: "method_meta_alias_on_load = 0x200"

definition method_alias_bits :: uint32 where
  [c_defs]: "method_alias_bits = method_infra_alias_on_load OR method_meta_alias_on_load"

text \<open>
  The first pass over a list: the ids must not descend, every descriptor is registered. The
  result is the \<open>errno\<close> of the error, and the disjunction of the bits of the methods.
\<close>

fun register_methods ::
    "'imp universe_env \<Rightarrow> 'imp mulle_objc_method list \<Rightarrow> uint32 \<Rightarrow> uint32 \<Rightarrow> 'imp universe \<Rightarrow>
     (errno option \<times> uint32 \<times> 'imp universe) guarded" where
  "register_methods env [] lastid bits u = Inr (None, bits, u)"
| "register_methods env (m # methods) lastid bits u =
     u_assert (mulle_objc_uniqueid_is_sane (method_methodid m))
      (if lastid > method_methodid m then Inr (Some EDOM, bits, u)
       else u_bind (mulle_objc_universe_register_descriptor_nofail env u (method_descriptor m)) (\<lambda>u'.
         register_methods env methods (method_methodid m)
           (bits OR desc_bits (method_descriptor m)) u'))"

text \<open>
  The second pass: an alias is a method whose implementation is that of another method, found by
  a search that starts at the class itself or at its sibling.
\<close>

definition alias_search_class :: "'imp universe \<Rightarrow> nat \<Rightarrow> 'imp mulle_objc_method \<Rightarrow> nat" where
  "alias_search_class u cls m =
     (let is_meta = mulle_objc_class_is_metaclass (u_search_class u cls);
          bits = desc_bits (method_descriptor m)
      in if is_meta \<and> bits AND method_meta_alias_on_load \<noteq> 0 \<or>
            \<not> is_meta \<and> bits AND method_infra_alias_on_load \<noteq> 0
         then cls
         else if is_meta then (case sc_infraclass (u_search_class u cls) of Some infra \<Rightarrow> infra | None \<Rightarrow> cls)
         else class_isa (u_class u cls))"

text \<open>
  The search goes from a class to one below it in the heap, and from there into mixins that it
  does not leave, so this depth is enough (see the theory \<open>Universe_Invariant\<close>).
\<close>

definition alias_search_depth :: "'imp universe \<Rightarrow> nat" where
  "alias_search_depth u = 2 * u_n_pairs u + 2"

definition set_list_implementation :: "nat \<Rightarrow> nat \<Rightarrow> 'imp \<Rightarrow> 'imp search_world \<Rightarrow> 'imp search_world" where
  "set_list_implementation list i imp w =
     (let ml = w_list w list; m = ml_methods ml ! i in
      w\<lparr> w_list := (w_list w)(list := ml\<lparr> ml_methods := (ml_methods ml)[i := m\<lparr> method_implementation := imp \<rparr>] \<rparr>) \<rparr>)"

definition resolve_alias ::
    "'imp universe_env \<Rightarrow> nat \<Rightarrow> nat \<Rightarrow> nat \<Rightarrow> 'imp universe \<Rightarrow> 'imp universe guarded" where
  "resolve_alias env cls list i u =
     (let m = ml_methods (w_list (u_world u) list) ! i in
      if desc_bits (method_descriptor m) AND method_alias_bits = 0 then Inr u
      else
        let search_cls = alias_search_class u cls m;
            alias = ue_alias env (method_implementation m);
            search = mulle_objc_searcharguments_set_initialize
                       (mulle_objc_searcharguments_make_default alias) False
        in u_bind (of_c_run (mulle_objc_class_search_method (ue_search env) (alias_search_depth u)
                     (ue_search_rounds env) (Some search_cls) (Some search)
                     (sc_inheritance (u_search_class u search_cls)) (search_start (u_world u)))) (\<lambda>(other, s).
             case other of
               None \<Rightarrow> Inl (Fail_methodnotfound alias)
             | Some target \<Rightarrow>
                 Inr (u\<lparr> u_world := set_list_implementation list i
                           (method_implementation (world_method (st_world s) target)) (st_world s) \<rparr>)))"

text \<open>The list \<open>NULL\<close> stands for the empty list, which is added to a class without lists only.\<close>

definition mulle_objc_class_add_methodlist_nocache ::
    "'imp universe_env \<Rightarrow> nat \<Rightarrow> 'imp search_methodlist option \<Rightarrow> 'imp universe \<Rightarrow>
     (errno option \<times> nat option \<times> 'imp universe) guarded" where
  "mulle_objc_class_add_methodlist_nocache env cls list0 u =
     (case list0 of
        None \<Rightarrow>
          if sc_methodlists (u_search_class u cls) \<noteq> [] then Inr (None, None, u)
          else Inr (None, None, update_search_class cls (sc_methodlists_update (\<lambda>lists. lists @ [0])) u)
      | Some ml \<Rightarrow>
          u_bind (register_methods env (ml_methods ml) 0 0 u) (\<lambda>(e, bits, u1).
            case e of
              Some e \<Rightarrow> Inr (Some e, None, u1)
            | None \<Rightarrow>
                let list = u_n_lists u1;
                    u2 = u1\<lparr> u_n_lists := Suc list, u_world := (u_world u1)\<lparr> w_list := (w_list (u_world u1))(list := ml) \<rparr> \<rparr>;
                    u3 = update_search_class cls (sc_methodlists_update (\<lambda>lists. lists @ [list])) u2
                in if bits AND method_alias_bits = 0 then Inr (None, Some list, u3)
                   else u_bind (u_each (resolve_alias env cls list) [0..<length (ml_methods ml)] u3) (\<lambda>u4.
                     Inr (None, Some list, u4))))"

text \<open>
  After an addition the caches of all classes whose caches are ready are told, if there are any
  caches yet. \<open>mulle_objc_universe_walk_classes\<close> visits each class and its metaclass.
\<close>

definition walked_classes :: "'imp universe \<Rightarrow> nat list" where
  "walked_classes u = concat (map (\<lambda>(_, infra). [infra, pair_metaclass (u_search_pair u
     (sc_classpair (u_search_class u infra)))]) (u_classtable u))"

definition mulle_objc_class_didadd_methodlist :: "nat option \<Rightarrow> 'imp universe \<Rightarrow> 'imp universe" where
  "mulle_objc_class_didadd_methodlist list0 u =
     (case list0 of
        None \<Rightarrow> u
      | Some list \<Rightarrow>
          if ml_methods (w_list (u_world u) list) \<noteq> [] \<and> u_cachecount u \<noteq> 0
          then u\<lparr> u_invalidations := u_invalidations u @ map (\<lambda>c. (c, list))
                 (filter (\<lambda>c. mulle_objc_class_get_state_bit u c CLASS_STATE_CACHE_READY) (walked_classes u)) \<rparr>
          else u)"

definition mulle_objc_class_add_methodlist ::
    "'imp universe_env \<Rightarrow> nat \<Rightarrow> 'imp search_methodlist option \<Rightarrow> 'imp universe \<Rightarrow>
     (errno option \<times> 'imp universe) guarded" where
  "mulle_objc_class_add_methodlist env cls list0 u =
     u_bind (mulle_objc_class_add_methodlist_nocache env cls list0 u) (\<lambda>(e, list, u').
       Inr (e, if e = None then mulle_objc_class_didadd_methodlist list u' else u'))"

text \<open>The error code that is reported is the \<open>-1\<close> of the call, not the \<open>errno\<close>.\<close>

definition mulle_objc_class_add_methodlist_nofail ::
    "'imp universe_env \<Rightarrow> nat \<Rightarrow> 'imp search_methodlist option \<Rightarrow> 'imp universe \<Rightarrow> 'imp universe guarded" where
  "mulle_objc_class_add_methodlist_nofail env cls list0 u =
     u_bind (mulle_objc_class_add_methodlist env cls list0 u) (\<lambda>(e, u').
       if e \<noteq> None then Inl Fail_code_minus_1 else Inr u')"

section \<open>Ivar lists\<close>

definition mulle_objc_infraclass_add_ivarlist :: "nat \<Rightarrow> mulle_objc_ivar list option \<Rightarrow> 'imp universe \<Rightarrow> 'imp universe" where
  "mulle_objc_infraclass_add_ivarlist infra list0 u =
     (case list0 of
        None \<Rightarrow> if class_ivarlists (u_class u infra) \<noteq> [] then u
                else update_class infra (class_ivarlists_update (\<lambda>lists. lists @ [[]])) u
      | Some ivars \<Rightarrow> update_class infra (class_ivarlists_update (\<lambda>lists. lists @ [ivars])) u)"

definition mulle_objc_metaclass_add_ivarlist :: "nat \<Rightarrow> mulle_objc_ivar list option \<Rightarrow> 'imp universe \<Rightarrow> 'imp universe" where
  "mulle_objc_metaclass_add_ivarlist meta list0 u =
     (case list0 of
        None \<Rightarrow> u
      | Some ivars \<Rightarrow> if ivars = [] then u
                      else update_class meta (class_ivarlists_update (\<lambda>lists. lists @ [ivars])) u)"

end
