(* ===== verification/Message_Send.thy ===== *)
theory Message_Send
  imports Classpair Class_Lookup Tagged_Pointer
begin

text \<open>
  Message sending (\<open>mulle-objc-call.c\<close>, \<open>mulle-objc-call.h\<close>): the call vector in front of each
  method cache, the out-of-line and the inlined ways to send a message and to call super, and
  the call of many objects at once. An implementation is compiled code of the program: a call
  ends in the one that it jumps to, together with the state in which it does so. The runtime is
  the one without fast methods (\<open>__MULLE_OBJC_FCS__\<close> undefined), whose universe has no bit of
  \<open>debug.method_call\<close> set, so nothing is traced or checked in front of a call.
\<close>

section \<open>The state of the runtime\<close>

text \<open>
  The functions a call vector holds: the normal ones (\<open>mulle-objc-call.c\<close>), the slow ones of the
  empty cache and the ones of the initial cache that set a class up first
  (\<open>mulle-objc-class-initialize.c\<close>). The two refresh functions of a call vector are the same in
  all three of them.
\<close>

datatype call_function =
    Object_callback_class | Object_callback_cache_collision | Object_callback_cache_miss
  | Object_call_class_slow | Object_call2_slow
  | Object_call_class_needcache | Object_call2_needcache

datatype supercall_function =
    Object_callback_super | Object_callback_super_cache_collision | Object_callback_super_cache_miss
  | Object_call_super_slow
  | Object_call_super_needcache

record mulle_objc_impcache_callback =
  callback_call :: call_function
  callback_call_cache_collision :: call_function
  callback_call_cache_miss :: call_function
  callback_supercall :: supercall_function
  callback_supercall_cache_collision :: supercall_function
  callback_supercall_cache_miss :: supercall_function

definition mulle_objc_impcache_callback_normal :: mulle_objc_impcache_callback where
  "mulle_objc_impcache_callback_normal =
     \<lparr> callback_call = Object_callback_class,
       callback_call_cache_collision = Object_callback_cache_collision,
       callback_call_cache_miss = Object_callback_cache_miss,
       callback_supercall = Object_callback_super,
       callback_supercall_cache_collision = Object_callback_super_cache_collision,
       callback_supercall_cache_miss = Object_callback_super_cache_miss \<rparr>"

definition mulle_objc_impcache_callback_empty :: mulle_objc_impcache_callback where
  "mulle_objc_impcache_callback_empty =
     \<lparr> callback_call = Object_call_class_slow,
       callback_call_cache_collision = Object_call2_slow,
       callback_call_cache_miss = Object_call2_slow,
       callback_supercall = Object_call_super_slow,
       callback_supercall_cache_collision = Object_call_super_slow,
       callback_supercall_cache_miss = Object_call_super_slow \<rparr>"

definition mulle_objc_impcache_callback_initial :: mulle_objc_impcache_callback where
  "mulle_objc_impcache_callback_initial =
     \<lparr> callback_call = Object_call_class_needcache,
       callback_call_cache_collision = Object_call2_needcache,
       callback_call_cache_miss = Object_call2_needcache,
       callback_supercall = Object_call_super_needcache,
       callback_supercall_cache_collision = Object_call_super_needcache,
       callback_supercall_cache_miss = Object_call_super_needcache \<rparr>"

text \<open>
  Messages, as the code of the program sends them: the receiver is an address, 0 is \<open>nil\<close>. A call
  of super also names the super, which is a method and the class it is called from.
\<close>

datatype message =
    Message uintptr uint32
  | Super_message uintptr uint32 uint32

text \<open>
  What surrounds the calls: the environment of the search with its bounds, the universe as the
  method caches see it, the \<open>isa\<close> in the header of an object, the classes of tagged pointers, the
  current thread, the addresses of classes (which are objects, too), the callback for the size of a
  new cache, and the messages that an implementation sends when it runs on an object.
\<close>

record 'imp runtime_env =
  re_search :: "'imp search_env"
  re_depth :: nat
  re_rounds :: nat
  re_universe :: "mulle_objc_impcache_callback impcache_universe"
  re_isa :: "uintptr \<Rightarrow> nat"
  re_pointerclass :: "nat \<Rightarrow> nat"
  re_thread :: nat
  re_will_init_cache :: "(nat \<Rightarrow> uint32 \<Rightarrow> uint32) option"
  re_address :: "nat \<Rightarrow> uintptr"
  re_messages :: "'imp \<Rightarrow> uintptr \<Rightarrow> message list"

text \<open>
  The state: the universe with its heap of classes, the cache pivot of each class and the heap of
  the caches; the \<open>thread_id\<close> and the lock of each class pair, which metaclasses have their
  property lock, and the calls that class initialization made: the method id, the metaclass in which
  it was searched, the infraclass that is called and the implementation.
\<close>

record 'imp runtime_state =
  rt_universe :: "'imp universe"
  rt_pivot :: "nat \<Rightarrow> nat option"
  rt_heap :: "(mulle_objc_impcache_callback, 'imp) mulle_objc_impcache cache_heap"
  rt_thread_id :: "nat \<Rightarrow> nat option"
  rt_lock :: "nat \<Rightarrow> bool"
  rt_propertylock :: "nat \<Rightarrow> bool"
  rt_calls :: "(uint32 \<times> nat \<times> nat \<times> 'imp) list"

abbreviation rt_world :: "'imp runtime_state \<Rightarrow> 'imp search_world" where
  "rt_world st \<equiv> u_world (rt_universe st)"

definition set_world :: "'imp search_world \<Rightarrow> 'imp runtime_state \<Rightarrow> 'imp runtime_state" where
  "set_world w st = st\<lparr> rt_universe := (rt_universe st)\<lparr> u_world := w \<rparr> \<rparr>"

text \<open>The part of the state that a lookup in one class works on, and its return.\<close>

definition infraclass_of :: "'imp search_world \<Rightarrow> nat \<Rightarrow> nat" where
  "infraclass_of w cls = (case sc_infraclass (w_class w cls) of Some infra \<Rightarrow> infra | None \<Rightarrow> cls)"

definition lookup_state_of ::
    "nat \<Rightarrow> 'imp runtime_state \<Rightarrow> (mulle_objc_impcache_callback, 'imp) lookup_state" where
  "lookup_state_of cls st =
     \<lparr> lk_world = rt_world st,
       lk_class = \<lparr> class_state = sc_state (w_class (rt_world st) cls), class_cachepivot = rt_pivot st cls,
         class_infra_state = sc_state (w_class (rt_world st) (infraclass_of (rt_world st) cls)) \<rparr>,
       lk_heap = rt_heap st \<rparr>"

definition with_lookup_state ::
    "nat \<Rightarrow> (mulle_objc_impcache_callback, 'imp) lookup_state \<Rightarrow> 'imp runtime_state \<Rightarrow> 'imp runtime_state" where
  "with_lookup_state cls lk st =
     (set_world (lk_world lk) st)\<lparr> rt_pivot := (rt_pivot st)(cls := class_cachepivot (lk_class lk)),
       rt_heap := lk_heap lk \<rparr>"

definition mulle_objc_object_get_isa :: "'imp runtime_env \<Rightarrow> uintptr \<Rightarrow> nat" where
  "mulle_objc_object_get_isa env obj =
     (let index = mulle_objc_taggedpointer_get_index obj
      in if index = 0 then re_isa env obj else re_pointerclass env (unat index))"

section \<open>The functions of the call vectors\<close>

text \<open>The cache of a class: its entries, its call vector.\<close>

definition current_impcache ::
    "'imp runtime_state \<Rightarrow> nat \<Rightarrow> (mulle_objc_impcache_callback, 'imp) mulle_objc_impcache guarded" where
  "current_impcache st cls =
     (case rt_pivot st cls of
        None \<Rightarrow> Inl (universe_failure.Fault Null_Dereference)
      | Some a \<Rightarrow> of_c_run (heap_get (rt_heap st) a))"

text \<open>
  The loop that all of the calls have in some form: from an offset on, the first entry that has the
  key or none.
\<close>

partial_function (option) call_probe_loop ::
    "'v mulle_objc_cacheentry list \<Rightarrow> uint32 \<Rightarrow> uint32 \<Rightarrow> uint32 \<Rightarrow> 'v mulle_objc_cacheentry c_run" where
  "call_probe_loop entries msk uniqueid offset0 =
     (let offset = offset0 AND msk in
      case cache_entry_at entries offset of
        Inl e \<Rightarrow> run_fault e
      | Inr entry \<Rightarrow>
          if entry_key entry = uniqueid \<or> entry_key entry = 0 then run_return entry
          else call_probe_loop entries msk uniqueid (offset + cacheentry_sizeof))"

definition probe_impcache ::
    "(mulle_objc_impcache_callback, 'imp) mulle_objc_impcache \<Rightarrow> uint32 \<Rightarrow> uint32 \<Rightarrow>
     'imp mulle_objc_cacheentry guarded" where
  "probe_impcache icache uniqueid offset =
     of_c_run (call_probe_loop (cache_entries (impcache_cache icache)) (cache_mask (impcache_cache icache))
       uniqueid offset)"

text \<open>The function pointer of an entry; \<open>NULL\<close> is not to be called.\<close>

definition entry_imp :: "'imp mulle_objc_cacheentry \<Rightarrow> 'imp guarded" where
  "entry_imp entry = (case entry_value entry of None \<Rightarrow> Inl (universe_failure.Fault Null_Dereference) | Some imp \<Rightarrow> Inr imp)"

text \<open>A call of \<open>refresh_method_nofail\<close> or \<open>refresh_supermethod_nofail\<close>, and the implementation of its method.\<close>

definition refresh_method ::
    "'imp runtime_env \<Rightarrow> nat \<Rightarrow> uint32 \<Rightarrow> 'imp runtime_state \<Rightarrow> ('imp \<times> 'imp runtime_state) guarded" where
  "refresh_method env cls methodid st =
     u_bind (of_c_run (mulle_objc_class_refresh_method_nofail (re_search env) (re_depth env) (re_rounds env)
         (re_universe env) cls methodid (lookup_state_of cls st)))
       (\<lambda>(m, lk). Inr (method_implementation (world_method (lk_world lk) m), with_lookup_state cls lk st))"

definition refresh_supermethod ::
    "'imp runtime_env \<Rightarrow> nat \<Rightarrow> uint32 \<Rightarrow> 'imp runtime_state \<Rightarrow> ('imp \<times> 'imp runtime_state) guarded" where
  "refresh_supermethod env cls superid st =
     u_bind (of_c_run (mulle_objc_class_refresh_supermethod_nofail (re_search env) (re_depth env) (re_rounds env)
         (re_universe env) cls superid (lookup_state_of cls st)))
       (\<lambda>(m, lk). Inr (method_implementation (world_method (lk_world lk) m), with_lookup_state cls lk st))"

definition mulle_objc_object_callback_class_get_implementation ::
    "'imp runtime_env \<Rightarrow> nat \<Rightarrow> uint32 \<Rightarrow> 'imp runtime_state \<Rightarrow> ('imp \<times> 'imp runtime_state) guarded" where
  "mulle_objc_object_callback_class_get_implementation env cls methodid st =
     u_assert (mulle_objc_uniqueid_is_sane methodid)
       (u_bind (current_impcache st cls) (\<lambda>icache.
        u_bind (probe_impcache icache methodid methodid) (\<lambda>entry.
          if entry_key entry = methodid then u_bind (entry_imp entry) (\<lambda>imp. Inr (imp, st))
          else refresh_method env cls methodid st)))"

definition mulle_objc_object_callback_cache_collision_get_implementation ::
    "'imp runtime_env \<Rightarrow> nat \<Rightarrow> uint32 \<Rightarrow> 'imp runtime_state \<Rightarrow> ('imp \<times> 'imp runtime_state) guarded" where
  "mulle_objc_object_callback_cache_collision_get_implementation env cls methodid st =
     u_assert (mulle_objc_uniqueid_is_sane methodid)
       (u_bind (current_impcache st cls) (\<lambda>icache.
        u_bind (probe_impcache icache methodid (methodid + cacheentry_sizeof)) (\<lambda>entry.
          if entry_key entry = methodid then u_bind (entry_imp entry) (\<lambda>imp. Inr (imp, st))
          else refresh_method env cls methodid st)))"

definition mulle_objc_object_callback_cache_miss_get_implementation ::
    "'imp runtime_env \<Rightarrow> nat \<Rightarrow> uint32 \<Rightarrow> 'imp runtime_state \<Rightarrow> ('imp \<times> 'imp runtime_state) guarded" where
  "mulle_objc_object_callback_cache_miss_get_implementation env cls methodid st =
     u_assert (mulle_objc_uniqueid_is_sane methodid)
       (u_bind (current_impcache st cls) (\<lambda>icache. refresh_method env cls methodid st))"

definition mulle_objc_object_callback_super_get_implementation ::
    "'imp runtime_env \<Rightarrow> nat \<Rightarrow> uint32 \<Rightarrow> 'imp runtime_state \<Rightarrow> ('imp \<times> 'imp runtime_state) guarded" where
  "mulle_objc_object_callback_super_get_implementation env cls superid st =
     u_bind (current_impcache st cls) (\<lambda>icache.
     u_bind (probe_impcache icache superid superid) (\<lambda>entry.
       if entry_key entry = superid then u_bind (entry_imp entry) (\<lambda>imp. Inr (imp, st))
       else refresh_supermethod env cls superid st))"

definition mulle_objc_object_callback_super_cache_collision_get_implementation ::
    "'imp runtime_env \<Rightarrow> nat \<Rightarrow> uint32 \<Rightarrow> 'imp runtime_state \<Rightarrow> ('imp \<times> 'imp runtime_state) guarded" where
  "mulle_objc_object_callback_super_cache_collision_get_implementation env cls superid st =
     u_bind (current_impcache st cls) (\<lambda>icache.
     u_bind (probe_impcache icache superid (superid + cacheentry_sizeof)) (\<lambda>entry.
       if entry_key entry = superid then u_bind (entry_imp entry) (\<lambda>imp. Inr (imp, st))
       else refresh_supermethod env cls superid st))"

definition mulle_objc_object_callback_super_cache_miss_get_implementation ::
    "'imp runtime_env \<Rightarrow> nat \<Rightarrow> uint32 \<Rightarrow> 'imp runtime_state \<Rightarrow> ('imp \<times> 'imp runtime_state) guarded" where
  "mulle_objc_object_callback_super_cache_miss_get_implementation env cls superid st =
     u_bind (current_impcache st cls) (\<lambda>icache. refresh_supermethod env cls superid st)"

text \<open>The slow functions search without a look at the cache.\<close>

definition searched_imp ::
    "(method_ptr \<times> 'imp search_world) c_run \<Rightarrow> 'imp runtime_state \<Rightarrow> ('imp \<times> 'imp runtime_state) guarded" where
  "searched_imp search st =
     u_bind (of_c_run search) (\<lambda>(m, w). Inr (method_implementation (world_method w m), set_world w st))"

definition mulle_objc_object_call_class_slow ::
    "'imp runtime_env \<Rightarrow> nat \<Rightarrow> uint32 \<Rightarrow> 'imp runtime_state \<Rightarrow> ('imp \<times> 'imp runtime_state) guarded" where
  "mulle_objc_object_call_class_slow env cls methodid st =
     searched_imp (mulle_objc_class_search_method_nofail (re_search env) (re_depth env) (re_rounds env) cls methodid
       (rt_world st)) st"

definition mulle_objc_object_call2_slow ::
    "'imp runtime_env \<Rightarrow> nat \<Rightarrow> uint32 \<Rightarrow> 'imp runtime_state \<Rightarrow> ('imp \<times> 'imp runtime_state) guarded" where
  "mulle_objc_object_call2_slow env cls methodid st =
     searched_imp (mulle_objc_class_search_method_nofail (re_search env) (re_depth env) (re_rounds env) cls methodid
       (rt_world st)) st"

definition mulle_objc_object_call_super_slow ::
    "'imp runtime_env \<Rightarrow> nat \<Rightarrow> uint32 \<Rightarrow> 'imp runtime_state \<Rightarrow> ('imp \<times> 'imp runtime_state) guarded" where
  "mulle_objc_object_call_super_slow env cls superid st =
     searched_imp (mulle_objc_class_supersearch_method_nofail (re_search env) (re_depth env) (re_rounds env) cls superid
       (rt_world st)) st"

text \<open>
  The functions of the initial cache: \<open>setup\<close> is class setup, which answers whether to go slow;
  otherwise the \<open>call_cache_miss\<close> of the cache that is there now has the call (\<open>rec\<close>).
\<close>

definition mulle_objc_object_call_class_needcache ::
    "(nat \<Rightarrow> 'imp runtime_state \<Rightarrow> (bool \<times> 'imp runtime_state) guarded) \<Rightarrow>
     (call_function \<Rightarrow> nat \<Rightarrow> uint32 \<Rightarrow> 'imp runtime_state \<Rightarrow> ('imp \<times> 'imp runtime_state) guarded) \<Rightarrow>
     'imp runtime_env \<Rightarrow> nat \<Rightarrow> uint32 \<Rightarrow> 'imp runtime_state \<Rightarrow> ('imp \<times> 'imp runtime_state) guarded" where
  "mulle_objc_object_call_class_needcache setup rec env cls methodid st =
     u_bind (setup cls st) (\<lambda>(slow, st1).
       if slow then mulle_objc_object_call_class_slow env cls methodid st1
       else u_bind (current_impcache st1 cls) (\<lambda>icache.
         rec (callback_call_cache_miss (impcache_callback icache)) cls methodid st1))"

definition mulle_objc_object_call_super_needcache ::
    "(nat \<Rightarrow> 'imp runtime_state \<Rightarrow> (bool \<times> 'imp runtime_state) guarded) \<Rightarrow>
     (supercall_function \<Rightarrow> nat \<Rightarrow> uint32 \<Rightarrow> 'imp runtime_state \<Rightarrow> ('imp \<times> 'imp runtime_state) guarded) \<Rightarrow>
     'imp runtime_env \<Rightarrow> nat \<Rightarrow> uint32 \<Rightarrow> 'imp runtime_state \<Rightarrow> ('imp \<times> 'imp runtime_state) guarded" where
  "mulle_objc_object_call_super_needcache setup rec env cls superid st =
     u_bind (setup cls st) (\<lambda>(slow, st1).
       if slow then mulle_objc_object_call_super_slow env cls superid st1
       else u_bind (current_impcache st1 cls) (\<lambda>icache.
         rec (callback_supercall_cache_miss (impcache_callback icache)) cls superid st1))"

text \<open>
  A call of one of these functions; the number bounds how often a set up class may have a cache
  that wants it set up.
\<close>

primrec run_call_function ::
    "(nat \<Rightarrow> 'imp runtime_state \<Rightarrow> (bool \<times> 'imp runtime_state) guarded) \<Rightarrow> 'imp runtime_env \<Rightarrow> nat \<Rightarrow>
     call_function \<Rightarrow> nat \<Rightarrow> uint32 \<Rightarrow> 'imp runtime_state \<Rightarrow> ('imp \<times> 'imp runtime_state) guarded" where
  "run_call_function setup env 0 f cls methodid st = Inl No_return"
| "run_call_function setup env (Suc n) f cls methodid st =
     (case f of
        Object_callback_class \<Rightarrow> mulle_objc_object_callback_class_get_implementation env cls methodid st
      | Object_callback_cache_collision \<Rightarrow>
          mulle_objc_object_callback_cache_collision_get_implementation env cls methodid st
      | Object_callback_cache_miss \<Rightarrow> mulle_objc_object_callback_cache_miss_get_implementation env cls methodid st
      | Object_call_class_slow \<Rightarrow> mulle_objc_object_call_class_slow env cls methodid st
      | Object_call2_slow \<Rightarrow> mulle_objc_object_call2_slow env cls methodid st
      | Object_call_class_needcache \<Rightarrow>
          mulle_objc_object_call_class_needcache setup (run_call_function setup env n) env cls methodid st
      | Object_call2_needcache \<Rightarrow>
          mulle_objc_object_call_class_needcache setup (run_call_function setup env n) env cls methodid st)"

primrec run_supercall_function ::
    "(nat \<Rightarrow> 'imp runtime_state \<Rightarrow> (bool \<times> 'imp runtime_state) guarded) \<Rightarrow> 'imp runtime_env \<Rightarrow> nat \<Rightarrow>
     supercall_function \<Rightarrow> nat \<Rightarrow> uint32 \<Rightarrow> 'imp runtime_state \<Rightarrow> ('imp \<times> 'imp runtime_state) guarded" where
  "run_supercall_function setup env 0 f cls superid st = Inl No_return"
| "run_supercall_function setup env (Suc n) f cls superid st =
     (case f of
        Object_callback_super \<Rightarrow> mulle_objc_object_callback_super_get_implementation env cls superid st
      | Object_callback_super_cache_collision \<Rightarrow>
          mulle_objc_object_callback_super_cache_collision_get_implementation env cls superid st
      | Object_callback_super_cache_miss \<Rightarrow>
          mulle_objc_object_callback_super_cache_miss_get_implementation env cls superid st
      | Object_call_super_slow \<Rightarrow> mulle_objc_object_call_super_slow env cls superid st
      | Object_call_super_needcache \<Rightarrow>
          mulle_objc_object_call_super_needcache setup (run_supercall_function setup env n) env cls superid st)"

section \<open>Sending a message\<close>

text \<open>
  A function pointer that is about to be called: an implementation of the program, or a function
  of the call vector. The calls are named after the code; each returns \<open>None\<close> for \<open>nil\<close>, else the
  implementation that runs.
\<close>

datatype 'imp call_target = Target_implementation 'imp | Target_callback call_function

type_synonym 'imp class_setup = "nat \<Rightarrow> 'imp runtime_state \<Rightarrow> (bool \<times> 'imp runtime_state) guarded"

definition call_target ::
    "'imp class_setup \<Rightarrow> 'imp runtime_env \<Rightarrow> nat \<Rightarrow> 'imp call_target \<Rightarrow> uintptr \<Rightarrow> uint32 \<Rightarrow>
     'imp runtime_state \<Rightarrow> ('imp \<times> 'imp runtime_state) guarded" where
  "call_target setup env n f obj methodid st =
     (case f of
        Target_implementation imp \<Rightarrow> Inr (imp, st)
      | Target_callback callback \<Rightarrow>
          run_call_function setup env n callback (mulle_objc_object_get_isa env obj) methodid st)"

definition unless_nil ::
    "uintptr \<Rightarrow> 'imp runtime_state \<Rightarrow> ('imp \<times> 'imp runtime_state) guarded \<Rightarrow>
     ('imp option \<times> 'imp runtime_state) guarded" where
  "unless_nil obj st call =
     (if obj = 0 then Inr (None, st) else u_bind call (\<lambda>(imp, st'). Inr (Some imp, st')))"

definition mulle_objc_object_get_imp_inline_full_no_fcs ::
    "'imp runtime_env \<Rightarrow> uintptr \<Rightarrow> uint32 \<Rightarrow> 'imp runtime_state \<Rightarrow> 'imp call_target guarded" where
  "mulle_objc_object_get_imp_inline_full_no_fcs env obj methodid st =
     u_assert (methodid \<noteq> 0)
       (u_bind (current_impcache st (mulle_objc_object_get_isa env obj)) (\<lambda>icache.
        u_bind (probe_impcache icache methodid methodid) (\<lambda>entry.
          if entry_key entry = methodid then u_bind (entry_imp entry) (\<lambda>imp. Inr (Target_implementation imp))
          else Inr (Target_callback (callback_call_cache_miss (impcache_callback icache))))))"

definition mulle_objc_object_call_nonnil ::
    "'imp class_setup \<Rightarrow> 'imp runtime_env \<Rightarrow> nat \<Rightarrow> uintptr \<Rightarrow> uint32 \<Rightarrow> 'imp runtime_state \<Rightarrow>
     ('imp \<times> 'imp runtime_state) guarded" where
  "mulle_objc_object_call_nonnil setup env n obj methodid st =
     u_bind (mulle_objc_object_get_imp_inline_full_no_fcs env obj methodid st) (\<lambda>f.
       call_target setup env n f obj methodid st)"

definition mulle_objc_object_call ::
    "'imp class_setup \<Rightarrow> 'imp runtime_env \<Rightarrow> nat \<Rightarrow> uintptr \<Rightarrow> uint32 \<Rightarrow> 'imp runtime_state \<Rightarrow>
     ('imp option \<times> 'imp runtime_state) guarded" where
  "mulle_objc_object_call setup env n obj methodid st =
     unless_nil obj st
       (u_bind (mulle_objc_object_get_imp_inline_full_no_fcs env obj methodid st) (\<lambda>f.
          call_target setup env n f obj methodid st))"

definition mulle_objc_object_call_inline_minimal ::
    "'imp class_setup \<Rightarrow> 'imp runtime_env \<Rightarrow> nat \<Rightarrow> uintptr \<Rightarrow> uint32 \<Rightarrow> 'imp runtime_state \<Rightarrow>
     ('imp option \<times> 'imp runtime_state) guarded" where
  "mulle_objc_object_call_inline_minimal setup env n obj methodid st =
     unless_nil obj st (mulle_objc_object_call_nonnil setup env n obj methodid st)"

definition mulle_objc_object_call_inline_partial ::
    "'imp class_setup \<Rightarrow> 'imp runtime_env \<Rightarrow> nat \<Rightarrow> uintptr \<Rightarrow> uint32 \<Rightarrow> 'imp runtime_state \<Rightarrow>
     ('imp option \<times> 'imp runtime_state) guarded" where
  "mulle_objc_object_call_inline_partial setup env n obj methodid st =
     unless_nil obj st
       (let cls = mulle_objc_object_get_isa env obj in
        u_bind (current_impcache st cls) (\<lambda>icache.
          run_call_function setup env n (callback_call (impcache_callback icache)) cls methodid st))"

text \<open>The entry at the place of the id, the only one that the shorter inline calls look at.\<close>

definition first_entry ::
    "(mulle_objc_impcache_callback, 'imp) mulle_objc_impcache \<Rightarrow> uint32 \<Rightarrow> 'imp mulle_objc_cacheentry guarded" where
  "first_entry icache uniqueid =
     of_c_result (cache_entry_at (cache_entries (impcache_cache icache))
       (uniqueid AND cache_mask (impcache_cache icache)))"

text \<open>
  \<open>_mulle_objc_object_call_inline\<close> takes any other entry for a collision, an empty one too.
\<close>

definition mulle_objc_object_call_inline_nonnil ::
    "'imp class_setup \<Rightarrow> 'imp runtime_env \<Rightarrow> nat \<Rightarrow> uintptr \<Rightarrow> uint32 \<Rightarrow> 'imp runtime_state \<Rightarrow>
     ('imp \<times> 'imp runtime_state) guarded" where
  "mulle_objc_object_call_inline_nonnil setup env n obj methodid st =
     u_assert (methodid \<noteq> 0)
       (u_bind (current_impcache st (mulle_objc_object_get_isa env obj)) (\<lambda>icache.
        u_bind (first_entry icache methodid) (\<lambda>entry.
        u_bind (if entry_key entry = methodid then u_bind (entry_imp entry) (\<lambda>imp. Inr (Target_implementation imp))
                else Inr (Target_callback (callback_call_cache_collision (impcache_callback icache)))) (\<lambda>f.
          call_target setup env n f obj methodid st))))"

definition mulle_objc_object_call_inline ::
    "'imp class_setup \<Rightarrow> 'imp runtime_env \<Rightarrow> nat \<Rightarrow> uintptr \<Rightarrow> uint32 \<Rightarrow> 'imp runtime_state \<Rightarrow>
     ('imp option \<times> 'imp runtime_state) guarded" where
  "mulle_objc_object_call_inline setup env n obj methodid st =
     unless_nil obj st (mulle_objc_object_call_inline_nonnil setup env n obj methodid st)"

definition mulle_objc_object_call_inline_full_nonnil ::
    "'imp class_setup \<Rightarrow> 'imp runtime_env \<Rightarrow> nat \<Rightarrow> uintptr \<Rightarrow> uint32 \<Rightarrow> 'imp runtime_state \<Rightarrow>
     ('imp \<times> 'imp runtime_state) guarded" where
  "mulle_objc_object_call_inline_full_nonnil setup env n obj methodid st =
     u_assert (methodid \<noteq> 0)
       (u_bind (current_impcache st (mulle_objc_object_get_isa env obj)) (\<lambda>icache.
        u_bind (probe_impcache icache methodid methodid) (\<lambda>entry.
        u_bind (if entry_key entry = methodid then u_bind (entry_imp entry) (\<lambda>imp. Inr (Target_implementation imp))
                else Inr (Target_callback (callback_call_cache_miss (impcache_callback icache)))) (\<lambda>f.
          call_target setup env n f obj methodid st))))"

definition mulle_objc_object_call_inline_full ::
    "'imp class_setup \<Rightarrow> 'imp runtime_env \<Rightarrow> nat \<Rightarrow> uintptr \<Rightarrow> uint32 \<Rightarrow> 'imp runtime_state \<Rightarrow>
     ('imp option \<times> 'imp runtime_state) guarded" where
  "mulle_objc_object_call_inline_full setup env n obj methodid st =
     unless_nil obj st (mulle_objc_object_call_inline_full_nonnil setup env n obj methodid st)"

definition mulle_objc_object_call_inline_variable ::
    "'imp class_setup \<Rightarrow> 'imp runtime_env \<Rightarrow> nat \<Rightarrow> uintptr \<Rightarrow> uint32 \<Rightarrow> 'imp runtime_state \<Rightarrow>
     ('imp option \<times> 'imp runtime_state) guarded" where
  "mulle_objc_object_call_inline_variable setup env n obj methodid st =
     unless_nil obj st
       (u_assert (methodid \<noteq> 0)
         (u_bind (current_impcache st (mulle_objc_object_get_isa env obj)) (\<lambda>icache.
          u_bind (first_entry icache methodid) (\<lambda>entry.
          u_bind (if entry_key entry = methodid then u_bind (entry_imp entry) (\<lambda>imp. Inr (Target_implementation imp))
                  else Inr (Target_callback (if entry_key entry \<noteq> 0
                              then callback_call_cache_collision (impcache_callback icache)
                              else callback_call_cache_miss (impcache_callback icache)))) (\<lambda>f.
            call_target setup env n f obj methodid st)))))"

definition mulle_objc_object_call_inline_full_variable ::
    "'imp class_setup \<Rightarrow> 'imp runtime_env \<Rightarrow> nat \<Rightarrow> uintptr \<Rightarrow> uint32 \<Rightarrow> 'imp runtime_state \<Rightarrow>
     ('imp option \<times> 'imp runtime_state) guarded" where
  "mulle_objc_object_call_inline_full_variable setup env n obj methodid st =
     unless_nil obj st
       (u_assert (methodid \<noteq> 0)
         (u_bind (current_impcache st (mulle_objc_object_get_isa env obj)) (\<lambda>icache.
          u_bind (probe_impcache icache methodid methodid) (\<lambda>entry.
          u_bind (if entry_key entry = methodid then u_bind (entry_imp entry) (\<lambda>imp. Inr (Target_implementation imp))
                  else Inr (Target_callback (callback_call_cache_miss (impcache_callback icache)))) (\<lambda>f.
            call_target setup env n f obj methodid st)))))"

definition mulle_objc_object_call_variable_inline ::
    "'imp class_setup \<Rightarrow> 'imp runtime_env \<Rightarrow> nat \<Rightarrow> uintptr \<Rightarrow> uint32 \<Rightarrow> 'imp runtime_state \<Rightarrow>
     ('imp option \<times> 'imp runtime_state) guarded" where
  "mulle_objc_object_call_variable_inline = mulle_objc_object_call_inline_variable"

definition mulle_objc_object_call_variable ::
    "'imp class_setup \<Rightarrow> 'imp runtime_env \<Rightarrow> nat \<Rightarrow> uintptr \<Rightarrow> uint32 \<Rightarrow> 'imp runtime_state \<Rightarrow>
     ('imp option \<times> 'imp runtime_state) guarded" where
  "mulle_objc_object_call_variable = mulle_objc_object_call"

section \<open>Calling super\<close>

definition mulle_objc_object_call_super_inline_partial ::
    "'imp class_setup \<Rightarrow> 'imp runtime_env \<Rightarrow> nat \<Rightarrow> uintptr \<Rightarrow> uint32 \<Rightarrow> uint32 \<Rightarrow> 'imp runtime_state \<Rightarrow>
     ('imp option \<times> 'imp runtime_state) guarded" where
  "mulle_objc_object_call_super_inline_partial setup env n obj methodid superid st =
     unless_nil obj st
       (let cls = mulle_objc_object_get_isa env obj in
        u_bind (current_impcache st cls) (\<lambda>icache.
          run_supercall_function setup env n (callback_supercall (impcache_callback icache)) cls superid st))"

definition mulle_objc_object_call_super_inline ::
    "'imp class_setup \<Rightarrow> 'imp runtime_env \<Rightarrow> nat \<Rightarrow> uintptr \<Rightarrow> uint32 \<Rightarrow> uint32 \<Rightarrow> 'imp runtime_state \<Rightarrow>
     ('imp option \<times> 'imp runtime_state) guarded" where
  "mulle_objc_object_call_super_inline setup env n obj methodid superid st =
     unless_nil obj st
       (let cls = mulle_objc_object_get_isa env obj in
        u_assert (mulle_objc_uniqueid_is_sane methodid)
         (u_bind (current_impcache st cls) (\<lambda>icache.
          u_bind (first_entry icache superid) (\<lambda>entry.
            if entry_key entry = superid then u_bind (entry_imp entry) (\<lambda>imp. Inr (imp, st))
            else run_supercall_function setup env n
                   (if entry_key entry \<noteq> 0 then callback_supercall_cache_collision (impcache_callback icache)
                    else callback_supercall_cache_miss (impcache_callback icache)) cls superid st))))"

definition mulle_objc_object_call_super_inline_full ::
    "'imp class_setup \<Rightarrow> 'imp runtime_env \<Rightarrow> nat \<Rightarrow> uintptr \<Rightarrow> uint32 \<Rightarrow> uint32 \<Rightarrow> 'imp runtime_state \<Rightarrow>
     ('imp option \<times> 'imp runtime_state) guarded" where
  "mulle_objc_object_call_super_inline_full setup env n obj methodid superid st =
     unless_nil obj st
       (let cls = mulle_objc_object_get_isa env obj in
        u_assert (mulle_objc_uniqueid_is_sane methodid)
         (u_bind (current_impcache st cls) (\<lambda>icache.
          u_bind (probe_impcache icache superid superid) (\<lambda>entry.
            if entry_key entry = superid then u_bind (entry_imp entry) (\<lambda>imp. Inr (imp, st))
            else run_supercall_function setup env n (callback_supercall_cache_miss (impcache_callback icache))
                   cls superid st))))"

definition mulle_objc_object_call_super ::
    "'imp class_setup \<Rightarrow> 'imp runtime_env \<Rightarrow> nat \<Rightarrow> uintptr \<Rightarrow> uint32 \<Rightarrow> uint32 \<Rightarrow> 'imp runtime_state \<Rightarrow>
     ('imp option \<times> 'imp runtime_state) guarded" where
  "mulle_objc_object_call_super = mulle_objc_object_call_super_inline_full"

section \<open>Calling many objects\<close>

text \<open>
  \<open>mulle_objc_objects_call\<close> keeps the implementations of up to sixteen classes at hand, by four bits
  of the address of the class. \<open>invoke\<close> runs an implementation on an object. The result
  lists the calls made.
\<close>

definition isa_slot :: "uintptr \<Rightarrow> nat" where
  "isa_slot address = unat (drop_bit 8 address AND 15)"

fun objects_call_loop ::
    "('imp \<Rightarrow> uintptr \<Rightarrow> 'imp runtime_state \<Rightarrow> 'imp runtime_state guarded) \<Rightarrow> 'imp runtime_env \<Rightarrow>
     uint32 \<Rightarrow> uintptr list \<Rightarrow> nat option list \<Rightarrow> 'imp option list \<Rightarrow> 'imp runtime_state \<Rightarrow>
     ((uintptr \<times> 'imp) list \<times> 'imp runtime_state) guarded" where
  "objects_call_loop invoke env methodid [] last_isa last_imp st = Inr ([], st)"
| "objects_call_loop invoke env methodid (p # objects) last_isa last_imp st =
     (if p = 0 then objects_call_loop invoke env methodid objects last_isa last_imp st
      else
        let this_isa = mulle_objc_object_get_isa env p;
            i = isa_slot (re_address env this_isa)
        in u_bind
             (if last_isa ! i \<noteq> Some this_isa
              then u_bind (of_c_run (mulle_objc_class_lookup_implementation (re_search env) (re_depth env)
                       (re_rounds env) (re_universe env) this_isa methodid (lookup_state_of this_isa st))) (\<lambda>(imp, lk).
                     u_assert (imp \<noteq> None)
                       (Inr (last_isa[i := Some this_isa], last_imp[i := imp], with_lookup_state this_isa lk st)))
              else Inr (last_isa, last_imp, st))
             (\<lambda>(last_isa', last_imp', st1).
                case last_imp' ! i of
                  None \<Rightarrow> Inl (universe_failure.Fault Uninitialized)
                | Some imp \<Rightarrow>
                    u_bind (invoke imp p st1) (\<lambda>st2.
                    u_bind (objects_call_loop invoke env methodid objects last_isa' last_imp' st2)
                      (\<lambda>(calls, st3). Inr ((p, imp) # calls, st3)))))"

definition mulle_objc_objects_call ::
    "('imp \<Rightarrow> uintptr \<Rightarrow> 'imp runtime_state \<Rightarrow> 'imp runtime_state guarded) \<Rightarrow> 'imp runtime_env \<Rightarrow>
     uintptr list \<Rightarrow> uint32 \<Rightarrow> 'imp runtime_state \<Rightarrow> ((uintptr \<times> 'imp) list \<times> 'imp runtime_state) guarded" where
  "mulle_objc_objects_call invoke env objects methodid st =
     u_assert (mulle_objc_uniqueid_is_sane methodid)
       (objects_call_loop invoke env methodid objects (replicate 16 None) (replicate 16 None) st)"

end
