(* ===== verification/Message_Send_Correct.thy ===== *)
theory Message_Send_Correct
  imports Message_Send
begin

text \<open>
  Correctness of message sending: whichever of the calls of \<open>mulle-objc-call.h\<close> the compiler
  chooses, a message to an object of a class whose cache is ready runs the implementation that the
  uncached search finds, and leaves the caches of all classes coherent.
\<close>

section \<open>What a call runs\<close>

text \<open>
  The implementation of a super call: the first one behind the class that makes the call, else the
  forward method's. A cache has entries for method ids and for super ids.
\<close>

definition super_resolve :: "nat \<Rightarrow> 'imp search_world \<Rightarrow> nat \<Rightarrow> uint32 \<Rightarrow> uint32 \<Rightarrow> 'imp option" where
  "super_resolve depth w cls methodid classid = map_option (\<lambda>m. method_implementation (world_method w m))
     (case visits_from w classid (class_visits depth w cls (sc_inheritance (w_class w cls))) of
        [] \<Rightarrow> sc_forwardmethod (w_class w cls)
      | v # rest \<Rightarrow>
          (case first_some (method_in w methodid) (lists_of_visits w rest) of
             Some (c, p) \<Rightarrow> Some p
           | None \<Rightarrow> sc_forwardmethod (w_class w cls)))"

definition answer :: "'imp runtime_env \<Rightarrow> 'imp search_world \<Rightarrow> nat \<Rightarrow> uint32 \<Rightarrow> 'imp option" where
  "answer env w cls q =
     (case env_lookup_super (re_search env) q of
        None \<Rightarrow> resolve (re_depth env) w cls q
      | Some (methodid, classid) \<Rightarrow> super_resolve (re_depth env) w cls methodid classid)"

text \<open>
  The classes \<open>C\<close> can be sent messages to: each is ready, with a coherent cache that has the normal
  call vector, and no two share a cache. \<open>w\<close> is the heap of classes when it all began.
\<close>

definition receiver_ok :: "'imp runtime_env \<Rightarrow> 'imp search_world \<Rightarrow> nat \<Rightarrow> 'imp runtime_state \<Rightarrow> bool" where
  "receiver_ok env w cls st \<longleftrightarrow>
     lookup_setting (re_search env) (re_depth env) (re_universe env) cls w \<and>
     coherent_with (answer env w cls) (re_universe env) (lookup_state_of cls st) \<and>
     (\<forall>a. rt_pivot st cls = Some a \<longrightarrow>
        impcache_callback (heap_blocks (rt_heap st) ! a) = mulle_objc_impcache_callback_normal)"

definition senders_ok :: "'imp runtime_env \<Rightarrow> 'imp search_world \<Rightarrow> nat set \<Rightarrow> 'imp runtime_state \<Rightarrow> bool" where
  "senders_ok env w C st \<longleftrightarrow>
     (\<forall>cls \<in> C. receiver_ok env w cls st) \<and> inj_on (rt_pivot st) C \<and> same_methods w (rt_world st) \<and>
     0 < re_rounds env \<and>
     (\<forall>q m c. env_lookup_super (re_search env) q = Some (m, c) \<longrightarrow> mulle_objc_uniqueid_is_sane m \<and> c \<noteq> 0)"

section \<open>Probing\<close>

lemma call_loop_of_probe:
  "cache_probe_loop es msk u x = Some r \<Longrightarrow> u \<noteq> 0 \<Longrightarrow>
   \<forall>e\<in>set es. entry_key e = 0 \<longleftrightarrow> entry_value e = None \<Longrightarrow>
   call_probe_loop es msk u x = run_bind (Some r) (\<lambda>(off, e). run_return e)"
proof (induction rule: cache_probe_loop.raw_induct [rotated, consumes 1])
  case (1 loop es msk u x r)
  show ?case
  proof (cases "cache_entry_at es (x AND msk)")
    case (Inl e)
    then show ?thesis using 1(2) by (subst call_probe_loop.simps) (auto simp: Let_def)
  next
    case (Inr e)
    then have "entry_key e = 0 \<longleftrightarrow> entry_value e = None" using 1(4) cache_entry_at_mem by blast
    then show ?thesis using 1 Inr
      by (subst call_probe_loop.simps) (auto simp: Let_def split: if_splits)
  qed
qed

lemma probe_value:
  assumes inv: "cache_inv k c" and u: "mulle_objc_uniqueid_is_sane u"
    and probe: "mulle_objc_cache_probe_functionpointer c u = run_return v"
  shows "v = cache_lookup c u"
proof (cases "cache_lookup c u")
  case None
  note sh = cache_shapeD [OF cache_inv_shape [OF inv]]
  have "cache_probe_loop (cache_entries c) (preshift k) u u \<noteq> None"
    using probe u sh(3) by (cases "cache_probe_loop (cache_entries c) (preshift k) u u")
      (auto simp: mulle_objc_cache_probe_functionpointer_def)
  then obtain e where "e \<in> set (cache_entries c)" "entry_stops u e"
    using probe_loop_returns_iff [OF sh(1,2)] by blast
  from probe_loop_stops_somewhere [OF sh(1,2) this, of u] obtain d where
    "cache_probe_loop (cache_entries c) (preshift k) u u =
       run_return (slot_offset ((cache_slot k u + d) mod 2 ^ k), cache_entries c ! ((cache_slot k u + d) mod 2 ^ k))"
    by blast
  moreover have "entry_key (cache_entries c ! ((cache_slot k u + d) mod 2 ^ k)) \<noteq> u"
    using cache_lookup_Some_iff [OF inv sane_nonzero [OF u]] None by auto
  ultimately show ?thesis
    using probe u sh(3) None by (simp add: mulle_objc_cache_probe_functionpointer_def)
next
  case (Some x)
  then show ?thesis using probe_functionpointer_correct [OF inv u] probe by simp
qed

text \<open>From whatever offset the loop starts, it ends, at the entry of the key or at a free one.\<close>

lemma call_loop_ends:
  assumes inv: "cache_inv k c" and u: "mulle_objc_uniqueid_is_sane u"
    and probe: "mulle_objc_cache_probe_functionpointer c u = run_return v"
  shows "\<exists>e. call_probe_loop (cache_entries c) (cache_mask c) u x = run_return e \<and>
     (entry_key e = u \<and> entry_value e = v \<and> v \<noteq> None \<or> entry_key e = 0)"
proof -
  note sh = cache_shapeD [OF cache_inv_shape [OF inv]]
  have v: "v = cache_lookup c u"
    by (rule probe_value [OF inv u probe])
  have "cache_probe_loop (cache_entries c) (preshift k) u u \<noteq> None"
    using probe u sh(3) by (cases "cache_probe_loop (cache_entries c) (preshift k) u u")
      (auto simp: mulle_objc_cache_probe_functionpointer_def)
  then obtain e where "e \<in> set (cache_entries c)" "entry_stops u e"
    using probe_loop_returns_iff [OF sh(1,2)] by blast
  from probe_loop_stops_somewhere [OF sh(1,2) this, of x] obtain d where d:
      "entry_stops u (cache_entries c ! ((cache_slot k x + d) mod 2 ^ k))"
      "cache_probe_loop (cache_entries c) (preshift k) u x =
         run_return (slot_offset ((cache_slot k x + d) mod 2 ^ k), cache_entries c ! ((cache_slot k x + d) mod 2 ^ k))"
    by blast
  let ?i = "(cache_slot k x + d) mod 2 ^ k"
  let ?e = "cache_entries c ! ?i"
  have i: "?i < 2 ^ k" by simp
  have kv: "\<forall>e\<in>set (cache_entries c). entry_key e = 0 \<longleftrightarrow> entry_value e = None"
    using inv by (simp add: cache_inv_def)
  have "call_probe_loop (cache_entries c) (cache_mask c) u x = run_return ?e"
    using call_loop_of_probe [OF d(2) sane_nonzero [OF u] kv] sh(3) by simp
  moreover have "entry_key ?e = u \<and> entry_value ?e = v \<and> v \<noteq> None \<or> entry_key ?e = 0"
    using d(1) cache_lookup_at [OF inv i refl] cache_inv_key_iff [OF inv i] sane_nonzero [OF u] v
    by (auto simp: entry_stops_def)
  ultimately show ?thesis by blast
qed

lemma first_entry_value:
  assumes inv: "cache_inv k c" and u: "mulle_objc_uniqueid_is_sane u"
    and probe: "mulle_objc_cache_probe_functionpointer c u = run_return v"
  shows "\<exists>e. cache_entry_at (cache_entries c) (u AND cache_mask c) = Inr e \<and>
     (entry_key e = u \<longrightarrow> entry_value e = v \<and> v \<noteq> None)"
proof -
  note sh = cache_shapeD [OF cache_inv_shape [OF inv]]
  have v: "v = cache_lookup c u"
    by (rule probe_value [OF inv u probe])
  have i: "cache_slot k u < 2 ^ k" by simp
  show ?thesis
    using cache_entry_at_slot [OF i sh(1,2)] and_mask_slot_offset [OF sh(1), of u] sh(3) v
      cache_lookup_at [OF inv i refl] cache_inv_key_iff [OF inv i] sane_nonzero [OF u]
    by (auto simp del: cache_slot_less)
qed

text \<open>What a ready class's cache has to say about an id.\<close>

lemma receiver_probes:
  assumes ok: "senders_ok env w C st" and cls: "cls \<in> C" and u: "mulle_objc_uniqueid_is_sane u"
  obtains icache where "current_impcache st cls = Inr icache"
    "impcache_callback icache = mulle_objc_impcache_callback_normal"
    "\<And>x. \<exists>e. probe_impcache icache u x = Inr e \<and>
       (entry_key e = u \<and> (\<exists>imp. entry_imp e = Inr imp \<and> answer env w cls u = Some imp) \<or> entry_key e = 0)"
    "\<exists>e. first_entry icache u = Inr e \<and>
       (entry_key e = u \<longrightarrow> (\<exists>imp. entry_imp e = Inr imp \<and> answer env w cls u = Some imp))"
proof -
  have rec: "receiver_ok env w cls st" using ok cls by (simp add: senders_ok_def)
  then obtain k a v where a: "rt_pivot st cls = Some a" and piv: "impcache_pivot_ok (re_universe env) k (rt_heap st) a"
    and v: "mulle_objc_cache_probe_functionpointer (impcache_at (rt_heap st) a) u = run_return v"
      "v \<in> {None, answer env w cls u}"
    using u by (auto simp: receiver_ok_def coherent_with_def lookup_state_of_def)
  let ?icache = "heap_blocks (rt_heap st) ! a"
  have inv: "cache_inv k (impcache_cache ?icache)" using piv by (simp add: impcache_pivot_ok_def)
  have v': "mulle_objc_cache_probe_functionpointer (impcache_cache ?icache) u = run_return v"
    using v(1) by (simp add: impcache_at_def)
  show ?thesis
  proof (rule that [of ?icache])
    show "current_impcache st cls = Inr ?icache"
      using a impcache_get [OF piv] by (simp add: current_impcache_def)
    show "impcache_callback ?icache = mulle_objc_impcache_callback_normal"
      using rec a by (simp add: receiver_ok_def)
    show "\<exists>e. probe_impcache ?icache u x = Inr e \<and>
       (entry_key e = u \<and> (\<exists>imp. entry_imp e = Inr imp \<and> answer env w cls u = Some imp) \<or> entry_key e = 0)" for x
      using call_loop_ends [OF inv u v', of x] v(2)
      by (auto simp: probe_impcache_def entry_imp_def split: option.split)
    show "\<exists>e. first_entry ?icache u = Inr e \<and>
       (entry_key e = u \<longrightarrow> (\<exists>imp. entry_imp e = Inr imp \<and> answer env w cls u = Some imp))"
      using first_entry_value [OF inv u v'] v(2)
      by (auto simp: first_entry_def entry_imp_def split: option.split)
  qed
qed

section \<open>Searches that fill the cache\<close>

lemma lookup_state_sel [simp]:
  "lk_world (lookup_state_of cls st) = rt_world st" "lk_heap (lookup_state_of cls st) = rt_heap st"
  "class_cachepivot (lk_class (lookup_state_of cls st)) = rt_pivot st cls"
  by (simp_all add: lookup_state_of_def)

lemma with_lookup_state_sel [simp]:
  "rt_world (with_lookup_state cls lk st) = lk_world lk" "rt_heap (with_lookup_state cls lk st) = lk_heap lk"
  "rt_pivot (with_lookup_state cls lk st) = (rt_pivot st)(cls := class_cachepivot (lk_class lk))"
  by (simp_all add: with_lookup_state_def set_world_def)

text \<open>Coherence depends on a class's pivot and state, and on the block of the pivot.\<close>

lemma coherent_with_cong:
  assumes "coherent_with ref universe lk" and "class_cachepivot (lk_class lk) = Some a"
    and "class_cachepivot (lk_class lk') = Some a" and "class_state (lk_class lk') = class_state (lk_class lk)"
    and "heap_blocks (lk_heap lk') ! a = heap_blocks (lk_heap lk) ! a"
    and "length (heap_blocks (lk_heap lk)) \<le> length (heap_blocks (lk_heap lk'))"
    and "heap_freed (lk_heap lk') = heap_freed (lk_heap lk)"
  shows "coherent_with ref universe lk'"
proof -
  obtain k where k: "impcache_pivot_ok universe k (lk_heap lk) a" using assms(1,2) by (auto simp: coherent_with_def)
  have "impcache_pivot_ok universe k (lk_heap lk') a"
    using k assms(5-7) by (auto simp: impcache_pivot_ok_def)
  moreover have "impcache_at (lk_heap lk') a = impcache_at (lk_heap lk) a" using assms(5) by (simp add: impcache_at_def)
  ultimately show ?thesis using assms(1-4) unfolding coherent_with_def by auto
qed

lemma receiver_pivot:
  assumes "receiver_ok env w cls st"
  obtains k a where "rt_pivot st cls = Some a" "impcache_pivot_ok (re_universe env) k (rt_heap st) a"
  using assms by (auto simp: receiver_ok_def coherent_with_def)

text \<open>Putting the method of an id into the cache of one class is right for all classes.\<close>

lemma fill_step:
  assumes ok: "senders_ok env w C st" and cls: "cls \<in> C" and u: "mulle_objc_uniqueid_is_sane u"
    and same: "same_methods w w1"
    and imp: "answer env w cls u = Some (method_implementation (world_method w1 m))"
  obtains lk where "lookup_fill (re_universe env) m u ((lookup_state_of cls st)\<lparr> lk_world := w1 \<rparr>) = run_return lk"
    "lk_world lk = w1" "senders_ok env w C (with_lookup_state cls lk st)"
proof -
  let ?lk0 = "(lookup_state_of cls st)\<lparr> lk_world := w1 \<rparr>"
  have rec: "receiver_ok env w c st" if "c \<in> C" for c using ok that by (simp add: senders_ok_def)
  have classes: "w_class w1 = w_class (rt_world st)"
    using same ok by (simp add: senders_ok_def same_methods_def)
  have set: "lookup_setting (re_search env) (re_depth env) (re_universe env) cls w"
    using rec [OF cls] by (simp add: receiver_ok_def)
  have "coherent_with (answer env w cls) (re_universe env) ?lk0"
    using rec [OF cls] by (simp add: receiver_ok_def coherent_with_def)
  then obtain lk where lk: "lookup_fill (re_universe env) m u ?lk0 = run_return lk"
      "coherent_with (answer env w cls) (re_universe env) lk" "lk_world lk = w1" "lookup_frame ?lk0 lk"
    using lookup_fill_coherent [of "answer env w cls" "re_universe env" ?lk0 u m] set u imp
    by (auto simp: lookup_setting_def)
  let ?st = "with_lookup_state cls lk st"
  obtain k a where a: "rt_pivot st cls = Some a" and piv: "impcache_pivot_ok (re_universe env) k (rt_heap st) a"
    using receiver_pivot [OF rec [OF cls]] .
  obtain b where b: "class_cachepivot (lk_class lk) = Some b" and ext: "heap_extends a b (rt_heap st) (lk_heap lk)"
    using lk(4) a by (auto simp: lookup_frame_def)
  have others: "receiver_ok env w c ?st \<and> rt_pivot ?st c \<noteq> Some b" if c: "c \<in> C" "c \<noteq> cls" for c
  proof -
    obtain k' a' where a': "rt_pivot st c = Some a'" and piv': "impcache_pivot_ok (re_universe env) k' (rt_heap st) a'"
      using receiver_pivot [OF rec [OF c(1)]] .
    have ne: "a' \<noteq> a" using ok c cls a a' by (metis inj_onD senders_ok_def)
    have less: "a' < length (heap_blocks (rt_heap st))" using piv' by (simp add: impcache_pivot_ok_def)
    have block: "heap_blocks (lk_heap lk) ! a' = heap_blocks (rt_heap st) ! a'"
      using ext ne less by (simp add: heap_extends_def)
    have "coherent_with (answer env w c) (re_universe env) (lookup_state_of c ?st)"
      using rec [OF c(1)] a' c(2) block ext lk(3)
      by - (rule coherent_with_cong [of _ _ "lookup_state_of c st" a'],
        simp_all add: receiver_ok_def lookup_state_of_def classes heap_extends_def)
    moreover have "b \<noteq> a'" using ext ne less by (auto simp: heap_extends_def)
    ultimately show ?thesis using rec [OF c(1)] a' c(2) block by (simp add: receiver_ok_def)
  qed
  have self: "receiver_ok env w cls ?st"
  proof -
    have "class_state (lk_class (lookup_state_of cls ?st)) = class_state (lk_class lk)"
      using lk(3,4) by (simp add: lookup_state_of_def lookup_frame_def classes)
    then have "coherent_with (answer env w cls) (re_universe env) (lookup_state_of cls ?st)"
      using lk(2) b by - (rule coherent_with_cong [of _ _ lk b], simp_all)
    moreover have "impcache_callback (heap_blocks (lk_heap lk) ! b) = mulle_objc_impcache_callback_normal"
      using ext rec [OF cls] a by (simp add: heap_extends_def receiver_ok_def)
    ultimately show ?thesis using set b by (simp add: receiver_ok_def)
  qed
  have inj: "inj_on (rt_pivot ?st) C"
  proof (rule inj_onI)
    fix x y assume xy: "x \<in> C" "y \<in> C" "rt_pivot ?st x = rt_pivot ?st y"
    have "rt_pivot st x = rt_pivot st y" if "x \<noteq> cls" "y \<noteq> cls" using xy that by simp
    moreover have "x = y" if "x = cls \<or> y = cls"
    proof (rule ccontr)
      assume "x \<noteq> y"
      with that xy others [of x] others [of y] b show False by (cases "x = cls") auto
    qed
    ultimately show "x = y" using ok xy(1,2) by (metis inj_onD senders_ok_def)
  qed
  have "senders_ok env w C ?st"
    using ok others self inj lk(3) same by (auto simp: senders_ok_def)
  then show ?thesis using that lk(1,3) by blast
qed

text \<open>The search that does not fail finds what the id stands for.\<close>

lemma search_nofail_resolves:
  assumes set: "lookup_setting env depth universe cls w" and same: "same_methods w w'"
    and u: "mulle_objc_uniqueid_is_sane u"
  obtains p w1 where "mulle_objc_class_search_method_nofail env depth (Suc rounds) cls u w' = run_return (p, w1)"
    "same_methods w w1" "resolve depth w cls u = Some (method_implementation (world_method w1 p))"
proof -
  have thread: "env_thread_registered env cls"
    using set by (auto simp: lookup_setting_def)
  obtain m e w1 where search:
      "mulle_objc_class_defaultsearch_method env depth (Suc rounds) (Some cls) u w' = run_return (m, e, w1)"
      "same_methods w w1"
      "case m of Some p \<Rightarrow> method_methodid (world_method w1 p) = u \<and>
           resolve depth w cls u = Some (method_implementation (world_method w1 p))
       | None \<Rightarrow> (\<exists>f. sc_forwardmethod (w_class w1 cls) = Some f \<and>
           resolve depth w cls u = Some (method_implementation (world_method w1 f)))"
    by (rule uncached_lookup [OF set same u])
  have "\<exists>p. mulle_objc_class_search_method_nofail env depth (Suc rounds) cls u w' = run_return (p, w1) \<and>
      resolve depth w cls u = Some (method_implementation (world_method w1 p))"
    using search(1,3) thread
    by (cases m) (auto simp: mulle_objc_class_search_method_nofail_def
        mulle_objc_class_get_forwardmethod_lazy_nofail_def mulle_objc_class_lazyget_forwardmethod_def)
  then show ?thesis using that search(2) by blast
qed

lemma supersearch_nofail_resolves:
  assumes set: "lookup_setting env depth universe cls w" and same: "same_methods w w'"
    and super: "env_lookup_super env superid = Some (m, c)" "mulle_objc_uniqueid_is_sane m" "c \<noteq> 0"
  obtains p w1 where "mulle_objc_class_supersearch_method_nofail env depth (Suc rounds) cls superid w' = run_return (p, w1)"
    "same_methods w w1" "super_resolve depth w cls m c = Some (method_implementation (world_method w1 p))"
proof -
  obtain r where r: "ranked w r" "r cls + 2 \<le> depth" using set by (auto simp: lookup_setting_def)
  have miss: "env_method_is_missing env w' cls m = (True, w')" and searchable: "searchable_world w' 0"
    using set searchable_same_methods [OF same] by (auto simp: lookup_setting_def)
  have cls: "w_class w' = w_class w" using same by (simp add: same_methods_def)
  have ready: "search_ready env w' cls m"
    using set super(2) by (simp add: search_ready_def lookup_setting_def
        mulle_objc_class_is_initializing_or_initialized_def cls c_defs)
  let ?inh = "sc_inheritance (w_class w cls)"
  let ?from = "visits_from w c (class_visits depth w cls ?inh)"
  obtain f where f: "sc_forwardmethod (w_class w cls) = Some f" "snd f < length (ml_methods (w_list w (fst f)))"
    and thread: "env_thread_registered env cls"
    using set by (auto simp: lookup_setting_def)
  have eqs: "class_visits depth w' cls ?inh = class_visits depth w cls ?inh" "method_in w' m = method_in w m"
    "lists_of_visits w' vs = lists_of_visits w vs" for vs
    using visits_same_methods [OF same] method_in_same_methods [OF same] lists_same_methods [OF same] by simp_all
  note start = search_method_super_start [OF ready super(3), of depth "Suc rounds" ?inh, unfolded
      super_first_round [OF searchable ranked_same_methods [OF same r(1)] r(2)] eqs cls]
  have forward: "mulle_objc_class_get_forwardmethod_lazy_nofail env depth (Suc rounds) cls m w' = run_return (f, w')"
    using f thread by (simp add: mulle_objc_class_get_forwardmethod_lazy_nofail_def
        mulle_objc_class_lazyget_forwardmethod_def cls)
  have nofail: "mulle_objc_class_supersearch_method_nofail env depth (Suc rounds) cls superid w' =
      (case ?from of [] \<Rightarrow> run_return (f, w')
       | v # rest \<Rightarrow> (case first_some (method_in w m) (lists_of_visits w rest) of
            Some (c', p) \<Rightarrow> run_return (p, world_mark_searched p w') | None \<Rightarrow> run_return (f, w')))"
    unfolding mulle_objc_class_supersearch_method_nofail_def super(1) option.case prod.case cls start
    using miss forward by (auto split: list.split option.split simp del: dropWhile_eq_Nil_conv search_method_retry.simps)
  have forwarded: "f = p \<Longrightarrow> method_implementation (world_method w f) = method_implementation (world_method w' p)" for p
    using imp_same_methods [OF same f(2)] by simp
  show ?thesis
  proof (cases ?from)
    case Nil
    then have "super_resolve depth w cls m c = Some (method_implementation (world_method w' f))"
      using f forwarded by (simp add: super_resolve_def del: dropWhile_eq_Nil_conv)
    then show ?thesis using that [OF _ same, of f] nofail Nil by (simp del: dropWhile_eq_Nil_conv)
  next
    case (Cons v rest)
    show ?thesis
    proof (cases "first_some (method_in w m) (lists_of_visits w rest)")
      case None
      then have "super_resolve depth w cls m c = Some (method_implementation (world_method w' f))"
        using f forwarded Cons by (simp add: super_resolve_def)
      then show ?thesis using that [OF _ same, of f] nofail Cons None by simp
    next
      case (Some x)
      obtain c' p where x: "x = (c', p)" by (cases x)
      have range: "snd p < length (ml_methods (w_list w (fst p)))"
        using first_method_range [of w m _ c' p] Some x by simp
      have same1: "same_methods w (world_mark_searched p w')"
        using same same_methods_mark same_methods_trans by blast
      have "super_resolve depth w cls m c = Some (method_implementation (world_method (world_mark_searched p w') p))"
        using Some x Cons imp_same_methods [OF same1 range] by (simp add: super_resolve_def)
      then show ?thesis using that [OF _ same1, of p] nofail Cons Some x by simp
    qed
  qed
qed

section \<open>Calls\<close>

text \<open>What a call function owes its caller: the implementation the id stands for, and the caches coherent.\<close>

definition answers ::
    "'imp runtime_env \<Rightarrow> 'imp search_world \<Rightarrow> nat set \<Rightarrow> nat \<Rightarrow> uint32 \<Rightarrow>
     ('imp \<times> 'imp runtime_state) guarded \<Rightarrow> bool" where
  "answers env w C cls u call \<longleftrightarrow>
     (\<exists>imp st'. call = Inr (imp, st') \<and> answer env w cls u = Some imp \<and> senders_ok env w C st')"

lemma answersI [intro]:
  "answer env w cls u = Some imp \<Longrightarrow> senders_ok env w C st \<Longrightarrow> answers env w C cls u (Inr (imp, st))"
  by (simp add: answers_def)

lemma refresh_method_answers:
  assumes ok: "senders_ok env w C st" and cls: "cls \<in> C" and u: "mulle_objc_uniqueid_is_sane u"
    and noid: "env_lookup_super (re_search env) u = None"
  shows "answers env w C cls u (refresh_method env cls u st)"
proof -
  obtain rounds where rounds: "re_rounds env = Suc rounds" using ok by (cases "re_rounds env") (auto simp: senders_ok_def)
  have "lookup_setting (re_search env) (re_depth env) (re_universe env) cls w" "same_methods w (rt_world st)"
    using ok cls by (auto simp: senders_ok_def receiver_ok_def)
  then obtain p w1 where search: "mulle_objc_class_search_method_nofail (re_search env) (re_depth env) (Suc rounds) cls u
        (rt_world st) = run_return (p, w1)" "same_methods w w1"
      "resolve (re_depth env) w cls u = Some (method_implementation (world_method w1 p))"
    using search_nofail_resolves [OF _ _ u] by metis
  then have imp: "answer env w cls u = Some (method_implementation (world_method w1 p))" by (simp add: answer_def noid)
  from fill_step [OF ok cls u search(2) imp] obtain lk where lk:
      "lookup_fill (re_universe env) p u ((lookup_state_of cls st)\<lparr> lk_world := w1 \<rparr>) = run_return lk"
      "lk_world lk = w1" "senders_ok env w C (with_lookup_state cls lk st)" .
  then show ?thesis
    using search(1) imp
    by (auto simp: refresh_method_def mulle_objc_class_refresh_method_nofail_def rounds answers_def)
qed

lemma refresh_supermethod_answers:
  assumes ok: "senders_ok env w C st" and cls: "cls \<in> C" and u: "mulle_objc_uniqueid_is_sane u"
    and super: "env_lookup_super (re_search env) u = Some (m, c)"
  shows "answers env w C cls u (refresh_supermethod env cls u st)"
proof -
  obtain rounds where rounds: "re_rounds env = Suc rounds" using ok by (cases "re_rounds env") (auto simp: senders_ok_def)
  have sane: "mulle_objc_uniqueid_is_sane m" "c \<noteq> 0" using ok super by (auto simp: senders_ok_def)
  have "lookup_setting (re_search env) (re_depth env) (re_universe env) cls w" "same_methods w (rt_world st)"
    using ok cls by (auto simp: senders_ok_def receiver_ok_def)
  then obtain p w1 where search: "mulle_objc_class_supersearch_method_nofail (re_search env) (re_depth env) (Suc rounds)
        cls u (rt_world st) = run_return (p, w1)" "same_methods w w1"
      "super_resolve (re_depth env) w cls m c = Some (method_implementation (world_method w1 p))"
    using supersearch_nofail_resolves [OF _ _ super sane] by metis
  then have imp: "answer env w cls u = Some (method_implementation (world_method w1 p))" by (simp add: answer_def super)
  from fill_step [OF ok cls u search(2) imp] obtain lk where lk:
      "lookup_fill (re_universe env) p u ((lookup_state_of cls st)\<lparr> lk_world := w1 \<rparr>) = run_return lk"
      "lk_world lk = w1" "senders_ok env w C (with_lookup_state cls lk st)" .
  then show ?thesis
    using search(1) imp
    by (auto simp: refresh_supermethod_def mulle_objc_class_refresh_supermethod_nofail_def rounds answers_def)
qed

text \<open>A loop that ends at the entry of the id or at a free one, and what is done at either.\<close>

lemma probe_then_refresh:
  assumes ok: "senders_ok env w C st" and cls: "cls \<in> C" and u: "mulle_objc_uniqueid_is_sane u"
    and miss: "answers env w C cls u refresh"
  shows "answers env w C cls u (u_bind (current_impcache st cls) (\<lambda>icache. u_bind (probe_impcache icache u x) (\<lambda>entry.
    if entry_key entry = u then u_bind (entry_imp entry) (\<lambda>imp. Inr (imp, st)) else refresh)))"
proof -
  obtain icache where icache: "current_impcache st cls = Inr icache"
    "\<And>x. \<exists>e. probe_impcache icache u x = Inr e \<and>
       (entry_key e = u \<and> (\<exists>imp. entry_imp e = Inr imp \<and> answer env w cls u = Some imp) \<or> entry_key e = 0)"
    using receiver_probes [OF ok cls u] by metis
  obtain e where "probe_impcache icache u x = Inr e"
      "entry_key e = u \<and> (\<exists>imp. entry_imp e = Inr imp \<and> answer env w cls u = Some imp) \<or> entry_key e = 0"
    using icache(2) by blast
  then show ?thesis using icache(1) miss ok sane_nonzero [OF u] by auto
qed

definition normal_functions :: "call_function set" where
  "normal_functions = {Object_callback_class, Object_callback_cache_collision, Object_callback_cache_miss}"

definition normal_superfunctions :: "supercall_function set" where
  "normal_superfunctions =
     {Object_callback_super, Object_callback_super_cache_collision, Object_callback_super_cache_miss}"

lemma run_call_function_answers:
  assumes ok: "senders_ok env w C st" and cls: "cls \<in> C" and u: "mulle_objc_uniqueid_is_sane u"
    and noid: "env_lookup_super (re_search env) u = None" and f: "f \<in> normal_functions"
  shows "answers env w C cls u (run_call_function setup env (Suc n) f cls u st)"
proof -
  note refresh = refresh_method_answers [OF ok cls u noid]
  obtain icache where icache: "current_impcache st cls = Inr icache" using receiver_probes [OF ok cls u] by metis
  show ?thesis
    using f probe_then_refresh [OF ok cls u refresh] refresh u
    by (auto simp: normal_functions_def mulle_objc_object_callback_class_get_implementation_def
        mulle_objc_object_callback_cache_collision_get_implementation_def
        mulle_objc_object_callback_cache_miss_get_implementation_def icache)
qed

lemma run_supercall_function_answers:
  assumes ok: "senders_ok env w C st" and cls: "cls \<in> C" and u: "mulle_objc_uniqueid_is_sane u"
    and super: "env_lookup_super (re_search env) u = Some (m, c)" and f: "f \<in> normal_superfunctions"
  shows "answers env w C cls u (run_supercall_function setup env (Suc n) f cls u st)"
proof -
  note refresh = refresh_supermethod_answers [OF ok cls u super]
  obtain icache where icache: "current_impcache st cls = Inr icache" using receiver_probes [OF ok cls u] by metis
  show ?thesis
    using f probe_then_refresh [OF ok cls u refresh] refresh u
    by (auto simp: normal_superfunctions_def mulle_objc_object_callback_super_get_implementation_def
        mulle_objc_object_callback_super_cache_collision_get_implementation_def
        mulle_objc_object_callback_super_cache_miss_get_implementation_def icache)
qed

lemma normal_callbacks [simp]:
  "callback_call mulle_objc_impcache_callback_normal \<in> normal_functions"
  "callback_call_cache_collision mulle_objc_impcache_callback_normal \<in> normal_functions"
  "callback_call_cache_miss mulle_objc_impcache_callback_normal \<in> normal_functions"
  "callback_supercall mulle_objc_impcache_callback_normal \<in> normal_superfunctions"
  "callback_supercall_cache_collision mulle_objc_impcache_callback_normal \<in> normal_superfunctions"
  "callback_supercall_cache_miss mulle_objc_impcache_callback_normal \<in> normal_superfunctions"
  by (simp_all add: mulle_objc_impcache_callback_normal_def normal_functions_def normal_superfunctions_def)

text \<open>The entry a call looks at has the implementation, or it names a function of the call vector.\<close>

lemma entry_then_call:
  assumes ok: "senders_ok env w C st" and cls: "mulle_objc_object_get_isa env obj \<in> C"
    and u: "mulle_objc_uniqueid_is_sane u" and noid: "env_lookup_super (re_search env) u = None"
    and entry: "\<exists>e. look = Inr e \<and> (entry_key e = u \<longrightarrow>
       (\<exists>imp. entry_imp e = Inr imp \<and> answer env w (mulle_objc_object_get_isa env obj) u = Some imp))"
    and callback: "\<And>e. g e \<in> normal_functions"
  shows "answers env w C (mulle_objc_object_get_isa env obj) u (u_bind look (\<lambda>entry.
    u_bind (if entry_key entry = u then u_bind (entry_imp entry) (\<lambda>imp. Inr (Target_implementation imp))
            else Inr (Target_callback (g entry))) (\<lambda>f. call_target setup env (Suc n) f obj u st)))"
proof -
  obtain e where e: "look = Inr e" "entry_key e = u \<longrightarrow>
       (\<exists>imp. entry_imp e = Inr imp \<and> answer env w (mulle_objc_object_get_isa env obj) u = Some imp)"
    using entry by blast
  show ?thesis
  proof (cases "entry_key e = u")
    case True
    then show ?thesis using e ok by (auto simp: call_target_def)
  next
    case False
    then show ?thesis using e(1) run_call_function_answers [OF ok cls u noid callback]
      by (simp add: call_target_def del: run_call_function.simps)
  qed
qed

lemma receiver_entries:
  assumes ok: "senders_ok env w C st" and cls: "cls \<in> C" and u: "mulle_objc_uniqueid_is_sane u"
  obtains icache where "current_impcache st cls = Inr icache"
    "impcache_callback icache = mulle_objc_impcache_callback_normal"
    "\<And>x. \<exists>e. probe_impcache icache u x = Inr e \<and>
       (entry_key e = u \<longrightarrow> (\<exists>imp. entry_imp e = Inr imp \<and> answer env w cls u = Some imp))"
    "\<exists>e. first_entry icache u = Inr e \<and>
       (entry_key e = u \<longrightarrow> (\<exists>imp. entry_imp e = Inr imp \<and> answer env w cls u = Some imp))"
  using receiver_probes [OF ok cls u] sane_nonzero [OF u] by metis

lemma unless_nil_answers:
  assumes "senders_ok env w C st" and "answers env w C cls u call"
  shows "\<exists>st'. unless_nil obj st call = Inr (if obj = 0 then None else answer env w cls u, st') \<and> senders_ok env w C st'"
  using assms by (auto simp: unless_nil_def answers_def)

text \<open>All of the calls for an ordinary message.\<close>

definition message_calls ::
    "'imp class_setup \<Rightarrow> 'imp runtime_env \<Rightarrow> nat \<Rightarrow>
     (uintptr \<Rightarrow> uint32 \<Rightarrow> 'imp runtime_state \<Rightarrow> ('imp option \<times> 'imp runtime_state) guarded) list" where
  "message_calls setup env n =
     [mulle_objc_object_call setup env n, mulle_objc_object_call_inline_minimal setup env n,
      mulle_objc_object_call_inline_partial setup env n, mulle_objc_object_call_inline setup env n,
      mulle_objc_object_call_inline_full setup env n, mulle_objc_object_call_inline_variable setup env n,
      mulle_objc_object_call_variable_inline setup env n, mulle_objc_object_call_inline_full_variable setup env n,
      mulle_objc_object_call_variable setup env n]"

lemmas message_call_defs =
  message_calls_def mulle_objc_object_call_def mulle_objc_object_call_inline_minimal_def
  mulle_objc_object_call_nonnil_def mulle_objc_object_get_imp_inline_full_no_fcs_def
  mulle_objc_object_call_inline_partial_def mulle_objc_object_call_inline_def
  mulle_objc_object_call_inline_nonnil_def mulle_objc_object_call_inline_full_def
  mulle_objc_object_call_inline_full_nonnil_def mulle_objc_object_call_inline_variable_def
  mulle_objc_object_call_variable_inline_def mulle_objc_object_call_inline_full_variable_def
  mulle_objc_object_call_variable_def

definition supercalls ::
    "'imp class_setup \<Rightarrow> 'imp runtime_env \<Rightarrow> nat \<Rightarrow>
     (uintptr \<Rightarrow> uint32 \<Rightarrow> uint32 \<Rightarrow> 'imp runtime_state \<Rightarrow> ('imp option \<times> 'imp runtime_state) guarded) list" where
  "supercalls setup env n =
     [mulle_objc_object_call_super setup env n, mulle_objc_object_call_super_inline_partial setup env n,
      mulle_objc_object_call_super_inline setup env n, mulle_objc_object_call_super_inline_full setup env n]"

lemmas supercall_defs =
  supercalls_def mulle_objc_object_call_super_def mulle_objc_object_call_super_inline_partial_def
  mulle_objc_object_call_super_inline_def mulle_objc_object_call_super_inline_full_def

section \<open>Messages\<close>

text \<open>C8: A message to an object of a ready class runs the implementation that the uncached search of the
  class finds, the forward method's if there is none, and a message to nil runs nothing, whichever of
  the nine calls is compiled for it: out of line, through the call vector only, with a look at the
  first entry or at the whole cache. The caches of all classes stay coherent.\<close>

theorem every_call_runs_the_method:
  assumes ok: "senders_ok env w C st" and cls: "mulle_objc_object_get_isa env obj \<in> C"
    and u: "mulle_objc_uniqueid_is_sane methodid" and noid: "env_lookup_super (re_search env) methodid = None"
    and call: "call \<in> set (message_calls setup env (Suc n))"
  shows "\<exists>st'. call obj methodid st =
    Inr (if obj = 0 then None else resolve (re_depth env) w (mulle_objc_object_get_isa env obj) methodid, st') \<and>
    senders_ok env w C st'"
proof -
  let ?cls = "mulle_objc_object_get_isa env obj"
  obtain icache where icache: "current_impcache st ?cls = Inr icache"
      "impcache_callback icache = mulle_objc_impcache_callback_normal"
      "\<And>x. \<exists>e. probe_impcache icache methodid x = Inr e \<and>
        (entry_key e = methodid \<longrightarrow> (\<exists>imp. entry_imp e = Inr imp \<and> answer env w ?cls methodid = Some imp))"
      "\<exists>e. first_entry icache methodid = Inr e \<and>
        (entry_key e = methodid \<longrightarrow> (\<exists>imp. entry_imp e = Inr imp \<and> answer env w ?cls methodid = Some imp))"
    using receiver_entries [OF ok cls u] by metis
  have nz: "methodid \<noteq> 0" using sane_nonzero [OF u] .
  let ?look = "\<lambda>look g. u_bind look (\<lambda>entry.
    u_bind (if entry_key entry = methodid then u_bind (entry_imp entry) (\<lambda>imp. Inr (Target_implementation imp))
            else Inr (Target_callback (g entry)))
      (\<lambda>f. call_target setup env (Suc n) f obj methodid st))"
  let ?miss = "\<lambda>entry :: 'a mulle_objc_cacheentry. callback_call_cache_miss (impcache_callback icache)"
  let ?collision = "\<lambda>entry :: 'a mulle_objc_cacheentry. callback_call_cache_collision (impcache_callback icache)"
  let ?either = "\<lambda>entry :: 'a mulle_objc_cacheentry. if entry_key entry \<noteq> 0 then ?collision entry else ?miss entry"
  let ?full = "?look (probe_impcache icache methodid methodid) ?miss"
  let ?inline = "?look (first_entry icache methodid) ?collision"
  let ?variable = "?look (first_entry icache methodid) ?either"
  let ?vector = "run_call_function setup env (Suc n) (callback_call (impcache_callback icache)) ?cls methodid st"
  have "answers env w C ?cls methodid m" if "m \<in> {?full, ?inline, ?variable, ?vector}" for m
    using that entry_then_call [OF ok cls u noid icache(3), of ?miss]
      entry_then_call [OF ok cls u noid icache(4), of ?collision]
      entry_then_call [OF ok cls u noid icache(4), of ?either]
      run_call_function_answers [OF ok cls u noid, of "callback_call (impcache_callback icache)"]
    by (elim insertE emptyE) (simp_all add: icache(2))
  moreover have "\<exists>m \<in> {?full, ?inline, ?variable, ?vector}. call obj methodid st = unless_nil obj st m"
    using call by (auto simp: message_call_defs icache(1) nz u_bind_assoc Let_def simp del: run_call_function.simps)
  ultimately obtain m where "answers env w C ?cls methodid m" "call obj methodid st = unless_nil obj st m" by blast
  moreover have "answer env w ?cls methodid = resolve (re_depth env) w ?cls methodid" by (simp add: answer_def noid)
  ultimately show ?thesis using unless_nil_answers [OF ok] by metis
qed

text \<open>C9: A call of super from a class runs the first implementation behind that class in the order of the
  search, the forward method's if there is none, whichever of the four calls is compiled for it, though
  super ids share the cache with method ids. The caches of all classes stay coherent.\<close>

theorem every_supercall_runs_the_method_behind:
  assumes ok: "senders_ok env w C st" and cls: "mulle_objc_object_get_isa env obj \<in> C"
    and sane: "mulle_objc_uniqueid_is_sane methodid" "mulle_objc_uniqueid_is_sane superid"
    and super: "env_lookup_super (re_search env) superid = Some (m, c)"
    and call: "call \<in> set (supercalls setup env (Suc n))"
  shows "\<exists>st'. call obj methodid superid st =
    Inr (if obj = 0 then None else super_resolve (re_depth env) w (mulle_objc_object_get_isa env obj) m c, st') \<and>
    senders_ok env w C st'"
proof -
  let ?cls = "mulle_objc_object_get_isa env obj"
  obtain icache where icache: "current_impcache st ?cls = Inr icache"
      "impcache_callback icache = mulle_objc_impcache_callback_normal"
      "\<And>x. \<exists>e. probe_impcache icache superid x = Inr e \<and>
        (entry_key e = superid \<longrightarrow> (\<exists>imp. entry_imp e = Inr imp \<and> answer env w ?cls superid = Some imp))"
      "\<exists>e. first_entry icache superid = Inr e \<and>
        (entry_key e = superid \<longrightarrow> (\<exists>imp. entry_imp e = Inr imp \<and> answer env w ?cls superid = Some imp))"
    using receiver_entries [OF ok cls sane(2)] by metis
  let ?look = "\<lambda>look g. u_bind look (\<lambda>entry.
    if entry_key entry = superid then u_bind (entry_imp entry) (\<lambda>imp. Inr (imp, st))
    else run_supercall_function setup env (Suc n) (g entry) ?cls superid st)"
  let ?miss = "\<lambda>entry :: 'a mulle_objc_cacheentry. callback_supercall_cache_miss (impcache_callback icache)"
  let ?either = "\<lambda>entry :: 'a mulle_objc_cacheentry.
    if entry_key entry \<noteq> 0 then callback_supercall_cache_collision (impcache_callback icache) else ?miss entry"
  let ?full = "?look (probe_impcache icache superid superid) ?miss"
  let ?inline = "?look (first_entry icache superid) ?either"
  let ?vector = "run_supercall_function setup env (Suc n) (callback_supercall (impcache_callback icache)) ?cls superid st"
  have run: "answers env w C ?cls superid (run_supercall_function setup env (Suc n) f ?cls superid st)"
    if "f \<in> normal_superfunctions" for f
    by (rule run_supercall_function_answers [OF ok cls sane(2) super that])
  have look: "answers env w C ?cls superid (?look l g)"
    if "\<exists>e. l = Inr e \<and>
        (entry_key e = superid \<longrightarrow> (\<exists>imp. entry_imp e = Inr imp \<and> answer env w ?cls superid = Some imp))"
      and "\<And>e. g e \<in> normal_superfunctions" for l g
    using that run ok by (auto simp del: run_supercall_function.simps)
  have "answers env w C ?cls superid m" if "m \<in> {?full, ?inline, ?vector}" for m
    using that look [OF icache(3), of ?miss] look [OF icache(4), of ?either] run [of "callback_supercall (impcache_callback icache)"]
    by (elim insertE emptyE) (simp_all add: icache(2) del: run_supercall_function.simps)
  moreover have "\<exists>m \<in> {?full, ?inline, ?vector}. call obj methodid superid st = unless_nil obj st m"
    using call sane(1) by (auto simp: supercall_defs icache(1) Let_def simp del: run_supercall_function.simps)
  ultimately obtain x where "answers env w C ?cls superid x" "call obj methodid superid st = unless_nil obj st x" by blast
  moreover have "answer env w ?cls superid = super_resolve (re_depth env) w ?cls m c" by (simp add: answer_def super)
  ultimately show ?thesis using unless_nil_answers [OF ok] by metis
qed

section \<open>Many objects\<close>

lemma with_lookup_state_same [simp]: "with_lookup_state cls (lookup_state_of cls st) st = st"
  by (simp add: with_lookup_state_def lookup_state_of_def set_world_def)

lemma lookup_implementation_answers:
  assumes ok: "senders_ok env w C st" and cls: "cls \<in> C" and u: "mulle_objc_uniqueid_is_sane u"
    and noid: "env_lookup_super (re_search env) u = None"
  obtains imp lk where "mulle_objc_class_lookup_implementation (re_search env) (re_depth env) (re_rounds env)
      (re_universe env) cls u (lookup_state_of cls st) = run_return (Some imp, lk)"
    "resolve (re_depth env) w cls u = Some imp" "senders_ok env w C (with_lookup_state cls lk st)"
proof -
  obtain rounds where rounds: "re_rounds env = Suc rounds" using ok by (cases "re_rounds env") (auto simp: senders_ok_def)
  have set: "lookup_setting (re_search env) (re_depth env) (re_universe env) cls w" and same: "same_methods w (rt_world st)"
    and coh: "coherent_with (answer env w cls) (re_universe env) (lookup_state_of cls st)"
    using ok cls by (auto simp: senders_ok_def receiver_ok_def)
  have answer: "answer env w cls u = resolve (re_depth env) w cls u" by (simp add: answer_def noid)
  have bits: "lookup_lazyforward AND lookup_noprobe = 0" "lookup_lazyforward AND lookup_noforward = 0"
    "lookup_lazyforward AND lookup_lazyforward \<noteq> 0" "lookup_lazyforward AND lookup_nofail = 0"
    "lookup_lazyforward AND lookup_nofill = 0"
    by (simp_all add: c_defs)
  obtain v where v: "mulle_objc_class_probe_implementation (lookup_state_of cls st) u = run_return v"
      "v \<in> {None, resolve (re_depth env) w cls u}"
    using coh u probe_implementation_eq answer unfolding coherent_with_def by metis
  show ?thesis
  proof (cases v)
    case (Some imp)
    then have imp: "mulle_objc_class_probe_implementation (lookup_state_of cls st) u = run_return (Some imp)"
        "resolve (re_depth env) w cls u = Some imp"
      using v by auto
    show ?thesis
      by (rule that [of imp "lookup_state_of cls st"])
        (use imp ok u bits in \<open>simp_all add: mulle_objc_class_lookup_implementation_def
          mulle_objc_class_lookup_implementation_mode_def\<close>)
  next
    case None
    obtain m e w1 where search: "mulle_objc_class_defaultsearch_method (re_search env) (re_depth env) (Suc rounds) (Some cls)
          u (rt_world st) = run_return (m, e, w1)" "same_methods w w1"
        "case m of Some p \<Rightarrow> method_methodid (world_method w1 p) = u \<and>
             resolve (re_depth env) w cls u = Some (method_implementation (world_method w1 p))
         | None \<Rightarrow> (\<exists>f. sc_forwardmethod (w_class w1 cls) = Some f \<and>
             resolve (re_depth env) w cls u = Some (method_implementation (world_method w1 f)))"
      by (rule uncached_lookup [OF set same u])
    obtain p where p: "resolve (re_depth env) w cls u = Some (method_implementation (world_method w1 p))"
        "m = Some p \<or> m = None \<and> sc_forwardmethod (w_class w1 cls) = Some p"
      using search(3) by (cases m) auto
    obtain lk where lk: "lookup_fill (re_universe env) p u ((lookup_state_of cls st)\<lparr> lk_world := w1 \<rparr>) = run_return lk"
        "lk_world lk = w1" "senders_ok env w C (with_lookup_state cls lk st)"
      using fill_step [OF ok cls u search(2), of p] p(1) answer by metis
    have "env_thread_registered (re_search env) cls" using set by (simp add: lookup_setting_def)
    then have "mulle_objc_class_lookup_implementation (re_search env) (re_depth env) (re_rounds env) (re_universe env)
        cls u (lookup_state_of cls st) = run_return (Some (method_implementation (world_method w1 p)), lk)"
      using v(1) None u search(1) p(2) lk(1) bits rounds
      by (auto simp: mulle_objc_class_lookup_implementation_def mulle_objc_class_lookup_implementation_mode_def
          mulle_objc_class_lazyget_forwardmethod_def)
    then show ?thesis using that p(1) lk(3) by blast
  qed
qed

text \<open>The local table of implementations: what it has for a class is the class's implementation.\<close>

definition table_ok ::
    "'imp runtime_env \<Rightarrow> 'imp search_world \<Rightarrow> uint32 \<Rightarrow> nat option list \<Rightarrow> 'imp option list \<Rightarrow> bool" where
  "table_ok env w methodid last_isa last_imp \<longleftrightarrow> length last_isa = 16 \<and> length last_imp = 16 \<and>
     (\<forall>i < 16. \<forall>cls. last_isa ! i = Some cls \<longrightarrow>
        (\<exists>imp. last_imp ! i = Some imp \<and> resolve (re_depth env) w cls methodid = Some imp))"

lemma isa_slot_less [simp]: "isa_slot address < 16"
proof -
  have "drop_bit 8 address AND 15 \<le> (15 :: uintptr)" by (rule word_and_le1)
  then show ?thesis by (simp add: isa_slot_def word_le_nat_alt)
qed

lemma table_ok_update:
  assumes "table_ok env w methodid last_isa last_imp" and "i < 16" and "resolve (re_depth env) w cls methodid = Some imp"
  shows "table_ok env w methodid (last_isa[i := Some cls]) (last_imp[i := Some imp])"
  using assms by (auto simp: table_ok_def nth_list_update)

lemma objects_call_loop_correct:
  assumes invoke: "\<And>imp p st. senders_ok env w C st \<Longrightarrow> \<exists>st'. invoke imp p st = Inr st' \<and> senders_ok env w C st'"
    and u: "mulle_objc_uniqueid_is_sane methodid" and noid: "env_lookup_super (re_search env) methodid = None"
  shows "senders_ok env w C st \<Longrightarrow> table_ok env w methodid last_isa last_imp \<Longrightarrow>
    \<forall>p \<in> set objects. p \<noteq> 0 \<longrightarrow> mulle_objc_object_get_isa env p \<in> C \<Longrightarrow>
    \<exists>calls st'. objects_call_loop invoke env methodid objects last_isa last_imp st = Inr (calls, st') \<and>
      map (\<lambda>(p, imp). (p, Some imp)) calls = map (\<lambda>p. (p, resolve (re_depth env) w (mulle_objc_object_get_isa env p) methodid))
        (filter (\<lambda>p. p \<noteq> 0) objects) \<and> senders_ok env w C st'"
proof (induction objects arbitrary: last_isa last_imp st)
  case (Cons p objects)
  show ?case
  proof (cases "p = 0")
    case False
    let ?isa = "mulle_objc_object_get_isa env p"
    let ?i = "isa_slot (re_address env ?isa)"
    have isa: "?isa \<in> C" using Cons.prems(3) False by simp
    obtain last_isa' last_imp' imp st1 where look:
        "(if last_isa ! ?i \<noteq> Some ?isa
          then u_bind (of_c_run (mulle_objc_class_lookup_implementation (re_search env) (re_depth env)
                   (re_rounds env) (re_universe env) ?isa methodid (lookup_state_of ?isa st))) (\<lambda>(imp, lk).
                 u_assert (imp \<noteq> None)
                   (Inr (last_isa[?i := Some ?isa], last_imp[?i := imp], with_lookup_state ?isa lk st)))
          else Inr (last_isa, last_imp, st)) = Inr (last_isa', last_imp', st1)"
        "table_ok env w methodid last_isa' last_imp'" "senders_ok env w C st1"
        "last_imp' ! ?i = Some imp" "resolve (re_depth env) w ?isa methodid = Some imp"
    proof (cases "last_isa ! ?i = Some ?isa")
      case True
      then obtain imp where "last_imp ! ?i = Some imp" "resolve (re_depth env) w ?isa methodid = Some imp"
        using Cons.prems(2) isa_slot_less [of "re_address env ?isa"] unfolding table_ok_def by blast
      then show ?thesis using that [of last_isa last_imp st imp] True Cons.prems(1,2) by simp
    next
      case False
      obtain imp lk where lk: "mulle_objc_class_lookup_implementation (re_search env) (re_depth env) (re_rounds env)
            (re_universe env) ?isa methodid (lookup_state_of ?isa st) = run_return (Some imp, lk)"
          "resolve (re_depth env) w ?isa methodid = Some imp" "senders_ok env w C (with_lookup_state ?isa lk st)"
        using lookup_implementation_answers [OF Cons.prems(1) isa u noid] .
      have "length last_imp = 16" using Cons.prems(2) by (simp add: table_ok_def)
      then show ?thesis
        using that [of "last_isa[?i := Some ?isa]" "last_imp[?i := Some imp]" "with_lookup_state ?isa lk st" imp]
          False lk table_ok_update [OF Cons.prems(2) _ lk(2), of ?i] by simp
    qed
    obtain st2 where st2: "invoke imp p st1 = Inr st2" "senders_ok env w C st2" using invoke [OF look(3)] by blast
    obtain calls st3 where "objects_call_loop invoke env methodid objects last_isa' last_imp' st2 = Inr (calls, st3)"
        "map (\<lambda>(p, imp). (p, Some imp)) calls = map (\<lambda>p. (p, resolve (re_depth env) w (mulle_objc_object_get_isa env p) methodid))
          (filter (\<lambda>p. p \<noteq> 0) objects)" "senders_ok env w C st3"
      using Cons.IH [OF st2(2) look(2)] Cons.prems(3) by auto
    then show ?thesis
      using False look(1,4,5) st2(1) by (simp add: Let_def)
  qed (use Cons in simp)
qed simp

text \<open>C14: A call of many objects calls every object that is not nil, in order, with the implementation that
  the search finds for its class, whatever the addresses of the classes are: the table of sixteen
  implementations it keeps by four bits of the address never hands out that of another class. The
  implementations that run may do anything that leaves the method caches coherent.\<close>

theorem objects_call_reaches_every_object:
  assumes "senders_ok env w C st" and "\<forall>p \<in> set objects. p \<noteq> 0 \<longrightarrow> mulle_objc_object_get_isa env p \<in> C"
    and "mulle_objc_uniqueid_is_sane methodid" and "env_lookup_super (re_search env) methodid = None"
    and "\<And>imp p st. senders_ok env w C st \<Longrightarrow> \<exists>st'. invoke imp p st = Inr st' \<and> senders_ok env w C st'"
  shows "\<exists>calls st'. mulle_objc_objects_call invoke env objects methodid st = Inr (calls, st') \<and>
    map (\<lambda>(p, imp). (p, Some imp)) calls = map (\<lambda>p. (p, resolve (re_depth env) w (mulle_objc_object_get_isa env p) methodid))
      (filter (\<lambda>p. p \<noteq> 0) objects) \<and> senders_ok env w C st'"
proof -
  have "table_ok env w methodid (replicate 16 None) (replicate 16 None)" by (simp add: table_ok_def)
  from objects_call_loop_correct [OF assms(5,3,4,1) this assms(2)] assms(3) show ?thesis
    by (simp add: mulle_objc_objects_call_def)
qed

end
