(* ===== verification/Class_Members.thy ===== *)
theory Class_Members
  imports Classpair
begin

text \<open>
  What is added to a class besides methods: property lists of an infraclass with the accessor
  descriptors of dynamic properties (\<open>mulle-objc-infraclass.c\<close>), class property lists
  (\<open>mulle-objc-metaclass.c\<close>), and the categories, mixins and protocols of a class pair
  (\<open>mulle-objc-classpair.c\<close>); then the searches and walks over these that follow the superclasses.
\<close>

section \<open>Property lists\<close>

definition property_dynamic :: uint32 where [c_defs]: "property_dynamic = 0x00400"

definition methodfamily_getter :: uint32 where [c_defs]: "methodfamily_getter = 32"
definition methodfamily_setter :: uint32 where [c_defs]: "methodfamily_setter = 33"
definition methodfamily_adder :: uint32 where [c_defs]: "methodfamily_adder = 34"
definition methodfamily_remover :: uint32 where [c_defs]: "methodfamily_remover = 35"

text \<open>\<open>%d\<close> of a number that is not negative.\<close>

fun c_decimal :: "nat \<Rightarrow> string" where
  "c_decimal n = (if n < 10 then [char_of (48 + n)] else c_decimal (n div 10) @ [char_of (48 + n mod 10)])"

declare c_decimal.simps [simp del]

definition c_capitalized :: "string \<Rightarrow> string" where
  "c_capitalized name =
     (case name of [] \<Rightarrow> []
      | c # s \<Rightarrow> (if 97 \<le> (of_char c :: nat) \<and> (of_char c :: nat) \<le> 122 then char_of (of_char c - 32 :: nat) else c) # s)"

text \<open>
  \<open>_mulle_objc_universe_set_setter_name_signature\<close>: name and signature of an accessor with
  one argument. \<open>signature\<close> is the rest of the property signature, \<open>s_len\<close> the length of its
  type. The size of a type that cannot be parsed stays uninitialized.
\<close>

definition mulle_objc_universe_set_setter_name_signature ::
    "'imp universe_env \<Rightarrow> mulle_objc_descriptor \<Rightarrow> string \<Rightarrow> string \<Rightarrow> string \<Rightarrow> nat \<Rightarrow> mulle_objc_descriptor guarded" where
  "mulle_objc_universe_set_setter_name_signature env accessor prefix name signature s_len =
     u_assert (desc_bits accessor \<noteq> 0 \<and> desc_methodid accessor \<noteq> 0)
      (let s = prefix @ c_capitalized name @ '':'' in
       u_assert (fst (mulle_objc_uniqueid_from_string (ue_fnv1a_32 env) (Some s)) = desc_methodid accessor)
        (u_bind (of_c_result (mulle_objc_signature_supply_size_and_alignment (ue_align env) (Some signature))) (\<lambda>r.
          case r of
            None \<Rightarrow> Inl (Fault Uninitialized)
          | Some (_, sz, _) \<Rightarrow>
              Inr (accessor\<lparr> desc_name := s,
                desc_signature := ''v'' @ c_decimal (sz + 16) @ ''@0:8'' @ take s_len signature @ ''16'' \<rparr>))))"

definition accessor_descriptor :: "uint32 \<Rightarrow> uint32 \<Rightarrow> mulle_objc_descriptor" where
  "accessor_descriptor family methodid =
     \<lparr> desc_methodid = methodid, desc_signature = [], desc_name = [], desc_bits = push_bit 16 family \<rparr>"

text \<open>
  The descriptor of the getter carries the id and the name of the property, also when the
  property names another getter. A signature that does not fit the buffer aborts.
\<close>

definition getter_descriptor :: "mulle_objc_property \<Rightarrow> nat \<Rightarrow> mulle_objc_descriptor" where
  "getter_descriptor property s_len =
     (accessor_descriptor methodfamily_getter (property_propertyid property))\<lparr>
        desc_name := property_name property,
        desc_signature := take s_len (property_signature property) @ ''16@0:8'' \<rparr>"

definition register_setter_like ::
    "'imp universe_env \<Rightarrow> mulle_objc_property \<Rightarrow> nat \<Rightarrow> uint32 \<Rightarrow> string \<Rightarrow> uint32 \<Rightarrow> bool \<Rightarrow>
     'imp universe \<Rightarrow> 'imp universe guarded" where
  "register_setter_like env property s_len family prefix methodid wanted u =
     (if \<not> wanted then Inr u
      else u_bind (mulle_objc_universe_set_setter_name_signature env (accessor_descriptor family methodid)
                     prefix (property_name property) (property_signature property) s_len) (\<lambda>desc.
        u_bind (mulle_objc_universe_register_descriptor_nonnull env u desc) (\<lambda>(_, u'). Inr u')))"

definition mulle_objc_universe_register_descriptors_for_property ::
    "'imp universe_env \<Rightarrow> mulle_objc_property \<Rightarrow> bool \<Rightarrow> bool \<Rightarrow> bool \<Rightarrow> bool \<Rightarrow> 'imp universe \<Rightarrow> 'imp universe guarded" where
  "mulle_objc_universe_register_descriptors_for_property env property getter setter adder remover u =
     (let s_len = length (takeWhile (\<lambda>c. c \<noteq> CHR '','') (property_signature property)) in
      u_bind
       (if \<not> getter then Inr u
        else if s_len + 44 > 512 then Inl (Fault Aborted)
        else u_bind (mulle_objc_universe_register_descriptor_nonnull env u (getter_descriptor property s_len))
               (\<lambda>(_, u'). Inr u')) (\<lambda>u1.
      u_bind (register_setter_like env property s_len methodfamily_setter ''set'' (property_setter property) setter u1) (\<lambda>u2.
      u_bind (register_setter_like env property s_len methodfamily_adder ''addTo'' (property_adder property) adder u2) (\<lambda>u3.
      register_setter_like env property s_len methodfamily_remover ''removeFrom'' (property_remover property) remover u3))))"

definition register_dynamic_property ::
    "'imp universe_env \<Rightarrow> mulle_objc_property \<Rightarrow> 'imp universe \<Rightarrow> 'imp universe guarded" where
  "register_dynamic_property env property u =
     (if property_bits property AND property_dynamic = 0 then Inr u
      else
        let missing = (\<lambda>methodid. mulle_objc_universe_lookup_descriptor u methodid = None);
            getter = missing (property_getter property);
            setter = (property_setter property \<noteq> 0 \<and> missing (property_setter property));
            adder = (property_adder property \<noteq> 0 \<and> missing (property_adder property));
            remover = (property_remover property \<noteq> 0 \<and> missing (property_remover property))
        in if getter \<or> setter \<or> adder \<or> remover
           then mulle_objc_universe_register_descriptors_for_property env property getter setter adder remover u
           else Inr u)"

definition register_accessorid ::
    "'imp universe_env \<Rightarrow> uint32 \<Rightarrow> uint32 \<Rightarrow> 'imp universe \<Rightarrow> 'imp universe guarded" where
  "register_accessorid env propertyid methodid u =
     (if methodid = 0 then Inr u
      else mulle_objc_universe_register_propertyid_for_methodid_nofail env u propertyid methodid)"

text \<open>
  The state bit is set at most once per list; setting it again would change nothing. The getter is
  registered whatever it is.
\<close>

definition register_property ::
    "'imp universe_env \<Rightarrow> nat \<Rightarrow> mulle_objc_property \<Rightarrow> 'imp universe \<Rightarrow> 'imp universe guarded" where
  "register_property env infra property u =
     u_bind (if mulle_objc_property_is_clearable property
             then mulle_objc_class_set_state_bit infra CLASS_STATE_HAS_CLEARABLE_PROPERTY u else Inr u) (\<lambda>u1.
     u_bind (register_dynamic_property env property u1) (\<lambda>u2.
     u_bind (mulle_objc_universe_register_propertyid_for_methodid_nofail env u2
               (property_propertyid property) (property_getter property)) (\<lambda>u3.
     u_bind (register_accessorid env (property_propertyid property) (property_setter property) u3) (\<lambda>u4.
     u_bind (register_accessorid env (property_propertyid property) (property_adder property) u4) (\<lambda>u5.
     register_accessorid env (property_propertyid property) (property_remover property) u5)))))"

fun register_properties ::
    "'imp universe_env \<Rightarrow> nat \<Rightarrow> mulle_objc_property list \<Rightarrow> uint32 \<Rightarrow> 'imp universe \<Rightarrow>
     (errno option \<times> 'imp universe) guarded" where
  "register_properties env infra [] lastid u = Inr (None, u)"
| "register_properties env infra (property # properties) lastid u =
     u_assert (mulle_objc_uniqueid_is_sane (property_propertyid property))
      (if lastid > property_propertyid property then Inr (Some EDOM, u)
       else u_bind (register_property env infra property u) (\<lambda>u'.
         register_properties env infra properties (property_propertyid property) u'))"

definition mulle_objc_infraclass_add_propertylist ::
    "'imp universe_env \<Rightarrow> nat \<Rightarrow> mulle_objc_property list option \<Rightarrow> 'imp universe \<Rightarrow>
     (errno option \<times> 'imp universe) guarded" where
  "mulle_objc_infraclass_add_propertylist env infra list0 u =
     (case list0 of
        None \<Rightarrow>
          Inr (None, if class_propertylists (u_class u infra) \<noteq> [] then u
                     else update_class infra (class_propertylists_update (\<lambda>lists. lists @ [[]])) u)
      | Some properties \<Rightarrow>
          u_bind (register_properties env infra properties 0 u) (\<lambda>(e, u').
            Inr (e, if e = None
                    then update_class infra (class_propertylists_update (\<lambda>lists. lists @ [properties])) u'
                    else u')))"

definition mulle_objc_infraclass_add_propertylist_nofail ::
    "'imp universe_env \<Rightarrow> nat \<Rightarrow> mulle_objc_property list option \<Rightarrow> 'imp universe \<Rightarrow> 'imp universe guarded" where
  "mulle_objc_infraclass_add_propertylist_nofail env infra list0 u =
     u_bind (mulle_objc_infraclass_add_propertylist env infra list0 u) (\<lambda>(e, u').
       case e of Some e \<Rightarrow> Inl (Fail_errno e) | None \<Rightarrow> Inr u')"

fun propertyids_ascend :: "mulle_objc_property list \<Rightarrow> uint32 \<Rightarrow> bool" where
  "propertyids_ascend [] lastid = True"
| "propertyids_ascend (property # properties) lastid \<longleftrightarrow>
     \<not> lastid > property_propertyid property \<and> propertyids_ascend properties (property_propertyid property)"

definition mulle_objc_metaclass_add_propertylist ::
    "nat \<Rightarrow> mulle_objc_property list option \<Rightarrow> 'imp universe \<Rightarrow> errno option \<times> 'imp universe" where
  "mulle_objc_metaclass_add_propertylist meta list0 u =
     (case list0 of
        None \<Rightarrow> (None, u)
      | Some properties \<Rightarrow>
          if \<not> propertyids_ascend properties 0 then (Some EDOM, u)
          else (None, update_class meta (class_propertylists_update (\<lambda>lists. lists @ [properties])) u))"

definition mulle_objc_metaclass_add_propertylist_nofail ::
    "nat \<Rightarrow> mulle_objc_property list option \<Rightarrow> 'imp universe \<Rightarrow> 'imp universe guarded" where
  "mulle_objc_metaclass_add_propertylist_nofail meta list0 u =
     (case mulle_objc_metaclass_add_propertylist meta list0 u of
        (Some e, _) \<Rightarrow> Inl (Fail_errno e) | (None, u') \<Rightarrow> Inr u')"

section \<open>Categories of a pair\<close>

text \<open>
  \<open>_mulle_objc_classpair_add_uniqueidarray_ids\<close>: a new array replaces the old one by compare and
  swap; under the lock of the wait queues nobody else changes it.
\<close>

definition mulle_objc_classpair_has_categoryid :: "'imp universe \<Rightarrow> nat \<Rightarrow> uint32 \<Rightarrow> bool c_result" where
  "mulle_objc_classpair_has_categoryid u pair categoryid =
     mulle_objc_uniqueidarray_search (pair_categoryids (u_pair u pair)) categoryid"

definition mulle_objc_classpair_has_protocolid :: "'imp universe \<Rightarrow> nat \<Rightarrow> uint32 \<Rightarrow> bool c_result" where
  "mulle_objc_classpair_has_protocolid u pair protocolid =
     mulle_objc_uniqueidarray_search (pair_protocolids (u_pair u pair)) protocolid"

definition mulle_objc_classpair_add_categoryids ::
    "'imp universe_env \<Rightarrow> nat \<Rightarrow> uint32 list \<Rightarrow> 'imp universe \<Rightarrow> 'imp universe" where
  "mulle_objc_classpair_add_categoryids env pair ids u =
     update_pair pair (pair_categoryids_update (\<lambda>p.
       mulle_objc_uniqueidarray_by_adding_ids (ue_sort_ids env) p ids True)) u"

definition mulle_objc_classpair_add_protocolids ::
    "'imp universe_env \<Rightarrow> nat \<Rightarrow> uint32 list \<Rightarrow> 'imp universe \<Rightarrow> 'imp universe" where
  "mulle_objc_classpair_add_protocolids env pair ids u =
     update_pair pair (pair_protocolids_update (\<lambda>p.
       mulle_objc_uniqueidarray_by_adding_ids (ue_sort_ids env) p ids True)) u"

definition mulle_objc_classpair_add_categoryid ::
    "'imp universe_env \<Rightarrow> nat \<Rightarrow> uint32 \<Rightarrow> 'imp universe \<Rightarrow> 'imp universe guarded" where
  "mulle_objc_classpair_add_categoryid env pair categoryid u =
     u_assert (mulle_objc_uniqueid_is_sane categoryid)
      (u_bind (of_c_result (mulle_objc_classpair_has_categoryid u pair categoryid)) (\<lambda>has.
        u_assert (\<not> has) (Inr (mulle_objc_classpair_add_categoryids env pair [categoryid] u))))"

definition mulle_objc_classpair_add_categoryid_nofail ::
    "'imp universe_env \<Rightarrow> nat option \<Rightarrow> uint32 \<Rightarrow> 'imp universe \<Rightarrow> 'imp universe guarded" where
  "mulle_objc_classpair_add_categoryid_nofail env pair0 categoryid u =
     (case pair0 of
        None \<Rightarrow> Inl (Fail_errno EINVAL)
      | Some pair \<Rightarrow>
          if \<not> mulle_objc_uniqueid_is_sane categoryid then Inl (Fail_errno EINVAL)
          else u_bind (of_c_result (mulle_objc_classpair_has_categoryid u pair categoryid)) (\<lambda>has.
            if has then Inl (Fail_errno EINVAL)
            else mulle_objc_classpair_add_categoryid env pair categoryid u))"

section \<open>Mixins of a pair\<close>

definition mulle_objc_classpair_has_mixin :: "'imp universe \<Rightarrow> nat \<Rightarrow> nat \<Rightarrow> bool" where
  "mulle_objc_classpair_has_mixin u pair proto \<longleftrightarrow> proto \<in> set (pair_mixins (u_search_pair u pair))"

definition mulle_objc_classpair_add_mixin :: "nat \<Rightarrow> nat \<Rightarrow> 'imp universe \<Rightarrow> 'imp universe" where
  "mulle_objc_classpair_add_mixin pair proto u =
     (if mulle_objc_classpair_has_mixin u pair proto then u
      else u\<lparr> u_world := (u_world u)\<lparr> w_pair := (u_search_pair u)(pair :=
             (u_search_pair u pair)\<lparr> pair_mixins := pair_mixins (u_search_pair u pair) @ [proto] \<rparr>) \<rparr> \<rparr>)"

text \<open>
  A mixin is looked up with the callback for missing classes, which the loader has not needed by
  then: it has checked that all mixins are there. The class that lists itself is not accepted,
  although the dependency check skips it.
\<close>

definition add_mixinid ::
    "'imp universe_env \<Rightarrow> nat \<Rightarrow> uint32 \<Rightarrow> 'imp universe \<Rightarrow> 'imp universe guarded" where
  "add_mixinid env pair mixinid u =
     u_assert (mulle_objc_uniqueid_is_sane mixinid)
     (u_assert (mixinid \<noteq> sc_classid (u_search_class u (pair_infraclass (u_search_pair u pair))))
     (u_bind (of_c_result (mulle_objc_classpair_has_protocolid u pair mixinid)) (\<lambda>has.
      u_assert has
       (case mulle_objc_universe_lookup_infraclass_nodelegate env u mixinid of
          None \<Rightarrow> Inl (Fail_errno EINVAL)
        | Some proto \<Rightarrow>
            if \<not> mulle_objc_class_get_state_bit u proto CLASS_STATE_IS_MIXIN
            then Inl (Fail_inconsistency Not_a_mixin)
            else Inr (mulle_objc_classpair_add_mixin pair proto u)))))"

definition terminated_ids :: "uint32 list option \<Rightarrow> uint32 list" where
  "terminated_ids ids = (case ids of None \<Rightarrow> [] | Some ids \<Rightarrow> takeWhile (\<lambda>i. i \<noteq> 0) ids)"

definition mulle_objc_classpair_add_mixinids_nofail ::
    "'imp universe_env \<Rightarrow> nat option \<Rightarrow> uint32 list option \<Rightarrow> 'imp universe \<Rightarrow> 'imp universe guarded" where
  "mulle_objc_classpair_add_mixinids_nofail env pair0 mixinids u =
     (case pair0 of
        None \<Rightarrow> Inl (Fail_errno EINVAL)
      | Some pair \<Rightarrow> u_each (add_mixinid env pair) (terminated_ids mixinids) u)"

section \<open>Protocols of a pair\<close>

text \<open>
  The ids that are new are collected, and added in one go; \<open>prev\<close> is the id before, which the
  assertion wants smaller.
\<close>

fun collect_protocolids ::
    "nat \<Rightarrow> mulle_objc_protocol list \<Rightarrow> uint32 \<Rightarrow> uint32 list \<Rightarrow> 'imp universe \<Rightarrow> (uint32 list \<times> 'imp universe) guarded" where
  "collect_protocolids pair [] prev ids u = Inr (ids, u)"
| "collect_protocolids pair (p # protocols) prev ids u =
     (if \<not> fst (mulle_objc_protocol_is_sane (Some p)) then Inl (Fail_errno EINVAL)
      else u_bind (of_c_result (mulle_objc_classpair_has_protocolid u pair (protocol_protocolid p))) (\<lambda>has.
        if has then collect_protocolids pair protocols prev ids u
        else u_bind (mulle_objc_universe_register_protocol_nofail u p) (\<lambda>u'.
          u_assert (protocol_protocolid p > prev)
           (collect_protocolids pair protocols (protocol_protocolid p) (ids @ [protocol_protocolid p]) u'))))"

definition mulle_objc_classpair_add_protocollist_nofail ::
    "'imp universe_env \<Rightarrow> nat option \<Rightarrow> mulle_objc_protocol list option \<Rightarrow> 'imp universe \<Rightarrow> 'imp universe guarded" where
  "mulle_objc_classpair_add_protocollist_nofail env pair0 protocols0 u =
     (case pair0 of
        None \<Rightarrow> Inl (Fail_errno EINVAL)
      | Some pair \<Rightarrow>
          case protocols0 of
            None \<Rightarrow> Inr u
          | Some protocols \<Rightarrow>
              if protocols = [] then Inr u
              else u_bind (collect_protocolids pair protocols 0 [] u) (\<lambda>(ids, u').
                Inr (mulle_objc_classpair_add_protocolids env pair ids u')))"

end
