(* ===== verification/Callqueue.thy ===== *)
theory Callqueue
  imports Class_Members
begin

text \<open>
  The queue of \<open>+load\<close> calls (\<open>mulle-objc-callqueue.c\<close>): a growing array of an object, a method id
  and an implementation, which is executed or walked in the order of the additions. An object or
  implementation that may be \<open>NULL\<close> is an option.
\<close>

record 'imp queue_entry =
  entry_obj :: nat
  entry_uniqueid :: uint32
  entry_imp :: 'imp

type_synonym 'imp mulle_objc_callqueue = "'imp queue_entry list"

definition mulle_objc_callqueue_init :: "bool \<Rightarrow> bool \<Rightarrow> errno + 'imp mulle_objc_callqueue" where
  "mulle_objc_callqueue_init have_queue have_allocator =
     (if \<not> have_queue \<or> \<not> have_allocator then Inl EINVAL else Inr [])"

definition mulle_objc_callqueue_add ::
    "'imp mulle_objc_callqueue option \<Rightarrow> nat option \<Rightarrow> uint32 \<Rightarrow> 'imp option \<Rightarrow> errno + 'imp mulle_objc_callqueue" where
  "mulle_objc_callqueue_add queue0 obj0 methodid imp0 =
     (case (queue0, obj0, imp0) of
        (Some queue, Some obj, Some imp) \<Rightarrow>
          if \<not> mulle_objc_uniqueid_is_sane methodid then Inl EINVAL
          else Inr (queue @ [\<lparr> entry_obj = obj, entry_uniqueid = methodid, entry_imp = imp \<rparr>])
      | _ \<Rightarrow> Inl EINVAL)"

text \<open>The callback of a walk may change the state it is handed.\<close>

primrec mulle_objc_callqueue_walk ::
    "'imp mulle_objc_callqueue \<Rightarrow> (nat \<Rightarrow> uint32 \<Rightarrow> 'imp \<Rightarrow> 's \<Rightarrow> 's) \<Rightarrow> 's \<Rightarrow> 's" where
  "mulle_objc_callqueue_walk [] callback userinfo = userinfo"
| "mulle_objc_callqueue_walk (entry # queue) callback userinfo =
     mulle_objc_callqueue_walk queue callback
       (callback (entry_obj entry) (entry_uniqueid entry) (entry_imp entry) userinfo)"

text \<open>\<open>mulle_objc_callqueue_execute\<close> invokes an implementation with itself as the parameter.\<close>

primrec mulle_objc_callqueue_execute ::
    "('imp \<Rightarrow> nat \<Rightarrow> uint32 \<Rightarrow> 'imp \<Rightarrow> 's \<Rightarrow> 's) \<Rightarrow> 'imp mulle_objc_callqueue \<Rightarrow> 's \<Rightarrow> 's" where
  "mulle_objc_callqueue_execute invoke [] s = s"
| "mulle_objc_callqueue_execute invoke (entry # queue) s =
     mulle_objc_callqueue_execute invoke queue
       (invoke (entry_imp entry) (entry_obj entry) (entry_uniqueid entry) (entry_imp entry) s)"

text \<open>
  \<open>mulle_objc_methodlist_add_load_to_callqueue\<close>: the \<open>+load\<close> of a list of class methods is queued
  with its metaclass. Every implementation of a method list is a function, never \<open>NULL\<close>.
\<close>

definition mulle_objc_methodlist_add_load_to_callqueue ::
    "'imp search_methodlist option \<Rightarrow> nat \<Rightarrow> 'imp mulle_objc_callqueue \<Rightarrow> 'imp universe \<Rightarrow>
     (errno option \<times> 'imp mulle_objc_callqueue \<times> 'imp universe) guarded" where
  "mulle_objc_methodlist_add_load_to_callqueue list0 meta loads u =
     (case list0 of
        None \<Rightarrow> Inr (None, loads, u)
      | Some ml \<Rightarrow>
          u_bind (of_c_result (mulle_objc_methodlist_search (ml_methods ml) MULLE_OBJC_LOAD_METHODID)) (\<lambda>r.
            case r of
              None \<Rightarrow> Inr (None, loads, u)
            | Some i \<Rightarrow>
                u_bind (mulle_objc_class_set_state_bit meta CLASS_STATE_LOAD_SCHEDULED u) (\<lambda>u'.
                  case mulle_objc_callqueue_add (Some loads) (Some meta) MULLE_OBJC_LOAD_METHODID
                         (Some (method_implementation (ml_methods ml ! i))) of
                    Inl e \<Rightarrow> Inr (Some e, loads, u')
                  | Inr loads' \<Rightarrow> Inr (None, loads', u'))))"

definition mulle_objc_methodlist_add_load_to_callqueue_nofail ::
    "'imp search_methodlist option \<Rightarrow> nat \<Rightarrow> 'imp mulle_objc_callqueue \<Rightarrow> 'imp universe \<Rightarrow>
     ('imp mulle_objc_callqueue \<times> 'imp universe) guarded" where
  "mulle_objc_methodlist_add_load_to_callqueue_nofail list0 meta loads u =
     u_bind (mulle_objc_methodlist_add_load_to_callqueue list0 meta loads u) (\<lambda>(e, loads', u').
       case e of Some e \<Rightarrow> Inl (Fail_errno e) | None \<Rightarrow> Inr (loads', u'))"

end
