(* ===== verification/Load.thy ===== *)
theory Load
  imports Callqueue "HOL-Library.AList"
begin

text \<open>
  The loader (\<open>mulle-objc-load.c\<close>): a class, mixin or category is installed when what it depends
  on is there, and otherwise waits in a queue under the id of the class that is missing, or whose
  category is. Each installation hands the entries that wait under the id of the class to the loader
  again. Entries are values: the loader reads the compiler's data and keeps pointers to it. Tracing is
  left out.
\<close>

section \<open>The wait queues\<close>

text \<open>The hash for a machine with \<open>'w\<close> bits; the universe of the model has 64.\<close>

definition mulle_objc_classid_to_waitqueue_hash :: "uint32 \<Rightarrow> 'w::len word" where
  "mulle_objc_classid_to_waitqueue_hash classid =
     (let intptr_max = mask (LENGTH('w) - 1);
          hash = ucast classid AND intptr_max
      in if hash = 0 then intptr_max else hash)"

type_synonym 'imp load_state = "'imp mulle_objc_callqueue \<times> 'imp universe"

text \<open>
  \<open>map_f\<close> takes the list out of the table before it calls the function for each entry. The queue
  is named by its selector and its update function.
\<close>

definition map_f ::
    "('imp universe \<Rightarrow> (uint64 \<times> 'a list) list) \<Rightarrow>
     (((uint64 \<times> 'a list) list \<Rightarrow> (uint64 \<times> 'a list) list) \<Rightarrow> 'imp universe \<Rightarrow> 'imp universe) \<Rightarrow>
     uint32 \<Rightarrow> ('a \<Rightarrow> 'imp load_state \<Rightarrow> 'imp load_state guarded) \<Rightarrow>
     'imp load_state \<Rightarrow> 'imp load_state guarded" where
  "map_f table table_update uniqueid f st =
     (let hash = mulle_objc_classid_to_waitqueue_hash uniqueid in
      case map_of (table (snd st)) hash of
        None \<Rightarrow> Inr st
      | Some list \<Rightarrow> u_each f list (fst st, table_update (AList.delete hash) (snd st)))"

definition mulle_objc_map_append_info :: "uint32 \<Rightarrow> 'a \<Rightarrow> (uint64 \<times> 'a list) list \<Rightarrow> (uint64 \<times> 'a list) list" where
  "mulle_objc_map_append_info missingclassid info table =
     (let hash = mulle_objc_classid_to_waitqueue_hash missingclassid;
          list = (case map_of table hash of Some list \<Rightarrow> list | None \<Rightarrow> [])
      in AList.update hash (list @ [info]) table)"

definition mulle_objc_loadclass_delayedadd ::
    "'imp mulle_objc_loadclass \<Rightarrow> uint32 \<Rightarrow> 'imp universe \<Rightarrow> 'imp universe guarded" where
  "mulle_objc_loadclass_delayedadd info missingclassid u =
     u_assert (lcb_classid (lc_base info) \<noteq> missingclassid)
       (Inr (u_classestoload_update (mulle_objc_map_append_info missingclassid info) u))"

definition mulle_objc_loadcategory_delayedadd ::
    "'imp mulle_objc_loadcategory \<Rightarrow> uint32 \<Rightarrow> 'imp universe \<Rightarrow> 'imp universe guarded" where
  "mulle_objc_loadcategory_delayedadd info missingclassid u =
     Inr (u_categoriestoload_update (mulle_objc_map_append_info missingclassid info) u)"

section \<open>Dependencies\<close>

definition MULLE_OBJC_DEPENDENCIES_METHODID :: uint32 where
  [c_defs]: "MULLE_OBJC_DEPENDENCIES_METHODID = 0x53d9d606"

definition mulle_objc_methodlist_bsearch_dependencies_imp :: "'imp search_methodlist \<Rightarrow> 'imp option c_result" where
  "mulle_objc_methodlist_bsearch_dependencies_imp methods =
     c_bind (mulle_objc_method_bsearch (ml_methods methods) MULLE_OBJC_DEPENDENCIES_METHODID) (\<lambda>r.
       Inr (map_option (\<lambda>i. method_implementation (ml_methods methods ! i)) r))"

definition missing_dependency :: "uint32 \<Rightarrow> mulle_objc_dependency" where
  "missing_dependency classid = \<lparr> dep_classid = classid, dep_categoryid = MULLE_OBJC_NO_UNIQUEID \<rparr>"

text \<open>The class found for one dependency is kept for the next.\<close>

fun mulle_objc_universe_fulfill_dependencies ::
    "'imp universe_env \<Rightarrow> 'imp universe \<Rightarrow> nat option \<Rightarrow> mulle_objc_dependency list \<Rightarrow> mulle_objc_dependency guarded" where
  "mulle_objc_universe_fulfill_dependencies env u infra0 [] = Inr no_dependency"
| "mulle_objc_universe_fulfill_dependencies env u infra0 (d # dependencies) =
     (if dep_classid d = 0 then Inr no_dependency
      else
        let known = (case infra0 of None \<Rightarrow> False | Some infra \<Rightarrow> sc_classid (u_search_class u infra) = dep_classid d);
            infra1 = (if known then infra0
                      else mulle_objc_universe_lookup_infraclass_nodelegate env u (dep_classid d))
        in case infra1 of
             None \<Rightarrow> Inr d
           | Some infra \<Rightarrow>
               if dep_categoryid d \<noteq> 0
               then u_bind (of_c_result (mulle_objc_classpair_has_categoryid u
                              (sc_classpair (u_search_class u infra)) (dep_categoryid d))) (\<lambda>has.
                      if has then mulle_objc_universe_fulfill_dependencies env u infra1 dependencies
                      else Inr d)
               else mulle_objc_universe_fulfill_dependencies env u infra1 dependencies)"

definition fulfill_user_dependencies ::
    "'imp universe_env \<Rightarrow> 'imp universe \<Rightarrow> 'imp search_methodlist option \<Rightarrow> nat option \<Rightarrow> mulle_objc_dependency guarded" where
  "fulfill_user_dependencies env u classmethods infra =
     (case classmethods of
        None \<Rightarrow> Inr no_dependency
      | Some methods \<Rightarrow>
          u_bind (of_c_result (mulle_objc_methodlist_bsearch_dependencies_imp methods)) (\<lambda>r.
            case r of
              None \<Rightarrow> Inr no_dependency
            | Some imp \<Rightarrow>
                case ue_dependencies env imp infra of
                  None \<Rightarrow> Inl (Fail_generic Null_dependencies)
                | Some dependencies \<Rightarrow> mulle_objc_universe_fulfill_dependencies env u infra dependencies))"

text \<open>A class is asked for its dependencies before it exists, with \<open>NULL\<close> for itself.\<close>

definition mulle_objc_loadclass_fulfill_user_dependencies ::
    "'imp universe_env \<Rightarrow> 'imp universe \<Rightarrow> 'imp mulle_objc_loadclass \<Rightarrow> mulle_objc_dependency guarded" where
  "mulle_objc_loadclass_fulfill_user_dependencies env u info =
     fulfill_user_dependencies env u (lcb_classmethods (lc_base info)) None"

definition mulle_objc_loadcategory_fulfill_user_dependencies ::
    "'imp universe_env \<Rightarrow> 'imp universe \<Rightarrow> 'imp mulle_objc_loadcategory \<Rightarrow> nat \<Rightarrow> mulle_objc_dependency guarded" where
  "mulle_objc_loadcategory_fulfill_user_dependencies env u info infra =
     fulfill_user_dependencies env u (lcat_classmethods info) (Some infra)"

text \<open>The first mixin that is missing; the ids in \<open>skipped\<close> are passed over.\<close>

fun first_missing_mixin :: "'imp universe_env \<Rightarrow> 'imp universe \<Rightarrow> uint32 list \<Rightarrow> uint32 list \<Rightarrow> uint32 option" where
  "first_missing_mixin env u skipped [] = None"
| "first_missing_mixin env u skipped (classid # ids) =
     (if classid \<in> set skipped then first_missing_mixin env u skipped ids
      else case mulle_objc_universe_lookup_infraclass_nodelegate env u classid of
             None \<Rightarrow> Some classid
           | Some mixin \<Rightarrow> first_missing_mixin env u skipped ids)"

text \<open>The second component is the superclass that was found.\<close>

definition mulle_objc_loadclass_fulfill_dependencies ::
    "'imp universe_env \<Rightarrow> 'imp universe \<Rightarrow> 'imp mulle_objc_loadclass \<Rightarrow> (mulle_objc_dependency \<times> nat option) guarded" where
  "mulle_objc_loadclass_fulfill_dependencies env u info =
     (let superclass0 = (if lc_superclassid info \<noteq> 0
                         then mulle_objc_universe_lookup_infraclass_nodelegate env u (lc_superclassid info)
                         else None)
      in
      if lc_superclassid info \<noteq> 0 \<and> superclass0 = None
      then Inr (missing_dependency (lc_superclassid info), None)
      else if (case superclass0 of None \<Rightarrow> False
               | Some superclass \<Rightarrow> c_strcmp (lc_superclassname info) (class_name (u_class u superclass)) \<noteq> 0)
      then Inl (Fail_generic Hash_collision)
      else if (case superclass0 of None \<Rightarrow> False
               | Some superclass \<Rightarrow> class_ivarhash (u_class u superclass) \<noteq> lc_superclassivarhash info) \<and>
              \<not> ue_ignore_ivarhash_mismatch env
      then Inl (Fail_generic Ivarhash_changed)
      else case first_missing_mixin env u [lc_superclassid info, lcb_classid (lc_base info)]
                  (terminated_ids (lc_mixinids info)) of
             Some classid \<Rightarrow> Inr (missing_dependency classid, superclass0)
           | None \<Rightarrow> u_bind (mulle_objc_loadclass_fulfill_user_dependencies env u info) (\<lambda>d.
               Inr (d, superclass0)))"

definition mulle_objc_loadcategory_fulfill_dependencies ::
    "'imp universe_env \<Rightarrow> 'imp universe \<Rightarrow> 'imp mulle_objc_loadcategory \<Rightarrow> (mulle_objc_dependency \<times> nat option) guarded" where
  "mulle_objc_loadcategory_fulfill_dependencies env u info =
     (case mulle_objc_universe_lookup_infraclass_nodelegate env u (lcat_classid info) of
        None \<Rightarrow> Inr (missing_dependency (lcat_classid info), None)
      | Some infra \<Rightarrow>
          case first_missing_mixin env u [lcat_classid info] (terminated_ids (lcat_mixinids info)) of
            Some classid \<Rightarrow> Inr (missing_dependency classid, Some infra)
          | None \<Rightarrow> u_bind (mulle_objc_loadcategory_fulfill_user_dependencies env u info infra) (\<lambda>d.
              Inr (d, Some infra)))"

section \<open>Checks of what is loaded\<close>

definition no_owner :: "'imp search_methodlist option \<Rightarrow> bool" where
  "no_owner list \<longleftrightarrow> (case list of None \<Rightarrow> True | Some ml \<Rightarrow> ml_loadcategory ml = None)"

definition mulle_objc_loadclassbase_is_sane :: "'imp universe_env \<Rightarrow> 'imp mulle_objc_loadclassbase \<Rightarrow> bool" where
  "mulle_objc_loadclassbase_is_sane env info \<longleftrightarrow>
     lcb_classname info \<noteq> None \<and> u_is_sane_string env (lcb_classid info) (lcb_classname info) \<and>
     no_owner (lcb_classmethods info) \<and> no_owner (lcb_instancemethods info)"

definition mulle_objc_loadcategory_is_sane :: "'imp universe_env \<Rightarrow> 'imp mulle_objc_loadcategory \<Rightarrow> bool" where
  "mulle_objc_loadcategory_is_sane env info \<longleftrightarrow>
     lcat_categoryname info \<noteq> None \<and> lcat_classname info \<noteq> None \<and>
     u_is_sane_string env (lcat_classid info) (lcat_classname info) \<and>
     u_is_sane_string env (lcat_categoryid info) (lcat_categoryname info)"

section \<open>Installing a class\<close>

text \<open>What both classes and mixins do first.\<close>

definition new_loaded_classpair ::
    "'imp universe_env \<Rightarrow> 'imp mulle_objc_loadclassbase \<Rightarrow> uint64 \<Rightarrow> nat option \<Rightarrow> 'imp universe \<Rightarrow>
     (nat \<times> 'imp universe) guarded" where
  "new_loaded_classpair env base instancesize superclass u =
     (case mulle_objc_universe_new_classpair env (lcb_classid base) (lcb_classname base) instancesize superclass u of
        Inl e \<Rightarrow> Inl (Fail_errno e)
      | Inr (pair, u1) \<Rightarrow>
          u_bind (mulle_objc_classpair_add_protocollist_nofail env (Some pair) (lcb_protocols base)
                    (update_pair pair (pair_loadclass_update (\<lambda>_. Some base)) u1)) (\<lambda>u2.
            Inr (pair, u2)))"

text \<open>The class methods, and the entry for their \<open>+load\<close> in the queue.\<close>

definition add_loaded_classmethods ::
    "'imp universe_env \<Rightarrow> nat \<Rightarrow> 'imp search_methodlist option \<Rightarrow> 'imp load_state \<Rightarrow> 'imp load_state guarded" where
  "add_loaded_classmethods env meta classmethods st =
     u_bind (mulle_objc_class_add_methodlist_nofail env meta classmethods (snd st)) (\<lambda>u.
       mulle_objc_methodlist_add_load_to_callqueue_nofail classmethods meta (fst st) u)"

definition set_loaded_fastclass :: "int \<Rightarrow> nat \<Rightarrow> 'imp universe \<Rightarrow> 'imp universe guarded" where
  "set_loaded_fastclass index infra u =
     (if 0 \<le> index then mulle_objc_universe_set_fastclass u infra (word_of_int index) else Inr u)"

text \<open>Every failure of the registration ends the program, with a reason that depends on \<open>errno\<close>.\<close>

definition register_loaded_infraclass :: "'imp universe_env \<Rightarrow> nat \<Rightarrow> 'imp universe \<Rightarrow> 'imp universe guarded" where
  "register_loaded_infraclass env infra u =
     (case mulle_objc_universe_register_infraclass env u (Some infra) of
        (None, u') \<Rightarrow> Inr u'
      | (Some e, _) \<Rightarrow>
          if e = EFAULT then Inl (Fail_generic Superclass_missing)
          else if e = EEXIST then Inl (Fail_generic Duplicate_class)
          else Inl (Fail_generic Class_not_added))"

text \<open>
  The body of \<open>_mulle_objc_loadclass_enqueue\<close> from the label \<open>ready to install\<close> on, up to the
  wait queues. The mutex of the class properties is left out.
\<close>

definition install_loadclass ::
    "'imp universe_env \<Rightarrow> 'imp mulle_objc_loadclass \<Rightarrow> nat option \<Rightarrow> 'imp load_state \<Rightarrow> 'imp load_state guarded" where
  "install_loadclass env info superclass st =
     (let base = lc_base info in
      u_bind (new_loaded_classpair env base (word_of_int (lc_instancesize info)) superclass (snd st)) (\<lambda>(pair, u1).
      u_bind (mulle_objc_classpair_add_mixinids_nofail env (Some pair) (lc_mixinids info) u1) (\<lambda>u2.
      let meta = pair_metaclass (u_search_pair u2 pair); infra = pair_infraclass (u_search_pair u2 pair) in
      u_bind (add_loaded_classmethods env meta (lcb_classmethods base) (fst st, u2)) (\<lambda>(loads, u3).
      u_assert (meta = class_isa (u_class u3 infra))
      (let u4 = mulle_objc_infraclass_add_ivarlist infra (lc_instancevariables info)
                  (update_class infra (class_ivarhash_update (\<lambda>_. lc_classivarhash info)) u3) in
      u_bind (mulle_objc_class_add_methodlist_nofail env infra (lcb_instancemethods base) u4) (\<lambda>u5.
      u_bind (mulle_objc_infraclass_add_propertylist_nofail env infra (lcb_properties base) u5) (\<lambda>u6.
      u_bind (mulle_objc_metaclass_add_propertylist_nofail meta (lcb_classproperties base)
                (mulle_objc_metaclass_add_ivarlist meta (lc_classvariables info) u6)) (\<lambda>u7.
      u_bind (set_loaded_fastclass (lc_fastclassindex info) infra u7) (\<lambda>u8.
      u_bind (register_loaded_infraclass env infra u8) (\<lambda>u9.
      Inr (loads, u9)))))))))))"

text \<open>A mixin is a root class without ivars, marked as a mixin on both sides.\<close>

definition install_loadmixin ::
    "'imp universe_env \<Rightarrow> 'imp mulle_objc_loadmixin \<Rightarrow> 'imp load_state \<Rightarrow> 'imp load_state guarded" where
  "install_loadmixin env info st =
     (let base = lm_base info in
      u_bind (new_loaded_classpair env base 0 None (snd st)) (\<lambda>(pair, u1).
      let meta = pair_metaclass (u_search_pair u1 pair); infra = pair_infraclass (u_search_pair u1 pair) in
      u_bind (add_loaded_classmethods env meta (lcb_classmethods base) (fst st, u1)) (\<lambda>(loads, u2).
      u_bind (mulle_objc_class_set_state_bit meta CLASS_STATE_IS_MIXIN u2) (\<lambda>u3.
      u_assert (meta = class_isa (u_class u3 infra))
      (u_bind (mulle_objc_class_add_methodlist_nofail env infra (lcb_instancemethods base)
                (mulle_objc_infraclass_add_ivarlist infra (Some []) u3)) (\<lambda>u4.
      u_bind (mulle_objc_infraclass_add_propertylist_nofail env infra (lcb_properties base) u4) (\<lambda>u5.
      u_bind (mulle_objc_metaclass_add_propertylist_nofail meta (lcb_classproperties base) u5) (\<lambda>u6.
      u_bind (mulle_objc_class_set_state_bit infra CLASS_STATE_IS_MIXIN u6) (\<lambda>u7.
      u_bind (register_loaded_infraclass env infra u7) (\<lambda>u8.
      Inr (loads, u8)))))))))))"

section \<open>Installing a category\<close>

text \<open>The loader makes the category the owner of its method lists; an empty list is not added.\<close>

definition own_methodlist :: "uint32 \<Rightarrow> 'imp search_methodlist option \<Rightarrow> 'imp search_methodlist option" where
  "own_methodlist categoryid list =
     (case list of
        None \<Rightarrow> None
      | Some ml \<Rightarrow> if ml_methods ml = [] then None else Some (ml\<lparr> ml_loadcategory := Some categoryid \<rparr>))"

definition add_category_methods ::
    "'imp universe_env \<Rightarrow> nat \<Rightarrow> 'imp search_methodlist option \<Rightarrow> 'imp universe \<Rightarrow> 'imp universe guarded" where
  "add_category_methods env cls list u =
     (case list of
        None \<Rightarrow> Inr u
      | Some ml \<Rightarrow> u_bind (mulle_objc_class_add_methodlist env cls (Some ml) u) (\<lambda>(e, u').
          case e of Some e \<Rightarrow> Inl (Fail_errno e) | None \<Rightarrow> Inr u'))"

definition nonempty_list :: "'a list option \<Rightarrow> 'a list option" where
  "nonempty_list list = (if list = Some [] then None else list)"

definition add_category_properties ::
    "'imp universe_env \<Rightarrow> nat \<Rightarrow> nat \<Rightarrow> 'imp mulle_objc_loadcategory \<Rightarrow> 'imp universe \<Rightarrow> 'imp universe guarded" where
  "add_category_properties env infra meta info u =
     u_bind (case nonempty_list (lcat_properties info) of
               None \<Rightarrow> Inr u
             | Some properties \<Rightarrow> mulle_objc_infraclass_add_propertylist_nofail env infra (Some properties) u) (\<lambda>u1.
     case nonempty_list (lcat_classproperties info) of
       None \<Rightarrow> Inr u1
     | Some properties \<Rightarrow> mulle_objc_metaclass_add_propertylist_nofail meta (Some properties) u1)"

text \<open>
  The checks against the class that was found: \<open>strcmp\<close> of the names, the hash of the ivars, the
  category is not there yet.
\<close>

definition check_loadcategory ::
    "'imp mulle_objc_loadcategory \<Rightarrow> nat \<Rightarrow> 'imp universe \<Rightarrow> unit guarded" where
  "check_loadcategory info infra u =
     (if (case lcat_classname info of None \<Rightarrow> True | Some s \<Rightarrow> c_strcmp s (class_name (u_class u infra)) \<noteq> 0)
      then Inl (Fail_generic Hash_collision)
      else if lcat_classivarhash info \<noteq> class_ivarhash (u_class u infra) then Inl (Fail_generic Ivarhash_changed)
      else if lcat_categoryid info = 0 then Inr ()
      else u_bind (of_c_result (mulle_objc_classpair_has_categoryid u (sc_classpair (u_search_class u infra))
                    (lcat_categoryid info))) (\<lambda>has.
        if has then Inl (Fail_generic Duplicate_category) else Inr ()))"

definition install_loadcategory ::
    "'imp universe_env \<Rightarrow> 'imp mulle_objc_loadcategory \<Rightarrow> nat \<Rightarrow> 'imp load_state \<Rightarrow> 'imp load_state guarded" where
  "install_loadcategory env info infra st =
     (let pair = sc_classpair (u_search_class (snd st) infra);
          meta = pair_metaclass (u_search_pair (snd st) pair);
          instancemethods = own_methodlist (lcat_categoryid info) (lcat_instancemethods info);
          classmethods = own_methodlist (lcat_categoryid info) (lcat_classmethods info) in
      u_bind (check_loadcategory info infra (snd st)) (\<lambda>_.
      u_bind (mulle_objc_universe_register_category_nofail (snd st) (lcat_categoryid info)
                (case lcat_categoryname info of Some s \<Rightarrow> s | None \<Rightarrow> [])) (\<lambda>u1.
      u_bind (add_category_methods env infra instancemethods u1) (\<lambda>u2.
      u_bind (add_category_methods env meta classmethods u2) (\<lambda>u3.
      u_bind (add_category_properties env infra meta info u3) (\<lambda>u4.
      u_bind (mulle_objc_classpair_add_protocollist_nofail env (Some pair) (lcat_protocols info) u4) (\<lambda>u5.
      u_bind (mulle_objc_classpair_add_mixinids_nofail env (Some pair) (lcat_mixinids info) u5) (\<lambda>u6.
      u_bind (if lcat_categoryid info \<noteq> 0
              then mulle_objc_classpair_add_categoryid_nofail env (Some pair) (lcat_categoryid info) u6
              else Inr u6) (\<lambda>u7.
      mulle_objc_methodlist_add_load_to_callqueue_nofail (lcat_classmethods info) meta (fst st) u7)))))))))"

section \<open>The loader\<close>

text \<open>
  The two enqueue functions call each other through \<open>map_f\<close>. The number bounds the depth of the
  calls; theory \<open>Loader\<close> shows that one more than the number of waiting entries is enough.
  \<open>_mulle_objc_loadclass_enqueue\<close> and \<open>_mulle_objc_loadcategory_enqueue\<close> are given the two
  functions that they hand to \<open>map_f\<close>; their first result is the id of the class that is missing,
  or zero.
\<close>

definition retrigger ::
    "('imp mulle_objc_loadclass \<Rightarrow> 'imp load_state \<Rightarrow> 'imp load_state guarded) \<Rightarrow>
     ('imp mulle_objc_loadcategory \<Rightarrow> 'imp load_state \<Rightarrow> 'imp load_state guarded) \<Rightarrow>
     uint32 \<Rightarrow> 'imp load_state \<Rightarrow> 'imp load_state guarded" where
  "retrigger enqueue_class enqueue_category classid st =
     u_bind (map_f u_categoriestoload u_categoriestoload_update classid enqueue_category st)
       (map_f u_classestoload u_classestoload_update classid enqueue_class)"

definition mulle_objc_loadclass_enqueue where
  "mulle_objc_loadclass_enqueue env enqueue_class enqueue_category info st =
     u_bind (mulle_objc_loadclass_fulfill_dependencies env (snd st) info) (\<lambda>(dependency, superclass).
       if dep_classid dependency \<noteq> MULLE_OBJC_NO_UNIQUEID then Inr (dep_classid dependency, st)
       else u_bind (install_loadclass env info superclass st) (\<lambda>st1.
         u_bind (retrigger enqueue_class enqueue_category (lcb_classid (lc_base info)) st1) (\<lambda>st2.
           Inr (MULLE_OBJC_NO_UNIQUEID, st2))))"

definition mulle_objc_loadcategory_enqueue where
  "mulle_objc_loadcategory_enqueue env enqueue_class enqueue_category info st =
     u_bind (mulle_objc_loadcategory_fulfill_dependencies env (snd st) info) (\<lambda>(dependency, cls).
       case cls of
         None \<Rightarrow> Inr (dep_classid dependency, st)
       | Some infra \<Rightarrow>
           if dep_classid dependency \<noteq> MULLE_OBJC_NO_UNIQUEID then Inr (dep_classid dependency, st)
           else u_bind (install_loadcategory env info infra st) (\<lambda>st1.
             u_bind (retrigger enqueue_class enqueue_category (lcat_classid info) st1) (\<lambda>st2.
               Inr (MULLE_OBJC_NO_UNIQUEID, st2))))"

fun mulle_objc_loadclass_enqueue_nofail ::
    "'imp universe_env \<Rightarrow> nat \<Rightarrow> 'imp mulle_objc_loadclass \<Rightarrow> 'imp load_state \<Rightarrow> 'imp load_state guarded"
  and mulle_objc_loadcategory_enqueue_nofail ::
    "'imp universe_env \<Rightarrow> nat \<Rightarrow> 'imp mulle_objc_loadcategory \<Rightarrow> 'imp load_state \<Rightarrow> 'imp load_state guarded" where
  "mulle_objc_loadclass_enqueue_nofail env 0 info st = Inl No_return"
| "mulle_objc_loadclass_enqueue_nofail env (Suc n) info st =
     (if \<not> mulle_objc_loadclassbase_is_sane env (lc_base info) then Inl (Fail_errno EINVAL)
      else u_bind (mulle_objc_loadclass_enqueue env (mulle_objc_loadclass_enqueue_nofail env n)
                     (mulle_objc_loadcategory_enqueue_nofail env n) info st) (\<lambda>(missingclassid, st1).
        if missingclassid \<noteq> MULLE_OBJC_NO_UNIQUEID
        then u_bind (mulle_objc_loadclass_delayedadd info missingclassid (snd st1)) (\<lambda>u. Inr (fst st1, u))
        else Inr st1))"
| "mulle_objc_loadcategory_enqueue_nofail env 0 info st = Inl No_return"
| "mulle_objc_loadcategory_enqueue_nofail env (Suc n) info st =
     (if \<not> mulle_objc_loadcategory_is_sane env info then Inl (Fail_errno EINVAL)
      else u_bind (mulle_objc_loadcategory_enqueue env (mulle_objc_loadclass_enqueue_nofail env n)
                     (mulle_objc_loadcategory_enqueue_nofail env n) info st) (\<lambda>(missingclassid, st1).
        if missingclassid \<noteq> MULLE_OBJC_NO_UNIQUEID
        then u_bind (mulle_objc_loadcategory_delayedadd info missingclassid (snd st1)) (\<lambda>u. Inr (fst st1, u))
        else Inr st1))"

end
