(* ===== verification/Loadinfo.thy ===== *)
theory Loadinfo
  imports Load
begin

text \<open>
  Loading what one object file brings (\<open>mulle-objc-load.c\<close>): the compatibility checks, sorting of
  unsorted lists, strings and supers, then classes, mixins and categories, and the \<open>+load\<close> calls.
\<close>

section \<open>Sorting\<close>

definition sort_methodlist :: "'imp universe_env \<Rightarrow> 'imp search_methodlist option \<Rightarrow> 'imp search_methodlist option" where
  "sort_methodlist env list =
     map_option (ml_methods_update (ue_sort_methods env mulle_objc_method_compare_r)) list"

definition sort_mixinids :: "'imp universe_env \<Rightarrow> uint32 list option \<Rightarrow> uint32 list option" where
  "sort_mixinids env ids =
     (case ids of None \<Rightarrow> None
      | Some _ \<Rightarrow> Some (ue_sort_ids env mulle_objc_uniqueid_compare_r (terminated_ids ids)))"

definition mulle_objc_loadclass_sort_lists ::
    "'imp universe_env \<Rightarrow> 'imp mulle_objc_loadclass \<Rightarrow> 'imp mulle_objc_loadclass" where
  "mulle_objc_loadclass_sort_lists env lcls = lcls\<lparr>
     lc_mixinids := sort_mixinids env (lc_mixinids lcls),
     lc_instancevariables := mulle_objc_ivarlist_sort (ue_sort_ivars env) (lc_instancevariables lcls),
     lc_classvariables := mulle_objc_ivarlist_sort (ue_sort_ivars env) (lc_classvariables lcls),
     lc_base := (lc_base lcls)\<lparr>
       lcb_instancemethods := sort_methodlist env (lcb_instancemethods (lc_base lcls)),
       lcb_classmethods := sort_methodlist env (lcb_classmethods (lc_base lcls)),
       lcb_properties := mulle_objc_propertylist_sort (ue_sort_properties env) (lcb_properties (lc_base lcls)),
       lcb_classproperties := mulle_objc_propertylist_sort (ue_sort_properties env) (lcb_classproperties (lc_base lcls)),
       lcb_protocols := mulle_objc_protocollist_sort (ue_sort_protocols env) (lcb_protocols (lc_base lcls)) \<rparr> \<rparr>"

text \<open>The class properties of a mixin are not sorted, although they are added like those of a class.\<close>

definition mulle_objc_loadmixin_sort_lists ::
    "'imp universe_env \<Rightarrow> 'imp mulle_objc_loadmixin \<Rightarrow> 'imp mulle_objc_loadmixin" where
  "mulle_objc_loadmixin_sort_lists env lmix = lmix\<lparr>
     lm_base := (lm_base lmix)\<lparr>
       lcb_instancemethods := sort_methodlist env (lcb_instancemethods (lm_base lmix)),
       lcb_classmethods := sort_methodlist env (lcb_classmethods (lm_base lmix)),
       lcb_properties := mulle_objc_propertylist_sort (ue_sort_properties env) (lcb_properties (lm_base lmix)),
       lcb_protocols := mulle_objc_protocollist_sort (ue_sort_protocols env) (lcb_protocols (lm_base lmix)) \<rparr> \<rparr>"

definition mulle_objc_loadcategory_sort_lists ::
    "'imp universe_env \<Rightarrow> 'imp mulle_objc_loadcategory \<Rightarrow> 'imp mulle_objc_loadcategory" where
  "mulle_objc_loadcategory_sort_lists env lcat = lcat\<lparr>
     lcat_mixinids := sort_mixinids env (lcat_mixinids lcat),
     lcat_instancemethods := sort_methodlist env (lcat_instancemethods lcat),
     lcat_classmethods := sort_methodlist env (lcat_classmethods lcat),
     lcat_properties := mulle_objc_propertylist_sort (ue_sort_properties env) (lcat_properties lcat),
     lcat_classproperties := mulle_objc_propertylist_sort (ue_sort_properties env) (lcat_classproperties lcat),
     lcat_protocols := mulle_objc_protocollist_sort (ue_sort_protocols env) (lcat_protocols lcat) \<rparr>"

section \<open>Lists\<close>

definition mulle_objc_loadmixin_enqueue where
  "mulle_objc_loadmixin_enqueue env enqueue_class enqueue_category info st =
     u_bind (install_loadmixin env info st)
       (retrigger enqueue_class enqueue_category (lcb_classid (lm_base info)))"

definition mulle_objc_loadmixin_enqueue_nofail ::
    "'imp universe_env \<Rightarrow> nat \<Rightarrow> 'imp mulle_objc_loadmixin \<Rightarrow> 'imp load_state \<Rightarrow> 'imp load_state guarded" where
  "mulle_objc_loadmixin_enqueue_nofail env n info st =
     (if \<not> mulle_objc_loadclassbase_is_sane env (lm_base info) then Inl (Fail_errno EINVAL)
      else mulle_objc_loadmixin_enqueue env (mulle_objc_loadclass_enqueue_nofail env n)
             (mulle_objc_loadcategory_enqueue_nofail env n) info st)"

definition mulle_objc_loadclasslist_enqueue_nofail ::
    "'imp universe_env \<Rightarrow> nat \<Rightarrow> 'imp mulle_objc_loadclass list option \<Rightarrow> bool \<Rightarrow> 'imp load_state \<Rightarrow> 'imp load_state guarded" where
  "mulle_objc_loadclasslist_enqueue_nofail env n list need_sort st =
     (case list of
        None \<Rightarrow> Inr st
      | Some classes \<Rightarrow> u_each (\<lambda>info. mulle_objc_loadclass_enqueue_nofail env n
          (if need_sort then mulle_objc_loadclass_sort_lists env info else info)) classes st)"

definition mulle_objc_loadmixinlist_enqueue_nofail ::
    "'imp universe_env \<Rightarrow> nat \<Rightarrow> 'imp mulle_objc_loadmixin list option \<Rightarrow> bool \<Rightarrow> 'imp load_state \<Rightarrow> 'imp load_state guarded" where
  "mulle_objc_loadmixinlist_enqueue_nofail env n list need_sort st =
     (case list of
        None \<Rightarrow> Inr st
      | Some mixins \<Rightarrow> u_each (\<lambda>info. mulle_objc_loadmixin_enqueue_nofail env n
          (if need_sort then mulle_objc_loadmixin_sort_lists env info else info)) mixins st)"

definition mulle_objc_loadcategorylist_enqueue_nofail ::
    "'imp universe_env \<Rightarrow> nat \<Rightarrow> 'imp mulle_objc_loadcategory list option \<Rightarrow> bool \<Rightarrow> 'imp load_state \<Rightarrow> 'imp load_state guarded" where
  "mulle_objc_loadcategorylist_enqueue_nofail env n list need_sort st =
     (case list of
        None \<Rightarrow> Inr st
      | Some categories \<Rightarrow> u_each (\<lambda>info. mulle_objc_loadcategory_enqueue_nofail env n
          (if need_sort then mulle_objc_loadcategory_sort_lists env info else info)) categories st)"

definition mulle_objc_loadstringlist_enqueue_nofail :: "nat list option \<Rightarrow> 'imp universe \<Rightarrow> 'imp universe guarded" where
  "mulle_objc_loadstringlist_enqueue_nofail list u =
     (case list of
        None \<Rightarrow> Inr u
      | Some strings \<Rightarrow> u_each (\<lambda>s u. mulle_objc_universe_add_staticinstance u s) strings u)"

definition mulle_objc_loadsuperlist_enqueue_nofail ::
    "'imp universe_env \<Rightarrow> mulle_objc_super list option \<Rightarrow> 'imp universe \<Rightarrow> 'imp universe guarded" where
  "mulle_objc_loadsuperlist_enqueue_nofail env list u =
     (case list of
        None \<Rightarrow> Inr u
      | Some supers \<Rightarrow> u_each (\<lambda>p u. mulle_objc_universe_register_super_nofail env u (Some p)) supers u)"

definition mulle_objc_loadhashedstringlist_enqueue_nofail ::
    "'imp universe_env \<Rightarrow> mulle_objc_loadhashedstring list option \<Rightarrow> bool \<Rightarrow> 'imp universe \<Rightarrow> 'imp universe" where
  "mulle_objc_loadhashedstringlist_enqueue_nofail env list need_sort u =
     (case (if need_sort then mulle_objc_loadhashedstring_sort env list else list) of
        None \<Rightarrow> u
      | Some entries \<Rightarrow> if entries = [] then u else mulle_objc_universe_add_loadhashedstringlist u entries)"

section \<open>Compatibility checks\<close>

definition MULLE_OBJC_RUNTIME_LOAD_VERSION :: uint32 where [c_defs]: "MULLE_OBJC_RUNTIME_LOAD_VERSION = 21"

definition loadinfo_unsorted :: uint32 where [c_defs]: "loadinfo_unsorted = 0x1"
definition loadinfo_notaggedptrs :: uint32 where [c_defs]: "loadinfo_notaggedptrs = 0x4"
definition loadinfo_nofastcalls :: uint32 where [c_defs]: "loadinfo_nofastcalls = 0x8"
definition loadinfo_threadaffineobjects :: uint32 where [c_defs]: "loadinfo_threadaffineobjects = 0x10"
definition loadinfo_utf8_strings :: uint32 where [c_defs]: "loadinfo_utf8_strings = 0x20"

definition HAVE_NO_TPS_LOADS :: uint64 where [c_defs]: "HAVE_NO_TPS_LOADS = 0x1"
definition HAVE_TPS_LOADS :: uint64 where [c_defs]: "HAVE_TPS_LOADS = 0x2"
definition HAVE_NO_TAO_LOADS :: uint64 where [c_defs]: "HAVE_NO_TAO_LOADS = 0x8"
definition HAVE_TAO_LOADS :: uint64 where [c_defs]: "HAVE_TAO_LOADS = 0x10"

definition mulle_objc_version_get_major :: "uint32 \<Rightarrow> uint32" where
  "mulle_objc_version_get_major version = drop_bit 20 version"

definition mulle_objc_version_get_minor :: "uint32 \<Rightarrow> uint32" where
  "mulle_objc_version_get_minor version = drop_bit 8 version AND 1023"

definition mulle_objc_universe_assert_runtimeversion ::
    "'imp universe_env \<Rightarrow> mulle_objc_loadversion \<Rightarrow> unit guarded" where
  "mulle_objc_universe_assert_runtimeversion env version =
     (if mulle_objc_version_get_major (version_runtime version) \<noteq> mulle_objc_version_get_major (ue_version env) \<or>
         mulle_objc_version_get_major (version_runtime version) = 0 \<and>
         mulle_objc_version_get_minor (version_runtime version) \<noteq> mulle_objc_version_get_minor (ue_version env)
      then Inl (Fail_generic Runtime_version) else Inr ())"

definition mulle_objc_universe_set_loadbit :: "uint64 \<Rightarrow> 'imp universe \<Rightarrow> 'imp universe" where
  "mulle_objc_universe_set_loadbit b u = u\<lparr> u_loadbits := u_loadbits u OR b \<rparr>"

definition assert_version_of ::
    "uint32 \<Rightarrow> (mulle_objc_loadversion \<Rightarrow> universe_failure option) option \<Rightarrow> fail_reason \<Rightarrow>
     mulle_objc_loadversion \<Rightarrow> unit guarded" where
  "assert_version_of version versionassert reason loadversion =
     (if version = 0 then Inr ()
      else case versionassert of
             None \<Rightarrow> Inl (Fail_inconsistency reason)
           | Some check \<Rightarrow> case check loadversion of Some e \<Rightarrow> Inl e | None \<Rightarrow> Inr ())"

text \<open>
  The level of optimization is read from bit 16 on, although the enumeration of the bits and
  \<open>mulle_objc_loadinfo_dump\<close> have it from bit 8 on.
\<close>

definition loadinfo_optlevel :: "uint32 \<Rightarrow> uint32" where
  "loadinfo_optlevel bits = drop_bit 16 bits AND 0x7"

definition assert_load_bits ::
    "'imp universe_env \<Rightarrow> 'imp mulle_objc_loadinfo \<Rightarrow> 'imp universe \<Rightarrow> 'imp universe guarded" where
  "assert_load_bits env info u =
     (let bits = version_bits (li_version info);
          load_tps = (bits AND loadinfo_notaggedptrs = 0);
          load_tao = (bits AND loadinfo_threadaffineobjects \<noteq> 0);
          optlevel = loadinfo_optlevel bits;
          mismatch = (load_tps \<and> u_loadbits u AND HAVE_NO_TPS_LOADS \<noteq> 0 \<or>
                      \<not> load_tps \<and> u_loadbits u AND HAVE_TPS_LOADS \<noteq> 0 \<or>
                      ue_no_tagged_pointer env \<and> load_tps);
          u1 = mulle_objc_universe_set_loadbit (if load_tps then HAVE_TPS_LOADS else HAVE_NO_TPS_LOADS) u;
          u2 = mulle_objc_universe_set_loadbit (if load_tao then HAVE_TAO_LOADS else HAVE_NO_TAO_LOADS) u1
      in
      if mismatch then Inl (Fail_inconsistency Tagged_pointer_mismatch)
      else if load_tao \<noteq> ue_build_tao env then Inl (Fail_inconsistency Thread_affine_mismatch)
      else if li_loaduniverse info \<noteq> None \<and> \<not> ue_no_tagged_pointer env
      then Inl (Fail_inconsistency Universe_with_tagged_pointers)
      else if optlevel < ue_min_optlevel env \<or> optlevel > ue_max_optlevel env
      then Inl (Fail_inconsistency Optlevel_mismatch)
      else if ue_build_fcs env \<and> bits AND loadinfo_nofastcalls \<noteq> 0
      then Inl (Fail_inconsistency Fastcalls_mismatch)
      else if ue_build_no_fcs env \<and> bits AND loadinfo_nofastcalls = 0
      then Inl (Fail_inconsistency Fastcalls_mismatch)
      else if bits AND loadinfo_utf8_strings \<noteq> 0 \<and> \<not> ue_utf8staticstrings env
      then Inl (Fail_inconsistency No_utf8_strings)
      else Inr u2)"

definition mulle_objc_universe_assert_loadinfo ::
    "'imp universe_env \<Rightarrow> 'imp mulle_objc_loadinfo \<Rightarrow> 'imp universe \<Rightarrow> 'imp universe guarded" where
  "mulle_objc_universe_assert_loadinfo env info u =
     (let version = li_version info in
      if version_load version \<noteq> MULLE_OBJC_RUNTIME_LOAD_VERSION then Inl (Fail_inconsistency Load_version)
      else if ue_skip_consistency_checks env then Inr u
      else u_bind (assert_version_of (version_foundation version) (ue_foundation_versionassert env)
                     No_foundation_versionassert version) (\<lambda>_.
           u_bind (assert_version_of (version_user version) (ue_user_versionassert env)
                     No_user_versionassert version) (\<lambda>_.
           assert_load_bits env info u)))"

section \<open>A loadinfo\<close>

definition first_origin :: "'a list option \<Rightarrow> ('a \<Rightarrow> string option) \<Rightarrow> string option" where
  "first_origin list origin = (case list of Some (x # _) \<Rightarrow> origin x | _ \<Rightarrow> None)"

definition mulle_objc_loadinfo_get_origin :: "'imp mulle_objc_loadinfo option \<Rightarrow> string option guarded" where
  "mulle_objc_loadinfo_get_origin info0 =
     (case info0 of
        None \<Rightarrow> Inl (Fail_errno EINVAL)
      | Some info \<Rightarrow>
          if li_origin info \<noteq> None \<and> li_origin info \<noteq> Some [] then Inr (li_origin info)
          else Inr (case first_origin (li_loadclasslist info) (\<lambda>c. lcb_origin (lc_base c)) of
                 Some s \<Rightarrow> Some s
               | None \<Rightarrow> case first_origin (li_loadmixinlist info) (\<lambda>m. lcb_origin (lm_base m)) of
                   Some s \<Rightarrow> Some s
                 | None \<Rightarrow> first_origin (li_loadcategorylist info) lcat_origin))"

text \<open>The \<open>+load\<close> method gets the class, not the metaclass.\<close>

definition call_load :: "'imp universe_env \<Rightarrow> nat \<Rightarrow> uint32 \<Rightarrow> 'imp \<Rightarrow> 'imp universe \<Rightarrow> 'imp universe" where
  "call_load env meta sel imp u =
     ue_call_load env imp (pair_infraclass (u_search_pair u (sc_classpair (u_search_class u meta))))
       (u\<lparr> u_load_calls := u_load_calls u @ [(meta, imp)] \<rparr>)"

text \<open>
  The part of \<open>_mulle_objc_loadinfo_enqueue_nofail\<close> after the universe has been found; it runs
  between locking and unlocking the wait queues from the class list on.
\<close>

definition load_lists ::
    "'imp universe_env \<Rightarrow> nat \<Rightarrow> 'imp mulle_objc_loadinfo \<Rightarrow> 'imp universe \<Rightarrow> 'imp load_state guarded" where
  "load_lists env n info u =
     (let need_sort = (version_bits (li_version info) AND loadinfo_unsorted \<noteq> 0) in
      u_bind (mulle_objc_loadclasslist_enqueue_nofail env n (li_loadclasslist info) need_sort ([], u)) (\<lambda>st1.
      u_bind (mulle_objc_loadmixinlist_enqueue_nofail env n (li_loadmixinlist info) need_sort st1) (\<lambda>st2.
      mulle_objc_loadcategorylist_enqueue_nofail env n (li_loadcategorylist info) need_sort st2)))"

definition mulle_objc_loadinfo_enqueue_nofail ::
    "'imp universe_env \<Rightarrow> nat \<Rightarrow> 'imp mulle_objc_loadinfo option \<Rightarrow> 'imp universe \<Rightarrow> 'imp universe guarded" where
  "mulle_objc_loadinfo_enqueue_nofail env n info0 u =
     (case info0 of
        None \<Rightarrow> Inr u
      | Some info \<Rightarrow>
          u_bind (mulle_objc_universe_assert_runtimeversion env (li_version info)) (\<lambda>_.
          if (case ue_should_load_loadinfo env of None \<Rightarrow> False | Some should_load \<Rightarrow> \<not> should_load info) then Inr u
          else
            u_bind (mulle_objc_universe_assert_loadinfo env info u) (\<lambda>u1.
            u_bind (mulle_objc_loadstringlist_enqueue_nofail (li_loadstringlist info) u1) (\<lambda>u2.
            let u3 = mulle_objc_loadhashedstringlist_enqueue_nofail env (li_loadhashedstringlist info)
                       (version_bits (li_version info) AND loadinfo_unsorted \<noteq> 0) u2 in
            u_bind (mulle_objc_loadsuperlist_enqueue_nofail env (li_loadsuperlist info) u3) (\<lambda>u4.
            u_bind (load_lists env n info u4) (\<lambda>(loads, u5).
              Inr (mulle_objc_callqueue_walk loads (call_load env) u5)))))))"

end
