(* ===== verification/Guarded.thy ===== *)
theory Guarded
  imports Loadinfo Class_Search_Correct
begin

text \<open>
  Rules for the functions of the universe that may report a failure: \<open>u_ensures m Q\<close> says that
  \<open>m\<close> comes to an end, and that the result of a run without a failure satisfies \<open>Q\<close>. With them the
  search that resolves an alias (\<open>mulle-objc-class.c\<close>): it comes to an end and leaves the hierarchy of
  classes alone.
\<close>

section \<open>Rules\<close>

definition u_ensures :: "'a guarded \<Rightarrow> ('a \<Rightarrow> bool) \<Rightarrow> bool" where
  "u_ensures m Q \<longleftrightarrow> m \<noteq> Inl No_return \<and> (\<forall>x. m = Inr x \<longrightarrow> Q x)"

lemma u_ensures_simps [simp]:
  "u_ensures (Inl e) Q \<longleftrightarrow> e \<noteq> No_return"
  "u_ensures (Inr x) Q = Q x"
  by (simp_all add: u_ensures_def)

lemma u_ensures_bind:
  "u_ensures m P \<Longrightarrow> (\<And>x. m = Inr x \<Longrightarrow> P x \<Longrightarrow> u_ensures (f x) Q) \<Longrightarrow> u_ensures (u_bind m f) Q"
  by (cases m) auto

lemma u_ensures_assert: "(b \<Longrightarrow> u_ensures m Q) \<Longrightarrow> u_ensures (u_assert b m) Q"
  by (cases b) auto

lemma u_ensures_if:
  "(b \<Longrightarrow> u_ensures m Q) \<Longrightarrow> (\<not> b \<Longrightarrow> u_ensures n Q) \<Longrightarrow> u_ensures (if b then m else n) Q"
  by simp

lemma u_ensures_mono: "u_ensures m P \<Longrightarrow> (\<And>x. m = Inr x \<Longrightarrow> P x \<Longrightarrow> Q x) \<Longrightarrow> u_ensures m Q"
  by (auto simp: u_ensures_def)

lemma u_ensuresD: "u_ensures m Q \<Longrightarrow> m = Inr x \<Longrightarrow> Q x"
  by (simp add: u_ensures_def)

lemma u_ensures_returns: "u_ensures m Q \<Longrightarrow> m \<noteq> Inl No_return"
  by (simp add: u_ensures_def)

lemma u_ensures_conj: "u_ensures m P \<Longrightarrow> u_ensures m Q \<Longrightarrow> u_ensures m (\<lambda>x. P x \<and> Q x)"
  by (simp add: u_ensures_def)

lemma u_ensures_of_c_result: "u_ensures (of_c_result m) (\<lambda>x. m = Inr x)"
  by (cases m) auto

lemma u_ensures_each:
  assumes "\<And>x v. x \<in> set xs \<Longrightarrow> P v \<Longrightarrow> u_ensures (f x v) P" and "P u"
  shows "u_ensures (u_each f xs u) P"
  using assms
proof (induction xs arbitrary: u)
  case (Cons x xs)
  have "u_ensures (f x u) P" using Cons.prems by simp
  then show ?case
    unfolding u_each.simps by (rule u_ensures_bind) (use Cons in simp)
qed simp

lemma u_ensures_option:
  "(e = None \<Longrightarrow> u_ensures m Q) \<Longrightarrow> (\<And>x. e = Some x \<Longrightarrow> u_ensures (f x) Q) \<Longrightarrow>
    u_ensures (case e of None \<Rightarrow> m | Some x \<Rightarrow> f x) Q"
  by (cases e) auto

section \<open>The search for an alias\<close>

text \<open>
  The environment in which nothing waits for ever: the callback for missing methods declines and
  does nothing, as the default one does; a search may try once; the universe is not
  configured to hang on a warning; and the runtime looks every class up in the class table, as it
  does unless it is built with fast classes.
\<close>

definition tame :: "'imp universe_env \<Rightarrow> bool" where
  "tame env \<longleftrightarrow> (\<forall>w c m. env_method_is_missing (ue_search env) w c m = (True, w)) \<and>
     0 < ue_search_rounds env \<and> \<not> ue_warn_hang env \<and>
     (\<forall>classid. ue_build_fcs env \<longrightarrow> \<not> ue_no_fast_call env \<longrightarrow> ue_fastclass_index env classid < 0)"

lemma tame_lookup:
  assumes "tame env"
  shows "mulle_objc_universe_lookup_infraclass_nodelegate env u classid = map_of (u_classtable u) classid"
proof -
  have "\<not> (ue_build_fcs env \<and> \<not> ue_no_fast_call env \<and> 0 \<le> ue_fastclass_index env classid)"
    using assms by (auto simp: tame_def linorder_not_le)
  then show ?thesis
    unfolding mulle_objc_universe_lookup_infraclass_nodelegate_def Let_def by (rule if_not_P)
qed

lemma declined_retry:
  assumes "\<And>w c m. env_method_is_missing env w c m = (True, w)"
  shows "holds (search_method_retry env depth rounds search cls inheritance s) (\<lambda>(m, t). same_shape s t)"
proof (cases rounds)
  case (Suc k)
  have body: "holds (if st_mode t = MULLE_OBJC_SEARCH_PREVIOUS_METHOD \<or> st_mode t = MULLE_OBJC_SEARCH_SUPER_METHOD \<or>
         st_mode t = MULLE_OBJC_SEARCH_OVERRIDDEN_METHOD
       then run_return (None, set_error EINVAL t)
       else case m of
              Method_Null \<Rightarrow> run_return (None, t)
            | Method_Found method \<Rightarrow> run_return (Some method, t)
            | Method_Fail \<Rightarrow>
                if result_error (st_result t) = Some EEXIST then run_fault Aborted
                else c_assert (result_error (st_result t) = Some ENOENT)
                  (if env_deinitializing env then run_return (None, t)
                   else
                     let (declined, w) = env_method_is_missing env (st_world t) cls
                                           (args_methodid (search_args search));
                         s2 = t\<lparr> st_world := w \<rparr>
                     in if \<not> declined then search_method_retry env depth k search cls inheritance s2
                        else run_return (None, s2))) (\<lambda>(m, t). same_shape s t)"
    if "same_shape s t" for m t
    using that
    by (cases m; simp add: assms) (auto intro!: holds_c_assert simp: same_shape_def)
  have ok: "holds (mulle_objc_class_search_method_internal depth search cls inheritance s) (search_ok s)"
    using internal_ok [of depth search] by (simp add: rec_ok_def)
  show ?thesis
    unfolding Suc search_method_retry.simps
    by (rule holds_run_bind [OF ok], clarify, rule body) (simp add: search_ok_def)
qed simp

lemma declined_retry_returns:
  assumes "\<And>w c m. env_method_is_missing env w c m = (True, w)"
    and "ranked (st_world s) r" and "r cls + 2 \<le> depth"
  shows "returns (search_method_retry env depth (Suc k) search cls inheritance s)"
  unfolding search_method_retry.simps
  by (rule returns_run_bind [OF internal_returns [OF assms(2,3)]])
    (auto simp: assms(1) intro!: returns_c_assert split: search_method.split)

text \<open>A search before \<open>+initialize\<close> is not preceded by any setup.\<close>

abbreviation alias_search :: "uint32 \<Rightarrow> ('imp, unit) mulle_objc_searcharguments" where
  "alias_search alias \<equiv> mulle_objc_searcharguments_set_initialize
     (mulle_objc_searcharguments_make_default alias) False"

lemma alias_search_setup [simp]: "search_setup env cls (alias_search alias) w = w"
  by (simp add: search_setup_def mulle_objc_searcharguments_set_initialize_def)

lemma alias_search_ensures:
  assumes "tame env" and "ranked w r" and "r cls + 2 \<le> depth"
  shows "u_ensures (of_c_run (mulle_objc_class_search_method (ue_search env) depth (ue_search_rounds env)
      (Some cls) (Some (alias_search alias)) inheritance (search_start w)))
    (\<lambda>(m, s). w_class (st_world s) = w_class w \<and> w_pair (st_world s) = w_pair w)"
    (is "u_ensures (of_c_run ?run) ?Q")
proof -
  obtain k where k: "ue_search_rounds env = Suc k" and declines: "env_method_is_missing (ue_search env) w c m = (True, w)" for w c m
    using assms(1) by (cases "ue_search_rounds env") (auto simp: tame_def)
  have start: "st_world (search_start w) = w" by (simp add: search_start_def)
  have shape: "holds ?run ?Q"
  proof -
    have "holds (search_method_retry (ue_search env) depth rounds (alias_search alias) cls inheritance (set_error ENOENT s)) ?Q"
      if "st_world s = w" for s rounds
      using declined_retry [OF declines, of depth rounds "alias_search alias" cls inheritance "set_error ENOENT s"]
        that by (elim holds_mono) (auto simp: same_shape_def set_error_def)
    note retry = this
    have "holds (run_return (None, set_error EINVAL s)) ?Q" if "st_world s = w" for s
      using that by (simp add: set_error_def)
    then show ?thesis
      unfolding mulle_objc_class_search_method_def option.case prod.case Let_def
      by (intro holds_c_assert) (simp add: retry start)
  qed
  have "returns ?run"
    unfolding mulle_objc_class_search_method_def option.case prod.case Let_def k
    by (intro returns_c_assert returns_cases returns_simps declined_retry_returns [where r = r])
      (use assms in \<open>simp_all add: declines start set_error_def\<close>)
  with shape show ?thesis
    by (cases ?run) (auto simp: holds_def of_c_result_def split: sum.split)
qed

end
