(* ===== verification/Universe_Core.thy ===== *)
theory Universe_Core
  imports Guarded
begin

text \<open>
  What the additions to a class leave alone. The \<open>core\<close> of a universe is what the dependency
  checks of the loader read and what its invariants speak of: the ids, names and superclasses of the
  classes, the class pairs with their mixins and categories, the class tables, the wait queues and the
  calls of \<open>+load\<close>. Registering descriptors, ivars, properties and protocols keeps it.
\<close>

section \<open>The core of a universe\<close>

definition class_core where
  "class_core u c = (let s = u_search_class u c; d = u_class u c in
     (sc_classid s, sc_superclass s, sc_infraclass s, sc_classpair s, sc_state s AND CLASS_STATE_IS_MIXIN,
      class_name d, class_isa d, class_ivarhash d))"

definition pair_core where
  "pair_core u p = (u_search_pair u p, pair_categoryids (u_pair u p), pair_loadclass (u_pair u p))"

definition table_core where
  "table_core u = (u_n_pairs u, u_classtable u, u_fastclasstable u, u_classestoload u, u_categoriestoload u,
     u_load_calls u)"

definition core where
  "core u = (class_core u, pair_core u, table_core u)"

lemma coreI:
  "(\<And>c. class_core u c = class_core v c) \<Longrightarrow> (\<And>p. pair_core u p = pair_core v p) \<Longrightarrow>
    table_core u = table_core v \<Longrightarrow> core u = core v"
  by (auto simp: core_def)

lemma coreD:
  assumes "core u = core v"
  shows "sc_classid (u_search_class u c) = sc_classid (u_search_class v c)"
    "sc_superclass (u_search_class u c) = sc_superclass (u_search_class v c)"
    "sc_infraclass (u_search_class u c) = sc_infraclass (u_search_class v c)"
    "sc_classpair (u_search_class u c) = sc_classpair (u_search_class v c)"
    "sc_state (u_search_class u c) AND CLASS_STATE_IS_MIXIN = sc_state (u_search_class v c) AND CLASS_STATE_IS_MIXIN"
    "class_name (u_class u c) = class_name (u_class v c)"
    "class_isa (u_class u c) = class_isa (u_class v c)"
    "class_ivarhash (u_class u c) = class_ivarhash (u_class v c)"
    "u_search_pair u p = u_search_pair v p"
    "pair_categoryids (u_pair u p) = pair_categoryids (u_pair v p)"
    "pair_loadclass (u_pair u p) = pair_loadclass (u_pair v p)"
    "u_n_pairs u = u_n_pairs v" "u_classtable u = u_classtable v" "u_fastclasstable u = u_fastclasstable v"
    "u_classestoload u = u_classestoload v" "u_categoriestoload u = u_categoriestoload v"
    "u_load_calls u = u_load_calls v"
proof -
  have "class_core u c = class_core v c" "pair_core u p = pair_core v p" "table_core u = table_core v"
    using assms by (auto simp: core_def)
  then show "sc_classid (u_search_class u c) = sc_classid (u_search_class v c)"
    "sc_superclass (u_search_class u c) = sc_superclass (u_search_class v c)"
    "sc_infraclass (u_search_class u c) = sc_infraclass (u_search_class v c)"
    "sc_classpair (u_search_class u c) = sc_classpair (u_search_class v c)"
    "sc_state (u_search_class u c) AND CLASS_STATE_IS_MIXIN = sc_state (u_search_class v c) AND CLASS_STATE_IS_MIXIN"
    "class_name (u_class u c) = class_name (u_class v c)"
    "class_isa (u_class u c) = class_isa (u_class v c)"
    "class_ivarhash (u_class u c) = class_ivarhash (u_class v c)"
    "u_search_pair u p = u_search_pair v p"
    "pair_categoryids (u_pair u p) = pair_categoryids (u_pair v p)"
    "pair_loadclass (u_pair u p) = pair_loadclass (u_pair v p)"
    "u_n_pairs u = u_n_pairs v" "u_classtable u = u_classtable v" "u_fastclasstable u = u_fastclasstable v"
    "u_classestoload u = u_classestoload v" "u_categoriestoload u = u_categoriestoload v"
    "u_load_calls u = u_load_calls v"
    by (simp_all add: class_core_def pair_core_def table_core_def Let_def)
qed

lemmas core_defs = core_def class_core_def pair_core_def table_core_def Let_def

lemma core_table_updates [simp]:
  "core (u\<lparr> u_descriptortable := a \<rparr>) = core u"
  "core (u\<lparr> u_varyingtypetable := b \<rparr>) = core u"
  "core (u\<lparr> u_protocoltable := d \<rparr>) = core u"
  "core (u\<lparr> u_categorytable := e \<rparr>) = core u"
  "core (u\<lparr> u_supertable := f \<rparr>) = core u"
  "core (u\<lparr> u_propertyidtable := g \<rparr>) = core u"
  "core (u\<lparr> u_n_lists := h \<rparr>) = core u"
  "core (u\<lparr> u_classindex := i \<rparr>) = core u"
  "core (u\<lparr> u_hashnames := j \<rparr>) = core u"
  "core (u\<lparr> u_staticinstances := k \<rparr>) = core u"
  "core (u\<lparr> u_static_isa := l \<rparr>) = core u"
  "core (u\<lparr> u_loadbits := m \<rparr>) = core u"
  "core (u\<lparr> u_invalidations := n \<rparr>) = core u"
  by (simp_all add: core_defs fun_eq_iff)

lemma core_update_class:
  "(\<And>d. class_name (f d) = class_name d \<and> class_isa (f d) = class_isa d \<and> class_ivarhash (f d) = class_ivarhash d) \<Longrightarrow>
    core (update_class c f u) = core u"
  by (simp add: core_defs update_class_def fun_eq_iff)

lemma core_update_search_class:
  "(\<And>s. sc_classid (f s) = sc_classid s \<and> sc_superclass (f s) = sc_superclass s \<and> sc_infraclass (f s) = sc_infraclass s \<and>
      sc_classpair (f s) = sc_classpair s \<and>
      sc_state (f s) AND CLASS_STATE_IS_MIXIN = sc_state s AND CLASS_STATE_IS_MIXIN) \<Longrightarrow>
    core (update_search_class c f u) = core u"
  by (simp add: core_defs update_search_class_def fun_eq_iff)

lemma core_update_pair:
  "(\<And>q. pair_categoryids (f q) = pair_categoryids q \<and> pair_loadclass (f q) = pair_loadclass q) \<Longrightarrow>
    core (update_pair p f u) = core u"
  by (simp add: core_defs update_pair_def fun_eq_iff)

lemma core_world:
  "w_class w = w_class (u_world u) \<Longrightarrow> w_pair w = w_pair (u_world u) \<Longrightarrow> core (u\<lparr> u_world := w \<rparr>) = core u"
  by (simp add: core_defs fun_eq_iff)

section \<open>Operations that keep the core\<close>

text \<open>A chain of such operations keeps it.\<close>

lemma core_bind:
  assumes "u_ensures m (\<lambda>v. core v = core u)"
    and "\<And>v. core v = core u \<Longrightarrow> u_ensures (f v) (\<lambda>w. core w = core v)"
  shows "u_ensures (u_bind m f) (\<lambda>w. core w = core u)"
proof (rule u_ensures_bind [OF assms(1)])
  fix v assume v: "core v = core u"
  from assms(2) [OF v] show "u_ensures (f v) (\<lambda>w. core w = core u)" by (simp add: v)
qed

lemma core_bind_pair:
  assumes "u_ensures m (\<lambda>(d, v). core v = core u)"
    and "\<And>d v. core v = core u \<Longrightarrow> u_ensures (f d v) (\<lambda>w. core w = core v)"
  shows "u_ensures (u_bind m (\<lambda>(d, v). f d v)) (\<lambda>w. core w = core u)"
proof (rule u_ensures_bind [OF assms(1)], clarify)
  fix d v assume v: "core v = core u"
  from assms(2) [OF v, of d] show "u_ensures (f d v) (\<lambda>w. core w = core u)" by (simp add: v)
qed

lemma core_of_c_result:
  "(\<And>x. m = Inr x \<Longrightarrow> u_ensures (f x) P) \<Longrightarrow> u_ensures (u_bind (of_c_result m) f) P"
  by (cases m) auto

section \<open>Tables\<close>

lemma core_register_category:
  "u_ensures (mulle_objc_universe_register_category_nofail u categoryid name) (\<lambda>u'. core u' = core u)"
  unfolding mulle_objc_universe_register_category_nofail_def
  by (rule core_bind_pair)
    (auto simp: mulle_objc_universe_register_category_def split: prod.split option.split)

lemma core_register_protocol:
  "u_ensures (mulle_objc_universe_register_protocol_nofail u p) (\<lambda>u'. core u' = core u)"
  unfolding mulle_objc_universe_register_protocol_nofail_def
  by (rule core_bind_pair)
    (auto simp: mulle_objc_universe_register_protocol_def intro!: u_ensures_assert split: prod.split option.split)

lemma maybe_hang_ensures:
  "tame env \<Longrightarrow> P x \<Longrightarrow> u_ensures (mulle_objc_universe_maybe_hang_or_abort env x) P"
  by (simp add: mulle_objc_universe_maybe_hang_or_abort_def tame_def)

lemma core_register_descriptor_nonnull:
  assumes "tame env"
  shows "u_ensures (mulle_objc_universe_register_descriptor_nonnull env u p) (\<lambda>(d, u'). core u' = core u)"
proof (cases "map_of (u_descriptortable u) (desc_methodid p)")
  case (Some dup)
  then show ?thesis
    unfolding mulle_objc_universe_register_descriptor_nonnull_def Let_def
    by (auto intro!: u_ensures_assert core_of_c_result maybe_hang_ensures [OF assms])
qed (simp add: mulle_objc_universe_register_descriptor_nonnull_def)

lemma core_register_descriptor:
  assumes "tame env"
  shows "u_ensures (mulle_objc_universe_register_descriptor_nofail env u p) (\<lambda>u'. core u' = core u)"
  unfolding mulle_objc_universe_register_descriptor_nofail_def
  by (intro u_ensures_if core_bind_pair [OF core_register_descriptor_nonnull [OF assms]]) simp_all

lemma core_register_propertyid:
  assumes "tame env"
  shows "u_ensures (mulle_objc_universe_register_propertyid_for_methodid_nofail env u propertyid methodid)
    (\<lambda>u'. core u' = core u)"
proof -
  have "u_ensures (mulle_objc_universe_register_propertyid_for_methodid env u propertyid methodid) (\<lambda>(r, u'). core u' = core u)"
    by (auto simp: mulle_objc_universe_register_propertyid_for_methodid_def intro!: maybe_hang_ensures [OF assms]
        split: prod.split option.split)
  then show ?thesis
    unfolding mulle_objc_universe_register_propertyid_for_methodid_nofail_def
    by (intro u_ensures_if core_bind_pair) simp_all
qed

lemma core_set_state_bit:
  assumes "b AND CLASS_STATE_IS_MIXIN = 0"
  shows "u_ensures (mulle_objc_class_set_state_bit c b u) (\<lambda>u'. core u' = core u)"
proof -
  have "core (update_search_class c (sc_state_update (\<lambda>_. sc_state (u_search_class u c) OR b)) u) = core u"
    using assms by (simp add: core_defs update_search_class_def bit.conj_disj_distrib2 fun_eq_iff)
  then show ?thesis
    by (simp add: mulle_objc_class_set_state_bit_def mulle_objc_class_change_state_bit_def u_assert_def Let_def)
qed

section \<open>Ivars and properties\<close>

lemma core_add_ivarlists [simp]:
  "core (mulle_objc_infraclass_add_ivarlist infra ivars u) = core u"
  "core (mulle_objc_metaclass_add_ivarlist meta ivars u) = core u"
  by (simp_all add: mulle_objc_infraclass_add_ivarlist_def mulle_objc_metaclass_add_ivarlist_def core_update_class
      split: option.split)

lemma core_register_setter_like:
  assumes "tame env"
  shows "u_ensures (register_setter_like env property s_len family prefix methodid wanted u) (\<lambda>u'. core u' = core u)"
proof -
  have "u_ensures (mulle_objc_universe_set_setter_name_signature env accessor prefix name signature s_len) (\<lambda>_. True)"
    for accessor name signature
    unfolding mulle_objc_universe_set_setter_name_signature_def Let_def
    by (intro u_ensures_assert core_of_c_result u_ensures_option) (auto split: option.split)
  note name = this
  show ?thesis
    unfolding register_setter_like_def
    by (rule u_ensures_if, simp, rule u_ensures_bind [where P = "\<lambda>_. True"])
      (simp_all add: name core_bind_pair [OF core_register_descriptor_nonnull [OF assms]])
qed

lemma core_register_descriptors_for_property:
  assumes "tame env"
  shows "u_ensures (mulle_objc_universe_register_descriptors_for_property env property getter setter adder remover u)
     (\<lambda>u'. core u' = core u)"
  unfolding mulle_objc_universe_register_descriptors_for_property_def Let_def
  by (intro core_bind core_register_setter_like assms u_ensures_if core_bind_pair core_register_descriptor_nonnull)
    simp_all

lemma core_register_dynamic_property:
  "tame env \<Longrightarrow> u_ensures (register_dynamic_property env property u) (\<lambda>u'. core u' = core u)"
  by (simp add: register_dynamic_property_def Let_def core_register_descriptors_for_property)

lemma core_register_accessorid:
  "tame env \<Longrightarrow> u_ensures (register_accessorid env propertyid methodid u) (\<lambda>u'. core u' = core u)"
  by (simp add: register_accessorid_def core_register_propertyid)

lemma core_register_property:
  assumes "tame env"
  shows "u_ensures (register_property env infra property u) (\<lambda>u'. core u' = core u)"
  unfolding register_property_def
  by (intro core_bind core_register_dynamic_property core_register_propertyid core_register_accessorid
      u_ensures_if core_set_state_bit assms) (simp_all add: c_defs)

lemma core_register_properties:
  assumes "tame env"
  shows "u_ensures (register_properties env infra properties lastid u) (\<lambda>(e, u'). core u' = core u)"
proof (induction properties arbitrary: lastid u)
  case (Cons p properties)
  show ?case
    unfolding register_properties.simps
  proof (intro u_ensures_assert u_ensures_if u_ensures_bind [OF core_register_property [OF assms]])
    fix v assume v: "core v = core u"
    show "u_ensures (register_properties env infra properties (property_propertyid p) v) (\<lambda>(e, u'). core u' = core u)"
      using Cons.IH [of "property_propertyid p" v] by (simp add: v)
  qed simp
qed simp

lemma core_infraclass_add_propertylist:
  assumes "tame env"
  shows "u_ensures (mulle_objc_infraclass_add_propertylist_nofail env infra properties u) (\<lambda>u'. core u' = core u)"
proof -
  have upd: "core (update_class c (class_propertylists_update f) v) = core v" for c f and v :: "'a universe"
    by (rule core_update_class) simp
  have "u_ensures (mulle_objc_infraclass_add_propertylist env infra properties u) (\<lambda>(e, u'). core u' = core u)"
    unfolding mulle_objc_infraclass_add_propertylist_def
    by (intro u_ensures_option u_ensures_bind [OF core_register_properties [OF assms]]) (auto simp: upd)
  then show ?thesis
    unfolding mulle_objc_infraclass_add_propertylist_nofail_def
    by (rule core_bind_pair) (simp split: option.split)
qed

lemma core_metaclass_add_propertylist:
  "u_ensures (mulle_objc_metaclass_add_propertylist_nofail meta properties u) (\<lambda>u'. core u' = core u)"
proof -
  have "core (update_class c (class_propertylists_update f) v) = core v" for c f and v :: "'a universe"
    by (rule core_update_class) simp
  then show ?thesis
    by (simp add: mulle_objc_metaclass_add_propertylist_nofail_def mulle_objc_metaclass_add_propertylist_def split: option.split)
qed

section \<open>Protocols and the load queue\<close>

lemma core_collect_protocolids:
  "u_ensures (collect_protocolids pair protocols prev ids u) (\<lambda>(ids', u'). core u' = core u)"
proof (induction protocols arbitrary: prev ids u)
  case (Cons p protocols)
  show ?case
    unfolding collect_protocolids.simps
  proof (intro u_ensures_if core_of_c_result Cons.IH u_ensures_bind [OF core_register_protocol] u_ensures_assert)
    fix v assume v: "core v = core u"
    show "u_ensures (collect_protocolids pair protocols (protocol_protocolid p) (ids @ [protocol_protocolid p]) v)
        (\<lambda>(ids', u'). core u' = core u)"
      using Cons.IH [of "protocol_protocolid p" "ids @ [protocol_protocolid p]" v] by (simp add: v)
  qed simp
qed simp

lemma core_add_protocollist:
  "u_ensures (mulle_objc_classpair_add_protocollist_nofail env (Some pair) protocols u) (\<lambda>u'. core u' = core u)"
  unfolding mulle_objc_classpair_add_protocollist_nofail_def option.case
  by (intro u_ensures_option u_ensures_if core_bind_pair [OF core_collect_protocolids])
    (simp_all add: mulle_objc_classpair_add_protocolids_def core_update_pair)

text \<open>The addition to the queue appends at most the entry for \<open>+load\<close>.\<close>

definition load_entries :: "'imp search_methodlist option \<Rightarrow> nat \<Rightarrow> 'imp mulle_objc_callqueue" where
  "load_entries list0 meta =
     (case list0 of
        None \<Rightarrow> []
      | Some ml \<Rightarrow>
          (case mulle_objc_methodlist_search (ml_methods ml) MULLE_OBJC_LOAD_METHODID of
             Inr (Some i) \<Rightarrow> [\<lparr> entry_obj = meta, entry_uniqueid = MULLE_OBJC_LOAD_METHODID,
                                entry_imp = method_implementation (ml_methods ml ! i) \<rparr>]
           | _ \<Rightarrow> []))"

lemma core_add_load:
  "u_ensures (mulle_objc_methodlist_add_load_to_callqueue_nofail list0 meta loads u)
     (\<lambda>(loads', u'). core u' = core u \<and> loads' = loads @ load_entries list0 meta)"
proof (cases list0)
  case (Some ml)
  have sched: "u_ensures (mulle_objc_class_set_state_bit meta CLASS_STATE_LOAD_SCHEDULED u) (\<lambda>u'. core u' = core u)"
    by (rule core_set_state_bit) (simp add: c_defs)
  have sane: "mulle_objc_uniqueid_is_sane MULLE_OBJC_LOAD_METHODID"
    by (simp add: mulle_objc_uniqueid_is_sane_def c_defs)
  show ?thesis
  proof (cases "mulle_objc_methodlist_search (ml_methods ml) MULLE_OBJC_LOAD_METHODID")
    case (Inr r)
    show ?thesis
    proof (cases r)
      case (Some i)
      from sched show ?thesis
        by (cases "mulle_objc_class_set_state_bit meta CLASS_STATE_LOAD_SCHEDULED u")
          (simp_all add: mulle_objc_methodlist_add_load_to_callqueue_nofail_def \<open>list0 = Some ml\<close> Inr Some load_entries_def
            mulle_objc_methodlist_add_load_to_callqueue_def mulle_objc_callqueue_add_def sane)
    qed (simp add: mulle_objc_methodlist_add_load_to_callqueue_nofail_def Some Inr load_entries_def
        mulle_objc_methodlist_add_load_to_callqueue_def)
  qed (simp add: mulle_objc_methodlist_add_load_to_callqueue_nofail_def Some
      mulle_objc_methodlist_add_load_to_callqueue_def)
qed (simp add: mulle_objc_methodlist_add_load_to_callqueue_nofail_def mulle_objc_methodlist_add_load_to_callqueue_def
    load_entries_def)

end
