(* ===== verification/Universe_Invariant.thy ===== *)
theory Universe_Invariant
  imports Universe_Core
begin

text \<open>
  What holds of a universe between two operations of the loader: every class pair is complete, the
  superclass of a class is a registered class that is older, the metaclasses mirror their classes,
  mixins are registered and marked, and the tables hold classes under their ids. In such a universe a
  method search comes to an end, so the search for an alias does.
\<close>

section \<open>Places in the heap\<close>

lemma places [simp]:
  "infra_of p = infra_of q \<longleftrightarrow> p = q" "meta_of p = meta_of q \<longleftrightarrow> p = q"
  "infra_of p \<noteq> meta_of q" "meta_of q \<noteq> infra_of p"
  "infra_of p < 2 * n \<longleftrightarrow> p < n" "meta_of p < 2 * n \<longleftrightarrow> p < n"
  "infra_of p < infra_of q \<longleftrightarrow> p < q" "meta_of p < meta_of q \<longleftrightarrow> p < q"
  "infra_of p < meta_of p" "infra_of p < meta_of q \<longleftrightarrow> p \<le> q"
proof -
  show "infra_of p \<noteq> meta_of q" unfolding infra_of_def meta_of_def by presburger
  then show "meta_of q \<noteq> infra_of p" by simp
qed (auto simp: infra_of_def meta_of_def)

lemma place_cases:
  assumes "c < 2 * n"
  obtains p where "p < n" "c = infra_of p" | p where "p < n" "c = meta_of p"
proof -
  have "c = 2 * (c div 2) \<or> c = 2 * (c div 2) + 1" by presburger
  moreover have "c div 2 < n" using assms by simp
  ultimately show ?thesis using that by (auto simp: infra_of_def meta_of_def)
qed

section \<open>The invariant\<close>

definition registered :: "'imp universe \<Rightarrow> nat \<Rightarrow> bool" where
  "registered u c \<longleftrightarrow> (\<exists>classid. map_of (u_classtable u) classid = Some c)"

definition pair_ok :: "'imp universe \<Rightarrow> nat \<Rightarrow> bool" where
  "pair_ok u p \<longleftrightarrow>
     (let infra = u_search_class u (infra_of p); meta = u_search_class u (meta_of p) in
      pair_infraclass (u_search_pair u p) = infra_of p \<and> pair_metaclass (u_search_pair u p) = meta_of p \<and>
      sc_classpair infra = p \<and> sc_classpair meta = p \<and>
      sc_infraclass infra = None \<and> sc_infraclass meta = Some (infra_of p) \<and>
      sc_classid infra \<noteq> 0 \<and> sc_classid meta = sc_classid infra \<and>
      class_name (u_class u (meta_of p)) = class_name (u_class u (infra_of p)) \<and>
      class_isa (u_class u (infra_of p)) = meta_of p \<and>
      (case sc_superclass infra of
         None \<Rightarrow> sc_superclass meta = Some (infra_of p) \<and> class_isa (u_class u (meta_of p)) = infra_of p
       | Some super \<Rightarrow> \<exists>q < p. super = infra_of q \<and> registered u super \<and> sc_superclass meta = Some (meta_of q) \<and>
           class_isa (u_class u (meta_of p)) = class_isa (u_class u (meta_of q))) \<and>
      distinct (pair_mixins (u_search_pair u p)) \<and>
      (\<forall>mixin \<in> set (pair_mixins (u_search_pair u p)).
         registered u mixin \<and> sc_state (u_search_class u mixin) AND CLASS_STATE_IS_MIXIN \<noteq> 0))"

definition universe_ok :: "'imp universe \<Rightarrow> bool" where
  "universe_ok u \<longleftrightarrow>
     (\<forall>p < u_n_pairs u. pair_ok u p) \<and>
     (\<forall>c \<ge> 2 * u_n_pairs u. sc_superclass (u_search_class u c) = None) \<and>
     (\<forall>classid c. map_of (u_classtable u) classid = Some c \<longrightarrow>
        sc_classid (u_search_class u c) = classid \<and> (\<exists>p < u_n_pairs u. c = infra_of p)) \<and>
     (\<forall>index c. u_fastclasstable u index = Some c \<longrightarrow> (\<exists>p < u_n_pairs u. c = infra_of p))"

lemma universe_ok_core:
  assumes "core u = core v"
  shows "universe_ok u \<longleftrightarrow> universe_ok v"
  by (simp add: universe_ok_def pair_ok_def registered_def Let_def coreD [OF assms] cong: option.case_cong)

lemma universe_okD:
  assumes "universe_ok u"
  shows "p < u_n_pairs u \<Longrightarrow> pair_ok u p"
    and "2 * u_n_pairs u \<le> c \<Longrightarrow> sc_superclass (u_search_class u c) = None"
    and "map_of (u_classtable u) classid = Some c \<Longrightarrow> sc_classid (u_search_class u c) = classid"
    and "registered u c \<Longrightarrow> \<exists>p < u_n_pairs u. c = infra_of p"
    and "u_fastclasstable u index = Some c \<Longrightarrow> \<exists>p < u_n_pairs u. c = infra_of p"
  using assms by (auto simp: universe_ok_def registered_def)

lemma pair_okD:
  assumes "pair_ok u p"
  shows "pair_infraclass (u_search_pair u p) = infra_of p" "pair_metaclass (u_search_pair u p) = meta_of p"
    "sc_classpair (u_search_class u (infra_of p)) = p" "sc_classpair (u_search_class u (meta_of p)) = p"
    "sc_infraclass (u_search_class u (infra_of p)) = None"
    "sc_infraclass (u_search_class u (meta_of p)) = Some (infra_of p)"
    "class_isa (u_class u (infra_of p)) = meta_of p"
    "sc_classid (u_search_class u (infra_of p)) \<noteq> 0"
    "sc_classid (u_search_class u (meta_of p)) = sc_classid (u_search_class u (infra_of p))"
  using assms by (simp_all add: pair_ok_def Let_def)

text \<open>Every class is above its superclass in the heap, so the search comes to an end.\<close>

lemma universe_ok_ranked:
  assumes "universe_ok u"
  shows "ranked (u_world u) (\<lambda>c. c)"
  unfolding ranked_def
proof (intro allI impI)
  fix c super assume super: "sc_superclass (u_search_class u c) = Some super"
  then have "c < 2 * u_n_pairs u" using universe_okD(2) [OF assms, of c] by (cases "c < 2 * u_n_pairs u") auto
  then show "super < c"
  proof (cases rule: place_cases)
    case (1 p)
    with super universe_okD(1) [OF assms 1(1)] show ?thesis by (auto simp: pair_ok_def Let_def)
  next
    case (2 p)
    with super universe_okD(1) [OF assms 2(1)] show ?thesis
      by (auto simp: pair_ok_def Let_def split: option.splits)
  qed
qed

section \<open>Method lists\<close>

text \<open>A method list is added to a class of the heap.\<close>

lemma core_resolve_alias:
  assumes "tame env" and "universe_ok u" and "cls < 2 * u_n_pairs u"
  shows "u_ensures (resolve_alias env cls list i u) (\<lambda>u'. core u' = core u)"
proof -
  let ?m = "ml_methods (w_list (u_world u) list) ! i"
  let ?c = "alias_search_class u cls ?m"
  have "?c < 2 * u_n_pairs u"
    using assms(3)
  proof (cases rule: place_cases)
    case (1 p)
    with universe_okD(1) [OF assms(2) 1(1)] show ?thesis
      by (auto simp: alias_search_class_def Let_def mulle_objc_class_is_metaclass_def pair_ok_def)
  next
    case (2 p)
    with universe_okD(1) [OF assms(2) 2(1)] show ?thesis
      by (auto simp: alias_search_class_def Let_def mulle_objc_class_is_metaclass_def pair_ok_def)
  qed
  then have depth: "?c + 2 \<le> alias_search_depth u" by (simp add: alias_search_depth_def)
  note run = alias_search_ensures [OF assms(1) universe_ok_ranked [OF assms(2)] depth]
  show ?thesis
    unfolding resolve_alias_def Let_def
  proof (intro u_ensures_if u_ensures_bind [OF run], goal_cases)
    case (2 x)
    obtain other s where x: "x = (other, s)" by (cases x)
    with 2 have shape: "w_class (st_world s) = u_search_class u" "w_pair (st_world s) = u_search_pair u" by simp_all
    have "core (u\<lparr> u_world := set_list_implementation list i imp (st_world s) \<rparr>) = core u" for imp
      by (rule core_world) (simp_all add: set_list_implementation_def Let_def shape)
    then show ?case by (simp add: x split: option.split)
  qed simp
qed

lemma core_register_methods:
  assumes "tame env"
  shows "u_ensures (register_methods env methods lastid bits u) (\<lambda>(e, b, u'). core u' = core u)"
proof (induction methods arbitrary: lastid bits u)
  case (Cons m methods)
  show ?case
    unfolding register_methods.simps
  proof (intro u_ensures_assert u_ensures_if u_ensures_bind [OF core_register_descriptor [OF assms]])
    fix v assume v: "core v = core u"
    show "u_ensures (register_methods env methods (method_methodid m) (bits OR desc_bits (method_descriptor m)) v)
        (\<lambda>(e, b, u'). core u' = core u)"
      using Cons.IH [of "method_methodid m" "bits OR desc_bits (method_descriptor m)" v] by (simp add: v)
  qed simp
qed simp

lemma core_resolve_aliases:
  assumes "tame env" and "universe_ok u" and "cls < 2 * u_n_pairs u" and "core v = core u"
  shows "u_ensures (u_each (resolve_alias env cls list) is v) (\<lambda>v'. core v' = core u)"
proof (rule u_ensures_each [where P = "\<lambda>v. core v = core u"])
  fix i v assume v: "core v = core u"
  from core_resolve_alias [OF assms(1), of v cls list i] universe_ok_core [OF v] coreD(12) [OF v] assms(2,3)
  show "u_ensures (resolve_alias env cls list i v) (\<lambda>v'. core v' = core u)" by (simp add: v)
qed (fact assms(4))

lemma core_new_methodlist:
  "core (update_search_class cls (sc_methodlists_update f) (v\<lparr> u_n_lists := k, u_world := (u_world v)\<lparr> w_list := g \<rparr> \<rparr>)) = core v"
  by (simp add: core_defs update_search_class_def fun_eq_iff)

lemma core_add_methodlist:
  assumes "tame env" and "universe_ok u" and "cls < 2 * u_n_pairs u"
  shows "u_ensures (mulle_objc_class_add_methodlist env cls list u) (\<lambda>(e, u'). core u' = core u)"
proof -
  have "u_ensures (mulle_objc_class_add_methodlist_nocache env cls list u) (\<lambda>(e, l, u'). core u' = core u)"
  proof (cases list)
    case None
    then show ?thesis by (simp add: mulle_objc_class_add_methodlist_nocache_def core_update_search_class)
  next
    case (Some ml)
    show ?thesis
      unfolding mulle_objc_class_add_methodlist_nocache_def Some option.case
    proof (rule u_ensures_bind [OF core_register_methods [OF assms(1)]], clarify)
      fix e b v assume v: "core v = core u"
      show "u_ensures (case e of
            None \<Rightarrow> let list = u_n_lists v;
                      u2 = v\<lparr> u_n_lists := Suc list, u_world := (u_world v)\<lparr> w_list := (w_list (u_world v))(list := ml) \<rparr> \<rparr>;
                      u3 = update_search_class cls (sc_methodlists_update (\<lambda>lists. lists @ [list])) u2
                  in if b AND method_alias_bits = 0 then Inr (None, Some list, u3)
                     else u_bind (u_each (resolve_alias env cls list) [0..<length (ml_methods ml)] u3) (\<lambda>u4.
                       Inr (None, Some list, u4))
          | Some e \<Rightarrow> Inr (Some e, None, v)) (\<lambda>(e, l, u'). core u' = core u)"
        unfolding Let_def
        by (intro u_ensures_option u_ensures_if u_ensures_bind [OF core_resolve_aliases [OF assms]])
          (simp_all add: v core_new_methodlist)
    qed
  qed
  then show ?thesis
    unfolding mulle_objc_class_add_methodlist_def
    by (rule u_ensures_bind)
      (auto simp: mulle_objc_class_didadd_methodlist_def split: option.split)
qed

lemma core_add_methodlist_nofail:
  assumes "tame env" and "universe_ok u" and "cls < 2 * u_n_pairs u"
  shows "u_ensures (mulle_objc_class_add_methodlist_nofail env cls list u) (\<lambda>u'. core u' = core u)"
  unfolding mulle_objc_class_add_methodlist_nofail_def
  by (rule core_bind_pair [OF core_add_methodlist [OF assms]]) simp

end
