(* ===== verification/Load_Install.thy ===== *)
theory Load_Install
  imports Universe_Invariant
begin

text \<open>
  What the installation of a class, a mixin or a category does to the core of the universe. A class
  under construction is the youngest pair of the heap and is not registered yet.
\<close>

section \<open>Older pairs\<close>

lemma class_coreD:
  assumes "class_core u c = class_core v c"
  shows "sc_classid (u_search_class u c) = sc_classid (u_search_class v c)"
    "sc_superclass (u_search_class u c) = sc_superclass (u_search_class v c)"
    "sc_infraclass (u_search_class u c) = sc_infraclass (u_search_class v c)"
    "sc_classpair (u_search_class u c) = sc_classpair (u_search_class v c)"
    "sc_state (u_search_class u c) AND CLASS_STATE_IS_MIXIN = sc_state (u_search_class v c) AND CLASS_STATE_IS_MIXIN"
    "class_name (u_class u c) = class_name (u_class v c)"
    "class_isa (u_class u c) = class_isa (u_class v c)"
    "class_ivarhash (u_class u c) = class_ivarhash (u_class v c)"
  using assms by (simp_all add: class_core_def Let_def)

lemma pair_coreD:
  assumes "pair_core u p = pair_core v p"
  shows "u_search_pair u p = u_search_pair v p" "pair_categoryids (u_pair u p) = pair_categoryids (u_pair v p)"
    "pair_loadclass (u_pair u p) = pair_loadclass (u_pair v p)"
  using assms by (simp_all add: pair_core_def)

lemma pair_ok_mono:
  assumes "pair_ok u p" and "p < n" and "\<And>c. c < 2 * n \<Longrightarrow> class_core v c = class_core u c"
    and "u_search_pair v p = u_search_pair u p"
    and "\<And>c. registered u c \<Longrightarrow> registered v c \<and> c < 2 * n"
  shows "pair_ok v p"
proof -
  have lt: "infra_of p < 2 * n" "meta_of p < 2 * n" using assms(2) by simp_all
  have mixin: "sc_state (u_search_class v x) AND CLASS_STATE_IS_MIXIN = sc_state (u_search_class u x) AND CLASS_STATE_IS_MIXIN"
    if "registered u x" for x
    using class_coreD(5) [OF assms(3)] assms(5) [OF that] by blast
  have super: "class_isa (u_class v (meta_of q)) = class_isa (u_class u (meta_of q))" if "q < p" for q
    using class_coreD(7) [OF assms(3), of "meta_of q"] that assms(2) by simp
  show ?thesis
    using assms(1,4,5) mixin super
    by (auto simp: pair_ok_def Let_def class_coreD [OF assms(3) [OF lt(1)]] class_coreD [OF assms(3) [OF lt(2)]]
        split: option.splits)
qed

section \<open>A class under construction\<close>

definition building ::
    "'imp universe \<Rightarrow> 'imp mulle_objc_loadclassbase \<Rightarrow> nat option \<Rightarrow> 'imp universe \<Rightarrow> bool" where
  "building u base super v \<longleftrightarrow>
     universe_ok v \<and> u_n_pairs v = Suc (u_n_pairs u) \<and> u_classtable v = u_classtable u \<and>
     (\<forall>c < 2 * u_n_pairs u. class_core v c = class_core u c) \<and>
     (\<forall>p < u_n_pairs u. pair_core v p = pair_core u p) \<and>
     sc_classid (u_search_class v (infra_of (u_n_pairs u))) = lcb_classid base \<and>
     sc_superclass (u_search_class v (infra_of (u_n_pairs u))) = super \<and>
     pair_categoryids (u_pair v (u_n_pairs u)) = [] \<and> pair_loadclass (u_pair v (u_n_pairs u)) = Some base \<and>
     u_classestoload v = u_classestoload u \<and> u_categoriestoload v = u_categoriestoload u \<and>
     u_load_calls v = u_load_calls u"

lemma building_core:
  assumes "core v' = core v" and "building u base super v"
  shows "building u base super v'"
proof -
  have "class_core v' = class_core v" "pair_core v' = pair_core v" using assms(1) by (simp_all add: core_def)
  with assms(2) show ?thesis
    by (simp add: building_def coreD [OF assms(1)] universe_ok_core [OF assms(1)])
qed

lemma building_keeps:
  "u_ensures m (\<lambda>v'. core v' = core v) \<Longrightarrow> building u base super v \<Longrightarrow> u_ensures m (building u base super)"
  by (erule u_ensures_mono) (simp add: building_core)

text \<open>Its place in the heap.\<close>

lemma building_pair:
  assumes "building u base super v"
  shows "pair_infraclass (u_search_pair v (u_n_pairs u)) = infra_of (u_n_pairs u)"
    "pair_metaclass (u_search_pair v (u_n_pairs u)) = meta_of (u_n_pairs u)"
    "class_isa (u_class v (infra_of (u_n_pairs u))) = meta_of (u_n_pairs u)"
    "infra_of (u_n_pairs u) < 2 * u_n_pairs v" "meta_of (u_n_pairs u) < 2 * u_n_pairs v"
    "universe_ok v"
proof -
  have ok: "universe_ok v" and n: "u_n_pairs v = Suc (u_n_pairs u)" using assms by (simp_all add: building_def)
  have "pair_ok v (u_n_pairs u)" by (rule universe_okD(1) [OF ok]) (simp add: n)
  from pair_okD [OF this] show "pair_infraclass (u_search_pair v (u_n_pairs u)) = infra_of (u_n_pairs u)"
    "pair_metaclass (u_search_pair v (u_n_pairs u)) = meta_of (u_n_pairs u)"
    "class_isa (u_class v (infra_of (u_n_pairs u))) = meta_of (u_n_pairs u)"
    "infra_of (u_n_pairs u) < 2 * u_n_pairs v" "meta_of (u_n_pairs u) < 2 * u_n_pairs v" "universe_ok v"
    by (simp_all add: n ok del: mult_Suc_right)
qed

subsection \<open>The new pair\<close>

definition super_ok :: "'imp universe \<Rightarrow> nat option \<Rightarrow> bool" where
  "super_ok u super \<longleftrightarrow> (case super of None \<Rightarrow> True | Some c \<Rightarrow> registered u c)"

lemma new_classpair_effect:
  assumes "mulle_objc_universe_new_classpair env (lcb_classid base) (lcb_classname base) sz super u = Inr (p, v)"
    and "universe_ok u" and "super_ok u super"
  shows "p = u_n_pairs u" "building u base super (update_pair p (pair_loadclass_update (\<lambda>_. Some base)) v)"
proof -
  let ?p = "u_n_pairs u"
  let ?v = "update_pair p (pair_loadclass_update (\<lambda>_. Some base)) v"
  obtain name where name: "lcb_classname base = Some name"
    using assms(1) by (cases "lcb_classname base") (auto simp: mulle_objc_universe_new_classpair_def split: if_splits)
  have id: "lcb_classid base \<noteq> 0"
    using assms(1) by (auto simp: mulle_objc_universe_new_classpair_def c_defs split: if_splits)
  show p: "p = ?p"
    using assms(1) by (auto simp: mulle_objc_universe_new_classpair_def Let_def name split: if_splits prod.splits)
  define sm where "sm = map_option (\<lambda>c. pair_metaclass (u_search_pair u (sc_classpair (u_search_class u c)))) super"
  have v: "u_n_pairs v = Suc ?p" "u_classtable v = u_classtable u" "u_fastclasstable v = u_fastclasstable u"
    "u_classestoload v = u_classestoload u" "u_categoriestoload v = u_categoriestoload u" "u_load_calls v = u_load_calls u"
    "c \<noteq> infra_of ?p \<Longrightarrow> c \<noteq> meta_of ?p \<Longrightarrow> u_search_class v c = u_search_class u c \<and> u_class v c = u_class u c"
    "q \<noteq> ?p \<Longrightarrow> u_search_pair v q = u_search_pair u q \<and> u_pair v q = u_pair u q"
    "u_search_pair v ?p = \<lparr> pair_infraclass = infra_of ?p, pair_metaclass = meta_of ?p, pair_mixins = [] \<rparr>"
    "pair_categoryids (u_pair v ?p) = []"
    for c q
    using assms(1)
    by (auto simp: mulle_objc_universe_new_classpair_def Let_def name mulle_objc_class_init_def split: if_splits)
  have infra: "sc_classid (u_search_class v (infra_of ?p)) = lcb_classid base"
    "sc_superclass (u_search_class v (infra_of ?p)) = super" "sc_infraclass (u_search_class v (infra_of ?p)) = None"
    "sc_classpair (u_search_class v (infra_of ?p)) = ?p"
    "class_name (u_class v (infra_of ?p)) = name" "class_isa (u_class v (infra_of ?p)) = meta_of ?p"
    using assms(1)
    by (auto simp: mulle_objc_universe_new_classpair_def Let_def name mulle_objc_class_init_def split: if_splits)
  have meta: "sc_classid (u_search_class v (meta_of ?p)) = lcb_classid base"
    "sc_superclass (u_search_class v (meta_of ?p)) = Some (case sm of Some m \<Rightarrow> m | None \<Rightarrow> infra_of ?p)"
    "sc_infraclass (u_search_class v (meta_of ?p)) = Some (infra_of ?p)"
    "sc_classpair (u_search_class v (meta_of ?p)) = ?p"
    "class_name (u_class v (meta_of ?p)) = name"
    "class_isa (u_class v (meta_of ?p)) = (case sm of Some m \<Rightarrow> class_isa (u_class u m) | None \<Rightarrow> infra_of ?p)"
    using assms(1)
    by (auto simp: mulle_objc_universe_new_classpair_def Let_def name mulle_objc_class_init_def
        mulle_objc_metaclass_plusinit_def sm_def split: if_splits option.splits)
  have old: "class_core v c = class_core u c" if "c < 2 * ?p" for c
  proof -
    have "c \<noteq> infra_of ?p" "c \<noteq> meta_of ?p" using that by (auto simp: infra_of_def meta_of_def)
    then show ?thesis using v(7) by (simp add: class_core_def)
  qed
  have reg: "registered v c \<longleftrightarrow> registered u c" for c by (simp add: registered_def v)
  have new: "pair_ok v ?p"
  proof (cases super)
    case None
    then show ?thesis by (simp add: pair_ok_def infra meta v sm_def id)
  next
    case (Some s)
    then obtain q where q: "q < ?p" "s = infra_of q"
      using universe_okD(4) [OF assms(2), of s] assms(3) by (auto simp: super_ok_def)
    have "sm = Some (meta_of q)"
      using pair_okD [OF universe_okD(1) [OF assms(2) q(1)]] by (simp add: sm_def Some q)
    moreover have "class_isa (u_class v (meta_of q)) = class_isa (u_class u (meta_of q))"
      using class_coreD(7) [OF old, of "meta_of q"] q(1) by simp
    moreover have "registered v s" using assms(3) Some by (simp add: super_ok_def reg)
    ultimately show ?thesis using q by (auto simp: pair_ok_def infra meta v id Some)
  qed
  have "universe_ok v"
    unfolding universe_ok_def
  proof (intro conjI allI impI)
    fix q assume "q < u_n_pairs v"
    then consider "q = ?p" | "q < ?p" unfolding v(1) by linarith
    then show "pair_ok v q"
    proof cases
      case 2
      show ?thesis
        by (rule pair_ok_mono [OF universe_okD(1) [OF assms(2) 2] 2 old])
          (use 2 v(8) in \<open>auto simp: reg dest: universe_okD(4) [OF assms(2)]\<close>)
    qed (use new in simp)
  next
    fix c assume "2 * u_n_pairs v \<le> c"
    then have "c \<noteq> infra_of ?p" "c \<noteq> meta_of ?p" "2 * ?p \<le> c" by (auto simp: infra_of_def meta_of_def v(1))
    then show "sc_superclass (u_search_class v c) = None" using v(7) universe_okD(2) [OF assms(2)] by simp
  next
    fix classid c assume c: "map_of (u_classtable v) classid = Some c"
    then have "registered u c" by (auto simp: registered_def v)
    from universe_okD(4) [OF assms(2) this] obtain q where q: "q < ?p" "c = infra_of q" by blast
    then show "\<exists>q < u_n_pairs v. c = infra_of q" by (auto simp: v(1))
    show "sc_classid (u_search_class v c) = classid"
      using class_coreD(1) [OF old, of c] q universe_okD(3) [OF assms(2)] c by (simp add: v)
  next
    fix index c assume "u_fastclasstable v index = Some c"
    then show "\<exists>q < u_n_pairs v. c = infra_of q"
      using universe_okD(5) [OF assms(2), of index c] by (auto simp: v)
  qed
  then have "universe_ok ?v"
    by (simp add: universe_ok_def pair_ok_def registered_def Let_def update_pair_def cong: option.case_cong)
  moreover have "class_core ?v c = class_core v c" for c by (simp add: class_core_def update_pair_def)
  moreover have "pair_core ?v q = pair_core u q" if "q < ?p" for q
    using v(8) [of q] that by (simp add: pair_core_def update_pair_def p)
  ultimately show "building u base super ?v"
    by (simp add: building_def v old infra p) (simp add: update_pair_def v p infra)
qed

lemma new_loaded_classpair_effect:
  assumes "universe_ok u" and "super_ok u super"
  shows "u_ensures (new_loaded_classpair env base sz super u) (\<lambda>(p, v). p = u_n_pairs u \<and> building u base super v)"
proof (cases "mulle_objc_universe_new_classpair env (lcb_classid base) (lcb_classname base) sz super u")
  case (Inr r)
  obtain p v where r: "r = (p, v)" by (cases r)
  note new = new_classpair_effect [OF Inr [unfolded r] assms]
  show ?thesis
    unfolding new_loaded_classpair_def Inr r sum.case prod.case
    by (rule u_ensures_bind [OF building_keeps [OF core_add_protocollist new(2)]]) (simp add: new(1))
qed (simp add: new_loaded_classpair_def)

subsection \<open>Mixins\<close>

lemma set_mixins_core:
  assumes "v = u\<lparr> u_world := (u_world u)\<lparr> w_pair := (u_search_pair u)(p := (u_search_pair u p)\<lparr> pair_mixins := mixins \<rparr>) \<rparr> \<rparr>"
  shows "class_core v = class_core u" "table_core v = table_core u" "q \<noteq> p \<Longrightarrow> pair_core v q = pair_core u q"
    "u_search_pair v p = (u_search_pair u p)\<lparr> pair_mixins := mixins \<rparr>" "u_pair v = u_pair u"
  by (simp_all add: assms core_defs fun_eq_iff)

lemma add_mixin_ok:
  assumes "universe_ok u" and "registered u mixin"
    and "sc_state (u_search_class u mixin) AND CLASS_STATE_IS_MIXIN \<noteq> 0"
  shows "universe_ok (mulle_objc_classpair_add_mixin p mixin u)"
proof (cases "mulle_objc_classpair_has_mixin u p mixin")
  case False
  define v where "v = u\<lparr> u_world := (u_world u)\<lparr> w_pair := (u_search_pair u)(p :=
    (u_search_pair u p)\<lparr> pair_mixins := pair_mixins (u_search_pair u p) @ [mixin] \<rparr>) \<rparr> \<rparr>"
  have "pair_ok v q" if "pair_ok u q" for q
  proof (cases "q = p")
    case True
    then show ?thesis
      using that assms(2,3) False
      by (auto simp: pair_ok_def Let_def v_def registered_def mulle_objc_classpair_has_mixin_def split: option.splits)
  next
    case False
    then show ?thesis
      using that by (simp add: pair_ok_def Let_def v_def registered_def cong: option.case_cong)
  qed
  with assms(1) have "universe_ok v" by (auto simp: universe_ok_def v_def)
  with False show ?thesis by (simp add: mulle_objc_classpair_add_mixin_def v_def)
qed (use assms in \<open>simp add: mulle_objc_classpair_add_mixin_def\<close>)

lemma add_mixin_core:
  "class_core (mulle_objc_classpair_add_mixin p mixin u) = class_core u"
  "table_core (mulle_objc_classpair_add_mixin p mixin u) = table_core u"
  "q \<noteq> p \<Longrightarrow> pair_core (mulle_objc_classpair_add_mixin p mixin u) q = pair_core u q"
  "u_pair (mulle_objc_classpair_add_mixin p mixin u) = u_pair u"
  by (simp_all add: mulle_objc_classpair_add_mixin_def set_mixins_core [OF refl])

text \<open>Adding mixins changes nothing but the list of mixins of the pair.\<close>

definition mixins_added :: "nat \<Rightarrow> 'imp universe \<Rightarrow> 'imp universe \<Rightarrow> bool" where
  "mixins_added p u v \<longleftrightarrow> universe_ok v \<and> class_core v = class_core u \<and> table_core v = table_core u \<and>
     (\<forall>q. q \<noteq> p \<longrightarrow> pair_core v q = pair_core u q) \<and> u_pair v = u_pair u"

lemma add_mixinids_effect:
  assumes "tame env" and "universe_ok u"
  shows "u_ensures (mulle_objc_classpair_add_mixinids_nofail env (Some p) ids u) (mixins_added p u)"
  unfolding mulle_objc_classpair_add_mixinids_nofail_def option.case
proof (rule u_ensures_each)
  fix mixinid v assume v: "mixins_added p u v"
  show "u_ensures (add_mixinid env p mixinid v) (mixins_added p u)"
    unfolding add_mixinid_def
  proof (intro u_ensures_assert core_of_c_result u_ensures_option u_ensures_if)
    fix mixin
    assume mixin: "mulle_objc_universe_lookup_infraclass_nodelegate env v mixinid = Some mixin"
      and bit: "\<not> \<not> mulle_objc_class_get_state_bit v mixin CLASS_STATE_IS_MIXIN"
    have "registered v mixin"
      using mixin by (auto simp: registered_def tame_lookup [OF assms(1)])
    then have "universe_ok (mulle_objc_classpair_add_mixin p mixin v)"
      using v bit by (intro add_mixin_ok) (auto simp: mixins_added_def mulle_objc_class_get_state_bit_def)
    with v show "u_ensures (Inr (mulle_objc_classpair_add_mixin p mixin v)) (mixins_added p u)"
      by (simp add: mixins_added_def add_mixin_core)
  qed simp_all
qed (use assms in \<open>simp add: mixins_added_def\<close>)

lemma building_mixins:
  assumes "building u base super v" and "mixins_added (u_n_pairs u) v w"
  shows "building u base super w"
proof -
  have t: "table_core w = table_core v" and c: "class_core w c = class_core v c" for c
    using assms(2) by (simp_all add: mixins_added_def)
  have p: "pair_core w q = pair_core v q" if "q < u_n_pairs u" for q
    using assms(2) that by (auto simp: mixins_added_def)
  show ?thesis
    using assms t by (simp add: building_def mixins_added_def p c class_coreD [OF c] table_core_def)
qed

subsection \<open>The other steps\<close>

lemma building_ivarhash:
  "building u base super v \<Longrightarrow> building u base super (update_class (infra_of (u_n_pairs u)) (class_ivarhash_update f) v)"
proof -
  let ?w = "update_class (infra_of (u_n_pairs u)) (class_ivarhash_update f) v"
  assume v: "building u base super v"
  have same: "u_world ?w = u_world v" "class_name (u_class ?w c) = class_name (u_class v c)"
    "class_isa (u_class ?w c) = class_isa (u_class v c)" "u_classtable ?w = u_classtable v"
    "u_n_pairs ?w = u_n_pairs v" "u_fastclasstable ?w = u_fastclasstable v" for c
    by (simp_all add: update_class_def)
  have "universe_ok ?w \<longleftrightarrow> universe_ok v"
    by (simp add: universe_ok_def pair_ok_def registered_def Let_def same cong: option.case_cong)
  moreover have "class_core ?w c = class_core v c" if "c < 2 * u_n_pairs u" for c
    using that by (auto simp: class_core_def update_class_def Let_def infra_of_def)
  moreover have "pair_core ?w q = pair_core v q" for q by (simp add: pair_core_def update_class_def)
  ultimately show ?thesis using v by (simp add: building_def) (simp add: update_class_def)
qed

lemma building_mixin_bit:
  assumes "building u base super v" and "c = infra_of (u_n_pairs u) \<or> c = meta_of (u_n_pairs u)"
  shows "u_ensures (mulle_objc_class_set_state_bit c CLASS_STATE_IS_MIXIN v) (building u base super)"
proof -
  let ?w = "update_search_class c (sc_state_update (\<lambda>_. sc_state (u_search_class v c) OR CLASS_STATE_IS_MIXIN)) v"
  have state: "sc_state (u_search_class v x) AND CLASS_STATE_IS_MIXIN \<noteq> 0 \<Longrightarrow>
      sc_state (u_search_class ?w x) AND CLASS_STATE_IS_MIXIN \<noteq> 0" for x
    by (auto simp: update_search_class_def bit.conj_disj_distrib2 word_and_or_ne_0)
  have same: "sc_classid (u_search_class ?w x) = sc_classid (u_search_class v x)"
    "sc_superclass (u_search_class ?w x) = sc_superclass (u_search_class v x)"
    "sc_infraclass (u_search_class ?w x) = sc_infraclass (u_search_class v x)"
    "sc_classpair (u_search_class ?w x) = sc_classpair (u_search_class v x)"
    "u_search_pair ?w = u_search_pair v" "u_class ?w = u_class v" "u_classtable ?w = u_classtable v"
    "u_n_pairs ?w = u_n_pairs v" "u_fastclasstable ?w = u_fastclasstable v" "u_pair ?w = u_pair v"
    "u_classestoload ?w = u_classestoload v" "u_categoriestoload ?w = u_categoriestoload v"
    "u_load_calls ?w = u_load_calls v" for x
    by (simp_all add: update_search_class_def)
  have pairs: "pair_ok ?w p" if "pair_ok v p" for p
  proof -
    have "\<forall>x \<in> set (pair_mixins (u_search_pair v p)). registered v x \<and> sc_state (u_search_class v x) AND CLASS_STATE_IS_MIXIN \<noteq> 0"
      using that by (simp add: pair_ok_def Let_def)
    then have "\<forall>x \<in> set (pair_mixins (u_search_pair v p)). registered ?w x \<and> sc_state (u_search_class ?w x) AND CLASS_STATE_IS_MIXIN \<noteq> 0"
      using state by (auto simp: registered_def same)
    with that show ?thesis
      unfolding pair_ok_def Let_def registered_def same by (simp cong: option.case_cong)
  qed
  have "universe_ok ?w"
    using assms(1) pairs unfolding building_def universe_ok_def same by blast
  moreover have "class_core ?w d = class_core v d" if "d < 2 * u_n_pairs u" for d
    using that assms(2) by (auto simp: class_core_def update_search_class_def Let_def infra_of_def meta_of_def)
  moreover have "pair_core ?w q = pair_core v q" for q by (simp add: pair_core_def update_search_class_def)
  ultimately have "building u base super ?w"
    using assms(1) unfolding building_def same by simp
  moreover have "CLASS_STATE_IS_MIXIN \<noteq> 0" by (simp add: c_defs)
  ultimately show ?thesis
    using assms(1) by (simp add: mulle_objc_class_set_state_bit_def mulle_objc_class_change_state_bit_def Let_def)
qed

lemma building_fastclass:
  assumes "building u base super v"
  shows "u_ensures (set_loaded_fastclass index (infra_of (u_n_pairs u)) v) (building u base super)"
proof -
  let ?w = "\<lambda>i. v\<lparr> u_fastclasstable := (u_fastclasstable v)(i := Some (infra_of (u_n_pairs u))) \<rparr>"
  have "pair_ok (?w i) p = pair_ok v p" for p i
    by (simp add: pair_ok_def registered_def Let_def cong: option.case_cong)
  then have "universe_ok (?w i)" for i using assms by (auto simp: building_def universe_ok_def)
  moreover have "class_core (?w i) c = class_core v c" "pair_core (?w i) q = pair_core v q" for i c q
    by (simp_all add: class_core_def pair_core_def)
  ultimately have "building u base super (?w i)" for i using assms by (simp add: building_def)
  with assms show ?thesis by (simp add: set_loaded_fastclass_def mulle_objc_universe_set_fastclass_def)
qed

section \<open>A class that has been installed\<close>

definition installed ::
    "'imp universe \<Rightarrow> 'imp mulle_objc_loadclassbase \<Rightarrow> nat option \<Rightarrow> 'imp universe \<Rightarrow> bool" where
  "installed u base super v \<longleftrightarrow>
     universe_ok v \<and> u_n_pairs v = Suc (u_n_pairs u) \<and>
     map_of (u_classtable u) (lcb_classid base) = None \<and>
     u_classtable v = u_classtable u @ [(lcb_classid base, infra_of (u_n_pairs u))] \<and>
     (\<forall>c < 2 * u_n_pairs u. class_core v c = class_core u c) \<and>
     (\<forall>p < u_n_pairs u. pair_core v p = pair_core u p) \<and>
     sc_superclass (u_search_class v (infra_of (u_n_pairs u))) = super \<and>
     pair_categoryids (u_pair v (u_n_pairs u)) = [] \<and> pair_loadclass (u_pair v (u_n_pairs u)) = Some base \<and>
     u_classestoload v = u_classestoload u \<and> u_categoriestoload v = u_categoriestoload u \<and>
     u_load_calls v = u_load_calls u"

lemma is_sane_errors:
  "mulle_objc_infraclass_is_sane env u c \<noteq> (False, None)" "mulle_objc_metaclass_is_sane env u c \<noteq> (False, None)"
  by (auto simp: mulle_objc_infraclass_is_sane_def mulle_objc_metaclass_is_sane_def mulle_objc_class_is_sane_def
      mulle_objc_class_is_sane_base_def Let_def)

lemma register_installs:
  assumes "building u base super v"
  shows "u_ensures (register_loaded_infraclass env (infra_of (u_n_pairs u)) v) (installed u base super)"
proof (cases "mulle_objc_universe_register_infraclass env v (Some (infra_of (u_n_pairs u)))")
  case (Pair e w)
  show ?thesis
  proof (cases e)
    case None
    let ?infra = "infra_of (u_n_pairs u)"
    have id: "sc_classid (u_search_class v ?infra) = lcb_classid base" and tbl: "u_classtable v = u_classtable u"
      using assms by (simp_all add: building_def)
    let ?x = "update_pair (sc_classpair (u_search_class v ?infra))
      (pair_classindex_update (\<lambda>_. ucast (u_classindex v))) (v\<lparr> u_classindex := u_classindex v + 1 \<rparr>)"
    have x: "core ?x = core v" by (simp add: core_update_pair)
    have "mulle_objc_universe_register_infraclass_for_classid ?x ?infra (sc_classid (u_search_class ?x ?infra)) = (None, w)"
      using Pair unfolding None mulle_objc_universe_register_infraclass_def option.case Let_def
      by (auto simp: is_sane_errors split: prod.splits if_splits option.splits)
    then have new: "map_of (u_classtable u) (lcb_classid base) = None"
      and w: "w = ?x\<lparr> u_classtable := u_classtable u @ [(lcb_classid base, ?infra)] \<rparr>"
      by (cases "map_of (u_classtable u) (lcb_classid base)";
        simp add: mulle_objc_universe_register_infraclass_for_classid_def coreD [OF x] id tbl)+
    have xb: "building u base super ?x" using building_core [OF x assms] .
    have reg: "registered w c" if "registered v c" for c
    proof -
      from that obtain classid where c: "map_of (u_classtable u) classid = Some c" by (auto simp: registered_def tbl)
      with new have "classid \<noteq> lcb_classid base" by auto
      with c show ?thesis by (auto simp: registered_def w map_add_Some_iff intro!: exI [of _ classid])
    qed
    have same: "u_search_class w = u_search_class ?x" "u_class w = u_class ?x" "u_search_pair w = u_search_pair ?x"
      "u_n_pairs w = u_n_pairs ?x" "u_fastclasstable w = u_fastclasstable ?x" "u_pair w = u_pair ?x"
      "u_classestoload w = u_classestoload ?x" "u_categoriestoload w = u_categoriestoload ?x" "u_load_calls w = u_load_calls ?x"
      by (simp_all add: w)
    have n: "u_n_pairs v = Suc (u_n_pairs u)" using assms by (simp add: building_def)
    have ok: "universe_ok v" using assms by (simp add: building_def)
    have "pair_ok w p" if "p < u_n_pairs w" for p
    proof (rule pair_ok_mono [where n = "u_n_pairs v"])
      show "pair_ok v p" "p < u_n_pairs v"
        using that universe_okD(1) [OF ok, of p] by (simp_all add: same coreD [OF x])
      show "class_core w c = class_core v c" for c
        by (simp add: class_core_def same Let_def coreD [OF x])
      show "u_search_pair w p = u_search_pair v p" by (simp add: same coreD [OF x])
      show "registered w c \<and> c < 2 * u_n_pairs v" if "registered v c" for c
        using that universe_okD(4) [OF ok that] by (auto simp: reg)
    qed
    moreover have "sc_superclass (u_search_class w c) = None" if "2 * u_n_pairs w \<le> c" for c
      using that universe_okD(2) [OF ok, of c] by (simp add: same coreD [OF x])
    moreover have "sc_classid (u_search_class w c) = classid \<and> (\<exists>p < u_n_pairs w. c = infra_of p)"
      if "map_of (u_classtable w) classid = Some c" for classid c
    proof -
      from that have "map_of (u_classtable v) classid = Some c \<or> classid = lcb_classid base \<and> c = ?infra"
        by (auto simp: w tbl map_add_Some_iff split: if_splits)
      then show ?thesis
      proof
        assume c: "map_of (u_classtable v) classid = Some c"
        then have "registered v c" by (auto simp: registered_def)
        with c show ?thesis
          using universe_okD(3,4) [OF ok] by (simp add: same coreD [OF x])
      next
        assume "classid = lcb_classid base \<and> c = ?infra"
        then show ?thesis using id n by (auto simp: same coreD [OF x])
      qed
    qed
    moreover have "\<exists>p < u_n_pairs w. c = infra_of p" if "u_fastclasstable w index = Some c" for index c
      using that universe_okD(5) [OF ok, of index c] by (simp add: same coreD [OF x])
    ultimately have "universe_ok w" unfolding universe_ok_def by blast
    moreover have "class_core w c = class_core ?x c" "pair_core w q = pair_core ?x q" for c q
      by (simp_all add: class_core_def pair_core_def same)
    ultimately have "installed u base super w"
      using xb new by (simp add: installed_def building_def same) (simp add: w)
    with Pair None show ?thesis by (simp add: register_loaded_infraclass_def)
  qed (use Pair in \<open>simp add: register_loaded_infraclass_def\<close>)
qed

end
