(* ===== verification/Load_Effects.thy ===== *)
theory Load_Effects
  imports Load_Install
begin

text \<open>
  The outcome of the installation of a class, a mixin and a category
  (\<open>_mulle_objc_loadclass_enqueue\<close>, \<open>_mulle_objc_loadmixin_enqueue\<close>,
  \<open>_mulle_objc_loadcategory_enqueue\<close> up to the wait queues): the invariant of the universe holds
  again, the class is registered and bears its category, and the entry for its \<open>+load\<close> is queued.
\<close>

section \<open>Classes and mixins\<close>

lemma add_loaded_classmethods_effect:
  assumes "tame env" and "building u base super v"
  shows "u_ensures (add_loaded_classmethods env (meta_of (u_n_pairs u)) classmethods (loads, v))
    (\<lambda>(loads', w). building u base super w \<and> loads' = loads @ load_entries classmethods (meta_of (u_n_pairs u)))"
  unfolding add_loaded_classmethods_def fst_conv snd_conv
proof (rule u_ensures_bind [OF building_keeps [OF core_add_methodlist_nofail [OF assms(1)] assms(2)]])
  fix w assume w: "building u base super w"
  show "u_ensures (mulle_objc_methodlist_add_load_to_callqueue_nofail classmethods (meta_of (u_n_pairs u)) loads w)
     (\<lambda>(loads', w). building u base super w \<and> loads' = loads @ load_entries classmethods (meta_of (u_n_pairs u)))"
    by (rule u_ensures_mono [OF core_add_load]) (auto intro: building_core [OF _ w])
qed (use building_pair [OF assms(2)] in simp_all)

lemma building_add_methods:
  "tame env \<Longrightarrow> building u base super v \<Longrightarrow>
    u_ensures (mulle_objc_class_add_methodlist_nofail env (infra_of (u_n_pairs u)) list v) (building u base super)"
  by (rule building_keeps [OF core_add_methodlist_nofail]) (assumption | rule building_pair)+

lemma building_add_ivars:
  "building u base super v \<Longrightarrow> building u base super (mulle_objc_infraclass_add_ivarlist infra ivars v)"
  "building u base super v \<Longrightarrow> building u base super (mulle_objc_metaclass_add_ivarlist meta ivars v)"
  by (rule building_core; simp)+

lemma building_add_properties:
  "tame env \<Longrightarrow> building u base super v \<Longrightarrow>
    u_ensures (mulle_objc_infraclass_add_propertylist_nofail env infra properties v) (building u base super)"
  "building u base super v \<Longrightarrow>
    u_ensures (mulle_objc_metaclass_add_propertylist_nofail meta properties v) (building u base super)"
  by (rule building_keeps [OF core_infraclass_add_propertylist], assumption+)
    (rule building_keeps [OF core_metaclass_add_propertylist])

lemma install_loadclass_effect:
  assumes "tame env" and "universe_ok u" and "super_ok u super"
  shows "u_ensures (install_loadclass env info super (loads, u)) (\<lambda>(loads', v).
    installed u (lc_base info) super v \<and>
    loads' = loads @ load_entries (lcb_classmethods (lc_base info)) (meta_of (u_n_pairs u)))"
    (is "u_ensures _ ?Q")
proof -
  let ?base = "lc_base info" and ?p = "u_n_pairs u"
  let ?B = "building u ?base super" and ?loads = "loads @ load_entries (lcb_classmethods ?base) (meta_of ?p)"
  have rest: "u_ensures (
      u_bind (mulle_objc_class_add_methodlist_nofail env (infra_of ?p) (lcb_instancemethods ?base)
               (mulle_objc_infraclass_add_ivarlist (infra_of ?p) (lc_instancevariables info)
                  (update_class (infra_of ?p) (class_ivarhash_update (\<lambda>_. lc_classivarhash info)) v3))) (\<lambda>v5.
      u_bind (mulle_objc_infraclass_add_propertylist_nofail env (infra_of ?p) (lcb_properties ?base) v5) (\<lambda>v6.
      u_bind (mulle_objc_metaclass_add_propertylist_nofail (meta_of ?p) (lcb_classproperties ?base)
                (mulle_objc_metaclass_add_ivarlist (meta_of ?p) (lc_classvariables info) v6)) (\<lambda>v7.
      u_bind (set_loaded_fastclass (lc_fastclassindex info) (infra_of ?p) v7) (\<lambda>v8.
      u_bind (register_loaded_infraclass env (infra_of ?p) v8) (\<lambda>v9. Inr (?loads, v9))))))) ?Q"
    if "?B v3" for v3
    by (rule u_ensures_bind [OF building_add_methods] u_ensures_bind [OF building_add_properties(1)]
        u_ensures_bind [OF building_add_properties(2)] u_ensures_bind [OF building_fastclass]
        u_ensures_bind [OF register_installs] assms(1) that building_add_ivars building_ivarhash | assumption)+ simp
  show ?thesis
    unfolding install_loadclass_def Let_def fst_conv snd_conv
  proof (rule u_ensures_bind [OF new_loaded_classpair_effect [OF assms(2,3)]], clarify, goal_cases)
    case (1 p v1)
    show ?case
    proof (rule u_ensures_bind [OF add_mixinids_effect [OF assms(1) building_pair(6) [OF 1(2)]]], goal_cases)
      case (1 v2)
      with \<open>?B v1\<close> have v2: "?B v2" using building_mixins by blast
      show ?case
        unfolding building_pair(1,2) [OF v2]
        by (rule u_ensures_bind [OF add_loaded_classmethods_effect [OF assms(1) v2]], clarify, rule u_ensures_assert)
          (rule rest)
    qed
  qed
qed

lemma install_loadmixin_effect:
  assumes "tame env" and "universe_ok u"
  shows "u_ensures (install_loadmixin env info (loads, u)) (\<lambda>(loads', v).
    installed u (lm_base info) None v \<and>
    loads' = loads @ load_entries (lcb_classmethods (lm_base info)) (meta_of (u_n_pairs u)))"
    (is "u_ensures _ ?Q")
proof -
  let ?base = "lm_base info" and ?p = "u_n_pairs u"
  let ?B = "building u ?base None" and ?loads = "loads @ load_entries (lcb_classmethods ?base) (meta_of ?p)"
  have rest: "u_ensures (
      u_bind (mulle_objc_class_set_state_bit (meta_of ?p) CLASS_STATE_IS_MIXIN v2) (\<lambda>v3.
      u_assert (meta_of ?p = class_isa (u_class v3 (infra_of ?p)))
      (u_bind (mulle_objc_class_add_methodlist_nofail env (infra_of ?p) (lcb_instancemethods ?base)
                (mulle_objc_infraclass_add_ivarlist (infra_of ?p) (Some []) v3)) (\<lambda>v4.
      u_bind (mulle_objc_infraclass_add_propertylist_nofail env (infra_of ?p) (lcb_properties ?base) v4) (\<lambda>v5.
      u_bind (mulle_objc_metaclass_add_propertylist_nofail (meta_of ?p) (lcb_classproperties ?base) v5) (\<lambda>v6.
      u_bind (mulle_objc_class_set_state_bit (infra_of ?p) CLASS_STATE_IS_MIXIN v6) (\<lambda>v7.
      u_bind (register_loaded_infraclass env (infra_of ?p) v7) (\<lambda>v8. Inr (?loads, v8))))))))) ?Q"
    if "?B v2" for v2
    by (rule u_ensures_bind [OF building_add_methods] u_ensures_bind [OF building_add_properties(1)]
        u_ensures_bind [OF building_add_properties(2)] u_ensures_bind [OF building_mixin_bit]
        u_ensures_bind [OF register_installs] u_ensures_assert assms(1) that building_add_ivars
        disjI2 [OF refl] disjI1 [OF refl] | assumption)+ simp
  show ?thesis
    unfolding install_loadmixin_def Let_def fst_conv snd_conv
  proof (rule u_ensures_bind [OF new_loaded_classpair_effect [OF assms(2)]], simp add: super_ok_def, clarify, goal_cases)
    case (1 p v1)
    show ?case
      unfolding building_pair(1,2) [OF 1(2)]
      by (rule u_ensures_bind [OF add_loaded_classmethods_effect [OF assms(1) 1(2)]], clarify) (rule rest)
  qed
qed

section \<open>Categories\<close>

text \<open>A class that is being extended: only its lists and mixins change, then its categories.\<close>

definition extending :: "nat \<Rightarrow> 'imp universe \<Rightarrow> 'imp universe \<Rightarrow> bool" where
  "extending p u v \<longleftrightarrow> universe_ok v \<and> class_core v = class_core u \<and> table_core v = table_core u \<and>
     (\<forall>q. q \<noteq> p \<longrightarrow> pair_core v q = pair_core u q) \<and>
     pair_loadclass (u_pair v p) = pair_loadclass (u_pair u p) \<and>
     pair_categoryids (u_pair v p) = pair_categoryids (u_pair u p)"

definition extended :: "'imp universe_env \<Rightarrow> nat \<Rightarrow> uint32 \<Rightarrow> 'imp universe \<Rightarrow> 'imp universe \<Rightarrow> bool" where
  "extended env p categoryid u v \<longleftrightarrow> universe_ok v \<and> class_core v = class_core u \<and> table_core v = table_core u \<and>
     (\<forall>q. q \<noteq> p \<longrightarrow> pair_core v q = pair_core u q) \<and>
     pair_loadclass (u_pair v p) = pair_loadclass (u_pair u p) \<and>
     mulle_objc_classpair_has_categoryid u p categoryid = Inr False \<and>
     pair_categoryids (u_pair v p) =
       mulle_objc_uniqueidarray_by_adding_ids (ue_sort_ids env) (pair_categoryids (u_pair u p)) [categoryid] True"

lemma extending_core:
  assumes "core w = core v" and "extending p u v"
  shows "extending p u w"
proof -
  have "class_core w = class_core v" "table_core w = table_core v" "pair_core w = pair_core v"
    using assms(1) by (simp_all add: core_def)
  with assms(2) show ?thesis
    by (simp add: extending_def coreD [OF assms(1)] universe_ok_core [OF assms(1)])
qed

lemma extending_keeps:
  "u_ensures m (\<lambda>w. core w = core v) \<Longrightarrow> extending p u v \<Longrightarrow> u_ensures m (extending p u)"
  by (erule u_ensures_mono) (simp add: extending_core)

lemma extending_mixins:
  assumes "extending p u v" and "mixins_added p v w"
  shows "extending p u w"
  using assms by (simp add: extending_def mixins_added_def)

lemma extending_refl: "universe_ok u \<Longrightarrow> extending p u u"
  by (simp add: extending_def)

lemma table_coreD:
  assumes "table_core u = table_core v"
  shows "u_n_pairs u = u_n_pairs v" "u_classtable u = u_classtable v" "u_fastclasstable u = u_fastclasstable v"
    "u_classestoload u = u_classestoload v" "u_categoriestoload u = u_categoriestoload v"
    "u_load_calls u = u_load_calls v"
  using assms by (simp_all add: table_core_def)

lemma core_add_category_methods:
  assumes "tame env" and "universe_ok u" and "cls < 2 * u_n_pairs u"
  shows "u_ensures (add_category_methods env cls list u) (\<lambda>u'. core u' = core u)"
  unfolding add_category_methods_def
  by (intro u_ensures_option core_bind_pair core_add_methodlist assms) (simp_all split: option.split)

lemma core_add_category_properties:
  assumes "tame env"
  shows "u_ensures (add_category_properties env infra meta info u) (\<lambda>u'. core u' = core u)"
  unfolding add_category_properties_def
  by (intro core_bind u_ensures_option core_infraclass_add_propertylist core_metaclass_add_propertylist assms) simp_all

lemma add_categoryid_effect:
  assumes "extending p u v"
  shows "u_ensures (mulle_objc_classpair_add_categoryid_nofail env (Some p) categoryid v) (extended env p categoryid u)"
  unfolding mulle_objc_classpair_add_categoryid_nofail_def option.case mulle_objc_classpair_add_categoryid_def
proof (intro u_ensures_if core_of_c_result u_ensures_assert, goal_cases)
  case (3 has has')
  let ?w = "mulle_objc_classpair_add_categoryids env p [categoryid] v"
  have same: "u_world ?w = u_world v" "u_class ?w = u_class v" "u_n_pairs ?w = u_n_pairs v"
    "u_classtable ?w = u_classtable v" "u_fastclasstable ?w = u_fastclasstable v" "table_core ?w = table_core v"
    "class_core ?w = class_core v"
    by (simp_all add: mulle_objc_classpair_add_categoryids_def update_pair_def table_core_def class_core_def fun_eq_iff)
  have "universe_ok ?w \<longleftrightarrow> universe_ok v"
    by (simp add: universe_ok_def pair_ok_def registered_def same Let_def cong: option.case_cong)
  moreover have "q \<noteq> p \<Longrightarrow> pair_core ?w q = pair_core v q" for q
    by (simp add: mulle_objc_classpair_add_categoryids_def update_pair_def pair_core_def)
  moreover have "u_pair ?w p = (u_pair v p)\<lparr> pair_categoryids :=
      mulle_objc_uniqueidarray_by_adding_ids (ue_sort_ids env) (pair_categoryids (u_pair v p)) [categoryid] True \<rparr>"
    by (simp add: mulle_objc_classpair_add_categoryids_def update_pair_def)
  moreover have "mulle_objc_classpair_has_categoryid u p categoryid = Inr False"
    using 3 assms by (simp add: mulle_objc_classpair_has_categoryid_def extending_def)
  ultimately have "extended env p categoryid u ?w"
    using assms by (simp add: extended_def extending_def same)
  then show ?case by simp
qed simp_all

lemma install_loadcategory_effect:
  assumes "tame env" and "universe_ok u" and "p < u_n_pairs u" and "lcat_categoryid info \<noteq> 0"
  shows "u_ensures (install_loadcategory env info (infra_of p) (loads, u)) (\<lambda>(loads', v).
    extended env p (lcat_categoryid info) u v \<and>
    loads' = loads @ load_entries (lcat_classmethods info) (meta_of p))"
    (is "u_ensures _ ?Q")
proof -
  note pair = pair_okD [OF universe_okD(1) [OF assms(2,3)]]
  have bound: "infra_of p < 2 * u_n_pairs v" "meta_of p < 2 * u_n_pairs v" "universe_ok v" if "extending p u v" for v
  proof -
    have "u_n_pairs v = u_n_pairs u" using that by (simp add: extending_def table_coreD(1) [of v u])
    with that assms(3) show "infra_of p < 2 * u_n_pairs v" "meta_of p < 2 * u_n_pairs v" "universe_ok v"
      by (simp_all add: extending_def)
  qed
  have check: "u_ensures (check_loadcategory info (infra_of p) u) (\<lambda>_. True)"
    unfolding check_loadcategory_def
    by (intro u_ensures_if core_of_c_result) (simp_all split: option.split)
  have methods: "u_ensures (add_category_methods env c list v) (extending p u)"
    if "extending p u v" "c < 2 * u_n_pairs v" for c list v
    by (rule extending_keeps [OF core_add_category_methods [OF assms(1) bound(3) [OF that(1)] that(2)] that(1)])
  have mixins: "u_ensures (mulle_objc_classpair_add_mixinids_nofail env (Some p) ids v) (extending p u)"
    if "extending p u v" for ids v
    by (rule u_ensures_mono [OF add_mixinids_effect [OF assms(1) bound(3) [OF that]]]) (rule extending_mixins [OF that])
  have load: "u_ensures (mulle_objc_methodlist_add_load_to_callqueue_nofail list (meta_of p) loads v)
      (\<lambda>(loads', w). extended env p (lcat_categoryid info) u w \<and> loads' = loads @ load_entries list (meta_of p))"
    if v: "extended env p (lcat_categoryid info) u v" for list v
  proof -
    have "extended env p (lcat_categoryid info) u w" if c: "core w = core v" for w
    proof -
      have "class_core w = class_core v" "table_core w = table_core v" "pair_core w = pair_core v"
        using c by (simp_all add: core_def)
      with v show ?thesis by (simp add: extended_def coreD [OF c] universe_ok_core [OF c])
    qed
    then show ?thesis by (auto intro: u_ensures_mono [OF core_add_load])
  qed
  show ?thesis
    unfolding install_loadcategory_def Let_def fst_conv snd_conv pair
  proof (rule u_ensures_bind [OF check], goal_cases)
    case 1
    show ?case
    proof (rule u_ensures_bind [OF extending_keeps [OF core_register_category extending_refl [OF assms(2), of p]]], goal_cases)
      case (1 v1)
      show ?case
      proof (rule u_ensures_bind [OF methods [OF 1(2) bound(1) [OF 1(2)]]], goal_cases)
        case (1 v2)
        show ?case
        proof (rule u_ensures_bind [OF methods [OF 1(2) bound(2) [OF 1(2)]]], goal_cases)
          case (1 v3)
          show ?case
          proof (rule u_ensures_bind [OF extending_keeps [OF core_add_category_properties [OF assms(1)] 1(2)]], goal_cases)
            case (1 v4)
            show ?case
            proof (rule u_ensures_bind [OF extending_keeps [OF core_add_protocollist 1(2)]], goal_cases)
              case (1 v5)
              show ?case
              proof (rule u_ensures_bind [OF mixins [OF 1(2)]], goal_cases)
                case (1 v6)
                have "u_ensures (if lcat_categoryid info \<noteq> 0
                    then mulle_objc_classpair_add_categoryid_nofail env (Some p) (lcat_categoryid info) v6
                    else Inr v6) (extended env p (lcat_categoryid info) u)"
                  using add_categoryid_effect [OF 1(2)] assms(4) by simp
                then show ?case by (rule u_ensures_bind) (rule load)
              qed
            qed
          qed
        qed
      qed
    qed
  qed
qed

end
