(* ===== verification/Loader.thy ===== *)
theory Loader
  imports Load_Effects
begin

text \<open>
  The recursion of the loader (\<open>mulle-objc-load.c\<close>) once and for all: what an installation, a delay
  and the removal of a waiting list keep, the loader keeps, and it comes to an end when its depth
  exceeds the number of waiting entries, since every entry that is handed to it again has been
  taken out of its queue before.
\<close>

section \<open>The wait queues\<close>

text \<open>The key under which the entries wait that miss a class.\<close>

abbreviation wait_key :: "uint32 \<Rightarrow> uint64" where
  "wait_key \<equiv> mulle_objc_classid_to_waitqueue_hash"

lemma wait_key_inj: "wait_key a = wait_key b \<longleftrightarrow> a = b"
proof -
  have short: "bit c n \<Longrightarrow> n < 32" for c :: uint32 and n
    using bit_imp_le_length [of c n] by simp
  have mask: "ucast c AND mask 63 = (ucast c :: uint64)" for c :: uint32
    by (rule bit_word_eqI) (auto simp: bit_simps dest: short)
  have inj: "ucast c = (ucast d :: uint64) \<longleftrightarrow> c = d" for c d :: uint32
  proof
    assume e: "ucast c = (ucast d :: uint64)"
    show "c = d"
    proof (rule bit_word_eqI)
      fix n assume "n < LENGTH(32)"
      then show "bit c n = bit d n" using arg_cong [OF e, of "\<lambda>w. bit w n"] by (simp add: bit_simps)
    qed
  qed simp
  have big: "ucast c \<noteq> (mask 63 :: uint64)" for c :: uint32
  proof
    assume "ucast c = (mask 63 :: uint64)"
    from arg_cong [OF this, of "\<lambda>w. bit w 40"] show False by (auto simp: bit_simps dest: short)
  qed
  show ?thesis
    using big [of a] big [of b] inj [of a 0] inj [of b 0] inj [of a b]
    by (auto simp: mulle_objc_classid_to_waitqueue_hash_def Let_def mask)
qed

definition n_entries :: "(uint64 \<times> 'a list) list \<Rightarrow> nat" where
  "n_entries table = sum_list (map (\<lambda>(_, list). length list) table)"

definition n_waiting :: "'imp universe \<Rightarrow> nat" where
  "n_waiting u = n_entries (u_classestoload u) + n_entries (u_categoriestoload u)"

lemma n_entries_delete:
  "n_entries (AList.delete k table) + length (case map_of table k of Some list \<Rightarrow> list | None \<Rightarrow> []) \<le> n_entries table"
proof (induction table)
  case (Cons x table)
  have "n_entries (AList.delete k table) \<le> n_entries table" using Cons.IH by simp
  with Cons.IH show ?case by (cases x) (auto simp: n_entries_def split: option.splits)
qed (simp add: n_entries_def)

lemma n_entries_append_info:
  "n_entries (mulle_objc_map_append_info classid info table) = Suc (n_entries table)"
proof -
  have "n_entries (AList.update k (list @ [info]) table) = Suc (n_entries table)"
    if "list = (case map_of table k of Some list \<Rightarrow> list | None \<Rightarrow> [])" for k list
    using that
  proof (induction table)
    case (Cons x table)
    then show ?case by (cases x) (auto simp: n_entries_def split: if_splits)
  qed (simp add: n_entries_def)
  then show ?thesis by (simp add: mulle_objc_map_append_info_def Let_def)
qed

lemma map_of_append_info:
  "map_of (mulle_objc_map_append_info classid info table) =
     (map_of table)(wait_key classid \<mapsto>
       (case map_of table (wait_key classid) of Some list \<Rightarrow> list | None \<Rightarrow> []) @ [info])"
  by (simp add: mulle_objc_map_append_info_def Let_def update_conv' fun_eq_iff)

section \<open>What is loaded\<close>

datatype 'imp loadable =
    Load_class "'imp mulle_objc_loadclass"
  | Load_mixin "'imp mulle_objc_loadmixin"
  | Load_category "'imp mulle_objc_loadcategory"

primrec enqueue :: "'imp universe_env \<Rightarrow> nat \<Rightarrow> 'imp loadable \<Rightarrow> 'imp load_state \<Rightarrow> 'imp load_state guarded" where
  "enqueue env n (Load_class info) = mulle_objc_loadclass_enqueue_nofail env n info"
| "enqueue env n (Load_mixin info) = mulle_objc_loadmixin_enqueue_nofail env n info"
| "enqueue env n (Load_category info) = mulle_objc_loadcategory_enqueue_nofail env n info"

text \<open>The dependency checks end, and what they find is registered.\<close>

lemma fulfill_universe_ensures: "u_ensures (mulle_objc_universe_fulfill_dependencies env u infra ds) (\<lambda>_. True)"
  by (induction ds arbitrary: infra) (auto simp: Let_def intro!: core_of_c_result split: option.split)

lemma fulfill_user_ensures: "u_ensures (fulfill_user_dependencies env u methods infra) (\<lambda>_. True)"
  by (auto simp: fulfill_user_dependencies_def fulfill_universe_ensures intro!: core_of_c_result split: option.split)

lemma loadclass_fulfill_ensures:
  assumes "tame env"
  shows "u_ensures (mulle_objc_loadclass_fulfill_dependencies env u info) (\<lambda>(d, super). super_ok u super)"
proof -
  let ?super = "if lc_superclassid info \<noteq> 0
    then mulle_objc_universe_lookup_infraclass_nodelegate env u (lc_superclassid info) else None"
  have none: "super_ok u None" by (simp add: super_ok_def)
  have super: "super_ok u ?super"
    by (auto simp: super_ok_def registered_def tame_lookup [OF assms] split: option.split)
  have user: "u_ensures (u_bind (mulle_objc_loadclass_fulfill_user_dependencies env u info) (\<lambda>d. Inr (d, s)))
      (\<lambda>(d, super). super_ok u super)" if "super_ok u s" for s
    unfolding mulle_objc_loadclass_fulfill_user_dependencies_def
    by (rule u_ensures_bind [OF fulfill_user_ensures]) (simp add: that)
  have result: "u_ensures (Inr (d, s)) (\<lambda>(d, super). super_ok u super)" if "super_ok u s" for d :: mulle_objc_dependency and s
    by (simp add: that)
  show ?thesis
    unfolding mulle_objc_loadclass_fulfill_dependencies_def Let_def
    by (rule u_ensures_if u_ensures_option user [OF super] result [OF super] result [OF none] u_ensures_simps(1) [THEN iffD2] | simp)+
qed

lemma loadcategory_fulfill_ensures:
  assumes "tame env"
  shows "u_ensures (mulle_objc_loadcategory_fulfill_dependencies env u info)
    (\<lambda>(d, cls). cls = map_of (u_classtable u) (lcat_classid info) \<and> (cls = None \<longrightarrow> dep_classid d = lcat_classid info))"
proof -
  have "u_ensures (u_bind (mulle_objc_loadcategory_fulfill_user_dependencies env u info c) (\<lambda>d. Inr (d, Some c)))
      (\<lambda>(d, cls). cls = Some c \<and> (cls = None \<longrightarrow> dep_classid d = lcat_classid info))" for c
    unfolding mulle_objc_loadcategory_fulfill_user_dependencies_def
    by (rule u_ensures_bind [OF fulfill_user_ensures]) simp
  then show ?thesis
    by (auto simp: mulle_objc_loadcategory_fulfill_dependencies_def tame_lookup [OF assms] missing_dependency_def
        split: option.split elim: u_ensures_mono)
qed

section \<open>Invariants of the loader\<close>

text \<open>
  \<open>J S T E st\<close>: the state is in order, apart from the waiting classes under the keys \<open>S\<close> and the
  waiting categories under the keys \<open>T\<close>, which have just been made loadable; and the loadables
  \<open>E\<close> are accounted for. \<open>allowed\<close> restricts what is loaded at all.
\<close>

locale loading =
  fixes env :: "'imp universe_env"
    and J :: "uint64 set \<Rightarrow> uint64 set \<Rightarrow> 'imp loadable set \<Rightarrow> 'imp load_state \<Rightarrow> bool"
    and allowed :: "'imp loadable \<Rightarrow> bool"
  assumes tame: "J S T E st \<Longrightarrow> tame env"
    and ok: "J S T E (loads, u) \<Longrightarrow> universe_ok u"
    and weaken: "J S T E st \<Longrightarrow> S \<subseteq> S' \<Longrightarrow> T \<subseteq> T' \<Longrightarrow> E' \<subseteq> E \<Longrightarrow> J S' T' E' st"
    and class_installed: "J S T E (loads, u) \<Longrightarrow> allowed (Load_class info) \<Longrightarrow>
      mulle_objc_loadclassbase_is_sane env (lc_base info) \<Longrightarrow>
      mulle_objc_loadclass_fulfill_dependencies env u info = Inr (d, super) \<Longrightarrow> dep_classid d = 0 \<Longrightarrow>
      installed u (lc_base info) super v \<Longrightarrow>
      J (insert (wait_key (lcb_classid (lc_base info))) S) (insert (wait_key (lcb_classid (lc_base info))) T)
        (insert (Load_class info) E)
        (loads @ load_entries (lcb_classmethods (lc_base info)) (meta_of (u_n_pairs u)), v)"
    and mixin_installed: "J S T E (loads, u) \<Longrightarrow> allowed (Load_mixin mix) \<Longrightarrow>
      mulle_objc_loadclassbase_is_sane env (lm_base mix) \<Longrightarrow> installed u (lm_base mix) None v \<Longrightarrow>
      J (insert (wait_key (lcb_classid (lm_base mix))) S) (insert (wait_key (lcb_classid (lm_base mix))) T)
        (insert (Load_mixin mix) E)
        (loads @ load_entries (lcb_classmethods (lm_base mix)) (meta_of (u_n_pairs u)), v)"
    and category_installed: "J S T E (loads, u) \<Longrightarrow> allowed (Load_category cat) \<Longrightarrow>
      mulle_objc_loadcategory_is_sane env cat \<Longrightarrow> p < u_n_pairs u \<Longrightarrow>
      map_of (u_classtable u) (lcat_classid cat) = Some (infra_of p) \<Longrightarrow>
      mulle_objc_loadcategory_fulfill_dependencies env u cat = Inr (d, Some (infra_of p)) \<Longrightarrow> dep_classid d = 0 \<Longrightarrow>
      extended env p (lcat_categoryid cat) u v \<Longrightarrow>
      J (insert (wait_key (lcat_classid cat)) S) (insert (wait_key (lcat_classid cat)) T)
        (insert (Load_category cat) E)
        (loads @ load_entries (lcat_classmethods cat) (meta_of p), v)"
    and class_delayed: "J S T E (loads, u) \<Longrightarrow> allowed (Load_class info) \<Longrightarrow>
      mulle_objc_loadclass_fulfill_dependencies env u info = Inr (d, super) \<Longrightarrow> dep_classid d \<noteq> 0 \<Longrightarrow>
      J S T (insert (Load_class info) E)
        (loads, u_classestoload_update (mulle_objc_map_append_info (dep_classid d) info) u)"
    and category_delayed: "J S T E (loads, u) \<Longrightarrow> allowed (Load_category cat) \<Longrightarrow>
      mulle_objc_loadcategory_fulfill_dependencies env u cat = Inr (d, cls) \<Longrightarrow> dep_classid d \<noteq> 0 \<Longrightarrow>
      J S T (insert (Load_category cat) E)
        (loads, u_categoriestoload_update (mulle_objc_map_append_info (dep_classid d) cat) u)"
    and no_classes: "J S T E (loads, u) \<Longrightarrow> map_of (u_classestoload u) k = None \<Longrightarrow> J (S - {k}) T E (loads, u)"
    and no_categories: "J S T E (loads, u) \<Longrightarrow> map_of (u_categoriestoload u) k = None \<Longrightarrow> J S (T - {k}) E (loads, u)"
    and classes_taken: "J S T E (loads, u) \<Longrightarrow> map_of (u_classestoload u) k = Some infos \<Longrightarrow>
      J (S - {k}) T (E - Load_class ` set infos) (loads, u_classestoload_update (AList.delete k) u) \<and>
      (\<forall>info \<in> set infos. allowed (Load_class info))"
    and categories_taken: "J S T E (loads, u) \<Longrightarrow> map_of (u_categoriestoload u) k = Some cats \<Longrightarrow>
      J S (T - {k}) (E - Load_category ` set cats) (loads, u_categoriestoload_update (AList.delete k) u) \<and>
      (\<forall>cat \<in> set cats. allowed (Load_category cat))"
begin

abbreviation keeps where
  "keeps e W S T E \<equiv> (\<lambda>st'. J S T (insert e E) st' \<and> n_waiting (snd st') \<le> W)"

text \<open>The entries of a list that has been taken out of a queue.\<close>

lemma each_taken:
  assumes "\<And>x E st. x \<in> set xs \<Longrightarrow> J S T E st \<Longrightarrow> n_waiting (snd st) < W \<Longrightarrow>
      u_ensures (f x st) (keeps (g x) (Suc (n_waiting (snd st))) S T E)"
    and "J S T E st" and "n_waiting (snd st) + length xs \<le> W"
  shows "u_ensures (u_each f xs st) (\<lambda>st'. J S T (E \<union> g ` set xs) st' \<and> n_waiting (snd st') \<le> W)"
  using assms
proof (induction xs arbitrary: E st)
  case (Cons x xs)
  have "u_ensures (f x st) (keeps (g x) (Suc (n_waiting (snd st))) S T E)"
    using Cons.prems by (intro Cons.prems(1)) auto
  then show ?case
    unfolding u_each.simps
  proof (rule u_ensures_bind, elim conjE)
    fix st1 assume st1: "J S T (insert (g x) E) st1" "n_waiting (snd st1) \<le> Suc (n_waiting (snd st))"
    have "u_ensures (u_each f xs st1) (\<lambda>st'. J S T (insert (g x) E \<union> g ` set xs) st' \<and> n_waiting (snd st') \<le> W)"
      using Cons.prems st1 by (intro Cons.IH) auto
    then show "u_ensures (u_each f xs st1) (\<lambda>st'. J S T (E \<union> g ` set (x # xs)) st' \<and> n_waiting (snd st') \<le> W)"
      by simp
  qed
qed simp

lemma map_f_categories:
  assumes "\<And>info E st. allowed (Load_category info) \<Longrightarrow> J S T E st \<Longrightarrow> n_waiting (snd st) < W \<Longrightarrow>
      u_ensures (f info st) (keeps (Load_category info) (Suc (n_waiting (snd st))) S T E)"
    and "J S (insert (wait_key classid) T) E st" and "n_waiting (snd st) \<le> W"
  shows "u_ensures (map_f u_categoriestoload u_categoriestoload_update classid f st)
    (\<lambda>st'. J S T E st' \<and> n_waiting (snd st') \<le> W)"
proof -
  obtain loads u where st: "st = (loads, u)" by (cases st)
  let ?k = "wait_key classid"
  show ?thesis
  proof (cases "map_of (u_categoriestoload u) ?k")
    case None
    from no_categories [OF assms(2) [unfolded st] None] have "J S T E (loads, u)"
      by (rule weaken) auto
    with None assms(3) show ?thesis by (simp add: map_f_def st)
  next
    case (Some infos)
    let ?u = "u_categoriestoload_update (AList.delete ?k) u"
    note taken = categories_taken [OF assms(2) [unfolded st] Some]
    have J: "J S T (E - Load_category ` set infos) (loads, ?u)"
      using weaken [OF conjunct1 [OF taken], of S T] by auto
    have W: "n_waiting ?u + length infos \<le> W"
      using n_entries_delete [of ?k "u_categoriestoload u"] assms(3) by (simp add: n_waiting_def Some st)
    have "u_ensures (u_each f infos (loads, ?u))
        (\<lambda>st'. J S T (E - Load_category ` set infos \<union> Load_category ` set infos) st' \<and> n_waiting (snd st') \<le> W)"
    proof (rule each_taken)
      show "u_ensures (f x st) (keeps (Load_category x) (Suc (n_waiting (snd st))) S T E)"
        if "x \<in> set infos" "J S T E st" "n_waiting (snd st) < W" for x E st
        using that taken by (intro assms(1)) auto
    qed (use J W in simp_all)
    then show ?thesis
      by (auto simp: map_f_def st Some elim!: u_ensures_mono intro: weaken)
  qed
qed

lemma map_f_classes:
  assumes "\<And>info E st. allowed (Load_class info) \<Longrightarrow> J S T E st \<Longrightarrow> n_waiting (snd st) < W \<Longrightarrow>
      u_ensures (f info st) (keeps (Load_class info) (Suc (n_waiting (snd st))) S T E)"
    and "J (insert (wait_key classid) S) T E st" and "n_waiting (snd st) \<le> W"
  shows "u_ensures (map_f u_classestoload u_classestoload_update classid f st)
    (\<lambda>st'. J S T E st' \<and> n_waiting (snd st') \<le> W)"
proof -
  obtain loads u where st: "st = (loads, u)" by (cases st)
  let ?k = "wait_key classid"
  show ?thesis
  proof (cases "map_of (u_classestoload u) ?k")
    case None
    from no_classes [OF assms(2) [unfolded st] None] have "J S T E (loads, u)"
      by (rule weaken) auto
    with None assms(3) show ?thesis by (simp add: map_f_def st)
  next
    case (Some infos)
    let ?u = "u_classestoload_update (AList.delete ?k) u"
    note taken = classes_taken [OF assms(2) [unfolded st] Some]
    have J: "J S T (E - Load_class ` set infos) (loads, ?u)"
      using weaken [OF conjunct1 [OF taken], of S T] by auto
    have W: "n_waiting ?u + length infos \<le> W"
      using n_entries_delete [of ?k "u_classestoload u"] assms(3) by (simp add: n_waiting_def Some st)
    have "u_ensures (u_each f infos (loads, ?u))
        (\<lambda>st'. J S T (E - Load_class ` set infos \<union> Load_class ` set infos) st' \<and> n_waiting (snd st') \<le> W)"
    proof (rule each_taken)
      show "u_ensures (f x st) (keeps (Load_class x) (Suc (n_waiting (snd st))) S T E)"
        if "x \<in> set infos" "J S T E st" "n_waiting (snd st) < W" for x E st
        using that taken by (intro assms(1)) auto
    qed (use J W in simp_all)
    then show ?thesis
      by (auto simp: map_f_def st Some elim!: u_ensures_mono intro: weaken)
  qed
qed

lemma retrigger_keeps:
  assumes "\<And>info S T E st. allowed (Load_class info) \<Longrightarrow> J S T E st \<Longrightarrow> n_waiting (snd st) < W \<Longrightarrow>
      u_ensures (f info st) (keeps (Load_class info) (Suc (n_waiting (snd st))) S T E)"
    and "\<And>info S T E st. allowed (Load_category info) \<Longrightarrow> J S T E st \<Longrightarrow> n_waiting (snd st) < W \<Longrightarrow>
      u_ensures (g info st) (keeps (Load_category info) (Suc (n_waiting (snd st))) S T E)"
    and "J (insert (wait_key classid) S) (insert (wait_key classid) T) E st" and "n_waiting (snd st) \<le> W"
  shows "u_ensures (retrigger f g classid st) (\<lambda>st'. J S T E st' \<and> n_waiting (snd st') \<le> W)"
  unfolding retrigger_def
proof (rule u_ensures_bind [OF map_f_categories [OF assms(2,3,4)]])
  fix st1 assume "J (insert (wait_key classid) S) T E st1 \<and> n_waiting (snd st1) \<le> W"
  then show "u_ensures (map_f u_classestoload u_classestoload_update classid f st1)
      (\<lambda>st'. J S T E st' \<and> n_waiting (snd st') \<le> W)"
    by (intro map_f_classes [OF assms(1)]) auto
qed

lemma class_step:
  assumes "\<And>info S T E st. allowed (Load_class info) \<Longrightarrow> J S T E st \<Longrightarrow> n_waiting (snd st) < W \<Longrightarrow>
      u_ensures (f info st) (keeps (Load_class info) (Suc (n_waiting (snd st))) S T E)"
    and "\<And>info S T E st. allowed (Load_category info) \<Longrightarrow> J S T E st \<Longrightarrow> n_waiting (snd st) < W \<Longrightarrow>
      u_ensures (g info st) (keeps (Load_category info) (Suc (n_waiting (snd st))) S T E)"
    and "J S T E (loads, u)" and "n_waiting u \<le> W" and "allowed (Load_class info)"
    and "mulle_objc_loadclassbase_is_sane env (lc_base info)"
  shows "u_ensures (mulle_objc_loadclass_enqueue env f g info (loads, u)) (\<lambda>(missing, st').
    if missing = 0 then J S T (insert (Load_class info) E) st' \<and> n_waiting (snd st') \<le> W
    else st' = (loads, u) \<and>
      (\<exists>d super. mulle_objc_loadclass_fulfill_dependencies env u info = Inr (d, super) \<and> missing = dep_classid d))"
  unfolding mulle_objc_loadclass_enqueue_def snd_conv MULLE_OBJC_NO_UNIQUEID_def
proof (rule u_ensures_bind [OF loadclass_fulfill_ensures [OF tame [OF assms(3)]]], clarify, rule u_ensures_if)
  fix d super
  assume f: "mulle_objc_loadclass_fulfill_dependencies env u info = Inr (d, super)" and "super_ok u super"
    and d: "\<not> dep_classid d \<noteq> 0"
  show "u_ensures (u_bind (install_loadclass env info super (loads, u)) (\<lambda>st1.
      u_bind (retrigger f g (lcb_classid (lc_base info)) st1) (\<lambda>st2. Inr (0, st2)))) (\<lambda>(missing, st').
    if missing = 0 then J S T (insert (Load_class info) E) st' \<and> n_waiting (snd st') \<le> W
    else st' = (loads, u) \<and>
      (\<exists>d super. mulle_objc_loadclass_fulfill_dependencies env u info = Inr (d, super) \<and> missing = dep_classid d))"
  proof (rule u_ensures_bind [OF install_loadclass_effect [OF tame [OF assms(3)] ok [OF assms(3)] \<open>super_ok u super\<close>]], clarify)
    fix v assume v: "installed u (lc_base info) super v"
    let ?st = "(loads @ load_entries (lcb_classmethods (lc_base info)) (meta_of (u_n_pairs u)), v)"
    have "n_waiting v = n_waiting u" using v by (simp add: installed_def n_waiting_def)
    with assms(4) have W: "n_waiting (snd ?st) \<le> W" by simp
    have "J (insert (wait_key (lcb_classid (lc_base info))) S) (insert (wait_key (lcb_classid (lc_base info))) T)
        (insert (Load_class info) E) ?st"
      using class_installed [OF assms(3,5,6) f _ v] d by simp
    from retrigger_keeps [of W f g, OF assms(1,2) this W]
    show "u_ensures (u_bind (retrigger f g (lcb_classid (lc_base info)) ?st) (\<lambda>st2. Inr (0, st2))) (\<lambda>(missing, st').
      if missing = 0 then J S T (insert (Load_class info) E) st' \<and> n_waiting (snd st') \<le> W
      else st' = (loads, u) \<and>
        (\<exists>d super. mulle_objc_loadclass_fulfill_dependencies env u info = Inr (d, super) \<and> missing = dep_classid d))"
      by (rule u_ensures_bind) simp_all
  qed
qed auto

lemma category_step:
  assumes "\<And>info S T E st. allowed (Load_class info) \<Longrightarrow> J S T E st \<Longrightarrow> n_waiting (snd st) < W \<Longrightarrow>
      u_ensures (f info st) (keeps (Load_class info) (Suc (n_waiting (snd st))) S T E)"
    and "\<And>info S T E st. allowed (Load_category info) \<Longrightarrow> J S T E st \<Longrightarrow> n_waiting (snd st) < W \<Longrightarrow>
      u_ensures (g info st) (keeps (Load_category info) (Suc (n_waiting (snd st))) S T E)"
    and "J S T E (loads, u)" and "n_waiting u \<le> W" and "allowed (Load_category info)"
    and "mulle_objc_loadcategory_is_sane env info"
  shows "u_ensures (mulle_objc_loadcategory_enqueue env f g info (loads, u)) (\<lambda>(missing, st').
    if missing = 0 then J S T (insert (Load_category info) E) st' \<and> n_waiting (snd st') \<le> W
    else st' = (loads, u) \<and>
      (\<exists>d cls. mulle_objc_loadcategory_fulfill_dependencies env u info = Inr (d, cls) \<and> missing = dep_classid d))"
    (is "u_ensures _ ?Q")
proof -
  have ids: "lcat_classid info \<noteq> 0" "lcat_categoryid info \<noteq> 0"
    using assms(6)
    by (auto simp: mulle_objc_loadcategory_is_sane_def mulle_objc_uniqueid_is_sane_string_def mulle_objc_uniqueid_is_sane_def
        c_defs split: option.splits if_splits)
  have install: "u_ensures (u_bind (install_loadcategory env info c (loads, u)) (\<lambda>st1.
      u_bind (retrigger f g (lcat_classid info) st1) (\<lambda>st2. Inr (0, st2)))) ?Q"
    if fulfilled: "mulle_objc_loadcategory_fulfill_dependencies env u info = Inr (d, Some c)"
      and c: "map_of (u_classtable u) (lcat_classid info) = Some c" and d: "dep_classid d = 0" for c d
  proof -
    from c have "registered u c" by (auto simp: registered_def)
    then obtain p where p: "p < u_n_pairs u" "c = infra_of p" using universe_okD(4) [OF ok [OF assms(3)]] by blast
    show ?thesis
      unfolding p(2)
    proof (rule u_ensures_bind [OF install_loadcategory_effect [OF tame [OF assms(3)] ok [OF assms(3)] p(1) ids(2)]], clarify)
      fix v assume v: "extended env p (lcat_categoryid info) u v"
      let ?st = "(loads @ load_entries (lcat_classmethods info) (meta_of p), v)"
      have "table_core v = table_core u" using v by (simp add: extended_def)
      from table_coreD [OF this] assms(4) have W: "n_waiting (snd ?st) \<le> W" by (simp add: n_waiting_def)
      have "J (insert (wait_key (lcat_classid info)) S) (insert (wait_key (lcat_classid info)) T)
          (insert (Load_category info) E) ?st"
        using category_installed [OF assms(3,5,6) p(1)] c fulfilled d v unfolding p(2) by blast
      from retrigger_keeps [of W f g, OF assms(1,2) this W]
      show "u_ensures (u_bind (retrigger f g (lcat_classid info) ?st) (\<lambda>st2. Inr (0, st2))) ?Q"
        by (rule u_ensures_bind) simp_all
    qed
  qed
  show ?thesis
    unfolding mulle_objc_loadcategory_enqueue_def snd_conv MULLE_OBJC_NO_UNIQUEID_def
  proof (rule u_ensures_bind [OF loadcategory_fulfill_ensures [OF tame [OF assms(3)]]], clarify)
    fix d
    assume f: "mulle_objc_loadcategory_fulfill_dependencies env u info = Inr (d, map_of (u_classtable u) (lcat_classid info))"
      and none: "map_of (u_classtable u) (lcat_classid info) = None \<longrightarrow> dep_classid d = lcat_classid info"
    show "u_ensures (case map_of (u_classtable u) (lcat_classid info) of
        None \<Rightarrow> Inr (dep_classid d, loads, u)
      | Some infra \<Rightarrow>
          if dep_classid d \<noteq> 0 then Inr (dep_classid d, loads, u)
          else u_bind (install_loadcategory env info infra (loads, u)) (\<lambda>st1.
            u_bind (retrigger f g (lcat_classid info) st1) (\<lambda>st2. Inr (0, st2)))) ?Q"
    proof (rule u_ensures_option)
      assume "map_of (u_classtable u) (lcat_classid info) = None"
      with f none ids(1) show "u_ensures (Inr (dep_classid d, loads, u)) ?Q" by simp
    next
      fix c assume c: "map_of (u_classtable u) (lcat_classid info) = Some c"
      show "u_ensures (if dep_classid d \<noteq> 0 then Inr (dep_classid d, loads, u)
          else u_bind (install_loadcategory env info c (loads, u)) (\<lambda>st1.
            u_bind (retrigger f g (lcat_classid info) st1) (\<lambda>st2. Inr (0, st2)))) ?Q"
        by (rule u_ensures_if) (use f c install in auto)
    qed
  qed
qed

text \<open>The loader keeps the invariant, and one more than the waiting entries is depth enough.\<close>

lemma enqueue_nofail_keeps:
  "allowed (Load_class info) \<Longrightarrow> J S T E st \<Longrightarrow> n_waiting (snd st) < n \<Longrightarrow>
    u_ensures (mulle_objc_loadclass_enqueue_nofail env n info st) (keeps (Load_class info) (Suc (n_waiting (snd st))) S T E)"
  "allowed (Load_category cat) \<Longrightarrow> J S T E st \<Longrightarrow> n_waiting (snd st) < n \<Longrightarrow>
    u_ensures (mulle_objc_loadcategory_enqueue_nofail env n cat st) (keeps (Load_category cat) (Suc (n_waiting (snd st))) S T E)"
proof (induction n arbitrary: info cat S T E st)
  case (Suc n)
  {
    case 1
    obtain loads u where st: "st = (loads, u)" by (cases st)
    show ?case
      unfolding mulle_objc_loadclass_enqueue_nofail.simps st
    proof (rule u_ensures_if, simp, rule u_ensures_bind [OF class_step])
      fix x
      assume x: "case x of (missing, st') \<Rightarrow>
        if missing = 0 then J S T (insert (Load_class info) E) st' \<and> n_waiting (snd st') \<le> n_waiting u
        else st' = (loads, u) \<and>
          (\<exists>d super. mulle_objc_loadclass_fulfill_dependencies env u info = Inr (d, super) \<and> missing = dep_classid d)"
      obtain missing st' where xx: "x = (missing, st')" by (cases x)
      show "u_ensures (case x of (missingclassid, st1) \<Rightarrow>
          if missingclassid \<noteq> MULLE_OBJC_NO_UNIQUEID
          then u_bind (mulle_objc_loadclass_delayedadd info missingclassid (snd st1)) (\<lambda>u. Inr (fst st1, u))
          else Inr st1) (keeps (Load_class info) (Suc (n_waiting (snd (loads, u)))) S T E)"
      proof (cases "missing = 0")
        case True
        with x show ?thesis by (simp add: xx MULLE_OBJC_NO_UNIQUEID_def)
      next
        case False
        with x obtain d super where d: "mulle_objc_loadclass_fulfill_dependencies env u info = Inr (d, super)"
          "missing = dep_classid d" "st' = (loads, u)" by (auto simp: xx)
        have "J S T (insert (Load_class info) E)
            (loads, u_classestoload_update (mulle_objc_map_append_info (dep_classid d) info) u)"
          using class_delayed [OF 1(2) [unfolded st] 1(1) d(1)] False d(2) by simp
        then show ?thesis
          using False d
          by (auto simp: xx MULLE_OBJC_NO_UNIQUEID_def mulle_objc_loadclass_delayedadd_def n_waiting_def
              n_entries_append_info u_assert_def)
      qed
    qed (use 1 Suc.IH st in auto)
  next
    case 2
    obtain loads u where st: "st = (loads, u)" by (cases st)
    show ?case
      unfolding mulle_objc_loadcategory_enqueue_nofail.simps st
    proof (rule u_ensures_if, simp, rule u_ensures_bind [OF category_step])
      fix x
      assume x: "case x of (missing, st') \<Rightarrow>
        if missing = 0 then J S T (insert (Load_category cat) E) st' \<and> n_waiting (snd st') \<le> n_waiting u
        else st' = (loads, u) \<and>
          (\<exists>d cls. mulle_objc_loadcategory_fulfill_dependencies env u cat = Inr (d, cls) \<and> missing = dep_classid d)"
      obtain missing st' where xx: "x = (missing, st')" by (cases x)
      show "u_ensures (case x of (missingclassid, st1) \<Rightarrow>
          if missingclassid \<noteq> MULLE_OBJC_NO_UNIQUEID
          then u_bind (mulle_objc_loadcategory_delayedadd cat missingclassid (snd st1)) (\<lambda>u. Inr (fst st1, u))
          else Inr st1) (keeps (Load_category cat) (Suc (n_waiting (snd (loads, u)))) S T E)"
      proof (cases "missing = 0")
        case True
        with x show ?thesis by (simp add: xx MULLE_OBJC_NO_UNIQUEID_def)
      next
        case False
        with x obtain d cls where d: "mulle_objc_loadcategory_fulfill_dependencies env u cat = Inr (d, cls)"
          "missing = dep_classid d" "st' = (loads, u)" by (auto simp: xx)
        have "J S T (insert (Load_category cat) E)
            (loads, u_categoriestoload_update (mulle_objc_map_append_info (dep_classid d) cat) u)"
          using category_delayed [OF 2(2) [unfolded st] 2(1) d(1)] False d(2) by simp
        then show ?thesis
          using False d
          by (auto simp: xx MULLE_OBJC_NO_UNIQUEID_def mulle_objc_loadcategory_delayedadd_def n_waiting_def
              n_entries_append_info)
      qed
    qed (use 2 Suc.IH st in auto)
  }
qed simp_all

lemma enqueue_keeps:
  assumes "allowed e" and "J S T E st" and "n_waiting (snd st) < n"
  shows "u_ensures (enqueue env n e st) (keeps e (Suc (n_waiting (snd st))) S T E)"
proof (cases e)
  case (Load_mixin info)
  obtain loads u where st: "st = (loads, u)" by (cases st)
  show ?thesis
    unfolding Load_mixin enqueue.simps mulle_objc_loadmixin_enqueue_nofail_def mulle_objc_loadmixin_enqueue_def st
  proof (rule u_ensures_if, simp, rule u_ensures_bind [OF install_loadmixin_effect [OF tame [OF assms(2)]]], goal_cases)
    case (2 x)
    then obtain v where x: "x = (loads @ load_entries (lcb_classmethods (lm_base info)) (meta_of (u_n_pairs u)), v)"
      and v: "installed u (lm_base info) None v" by (cases x) auto
    have W: "n_waiting (snd x) \<le> n_waiting u" using v by (simp add: x installed_def n_waiting_def)
    have "J (insert (wait_key (lcb_classid (lm_base info))) S) (insert (wait_key (lcb_classid (lm_base info))) T)
        (insert (Load_mixin info) E) x"
      unfolding x using mixin_installed [OF assms(2) [unfolded st] assms(1) [unfolded Load_mixin] _ v] 2 by simp
    from retrigger_keeps [OF _ _ this W, where f = "mulle_objc_loadclass_enqueue_nofail env n"
        and g = "mulle_objc_loadcategory_enqueue_nofail env n"] enqueue_nofail_keeps assms(3)
    show ?case by (rule_tac u_ensures_mono) (auto simp: st)
  qed (use ok assms(2) st in auto)
qed (use assms enqueue_nofail_keeps in auto)

lemma enqueue_all_keeps:
  assumes "\<forall>e \<in> set es. allowed e" and "J S T E st" and "n_waiting (snd st) + length es \<le> n"
  shows "u_ensures (u_each (enqueue env n) es st)
    (\<lambda>st'. J S T (E \<union> set es) st' \<and> n_waiting (snd st') \<le> n_waiting (snd st) + length es)"
  using assms
proof (induction es arbitrary: E st)
  case (Cons e es)
  have "u_ensures (enqueue env n e st) (keeps e (Suc (n_waiting (snd st))) S T E)"
    using Cons.prems by (intro enqueue_keeps) auto
  then show ?case
    unfolding u_each.simps
  proof (rule u_ensures_bind, elim conjE)
    fix st1 assume st1: "J S T (insert e E) st1" "n_waiting (snd st1) \<le> Suc (n_waiting (snd st))"
    have "u_ensures (u_each (enqueue env n) es st1)
        (\<lambda>st'. J S T (insert e E \<union> set es) st' \<and> n_waiting (snd st') \<le> n_waiting (snd st1) + length es)"
      using Cons.prems st1 by (intro Cons.IH) auto
    then show "u_ensures (u_each (enqueue env n) es st1)
        (\<lambda>st'. J S T (E \<union> set (e # es)) st' \<and> n_waiting (snd st') \<le> n_waiting (snd st) + length (e # es))"
      using st1(2) by (elim u_ensures_mono) auto
  qed
qed simp

end

end
