(* ===== verification/Load_Wellformed.thy ===== *)
theory Load_Wellformed
  imports Loader
begin

text \<open>
  Loading an object file (\<open>_mulle_objc_loadinfo_enqueue_nofail\<close> of \<open>mulle-objc-load.c\<close>)
  comes to an end and keeps the universe in order: the invariant of \<open>Universe_Invariant\<close> is the first
  that the loader of theory \<open>Loader\<close> is interpreted with.
\<close>

section \<open>What an object file brings\<close>

text \<open>The lists in the order in which they are loaded, sorted if the compiler did not sort them.\<close>

definition loadables :: "'imp universe_env \<Rightarrow> 'imp mulle_objc_loadinfo \<Rightarrow> 'imp loadable list" where
  "loadables env info =
     (let need_sort = (version_bits (li_version info) AND loadinfo_unsorted \<noteq> 0)
      in map (\<lambda>c. Load_class (if need_sort then mulle_objc_loadclass_sort_lists env c else c))
           (case li_loadclasslist info of None \<Rightarrow> [] | Some xs \<Rightarrow> xs) @
         map (\<lambda>m. Load_mixin (if need_sort then mulle_objc_loadmixin_sort_lists env m else m))
           (case li_loadmixinlist info of None \<Rightarrow> [] | Some xs \<Rightarrow> xs) @
         map (\<lambda>c. Load_category (if need_sort then mulle_objc_loadcategory_sort_lists env c else c))
           (case li_loadcategorylist info of None \<Rightarrow> [] | Some xs \<Rightarrow> xs))"

lemma u_each_Nil: "u_each f [] = Inr"
  by (simp add: fun_eq_iff)

lemma u_each_map: "u_each f (map g xs) = u_each (\<lambda>x. f (g x)) xs"
proof
  show "u_each f (map g xs) s = u_each (\<lambda>x. f (g x)) xs s" for s
  proof (induction xs arbitrary: s)
    case (Cons x xs)
    then show ?case by (cases "f (g x) s") simp_all
  qed simp
qed

lemma u_each_append': "u_each f (xs @ ys) = (\<lambda>s. u_bind (u_each f xs s) (u_each f ys))"
  by (simp add: fun_eq_iff u_each_append)

lemma load_lists_eq: "load_lists env n info u = u_each (enqueue env n) (loadables env info) ([], u)"
  by (simp add: load_lists_def loadables_def Let_def mulle_objc_loadclasslist_enqueue_nofail_def
      mulle_objc_loadmixinlist_enqueue_nofail_def mulle_objc_loadcategorylist_enqueue_nofail_def
      u_each_append' u_each_map u_each_Nil u_bind_assoc split: option.split)

text \<open>The version checks of the foundation and of the user come to an end.\<close>

definition asserts_return :: "'imp universe_env \<Rightarrow> bool" where
  "asserts_return env \<longleftrightarrow> (\<forall>versionassert \<in> {ue_foundation_versionassert env, ue_user_versionassert env}.
     case versionassert of None \<Rightarrow> True | Some check \<Rightarrow> \<forall>version. check version \<noteq> Some No_return)"

text \<open>What comes before the lists leaves the core of the universe alone.\<close>

lemma core_add_staticinstance: "u_ensures (mulle_objc_universe_add_staticinstance u inst) (\<lambda>v. core v = core u)"
  unfolding mulle_objc_universe_add_staticinstance_def
  by (auto simp: u_assert_def core_defs fun_eq_iff split: static_isa.split option.split)

lemma core_register_super: "u_ensures (mulle_objc_universe_register_super_nofail env u p) (\<lambda>v. core v = core u)"
  unfolding mulle_objc_universe_register_super_nofail_def
  by (auto simp: mulle_objc_universe_register_super_def split: option.split prod.split)

lemma core_add_loadhashedstringlist: "core (mulle_objc_universe_add_loadhashedstringlist u entries) = core u"
  by (simp add: mulle_objc_universe_add_loadhashedstringlist_def)

lemma assert_version_ensures:
  assumes "asserts_return env"
  shows "u_ensures (assert_version_of version (ue_foundation_versionassert env) reason v) (\<lambda>_. True)"
    "u_ensures (assert_version_of version (ue_user_versionassert env) reason v) (\<lambda>_. True)"
  using assms by (auto simp: assert_version_of_def asserts_return_def split: option.split)

lemma core_assert_loadinfo:
  assumes "asserts_return env"
  shows "u_ensures (mulle_objc_universe_assert_loadinfo env info u) (\<lambda>v. core v = core u)"
proof -
  have "u_ensures (assert_load_bits env info u) (\<lambda>v. core v = core u)"
    by (simp add: assert_load_bits_def Let_def mulle_objc_universe_set_loadbit_def)
  then show ?thesis
    unfolding mulle_objc_universe_assert_loadinfo_def Let_def
    by (intro u_ensures_if u_ensures_bind [OF assert_version_ensures(1) [OF assms]]
        u_ensures_bind [OF assert_version_ensures(2) [OF assms]]) simp_all
qed

text \<open>So the lists decide what becomes of the universe, together with the \<open>+load\<close> methods.\<close>

lemma loadinfo_ensures:
  assumes "asserts_return env"
    and "\<And>v. core v = core u \<Longrightarrow> u_ensures (load_lists env n info v)
      (\<lambda>(loads, w). Q (mulle_objc_callqueue_walk loads (call_load env) w))"
    and "(\<exists>f. ue_should_load_loadinfo env = Some f \<and> \<not> f info) \<Longrightarrow> Q u"
  shows "u_ensures (mulle_objc_loadinfo_enqueue_nofail env n (Some info) u) Q"
proof -
  have strings: "u_ensures (mulle_objc_loadstringlist_enqueue_nofail list v) (\<lambda>w. core w = core u)"
    if "core v = core u" for list v
  proof -
    have "u_ensures (u_each (\<lambda>s u. mulle_objc_universe_add_staticinstance u s) ss v) (\<lambda>w. core w = core u)" for ss
      by (rule u_ensures_each) (auto intro: u_ensures_mono [OF core_add_staticinstance] simp: that)
    then show ?thesis by (simp add: mulle_objc_loadstringlist_enqueue_nofail_def that split: option.split)
  qed
  have supers: "u_ensures (mulle_objc_loadsuperlist_enqueue_nofail env list v) (\<lambda>w. core w = core u)"
    if "core v = core u" for list v
  proof -
    have "u_ensures (u_each (\<lambda>p u. mulle_objc_universe_register_super_nofail env u (Some p)) ss v) (\<lambda>w. core w = core u)" for ss
      by (rule u_ensures_each) (auto intro: u_ensures_mono [OF core_register_super] simp: that)
    then show ?thesis by (simp add: mulle_objc_loadsuperlist_enqueue_nofail_def that split: option.split)
  qed
  have hashed: "core (mulle_objc_loadhashedstringlist_enqueue_nofail env list b v) = core v" for list b v
    by (simp add: mulle_objc_loadhashedstringlist_enqueue_nofail_def core_add_loadhashedstringlist split: option.split)
  have version: "u_ensures (mulle_objc_universe_assert_runtimeversion env (li_version info)) (\<lambda>_. True)"
    by (simp add: mulle_objc_universe_assert_runtimeversion_def)
  show ?thesis
    unfolding mulle_objc_loadinfo_enqueue_nofail_def option.case Let_def
  proof (rule u_ensures_bind [OF version], rule u_ensures_if)
    assume "case ue_should_load_loadinfo env of None \<Rightarrow> False | Some should_load \<Rightarrow> \<not> should_load info"
    with assms(3) show "u_ensures (Inr u) Q" by (simp split: option.splits)
  next
    show "u_ensures (u_bind (mulle_objc_universe_assert_loadinfo env info u) (\<lambda>u1.
       u_bind (mulle_objc_loadstringlist_enqueue_nofail (li_loadstringlist info) u1) (\<lambda>u2.
       u_bind (mulle_objc_loadsuperlist_enqueue_nofail env (li_loadsuperlist info)
         (mulle_objc_loadhashedstringlist_enqueue_nofail env (li_loadhashedstringlist info)
            (version_bits (li_version info) AND loadinfo_unsorted \<noteq> 0) u2)) (\<lambda>u4.
       u_bind (load_lists env n info u4) (\<lambda>(loads, u5).
         Inr (mulle_objc_callqueue_walk loads (call_load env) u5)))))) Q"
    proof (rule u_ensures_bind [OF core_assert_loadinfo [OF assms(1)]], rule u_ensures_bind [OF strings], assumption,
        rule u_ensures_bind [OF supers], simp add: hashed, rule u_ensures_bind [OF assms(2)], assumption)
    qed auto
  qed
qed

section \<open>The universe stays in order\<close>

lemma universe_ok_queues:
  "universe_ok (u_classestoload_update f u) = universe_ok u" "universe_ok (u_categoriestoload_update g u) = universe_ok u"
  by (simp_all add: universe_ok_def pair_ok_def registered_def Let_def cong: option.case_cong)

interpretation wellformed: loading env "\<lambda>S T E st. tame env \<and> universe_ok (snd st)" "\<lambda>_. True"
  for env :: "'imp universe_env"
  by unfold_locales (auto simp only: snd_conv universe_ok_queues installed_def extended_def)

lemma n_waiting_core:
  assumes "core v = core u"
  shows "n_waiting v = n_waiting u"
  by (simp add: n_waiting_def coreD [OF assms])

lemma walk_keeps:
  assumes "\<And>entry u. entry \<in> set queue \<Longrightarrow> P u \<Longrightarrow>
      P (callback (entry_obj entry) (entry_uniqueid entry) (entry_imp entry) u)" and "P u"
  shows "P (mulle_objc_callqueue_walk queue callback u)"
  using assms by (induction queue arbitrary: u) auto

text \<open>C11: A loadinfo is loaded to its end whatever it contains (the recursion of the loader cannot
  exceed the number of waiting entries), and when it is loaded without a fatal error the universe is
  well formed again.\<close>

theorem loadinfo_keeps_wellformed:
  assumes "tame env" and "asserts_return env"
    and "\<And>imp c v. universe_ok v \<Longrightarrow> universe_ok (ue_call_load env imp c v)"
    and "universe_ok u" and "n_waiting u + length (loadables env info) \<le> n"
  shows "mulle_objc_loadinfo_enqueue_nofail env n (Some info) u \<noteq> Inl No_return \<and>
    (\<forall>v. mulle_objc_loadinfo_enqueue_nofail env n (Some info) u = Inr v \<longrightarrow> universe_ok v)"
proof -
  have calls: "universe_ok (call_load env c s imp v)" if "universe_ok v" for c s imp v
  proof -
    have "universe_ok (v\<lparr> u_load_calls := u_load_calls v @ [(c, imp)] \<rparr>)"
      using that by (simp add: universe_ok_def pair_ok_def registered_def Let_def cong: option.case_cong)
    then show ?thesis by (simp add: call_load_def assms(3))
  qed
  have run: "u_ensures (mulle_objc_loadinfo_enqueue_nofail env n (Some info) u) universe_ok"
  proof (rule loadinfo_ensures [OF assms(2)])
    fix w assume w: "core w = core u"
    have ok: "tame env \<and> universe_ok (snd ([] :: 'a mulle_objc_callqueue, w))"
      using assms(1,4) universe_ok_core [OF w] by simp
    have size: "n_waiting (snd ([] :: 'a mulle_objc_callqueue, w)) + length (loadables env info) \<le> n"
      using assms(5) n_waiting_core [OF w] by simp
    have "u_ensures (load_lists env n info w)
        (\<lambda>st. (tame env \<and> universe_ok (snd st)) \<and> n_waiting (snd st) \<le> n_waiting (snd ([] :: 'a mulle_objc_callqueue, w)) + length (loadables env info))"
      unfolding load_lists_eq by (rule wellformed.enqueue_all_keeps [OF _ ok size]) simp
    then show "u_ensures (load_lists env n info w)
        (\<lambda>(loads, w). universe_ok (mulle_objc_callqueue_walk loads (call_load env) w))"
      by (elim u_ensures_mono) (auto intro!: walk_keeps [where P = universe_ok] calls)
  qed (rule assms(4))
  then show ?thesis by (simp add: u_ensures_def)
qed

end
