(* ===== verification/Load_Order.thy ===== *)
theory Load_Order
  imports Load_Wellformed
begin

text \<open>
  The order of the \<open>+load\<close> calls (\<open>dox/load/LOAD.md\<close>): a class after its superclasses, a category
  after its class, whatever the order in which they came.
\<close>

section \<open>The order of the call queue\<close>

text \<open>The \<open>+load\<close> of a class itself, not of its categories.\<close>

definition own_load :: "'imp universe \<Rightarrow> nat \<Rightarrow> 'imp mulle_objc_callqueue" where
  "own_load u p =
     (case pair_loadclass (u_pair u p) of
        None \<Rightarrow> []
      | Some base \<Rightarrow> load_entries (lcb_classmethods base) (meta_of p))"

text \<open>
  An entry for the pair \<open>p\<close> comes after those of all pairs from \<open>n\<close> on that are older than \<open>p\<close>, and
  after that of \<open>p\<close> itself unless it is that entry.
\<close>

definition entry_in_order :: "nat \<Rightarrow> 'imp universe \<Rightarrow> 'imp mulle_objc_callqueue \<Rightarrow> 'imp queue_entry \<Rightarrow> bool" where
  "entry_in_order n u before entry \<longleftrightarrow>
     (\<exists>p < u_n_pairs u. entry_obj entry = meta_of p \<and>
       (\<forall>q. n \<le> q \<longrightarrow> q < p \<or> q = p \<and> entry \<notin> set (own_load u p) \<longrightarrow> set (own_load u q) \<subseteq> set before))"

definition queue_in_order :: "nat \<Rightarrow> 'imp load_state \<Rightarrow> bool" where
  "queue_in_order n st \<longleftrightarrow>
     (let (loads, u) = st in
      n \<le> u_n_pairs u \<and>
      (\<forall>q. n \<le> q \<longrightarrow> q < u_n_pairs u \<longrightarrow> set (own_load u q) \<subseteq> set loads) \<and>
      (\<forall>j < length loads. entry_in_order n u (take j loads) (loads ! j)))"

lemma load_entries_obj: "entry \<in> set (load_entries list meta) \<Longrightarrow> entry_obj entry = meta"
  by (auto simp: load_entries_def split: option.splits sum.splits)

lemma entry_in_order_mono:
  assumes "entry_in_order n u before entry" and "u_n_pairs u \<le> u_n_pairs v"
    and "\<And>q. q < u_n_pairs u \<Longrightarrow> own_load v q = own_load u q"
  shows "entry_in_order n v before entry"
proof -
  from assms(1) obtain p where p: "p < u_n_pairs u" "entry_obj entry = meta_of p"
    "\<And>q. n \<le> q \<Longrightarrow> q < p \<or> q = p \<and> entry \<notin> set (own_load u p) \<Longrightarrow> set (own_load u q) \<subseteq> set before"
    by (auto simp: entry_in_order_def)
  with assms(2,3) show ?thesis unfolding entry_in_order_def by (intro exI [of _ p]) auto
qed

text \<open>Entries of the youngest pair, or of a pair whose own entry is there, are appended.\<close>

lemma queue_in_order_append:
  assumes "queue_in_order n (loads, u)" and "u_n_pairs u \<le> u_n_pairs v"
    and "\<And>q. q < u_n_pairs u \<Longrightarrow> own_load v q = own_load u q"
    and "\<And>q. u_n_pairs u \<le> q \<Longrightarrow> q < u_n_pairs v \<Longrightarrow> own_load v q = entries"
    and "p < u_n_pairs v" and "p < u_n_pairs u \<or> p = u_n_pairs u"
    and "p = u_n_pairs u \<Longrightarrow> entries = own_load v p"
    and "\<And>entry. entry \<in> set entries \<Longrightarrow> entry_obj entry = meta_of p"
  shows "queue_in_order n (loads @ entries, v)"
proof -
  have u: "n \<le> u_n_pairs u" "n \<le> q \<Longrightarrow> q < u_n_pairs u \<Longrightarrow> set (own_load u q) \<subseteq> set loads"
    "j < length loads \<Longrightarrow> entry_in_order n u (take j loads) (loads ! j)" for q j
    using assms(1) by (simp_all add: queue_in_order_def)
  have old: "set (own_load v q) \<subseteq> set loads" if "n \<le> q" "q < u_n_pairs u" for q
    using u(2) [OF that] assms(3) [OF that(2)] by simp
  have "entry_in_order n v (take j (loads @ entries)) ((loads @ entries) ! j)" if "j < length (loads @ entries)" for j
  proof (cases "j < length loads")
    case True
    with entry_in_order_mono [OF u(3) [OF True] assms(2,3)] show ?thesis by (simp add: nth_append)
  next
    case False
    then have nth: "(loads @ entries) ! j \<in> set entries" and before: "set loads \<subseteq> set (take j (loads @ entries))"
      using that by (auto simp: nth_append)
    have "set (own_load v q) \<subseteq> set (take j (loads @ entries))"
      if "n \<le> q" "q < p \<or> q = p \<and> (loads @ entries) ! j \<notin> set (own_load v p)" for q
    proof -
      have "q < u_n_pairs u" using that(2) assms(6,7) nth by auto
      from old [OF that(1) this] before show ?thesis by blast
    qed
    with assms(5,8) nth show ?thesis unfolding entry_in_order_def by blast
  qed
  moreover have "set (own_load v q) \<subseteq> set (loads @ entries)" if "n \<le> q" "q < u_n_pairs v" for q
    using old [OF that(1)] assms(4) [OF _ that(2)] by (cases "q < u_n_pairs u") auto
  ultimately show ?thesis using u(1) assms(2) by (simp add: queue_in_order_def)
qed

lemma queue_in_order_class:
  assumes "queue_in_order n (loads, u)" and "installed u base super v"
  shows "queue_in_order n (loads @ load_entries (lcb_classmethods base) (meta_of (u_n_pairs u)), v)"
proof -
  have v: "u_n_pairs v = Suc (u_n_pairs u)" "pair_loadclass (u_pair v (u_n_pairs u)) = Some base"
    "\<And>p. p < u_n_pairs u \<Longrightarrow> pair_core v p = pair_core u p"
    using assms(2) by (simp_all add: installed_def)
  have new: "own_load v (u_n_pairs u) = load_entries (lcb_classmethods base) (meta_of (u_n_pairs u))"
    by (simp add: own_load_def v(2))
  show ?thesis
  proof (rule queue_in_order_append [OF assms(1), where p = "u_n_pairs u"])
    show "own_load v q = own_load u q" if "q < u_n_pairs u" for q
      by (simp add: own_load_def pair_coreD(3) [OF v(3) [OF that]])
    show "own_load v q = load_entries (lcb_classmethods base) (meta_of (u_n_pairs u))"
      if "u_n_pairs u \<le> q" "q < u_n_pairs v" for q
    proof -
      have "q = u_n_pairs u" using that v(1) by simp
      then show ?thesis by (simp add: new)
    qed
  qed (simp_all add: v(1) new load_entries_obj)
qed

lemma queue_in_order_category:
  assumes "queue_in_order n (loads, u)" and "extended env p categoryid u v" and "p < u_n_pairs u"
  shows "queue_in_order n (loads @ load_entries methods (meta_of p), v)"
proof -
  have v: "table_core v = table_core u" "\<And>q. q \<noteq> p \<Longrightarrow> pair_core v q = pair_core u q"
    "pair_loadclass (u_pair v p) = pair_loadclass (u_pair u p)"
    using assms(2) by (simp_all add: extended_def)
  note n = table_coreD(1) [OF v(1)]
  have "own_load v q = own_load u q" for q
    using v(3) pair_coreD(3) [OF v(2), of q] by (cases "q = p") (simp_all add: own_load_def)
  then show ?thesis
    using assms(3)
    by (intro queue_in_order_append [OF assms(1), where p = p]) (simp_all add: n load_entries_obj)
qed

lemma queue_in_order_updates:
  "queue_in_order n (loads, u_classestoload_update f u) = queue_in_order n (loads, u)"
  "queue_in_order n (loads, u_categoriestoload_update g u) = queue_in_order n (loads, u)"
  by (simp_all add: queue_in_order_def entry_in_order_def own_load_def cong: option.case_cong)

interpretation ordered: loading env "\<lambda>S T E st. tame env \<and> universe_ok (snd st) \<and> queue_in_order n st" "\<lambda>_. True"
  for env :: "'imp universe_env" and n
proof (unfold_locales, goal_cases)
  case (4 S T E loads u info d super v)
  then show ?case by (auto intro: queue_in_order_class simp: installed_def)
next
  case (5 S T E loads u mix v)
  then show ?case by (auto intro: queue_in_order_class simp: installed_def)
next
  case (6 S T E loads u cat p d v)
  then show ?case by (auto intro: queue_in_order_category simp: extended_def)
qed (auto simp only: snd_conv universe_ok_queues queue_in_order_updates)

text \<open>C12: In the call queue of a load the +load of a class comes before that of every class that inherits
  from it, and before that of its own categories, in whatever order the object file lists them and
  whether or not they had to wait for each other.\<close>

theorem superclass_loads_first:
  assumes "tame env" and "universe_ok u" and "n_waiting u + length (loadables env info) \<le> n"
    and "load_lists env n info u = Inr (loads, v)"
    and "j < length loads" and "entry_obj (loads ! j) = meta_of p"
    and "(infra_of p, infra_of q) \<in> {(c, super). sc_superclass (u_search_class v c) = Some super}\<^sup>+ \<or>
      q = p \<and> loads ! j \<notin> set (load_entries (lcb_classmethods base) (meta_of q))"
    and "u_n_pairs u \<le> q" and "pair_loadclass (u_pair v q) = Some base"
    and "entry \<in> set (load_entries (lcb_classmethods base) (meta_of q))"
  shows "\<exists>i < j. loads ! i = entry"
proof -
  have "queue_in_order (u_n_pairs u) ([], u)" by (simp add: queue_in_order_def)
  with assms(1-3) have "u_ensures (load_lists env n info u) (\<lambda>st.
      (tame env \<and> universe_ok (snd st) \<and> queue_in_order (u_n_pairs u) st) \<and>
      n_waiting (snd st) \<le> n_waiting (snd ([] :: 'a mulle_objc_callqueue, u)) + length (loadables env info))"
    unfolding load_lists_eq by (intro ordered.enqueue_all_keeps) simp_all
  from u_ensuresD [OF this assms(4)] have v: "universe_ok v" and order: "queue_in_order (u_n_pairs u) (loads, v)" by simp_all
  have own: "own_load v q = load_entries (lcb_classmethods base) (meta_of q)"
    by (simp add: own_load_def assms(9))
  have older: "s < c" if "(c, s) \<in> {(c, super). sc_superclass (u_search_class v c) = Some super}\<^sup>+" for c s
    using that universe_ok_ranked [OF v] by (induction rule: trancl_induct) (auto simp: ranked_def dest: less_trans)
  from assms(7) own older [of "infra_of p" "infra_of q"] have "q < p \<or> q = p \<and> loads ! j \<notin> set (own_load v p)" by auto
  moreover from order assms(5) have "entry_in_order (u_n_pairs u) v (take j loads) (loads ! j)"
    by (simp add: queue_in_order_def)
  ultimately have "set (own_load v q) \<subseteq> set (take j loads)"
    using assms(6,8) by (auto simp: entry_in_order_def)
  with assms(10) have "entry \<in> set (take j loads)" by (auto simp: own)
  then show ?thesis using assms(5) by (auto simp: in_set_conv_nth)
qed

end
