(* ===== verification/Load_Complete.thy ===== *)
theory Load_Complete
  imports Load_Wellformed
begin

text \<open>
  The purpose of the wait queues (\<open>dox/load/LOAD.md\<close>): object files, and the classes, mixins and
  categories in them, may come in any order. Whenever everything that is depended on is among them or
  there already, nothing is left waiting in the end and everything is installed.
\<close>

section \<open>Dependencies\<close>

text \<open>What \<open>+dependencies\<close> answers, up to the terminator.\<close>

definition user_dependencies :: "'imp universe_env \<Rightarrow> 'imp search_methodlist option \<Rightarrow> mulle_objc_dependency list" where
  "user_dependencies env methods =
     (case methods of
        None \<Rightarrow> []
      | Some ml \<Rightarrow>
          (case mulle_objc_methodlist_bsearch_dependencies_imp ml of
             Inr (Some imp) \<Rightarrow>
               (case ue_dependencies env imp None of
                  None \<Rightarrow> []
                | Some ds \<Rightarrow> takeWhile (\<lambda>d. dep_classid d \<noteq> 0) ds)
           | _ \<Rightarrow> []))"

text \<open>What a loadable waits for.\<close>

primrec depends :: "'imp universe_env \<Rightarrow> 'imp loadable \<Rightarrow> mulle_objc_dependency list" where
  "depends env (Load_class info) =
     (if lc_superclassid info = 0 then [] else [missing_dependency (lc_superclassid info)]) @
     map missing_dependency (filter (\<lambda>i. i \<noteq> lc_superclassid info \<and> i \<noteq> lcb_classid (lc_base info))
       (terminated_ids (lc_mixinids info))) @
     user_dependencies env (lcb_classmethods (lc_base info))"
| "depends env (Load_mixin info) = []"
| "depends env (Load_category info) =
     missing_dependency (lcat_classid info) #
     map missing_dependency (filter (\<lambda>i. i \<noteq> lcat_classid info) (terminated_ids (lcat_mixinids info))) @
     user_dependencies env (lcat_classmethods info)"

abbreviation categoryids :: "'imp universe \<Rightarrow> nat \<Rightarrow> uint32 list" where
  "categoryids u p \<equiv> pair_categoryids (u_pair u p)"

definition has_dependency :: "'imp universe \<Rightarrow> mulle_objc_dependency \<Rightarrow> bool" where
  "has_dependency u d \<longleftrightarrow>
     (case map_of (u_classtable u) (dep_classid d) of
        None \<Rightarrow> False
      | Some c \<Rightarrow> dep_categoryid d = 0 \<or> dep_categoryid d \<in> set (categoryids u (sc_classpair (u_search_class u c))))"

text \<open>What a loadable brings, and that it is installed: the class of the table is the one it describes.\<close>

primrec provides :: "'imp loadable \<Rightarrow> mulle_objc_dependency \<Rightarrow> bool" where
  "provides (Load_class info) d \<longleftrightarrow> dep_classid d = lcb_classid (lc_base info) \<and> dep_categoryid d = 0"
| "provides (Load_mixin info) d \<longleftrightarrow> dep_classid d = lcb_classid (lm_base info) \<and> dep_categoryid d = 0"
| "provides (Load_category info) d \<longleftrightarrow> dep_classid d = lcat_classid info \<and> dep_categoryid d = lcat_categoryid info"

definition has_class :: "'imp universe \<Rightarrow> 'imp mulle_objc_loadclassbase \<Rightarrow> bool" where
  "has_class u base \<longleftrightarrow>
     (case map_of (u_classtable u) (lcb_classid base) of
        None \<Rightarrow> False
      | Some c \<Rightarrow> pair_loadclass (u_pair u (sc_classpair (u_search_class u c))) = Some base)"

primrec is_loaded :: "'imp universe \<Rightarrow> 'imp loadable \<Rightarrow> bool" where
  "is_loaded u (Load_class info) \<longleftrightarrow> has_class u (lc_base info)"
| "is_loaded u (Load_mixin info) \<longleftrightarrow> has_class u (lm_base info)"
| "is_loaded u (Load_category info) \<longleftrightarrow>
     (case map_of (u_classtable u) (lcat_classid info) of
        None \<Rightarrow> False
      | Some c \<Rightarrow> lcat_categoryid info \<in> set (categoryids u (sc_classpair (u_search_class u c))))"

lemma provided: "is_loaded u e \<Longrightarrow> provides e d \<Longrightarrow> has_dependency u d"
  by (cases e) (auto simp: has_dependency_def has_class_def split: option.splits)

section \<open>The dependency checks\<close>

text \<open>The id arrays of the categories can be searched: sorted, distinct and within \<open>K\<close>.\<close>

definition categories_ok :: "uint32 set \<Rightarrow> 'imp universe \<Rightarrow> bool" where
  "categories_ok K u \<longleftrightarrow> finite K \<and> card K \<le> 2 ^ 30 \<and>
     (\<forall>p < u_n_pairs u. sorted (categoryids u p) \<and> distinct (categoryids u p) \<and> set (categoryids u p) \<subseteq> K)"

lemma has_categoryid_eq:
  assumes "categories_ok K u" and "p < u_n_pairs u" and "mulle_objc_classpair_has_categoryid u p categoryid = Inr has"
  shows "has \<longleftrightarrow> categoryid \<in> set (categoryids u p)"
proof -
  have "distinct (categoryids u p)" "finite K" "set (categoryids u p) \<subseteq> K"
    using assms(1,2) by (auto simp: categories_ok_def)
  then have "length (categoryids u p) \<le> card K" using card_mono by (metis distinct_card)
  then have len: "length (categoryids u p) \<le> 2 ^ 30" using assms(1) by (simp add: categories_ok_def)
  have "mulle_objc_uniqueid_is_sane categoryid"
    using assms(3)
    by (auto simp: mulle_objc_classpair_has_categoryid_def mulle_objc_uniqueidarray_search_def c_assert_def
        mulle_objc_uniqueid_is_sane_def c_defs split: if_splits)
  with uniqueidarray_search_sorted [OF _ len] assms show ?thesis
    by (simp add: mulle_objc_classpair_has_categoryid_def categories_ok_def)
qed

lemma no_dependency_classid [simp]: "dep_classid no_dependency = 0"
  by (simp add: no_dependency_def c_defs)

lemma fulfill_universe_missing:
  assumes "tame env" and "universe_ok u" and "categories_ok K u"
    and "mulle_objc_universe_fulfill_dependencies env u infra0 ds = Inr d" and "dep_classid d \<noteq> 0"
    and "\<And>c. infra0 = Some c \<Longrightarrow> registered u c"
  shows "d \<in> set (takeWhile (\<lambda>d. dep_classid d \<noteq> 0) ds) \<and> \<not> has_dependency u d"
  using assms(4,6)
proof (induction ds arbitrary: infra0)
  case Nil
  with assms(5) show ?case by auto
next
  case (Cons e ds)
  have e: "dep_classid e \<noteq> 0" using Cons.prems(1) assms(5) by (auto split: if_splits)
  let ?known = "case infra0 of None \<Rightarrow> False | Some infra \<Rightarrow> sc_classid (u_search_class u infra) = dep_classid e"
  let ?infra1 = "if ?known then infra0 else map_of (u_classtable u) (dep_classid e)"
  have lookup: "?infra1 = map_of (u_classtable u) (dep_classid e)"
    using Cons.prems(2) universe_okD(3) [OF assms(2)] by (fastforce simp: registered_def split: option.split)
  note run = Cons.prems(1) [simplified, unfolded tame_lookup [OF assms(1)] lookup Let_def]
  show ?case
  proof (cases "map_of (u_classtable u) (dep_classid e)")
    case None
    with run e have "d = e" by (simp add: Let_def tame_lookup [OF assms(1)] lookup)
    with None e show ?thesis by (simp add: has_dependency_def)
  next
    case (Some infra)
    from Some obtain p where p: "p < u_n_pairs u" "infra = infra_of p"
      using universe_okD(4) [OF assms(2), of infra] by (auto simp: registered_def)
    have pair: "sc_classpair (u_search_class u infra) = p"
      using pair_okD(3) [OF universe_okD(1) [OF assms(2) p(1)]] p(2) by simp
    have rest: "mulle_objc_universe_fulfill_dependencies env u (Some infra) ds = Inr d \<Longrightarrow> ?thesis"
      using Cons.IH [of "Some infra"] Some e by (auto simp: registered_def)
    show ?thesis
    proof (cases "dep_categoryid e = 0")
      case True
      with run e Some show ?thesis by (intro rest) (simp add: Let_def tame_lookup [OF assms(1)] lookup)
    next
      case False
      then have "u_bind (of_c_result (mulle_objc_classpair_has_categoryid u p (dep_categoryid e))) (\<lambda>has.
          if has then mulle_objc_universe_fulfill_dependencies env u (Some infra) ds else Inr e) = Inr d"
        using Cons.prems(1) e pair
        unfolding mulle_objc_universe_fulfill_dependencies.simps tame_lookup [OF assms(1)] Let_def lookup
        unfolding Some by simp
      then obtain has where has: "mulle_objc_classpair_has_categoryid u p (dep_categoryid e) = Inr has"
        "(if has then mulle_objc_universe_fulfill_dependencies env u (Some infra) ds else Inr e) = Inr d"
        by (cases "mulle_objc_classpair_has_categoryid u p (dep_categoryid e)") simp_all
      show ?thesis
      proof (cases has)
        case False
        with has have "d = e" by simp
        moreover have "dep_categoryid e \<notin> set (categoryids u p)"
          using has_categoryid_eq [OF assms(3) p(1) has(1)] False by simp
        ultimately show ?thesis
          using e Some pair \<open>dep_categoryid e \<noteq> 0\<close> by (simp add: has_dependency_def)
      qed (use has rest in simp)
    qed
  qed
qed

text \<open>The answer of \<open>+dependencies\<close> does not depend on the class that is asked.\<close>

definition dependencies_fixed :: "'imp universe_env \<Rightarrow> bool" where
  "dependencies_fixed env \<longleftrightarrow> (\<forall>imp infra. ue_dependencies env imp infra = ue_dependencies env imp None)"

lemma fulfill_user_missing:
  assumes "tame env" and "universe_ok u" and "categories_ok K u" and "dependencies_fixed env"
    and "fulfill_user_dependencies env u methods infra = Inr d" and "dep_classid d \<noteq> 0"
    and "\<And>c. infra = Some c \<Longrightarrow> registered u c"
  shows "d \<in> set (user_dependencies env methods) \<and> \<not> has_dependency u d"
proof (cases methods)
  case None
  with assms(5,6) show ?thesis by (auto simp: fulfill_user_dependencies_def)
next
  case (Some ml)
  show ?thesis
  proof (cases "mulle_objc_methodlist_bsearch_dependencies_imp ml")
    case (Inr r)
    obtain imp where imp: "r = Some imp"
      using assms(5,6) Some Inr
      by (cases r) (auto simp: fulfill_user_dependencies_def)
    have same: "ue_dependencies env imp infra = ue_dependencies env imp None"
      using assms(4) by (simp add: dependencies_fixed_def)
    with assms(5) Some Inr imp obtain ds where ds: "ue_dependencies env imp None = Some ds"
      "mulle_objc_universe_fulfill_dependencies env u infra ds = Inr d"
      by (cases "ue_dependencies env imp None") (auto simp: fulfill_user_dependencies_def)
    from fulfill_universe_missing [OF assms(1-3) ds(2) assms(6,7)]
    show ?thesis by (simp add: user_dependencies_def Some Inr imp ds(1))
  qed (use assms(5) Some in \<open>simp add: fulfill_user_dependencies_def\<close>)
qed

lemma first_missing_mixin_missing:
  assumes "tame env" and "first_missing_mixin env u skipped ids = Some classid"
  shows "classid \<in> set ids \<and> classid \<notin> set skipped \<and> map_of (u_classtable u) classid = None"
  using assms(2)
  by (induction ids) (auto simp: tame_lookup [OF assms(1)] split: if_splits option.splits)

lemma loadclass_missing:
  assumes "tame env" and "universe_ok u" and "categories_ok K u" and "dependencies_fixed env"
    and "mulle_objc_loadclass_fulfill_dependencies env u info = Inr (d, super)" and "dep_classid d \<noteq> 0"
  shows "d \<in> set (depends env (Load_class info)) \<and> \<not> has_dependency u d"
proof -
  have user: "d \<in> set (user_dependencies env (lcb_classmethods (lc_base info))) \<and> \<not> has_dependency u d"
    if "mulle_objc_loadclass_fulfill_user_dependencies env u info = Inr d"
    using fulfill_user_missing [OF assms(1-4) that [unfolded mulle_objc_loadclass_fulfill_user_dependencies_def] assms(6)]
    by simp
  let ?super = "if lc_superclassid info \<noteq> 0 then map_of (u_classtable u) (lc_superclassid info) else None"
  let ?mixin = "first_missing_mixin env u [lc_superclassid info, lcb_classid (lc_base info)]
    (terminated_ids (lc_mixinids info))"
  show ?thesis
  proof (cases "lc_superclassid info \<noteq> 0 \<and> ?super = None")
    case True
    from assms(5) [unfolded mulle_objc_loadclass_fulfill_dependencies_def Let_def tame_lookup [OF assms(1)] if_P [OF True]]
    have "d = missing_dependency (lc_superclassid info)" by simp
    moreover from True have "lc_superclassid info \<noteq> 0" "map_of (u_classtable u) (lc_superclassid info) = None" by auto
    ultimately show ?thesis by (simp add: has_dependency_def missing_dependency_def)
  next
    case False
    note run = assms(5) [unfolded mulle_objc_loadclass_fulfill_dependencies_def Let_def tame_lookup [OF assms(1)] if_not_P [OF False]]
    show ?thesis
    proof (cases ?mixin)
      case None
      with run have "mulle_objc_loadclass_fulfill_user_dependencies env u info = Inr d"
        by (simp add: u_bind_Inr split: if_splits)
      from user [OF this] show ?thesis by simp
    next
      case (Some classid)
      with run have "d = missing_dependency classid" by (simp split: if_splits)
      with first_missing_mixin_missing [OF assms(1) Some] show ?thesis
        by (simp add: has_dependency_def missing_dependency_def)
    qed
  qed
qed

lemma loadcategory_missing:
  assumes "tame env" and "universe_ok u" and "categories_ok K u" and "dependencies_fixed env"
    and "mulle_objc_loadcategory_fulfill_dependencies env u info = Inr (d, cls)" and "dep_classid d \<noteq> 0"
  shows "d \<in> set (depends env (Load_category info)) \<and> \<not> has_dependency u d"
proof -
  have user: "d \<in> set (user_dependencies env (lcat_classmethods info)) \<and> \<not> has_dependency u d"
    if "mulle_objc_loadcategory_fulfill_user_dependencies env u info c = Inr d"
      and "map_of (u_classtable u) (lcat_classid info) = Some c" for c
    using fulfill_user_missing [OF assms(1-4) that(1) [unfolded mulle_objc_loadcategory_fulfill_user_dependencies_def] assms(6)]
      that(2) by (auto simp: registered_def)
  show ?thesis
  proof (cases "map_of (u_classtable u) (lcat_classid info)")
    case None
    with assms(5) have "d = missing_dependency (lcat_classid info)"
      by (simp add: mulle_objc_loadcategory_fulfill_dependencies_def tame_lookup [OF assms(1)])
    with None show ?thesis by (simp add: has_dependency_def missing_dependency_def)
  next
    case (Some c)
    show ?thesis
    proof (cases "first_missing_mixin env u [lcat_classid info] (terminated_ids (lcat_mixinids info))")
      case None
      with assms(5) Some have "mulle_objc_loadcategory_fulfill_user_dependencies env u info c = Inr d"
        by (simp add: mulle_objc_loadcategory_fulfill_dependencies_def tame_lookup [OF assms(1)] u_bind_Inr)
      with user [OF this Some] show ?thesis by simp
    next
      case (Some classid)
      with assms(5) \<open>map_of (u_classtable u) (lcat_classid info) = Some c\<close> have "d = missing_dependency classid"
        by (simp add: mulle_objc_loadcategory_fulfill_dependencies_def tame_lookup [OF assms(1)])
      with first_missing_mixin_missing [OF assms(1) Some] show ?thesis
        by (simp add: has_dependency_def missing_dependency_def)
    qed
  qed
qed

section \<open>The wait queues\<close>

text \<open>Every entry satisfies \<open>P\<close> of its key, and no list is empty.\<close>

definition waiting_ok :: "(uint64 \<Rightarrow> 'a \<Rightarrow> bool) \<Rightarrow> (uint64 \<times> 'a list) list \<Rightarrow> bool" where
  "waiting_ok P table \<longleftrightarrow> (\<forall>(k, xs) \<in> set table. xs \<noteq> [] \<and> (\<forall>x \<in> set xs. P k x))"

definition queued :: "(uint64 \<times> 'a list) list \<Rightarrow> 'a \<Rightarrow> bool" where
  "queued table x \<longleftrightarrow> (\<exists>k xs. map_of table k = Some xs \<and> x \<in> set xs)"

lemma waiting_ok_mono: "waiting_ok P table \<Longrightarrow> (\<And>k x. P k x \<Longrightarrow> Q k x) \<Longrightarrow> waiting_ok Q table"
  by (fastforce simp: waiting_ok_def)

lemma waiting_ok_update:
  "waiting_ok P table \<Longrightarrow> xs \<noteq> [] \<Longrightarrow> \<forall>x \<in> set xs. P k x \<Longrightarrow> waiting_ok P (AList.update k xs table)"
proof (induction table)
  case (Cons t table)
  then show ?case by (cases t) (auto simp: waiting_ok_def)
qed (simp add: waiting_ok_def)

lemma waiting_ok_append:
  assumes "waiting_ok P table" and "P (wait_key classid) x"
  shows "waiting_ok P (mulle_objc_map_append_info classid x table)"
proof -
  have "\<forall>y \<in> set xs. P (wait_key classid) y" if "map_of table (wait_key classid) = Some xs" for xs
    using assms(1) map_of_SomeD [OF that] by (auto simp: waiting_ok_def)
  with assms show ?thesis
    unfolding mulle_objc_map_append_info_def Let_def
    by (cases "map_of table (wait_key classid)") (auto intro!: waiting_ok_update)
qed

lemma waiting_ok_delete:
  "waiting_ok P table \<Longrightarrow> (\<And>j x. j \<noteq> k \<Longrightarrow> P j x \<Longrightarrow> Q j x) \<Longrightarrow> waiting_ok Q (AList.delete k table)"
  by (fastforce simp: waiting_ok_def AList.delete_eq)

lemma waiting_ok_absent:
  "waiting_ok P table \<Longrightarrow> map_of table k = None \<Longrightarrow> (\<And>j x. j \<noteq> k \<Longrightarrow> P j x \<Longrightarrow> Q j x) \<Longrightarrow> waiting_ok Q table"
  by (fastforce simp: waiting_ok_def map_of_eq_None_iff)

lemma queued_append: "queued (mulle_objc_map_append_info classid x table) y \<longleftrightarrow> y = x \<or> queued table y"
  unfolding queued_def map_of_append_info by (auto split: option.splits if_splits; metis option.inject)

lemma queued_delete:
  "queued table x \<Longrightarrow> map_of table k = Some xs \<Longrightarrow> queued (AList.delete k table) x \<or> x \<in> set xs"
  unfolding queued_def delete_conv' by (metis (no_types) fun_upd_other option.inject)

section \<open>Everything is accounted for\<close>

definition blocked :: "'imp universe_env \<Rightarrow> 'imp universe \<Rightarrow> uint64 \<Rightarrow> 'imp loadable \<Rightarrow> bool" where
  "blocked env u k e \<longleftrightarrow> (\<exists>d \<in> set (depends env e). \<not> has_dependency u d \<and> wait_key (dep_classid d) = k)"

primrec waits :: "'imp universe \<Rightarrow> 'imp loadable \<Rightarrow> bool" where
  "waits u (Load_class info) \<longleftrightarrow> queued (u_classestoload u) info"
| "waits u (Load_mixin info) \<longleftrightarrow> False"
| "waits u (Load_category info) \<longleftrightarrow> queued (u_categoriestoload u) info"

text \<open>Of the loadables \<open>A\<close>, with category ids in \<open>K\<close>; the dependencies \<open>D\<close> were there before.\<close>

definition setting :: "'imp universe_env \<Rightarrow> uint32 set \<Rightarrow> 'imp loadable set \<Rightarrow> bool" where
  "setting env K A \<longleftrightarrow> tame env \<and> qsort_contract (ue_sort_ids env) \<and> dependencies_fixed env \<and>
     (\<forall>cat. Load_category cat \<in> A \<longrightarrow> lcat_categoryid cat \<in> K)"

definition accounted ::
    "'imp universe_env \<Rightarrow> uint32 set \<Rightarrow> mulle_objc_dependency set \<Rightarrow> 'imp loadable set \<Rightarrow>
     uint64 set \<Rightarrow> uint64 set \<Rightarrow> 'imp loadable set \<Rightarrow> 'imp load_state \<Rightarrow> bool" where
  "accounted env K D A S T E st \<longleftrightarrow>
     (let u = snd st in
      setting env K A \<and> universe_ok u \<and> categories_ok K u \<and>
      waiting_ok (\<lambda>k info. Load_class info \<in> A \<and> (k \<in> S \<or> blocked env u k (Load_class info))) (u_classestoload u) \<and>
      waiting_ok (\<lambda>k cat. Load_category cat \<in> A \<and> (k \<in> T \<or> blocked env u k (Load_category cat))) (u_categoriestoload u) \<and>
      (\<forall>d \<in> D. has_dependency u d) \<and> (\<forall>e \<in> E. is_loaded u e \<or> waits u e))"

subsection \<open>An installation\<close>

lemma registered_pair:
  assumes "universe_ok u" and "map_of (u_classtable u) classid = Some c"
  obtains p where "p < u_n_pairs u" "c = infra_of p" "sc_classpair (u_search_class u c) = p"
proof -
  have "registered u c" using assms(2) by (auto simp: registered_def)
  then obtain p where p: "p < u_n_pairs u" "c = infra_of p" using universe_okD(4) [OF assms(1)] by blast
  with pair_okD(3) [OF universe_okD(1) [OF assms(1) p(1)]] that show ?thesis by simp
qed

lemma installed_effect:
  assumes "installed u base super v" and "universe_ok u"
  shows "map_of (u_classtable v) = (map_of (u_classtable u))(lcb_classid base \<mapsto> infra_of (u_n_pairs u))"
    "map_of (u_classtable u) classid = Some c \<Longrightarrow>
      u_pair v (sc_classpair (u_search_class v c)) = q \<Longrightarrow> r = u_pair u (sc_classpair (u_search_class u c)) \<Longrightarrow>
      pair_categoryids q = pair_categoryids r \<and> pair_loadclass q = pair_loadclass r"
    "has_class v base"
    "categories_ok K u \<Longrightarrow> categories_ok K v"
proof -
  let ?n = "u_n_pairs u"
  have v: "universe_ok v" "u_n_pairs v = Suc ?n" "map_of (u_classtable u) (lcb_classid base) = None"
    "u_classtable v = u_classtable u @ [(lcb_classid base, infra_of ?n)]"
    "c < 2 * ?n \<Longrightarrow> class_core v c = class_core u c" "p < ?n \<Longrightarrow> pair_core v p = pair_core u p"
    "categoryids v ?n = []" "pair_loadclass (u_pair v ?n) = Some base" for c p
    using assms(1) by (simp_all add: installed_def)
  show table: "map_of (u_classtable v) = (map_of (u_classtable u))(lcb_classid base \<mapsto> infra_of ?n)"
    using v(3) by (auto simp: v(4) map_add_def fun_eq_iff split: option.split)
  show "pair_categoryids q = pair_categoryids r \<and> pair_loadclass q = pair_loadclass r"
    if "map_of (u_classtable u) classid = Some c" "u_pair v (sc_classpair (u_search_class v c)) = q"
      "r = u_pair u (sc_classpair (u_search_class u c))"
  proof -
    from registered_pair [OF assms(2) that(1)] obtain p
      where p: "p < ?n" "c = infra_of p" "sc_classpair (u_search_class u c) = p" .
    have "c < 2 * ?n" using p by simp
    from class_coreD(4) [OF v(5) [OF this]] pair_coreD(2,3) [OF v(6) [OF p(1)]] p(3) that(2,3) show ?thesis by auto
  qed
  have "sc_classpair (u_search_class v (infra_of ?n)) = ?n"
    using pair_okD(3) [OF universe_okD(1) [OF v(1)], of ?n] v(2) by simp
  then show "has_class v base" by (simp add: has_class_def table v(8))
  assume K: "categories_ok K u"
  have "sorted (categoryids v p) \<and> distinct (categoryids v p) \<and> set (categoryids v p) \<subseteq> K" if "p < u_n_pairs v" for p
  proof (cases "p = ?n")
    case False
    with that v(2) have "p < ?n" by simp
    with K pair_coreD(2) [OF v(6) [OF this]] show ?thesis by (simp add: categories_ok_def)
  qed (simp add: v(7))
  with K show "categories_ok K v" by (simp add: categories_ok_def)
qed

lemma installed_keeps:
  assumes "installed u base super v" and "universe_ok u"
  shows "dep_classid d \<noteq> lcb_classid base \<Longrightarrow> has_dependency v d = has_dependency u d"
    "is_loaded u e \<Longrightarrow> is_loaded v e" "waits v e = waits u e" "has_dependency u d \<Longrightarrow> has_dependency v d"
proof -
  note effect = installed_effect(1,2) [OF assms]
  have free: "map_of (u_classtable u) (lcb_classid base) = None" using assms(1) by (simp add: installed_def)
  show other: "has_dependency v d = has_dependency u d" if "dep_classid d \<noteq> lcb_classid base"
    using that effect(2) [OF _ refl refl] by (auto simp: has_dependency_def effect(1) split: option.split)
  show "has_dependency v d" if "has_dependency u d"
  proof -
    have "dep_classid d \<noteq> lcb_classid base" using that free by (auto simp: has_dependency_def)
    from other [OF this] that show ?thesis by simp
  qed
  have cls: "has_class v b" if b: "has_class u b" for b
  proof -
    have "lcb_classid b \<noteq> lcb_classid base" using b free by (auto simp: has_class_def)
    with b effect(2) [OF _ refl refl] show ?thesis by (auto simp: has_class_def effect(1) split: option.splits)
  qed
  show "is_loaded v e" if "is_loaded u e"
  proof (cases e)
    case (Load_category cat)
    with that free have "lcat_classid cat \<noteq> lcb_classid base" by auto
    with that Load_category effect(2) [OF _ refl refl] show ?thesis by (auto simp: effect(1) split: option.splits)
  qed (use that cls in auto)
  show "waits v e = waits u e" using assms(1) by (cases e) (simp_all add: installed_def)
qed

text \<open>The queues after an installation: what becomes loadable waits under the key of the class.\<close>

lemma blocked_keeps:
  assumes "\<And>d. dep_classid d \<noteq> classid \<Longrightarrow> has_dependency v d = has_dependency u d" and "k \<noteq> wait_key classid"
  shows "blocked env v k e = blocked env u k e"
  unfolding blocked_def using assms by metis

lemma accounted_step:
  assumes "accounted env K D A S T E (loads, u)" and "universe_ok v" and "categories_ok K v"
    and "\<And>d. dep_classid d \<noteq> classid \<Longrightarrow> has_dependency v d = has_dependency u d"
    and "\<And>e. is_loaded u e \<Longrightarrow> is_loaded v e" and "is_loaded v x"
    and "u_classestoload v = u_classestoload u" and "u_categoriestoload v = u_categoriestoload u"
    and "\<And>d. has_dependency u d \<Longrightarrow> has_dependency v d"
  shows "accounted env K D A (insert (wait_key classid) S) (insert (wait_key classid) T) (insert x E) (loads', v)"
proof -
  note blocked = blocked_keeps [of classid v u, OF assms(4)]
  have waits: "waits v e = waits u e" for e by (cases e) (simp_all add: assms(7,8))
  from assms(1) have u: "setting env K A"
    "waiting_ok (\<lambda>k info. Load_class info \<in> A \<and> (k \<in> S \<or> blocked env u k (Load_class info))) (u_classestoload u)"
    "waiting_ok (\<lambda>k cat. Load_category cat \<in> A \<and> (k \<in> T \<or> blocked env u k (Load_category cat))) (u_categoriestoload u)"
    "\<forall>e \<in> E. is_loaded u e \<or> waits u e" "\<forall>d \<in> D. has_dependency u d"
    by (simp_all add: accounted_def Let_def)
  from u(2) have "waiting_ok (\<lambda>k info. Load_class info \<in> A \<and>
      (k \<in> insert (wait_key classid) S \<or> blocked env v k (Load_class info))) (u_classestoload v)"
    unfolding assms(7) by (rule waiting_ok_mono) (use blocked in auto)
  moreover from u(3) have "waiting_ok (\<lambda>k cat. Load_category cat \<in> A \<and>
      (k \<in> insert (wait_key classid) T \<or> blocked env v k (Load_category cat))) (u_categoriestoload v)"
    unfolding assms(8) by (rule waiting_ok_mono) (use blocked in auto)
  moreover have "\<forall>e \<in> insert x E. is_loaded v e \<or> waits v e" using u(4) assms(5,6) by (auto simp: waits)
  ultimately show ?thesis using u(1,5) assms(2,3,9) by (simp add: accounted_def)
qed

lemma extended_effect:
  assumes "extended env p categoryid u v" and "universe_ok u" and "p < u_n_pairs u" and "categories_ok K u"
    and "qsort_contract (ue_sort_ids env)" and "categoryid \<in> K"
    and "map_of (u_classtable u) classid = Some (infra_of p)"
  shows "set (categoryids v p) = insert categoryid (set (categoryids u p))"
    "categories_ok K v"
    "dep_classid d \<noteq> classid \<Longrightarrow> has_dependency v d = has_dependency u d"
    "is_loaded u e \<Longrightarrow> is_loaded v e"
    "map_of (u_classtable v) = map_of (u_classtable u)" "sc_classpair (u_search_class v (infra_of p)) = p"
    "has_dependency u d \<Longrightarrow> has_dependency v d"
proof -
  have v: "universe_ok v" "class_core v = class_core u" "table_core v = table_core u"
    "q \<noteq> p \<Longrightarrow> pair_core v q = pair_core u q" "pair_loadclass (u_pair v p) = pair_loadclass (u_pair u p)"
    "mulle_objc_classpair_has_categoryid u p categoryid = Inr False"
    "categoryids v p = mulle_objc_uniqueidarray_by_adding_ids (ue_sort_ids env) (categoryids u p) [categoryid] True" for q
    using assms(1) by (simp_all add: extended_def)
  note table = table_coreD [OF v(3)]
  have cls: "class_core v c = class_core u c" for c by (simp add: v(2))
  note cls = class_coreD [OF cls]
  note ids = uniqueidarray_by_adding_ids_sorted [OF assms(5), of "categoryids u p" "[categoryid]", folded v(7)]
  have new: "categoryid \<notin> set (categoryids u p)" using has_categoryid_eq [OF assms(4,3) v(6)] by simp
  have "set_mset (mset (categoryids v p)) = set_mset (mset (categoryids u p @ [categoryid]))" by (simp only: ids(2))
  then show set: "set (categoryids v p) = insert categoryid (set (categoryids u p))" by auto
  have "distinct (categoryids u p @ [categoryid])" using assms(3,4) new by (simp add: categories_ok_def)
  then have distinct: "distinct (categoryids v p)" using ids(2) mset_eq_imp_distinct_iff by metis
  have "sorted (categoryids v q) \<and> distinct (categoryids v q) \<and> set (categoryids v q) \<subseteq> K" if "q < u_n_pairs v" for q
  proof (cases "q = p")
    case True
    with set distinct ids(1) assms(3,4,6) show ?thesis by (auto simp: categories_ok_def)
  next
    case False
    with that assms(4) pair_coreD(2) [OF v(4) [OF False]] show ?thesis by (simp add: categories_ok_def table)
  qed
  with assms(4) show "categories_ok K v" by (simp add: categories_ok_def)
  have other: "sc_classpair (u_search_class u c) \<noteq> p" if "map_of (u_classtable u) i = Some c" "i \<noteq> classid" for i c
  proof
    assume "sc_classpair (u_search_class u c) = p"
    with registered_pair [OF assms(2) that(1)] have "c = infra_of p" by metis
    with universe_okD(3) [OF assms(2)] that assms(7) show False by metis
  qed
  show "has_dependency v d = has_dependency u d" if "dep_classid d \<noteq> classid"
    using that other pair_coreD(2) [OF v(4)] by (auto simp: has_dependency_def table cls split: option.split)
  have load: "pair_loadclass (u_pair v q) = pair_loadclass (u_pair u q)" "set (categoryids u q) \<subseteq> set (categoryids v q)" for q
    using v(5) set pair_coreD(2,3) [OF v(4), of q] by (cases "q = p"; auto)+
  show "has_dependency v d" if "has_dependency u d"
    using that load(2) by (auto simp: has_dependency_def table cls split: option.splits)
  show "is_loaded v e" if "is_loaded u e"
    using that load by (cases e) (auto simp: has_class_def table cls split: option.splits)
  show "map_of (u_classtable v) = map_of (u_classtable u)" by (simp add: table)
  show "sc_classpair (u_search_class v (infra_of p)) = p"
    using pair_okD(3) [OF universe_okD(1) [OF assms(2,3)]] by (simp add: cls)
qed

subsection \<open>The loader\<close>

lemma accountedD:
  assumes "accounted env K D A S T E (loads, u)"
  shows "setting env K A" "universe_ok u" "categories_ok K u"
    "waiting_ok (\<lambda>k info. Load_class info \<in> A \<and> (k \<in> S \<or> blocked env u k (Load_class info))) (u_classestoload u)"
    "waiting_ok (\<lambda>k cat. Load_category cat \<in> A \<and> (k \<in> T \<or> blocked env u k (Load_category cat))) (u_categoriestoload u)"
    "e \<in> E \<Longrightarrow> is_loaded u e \<or> waits u e" "\<forall>d \<in> D. has_dependency u d"
  using assms by (simp_all add: accounted_def Let_def)

text \<open>What is read of the universe apart from the queues does not change when a queue does.\<close>

lemma queue_updates:
  "categories_ok K (u_classestoload_update f u) = categories_ok K u"
  "categories_ok K (u_categoriestoload_update g u) = categories_ok K u"
  "has_dependency (u_classestoload_update f u) d = has_dependency u d"
  "has_dependency (u_categoriestoload_update g u) d = has_dependency u d"
  "is_loaded (u_classestoload_update f u) e = is_loaded u e"
  "is_loaded (u_categoriestoload_update g u) e = is_loaded u e"
  "blocked env (u_classestoload_update f u) k e = blocked env u k e"
  "blocked env (u_categoriestoload_update g u) k e = blocked env u k e"
proof -
  show dep: "has_dependency (u_classestoload_update f u) d = has_dependency u d"
    "has_dependency (u_categoriestoload_update g u) d = has_dependency u d" for d
    by (simp_all add: has_dependency_def cong: option.case_cong)
  show "blocked env (u_classestoload_update f u) k e = blocked env u k e"
    "blocked env (u_categoriestoload_update g u) k e = blocked env u k e"
    by (simp_all add: blocked_def dep)
  show "is_loaded (u_classestoload_update f u) e = is_loaded u e"
    "is_loaded (u_categoriestoload_update g u) e = is_loaded u e"
    by (cases e; simp add: has_class_def cong: option.case_cong)+
qed (simp_all add: categories_ok_def)

lemma accounted_weaken:
  assumes "accounted env K D A S T E (loads, u)" and "S \<subseteq> S'" and "T \<subseteq> T'" and "E' \<subseteq> E"
  shows "accounted env K D A S' T' E' (loads', u)"
proof -
  note u = accountedD [OF assms(1)]
  have "waiting_ok (\<lambda>k info. Load_class info \<in> A \<and> (k \<in> S' \<or> blocked env u k (Load_class info))) (u_classestoload u)"
    using u(4) by (rule waiting_ok_mono) (use assms(2) in auto)
  moreover have "waiting_ok (\<lambda>k cat. Load_category cat \<in> A \<and> (k \<in> T' \<or> blocked env u k (Load_category cat))) (u_categoriestoload u)"
    using u(5) by (rule waiting_ok_mono) (use assms(3) in auto)
  ultimately show ?thesis using u(1-3,6,7) assms(4) by (auto simp: accounted_def)
qed

lemma accounted_class_delayed:
  assumes "accounted env K D A S T E (loads, u)" and "Load_class info \<in> A"
    and "mulle_objc_loadclass_fulfill_dependencies env u info = Inr (d, super)" and "dep_classid d \<noteq> 0"
  shows "accounted env K D A S T (insert (Load_class info) E)
    (loads, u_classestoload_update (mulle_objc_map_append_info (dep_classid d) info) u)"
proof -
  note u = accountedD [OF assms(1)]
  have "tame env" "dependencies_fixed env" using u(1) by (simp_all add: setting_def)
  from loadclass_missing [OF this(1) u(2,3) this(2) assms(3,4)]
  have "blocked env u (wait_key (dep_classid d)) (Load_class info)" by (auto simp: blocked_def)
  with assms(2) have "waiting_ok (\<lambda>k info. Load_class info \<in> A \<and> (k \<in> S \<or> blocked env u k (Load_class info)))
      (mulle_objc_map_append_info (dep_classid d) info (u_classestoload u))"
    by (intro waiting_ok_append [OF u(4)]) simp
  moreover have "waits (u_classestoload_update (mulle_objc_map_append_info (dep_classid d) info) u) e \<longleftrightarrow>
      e = Load_class info \<or> waits u e" for e
    by (cases e) (simp_all add: queued_append)
  then have "\<forall>e \<in> insert (Load_class info) E. is_loaded (u_classestoload_update (mulle_objc_map_append_info (dep_classid d) info) u) e \<or>
      waits (u_classestoload_update (mulle_objc_map_append_info (dep_classid d) info) u) e"
    using u(6) by (simp only: queue_updates insert_iff) blast
  ultimately show ?thesis
    using u(1-5,7) by (simp add: accounted_def Let_def universe_ok_queues queue_updates del: is_loaded.simps waits.simps)
qed

lemma accounted_category_delayed:
  assumes "accounted env K D A S T E (loads, u)" and "Load_category cat \<in> A"
    and "mulle_objc_loadcategory_fulfill_dependencies env u cat = Inr (d, cls)" and "dep_classid d \<noteq> 0"
  shows "accounted env K D A S T (insert (Load_category cat) E)
    (loads, u_categoriestoload_update (mulle_objc_map_append_info (dep_classid d) cat) u)"
proof -
  note u = accountedD [OF assms(1)]
  have "tame env" "dependencies_fixed env" using u(1) by (simp_all add: setting_def)
  from loadcategory_missing [OF this(1) u(2,3) this(2) assms(3,4)]
  have "blocked env u (wait_key (dep_classid d)) (Load_category cat)" by (auto simp: blocked_def)
  with assms(2) have "waiting_ok (\<lambda>k cat. Load_category cat \<in> A \<and> (k \<in> T \<or> blocked env u k (Load_category cat)))
      (mulle_objc_map_append_info (dep_classid d) cat (u_categoriestoload u))"
    by (intro waiting_ok_append [OF u(5)]) simp
  moreover have "waits (u_categoriestoload_update (mulle_objc_map_append_info (dep_classid d) cat) u) e \<longleftrightarrow>
      e = Load_category cat \<or> waits u e" for e
    by (cases e) (simp_all add: queued_append)
  then have "\<forall>e \<in> insert (Load_category cat) E. is_loaded (u_categoriestoload_update (mulle_objc_map_append_info (dep_classid d) cat) u) e \<or>
      waits (u_categoriestoload_update (mulle_objc_map_append_info (dep_classid d) cat) u) e"
    using u(6) by (simp only: queue_updates insert_iff) blast
  ultimately show ?thesis
    using u(1-5,7) by (simp add: accounted_def Let_def universe_ok_queues queue_updates del: is_loaded.simps waits.simps)
qed

lemma accounted_classes_taken:
  assumes "accounted env K D A S T E (loads, u)" and "map_of (u_classestoload u) k = Some infos"
  shows "accounted env K D A (S - {k}) T (E - Load_class ` set infos) (loads, u_classestoload_update (AList.delete k) u) \<and>
    (\<forall>info \<in> set infos. Load_class info \<in> A)"
proof -
  note u = accountedD [OF assms(1)]
  have "\<forall>info \<in> set infos. Load_class info \<in> A"
    using u(4) map_of_SomeD [OF assms(2)] by (auto simp: waiting_ok_def)
  moreover have "waiting_ok (\<lambda>j info. Load_class info \<in> A \<and> (j \<in> S - {k} \<or> blocked env u j (Load_class info)))
      (AList.delete k (u_classestoload u))"
    using u(4) by (rule waiting_ok_delete) auto
  moreover have "\<forall>e \<in> E - Load_class ` set infos. is_loaded u e \<or> waits (u_classestoload_update (AList.delete k) u) e"
  proof
    fix e assume e: "e \<in> E - Load_class ` set infos"
    with u(6) [of e] queued_delete [OF _ assms(2)] show "is_loaded u e \<or> waits (u_classestoload_update (AList.delete k) u) e"
      by (cases e) auto
  qed
  ultimately show ?thesis
    using u(1-3,5,7) by (simp add: accounted_def Let_def universe_ok_queues queue_updates del: is_loaded.simps waits.simps)
qed

lemma accounted_categories_taken:
  assumes "accounted env K D A S T E (loads, u)" and "map_of (u_categoriestoload u) k = Some cats"
  shows "accounted env K D A S (T - {k}) (E - Load_category ` set cats) (loads, u_categoriestoload_update (AList.delete k) u) \<and>
    (\<forall>cat \<in> set cats. Load_category cat \<in> A)"
proof -
  note u = accountedD [OF assms(1)]
  have "\<forall>cat \<in> set cats. Load_category cat \<in> A"
    using u(5) map_of_SomeD [OF assms(2)] by (auto simp: waiting_ok_def)
  moreover have "waiting_ok (\<lambda>j cat. Load_category cat \<in> A \<and> (j \<in> T - {k} \<or> blocked env u j (Load_category cat)))
      (AList.delete k (u_categoriestoload u))"
    using u(5) by (rule waiting_ok_delete) auto
  moreover have "\<forall>e \<in> E - Load_category ` set cats. is_loaded u e \<or> waits (u_categoriestoload_update (AList.delete k) u) e"
  proof
    fix e assume e: "e \<in> E - Load_category ` set cats"
    with u(6) [of e] queued_delete [OF _ assms(2)] show "is_loaded u e \<or> waits (u_categoriestoload_update (AList.delete k) u) e"
      by (cases e) auto
  qed
  ultimately show ?thesis
    using u(1-4,7) by (simp add: accounted_def Let_def universe_ok_queues queue_updates del: is_loaded.simps waits.simps)
qed

lemma accounted_absent:
  assumes "accounted env K D A S T E (loads, u)"
  shows "map_of (u_classestoload u) k = None \<Longrightarrow> accounted env K D A (S - {k}) T E (loads, u)"
    "map_of (u_categoriestoload u) k = None \<Longrightarrow> accounted env K D A S (T - {k}) E (loads, u)"
proof -
  note u = accountedD [OF assms]
  show "accounted env K D A (S - {k}) T E (loads, u)" if "map_of (u_classestoload u) k = None"
    using waiting_ok_absent [OF u(4) that, of "\<lambda>j info. Load_class info \<in> A \<and> (j \<in> S - {k} \<or> blocked env u j (Load_class info))"] u
    by (simp add: accounted_def)
  show "accounted env K D A S (T - {k}) E (loads, u)" if "map_of (u_categoriestoload u) k = None"
    using waiting_ok_absent [OF u(5) that, of "\<lambda>j cat. Load_category cat \<in> A \<and> (j \<in> T - {k} \<or> blocked env u j (Load_category cat))"] u
    by (simp add: accounted_def)
qed

lemma accounted_category_installed:
  assumes "accounted env K D A S T E (loads, u)" and "Load_category cat \<in> A" and "p < u_n_pairs u"
    and "map_of (u_classtable u) (lcat_classid cat) = Some (infra_of p)"
    and "extended env p (lcat_categoryid cat) u v"
  shows "accounted env K D A (insert (wait_key (lcat_classid cat)) S) (insert (wait_key (lcat_classid cat)) T)
    (insert (Load_category cat) E) (loads', v)"
proof -
  note u = accountedD [OF assms(1)]
  have "qsort_contract (ue_sort_ids env)" "lcat_categoryid cat \<in> K" using u(1) assms(2) by (simp_all add: setting_def)
  note v = extended_effect [OF assms(5) u(2) assms(3) u(3) this assms(4)]
  have "universe_ok v" and table: "table_core v = table_core u" using assms(5) by (simp_all add: extended_def)
  moreover have "is_loaded v (Load_category cat)" using v(1,5,6) assms(4) by simp
  ultimately show ?thesis
    by (intro accounted_step [OF assms(1)]) (simp_all add: v(2,3,4,7) table_coreD [OF table] del: is_loaded.simps)
qed

lemma accounted_class_installed:
  assumes "accounted env K D A S T E (loads, u)" and "installed u base super v"
    and "x = Load_class info \<and> lc_base info = base \<or> x = Load_mixin mix \<and> lm_base mix = base"
  shows "accounted env K D A (insert (wait_key (lcb_classid base)) S) (insert (wait_key (lcb_classid base)) T)
    (insert x E) (loads', v)"
proof -
  note u = accountedD [OF assms(1)]
  note v = installed_effect(3,4) [OF assms(2) u(2)] and keeps = installed_keeps [OF assms(2) u(2)]
  have "is_loaded v x" using assms(3) v(1) by auto
  moreover have "universe_ok v" "u_classestoload v = u_classestoload u" "u_categoriestoload v = u_categoriestoload u"
    using assms(2) by (simp_all add: installed_def)
  ultimately show ?thesis
    using keeps(1,2,4) v(2) [OF u(3)] by (intro accounted_step [OF assms(1)])
qed

interpretation complete: loading env "accounted env K D A" "\<lambda>e. e \<in> A"
  for env :: "'imp universe_env" and K D A
proof (unfold_locales, goal_cases)
  case (1 S T E st)
  then show ?case by (simp add: accounted_def setting_def Let_def)
next
  case (3 S T E st S' T' E')
  then show ?case by (cases st) (auto intro: accounted_weaken)
qed (auto intro: accountedD(2) accounted_class_installed accounted_category_installed accounted_class_delayed
    accounted_category_delayed accounted_absent dest: accounted_classes_taken accounted_categories_taken)

section \<open>Everything is installed\<close>

text \<open>The object files are loaded one after the other.\<close>

definition load_all :: "'imp universe_env \<Rightarrow> nat \<Rightarrow> 'imp mulle_objc_loadinfo list \<Rightarrow> 'imp universe \<Rightarrow> 'imp universe guarded" where
  "load_all env n infos u = u_each (\<lambda>info. mulle_objc_loadinfo_enqueue_nofail env n (Some info)) infos u"

abbreviation all_loadables :: "'imp universe_env \<Rightarrow> 'imp mulle_objc_loadinfo list \<Rightarrow> 'imp loadable list" where
  "all_loadables env infos \<equiv> concat (map (loadables env) infos)"

text \<open>The category ids of a load, and of the classes that are there.\<close>

definition category_ids :: "'imp universe \<Rightarrow> 'imp loadable set \<Rightarrow> uint32 set" where
  "category_ids u A = (\<Union>p < u_n_pairs u. set (categoryids u p)) \<union>
     {categoryid. \<exists>cat. Load_category cat \<in> A \<and> categoryid = lcat_categoryid cat}"

text \<open>A universe in which nothing waits.\<close>

definition settled :: "'imp universe \<Rightarrow> bool" where
  "settled u \<longleftrightarrow> universe_ok u \<and> u_classestoload u = [] \<and> u_categoriestoload u = [] \<and>
     (\<forall>p < u_n_pairs u. sorted (categoryids u p) \<and> distinct (categoryids u p))"

text \<open>Every dependency is there, or among what is loaded and less deep.\<close>

definition closed_load :: "'imp universe_env \<Rightarrow> 'imp universe \<Rightarrow> 'imp loadable set \<Rightarrow> ('imp loadable \<Rightarrow> nat) \<Rightarrow> bool" where
  "closed_load env u A rank \<longleftrightarrow> (\<forall>e \<in> A. \<forall>d \<in> set (depends env e).
     has_dependency u d \<or> (\<exists>e' \<in> A. provides e' d \<and> rank e' < rank e))"

lemma accounted_core:
  assumes "accounted env K D A S T E (loads, u)" and "core v = core u"
  shows "accounted env K D A S T E (loads', v)"
proof -
  note c = coreD [OF assms(2)]
  have dep: "has_dependency v d = has_dependency u d" for d
    by (simp add: has_dependency_def c cong: option.case_cong)
  have "is_loaded v e = is_loaded u e" "waits v e = waits u e" for e
    by (cases e; simp add: has_class_def c cong: option.case_cong)+
  moreover have "blocked env v k e = blocked env u k e" for k e by (simp add: blocked_def dep)
  ultimately show ?thesis
    using assms(1) universe_ok_core [OF assms(2)]
    by (simp add: accounted_def Let_def categories_ok_def c dep del: is_loaded.simps waits.simps)
qed

lemma load_calls_update:
  "universe_ok (u\<lparr> u_load_calls := x \<rparr>) = universe_ok u" "categories_ok K (u\<lparr> u_load_calls := x \<rparr>) = categories_ok K u"
  "has_dependency (u\<lparr> u_load_calls := x \<rparr>) d = has_dependency u d"
  "is_loaded (u\<lparr> u_load_calls := x \<rparr>) e = is_loaded u e" "waits (u\<lparr> u_load_calls := x \<rparr>) e = waits u e"
  "blocked env (u\<lparr> u_load_calls := x \<rparr>) k e = blocked env u k e"
  "n_waiting (u\<lparr> u_load_calls := x \<rparr>) = n_waiting u"
proof -
  show dep: "has_dependency (u\<lparr> u_load_calls := x \<rparr>) d = has_dependency u d" for d
    by (simp add: has_dependency_def cong: option.case_cong)
  show "blocked env (u\<lparr> u_load_calls := x \<rparr>) k e = blocked env u k e" by (simp add: blocked_def dep)
  show "is_loaded (u\<lparr> u_load_calls := x \<rparr>) e = is_loaded u e" "waits (u\<lparr> u_load_calls := x \<rparr>) e = waits u e"
    by (cases e; simp add: has_class_def cong: option.case_cong)+
qed (simp_all add: universe_ok_def pair_ok_def registered_def categories_ok_def n_waiting_def Let_def
    cong: option.case_cong)

text \<open>What the \<open>+load\<close> methods do is not the loader's: they leave the core alone.\<close>

lemma accounted_call_load:
  assumes "\<And>imp c v. core (ue_call_load env imp c v) = core v" and "accounted env K D A S T E ([], u)"
  shows "accounted env K D A S T E ([], call_load env c s imp u)" "n_waiting (call_load env c s imp u) = n_waiting u"
proof -
  let ?u = "u\<lparr> u_load_calls := u_load_calls u @ [(c, imp)] \<rparr>"
  have "accounted env K D A S T E ([], ?u)"
    using assms(2) by (simp add: accounted_def Let_def load_calls_update del: is_loaded.simps waits.simps)
  from accounted_core [OF this assms(1)] show "accounted env K D A S T E ([], call_load env c s imp u)"
    by (simp add: call_load_def)
  show "n_waiting (call_load env c s imp u) = n_waiting u"
    using n_waiting_core [OF assms(1)] by (simp add: call_load_def load_calls_update)
qed

lemma load_all_accounted:
  assumes "asserts_return env" and "\<And>imp c v. core (ue_call_load env imp c v) = core v"
    and "\<forall>info \<in> set infos. \<forall>f. ue_should_load_loadinfo env = Some f \<longrightarrow> f info"
    and "set (all_loadables env infos) \<subseteq> A" and "accounted env K D A {} {} E ([], u)"
    and "n_waiting u + length (all_loadables env infos) \<le> n"
  shows "u_ensures (load_all env n infos u) (\<lambda>v. accounted env K D A {} {} (E \<union> set (all_loadables env infos)) ([], v))"
  using assms(3-6) unfolding load_all_def
proof (induction infos arbitrary: E u)
  case (Cons info infos)
  let ?xs = "loadables env info"
  let ?Q = "\<lambda>v. accounted env K D A {} {} (E \<union> set ?xs) ([], v) \<and> n_waiting v \<le> n_waiting u + length ?xs"
  have "u_ensures (mulle_objc_loadinfo_enqueue_nofail env n (Some info) u) ?Q"
  proof (rule loadinfo_ensures [OF assms(1)])
    fix w assume w: "core w = core u"
    have "u_ensures (u_each (enqueue env n) ?xs ([], w)) (\<lambda>st'. accounted env K D A {} {} (E \<union> set ?xs) st' \<and>
        n_waiting (snd st') \<le> n_waiting (snd ([] :: 'a mulle_objc_callqueue, w)) + length ?xs)"
      by (rule complete.enqueue_all_keeps)
        (use Cons.prems accounted_core [OF Cons.prems(3) w] n_waiting_core [OF w] in auto)
    then show "u_ensures (load_lists env n info w) (\<lambda>(loads, v). ?Q (mulle_objc_callqueue_walk loads (call_load env) v))"
      unfolding load_lists_eq
    proof (rule u_ensures_mono, clarify)
      fix loads v
      assume v: "accounted env K D A {} {} (E \<union> set ?xs) (loads, v)" "n_waiting (snd (loads, v)) \<le> n_waiting (snd ([] :: 'a mulle_objc_callqueue, w)) + length ?xs"
      show "?Q (mulle_objc_callqueue_walk loads (call_load env) v)"
      proof (rule walk_keeps [where P = ?Q])
        show "?Q v" using v accounted_core [OF v(1) refl] n_waiting_core [OF w] by simp
        show "?Q (call_load env (entry_obj entry) (entry_uniqueid entry) (entry_imp entry) v')" if "?Q v'" for entry v'
          using that accounted_call_load [OF assms(2)] by metis
      qed
    qed
  qed (use Cons.prems(1) in auto)
  then show ?case
    unfolding u_each.simps
  proof (rule u_ensures_bind)
    fix v assume v: "?Q v"
    have "u_ensures (u_each (\<lambda>info. mulle_objc_loadinfo_enqueue_nofail env n (Some info)) infos v)
        (\<lambda>v. accounted env K D A {} {} (E \<union> set ?xs \<union> set (all_loadables env infos)) ([], v))"
      by (rule Cons.IH) (use Cons.prems v in auto)
    then show "u_ensures (u_each (\<lambda>info. mulle_objc_loadinfo_enqueue_nofail env n (Some info)) infos v)
        (\<lambda>v. accounted env K D A {} {} (E \<union> set (all_loadables env (info # infos))) ([], v))"
      by (simp add: Un_assoc)
  qed
qed simp

lemma settled_accounted:
  assumes "setting env K A" and "settled u" and "card (category_ids u A) \<le> 2 ^ 30" and "finite A"
    and "K = category_ids u A"
  shows "accounted env K {d. has_dependency u d} A {} {} {} ([], u)"
proof -
  have "{i. \<exists>cat. Load_category cat \<in> A \<and> i = lcat_categoryid cat} \<subseteq>
      (\<lambda>e. case e of Load_category cat \<Rightarrow> lcat_categoryid cat | _ \<Rightarrow> 0) ` A"
    by (force split: loadable.split)
  then have "finite (category_ids u A)" using assms(4) by (auto simp: category_ids_def intro: finite_subset)
  then have "categories_ok K u" using assms(2,3,5) by (auto simp: categories_ok_def settled_def category_ids_def)
  then show ?thesis using assms(1,2) by (simp add: accounted_def settled_def waiting_ok_def)
qed

text \<open>In a closed load nothing can be blocked.\<close>

lemma accounted_closed:
  assumes "accounted env K {d. has_dependency u d} A {} {} A ([], v)" and "closed_load env u A rank"
  shows "(\<forall>e \<in> A. is_loaded v e) \<and> settled v"
proof -
  note v = accountedD [OF assms(1)]
  have free: "\<not> blocked env v k e" if "e \<in> A" "\<And>e'. e' \<in> A \<Longrightarrow> rank e' < rank e \<Longrightarrow> is_loaded v e'" for e k
  proof -
    have "has_dependency v d" if "d \<in> set (depends env e)" for d
      using assms(2) \<open>e \<in> A\<close> that \<open>\<And>e'. e' \<in> A \<Longrightarrow> rank e' < rank e \<Longrightarrow> is_loaded v e'\<close> provided v(7)
      unfolding closed_load_def by blast
    then show ?thesis by (auto simp: blocked_def)
  qed
  have waiting: "\<exists>k. blocked env v k e" if "waits v e" for e
  proof (cases e)
    case (Load_class info)
    with that obtain k xs where "map_of (u_classestoload v) k = Some xs" "info \<in> set xs" by (auto simp: queued_def)
    with v(4) map_of_SomeD have "blocked env v k (Load_class info)" by (fastforce simp: waiting_ok_def)
    then show ?thesis unfolding Load_class by blast
  next
    case (Load_category cat)
    with that obtain k xs where "map_of (u_categoriestoload v) k = Some xs" "cat \<in> set xs" by (auto simp: queued_def)
    with v(5) map_of_SomeD have "blocked env v k (Load_category cat)" by (fastforce simp: waiting_ok_def)
    then show ?thesis unfolding Load_category by blast
  qed (use that in simp)
  have loaded: "is_loaded v e" if "e \<in> A" for e
    using that
  proof (induction "rank e" arbitrary: e rule: less_induct)
    case less
    then have "\<not> blocked env v k e" for k using free by blast
    with waiting v(6) [OF less.prems] show ?case by blast
  qed
  have "\<not> blocked env v k e" if "e \<in> A" for e k using free [OF that] loaded by blast
  then have none: "\<not> waiting_ok (\<lambda>k x. f x \<in> A \<and> (k \<in> {} \<or> blocked env v k (f x))) (t # table)" for f t table
    by (cases t; cases "snd t") (auto simp: waiting_ok_def)
  have "u_classestoload v = []" using v(4) none by (cases "u_classestoload v") auto
  moreover have "u_categoriestoload v = []" using v(5) none by (cases "u_categoriestoload v") auto
  ultimately show ?thesis using v(2,3) loaded by (simp add: settled_def categories_ok_def)
qed

text \<open>C2: Object files may be loaded in any order, and so may the classes, mixins and categories in
  them. When everything that is depended on is loaded, too, or there already, the loader comes to its
  end, and if there was no fatal error every class, mixin and category is installed and nothing is left
  waiting.\<close>

theorem load_installs_everything:
  assumes "tame env" and "asserts_return env" and "qsort_contract (ue_sort_ids env)" and "dependencies_fixed env"
    and "\<And>imp c v. core (ue_call_load env imp c v) = core v"
    and "\<forall>info \<in> set infos. \<forall>f. ue_should_load_loadinfo env = Some f \<longrightarrow> f info"
    and "settled u" and "card (category_ids u (set (all_loadables env infos))) \<le> 2 ^ 30"
    and "closed_load env u (set (all_loadables env infos)) rank"
    and "length (all_loadables env infos) \<le> n"
  shows "load_all env n infos u \<noteq> Inl No_return \<and>
    (\<forall>v. load_all env n infos u = Inr v \<longrightarrow>
       (\<forall>e \<in> set (all_loadables env infos). is_loaded v e) \<and> settled v)"
proof -
  let ?A = "set (all_loadables env infos)"
  let ?K = "category_ids u ?A"
  have "setting env ?K ?A" using assms(1,3,4) by (auto simp: setting_def category_ids_def)
  from settled_accounted [OF this assms(7,8) _ refl]
  have start: "accounted env ?K {d. has_dependency u d} ?A {} {} {} ([], u)" by simp
  have "n_waiting u = 0" using assms(7) by (simp add: settled_def n_waiting_def n_entries_def)
  then have "u_ensures (load_all env n infos u) (\<lambda>v. accounted env ?K {d. has_dependency u d} ?A {} {} ({} \<union> ?A) ([], v))"
    using assms(10) by (intro load_all_accounted [OF assms(2,5,6) subset_refl start]) simp
  then have "u_ensures (load_all env n infos u) (\<lambda>v. (\<forall>e \<in> ?A. is_loaded v e) \<and> settled v)"
    by (rule u_ensures_mono) (rule accounted_closed [OF _ assms(9)], simp)
  then show ?thesis by (simp add: u_ensures_def)
qed

end
