(* ===== verification/Load_Example.thy ===== *)
theory Load_Example
  imports Load_Order Load_Complete
begin

text \<open>
  A load that the theorems about the loader are applied to: two object files, whose classes, mixins
  and categories have to wait for each other.
\<close>

section \<open>The universe and the object files\<close>

definition example_universe_env :: "nat universe_env" where
  "example_universe_env = \<lparr>
     ue_fnv1a_32 = (\<lambda>s _. if s = ''load'' then 0xE60759E9 else of_char (hd s)), ue_align = (\<lambda>n a. n), ue_known_name = (\<lambda>_. None),
     ue_alias = of_nat, ue_sort_ids = isort, ue_sort_methods = isort, ue_sort_ivars = isort,
     ue_sort_properties = isort, ue_sort_protocols = isort, ue_sort_strings = isort,
     ue_search = \<lparr> env_setup = (\<lambda>c w. w), env_method_is_missing = (\<lambda>w c m. (True, w)),
       env_thread_registered = (\<lambda>c. True), env_deinitializing = False, env_classdefaults_forwardmethod = None,
       env_lookup_super = (\<lambda>_. None) \<rparr>, ue_search_rounds = 1, ue_dependencies = (\<lambda>_ _. Some []), ue_call_load = (\<lambda>_ _ u. u),
     ue_version = 0x00E00000, ue_should_load_loadinfo = None, ue_fastclass_index = (\<lambda>_. - 1),
     ue_ignore_ivarhash_mismatch = False, ue_max_optlevel = 7, ue_min_optlevel = 0, ue_no_tagged_pointer = False,
     ue_no_fast_call = True, ue_skip_consistency_checks = False, ue_warn_method_type = 0, ue_warn_method_bits = False,
     ue_warn_crash = False, ue_warn_hang = False, ue_inheritance = 0, ue_headerextrasize = 0,
     ue_sizeof_objectheader = 16, ue_sizeof_class = 400, ue_foundation_versionassert = None,
     ue_user_versionassert = None, ue_utf8staticstrings = True, ue_build_tao = False, ue_build_fcs = False,
     ue_build_no_fcs = False \<rparr>"

definition empty_class :: search_class where
  "empty_class = \<lparr> sc_classid = 0, sc_superclass = None, sc_infraclass = None, sc_inheritance = 0, sc_state = 0,
     sc_methodlists = [], sc_classpair = 0, sc_forwardmethod = None \<rparr>"

definition empty_universe :: "nat universe" where
  "empty_universe = \<lparr>
     u_world = \<lparr> w_class = (\<lambda>_. empty_class), w_pair = (\<lambda>_. \<lparr> pair_infraclass = 0, pair_metaclass = 0, pair_mixins = [] \<rparr>),
                 w_list = (\<lambda>_. \<lparr> ml_loadcategory = None, ml_methods = [] \<rparr>) \<rparr>,
     u_class = (\<lambda>_. \<lparr> class_name = [], class_isa = 0, class_superclassid = 0, class_allocationsize = 0,
                      class_headerextrasize = 0, class_ivarhash = 0, class_ivarlists = [], class_propertylists = [] \<rparr>),
     u_pair = (\<lambda>_. \<lparr> pair_protocolids = [], pair_categoryids = [], pair_loadclass = None, pair_classindex = 0 \<rparr>),
     u_n_pairs = 0, u_n_lists = 1, u_classindex = 0, u_classtable = [], u_fastclasstable = (\<lambda>_. None),
     u_descriptortable = [], u_varyingtypetable = [], u_protocoltable = [], u_categorytable = [], u_supertable = [],
     u_propertyidtable = [], u_hashnames = [], u_staticinstances = [], u_static_isa = Class_slot,
     u_staticinstanceclass = (\<lambda>_. None), u_cachecount = 0, u_loadbits = 0, u_classestoload = [],
     u_categoriestoload = [], u_invalidations = [], u_load_calls = [] \<rparr>"

definition example_id :: "string \<Rightarrow> uint32" where
  "example_id s = fst (mulle_objc_uniqueid_from_string (ue_fnv1a_32 example_universe_env) (Some s))"

definition load_method :: "nat \<Rightarrow> nat search_methodlist" where
  "load_method imp = \<lparr> ml_loadcategory = None, ml_methods = [\<lparr> method_descriptor = \<lparr> desc_methodid = MULLE_OBJC_LOAD_METHODID,
     desc_signature = ''v'', desc_name = ''load'', desc_bits = 0 \<rparr>, method_implementation = imp \<rparr>] \<rparr>"

definition loaded_base :: "string \<Rightarrow> nat \<Rightarrow> string list \<Rightarrow> nat mulle_objc_loadclassbase" where
  "loaded_base name imp protocols = \<lparr> lcb_classid = example_id name, lcb_classname = Some name,
     lcb_classmethods = Some (load_method imp), lcb_instancemethods = None, lcb_classproperties = None,
     lcb_properties = None,
     lcb_protocols = Some (map (\<lambda>p. \<lparr> protocol_protocolid = example_id p, protocol_name = p \<rparr>) protocols),
     lcb_origin = None \<rparr>"

definition loaded_class :: "string \<Rightarrow> string \<Rightarrow> nat \<Rightarrow> string list \<Rightarrow> nat mulle_objc_loadclass" where
  "loaded_class name super imp mixins = \<lparr> lc_base = loaded_base name imp mixins, lc_classivarhash = 0,
     lc_superclassid = (if super = [] then 0 else example_id super), lc_superclassname = super, lc_superclassivarhash = 0,
     lc_fastclassindex = - 1, lc_instancesize = 0, lc_classinstancesize = 0, lc_instancevariables = None,
     lc_classvariables = None, lc_mixinids = Some (map example_id mixins) \<rparr>"

definition loaded_category :: "string \<Rightarrow> string \<Rightarrow> nat \<Rightarrow> nat mulle_objc_loadcategory" where
  "loaded_category name cls imp = \<lparr> lcat_categoryid = example_id name, lcat_categoryname = Some name,
     lcat_classid = example_id cls, lcat_classname = Some cls, lcat_classivarhash = 0,
     lcat_classmethods = Some (load_method imp), lcat_instancemethods = None, lcat_classproperties = None,
     lcat_properties = None, lcat_protocols = None, lcat_mixinids = None, lcat_origin = None \<rparr>"

text \<open>
  The class \<open>B\<close> comes before its superclass \<open>A\<close> and its mixin \<open>M\<close>, and a category of \<open>B\<close> is in an
  object file of its own that comes first.
\<close>

definition example_loadinfo :: "nat mulle_objc_loadclass list \<Rightarrow> nat mulle_objc_loadmixin list \<Rightarrow>
    nat mulle_objc_loadcategory list \<Rightarrow> nat mulle_objc_loadinfo" where
  "example_loadinfo classes mixins categories = \<lparr> li_version = \<lparr> version_load = 21, version_runtime = 0x00E00000,
       version_foundation = 0, version_user = 0, version_bits = 0 \<rparr>,
     li_loaduniverse = None, li_loadclasslist = Some classes, li_loadmixinlist = Some mixins,
     li_loadcategorylist = Some categories,
     li_loadsuperlist = None, li_loadstringlist = None, li_loadhashedstringlist = None, li_origin = None \<rparr>"

definition example_categoryfile :: "nat mulle_objc_loadinfo" where
  "example_categoryfile = example_loadinfo [] [] [loaded_category ''C'' ''B'' 4]"

definition example_classfile :: "nat mulle_objc_loadinfo" where
  "example_classfile = example_loadinfo [loaded_class ''B'' ''A'' 1 [''M''], loaded_class ''A'' [] 2 []]
     [\<lparr> lm_base = loaded_base ''M'' 3 [] \<rparr>] []"

text \<open>The definitions that running the loader on them unfolds.\<close>

lemmas run_loader = c_defs Let_def mask_eq_exp_minus_1 bsearch_loop.simps bsearch_loop_pre.simps
  mulle_objc_methodlist_find_def mulle_objc_methodlist_linear_impsearch_def mulle_objc_ivarlist_find_def
  mulle_objc_propertylist_find_def mulle_objc_propertylist_find_for_methodid_def mulle_objc_protocollist_find_def
  mulle_objc_methodlist_walk_def mulle_objc_ivarlist_walk_def mulle_objc_propertylist_walk_def
  mulle_objc_protocollist_walk_def bsearch_last_def mulle_objc_method_bsearch_def mulle_objc_property_bsearch_def
  bsearch_pre_def mulle_objc_ivar_bsearch_def mulle_objc_protocol_bsearch_def mulle_objc_uniqueidarray_search_def
  mulle_objc_methodlist_search_def mulle_objc_ivarlist_search_smart_def mulle_objc_propertylist_search_smart_def
  mulle_objc_protocollist_search_smart_def mulle_objc_method_compare_r_def mulle_objc_ivar_compare_r_def
  mulle_objc_property_compare_def mulle_objc_protocol_compare_def mulle_objc_methodlist_sort_def
  mulle_objc_ivarlist_sort_def mulle_objc_propertylist_sort_def mulle_objc_protocollist_sort_def
  mulle_objc_uniqueidarray_by_adding_ids_def mulle_objc_uniqueidarray_find_def bsearch_result_def comparator_def
  qsort_contract_def c_bind_def run_bind_def c_assert_def c_int_add_def c_half_def c_read_def NUL_def c_peek_def
  c_string_def c_strchr_def MULLE_OBJC_NO_UNIQUEID_def MULLE_OBJC_INVALID_UNIQUEID_def mulle_objc_uniqueid_is_sane_def
  uniqueid_rotate_def uniqueid_avoid_zero_def mulle_objc_uniqueid_from_string_def
  mulle_objc_universeid_from_string_def mulle_objc_uniqueid_is_sane_string_def mulle_objc_uniqueid_arraycount_def
  mulle_objc_uniqueid_compare_r_def method_check_unexpected_override_def method_variadic_def
  method_type_equality_mask_def method_searched_and_found_def method_user_attribute_0_def method_user_attribute_1_def
  method_user_attribute_4_def method_user_mask_def methodfamily_mask_def method_metaabi_rtype_mask_def
  method_metaabi_ptype_mask_def method_metaabi_mask_def mulle_objc_method_bits_get_metaabi_rtype_def
  mulle_objc_method_bits_get_metaabi_ptype_def mulle_objc_method_bits_get_metaabi_calltype_def
  mulle_objc_method_bits_set_metaabi_types_def method_bits_equality_mask_def mulle_objc_method_bits_type_equal_def
  mulle_objc_descriptor_is_variadic_def mulle_objc_descriptor_is_hidden_override_fatal_def
  mulle_objc_descriptor_get_methodfamily_def mulle_objc_descriptor_get_user_bits_def
  mulle_objc_descriptor_set_user_bits_def mulle_objc_descriptor_is_threadaffine_def
  mulle_objc_method_is_threadaffine_def mulle_objc_descriptor_is_sane_def mulle_objc_count_selector_arguments_def
  mulle_objc_property_is_clearable_def mulle_objc_property_signature_find_type_def mulle_objc_protocol_is_sane_def
  u_bind_def u_assert_def of_c_result_def of_c_run_def no_dependency_def mulle_objc_universe_maybe_hang_or_abort_def
  table_register_def mulle_objc_universe_lookup_category_def mulle_objc_universe_register_category_def
  mulle_objc_universe_register_category_nofail_def mulle_objc_universe_lookup_protocol_def
  mulle_objc_universe_register_protocol_def mulle_objc_universe_register_protocol_nofail_def
  mulle_objc_super_is_sane_def mulle_objc_universe_lookup_super_def mulle_objc_universe_register_super_def
  mulle_objc_universe_register_super_nofail_def mulle_objc_universe_lookup_descriptor_def
  descriptor_signature_comparison_def descriptor_may_vary_def mulle_objc_universe_register_descriptor_nonnull_def
  mulle_objc_universe_register_descriptor_nofail_def mulle_objc_universe_register_propertyid_for_methodid_def
  mulle_objc_universe_register_propertyid_for_methodid_nofail_def MULLE_OBJC_S_FASTCLASSES_def
  mulle_objc_universe_set_fastclass_def mulle_objc_universe_remove_fastclass_at_index_def
  mulle_objc_universe_lookup_infraclass_nodelegate_def MULLE_OBJC_STATICINSTANCE_CLASS_SLOTS_def
  mulle_objc_universe_add_staticinstance_def patch_staticinstance_def
  mulle_objc_universe_didchange_staticinstanceclass_def mulle_objc_universe_set_staticinstanceclasses_def
  mulle_objc_loadhashedstring_is_sane_def mulle_objc_loadhashedstring_compare_r_def
  mulle_objc_loadhashedstring_sort_def mulle_objc_loadhashedstring_bsearch_def
  mulle_objc_loadhashedstringlist_find_def mulle_objc_loadhashedstringlist_search_def
  mulle_objc_universe_add_loadhashedstringlist_def mulle_objc_universe_search_hashstring_def
  mulle_objc_universe_describe_uniqueid_def mulle_objc_universe_describe_methodid_def
  mulle_objc_universe_describe_protocolid_def mulle_objc_universe_describe_categoryid_def
  mulle_objc_universe_describe_superid_def CLASS_STATE_CACHE_READY_def CLASS_STATE_IS_NOT_THREAD_AFFINE_def
  CLASS_STATE_HAS_CLEARABLE_PROPERTY_def CLASS_STATE_LOAD_SCHEDULED_def update_search_class_def update_class_def
  update_pair_def mulle_objc_class_get_state_bit_def mulle_objc_class_change_state_bit_def
  mulle_objc_class_set_state_bit_def mulle_objc_class_clear_state_bit_def mulle_objc_class_init_def
  mulle_objc_metaclass_plusinit_def infra_of_def meta_of_def mulle_objc_universe_new_classpair_def
  mulle_objc_class_is_sane_base_def mulle_objc_class_is_sane_def mulle_objc_infraclass_is_sane_def
  mulle_objc_metaclass_is_sane_def mulle_objc_universe_register_infraclass_for_classid_def
  mulle_objc_universe_register_infraclass_def mulle_objc_universe_register_infraclass_nofail_def
  mulle_objc_universe_remove_infraclass_def method_infra_alias_on_load_def method_meta_alias_on_load_def
  method_alias_bits_def alias_search_class_def alias_search_depth_def set_list_implementation_def resolve_alias_def
  mulle_objc_class_add_methodlist_nocache_def walked_classes_def mulle_objc_class_didadd_methodlist_def
  mulle_objc_class_add_methodlist_def mulle_objc_class_add_methodlist_nofail_def
  mulle_objc_infraclass_add_ivarlist_def mulle_objc_metaclass_add_ivarlist_def property_dynamic_def
  methodfamily_getter_def methodfamily_setter_def methodfamily_adder_def methodfamily_remover_def c_capitalized_def
  mulle_objc_universe_set_setter_name_signature_def accessor_descriptor_def getter_descriptor_def
  register_setter_like_def mulle_objc_universe_register_descriptors_for_property_def register_dynamic_property_def
  register_accessorid_def register_property_def mulle_objc_infraclass_add_propertylist_def
  mulle_objc_infraclass_add_propertylist_nofail_def mulle_objc_metaclass_add_propertylist_def
  mulle_objc_metaclass_add_propertylist_nofail_def mulle_objc_classpair_has_categoryid_def
  mulle_objc_classpair_has_protocolid_def mulle_objc_classpair_add_categoryids_def
  mulle_objc_classpair_add_protocolids_def mulle_objc_classpair_add_categoryid_def
  mulle_objc_classpair_add_categoryid_nofail_def mulle_objc_classpair_has_mixin_def mulle_objc_classpair_add_mixin_def
  add_mixinid_def terminated_ids_def mulle_objc_classpair_add_mixinids_nofail_def
  mulle_objc_classpair_add_protocollist_nofail_def mulle_objc_callqueue_init_def mulle_objc_callqueue_add_def
  mulle_objc_methodlist_add_load_to_callqueue_def mulle_objc_methodlist_add_load_to_callqueue_nofail_def
  mulle_objc_classid_to_waitqueue_hash_def map_f_def mulle_objc_map_append_info_def
  mulle_objc_loadclass_delayedadd_def mulle_objc_loadcategory_delayedadd_def MULLE_OBJC_DEPENDENCIES_METHODID_def
  mulle_objc_methodlist_bsearch_dependencies_imp_def missing_dependency_def fulfill_user_dependencies_def
  mulle_objc_loadclass_fulfill_user_dependencies_def mulle_objc_loadcategory_fulfill_user_dependencies_def
  mulle_objc_loadclass_fulfill_dependencies_def mulle_objc_loadcategory_fulfill_dependencies_def no_owner_def
  mulle_objc_loadclassbase_is_sane_def mulle_objc_loadcategory_is_sane_def new_loaded_classpair_def
  add_loaded_classmethods_def set_loaded_fastclass_def register_loaded_infraclass_def install_loadclass_def
  install_loadmixin_def own_methodlist_def add_category_methods_def nonempty_list_def add_category_properties_def
  check_loadcategory_def install_loadcategory_def retrigger_def mulle_objc_loadclass_enqueue_def
  mulle_objc_loadcategory_enqueue_def sort_methodlist_def sort_mixinids_def mulle_objc_loadclass_sort_lists_def
  mulle_objc_loadmixin_sort_lists_def mulle_objc_loadcategory_sort_lists_def mulle_objc_loadmixin_enqueue_def
  mulle_objc_loadmixin_enqueue_nofail_def mulle_objc_loadclasslist_enqueue_nofail_def
  mulle_objc_loadmixinlist_enqueue_nofail_def mulle_objc_loadcategorylist_enqueue_nofail_def
  mulle_objc_loadstringlist_enqueue_nofail_def mulle_objc_loadsuperlist_enqueue_nofail_def
  mulle_objc_loadhashedstringlist_enqueue_nofail_def MULLE_OBJC_RUNTIME_LOAD_VERSION_def loadinfo_unsorted_def
  loadinfo_notaggedptrs_def loadinfo_nofastcalls_def loadinfo_threadaffineobjects_def loadinfo_utf8_strings_def
  HAVE_NO_TPS_LOADS_def HAVE_TPS_LOADS_def HAVE_NO_TAO_LOADS_def HAVE_TAO_LOADS_def mulle_objc_version_get_major_def
  mulle_objc_version_get_minor_def mulle_objc_universe_assert_runtimeversion_def mulle_objc_universe_set_loadbit_def
  assert_version_of_def loadinfo_optlevel_def assert_load_bits_def mulle_objc_universe_assert_loadinfo_def
  first_origin_def mulle_objc_loadinfo_get_origin_def call_load_def load_lists_def
  mulle_objc_loadinfo_enqueue_nofail_def n_entries_def n_waiting_def loadables_def asserts_return_def
  example_universe_env_def empty_class_def empty_universe_def example_id_def load_method_def loaded_base_def
  loaded_class_def loaded_category_def example_loadinfo_def example_categoryfile_def example_classfile_def

section \<open>Witnesses\<close>

lemma example_tame: "tame example_universe_env" "asserts_return example_universe_env"
    "dependencies_fixed example_universe_env" "qsort_contract (ue_sort_ids example_universe_env)"
    "ue_should_load_loadinfo example_universe_env = None" "ue_call_load example_universe_env imp c u = u"
  by (simp_all add: example_universe_env_def tame_def asserts_return_def dependencies_fixed_def isort_contract)

lemma empty_universe_settled: "settled empty_universe" "universe_ok empty_universe" "n_waiting empty_universe = 0"
    "u_n_pairs empty_universe = 0"
  by (simp_all add: settled_def universe_ok_def empty_universe_def empty_class_def n_waiting_def n_entries_def)

lemma example_loadables:
  "loadables example_universe_env example_categoryfile = [Load_category (loaded_category ''C'' ''B'' 4)]"
  "loadables example_universe_env example_classfile =
     [Load_class (loaded_class ''B'' ''A'' 1 [''M'']), Load_class (loaded_class ''A'' [] 2 []),
      Load_mixin \<lparr> lm_base = loaded_base ''M'' 3 [] \<rparr>]"
  by (simp_all add: loadables_def example_categoryfile_def example_classfile_def example_loadinfo_def)

theorem loadinfo_keeps_wellformed_witness:
  "\<exists>v. mulle_objc_loadinfo_enqueue_nofail example_universe_env (Suc (Suc (Suc (Suc 0)))) (Some example_classfile) empty_universe = Inr v \<and>
     u_load_calls v = [(1, 2), (3, 3), (5, 1)] \<and> universe_ok v"
proof -
  have "case mulle_objc_loadinfo_enqueue_nofail example_universe_env (Suc (Suc (Suc (Suc 0)))) (Some example_classfile) empty_universe of
      Inl e \<Rightarrow> False | Inr v \<Rightarrow> u_load_calls v = [(1, 2), (3, 3), (5, 1)]"
    by (simp add: run_loader)
  then obtain v where "mulle_objc_loadinfo_enqueue_nofail example_universe_env (Suc (Suc (Suc (Suc 0)))) (Some example_classfile) empty_universe = Inr v"
    "u_load_calls v = [(1, 2), (3, 3), (5, 1)]" by (auto split: sum.splits)
  with loadinfo_keeps_wellformed [of example_universe_env empty_universe example_classfile "(Suc (Suc (Suc (Suc 0))))"] show ?thesis
    by (simp add: example_tame empty_universe_settled example_loadables)
qed

theorem load_installs_everything_witness:
  "\<exists>v. load_all example_universe_env (Suc (Suc (Suc (Suc 0)))) [example_categoryfile, example_classfile] empty_universe = Inr v \<and>
     (\<forall>e \<in> set (all_loadables example_universe_env [example_categoryfile, example_classfile]). is_loaded v e) \<and> settled v"
proof -
  let ?A = "set (all_loadables example_universe_env [example_categoryfile, example_classfile])"
  let ?rank = "\<lambda>e. case e of Load_class info \<Rightarrow> length (lc_superclassname info) | Load_mixin mix \<Rightarrow> 0 | Load_category cat \<Rightarrow> 2"
  have "case load_all example_universe_env (Suc (Suc (Suc (Suc 0)))) [example_categoryfile, example_classfile] empty_universe of
      Inl e \<Rightarrow> False | Inr v \<Rightarrow> True"
    by (simp add: run_loader load_all_def)
  then obtain v where v: "load_all example_universe_env (Suc (Suc (Suc (Suc 0)))) [example_categoryfile, example_classfile] empty_universe = Inr v"
    by (auto split: sum.splits)
  have "closed_load example_universe_env empty_universe ?A ?rank"
    by (simp add: closed_load_def example_loadables) (simp add: run_loader user_dependencies_def)
  moreover have "category_ids empty_universe ?A = {example_id ''C''}"
    by (auto simp: category_ids_def empty_universe_settled example_loadables loaded_category_def)
  ultimately show ?thesis
    using load_installs_everything [of example_universe_env "[example_categoryfile, example_classfile]" empty_universe ?rank "(Suc (Suc (Suc (Suc 0))))"] v
    by (simp add: example_tame empty_universe_settled example_loadables)
qed

theorem superclass_loads_first_witness:
  "\<exists>loads v. load_lists example_universe_env (Suc (Suc (Suc (Suc 0)))) example_classfile empty_universe = Inr (loads, v) \<and>
     sc_superclass (u_search_class v (infra_of 2)) = Some (infra_of 0) \<and> entry_obj (loads ! 2) = meta_of 2 \<and>
     (\<exists>i < 2. entry_obj (loads ! i) = meta_of 0)"
proof -
  let ?entry = "\<lparr> entry_obj = meta_of 0, entry_uniqueid = MULLE_OBJC_LOAD_METHODID, entry_imp = 2 \<rparr>"
  let ?base = "loaded_base ''A'' 2 []"
  have "case load_lists example_universe_env (Suc (Suc (Suc (Suc 0)))) example_classfile empty_universe of
      Inl e \<Rightarrow> False
    | Inr (loads, v) \<Rightarrow> length loads = 3 \<and> entry_obj (loads ! 2) = meta_of 2 \<and>
        sc_superclass (u_search_class v (infra_of 2)) = Some (infra_of 0) \<and> pair_loadclass (u_pair v 0) = Some ?base"
    by (simp add: run_loader)
  then obtain loads v where run: "load_lists example_universe_env (Suc (Suc (Suc (Suc 0)))) example_classfile empty_universe = Inr (loads, v)"
    "length loads = 3" "entry_obj (loads ! 2) = meta_of 2"
    "sc_superclass (u_search_class v (infra_of 2)) = Some (infra_of 0)" "pair_loadclass (u_pair v 0) = Some ?base"
    by (auto split: sum.splits)
  have "?entry \<in> set (load_entries (lcb_classmethods ?base) (meta_of 0))"
    by (simp add: run_loader load_entries_def)
  moreover have "(infra_of 2, infra_of 0) \<in> {(c, super). sc_superclass (u_search_class v c) = Some super}\<^sup>+"
    using run(4) by auto
  ultimately have "\<exists>i < 2. loads ! i = ?entry"
    using superclass_loads_first [of example_universe_env empty_universe example_classfile "(Suc (Suc (Suc (Suc 0))))" loads v 2 2 0 ?base ?entry] run
    by (simp add: example_tame empty_universe_settled example_loadables)
  then obtain i where "i < 2" "loads ! i = ?entry" by blast
  then have "\<exists>i < 2. entry_obj (loads ! i) = meta_of 0" by (intro exI [of _ i]) simp
  with run show ?thesis by blast
qed

end
