(* ===== verification/Message_Example.thy ===== *)
theory Message_Example
  imports Message_Send_Correct Load_Example
begin

text \<open>A runtime with one class that is ready, to apply the properties of message sending to.\<close>

definition send_world :: "nat search_world" where
  "send_world = example_world\<lparr> w_class := (\<lambda>c. (Class_Search_Properties.example_class c)\<lparr> sc_forwardmethod := Some (0, 0),
     sc_state := CLASS_STATE_INITIALIZING OR CLASS_STATE_CACHE_READY \<rparr>) \<rparr>"

definition send_universe :: "mulle_objc_impcache_callback impcache_universe" where
  "send_universe = \<lparr> universe_empty_impcache = 0, universe_initial_impcache = 1,
     universe_callback_normal = mulle_objc_impcache_callback_normal, universe_cache_fillrate = 25,
     universe_method_call = 0 \<rparr>"

text \<open>Method 5 is called for super from class 11 with the super id 99; all objects are of class 1.\<close>

definition send_env :: "nat runtime_env" where
  "send_env = \<lparr> re_search = example_env\<lparr> env_lookup_super := (\<lambda>u. if u = 99 then Some (5, 11) else None) \<rparr>,
     re_depth = 3, re_rounds = 1, re_universe = send_universe, re_isa = (\<lambda>p. 1), re_pointerclass = (\<lambda>i. 1), re_thread = 0,
     re_will_init_cache = None, re_address = (\<lambda>c. 0), re_messages = (\<lambda>imp obj. []) \<rparr>"

definition send_impcache :: "mulle_objc_impcache_callback \<Rightarrow> (mulle_objc_impcache_callback, nat) mulle_objc_impcache" where
  "send_impcache callback = \<lparr> impcache_callback = callback, impcache_cache = impcache_cache empty_impcache \<rparr>"

definition send_state :: "nat runtime_state" where
  "send_state = \<lparr> rt_universe = empty_universe\<lparr> u_world := send_world \<rparr>, rt_pivot = (\<lambda>c. Some 2),
     rt_heap = \<lparr> heap_blocks = [send_impcache mulle_objc_impcache_callback_empty,
         send_impcache mulle_objc_impcache_callback_initial, send_impcache mulle_objc_impcache_callback_normal],
       heap_freed = [], heap_abafreed = [] \<rparr>,
     rt_thread_id = (\<lambda>p. None), rt_lock = (\<lambda>p. False), rt_propertylock = (\<lambda>c. False), rt_calls = [] \<rparr>"

lemma send_setting: "lookup_setting (re_search send_env) (re_depth send_env) (re_universe send_env) 1 send_world"
proof -
  have "searchable_world send_world 0"
    using example_searchable by (simp add: searchable_world_def send_world_def example_world_def)
  moreover have "ranked send_world example_rank"
    using example_ranked by (simp add: ranked_def send_world_def example_world_def)
  ultimately show ?thesis
    by (auto simp: lookup_setting_def intro!: exI [of _ example_rank])
      (simp_all add: example_rank_def send_env_def example_env_def send_world_def Class_Search_Properties.example_class_def
        send_universe_def example_world_def example_list_def mulle_objc_class_is_initializing_or_initialized_def c_defs)
qed

lemma send_coherent: "coherent_with (answer send_env send_world 1) send_universe (lookup_state_of 1 send_state)"
proof -
  let ?h = "rt_heap send_state"
  have ok: "impcache_pivot_ok send_universe 2 ?h 2"
    by (simp add: impcache_pivot_ok_def send_state_def send_impcache_def empty_impcache_def send_universe_def
      cache_inv_def cache_shape_def preshift_def all_less_4 cache_reachable_def cache_slot_def slot_dist_def
      cache_used_def cacheentry_zero_def)
  have none: "cache_lookup (impcache_at ?h 2) q = None" "cache_used (cache_entries (impcache_at ?h 2)) < 2 ^ 2" for q
    by (simp_all add: impcache_at_def send_state_def send_impcache_def empty_impcache_def cache_lookup_def
        cacheentry_zero_def cache_used_def)
  have "mulle_objc_cache_probe_functionpointer (impcache_at ?h 2) q = run_return None" if "mulle_objc_uniqueid_is_sane q" for q
    using probe_functionpointer_correct [of 2 "impcache_at ?h 2" q] ok that none
    by (simp add: impcache_pivot_ok_def impcache_at_def)
  with ok show ?thesis
    by (auto simp: coherent_with_def lookup_state_of_def send_state_def send_world_def c_defs)
qed

lemma send_ok: "senders_ok send_env send_world {1} send_state"
  using send_setting send_coherent
  by (auto simp: senders_ok_def receiver_ok_def send_env_def)
    (simp_all add: send_state_def send_impcache_def c_defs)

lemma send_resolve: "resolve 3 send_world (Suc 0) 5 = Some 2" "super_resolve 3 send_world (Suc 0) 5 11 = Some 0"
  by code_simp+

lemma send_env_sel:
  "mulle_objc_object_get_isa send_env p = 1" "re_depth send_env = 3"
  "env_lookup_super (re_search send_env) u = (if u = 99 then Some (5, 11) else None)"
  by (simp_all add: send_env_def mulle_objc_object_get_isa_def Let_def)

abbreviation setup_unused :: "nat class_setup" where "setup_unused \<equiv> \<lambda>cls st. Inl No_return"

theorem every_call_runs_the_method_witness:
  "list_all (\<lambda>call. \<exists>st'. call 16 5 send_state = Inr (Some 2, st')) (message_calls setup_unused send_env 1)"
proof -
  have "\<exists>st'. call 16 5 send_state = Inr (Some 2, st')" if "call \<in> set (message_calls setup_unused send_env (Suc 0))" for call
    using every_call_runs_the_method [OF send_ok _ _ _ that, of 16 5] by (auto simp: send_env_sel send_resolve c_defs)
  then show ?thesis by (simp add: list_all_iff)
qed

theorem every_supercall_runs_the_method_behind_witness:
  "list_all (\<lambda>call. \<exists>st'. call 16 5 99 send_state = Inr (Some 0, st')) (supercalls setup_unused send_env 1)"
proof -
  have "\<exists>st'. call 16 5 99 send_state = Inr (Some 0, st')" if "call \<in> set (supercalls setup_unused send_env (Suc 0))" for call
    using every_supercall_runs_the_method_behind [OF send_ok _ _ _ _ that, of 16 5 99 5 11]
    by (auto simp: send_env_sel send_resolve c_defs)
  then show ?thesis by (simp add: list_all_iff)
qed

theorem objects_call_reaches_every_object_witness:
  "\<exists>st'. mulle_objc_objects_call (\<lambda>imp p st. Inr st) send_env [16, 0, 32] 5 send_state =
     Inr ([(16, 2), (32, 2)], st')"
proof -
  obtain calls st' where run: "mulle_objc_objects_call (\<lambda>imp p st. Inr st) send_env [16, 0, 32] 5 send_state =
      Inr (calls, st')" "map (\<lambda>(p, imp). (p, Some imp)) calls = [(16, Some 2), (32, Some 2)]"
    using objects_call_reaches_every_object [OF send_ok, of "[16, 0, 32]" 5 "\<lambda>imp p st. Inr st"]
    by (auto simp: send_env_sel send_resolve c_defs)
  then have "calls = [(16, 2), (32, 2)]" by (auto simp: map_eq_Cons_conv)
  with run(1) show ?thesis by blast
qed

end
