(* ===== verification/Class_Initialize.thy ===== *)
theory Class_Initialize
  imports Message_Send
begin

text \<open>
  Class initialization (\<open>mulle-objc-class-initialize.c\<close>): the first message to a class sets up the
  class, its superclasses and mixins, runs \<open>+initializeSelf\<close> and \<open>+initialize\<close>, and gives the class
  its method cache; at the end of the universe the counterparts run (\<open>mulle-objc-infraclass.c\<close>).
  The code of the program takes part: an implementation is the messages it sends, and a message may
  set up more classes. One thread runs. Output of traces and the mask of standard
  implementations are left out.
\<close>

section \<open>State bits and caches\<close>

definition CLASS_STATE_ALWAYS_EMPTY_CACHE :: uint32 where [c_defs]: "CLASS_STATE_ALWAYS_EMPTY_CACHE = 0x0002"
definition CLASS_STATE_INITIALIZE_DONE :: uint32 where [c_defs]: "CLASS_STATE_INITIALIZE_DONE = 0x8000"
definition CLASS_STATE_FINALIZE_DONE :: uint32 where [c_defs]: "CLASS_STATE_FINALIZE_DONE = 0x2000"

definition MULLE_OBJC_INITIALIZE_METHODID :: uint32 where [c_defs]: "MULLE_OBJC_INITIALIZE_METHODID = 0xe92964bc"
definition MULLE_OBJC_DEINITIALIZE_METHODID :: uint32 where [c_defs]: "MULLE_OBJC_DEINITIALIZE_METHODID = 0x62098d89"
definition MULLE_OBJC_FINALIZE_METHODID :: uint32 where [c_defs]: "MULLE_OBJC_FINALIZE_METHODID = 0x9de99ffa"
definition MULLE_OBJC_WILLFINALIZE_METHODID :: uint32 where [c_defs]: "MULLE_OBJC_WILLFINALIZE_METHODID = 0x70bd9f78"

abbreviation state_bit :: "'imp runtime_state \<Rightarrow> nat \<Rightarrow> uint32 \<Rightarrow> bool" where
  "state_bit st cls b \<equiv> mulle_objc_class_get_state_bit (rt_universe st) cls b"

definition set_class_bit ::
    "nat \<Rightarrow> uint32 \<Rightarrow> 'imp runtime_state \<Rightarrow> (bool \<times> 'imp runtime_state) guarded" where
  "set_class_bit cls b st =
     u_bind (mulle_objc_class_change_state_bit cls b False (rt_universe st)) (\<lambda>(changed, u).
       Inr (changed, st\<lparr> rt_universe := u \<rparr>))"

abbreviation class_at :: "'imp runtime_state \<Rightarrow> nat \<Rightarrow> search_class" where
  "class_at st \<equiv> w_class (rt_world st)"

abbreviation pair_at :: "'imp runtime_state \<Rightarrow> nat \<Rightarrow> search_classpair" where
  "pair_at st \<equiv> w_pair (rt_world st)"

definition metaclass_of :: "'imp runtime_state \<Rightarrow> nat \<Rightarrow> nat" where
  "metaclass_of st infra = pair_metaclass (pair_at st (sc_classpair (class_at st infra)))"

text \<open>The enumerators of mixins leave out the class itself.\<close>

definition mixins_of :: "'imp runtime_state \<Rightarrow> nat \<Rightarrow> nat list" where
  "mixins_of st infra =
     (let pair = sc_classpair (class_at st infra)
      in filter (\<lambda>mixin. mixin \<noteq> pair_infraclass (pair_at st pair)) (pair_mixins (pair_at st pair)))"

text \<open>
  A compare-and-swap of the cache pivot whose success is asserted.
\<close>

definition cas_pivot :: "nat \<Rightarrow> nat \<Rightarrow> nat \<Rightarrow> 'imp runtime_state \<Rightarrow> 'imp runtime_state guarded" where
  "cas_pivot cls new expected st =
     u_assert (rt_pivot st cls = Some expected) (Inr (st\<lparr> rt_pivot := (rt_pivot st)(cls := Some new) \<rparr>))"

definition mulle_objc_class_setup_initialize_cache ::
    "'imp runtime_env \<Rightarrow> nat \<Rightarrow> 'imp runtime_state \<Rightarrow> 'imp runtime_state guarded" where
  "mulle_objc_class_setup_initialize_cache env cls st =
     cas_pivot cls (universe_empty_impcache (re_universe env)) (universe_initial_impcache (re_universe env)) st"

definition MULLE_OBJC_DEFAULT_CACHE_SIZE :: uint32 where [c_defs]: "MULLE_OBJC_DEFAULT_CACHE_SIZE = 8"

definition mulle_objc_class_setup_initial_cache ::
    "'imp runtime_env \<Rightarrow> nat \<Rightarrow> mulle_objc_impcache_callback option \<Rightarrow> 'imp runtime_state \<Rightarrow>
     'imp runtime_state guarded" where
  "mulle_objc_class_setup_initial_cache env cls callback st =
     (if state_bit st cls CLASS_STATE_ALWAYS_EMPTY_CACHE then Inr st
      else
        let n_entries = (case re_will_init_cache env of
                           None \<Rightarrow> MULLE_OBJC_DEFAULT_CACHE_SIZE
                         | Some will_init_cache \<Rightarrow> will_init_cache cls MULLE_OBJC_DEFAULT_CACHE_SIZE);
            icache = mulle_objc_impcache_new (universe_callback_normal (re_universe env)) n_entries callback;
            (h, a) = heap_alloc (rt_heap st) icache
        in cas_pivot cls a (universe_empty_impcache (re_universe env))
             (st\<lparr> rt_heap := h,
                 rt_universe := (rt_universe st)\<lparr> u_cachecount := Suc (u_cachecount (rt_universe st)) \<rparr> \<rparr>))"

definition mulle_objc_class_setup_initial_cache_if_needed ::
    "'imp runtime_env \<Rightarrow> nat \<Rightarrow> mulle_objc_impcache_callback option \<Rightarrow> 'imp runtime_state \<Rightarrow>
     (bool \<times> 'imp runtime_state) guarded" where
  "mulle_objc_class_setup_initial_cache_if_needed env cls callback st =
     (if state_bit st cls CLASS_STATE_CACHE_READY then Inr (False, st)
      else u_bind (mulle_objc_class_setup_initial_cache env cls callback st) (\<lambda>st1.
           u_bind (set_class_bit cls CLASS_STATE_CACHE_READY st1) (\<lambda>(_, st2). Inr (True, st2))))"

section \<open>Calling \<open>+initialize\<close> and its relatives\<close>

text \<open>\<open>invoke\<close> runs an implementation on an object.\<close>

type_synonym 'imp invoker = "'imp \<Rightarrow> uintptr \<Rightarrow> 'imp runtime_state \<Rightarrow> 'imp runtime_state guarded"

definition search_in_class ::
    "'imp runtime_env \<Rightarrow> nat \<Rightarrow> ('imp, unit) mulle_objc_searcharguments \<Rightarrow> uint32 \<Rightarrow> 'imp runtime_state \<Rightarrow>
     (method_ptr option \<times> 'imp runtime_state) guarded" where
  "search_in_class env cls search inheritance st =
     u_bind (of_c_run (mulle_objc_class_search_method (re_search env) (re_depth env) (re_rounds env) (Some cls)
         (Some search) inheritance (search_start (rt_world st))))
       (\<lambda>(method, s). Inr (method, set_world (st_world s) st))"

definition invoke_class_method ::
    "'imp invoker \<Rightarrow> 'imp runtime_env \<Rightarrow> uint32 \<Rightarrow> nat \<Rightarrow> nat \<Rightarrow> method_ptr \<Rightarrow> 'imp runtime_state \<Rightarrow>
     'imp runtime_state guarded" where
  "invoke_class_method invoke env methodid meta infra method st =
     (let imp = method_implementation (world_method (rt_world st) method)
      in invoke imp (re_address env infra) (st\<lparr> rt_calls := rt_calls st @ [(methodid, meta, infra, imp)] \<rparr>))"

definition mulle_objc_metaclass_call_initialize_deinitialize ::
    "'imp invoker \<Rightarrow> 'imp runtime_env \<Rightarrow> nat \<Rightarrow> uint32 \<Rightarrow> uint32 \<Rightarrow> nat \<Rightarrow> 'imp runtime_state \<Rightarrow>
     'imp runtime_state guarded" where
  "mulle_objc_metaclass_call_initialize_deinitialize invoke env meta inheritance methodid infra st =
     u_bind (search_in_class env meta (mulle_objc_searcharguments_make_default methodid) inheritance st)
       (\<lambda>(method, st1).
          case method of
            None \<Rightarrow> Inr st1
          | Some m \<Rightarrow> invoke_class_method invoke env methodid meta infra m st1)"

text \<open>The first argument of the recursion over the superclasses bounds its depth.\<close>

fun mulle_objc_infraclass_call_mixins_initialize ::
    "'imp invoker \<Rightarrow> 'imp runtime_env \<Rightarrow> nat \<Rightarrow> nat \<Rightarrow> nat \<Rightarrow> 'imp runtime_state \<Rightarrow> 'imp runtime_state guarded" where
  "mulle_objc_infraclass_call_mixins_initialize invoke env 0 owner infra st = Inl No_return"
| "mulle_objc_infraclass_call_mixins_initialize invoke env (Suc n) owner infra st =
     u_assert (\<not> state_bit st owner CLASS_STATE_IS_MIXIN)
       (u_bind (case sc_superclass (class_at st owner) of
                  None \<Rightarrow> Inr st
                | Some superclass \<Rightarrow> mulle_objc_infraclass_call_mixins_initialize invoke env n superclass infra st)
         (\<lambda>st1. u_each (\<lambda>mixin s.
            mulle_objc_metaclass_call_initialize_deinitialize invoke env (metaclass_of s mixin)
              (NOT DONT_INHERIT_CLASS) MULLE_OBJC_INITIALIZE_METHODID infra s) (mixins_of st1 owner) st1))"

definition mulle_objc_infraclass_call_initialize ::
    "'imp invoker \<Rightarrow> 'imp runtime_env \<Rightarrow> nat \<Rightarrow> 'imp runtime_state \<Rightarrow> 'imp runtime_state guarded" where
  "mulle_objc_infraclass_call_initialize invoke env infra st =
     (if state_bit st infra CLASS_STATE_IS_MIXIN then Inr st
      else
        let meta = metaclass_of st infra;
            inheritance = (((sc_inheritance (class_at st meta) OR DONT_INHERIT_PROTOCOLS)
              OR DONT_INHERIT_PROTOCOL_CATEGORIES) OR DONT_INHERIT_PROTOCOL_META) OR DONT_INHERIT_SUPERCLASS_INHERITANCE
        in u_bind (mulle_objc_metaclass_call_initialize_deinitialize invoke env meta inheritance
                     MULLE_OBJC_INITIALIZE_METHODID infra st)
             (mulle_objc_infraclass_call_mixins_initialize invoke env (re_depth env) infra infra))"

fun mulle_objc_infraclass_call_mixins_deinitialize ::
    "'imp invoker \<Rightarrow> 'imp runtime_env \<Rightarrow> nat \<Rightarrow> nat \<Rightarrow> nat \<Rightarrow> 'imp runtime_state \<Rightarrow> 'imp runtime_state guarded" where
  "mulle_objc_infraclass_call_mixins_deinitialize invoke env 0 owner infra st = Inl No_return"
| "mulle_objc_infraclass_call_mixins_deinitialize invoke env (Suc n) owner infra st =
     u_assert (\<not> state_bit st owner CLASS_STATE_IS_MIXIN)
       (u_bind (u_each (\<lambda>mixin s.
            mulle_objc_metaclass_call_initialize_deinitialize invoke env (metaclass_of s mixin)
              (NOT DONT_INHERIT_CLASS) MULLE_OBJC_DEINITIALIZE_METHODID infra s) (rev (mixins_of st owner)) st)
         (\<lambda>st1. case sc_superclass (class_at st1 owner) of
                  None \<Rightarrow> Inr st1
                | Some superclass \<Rightarrow> mulle_objc_infraclass_call_mixins_deinitialize invoke env n superclass infra st1))"

definition mulle_objc_infraclass_call_deinitialize ::
    "'imp invoker \<Rightarrow> 'imp runtime_env \<Rightarrow> nat \<Rightarrow> 'imp runtime_state \<Rightarrow> 'imp runtime_state guarded" where
  "mulle_objc_infraclass_call_deinitialize invoke env infra st =
     (if \<not> state_bit st infra CLASS_STATE_INITIALIZE_DONE then Inr st
      else if state_bit st infra CLASS_STATE_IS_MIXIN then Inr st
      else u_bind (mulle_objc_infraclass_call_mixins_deinitialize invoke env (re_depth env) infra infra st) (\<lambda>st1.
        let meta = metaclass_of st1 infra;
            inheritance = (sc_inheritance (class_at st1 meta) OR DONT_INHERIT_PROTOCOLS)
              OR DONT_INHERIT_PROTOCOL_CATEGORIES
        in mulle_objc_metaclass_call_initialize_deinitialize invoke env meta inheritance
             MULLE_OBJC_DEINITIALIZE_METHODID infra st1))"

text \<open>
  The loop over all implementations of a class and its categories: the next search asks for the
  method previous to the one just called. The number bounds the rounds; \<open>prepare\<close> is what is done in
  front of the first call.
\<close>

fun call_all_methods ::
    "'imp invoker \<Rightarrow> 'imp runtime_env \<Rightarrow> nat \<Rightarrow> uint32 \<Rightarrow> nat \<Rightarrow> nat \<Rightarrow>
     ('imp runtime_state \<Rightarrow> 'imp runtime_state) \<Rightarrow> ('imp, unit) mulle_objc_searcharguments \<Rightarrow>
     'imp runtime_state \<Rightarrow> 'imp runtime_state guarded" where
  "call_all_methods invoke env 0 methodid meta infra prepare search st = Inl No_return"
| "call_all_methods invoke env (Suc n) methodid meta infra prepare search st =
     u_bind (search_in_class env meta search (DONT_INHERIT_SUPERCLASS OR DONT_INHERIT_PROTOCOLS) st) (\<lambda>(method, st1).
       case method of
         None \<Rightarrow> Inr st1
       | Some m \<Rightarrow>
           u_bind (invoke_class_method invoke env methodid meta infra m (prepare st1)) (\<lambda>st2.
             call_all_methods invoke env n methodid meta infra (\<lambda>s. s)
               (mulle_objc_searcharguments_make_previous (rt_world st2) m) st2))"

text \<open>The lock of the class properties is dormant until it is initialized.\<close>

definition init_propertylock :: "nat \<Rightarrow> 'imp runtime_state \<Rightarrow> 'imp runtime_state" where
  "init_propertylock meta st = st\<lparr> rt_propertylock := (rt_propertylock st)(meta := True) \<rparr>"

definition mulle_objc_infraclass_call_initialize_self ::
    "'imp invoker \<Rightarrow> 'imp runtime_env \<Rightarrow> nat \<Rightarrow> nat \<Rightarrow> 'imp runtime_state \<Rightarrow> 'imp runtime_state guarded" where
  "mulle_objc_infraclass_call_initialize_self invoke env n infra st =
     (if state_bit st infra CLASS_STATE_IS_MIXIN then Inr st
      else
        let meta = metaclass_of st infra
        in call_all_methods invoke env n MULLE_OBJC_INITIALIZESELF_METHODID meta infra (init_propertylock meta)
             (mulle_objc_searcharguments_make_default MULLE_OBJC_INITIALIZESELF_METHODID) st)"

text \<open>
  After the loop the properties of the class that a setter clears are cleared (by messages, which
  \<open>send\<close> sends), and the lock is destroyed.
\<close>

definition property_setterclear :: uint32 where [c_defs]: "property_setterclear = 0x10000"

definition mulle_objc_infraclass_call_deinitialize_self ::
    "'imp invoker \<Rightarrow> (uintptr \<Rightarrow> uint32 \<Rightarrow> 'imp runtime_state \<Rightarrow> 'imp runtime_state guarded) \<Rightarrow> 'imp runtime_env \<Rightarrow>
     nat \<Rightarrow> nat \<Rightarrow> 'imp runtime_state \<Rightarrow> 'imp runtime_state guarded" where
  "mulle_objc_infraclass_call_deinitialize_self invoke send env n infra st =
     (if state_bit st infra CLASS_STATE_IS_MIXIN then Inr st
      else
        let meta = metaclass_of st infra
        in u_bind (call_all_methods invoke env n MULLE_OBJC_DEINITIALIZESELF_METHODID meta infra (\<lambda>s. s)
                     (mulle_objc_searcharguments_make_default MULLE_OBJC_DEINITIALIZESELF_METHODID) st) (\<lambda>st1.
           u_bind (u_each (\<lambda>property s.
                if property_bits property AND property_setterclear \<noteq> 0
                then send (re_address env infra) (property_setter property) s else Inr s)
              (concat (class_propertylists (u_class (rt_universe st1) meta))) st1) (\<lambda>st2.
             Inr (st2\<lparr> rt_propertylock := (rt_propertylock st2)(meta := False) \<rparr>))))"

section \<open>Taking a class down\<close>

definition mulle_objc_infraclass_search_method_noinherit_noinitialize ::
    "'imp runtime_env \<Rightarrow> nat \<Rightarrow> uint32 \<Rightarrow> 'imp runtime_state \<Rightarrow> (method_ptr option \<times> 'imp runtime_state) guarded" where
  "mulle_objc_infraclass_search_method_noinherit_noinitialize env infra methodid st =
     (if \<not> state_bit st infra CLASS_STATE_INITIALIZE_DONE then Inr (None, st)
      else search_in_class env (metaclass_of st infra) (mulle_objc_searcharguments_make_default methodid)
             (NOT DONT_INHERIT_CLASS) st)"

definition mulle_objc_infraclass_call_willfinalize ::
    "'imp invoker \<Rightarrow> 'imp runtime_env \<Rightarrow> nat \<Rightarrow> 'imp runtime_state \<Rightarrow> 'imp runtime_state guarded" where
  "mulle_objc_infraclass_call_willfinalize invoke env infra st =
     u_bind (mulle_objc_infraclass_search_method_noinherit_noinitialize env infra MULLE_OBJC_WILLFINALIZE_METHODID st)
       (\<lambda>(method, st1).
          case method of
            None \<Rightarrow> Inr st1
          | Some m \<Rightarrow> invoke_class_method invoke env MULLE_OBJC_WILLFINALIZE_METHODID (metaclass_of st1 infra) infra m st1)"

definition mulle_objc_infraclass_call_finalize ::
    "'imp invoker \<Rightarrow> 'imp runtime_env \<Rightarrow> nat \<Rightarrow> 'imp runtime_state \<Rightarrow> 'imp runtime_state guarded" where
  "mulle_objc_infraclass_call_finalize invoke env infra st =
     u_bind (mulle_objc_infraclass_search_method_noinherit_noinitialize env infra MULLE_OBJC_FINALIZE_METHODID st)
       (\<lambda>(method, st1).
          case method of
            None \<Rightarrow> Inr st1
          | Some m \<Rightarrow>
              u_bind (invoke_class_method invoke env MULLE_OBJC_FINALIZE_METHODID (metaclass_of st1 infra) infra m st1)
                (\<lambda>st2. u_bind (set_class_bit infra CLASS_STATE_FINALIZE_DONE st2) (\<lambda>(_, st3). Inr st3)))"

definition mulle_objc_infraclass_call_unload ::
    "'imp invoker \<Rightarrow> 'imp runtime_env \<Rightarrow> nat \<Rightarrow> nat \<Rightarrow> 'imp runtime_state \<Rightarrow> 'imp runtime_state guarded" where
  "mulle_objc_infraclass_call_unload invoke env n infra st =
     call_all_methods invoke env n MULLE_OBJC_UNLOAD_METHODID (metaclass_of st infra) infra (\<lambda>s. s)
       (mulle_objc_searcharguments_make_default MULLE_OBJC_UNLOAD_METHODID) st"

section \<open>Class setup\<close>

text \<open>\<open>setup\<close> is \<open>_mulle_objc_class_setup\<close>, whose answer these do not use.\<close>

definition mulle_objc_infraclass_setup_if_needed ::
    "'imp class_setup \<Rightarrow> nat \<Rightarrow> 'imp runtime_state \<Rightarrow> 'imp runtime_state guarded" where
  "mulle_objc_infraclass_setup_if_needed setup infra st =
     (if \<not> state_bit st infra CLASS_STATE_INITIALIZE_DONE
      then u_bind (setup infra st) (\<lambda>(_, st1). Inr st1) else Inr st)"

definition mulle_objc_metaclass_setup_if_needed ::
    "'imp class_setup \<Rightarrow> nat \<Rightarrow> 'imp runtime_state \<Rightarrow> 'imp runtime_state guarded" where
  "mulle_objc_metaclass_setup_if_needed setup meta st =
     (case sc_infraclass (class_at st meta) of
        None \<Rightarrow> Inl (universe_failure.Fault Null_Dereference)
      | Some infra \<Rightarrow>
          if \<not> state_bit st infra CLASS_STATE_INITIALIZE_DONE
          then u_bind (setup meta st) (\<lambda>(_, st1). Inr st1) else Inr st)"

definition mulle_objc_infraclass_setup_superclasses ::
    "'imp class_setup \<Rightarrow> nat \<Rightarrow> 'imp runtime_state \<Rightarrow> 'imp runtime_state guarded" where
  "mulle_objc_infraclass_setup_superclasses setup infra st =
     u_bind (u_each (mulle_objc_infraclass_setup_if_needed setup) (mixins_of st infra) st) (\<lambda>st1.
       case sc_superclass (class_at st1 infra) of
         None \<Rightarrow> Inr st1
       | Some superclass \<Rightarrow> mulle_objc_infraclass_setup_if_needed setup superclass st1)"

definition mulle_objc_metaclass_setup_superclass ::
    "'imp class_setup \<Rightarrow> nat \<Rightarrow> 'imp runtime_state \<Rightarrow> 'imp runtime_state guarded" where
  "mulle_objc_metaclass_setup_superclass setup meta st =
     u_assert (mulle_objc_class_is_metaclass (class_at st meta))
       (case sc_superclass (class_at st meta) of
          None \<Rightarrow> Inr st
        | Some superclass \<Rightarrow>
            mulle_objc_infraclass_setup_if_needed setup
              (case sc_infraclass (class_at st superclass) of Some infra \<Rightarrow> infra | None \<Rightarrow> superclass) st)"

text \<open>What is done under the lock by the thread that is the first.\<close>

definition class_setup_first ::
    "'imp class_setup \<Rightarrow> 'imp invoker \<Rightarrow> 'imp runtime_env \<Rightarrow> nat \<Rightarrow> nat \<Rightarrow> 'imp runtime_state \<Rightarrow>
     'imp runtime_state guarded" where
  "class_setup_first setup invoke env n infra st =
     (let meta = metaclass_of st infra in
      u_bind (mulle_objc_metaclass_setup_superclass setup meta st) (\<lambda>st1.
      u_bind (mulle_objc_infraclass_setup_superclasses setup infra st1) (\<lambda>st2.
      u_bind (mulle_objc_class_setup_initialize_cache env meta st2) (\<lambda>st3.
      u_bind (mulle_objc_class_setup_initialize_cache env infra st3) (\<lambda>st4.
      u_bind (mulle_objc_infraclass_call_initialize_self invoke env n infra st4) (\<lambda>st5.
      u_bind (mulle_objc_infraclass_call_initialize invoke env infra st5) (\<lambda>st6.
      u_bind (mulle_objc_class_setup_initial_cache_if_needed env meta None st6) (\<lambda>(_, st7).
      u_bind (mulle_objc_class_setup_initial_cache_if_needed env infra None st7) (\<lambda>(_, st8).
      u_bind (set_class_bit infra CLASS_STATE_INITIALIZE_DONE st8) (\<lambda>(_, st9). Inr st9))))))))))"

text \<open>
  The mutex of a class pair is not recursive: a thread that locks it again waits for itself, for
  ever. The answer is whether to go slow.
\<close>

definition class_setup_body ::
    "'imp class_setup \<Rightarrow> 'imp invoker \<Rightarrow> 'imp runtime_env \<Rightarrow> nat \<Rightarrow> nat \<Rightarrow> 'imp runtime_state \<Rightarrow>
     (bool \<times> 'imp runtime_state) guarded" where
  "class_setup_body setup invoke env n cls st =
     u_assert (env_thread_registered (re_search env) cls)
       (let pair = sc_classpair (class_at st cls);
            infra = pair_infraclass (pair_at st pair)
        in if state_bit st infra CLASS_STATE_INITIALIZING \<and> rt_thread_id st pair = Some (re_thread env)
           then Inr (True, st)
           else if rt_lock st pair then Inl No_return
           else
             let st1 = st\<lparr> rt_lock := (rt_lock st)(pair := True),
                            rt_thread_id := (rt_thread_id st)(pair := Some (re_thread env)) \<rparr>
             in u_bind (set_class_bit infra CLASS_STATE_INITIALIZING st1) (\<lambda>(changed, st2).
                u_bind (if changed then class_setup_first setup invoke env n infra st2
                        else u_assert (state_bit st2 infra CLASS_STATE_INITIALIZE_DONE) (Inr st2)) (\<lambda>st3.
                  Inr (False, st3\<lparr> rt_lock := (rt_lock st3)(pair := False) \<rparr>))))"

text \<open>
  The runtime and the program together: \<open>mulle_objc_class_setup\<close> runs implementations, and
  \<open>run_implementation\<close> sends the messages of one, which sets up classes and runs the implementations
  that the messages end in. The number bounds the depth of it all.
\<close>

fun mulle_objc_class_setup ::
    "'imp runtime_env \<Rightarrow> nat \<Rightarrow> nat \<Rightarrow> 'imp runtime_state \<Rightarrow> (bool \<times> 'imp runtime_state) guarded"
  and run_implementation ::
    "'imp runtime_env \<Rightarrow> nat \<Rightarrow> 'imp \<Rightarrow> uintptr \<Rightarrow> 'imp runtime_state \<Rightarrow> 'imp runtime_state guarded" where
  "mulle_objc_class_setup env 0 cls st = Inl No_return"
| "mulle_objc_class_setup env (Suc n) cls st =
     class_setup_body (mulle_objc_class_setup env n) (run_implementation env n) env (Suc n) cls st"
| "run_implementation env 0 imp obj st = Inl No_return"
| "run_implementation env (Suc n) imp obj st =
     u_each (\<lambda>msg s.
       u_bind (case msg of
                 Message receiver methodid \<Rightarrow>
                   mulle_objc_object_call (mulle_objc_class_setup env n) env (Suc n) receiver methodid s
               | Super_message receiver methodid superid \<Rightarrow>
                   mulle_objc_object_call_super (mulle_objc_class_setup env n) env (Suc n) receiver methodid superid s)
         (\<lambda>(called, s1).
            case called of
              None \<Rightarrow> Inr s1
            | Some imp' \<Rightarrow>
                run_implementation env n imp' (case msg of Message receiver _ \<Rightarrow> receiver | Super_message receiver _ _ \<Rightarrow> receiver)
                  s1))
       (re_messages env imp obj) st"

end
