(* ===== verification/Class_Progress.thy ===== *)
theory Class_Progress
  imports Class_Initialize Guarded
begin

text \<open>
  How far the states of a run of the runtime can be apart: classes keep their place and their state
  bits, and class initialization only goes on. Searches, refreshed caches and messages are such steps
  when class setup and the implementations of the program are.
\<close>

section \<open>Frames\<close>

text \<open>
  Between two states of a run classes keep their place in the hierarchy, and no state bit is ever
  cleared.
\<close>

definition grown_class :: "search_class \<Rightarrow> search_class \<Rightarrow> bool" where
  "grown_class c c' \<longleftrightarrow> sc_classid c' = sc_classid c \<and> sc_superclass c' = sc_superclass c \<and>
     sc_infraclass c' = sc_infraclass c \<and> sc_inheritance c' = sc_inheritance c \<and>
     sc_methodlists c' = sc_methodlists c \<and> sc_classpair c' = sc_classpair c \<and>
     sc_state c OR sc_state c' = sc_state c'"

definition grown :: "'imp search_world \<Rightarrow> 'imp search_world \<Rightarrow> bool" where
  "grown w w' \<longleftrightarrow> w_pair w' = w_pair w \<and> (\<forall>c. grown_class (w_class w c) (w_class w' c))"

lemma grown_class_refl [simp]: "grown_class c c"
  by (simp add: grown_class_def)

lemma grown_class_trans: "grown_class c c' \<Longrightarrow> grown_class c' c'' \<Longrightarrow> grown_class c c''"
  by (simp add: grown_class_def) (metis or.assoc)

lemma grown_refl [simp]: "grown w w"
  by (simp add: grown_def)

lemma grown_trans: "grown w w' \<Longrightarrow> grown w' w'' \<Longrightarrow> grown w w''"
  by (auto simp: grown_def intro: grown_class_trans)

lemma grown_shape: "w_class w' = w_class w \<Longrightarrow> w_pair w' = w_pair w \<Longrightarrow> grown w w'"
  by (simp add: grown_def)

lemma grown_bit:
  assumes "grown w w'" and "sc_state (w_class w c) AND b \<noteq> 0"
  shows "sc_state (w_class w' c) AND b \<noteq> 0"
proof -
  have "sc_state (w_class w' c) = sc_state (w_class w c) OR sc_state (w_class w' c)"
    using assms(1) by (simp add: grown_def grown_class_def)
  then have "sc_state (w_class w' c) AND b = (sc_state (w_class w c) AND b) OR (sc_state (w_class w' c) AND b)"
    by (metis bit.conj_disj_distrib2)
  then show ?thesis using assms(2) by (metis or_eq_0_iff)
qed

text \<open>A search changes less: at most the forward method of a class.\<close>

definition calm :: "'imp search_world \<Rightarrow> 'imp search_world \<Rightarrow> bool" where
  "calm w w' \<longleftrightarrow> grown w w' \<and> (\<forall>c. sc_state (w_class w' c) = sc_state (w_class w c))"

lemma calm_refl [simp]: "calm w w"
  by (simp add: calm_def)

lemma calm_shape: "w_class w' = w_class w \<Longrightarrow> w_pair w' = w_pair w \<Longrightarrow> calm w w'"
  by (simp add: calm_def grown_shape)

lemma calm_trans: "calm w w' \<Longrightarrow> calm w' w'' \<Longrightarrow> calm w w''"
  by (auto simp: calm_def intro: grown_trans)

lemma calm_forwardmethod: "calm v w \<Longrightarrow> calm v (mulle_objc_class_set_forwardmethod cls m w)"
  by (erule calm_trans) (simp add: calm_def grown_def grown_class_def mulle_objc_class_set_forwardmethod_def)

text \<open>The surroundings of the search do nothing on their own.\<close>

definition plain_env :: "'imp runtime_env \<Rightarrow> bool" where
  "plain_env env \<longleftrightarrow> (\<forall>w c m. env_method_is_missing (re_search env) w c m = (True, w)) \<and>
     (\<forall>c w. env_setup (re_search env) c w = w)"

lemma search_method_shape:
  assumes "plain_env env"
  shows "holds (mulle_objc_class_search_method (re_search env) depth rounds cls search inheritance s)
    (\<lambda>(m, t). w_class (st_world t) = w_class (st_world s) \<and> w_pair (st_world t) = w_pair (st_world s))"
    (is "holds ?run ?Q")
proof -
  have declines: "env_method_is_missing (re_search env) w c m = (True, w)" for w c m
    using assms by (simp add: plain_env_def)
  have no_setup: "search_setup (re_search env) c sa w = w" for c sa w
    using assms by (simp add: search_setup_def plain_env_def Let_def)
  have "holds (search_method_retry (re_search env) depth rounds sa c inheritance (set_error ENOENT t)) ?Q"
    if "st_world t = st_world s" for t sa c
    using declined_retry [OF declines, of depth rounds sa c inheritance "set_error ENOENT t"]
      that by (elim holds_mono) (auto simp: same_shape_def set_error_def)
  note retry = this
  have "holds (run_return (None, set_error EINVAL t)) ?Q" if "st_world t = st_world s" for t
    using that by (simp add: set_error_def)
  note failed = this
  show ?thesis
    unfolding mulle_objc_class_search_method_def Let_def no_setup
    by (cases cls; cases search) (auto intro!: holds_c_assert retry failed)
qed

abbreviation to_calm :: "'imp search_world \<Rightarrow> ('a \<times> 'imp search_world) c_run \<Rightarrow> bool" where
  "to_calm w m \<equiv> holds m (\<lambda>(_, w'). calm w w')"

lemma search_nofail_calm:
  assumes "plain_env env"
  shows "to_calm w (mulle_objc_class_search_method_nofail (re_search env) depth rounds cls methodid w)"
    and "to_calm w (mulle_objc_class_supersearch_method_nofail (re_search env) depth rounds cls superid w)"
proof -
  have search: "holds (mulle_objc_class_search_method (re_search env) depth rounds (Some c) (Some sa) inh (search_start v))
      (\<lambda>(m, t). calm v (st_world t))" for c sa inh v
    by (rule holds_mono [OF search_method_shape [OF assms]]) (auto intro: calm_shape)
  have default: "holds (mulle_objc_class_defaultsearch_method (re_search env) depth rounds (Some c) m v)
      (\<lambda>(p, e, v'). calm v v')" for c m v
    unfolding mulle_objc_class_defaultsearch_method_def option.case search_and_get_error_def
    by (rule holds_run_bind [OF search]) auto
  have found: "holds (mulle_objc_class_search_forwardmethod (re_search env) depth rounds c v) (\<lambda>(p, e, v'). calm v v')" for c v
    unfolding mulle_objc_class_search_forwardmethod_def by (rule holds_run_bind [OF default]) auto
  have "holds (run_bind (mulle_objc_class_search_forwardmethod (re_search env) depth rounds c v) (\<lambda>(method, e, w1).
      case method of None \<Rightarrow> run_return (None, e, w1)
      | Some m \<Rightarrow> run_return (Some m, e, mulle_objc_class_set_forwardmethod c m w1))) (\<lambda>(p, e, v'). calm v v')" for c v
    by (rule holds_run_bind [OF found]) (auto intro: calm_forwardmethod split: option.split)
  then have lazy: "holds (mulle_objc_class_lazyget_forwardmethod (re_search env) depth rounds c v) (\<lambda>(p, e, v'). calm v v')" for c v
    unfolding mulle_objc_class_lazyget_forwardmethod_def by (auto intro!: holds_c_assert split: option.split)
  have forward: "to_calm v (mulle_objc_class_get_forwardmethod_lazy_nofail (re_search env) depth rounds c m v)" for c m v
    unfolding mulle_objc_class_get_forwardmethod_lazy_nofail_def
    by (rule holds_run_bind [OF lazy]) (auto split: option.split)
  have later: "to_calm v (mulle_objc_class_get_forwardmethod_lazy_nofail (re_search env) depth rounds c m v')"
    if "calm v v'" for c m v v'
    by (rule holds_mono [OF forward]) (use that in \<open>auto intro: calm_trans\<close>)
  show "to_calm w (mulle_objc_class_search_method_nofail (re_search env) depth rounds cls methodid w)"
    unfolding mulle_objc_class_search_method_nofail_def
    by (rule holds_run_bind [OF default]) (auto intro!: holds_c_assert later split: option.split)
  have "to_calm w (run_bind (mulle_objc_class_search_method (re_search env) depth rounds (Some cls)
            (Some sa) inh (search_start w)) (\<lambda>(method, s).
              case method of
                Some m \<Rightarrow> run_return (m, st_world s)
              | None \<Rightarrow> mulle_objc_class_get_forwardmethod_lazy_nofail (re_search env) depth rounds cls m (st_world s)))"
    for sa inh m
    by (rule holds_run_bind [OF search]) (auto intro!: later split: option.split)
  then show "to_calm w (mulle_objc_class_supersearch_method_nofail (re_search env) depth rounds cls superid w)"
    unfolding mulle_objc_class_supersearch_method_nofail_def by (auto split: option.split)
qed

section \<open>Progress\<close>

text \<open>Partial correctness of the functions of the runtime.\<close>

definition u_holds :: "'a guarded \<Rightarrow> ('a \<Rightarrow> bool) \<Rightarrow> bool" where
  "u_holds m Q \<longleftrightarrow> (\<forall>x. m = Inr x \<longrightarrow> Q x)"

lemma u_holds_simps [simp]: "u_holds (Inr x) Q = Q x" "u_holds (Inl e) Q"
  by (simp_all add: u_holds_def)

lemma u_holds_bind: "u_holds m P \<Longrightarrow> (\<And>x. P x \<Longrightarrow> u_holds (f x) Q) \<Longrightarrow> u_holds (u_bind m f) Q"
  by (cases m) (simp_all add: u_holds_def)

lemma u_holds_assert: "(b \<Longrightarrow> u_holds m Q) \<Longrightarrow> u_holds (u_assert b m) Q"
  by (cases b) simp_all

lemma u_holds_mono: "u_holds m P \<Longrightarrow> (\<And>x. P x \<Longrightarrow> Q x) \<Longrightarrow> u_holds m Q"
  by (simp add: u_holds_def)

lemma u_holds_of_c_run: "holds m Q \<Longrightarrow> u_holds (of_c_run m) Q"
  by (cases m) (auto simp: u_holds_def holds_def of_c_run_def of_c_result_def split: sum.splits)

lemma u_holds_trivial: "u_holds m (\<lambda>_. True)"
  by (simp add: u_holds_def)

lemma u_holds_each:
  assumes "Q s" and "\<And>x t. x \<in> set xs \<Longrightarrow> Q t \<Longrightarrow> u_holds (f x t) Q"
  shows "u_holds (u_each f xs s) Q"
  using u_each_invariant [of f xs s _ Q] assms by (auto simp: u_holds_def)

text \<open>What setting a bit comes down to.\<close>

definition add_bits :: "nat \<Rightarrow> uint32 \<Rightarrow> 'imp runtime_state \<Rightarrow> 'imp runtime_state" where
  "add_bits cls b st = st\<lparr> rt_universe := update_search_class cls
     (sc_state_update (\<lambda>_. sc_state (class_at st cls) OR b)) (rt_universe st) \<rparr>"

lemma set_class_bit_eq:
  "b \<noteq> 0 \<Longrightarrow> set_class_bit cls b st = Inr (sc_state (class_at st cls) OR b \<noteq> sc_state (class_at st cls), add_bits cls b st)"
  by (auto simp: set_class_bit_def mulle_objc_class_change_state_bit_def add_bits_def Let_def update_search_class_def)

lemma add_bits_sel [simp]:
  "pair_at (add_bits cls b st) = pair_at st" "rt_calls (add_bits cls b st) = rt_calls st"
  "class_at (add_bits cls b st) = (class_at st)(cls := (class_at st cls)\<lparr> sc_state := sc_state (class_at st cls) OR b \<rparr>)"
  "rt_pivot (add_bits cls b st) = rt_pivot st" "rt_heap (add_bits cls b st) = rt_heap st"
  "rt_lock (add_bits cls b st) = rt_lock st" "rt_thread_id (add_bits cls b st) = rt_thread_id st"
  by (simp_all add: add_bits_def update_search_class_def)

lemma add_bits_grown: "grown (rt_world st) (rt_world (add_bits cls b st))"
  by (simp add: grown_def grown_class_def or.assoc [symmetric])

lemma state_bit_add:
  "state_bit (add_bits cls b st) c d \<longleftrightarrow> state_bit st c d \<or> (c = cls \<and> b AND d \<noteq> 0)"
  by (auto simp: mulle_objc_class_get_state_bit_def bit.conj_disj_distrib2 or_eq_0_iff)

lemma metaclass_of_grown:
  "grown (rt_world st) (rt_world st') \<Longrightarrow> metaclass_of st' infra = metaclass_of st infra"
  by (simp add: metaclass_of_def grown_def grown_class_def)

lemma state_bit_grown: "grown (rt_world st) (rt_world st') \<Longrightarrow> state_bit st c b \<Longrightarrow> state_bit st' c b"
  unfolding mulle_objc_class_get_state_bit_def by (rule grown_bit)

text \<open>
  The calls of \<open>+initialize\<close> that a class gets for itself, and not for one of its mixins; and a class
  whose caches are ready.
\<close>

definition own_initializes :: "'imp runtime_state \<Rightarrow> nat \<Rightarrow> nat" where
  "own_initializes st infra = length (filter (\<lambda>(methodid, meta, receiver, imp).
     methodid = MULLE_OBJC_INITIALIZE_METHODID \<and> meta = metaclass_of st infra \<and> receiver = infra) (rt_calls st))"

definition caches_ready :: "'imp runtime_state \<Rightarrow> nat \<Rightarrow> bool" where
  "caches_ready st infra \<longleftrightarrow> state_bit st infra CLASS_STATE_CACHE_READY \<and>
     state_bit st (metaclass_of st infra) CLASS_STATE_CACHE_READY"

text \<open>
  The relation between two states of a run: a class that is being initialized or is initialized
  gets no \<open>+initialize\<close> of its own again, any other one does at most once and is then marked; the
  exceptions \<open>X\<close> are the classes whose initialization is going on just now. A class becomes
  initialized only when its caches are ready.
\<close>

definition progress :: "nat set \<Rightarrow> 'imp runtime_state \<Rightarrow> 'imp runtime_state \<Rightarrow> bool" where
  "progress X st st' \<longleftrightarrow> grown (rt_world st) (rt_world st') \<and>
     (\<forall>i. own_initializes st' i = own_initializes st i \<or>
        own_initializes st' i = Suc (own_initializes st i) \<and> (\<not> state_bit st i CLASS_STATE_INITIALIZING \<or> i \<in> X) \<and>
        state_bit st' i CLASS_STATE_INITIALIZING) \<and>
     (\<forall>i. state_bit st' i CLASS_STATE_INITIALIZE_DONE \<longrightarrow>
        state_bit st i CLASS_STATE_INITIALIZE_DONE \<or> caches_ready st' i)"

lemma caches_ready_grown: "grown (rt_world st) (rt_world st') \<Longrightarrow> caches_ready st i \<Longrightarrow> caches_ready st' i"
  by (simp add: caches_ready_def metaclass_of_grown state_bit_grown)

lemma progressI:
  assumes "grown (rt_world st) (rt_world st')" and "\<And>i. own_initializes st' i = own_initializes st i"
    and "\<And>i. state_bit st' i CLASS_STATE_INITIALIZE_DONE \<Longrightarrow> state_bit st i CLASS_STATE_INITIALIZE_DONE \<or> caches_ready st' i"
  shows "progress X st st'"
  using assms by (simp add: progress_def)

lemma progress_refl [simp]: "progress X st st"
  by (simp add: progressI)

lemma progress_grown: "progress X st st' \<Longrightarrow> grown (rt_world st) (rt_world st')"
  by (simp add: progress_def)

lemma progress_trans:
  assumes "progress X st st'" and "progress Y st' st''"
    and "\<And>i. i \<in> Y \<Longrightarrow> state_bit st i CLASS_STATE_INITIALIZING \<and> i \<notin> X"
  shows "progress (X \<union> Y) st st''"
  unfolding progress_def
proof (intro conjI allI)
  have g: "grown (rt_world st) (rt_world st')" "grown (rt_world st') (rt_world st'')"
    using assms progress_grown by blast+
  show "grown (rt_world st) (rt_world st'')" using g by (rule grown_trans)
  fix i
  show "own_initializes st'' i = own_initializes st i \<or>
      own_initializes st'' i = Suc (own_initializes st i) \<and>
      (\<not> state_bit st i CLASS_STATE_INITIALIZING \<or> i \<in> X \<union> Y) \<and> state_bit st'' i CLASS_STATE_INITIALIZING"
    using assms state_bit_grown [OF g(1), of i CLASS_STATE_INITIALIZING] state_bit_grown [OF g(2), of i CLASS_STATE_INITIALIZING]
    unfolding progress_def by (metis UnI1 UnI2)
  show "state_bit st'' i CLASS_STATE_INITIALIZE_DONE \<longrightarrow>
      state_bit st i CLASS_STATE_INITIALIZE_DONE \<or> caches_ready st'' i"
    using assms(1,2) caches_ready_grown [OF g(2)] unfolding progress_def by blast
qed

lemma progress_after:
  "progress X st st' \<Longrightarrow> progress {} st' st'' \<Longrightarrow> progress X st st''"
  using progress_trans [of X st st' "{}" st''] by simp

lemma own_initializes_cong:
  "grown (rt_world st) (rt_world st') \<Longrightarrow> rt_calls st' = rt_calls st \<Longrightarrow> own_initializes st' i = own_initializes st i"
  by (simp add: own_initializes_def metaclass_of_grown)

lemma progress_calm:
  assumes "calm (rt_world st) (rt_world st')" and "rt_calls st' = rt_calls st"
  shows "progress X st st'"
  by (rule progressI)
    (use assms in \<open>auto simp: calm_def mulle_objc_class_get_state_bit_def intro!: own_initializes_cong\<close>)

lemma progress_same_world [simp]:
  "rt_world st' = rt_world st \<Longrightarrow> rt_calls st' = rt_calls st \<Longrightarrow> progress X st st'"
  by (rule progress_calm) simp_all

lemma progress_add_bits:
  assumes "b AND CLASS_STATE_INITIALIZE_DONE = 0"
  shows "progress X st (add_bits cls b st)"
  by (rule progressI) (use assms in \<open>auto simp: state_bit_add intro!: own_initializes_cong add_bits_grown\<close>)

section \<open>Messages and searches\<close>

text \<open>
  The class heap below \<open>n\<close> is closed under superclasses, infraclasses and mixins; the mixins are
  marked, and their metaclasses are not those of another class.
\<close>

definition class_closed :: "nat \<Rightarrow> 'imp search_world \<Rightarrow> nat \<Rightarrow> bool" where
  "class_closed n w c \<longleftrightarrow>
     (\<forall>super. sc_superclass (w_class w c) = Some super \<longrightarrow> super < n) \<and>
     (\<forall>infra. sc_infraclass (w_class w c) = Some infra \<longrightarrow> infra < n) \<and>
     pair_infraclass (w_pair w (sc_classpair (w_class w c))) < n \<and>
     pair_metaclass (w_pair w (sc_classpair (w_class w c))) < n"

definition mixin_apart :: "nat \<Rightarrow> 'imp search_world \<Rightarrow> nat \<Rightarrow> bool" where
  "mixin_apart n w m \<longleftrightarrow> m < n \<and> sc_state (w_class w m) AND CLASS_STATE_IS_MIXIN \<noteq> 0 \<and>
     (\<forall>d < n. let infra = pair_infraclass (w_pair w (sc_classpair (w_class w d))) in
        pair_metaclass (w_pair w (sc_classpair (w_class w infra))) =
          pair_metaclass (w_pair w (sc_classpair (w_class w m))) \<longrightarrow> infra = m)"

definition hierarchy_ok :: "nat \<Rightarrow> 'imp search_world \<Rightarrow> bool" where
  "hierarchy_ok n w \<longleftrightarrow> (\<forall>c < n. class_closed n w c \<and>
     (\<forall>m \<in> set (pair_mixins (w_pair w (sc_classpair (w_class w c)))). mixin_apart n w m))"

lemma grown_sel:
  assumes "grown w w'"
  shows "w_pair w' = w_pair w" "sc_superclass (w_class w' c) = sc_superclass (w_class w c)"
    "sc_infraclass (w_class w' c) = sc_infraclass (w_class w c)"
    "sc_classpair (w_class w' c) = sc_classpair (w_class w c)"
  using assms by (simp_all add: grown_def grown_class_def)

lemma hierarchy_ok_grown:
  assumes "hierarchy_ok n w" and "grown w w'"
  shows "hierarchy_ok n w'"
proof -
  have "class_closed n w' c = class_closed n w c" for c
    by (simp add: class_closed_def grown_sel [OF assms(2)])
  moreover have "mixin_apart n w' m" if "mixin_apart n w m" for m
  proof -
    have "sc_state (w_class w' m) AND CLASS_STATE_IS_MIXIN \<noteq> 0"
      by (rule grown_bit [OF assms(2)]) (use that in \<open>simp add: mixin_apart_def\<close>)
    then show ?thesis using that by (simp add: mixin_apart_def grown_sel [OF assms(2)])
  qed
  ultimately show ?thesis using assms(1) by (simp add: hierarchy_ok_def grown_sel [OF assms(2)])
qed

lemma hierarchy_okD:
  assumes "hierarchy_ok n w" and "c < n"
  shows "sc_superclass (w_class w c) = Some super \<Longrightarrow> super < n"
    and "sc_infraclass (w_class w c) = Some infra \<Longrightarrow> infra < n"
    and "pair_infraclass (w_pair w (sc_classpair (w_class w c))) < n"
    and "pair_metaclass (w_pair w (sc_classpair (w_class w c))) < n"
    and "m \<in> set (pair_mixins (w_pair w (sc_classpair (w_class w c)))) \<Longrightarrow> mixin_apart n w m"
  using assms unfolding hierarchy_ok_def class_closed_def by blast+

text \<open>The contracts of class setup and of running an implementation.\<close>

definition sets_up :: "nat \<Rightarrow> 'imp class_setup \<Rightarrow> bool" where
  "sets_up n setup \<longleftrightarrow> (\<forall>c s. c < n \<and> hierarchy_ok n (rt_world s) \<longrightarrow>
     u_holds (setup c s) (\<lambda>(_, t). progress {} s t))"

definition runs :: "nat \<Rightarrow> 'imp invoker \<Rightarrow> bool" where
  "runs n invoke \<longleftrightarrow> (\<forall>imp obj s. hierarchy_ok n (rt_world s) \<longrightarrow> u_holds (invoke imp obj s) (progress {} s))"

lemma set_world_sel [simp]:
  "rt_world (set_world w st) = w" "rt_calls (set_world w st) = rt_calls st"
  by (simp_all add: set_world_def)

lemma with_lookup_state_world [simp]:
  "rt_world (with_lookup_state cls lk st) = lk_world lk" "rt_calls (with_lookup_state cls lk st) = rt_calls st"
  by (simp_all add: with_lookup_state_def)

lemma lookup_state_of_world [simp]: "lk_world (lookup_state_of cls st) = rt_world st"
  by (simp add: lookup_state_of_def)

abbreviation onward :: "'imp runtime_state \<Rightarrow> ('a \<times> 'imp runtime_state) guarded \<Rightarrow> bool" where
  "onward st m \<equiv> u_holds m (\<lambda>(_, st'). progress {} st st')"

lemma fill_world: "holds (lookup_fill universe m u lk) (\<lambda>lk'. lk_world lk' = lk_world lk)"
  unfolding lookup_fill_def by (rule holds_run_bind [OF holds_trivial]) auto

lemma search_then_fill:
  assumes "to_calm (lk_world lk) search"
  shows "holds (run_bind search (\<lambda>(m, w). run_bind (lookup_fill universe m u (lk\<lparr> lk_world := w \<rparr>)) (\<lambda>lk'. run_return (m, lk'))))
    (\<lambda>(m, lk'). calm (lk_world lk) (lk_world lk'))"
  by (rule holds_run_bind [OF assms]) (auto intro!: holds_run_bind [OF fill_world])

lemma refresh_onward:
  assumes "plain_env env"
  shows "onward st (refresh_method env cls methodid st)" and "onward st (refresh_supermethod env cls superid st)"
proof -
  note search = search_nofail_calm [OF assms, where w = "lk_world (lookup_state_of cls st)"]
  show "onward st (refresh_method env cls methodid st)"
    unfolding refresh_method_def mulle_objc_class_refresh_method_nofail_def
    by (rule u_holds_bind [OF u_holds_of_c_run [OF search_then_fill [OF search(1)]]]) (auto intro!: progress_calm)
  show "onward st (refresh_supermethod env cls superid st)"
    unfolding refresh_supermethod_def mulle_objc_class_refresh_supermethod_nofail_def
    by (rule u_holds_bind [OF u_holds_of_c_run [OF search_then_fill [OF search(2)]]]) (auto intro!: progress_calm)
qed

lemma onward_bind:
  "onward st m \<Longrightarrow> (\<And>x st1. progress {} st st1 \<Longrightarrow> onward st1 (f (x, st1))) \<Longrightarrow> onward st (u_bind m f)"
  by (erule u_holds_bind) (auto intro: u_holds_mono progress_after)

lemma onward_read: "(\<And>x. onward st (f x)) \<Longrightarrow> onward st (u_bind m f)"
  by (rule u_holds_bind [OF u_holds_trivial])

lemma u_holds_if: "(b \<Longrightarrow> u_holds m Q) \<Longrightarrow> (\<not> b \<Longrightarrow> u_holds m' Q) \<Longrightarrow> u_holds (if b then m else m') Q"
  by simp

lemma onward_Inr: "onward st (Inr (x, st))"
  by simp

lemma onward_if_needed: "progress {} st st' \<Longrightarrow> hierarchy_ok n (rt_world st) \<Longrightarrow> hierarchy_ok n (rt_world st')"
  by (blast intro: hierarchy_ok_grown progress_grown)

lemma searched_onward: "to_calm (rt_world st) search \<Longrightarrow> onward st (searched_imp search st)"
  unfolding searched_imp_def by (rule u_holds_bind, erule u_holds_of_c_run) (auto intro!: progress_calm)

lemmas cache_call_defs = mulle_objc_object_callback_class_get_implementation_def
  mulle_objc_object_callback_cache_collision_get_implementation_def
  mulle_objc_object_callback_cache_miss_get_implementation_def mulle_objc_object_call_class_slow_def
  mulle_objc_object_call2_slow_def

lemmas cache_supercall_defs = mulle_objc_object_callback_super_get_implementation_def
  mulle_objc_object_callback_super_cache_collision_get_implementation_def
  mulle_objc_object_callback_super_cache_miss_get_implementation_def mulle_objc_object_call_super_slow_def

lemmas onward_intros = onward_read u_holds_assert u_holds_if onward_Inr

lemma needcache_onward:
  assumes "sets_up n setup" and "plain_env env" and "hierarchy_ok n (rt_world st)" and "cls < n"
    and "\<And>f st1. hierarchy_ok n (rt_world st1) \<Longrightarrow> onward st1 (rec f cls u st1)"
    and "\<And>st1. to_calm (rt_world st1) (search st1)"
  shows "onward st (u_bind (setup cls st) (\<lambda>(slow, st1). if slow then searched_imp (search st1) st1
    else u_bind (current_impcache st1 cls) (\<lambda>icache. rec (g icache) cls u st1)))"
proof (rule onward_bind, goal_cases)
  case 1
  then show ?case using assms(1,3,4) by (simp add: sets_up_def)
next
  case (2 slow st1)
  then have "hierarchy_ok n (rt_world st1)" using assms(3) onward_if_needed by blast
  then show ?case by (auto intro!: onward_intros assms(5) searched_onward [OF assms(6)])
qed

lemma run_call_function_onward:
  assumes "sets_up n setup" and "plain_env env" and "cls < n"
  shows "hierarchy_ok n (rt_world st) \<Longrightarrow> onward st (run_call_function setup env k f cls methodid st)"
proof (induction k arbitrary: f st)
  case (Suc k)
  note search = searched_onward [OF search_nofail_calm(1) [OF assms(2)]]
  have "onward st (mulle_objc_object_call_class_needcache setup (run_call_function setup env k) env cls methodid st)"
    unfolding mulle_objc_object_call_class_needcache_def mulle_objc_object_call_class_slow_def
    by (rule needcache_onward [OF assms(1,2) Suc.prems assms(3), where rec = "run_call_function setup env k"])
      (rule Suc.IH search_nofail_calm(1) [OF assms(2)] | assumption)+
  then show ?case
    by (cases f) (auto simp: cache_call_defs intro!: onward_intros refresh_onward(1) [OF assms(2)] search)
qed simp

lemma run_supercall_function_onward:
  assumes "sets_up n setup" and "plain_env env" and "cls < n"
  shows "hierarchy_ok n (rt_world st) \<Longrightarrow> onward st (run_supercall_function setup env k f cls superid st)"
proof (induction k arbitrary: f st)
  case (Suc k)
  note search = searched_onward [OF search_nofail_calm(2) [OF assms(2)]]
  have "onward st (mulle_objc_object_call_super_needcache setup (run_supercall_function setup env k) env cls superid st)"
    unfolding mulle_objc_object_call_super_needcache_def mulle_objc_object_call_super_slow_def
    by (rule needcache_onward [OF assms(1,2) Suc.prems assms(3), where rec = "run_supercall_function setup env k"])
      (rule Suc.IH search_nofail_calm(2) [OF assms(2)] | assumption)+
  then show ?case
    by (cases f) (auto simp: cache_supercall_defs intro!: onward_intros refresh_onward(2) [OF assms(2)] search)
qed simp

text \<open>All objects are of classes of the heap.\<close>

definition objects_in :: "nat \<Rightarrow> 'imp runtime_env \<Rightarrow> bool" where
  "objects_in n env \<longleftrightarrow> (\<forall>obj. mulle_objc_object_get_isa env obj < n)"

lemma unless_nil_onward: "onward st m \<Longrightarrow> onward st (unless_nil obj st m)"
  unfolding unless_nil_def by (auto intro!: u_holds_if elim!: onward_bind)

lemma object_call_onward:
  assumes "sets_up n setup" and "plain_env env" and "objects_in n env" and "hierarchy_ok n (rt_world st)"
  shows "onward st (mulle_objc_object_call setup env k obj methodid st)"
    and "onward st (mulle_objc_object_call_super setup env k obj methodid superid st)"
proof -
  have isa: "mulle_objc_object_get_isa env obj < n" using assms(3) by (simp add: objects_in_def)
  note run = run_call_function_onward [OF assms(1,2) isa assms(4)]
    run_supercall_function_onward [OF assms(1,2) isa assms(4)]
  show "onward st (mulle_objc_object_call setup env k obj methodid st)"
    unfolding mulle_objc_object_call_def call_target_def
    by (rule unless_nil_onward, rule onward_read) (auto intro!: onward_Inr run(1) split: call_target.split)
  show "onward st (mulle_objc_object_call_super setup env k obj methodid superid st)"
    unfolding mulle_objc_object_call_super_def mulle_objc_object_call_super_inline_full_def Let_def
    by (rule unless_nil_onward) (intro onward_intros run(2))
qed
end
