(* ===== verification/Class_Initialize_Correct.thy ===== *)
theory Class_Initialize_Correct
  imports Class_Progress Universe_Invariant
begin

text \<open>
  What class initialization guarantees whatever the program does in \<open>+initialize\<close>: no class is
  initialized twice, and a setup that answers 0 leaves the class initialized with its caches ready.
\<close>

section \<open>Initialization\<close>

lemma search_in_class_calm:
  assumes "plain_env env"
  shows "u_holds (search_in_class env cls search inheritance st)
    (\<lambda>(_, st'). calm (rt_world st) (rt_world st') \<and> rt_calls st' = rt_calls st)"
  unfolding search_in_class_def
  by (rule u_holds_bind [OF u_holds_of_c_run [OF search_method_shape [OF assms]]]) (auto intro: calm_shape)

definition is_own_initialize :: "'imp runtime_state \<Rightarrow> uint32 \<Rightarrow> nat \<Rightarrow> nat \<Rightarrow> bool" where
  "is_own_initialize st methodid meta infra \<longleftrightarrow> methodid = MULLE_OBJC_INITIALIZE_METHODID \<and> meta = metaclass_of st infra"

lemma is_own_initialize_grown:
  "grown (rt_world st) (rt_world st') \<Longrightarrow> is_own_initialize st' methodid meta infra = is_own_initialize st methodid meta infra"
  by (simp add: is_own_initialize_def metaclass_of_grown)

lemma own_initializes_call:
  "own_initializes (st\<lparr> rt_calls := rt_calls st @ [(methodid, meta, infra, imp)] \<rparr>) i =
     own_initializes st i + (if is_own_initialize st methodid meta infra \<and> i = infra then 1 else 0)"
  by (auto simp: own_initializes_def is_own_initialize_def metaclass_of_def)

lemma progress_call:
  assumes "is_own_initialize st methodid meta infra \<Longrightarrow> infra \<in> X \<and> state_bit st infra CLASS_STATE_INITIALIZING"
  shows "progress X st (st\<lparr> rt_calls := rt_calls st @ [(methodid, meta, infra, imp)] \<rparr>)"
  using assms by (auto simp: progress_def own_initializes_call)

lemma invoke_progress:
  assumes "runs n invoke" and "hierarchy_ok n (rt_world st)"
    and "is_own_initialize st methodid meta infra \<Longrightarrow> infra \<in> X \<and> state_bit st infra CLASS_STATE_INITIALIZING"
  shows "u_holds (invoke_class_method invoke env methodid meta infra m st) (progress X st)"
  unfolding invoke_class_method_def Let_def
proof (rule u_holds_mono)
  fix imp
  let ?st = "st\<lparr> rt_calls := rt_calls st @ [(methodid, meta, infra, imp)] \<rparr>"
  show "u_holds (invoke imp obj ?st) (progress {} ?st)" for obj using assms(1,2) by (simp add: runs_def)
  show "progress {} ?st x \<Longrightarrow> progress X st x" for x by (rule progress_after [OF progress_call [OF assms(3)]])
qed

lemma call_initialize_deinitialize_progress:
  assumes "runs n invoke" and "plain_env env" and "hierarchy_ok n (rt_world st)"
    and "is_own_initialize st methodid meta infra \<Longrightarrow> infra \<in> X \<and> state_bit st infra CLASS_STATE_INITIALIZING"
  shows "u_holds (mulle_objc_metaclass_call_initialize_deinitialize invoke env meta inheritance methodid infra st)
    (progress X st)"
  unfolding mulle_objc_metaclass_call_initialize_deinitialize_def
proof (rule u_holds_bind [OF search_in_class_calm [OF assms(2)]], clarify)
  fix m st1 assume calm: "calm (rt_world st) (rt_world st1)" and calls: "rt_calls st1 = rt_calls st"
  then have g: "grown (rt_world st) (rt_world st1)" by (simp add: calm_def)
  have p: "progress {} st st1" using calm calls by (rule progress_calm)
  have own: "is_own_initialize st1 methodid meta infra \<Longrightarrow> infra \<in> X \<and> state_bit st1 infra CLASS_STATE_INITIALIZING"
    using assms(4) state_bit_grown [OF g] by (simp add: is_own_initialize_grown [OF g])
  have "progress X st st2" if "progress X st1 st2" for st2
  proof -
    have "progress (X \<union> {}) st1 st2" using that by simp
    moreover have "own_initializes st1 i = own_initializes st i" for i using own_initializes_cong [OF g calls] .
    moreover have "state_bit st1 i b = state_bit st i b" for i b
      using calm by (simp add: calm_def mulle_objc_class_get_state_bit_def)
    ultimately show ?thesis using g grown_trans [OF g] by (simp add: progress_def)
  qed
  note next_step = this
  show "u_holds (case m of None \<Rightarrow> Inr st1 | Some m \<Rightarrow> invoke_class_method invoke env methodid meta infra m st1) (progress X st)"
  proof (cases m)
    case None
    then show ?thesis using next_step [of st1] by simp
  next
    case (Some p)
    have "u_holds (invoke_class_method invoke env methodid meta infra p st1) (progress X st1)"
      by (rule invoke_progress [OF assms(1) hierarchy_ok_grown [OF assms(3) g] own])
    then show ?thesis using Some next_step by (auto elim: u_holds_mono)
  qed
qed

text \<open>A call for a mixin is not the class's own.\<close>

definition not_a_mixin :: "nat \<Rightarrow> 'imp runtime_state \<Rightarrow> nat \<Rightarrow> bool" where
  "not_a_mixin n st infra \<longleftrightarrow>
     (\<forall>owner < n. \<forall>m \<in> set (mixins_of st owner). metaclass_of st m \<noteq> metaclass_of st infra)"

lemma not_a_mixin_grown:
  assumes "grown (rt_world st) (rt_world st')"
  shows "not_a_mixin n st' infra = not_a_mixin n st infra"
proof -
  have "mixins_of st' = mixins_of st" by (rule ext) (simp add: mixins_of_def grown_sel [OF assms])
  then show ?thesis by (simp add: not_a_mixin_def metaclass_of_grown [OF assms])
qed

lemma not_a_mixinI:
  assumes "hierarchy_ok n (rt_world st)" and "d < n" and "\<not> state_bit st infra CLASS_STATE_IS_MIXIN"
    and "infra = pair_infraclass (pair_at st (sc_classpair (class_at st d)))"
  shows "not_a_mixin n st infra"
  unfolding not_a_mixin_def
proof (intro allI impI ballI)
  fix owner m assume "owner < n" "m \<in> set (mixins_of st owner)"
  then have "mixin_apart n (rt_world st) m"
    using hierarchy_okD(5) [OF assms(1)] by (simp add: mixins_of_def Let_def)
  moreover have "infra \<noteq> m" using calculation assms(3) by (auto simp: mixin_apart_def mulle_objc_class_get_state_bit_def)
  ultimately show "metaclass_of st m \<noteq> metaclass_of st infra"
    using assms(2,4) by (auto simp: mixin_apart_def metaclass_of_def Let_def)
qed

lemma call_mixins_initialize_progress:
  assumes "runs n invoke" and "plain_env env"
  shows "hierarchy_ok n (rt_world st) \<Longrightarrow> not_a_mixin n st infra \<Longrightarrow> owner < n \<Longrightarrow>
    u_holds (mulle_objc_infraclass_call_mixins_initialize invoke env k owner infra st) (progress {} st)"
proof (induction k arbitrary: owner st)
  case (Suc k)
  have super: "u_holds (case sc_superclass (class_at st owner) of None \<Rightarrow> Inr st
      | Some superclass \<Rightarrow> mulle_objc_infraclass_call_mixins_initialize invoke env k superclass infra st) (progress {} st)"
    using Suc.IH [OF Suc.prems(1,2)] hierarchy_okD(1) [OF Suc.prems(1,3)] by (simp split: option.split)
  show ?case
    unfolding mulle_objc_infraclass_call_mixins_initialize.simps
  proof (rule u_holds_assert, rule u_holds_bind [OF super], rule u_holds_each)
    fix st1 mixin st2
    assume st1: "progress {} st st1" and mixin: "mixin \<in> set (mixins_of st1 owner)" and st2: "progress {} st st2"
    note g1 = progress_grown [OF st1] and g2 = progress_grown [OF st2]
    have "metaclass_of st2 mixin \<noteq> metaclass_of st2 infra"
      using mixin Suc.prems(3) not_a_mixin_grown [OF g1, of n infra] Suc.prems(2)
      by (auto simp: not_a_mixin_def metaclass_of_grown [OF g2] metaclass_of_grown [OF g1])
    then have "u_holds (mulle_objc_metaclass_call_initialize_deinitialize invoke env (metaclass_of st2 mixin)
        (NOT DONT_INHERIT_CLASS) MULLE_OBJC_INITIALIZE_METHODID infra st2) (progress {} st2)"
      by (intro call_initialize_deinitialize_progress [OF assms hierarchy_ok_grown [OF Suc.prems(1) g2]])
        (simp add: is_own_initialize_def)
    then show "u_holds (mulle_objc_metaclass_call_initialize_deinitialize invoke env (metaclass_of st2 mixin)
        (NOT DONT_INHERIT_CLASS) MULLE_OBJC_INITIALIZE_METHODID infra st2) (progress {} st)"
      by (rule u_holds_mono) (rule progress_after [OF st2])
  qed
qed simp

lemma call_initialize_progress:
  assumes "runs n invoke" and "plain_env env" and "hierarchy_ok n (rt_world st)" and "infra < n" and "d < n"
    and "infra = pair_infraclass (pair_at st (sc_classpair (class_at st d)))"
    and "state_bit st infra CLASS_STATE_INITIALIZING"
  shows "u_holds (mulle_objc_infraclass_call_initialize invoke env infra st) (progress {infra} st)"
  unfolding mulle_objc_infraclass_call_initialize_def Let_def
proof (rule u_holds_if)
  assume "\<not> state_bit st infra CLASS_STATE_IS_MIXIN"
  then have alone: "not_a_mixin n st infra" by (rule not_a_mixinI [OF assms(3,5) _ assms(6)])
  show "u_holds (u_bind (mulle_objc_metaclass_call_initialize_deinitialize invoke env (metaclass_of st infra)
      ((((sc_inheritance (class_at st (metaclass_of st infra)) OR DONT_INHERIT_PROTOCOLS)
        OR DONT_INHERIT_PROTOCOL_CATEGORIES) OR DONT_INHERIT_PROTOCOL_META) OR DONT_INHERIT_SUPERCLASS_INHERITANCE)
      MULLE_OBJC_INITIALIZE_METHODID infra st)
    (mulle_objc_infraclass_call_mixins_initialize invoke env (re_depth env) infra infra)) (progress {infra} st)"
  proof (rule u_holds_bind)
    show "u_holds (mulle_objc_metaclass_call_initialize_deinitialize invoke env (metaclass_of st infra)
      ((((sc_inheritance (class_at st (metaclass_of st infra)) OR DONT_INHERIT_PROTOCOLS)
        OR DONT_INHERIT_PROTOCOL_CATEGORIES) OR DONT_INHERIT_PROTOCOL_META) OR DONT_INHERIT_SUPERCLASS_INHERITANCE)
      MULLE_OBJC_INITIALIZE_METHODID infra st) (progress {infra} st)"
      by (rule call_initialize_deinitialize_progress [OF assms(1-3)]) (use assms(7) in simp)
    fix st1 assume st1: "progress {infra} st st1"
    note g = progress_grown [OF st1]
    have "u_holds (mulle_objc_infraclass_call_mixins_initialize invoke env (re_depth env) infra infra st1) (progress {} st1)"
      by (rule call_mixins_initialize_progress [OF assms(1,2) hierarchy_ok_grown [OF assms(3) g] _ assms(4)])
        (simp add: not_a_mixin_grown [OF g] alone)
    then show "u_holds (mulle_objc_infraclass_call_mixins_initialize invoke env (re_depth env) infra infra st1) (progress {infra} st)"
      by (rule u_holds_mono) (rule progress_after [OF st1])
  qed
qed simp
lemma call_all_methods_progress:
  assumes "runs n invoke" and "plain_env env" and "methodid \<noteq> MULLE_OBJC_INITIALIZE_METHODID"
  shows "hierarchy_ok n (rt_world st) \<Longrightarrow>
    (\<And>s. rt_world (before s) = rt_world s \<and> rt_calls (before s) = rt_calls s) \<Longrightarrow>
    u_holds (call_all_methods invoke env k methodid meta infra before search st) (progress {} st)"
proof (induction k arbitrary: before search st)
  case (Suc k)
  show ?case
    unfolding call_all_methods.simps
  proof (rule u_holds_bind [OF search_in_class_calm [OF assms(2)]], clarify)
    fix m st1 assume calm: "calm (rt_world st) (rt_world st1)" "rt_calls st1 = rt_calls st"
    have p: "progress {} st (before st1)" by (rule progress_calm) (use calm Suc.prems(2) in simp_all)
    have h: "hierarchy_ok n (rt_world (before st1))" using hierarchy_ok_grown [OF Suc.prems(1) progress_grown [OF p]] .
    have "u_holds (u_bind (invoke_class_method invoke env methodid meta infra q (before st1)) (\<lambda>st2.
        call_all_methods invoke env k methodid meta infra (\<lambda>s. s)
          (mulle_objc_searcharguments_make_previous (rt_world st2) q) st2)) (progress {} st)" for q
    proof (rule u_holds_bind)
      show "u_holds (invoke_class_method invoke env methodid meta infra q (before st1)) (progress {} (before st1))"
        by (rule invoke_progress [OF assms(1) h]) (use assms(3) in \<open>simp add: is_own_initialize_def\<close>)
      fix st2 assume "progress {} (before st1) st2"
      then have st2: "progress {} st st2" by (rule progress_after [OF p])
      show "u_holds (call_all_methods invoke env k methodid meta infra (\<lambda>s. s)
          (mulle_objc_searcharguments_make_previous (rt_world st2) q) st2) (progress {} st)"
        by (rule u_holds_mono [OF Suc.IH [OF hierarchy_ok_grown [OF Suc.prems(1) progress_grown [OF st2]]]])
          (auto intro: progress_after [OF st2])
    qed
    then show "u_holds (case m of None \<Rightarrow> Inr st1 | Some m \<Rightarrow>
        u_bind (invoke_class_method invoke env methodid meta infra m (before st1)) (\<lambda>st2.
          call_all_methods invoke env k methodid meta infra (\<lambda>s. s)
            (mulle_objc_searcharguments_make_previous (rt_world st2) m) st2)) (progress {} st)"
      using progress_calm [OF calm] by (simp split: option.split)
  qed
qed simp

lemma call_initialize_self_progress:
  assumes "runs n invoke" and "plain_env env" and "hierarchy_ok n (rt_world st)"
  shows "u_holds (mulle_objc_infraclass_call_initialize_self invoke env k infra st) (progress {} st)"
  unfolding mulle_objc_infraclass_call_initialize_self_def Let_def
  by (intro u_holds_if call_all_methods_progress [OF assms(1,2) _ assms(3)])
    (simp_all add: init_propertylock_def c_defs)

lemma setup_if_needed_progress:
  assumes "sets_up n setup" and "hierarchy_ok n (rt_world st)" and "infra < n"
  shows "u_holds (mulle_objc_infraclass_setup_if_needed setup infra st) (progress {} st)"
  unfolding mulle_objc_infraclass_setup_if_needed_def
proof (rule u_holds_if, rule u_holds_bind)
  show "onward st (setup infra st)" using assms by (simp add: sets_up_def)
qed auto

lemma setup_superclasses_progress:
  assumes "sets_up n setup" and "hierarchy_ok n (rt_world st)" and "infra < n"
  shows "u_holds (mulle_objc_infraclass_setup_superclasses setup infra st) (progress {} st)"
  unfolding mulle_objc_infraclass_setup_superclasses_def
proof (rule u_holds_bind)
  show "u_holds (u_each (mulle_objc_infraclass_setup_if_needed setup) (mixins_of st infra) st) (progress {} st)"
  proof (rule u_holds_each)
    fix m t assume m: "m \<in> set (mixins_of st infra)" and t: "progress {} st t"
    have "m < n" using m hierarchy_okD(5) [OF assms(2,3)] by (simp add: mixins_of_def Let_def mixin_apart_def)
    then show "u_holds (mulle_objc_infraclass_setup_if_needed setup m t) (progress {} st)"
      by (rule u_holds_mono [OF setup_if_needed_progress [OF assms(1) onward_if_needed [OF t assms(2)]]])
        (rule progress_after [OF t])
  qed simp
  fix st1 assume st1: "progress {} st st1"
  note h = onward_if_needed [OF st1 assms(2)]
  show "u_holds (case sc_superclass (class_at st1 infra) of None \<Rightarrow> Inr st1
      | Some superclass \<Rightarrow> mulle_objc_infraclass_setup_if_needed setup superclass st1) (progress {} st)"
    by (auto simp: st1 split: option.split intro: progress_after [OF st1]
        intro!: u_holds_mono [OF setup_if_needed_progress [OF assms(1) h hierarchy_okD(1) [OF h assms(3)]]])
qed

lemma metaclass_setup_superclass_progress:
  assumes "sets_up n setup" and "hierarchy_ok n (rt_world st)" and "meta < n"
  shows "u_holds (mulle_objc_metaclass_setup_superclass setup meta st) (progress {} st)"
proof -
  have "(case sc_infraclass (class_at st super) of Some infra \<Rightarrow> infra | None \<Rightarrow> super) < n"
    if "sc_superclass (class_at st meta) = Some super" for super
    using hierarchy_okD(1) [OF assms(2,3) that] hierarchy_okD(2) [OF assms(2)] by (simp split: option.split)
  then show ?thesis
    unfolding mulle_objc_metaclass_setup_superclass_def
    by (auto intro!: u_holds_assert setup_if_needed_progress [OF assms(1,2)] split: option.split)
qed

section \<open>Caches\<close>

lemma cas_pivot_frame:
  "u_holds (cas_pivot cls a b st) (\<lambda>st'. rt_universe st' = rt_universe st \<and> rt_calls st' = rt_calls st)"
  by (auto simp: cas_pivot_def intro!: u_holds_assert)

lemma setup_initialize_cache_progress:
  "u_holds (mulle_objc_class_setup_initialize_cache env cls st) (progress {} st)"
  unfolding mulle_objc_class_setup_initialize_cache_def by (rule u_holds_mono [OF cas_pivot_frame]) simp

lemma setup_initial_cache_progress:
  "u_holds (mulle_objc_class_setup_initial_cache_if_needed env cls callback st)
     (\<lambda>(_, st'). progress {} st st' \<and> state_bit st' cls CLASS_STATE_CACHE_READY)"
  unfolding mulle_objc_class_setup_initial_cache_if_needed_def
proof (rule u_holds_if)
  have "u_holds (mulle_objc_class_setup_initial_cache env cls callback st) (progress {} st)"
    unfolding mulle_objc_class_setup_initial_cache_def Let_def
    by (auto intro!: u_holds_if u_holds_mono [OF cas_pivot_frame] split: prod.split)
  then show "u_holds (u_bind (mulle_objc_class_setup_initial_cache env cls callback st) (\<lambda>st1.
      u_bind (set_class_bit cls CLASS_STATE_CACHE_READY st1) (\<lambda>(_, st2). Inr (True, st2))))
    (\<lambda>(_, st'). progress {} st st' \<and> state_bit st' cls CLASS_STATE_CACHE_READY)"
  proof (rule u_holds_bind)
    fix st1 assume st1: "progress {} st st1"
    have "progress {} st1 (add_bits cls CLASS_STATE_CACHE_READY st1)"
      by (rule progress_add_bits) (simp add: c_defs)
    then show "u_holds (u_bind (set_class_bit cls CLASS_STATE_CACHE_READY st1) (\<lambda>(_, st2). Inr (True, st2)))
        (\<lambda>(_, st'). progress {} st st' \<and> state_bit st' cls CLASS_STATE_CACHE_READY)"
      using progress_after [OF st1] by (simp add: set_class_bit_eq c_defs state_bit_add)
  qed
qed simp
section \<open>Class setup\<close>

text \<open>A step of the setup, behind a progress that is made already.\<close>

lemma progress_step:
  assumes "progress X st st1" and "u_holds m (progress {} st1)" and "\<And>st2. progress X st st2 \<Longrightarrow> u_holds (f st2) Q"
  shows "u_holds (u_bind m f) Q"
  using assms(2) by (rule u_holds_bind) (rule assms(3) [OF progress_after [OF assms(1)]])

definition initialized :: "'imp runtime_state \<Rightarrow> nat \<Rightarrow> bool" where
  "initialized st infra \<longleftrightarrow> state_bit st infra CLASS_STATE_INITIALIZE_DONE \<and> caches_ready st infra"

lemma class_setup_done:
  assumes "progress X st st1" and "caches_ready st1 infra"
  shows "u_holds (u_bind (set_class_bit infra CLASS_STATE_INITIALIZE_DONE st1) (\<lambda>(_, st2). Inr st2))
    (\<lambda>st2. progress X st st2 \<and> initialized st2 infra)"
proof -
  let ?st = "add_bits infra CLASS_STATE_INITIALIZE_DONE st1"
  have g: "grown (rt_world st1) (rt_world ?st)" by (rule add_bits_grown)
  have ready: "caches_ready ?st infra" using caches_ready_grown [OF g assms(2)] .
  have "progress {} st1 ?st"
    by (rule progressI [OF g]) (use ready in \<open>auto simp: state_bit_add intro!: own_initializes_cong g\<close>)
  then show ?thesis
    using progress_after [OF assms(1)] ready by (simp add: set_class_bit_eq c_defs state_bit_add initialized_def)
qed

lemma initial_cache_step:
  assumes "progress X st st1"
    and "\<And>st2. progress X st st2 \<Longrightarrow> grown (rt_world st1) (rt_world st2) \<Longrightarrow> state_bit st2 cls CLASS_STATE_CACHE_READY \<Longrightarrow>
      u_holds (f st2) Q"
  shows "u_holds (u_bind (mulle_objc_class_setup_initial_cache_if_needed env cls callback st1) (\<lambda>(_, st2). f st2)) Q"
  by (rule u_holds_bind [OF setup_initial_cache_progress])
    (auto intro!: assms(2) progress_after [OF assms(1)] intro: progress_grown)

lemma class_setup_first_progress:
  assumes "sets_up n setup" and "runs n invoke" and "plain_env env" and "hierarchy_ok n (rt_world st)" and "d < n"
    and "infra = pair_infraclass (pair_at st (sc_classpair (class_at st d)))"
    and "state_bit st infra CLASS_STATE_INITIALIZING"
  shows "u_holds (class_setup_first setup invoke env k infra st)
    (\<lambda>st'. progress {infra} st st' \<and> initialized st' infra)"
proof -
  have infra: "infra < n" using hierarchy_okD(3) [OF assms(4,5)] assms(6) by simp
  have meta: "metaclass_of st infra < n" using hierarchy_okD(4) [OF assms(4) infra] by (simp add: metaclass_of_def)
  have h: "hierarchy_ok n (rt_world st')" if "progress X st st'" for X st'
    using hierarchy_ok_grown [OF assms(4) progress_grown [OF that]] .
  have call: "u_holds (u_bind (mulle_objc_infraclass_call_initialize invoke env infra st5) f) Q"
    if "progress {} st st5" and "\<And>st6. progress {infra} st st6 \<Longrightarrow> u_holds (f st6) Q" for st5 f Q
  proof (rule u_holds_bind [OF call_initialize_progress [OF assms(2,3) h [OF that(1)] infra assms(5)]])
    note g = progress_grown [OF that(1)]
    show "infra = pair_infraclass (pair_at st5 (sc_classpair (class_at st5 d)))"
      using assms(6) by (simp add: grown_sel [OF g])
    show "state_bit st5 infra CLASS_STATE_INITIALIZING" using state_bit_grown [OF g assms(7)] .
    fix st6 assume "progress {infra} st5 st6"
    from progress_trans [OF that(1) this] show "u_holds (f st6) Q" using assms(7) that(2) by simp
  qed
  show ?thesis
    unfolding class_setup_first_def Let_def
  proof (rule progress_step [where X = "{}", OF progress_refl metaclass_setup_superclass_progress [OF assms(1,4) meta]],
      rule progress_step, assumption, rule setup_superclasses_progress [OF assms(1) h infra], assumption,
      rule progress_step, assumption, rule setup_initialize_cache_progress,
      rule progress_step, assumption, rule setup_initialize_cache_progress,
      rule progress_step, assumption, rule call_initialize_self_progress [OF assms(2,3) h], assumption,
      rule call, assumption, rule initial_cache_step, assumption, rule initial_cache_step, assumption)
    fix st7 st8
    assume p: "progress {infra} st st8" and g: "grown (rt_world st7) (rt_world st8)"
      and "state_bit st7 (metaclass_of st infra) CLASS_STATE_CACHE_READY" "state_bit st8 infra CLASS_STATE_CACHE_READY"
    then have "caches_ready st8 infra"
      using state_bit_grown [OF g] by (simp add: caches_ready_def metaclass_of_grown [OF progress_grown [OF p]])
    then show "u_holds (u_bind (set_class_bit infra CLASS_STATE_INITIALIZE_DONE st8) (\<lambda>(_, st9). Inr st9))
        (\<lambda>st'. progress {infra} st st' \<and> initialized st' infra)"
      by (rule class_setup_done [OF p])
  qed
qed

text \<open>The thread that marks a class as initializing answers for its \<open>+initialize\<close>.\<close>

lemma progress_start:
  assumes "progress {infra} (add_bits infra CLASS_STATE_INITIALIZING st) st'"
    and "\<not> state_bit st infra CLASS_STATE_INITIALIZING"
  shows "progress {} st st'"
proof -
  let ?st = "add_bits infra CLASS_STATE_INITIALIZING st"
  have start: "own_initializes ?st i = own_initializes st i" for i
    by (rule own_initializes_cong [OF add_bits_grown]) simp
  have bits: "state_bit ?st i CLASS_STATE_INITIALIZING \<longleftrightarrow> state_bit st i CLASS_STATE_INITIALIZING \<or> i = infra"
    "state_bit ?st i CLASS_STATE_INITIALIZE_DONE \<longleftrightarrow> state_bit st i CLASS_STATE_INITIALIZE_DONE" for i
    by (auto simp: state_bit_add c_defs)
  show ?thesis
    using assms grown_trans [OF add_bits_grown] unfolding progress_def start bits by auto
qed

definition infraclass_for :: "'imp runtime_state \<Rightarrow> nat \<Rightarrow> nat" where
  "infraclass_for st cls = pair_infraclass (pair_at st (sc_classpair (class_at st cls)))"

text \<open>Setup goes slow only in the thread that initializes the class right now, and leaves the state then.\<close>

definition setup_answers :: "'imp runtime_env \<Rightarrow> nat \<Rightarrow> 'imp runtime_state \<Rightarrow> bool \<times> 'imp runtime_state \<Rightarrow> bool" where
  "setup_answers env cls st = (\<lambda>(slow, st'). progress {} st st' \<and>
     (if slow then st' = st \<and> state_bit st (infraclass_for st cls) CLASS_STATE_INITIALIZING \<and>
        rt_thread_id st (sc_classpair (class_at st cls)) = Some (re_thread env)
      else state_bit st' (infraclass_for st cls) CLASS_STATE_INITIALIZE_DONE \<and>
        (initialized st' (infraclass_for st cls) \<or> state_bit st (infraclass_for st cls) CLASS_STATE_INITIALIZE_DONE)))"

lemma one_bit_clear:
  fixes x :: "'a :: len word"
  assumes "x OR push_bit k 1 \<noteq> x"
  shows "x AND push_bit k 1 = 0"
proof (rule ccontr)
  assume "x AND push_bit k 1 \<noteq> 0"
  then obtain i where "bit (x AND push_bit k 1) i" by (metis bit_eqI bit_0_eq bot_apply bot_bool_def)
  then have "bit x k" by (auto simp: bit_simps)
  then have "x OR push_bit k 1 = x" by (intro bit_word_eqI) (auto simp: bit_simps)
  with assms show False by simp
qed

lemma class_setup_body_answers:
  assumes "sets_up n setup" and "runs n invoke" and "plain_env env" and "hierarchy_ok n (rt_world st)" and "cls < n"
  shows "u_holds (class_setup_body setup invoke env k cls st) (setup_answers env cls st)"
proof -
  let ?pair = "sc_classpair (class_at st cls)"
  let ?infra = "pair_infraclass (pair_at st ?pair)"
  let ?locked = "st\<lparr> rt_lock := (rt_lock st)(?pair := True), rt_thread_id := (rt_thread_id st)(?pair := Some (re_thread env)) \<rparr>"
  let ?st = "add_bits ?infra CLASS_STATE_INITIALIZING ?locked"
  let ?changed = "sc_state (class_at st ?infra) OR CLASS_STATE_INITIALIZING \<noteq> sc_state (class_at st ?infra)"
  have start: "progress {} st ?locked" by simp
  have marked: "state_bit ?st ?infra CLASS_STATE_INITIALIZING" by (simp add: state_bit_add c_defs)
  have first: "u_holds (class_setup_first setup invoke env k ?infra ?st) (\<lambda>st'. progress {} st st' \<and> initialized st' ?infra)"
    if "\<not> state_bit st ?infra CLASS_STATE_INITIALIZING"
  proof (rule u_holds_mono [OF class_setup_first_progress [OF assms(1-3) _ assms(5)]])
    show "hierarchy_ok n (rt_world ?st)" by (rule hierarchy_ok_grown [OF assms(4)]) (rule add_bits_grown [of ?locked, simplified])
    show "?infra = pair_infraclass (pair_at ?st (sc_classpair (class_at ?st cls)))" by simp
    fix st' assume post: "progress {?infra} ?st st' \<and> initialized st' ?infra"
    have "progress {} ?locked st'" by (rule progress_start [of ?infra]) (use post that in simp_all)
    then show "progress {} st st' \<and> initialized st' ?infra" using post progress_after [OF start] by blast
  qed (rule marked)
  have changed: "\<not> state_bit st ?infra CLASS_STATE_INITIALIZING" if ?changed
    using that one_bit_clear [of _ 14] by (simp add: mulle_objc_class_get_state_bit_def c_defs push_bit_eq_mult)
  have again: "progress {} st ?st" by (rule progress_after [OF start]) (rule progress_add_bits, simp add: c_defs)
  have "u_holds (if ?changed then class_setup_first setup invoke env k ?infra ?st
        else u_assert (state_bit ?st ?infra CLASS_STATE_INITIALIZE_DONE) (Inr ?st))
      (\<lambda>st'. progress {} st st' \<and> state_bit st' ?infra CLASS_STATE_INITIALIZE_DONE \<and>
         (initialized st' ?infra \<or> state_bit st ?infra CLASS_STATE_INITIALIZE_DONE))"
  proof (rule u_holds_if)
    assume ?changed
    show "u_holds (class_setup_first setup invoke env k ?infra ?st) (\<lambda>st'. progress {} st st' \<and>
        state_bit st' ?infra CLASS_STATE_INITIALIZE_DONE \<and>
        (initialized st' ?infra \<or> state_bit st ?infra CLASS_STATE_INITIALIZE_DONE))"
      by (rule u_holds_mono [OF first [OF changed [OF \<open>?changed\<close>]]]) (simp add: initialized_def)
  next
    have "state_bit ?st i CLASS_STATE_INITIALIZE_DONE \<longleftrightarrow> state_bit st i CLASS_STATE_INITIALIZE_DONE" for i
      by (simp add: state_bit_add c_defs)
    then show "u_holds (u_assert (state_bit ?st ?infra CLASS_STATE_INITIALIZE_DONE) (Inr ?st)) (\<lambda>st'. progress {} st st' \<and>
        state_bit st' ?infra CLASS_STATE_INITIALIZE_DONE \<and>
        (initialized st' ?infra \<or> state_bit st ?infra CLASS_STATE_INITIALIZE_DONE))"
      using again by (intro u_holds_assert) simp
  qed
  note outcome = this
  have unlock: "setup_answers env cls st (False, st3\<lparr> rt_lock := l \<rparr>)"
    if "progress {} st st3 \<and> state_bit st3 ?infra CLASS_STATE_INITIALIZE_DONE \<and>
      (initialized st3 ?infra \<or> state_bit st ?infra CLASS_STATE_INITIALIZE_DONE)" for st3 l
    using that progress_after [of "{}" st st3 "st3\<lparr> rt_lock := l \<rparr>"]
    by (auto simp: setup_answers_def infraclass_for_def initialized_def caches_ready_def metaclass_of_def)
  have marks: "set_class_bit ?infra CLASS_STATE_INITIALIZING ?locked = Inr (?changed, ?st)"
    using set_class_bit_eq [of CLASS_STATE_INITIALIZING ?infra ?locked] by (simp add: c_defs)
  have "u_holds (u_bind (set_class_bit ?infra CLASS_STATE_INITIALIZING ?locked) (\<lambda>(changed, st2).
      u_bind (if changed then class_setup_first setup invoke env k ?infra st2
              else u_assert (state_bit st2 ?infra CLASS_STATE_INITIALIZE_DONE) (Inr st2)) (\<lambda>st3.
        Inr (False, st3\<lparr> rt_lock := (rt_lock st3)(?pair := False) \<rparr>)))) (setup_answers env cls st)"
    unfolding marks u_bind_simps prod.case by (rule u_holds_bind [OF outcome]) (simp add: unlock)
  then show ?thesis
    unfolding class_setup_body_def Let_def
    by (intro u_holds_assert u_holds_if) (simp_all add: setup_answers_def infraclass_for_def)
qed
section \<open>The runtime and the program\<close>

lemma runtime_contracts:
  assumes "plain_env env" and "objects_in n env"
  shows "sets_up n (mulle_objc_class_setup env k) \<and> runs n (run_implementation env k)"
proof (induction k)
  case 0
  then show ?case by (simp add: sets_up_def runs_def)
next
  case (Suc k)
  then have step: "sets_up n (mulle_objc_class_setup env k)" "runs n (run_implementation env k)" by simp_all
  have "sets_up n (mulle_objc_class_setup env (Suc k))"
    unfolding sets_up_def mulle_objc_class_setup.simps
    by (auto simp: setup_answers_def intro!: u_holds_mono [OF class_setup_body_answers [OF step assms(1)]])
  moreover have "u_holds (run_implementation env (Suc k) imp obj st) (progress {} st)"
    if h: "hierarchy_ok n (rt_world st)" for imp obj st
    unfolding run_implementation.simps
  proof (rule u_holds_each)
    fix msg s assume s: "progress {} st s"
    note hs = onward_if_needed [OF s h]
    note calls = object_call_onward [OF step(1) assms hs]
    have "onward s (case msg of
        Message receiver methodid \<Rightarrow> mulle_objc_object_call (mulle_objc_class_setup env k) env (Suc k) receiver methodid s
      | Super_message receiver methodid superid \<Rightarrow>
          mulle_objc_object_call_super (mulle_objc_class_setup env k) env (Suc k) receiver methodid superid s)"
      using calls by (simp split: message.split)
    then show "u_holds (u_bind (case msg of
        Message receiver methodid \<Rightarrow> mulle_objc_object_call (mulle_objc_class_setup env k) env (Suc k) receiver methodid s
      | Super_message receiver methodid superid \<Rightarrow>
          mulle_objc_object_call_super (mulle_objc_class_setup env k) env (Suc k) receiver methodid superid s)
      (\<lambda>(called, s1). case called of None \<Rightarrow> Inr s1 | Some imp' \<Rightarrow>
         run_implementation env k imp' (case msg of Message receiver _ \<Rightarrow> receiver | Super_message receiver _ _ \<Rightarrow> receiver) s1))
      (progress {} st)"
    proof (rule u_holds_bind, clarify)
      fix called s1 assume "progress {} s s1"
      then have s1: "progress {} st s1" by (rule progress_after [OF s])
      have "u_holds (run_implementation env k imp' receiver s1) (progress {} st)" for imp' receiver
        by (rule u_holds_mono [where P = "progress {} s1"])
          (use step(2) onward_if_needed [OF s1 h] progress_after [OF s1] in \<open>auto simp: runs_def\<close>)
      then show "u_holds (case called of None \<Rightarrow> Inr s1 | Some imp' \<Rightarrow>
         run_implementation env k imp' (case msg of Message receiver _ \<Rightarrow> receiver | Super_message receiver _ _ \<Rightarrow> receiver) s1)
        (progress {} st)"
        using s1 by (simp split: option.split)
    qed
  qed simp
  ultimately show ?case unfolding runs_def by blast
qed

text \<open>The classes of a universe that the loader built are such a hierarchy.\<close>

lemma universe_ok_hierarchy:
  assumes "universe_ok u"
  shows "hierarchy_ok (2 * u_n_pairs u) (u_world u)"
proof -
  have pair: "pair_ok u p" if "p < u_n_pairs u" for p using universe_okD(1) [OF assms that] .
  have place: "\<exists>p < u_n_pairs u. sc_classpair (u_search_class u c) = p \<and> (c = infra_of p \<or> c = meta_of p)"
    if "c < 2 * u_n_pairs u" for c
    using that by (cases rule: place_cases) (auto simp: pair_okD [OF pair])
  have closed_at: "class_closed (2 * u_n_pairs u) (u_world u) c" if "c < 2 * u_n_pairs u" for c
    using that
  proof (cases rule: place_cases)
    case (1 p)
    with pair [OF 1(1)] show ?thesis
      by (auto simp: class_closed_def pair_ok_def Let_def split: option.splits)
  next
    case (2 p)
    with pair [OF 2(1)] show ?thesis
      by (auto simp: class_closed_def pair_ok_def Let_def split: option.splits)
  qed
  have "mixin_apart (2 * u_n_pairs u) (u_world u) m"
    if c: "c < 2 * u_n_pairs u" and m: "m \<in> set (pair_mixins (u_search_pair u (sc_classpair (u_search_class u c))))" for c m
  proof -
    obtain p where p: "p < u_n_pairs u" "sc_classpair (u_search_class u c) = p" using place [OF c] by blast
    have reg: "registered u m" "sc_state (u_search_class u m) AND CLASS_STATE_IS_MIXIN \<noteq> 0"
      using pair [OF p(1)] m p(2) by (auto simp: pair_ok_def Let_def)
    obtain q where q: "q < u_n_pairs u" "m = infra_of q" using universe_okD(4) [OF assms reg(1)] by blast
    have "let infra = pair_infraclass (u_search_pair u (sc_classpair (u_search_class u d))) in
        pair_metaclass (u_search_pair u (sc_classpair (u_search_class u infra))) =
          pair_metaclass (u_search_pair u (sc_classpair (u_search_class u m))) \<longrightarrow> infra = m"
      if d: "d < 2 * u_n_pairs u" for d
    proof -
      obtain r where "r < u_n_pairs u" "sc_classpair (u_search_class u d) = r" using place [OF d] by blast
      then show ?thesis using q by (simp add: pair_okD [OF pair] Let_def)
    qed
    then show ?thesis using reg(2) q by (simp add: mixin_apart_def)
  qed
  then show ?thesis using closed_at by (simp add: hierarchy_ok_def)
qed

text \<open>All objects are of classes of the universe.\<close>

abbreviation objects_of :: "'imp universe \<Rightarrow> 'imp runtime_env \<Rightarrow> bool" where
  "objects_of u env \<equiv> objects_in (2 * u_n_pairs u) env"



end
