(* ===== verification/Class_Search_Previous.thy ===== *)
theory Class_Search_Previous
  imports Class_Lookup
begin

text \<open>
  The search for the method previous to another (\<open>MULLE_OBJC_SEARCH_PREVIOUS_METHOD\<close> of
  \<open>mulle-objc-class-search.c\<close>): it goes on behind the method it is given only if that one is the first
  in the order of the search.
\<close>

section \<open>The pass in previous mode\<close>

primrec hits :: "'imp search_world \<Rightarrow> uint32 \<Rightarrow> (nat \<times> nat) list \<Rightarrow> (nat \<times> method_ptr) list" where
  "hits w methodid [] = []"
| "hits w methodid (l # ls) = (case method_in w methodid l of None \<Rightarrow> hits w methodid ls | Some x \<Rightarrow> x # hits w methodid ls)"

lemma hits_append [simp]: "hits w u (ls @ ls') = hits w u ls @ hits w u ls'"
  by (induction ls) (auto split: option.split)

definition first_of :: "'a list \<Rightarrow> 'a option" where
  "first_of xs = (case xs of [] \<Rightarrow> None | x # _ \<Rightarrow> Some x)"

lemma first_of_simps [simp]: "first_of [] = None" "first_of (x # xs) = Some x"
  by (simp_all add: first_of_def)

lemma first_some_hits: "first_some (method_in w u) ls = first_of (hits w u ls)"
  by (induction ls) (auto split: option.split)

text \<open>What a pass over some lists comes to: the flow it has, and the state it leaves.\<close>

definition previous_pass ::
    "method_ptr option \<Rightarrow> (nat \<times> method_ptr) list \<Rightarrow> ('imp, 'u) search_state \<Rightarrow>
     (nat \<times> method_ptr) option \<times> ('imp, 'u) search_state" where
  "previous_pass anchor found s = (case found of
     [] \<Rightarrow> (None, s)
   | (c, p) # rest \<Rightarrow>
       if anchor = Some p then (first_of rest, set_mode search_previous_method_2 s) else (Some (c, p), s))"

lemma previous_modes [simp]:
  "finding_mode search_previous_method_2" "search_previous_method_2 \<noteq> search_overridden_method_3"
  "search_previous_method_2 \<noteq> MULLE_OBJC_SEARCH_PREVIOUS_METHOD" "MULLE_OBJC_SEARCH_PREVIOUS_METHOD \<noteq> search_previous_method_2"
  by (simp_all add: finding_mode_def c_defs)

definition looking_back ::
    "('imp, 'u) mulle_objc_searcharguments \<Rightarrow> 'imp search_world \<Rightarrow> uint32 \<Rightarrow> method_ptr option \<Rightarrow> bool" where
  "looking_back search w u anchor \<longleftrightarrow> search_callback search = None \<and> searchable_world w (search_stop_classid search) \<and>
     args_methodid (search_args search) = u \<and> search_previous_method search = anchor"

lemma looking_backD:
  assumes "looking_back search w u anchor"
  shows "search_callback search = None" "searchable_world w (search_stop_classid search)"
    "args_methodid (search_args search) = u" "search_previous_method search = anchor"
  using assms by (simp_all add: looking_back_def)

lemma pass_behind:
  assumes lb: "looking_back search w u anchor" and st: "st_world s = w" and md: "st_mode s = search_previous_method_2"
  shows "run_visits search vs s = run_return (outcome_of (first_of (hits w u (lists_of_visits w vs))) s)"
    and "inh AND DONT_INHERIT_CLASS \<noteq> 0 \<Longrightarrow> i + length ls = n \<Longrightarrow>
      search_methodlists search cls n ls i inh Method_Fail s =
      run_return (flow_of inh (first_of (hits w u (map (Pair cls) (butlast ls)))) s)"
    and "inh AND DONT_INHERIT_CLASS = 0 \<Longrightarrow>
      search_methodlists search cls n ls i inh Method_Fail s =
      run_return (flow_of inh (first_of (hits w u (map (Pair cls) ls))) s)"
  using run_visits_finds [OF looking_backD(1,2) [OF lb] st, of vs]
    methodlists_find [OF looking_backD(1,2) [OF lb] st, of inh i ls n cls] md
  by (simp_all add: hit_eq_method_in looking_backD(3) [OF lb] first_some_hits)

lemma methodlists_previous:
  assumes lb: "looking_back search w u anchor" and st: "st_world s = w" and md: "st_mode s = MULLE_OBJC_SEARCH_PREVIOUS_METHOD"
    and lim: "inh AND DONT_INHERIT_CLASS \<noteq> 0 \<Longrightarrow> i + length ls = n"
  shows "search_methodlists search cls n ls i inh Method_Fail s =
    (let (r, s') = previous_pass anchor (hits w u (map (Pair cls)
       (if inh AND DONT_INHERIT_CLASS \<noteq> 0 then butlast ls else ls))) s
     in run_return (flow_of inh r s'))"
  using lim
proof (induction ls arbitrary: i)
  case (Cons l ls)
  let ?s = "set_mode search_previous_method_2 s"
  show ?case
  proof (cases "inh AND DONT_INHERIT_CLASS \<noteq> 0 \<and> ls = []")
    case True
    with Cons.prems show ?thesis by (simp add: flow_of_def previous_pass_def)
  next
    case False
    then have go: "\<not> (inh AND DONT_INHERIT_CLASS \<noteq> 0 \<and> Suc i = n)" using Cons.prems by auto
    have modes: "st_mode s \<noteq> MULLE_OBJC_SEARCH_IMP" "st_mode s \<noteq> search_overridden_method_2"
      "st_mode s \<noteq> search_specific_method_2" "st_mode s \<noteq> search_specific_method_3" "st_mode s \<noteq> search_overridden_method_3"
      using md by (simp_all add: c_defs)
    have one: "search_one_methodlist search cls inh Method_Fail l s =
        (case method_in w u (cls, l) of
           None \<Rightarrow> run_return (Proceed inh Method_Fail, s)
         | Some (c, p) \<Rightarrow> if anchor = Some p then run_return (Proceed inh Method_Fail, ?s)
                         else run_return (flow_of inh (Some (c, p)) s))"
      using modes md
      by (auto simp: search_one_methodlist_def search_methodlist_id [OF looking_backD(2) [OF lb] st] looking_backD(3,4) [OF lb] flow_of_def method_in_def
          search_found_plain [OF looking_backD(1,2) [OF lb] st] st dest: methodlist_find_range split: option.split)
    have rest: "search_methodlists search cls n ls j inh Method_Fail ?s =
        run_return (flow_of inh (first_of (hits w u (map (Pair cls) (if inh AND DONT_INHERIT_CLASS \<noteq> 0 then butlast ls else ls)))) ?s)"
      if "inh AND DONT_INHERIT_CLASS \<noteq> 0 \<Longrightarrow> j + length ls = n" for j
      using pass_behind(2) [OF lb, of ?s inh j ls n cls] pass_behind(3) [OF lb, of ?s inh cls n ls j] st that by simp
    show ?thesis
      using False go Cons rest
      by (auto simp: one Let_def previous_pass_def flow_of_def case_prod_unfold split: option.split)
  qed
qed (simp add: flow_of_def previous_pass_def)

lemma own_previous:
  assumes lb: "looking_back search w u anchor" and st: "st_world s = w" and md: "st_mode s = MULLE_OBJC_SEARCH_PREVIOUS_METHOD"
  shows "search_own_methodlists search cls inh s =
    (let (r, s') = previous_pass anchor (hits w u (map (Pair cls) (visit_lists w (cls, inh)))) s
     in run_return (flow_of inh r s'))"
proof -
  let ?ls = "sc_methodlists (w_class w cls)"
  let ?n = "if inh AND DONT_INHERIT_CATEGORIES \<noteq> 0 then 1 else length ?ls"
  have ne: "?ls \<noteq> []" "sc_classid (w_class w cls) \<noteq> search_stop_classid search"
    using looking_backD(2) [OF lb] by (auto simp: searchable_world_def)
  then have len: "length (rev (take ?n ?ls)) = ?n" by (cases ?ls) auto
  have lists: "visit_lists w (cls, inh) =
      (if inh AND DONT_INHERIT_CLASS \<noteq> 0 then butlast (rev (take ?n ?ls)) else rev (take ?n ?ls))"
    by (simp add: visit_lists_def Let_def)
  have modes: "MULLE_OBJC_SEARCH_PREVIOUS_METHOD \<noteq> MULLE_OBJC_SEARCH_SUPER_METHOD"
    "MULLE_OBJC_SEARCH_PREVIOUS_METHOD \<noteq> MULLE_OBJC_SEARCH_OVERRIDDEN_METHOD"
    "MULLE_OBJC_SEARCH_PREVIOUS_METHOD \<noteq> MULLE_OBJC_SEARCH_SPECIFIC_METHOD"
    "MULLE_OBJC_SEARCH_PREVIOUS_METHOD \<noteq> search_overridden_method_2" "MULLE_OBJC_SEARCH_PREVIOUS_METHOD \<noteq> search_specific_method_2"
    "search_previous_method_2 \<noteq> search_overridden_method_2" "search_previous_method_2 \<noteq> search_specific_method_2"
    by (simp_all add: c_defs)
  have "search_methodlists search cls ?n (rev (take ?n ?ls)) 0 inh Method_Fail s =
    (let (r, s') = previous_pass anchor (hits w u (map (Pair cls) (visit_lists w (cls, inh)))) s
     in run_return (flow_of inh r s'))"
    unfolding lists using methodlists_previous [OF lb st md, of inh 0 "rev (take ?n ?ls)" ?n cls] len by (simp del: take_all)
  with ne modes st md show ?thesis
    by (auto simp: search_own_methodlists_def Let_def flow_of_def previous_pass_def case_prod_unfold split: option.split list.split)
qed

lemma run_visits_previous:
  assumes lb: "looking_back search w u anchor" and st: "st_world s = w" and md: "st_mode s = MULLE_OBJC_SEARCH_PREVIOUS_METHOD"
  shows "run_visits search vs s =
    (let (r, s') = previous_pass anchor (hits w u (lists_of_visits w vs)) s in run_return (outcome_of r s'))"
proof (induction vs)
  case (Cons v vs)
  have lists: "lists_of_visits w (v # vs) = map (Pair (fst v)) (visit_lists w v) @ lists_of_visits w vs"
    by (simp add: lists_of_visits_def)
  have behind: "run_visits search vs (set_mode search_previous_method_2 s) =
      run_return (outcome_of (first_of (hits w u (lists_of_visits w vs))) (set_mode search_previous_method_2 s))"
    using pass_behind(1) [OF lb, of "set_mode search_previous_method_2 s" vs] st by simp
  show ?case
    unfolding run_visits.simps own_previous [OF lb st md] lists
    using Cons.IH behind
    by (cases "hits w u (map (Pair (fst v)) (visit_lists w v))")
      (auto simp: previous_pass_def flow_of_def outcome_of_def first_of_def Let_def split: list.split)
qed (simp add: lists_of_visits_def outcome_of_def previous_pass_def)

section \<open>Searches\<close>

text \<open>A world in which searches from a class end, and nothing but the search happens.\<close>

definition search_setting :: "'imp search_env \<Rightarrow> nat \<Rightarrow> 'imp search_world \<Rightarrow> nat \<Rightarrow> uint32 \<Rightarrow> bool" where
  "search_setting env depth w cls u \<longleftrightarrow> searchable_world w 0 \<and> (\<exists>r. ranked w r \<and> r cls + 2 \<le> depth) \<and>
     env_thread_registered env cls \<and>
     (mulle_objc_class_is_initializing_or_initialized w cls \<or> (\<forall>v. env_setup env cls v = v)) \<and>
     u \<noteq> MULLE_OBJC_NO_UNIQUEID \<and> u \<noteq> MULLE_OBJC_INVALID_UNIQUEID \<and> (\<forall>w. env_method_is_missing env w cls u = (True, w))"

lemma search_setting_setup: "search_setting env depth w cls u \<Longrightarrow> search_setup env cls search w = w"
  by (auto simp: search_setting_def search_setup_def Let_def)

text \<open>The methods with an id in the order of a search.\<close>

definition methods_in_order :: "nat \<Rightarrow> 'imp search_world \<Rightarrow> nat \<Rightarrow> uint32 \<Rightarrow> uint32 \<Rightarrow> (nat \<times> method_ptr) list" where
  "methods_in_order depth w cls inheritance u = hits w u (lists_of_visits w (class_visits depth w cls inheritance))"

abbreviation previous_args :: "'imp search_world \<Rightarrow> method_ptr \<Rightarrow> ('imp, 'u) mulle_objc_searcharguments" where
  "previous_args \<equiv> mulle_objc_searcharguments_make_previous"

abbreviation error_start :: "'imp search_world \<Rightarrow> ('imp, unit) search_state" where
  "error_start w \<equiv> set_error ENOENT (search_start w)"

lemma retry_declined:
  assumes "mulle_objc_class_search_method_internal depth search cls inh s = run_return (outcome_of r s1)"
    and "st_mode s1 \<noteq> MULLE_OBJC_SEARCH_SUPER_METHOD" "st_mode s1 \<noteq> MULLE_OBJC_SEARCH_OVERRIDDEN_METHOD"
    and "result_error (st_result s1) = Some ENOENT"
    and "\<forall>w. env_method_is_missing env w cls (args_methodid (search_args search)) = (True, w)"
  shows "search_method_retry env depth (Suc rounds) search cls inh s =
    (if st_mode s1 = MULLE_OBJC_SEARCH_PREVIOUS_METHOD then run_return (None, set_error EINVAL (snd (outcome_of r s1)))
     else run_return (map_option snd r, snd (outcome_of r s1)))"
  using assms by (auto simp: outcome_of_def split: option.split)

lemma default_in_inheritance:
  assumes "search_setting env depth w cls u"
  shows "mulle_objc_class_search_method env depth (Suc rounds) (Some cls)
      (Some (mulle_objc_searcharguments_make_default u)) inh (search_start w) =
    (let r = first_of (methods_in_order depth w cls inh u)
     in run_return (map_option snd r, snd (outcome_of r (error_start w))))"
proof -
  obtain r where r: "ranked w r" "r cls + 2 \<le> depth" using assms by (auto simp: search_setting_def)
  let ?search = "mulle_objc_searcharguments_make_default u :: ('a, unit) mulle_objc_searcharguments"
  have args: "search_callback ?search = None" "search_stop_classid ?search = 0" "args_mode (search_args ?search) = 0"
    "args_methodid (search_args ?search) = u" "search_previous_method ?search = None"
    by (simp_all add: mulle_objc_searcharguments_make_default_def c_defs)
  have ok: "mulle_objc_searcharguments_assert ?search"
    using assms by (simp add: mulle_objc_searcharguments_assert_def mulle_objc_searchargumentscacheable_assert_def
        args search_setting_def c_defs)
  have mode: "st_mode (error_start w) = 0" "st_world (error_start w) = w" by simp_all
  have "hit ?search 0 w = method_in w u" using hit_eq_method_in [of 0 ?search w] args by (simp add: c_defs)
  then have internal: "mulle_objc_class_search_method_internal depth ?search cls inh (error_start w) =
      run_return (outcome_of (first_of (methods_in_order depth w cls inh u)) (error_start w))"
    using internal_finds [of ?search w r cls depth "error_start w" inh] assms r args mode
    by (simp add: finding_mode_def c_defs search_setting_def methods_in_order_def first_some_hits)
  have "mulle_objc_class_search_method env depth (Suc rounds) (Some cls) (Some ?search) inh (search_start w) =
      search_method_retry env depth (Suc rounds) ?search cls inh (error_start w)"
    using assms ok by (simp add: mulle_objc_class_search_method_def args search_setting_setup [OF assms])
      (simp add: search_setting_def search_start_def c_defs)
  then show ?thesis
    using retry_declined [OF internal, of env rounds] assms mode args
    by (simp add: search_setting_def c_defs Let_def)
qed

lemma previous_in_inheritance:
  assumes "search_setting env depth w cls (method_methodid (world_method w anchor))"
  shows "mulle_objc_class_search_method env depth (Suc rounds) (Some cls) (Some (previous_args w anchor)) inh (search_start w) =
    (case methods_in_order depth w cls inh (method_methodid (world_method w anchor)) of
       [] \<Rightarrow> run_return (None, set_error EINVAL (set_mode MULLE_OBJC_SEARCH_PREVIOUS_METHOD (error_start w)))
     | (c, p) # rest \<Rightarrow>
         if p = anchor
         then run_return (map_option snd (first_of rest),
                snd (outcome_of (first_of rest) (set_mode search_previous_method_2 (error_start w))))
         else run_return (None, set_error EINVAL (found_state c p (set_mode MULLE_OBJC_SEARCH_PREVIOUS_METHOD (error_start w)))))"
proof -
  let ?u = "method_methodid (world_method w anchor)"
  let ?search = "previous_args w anchor :: ('a, unit) mulle_objc_searcharguments"
  let ?s = "set_mode MULLE_OBJC_SEARCH_PREVIOUS_METHOD (error_start w)"
  obtain r where r: "ranked w r" "r cls + 2 \<le> depth" using assms by (auto simp: search_setting_def)
  have args: "search_callback ?search = None" "search_stop_classid ?search = 0"
    "args_mode (search_args ?search) = MULLE_OBJC_SEARCH_PREVIOUS_METHOD"
    "args_methodid (search_args ?search) = ?u" "search_previous_method ?search = Some anchor" "search_initialize ?search"
    by (simp_all add: mulle_objc_searcharguments_make_previous_def searcharguments_make_def)
  have ok: "mulle_objc_searcharguments_assert ?search"
    using assms by (simp add: mulle_objc_searcharguments_assert_def mulle_objc_searchargumentscacheable_assert_def
        args search_setting_def c_defs)
  have lb: "looking_back ?search w ?u (Some anchor)" using assms by (simp add: looking_back_def args search_setting_def)
  have plain: "plain_state w ?s" by (simp add: plain_state_def c_defs)
  have pass: "mulle_objc_class_search_method_internal depth ?search cls inh ?s =
      (let (r, s') = previous_pass (Some anchor) (methods_in_order depth w cls inh ?u) ?s in run_return (outcome_of r s'))"
    using agreesD [OF internal_agrees [OF looking_backD(1,2) [OF lb] r] plain]
      run_visits_previous [OF lb, of ?s "class_visits depth w cls inh"]
    by (simp add: methods_in_order_def)
  have start: "mulle_objc_class_search_method env depth (Suc rounds) (Some cls) (Some ?search) inh (search_start w) =
      search_method_retry env depth (Suc rounds) ?search cls inh ?s"
    using assms ok by (simp add: mulle_objc_class_search_method_def args search_setting_setup [OF assms])
      (simp add: search_setting_def search_start_def set_error_def c_defs)
  have declines: "\<forall>w. env_method_is_missing env w cls (args_methodid (search_args ?search)) = (True, w)"
    using assms by (simp add: args search_setting_def)
  have round: "search_method_retry env depth (Suc rounds) ?search cls inh ?s =
      (if st_mode t = MULLE_OBJC_SEARCH_PREVIOUS_METHOD then run_return (None, set_error EINVAL (snd (outcome_of r t)))
       else run_return (map_option snd r, snd (outcome_of r t)))"
    if "previous_pass (Some anchor) (methods_in_order depth w cls inh ?u) ?s = (r, t)"
      and "st_mode t \<in> {MULLE_OBJC_SEARCH_PREVIOUS_METHOD, search_previous_method_2}" and "result_error (st_result t) = Some ENOENT"
    for r and t :: "('a, unit) search_state"
    by (rule retry_declined [OF _ _ _ that(3) declines]) (use pass that(1,2) in \<open>auto simp: c_defs\<close>)
  show ?thesis
  proof (cases "methods_in_order depth w cls inh ?u")
    case Nil
    then show ?thesis unfolding start using round [of None ?s] by (simp add: previous_pass_def outcome_of_def)
  next
    case (Cons x rest)
    obtain c p where x: "x = (c, p)" by (cases x)
    show ?thesis
    proof (cases "p = anchor")
      case True
      then show ?thesis unfolding start using Cons x
          round [of "first_of rest" "set_mode search_previous_method_2 (error_start w)"]
        by (simp add: previous_pass_def)
    next
      case False
      then show ?thesis unfolding start using Cons x round [of "Some (c, p)" ?s]
        by (simp add: previous_pass_def outcome_of_def)
    qed
  qed
qed

text \<open>C22: The search for the method previous to another one finds the method behind it only if that one is
  itself the first with its id in the order of the search. Behind any other it fails with EINVAL, as if
  the method it is given were not there: the search does not skip what comes before it.\<close>

theorem previous_search_needs_the_first:
  assumes "search_setting env depth w cls (method_methodid (world_method w anchor))"
  shows "search_view (mulle_objc_class_search_method env depth (Suc rounds) (Some cls)
      (Some (mulle_objc_searcharguments_make_previous w anchor)) inh (search_start w)) =
    run_return (case methods_in_order depth w cls inh (method_methodid (world_method w anchor)) of
       [] \<Rightarrow> (None, Some EINVAL)
     | (c, p) # rest \<Rightarrow>
         if p = anchor then (map_option snd (first_of rest), Some ENOENT) else (None, Some EINVAL))"
  unfolding previous_in_inheritance [OF assms] search_view_def
  by (auto simp: outcome_of_def split: list.split option.split)

text \<open>The category of the class 1 has the first method with the id 5, the class itself the second.\<close>

theorem previous_search_needs_the_first_witness:
  "search_view (mulle_objc_class_search_method example_env 3 1 (Some 1)
      (Some (mulle_objc_searcharguments_make_previous example_world (2, 0))) 0 (search_start example_world)) =
      run_return (Some (1, 0), Some ENOENT) \<and>
   search_view (mulle_objc_class_search_method example_env 3 1 (Some 1)
      (Some (mulle_objc_searcharguments_make_previous example_world (1, 0))) 0 (search_start example_world)) =
      run_return (None, Some EINVAL)"
proof -
  have id: "method_methodid (world_method example_world (l, 0)) = 5" if "l < 3" for l
    using that by (simp add: example_defs world_method_def)
  have "search_setting example_env 3 example_world 1 5"
    unfolding search_setting_def using example_searchable example_ranked example_ready [of 5]
    by (auto simp: search_ready_def example_rank_def example_env_def intro!: exI [of _ example_rank])
  moreover have "methods_in_order 3 example_world 1 0 5 = [(1, 2, 0), (1, 1, 0), (0, 0, 0)]"
    unfolding methods_in_order_def example_visits example_lists by (simp add: example_method_in)
  ultimately show ?thesis
    using previous_search_needs_the_first [of example_env 3 example_world 1 "(2, 0)" 0 0]
      previous_search_needs_the_first [of example_env 3 example_world 1 "(1, 0)" 0 0]
    by (simp add: id)
qed

end
