(* ===== verification/Class_Setup_Returns.thy ===== *)
theory Class_Setup_Returns
  imports Class_Initialize_Correct Class_Search_Previous
begin

text \<open>
  Class setup comes to an end and succeeds (\<open>mulle-objc-class-initialize.c\<close>), when the
  implementations that it runs send no messages, however superclasses and mixins refer to each other;
  and which of the implementations of \<open>+initializeSelf\<close> it runs.
\<close>

section \<open>Success\<close>

definition succeeds :: "'a guarded \<Rightarrow> ('a \<Rightarrow> bool) \<Rightarrow> bool" where
  "succeeds m Q \<longleftrightarrow> (\<exists>x. m = Inr x \<and> Q x)"

lemma succeeds_simps [simp]: "succeeds (Inr x) Q = Q x" "\<not> succeeds (Inl e) Q"
  by (simp_all add: succeeds_def)

lemma succeeds_bind: "succeeds m P \<Longrightarrow> (\<And>x. P x \<Longrightarrow> succeeds (f x) Q) \<Longrightarrow> succeeds (u_bind m f) Q"
  by (auto simp: succeeds_def)

lemma succeeds_assert: "b \<Longrightarrow> succeeds m Q \<Longrightarrow> succeeds (u_assert b m) Q"
  by simp

lemma succeeds_mono: "succeeds m P \<Longrightarrow> (\<And>x. P x \<Longrightarrow> Q x) \<Longrightarrow> succeeds m Q"
  by (auto simp: succeeds_def)

lemma succeeds_each:
  assumes "\<And>x t. x \<in> set xs \<Longrightarrow> Q t \<Longrightarrow> succeeds (f x t) Q"
  shows "Q s \<Longrightarrow> succeeds (u_each f xs s) Q"
  using assms
proof (induction xs arbitrary: s)
  case (Cons x xs)
  show ?case
    unfolding u_each.simps
    by (rule succeeds_bind [where P = Q]) (use Cons in auto)
qed simp

section \<open>Calling all of the implementations\<close>

lemma methods_in_order_same:
  assumes "same_methods w w'"
  shows "methods_in_order depth w cls inh u = methods_in_order depth w' cls inh u"
proof -
  have "hits w u ls = hits w' u ls" for ls
    by (induction ls) (auto simp: method_in_same_methods [OF assms] split: option.split)
  then show ?thesis
    by (simp add: methods_in_order_def visits_same_methods [OF assms] lists_same_methods [OF assms])
qed

lemma hits_range: "(c, p) \<in> set (hits w u ls) \<Longrightarrow>
    snd p < length (ml_methods (w_list w (fst p))) \<and> method_methodid (world_method w p) = u"
proof (induction ls)
  case (Cons l ls)
  have "snd p < length (ml_methods (w_list w (fst p))) \<and> method_methodid (world_method w p) = u"
    if "method_in w u l = Some (c, p)"
    by (rule first_method_range [of w u "[l]" c p]) (use that in simp)
  then show ?case using Cons by (auto split: option.splits)
qed simp

lemma search_setting_same:
  assumes "same_methods w w'" and "search_setting env depth w cls u"
  shows "search_setting env depth w' cls u"
proof -
  have "w_class w = w_class w'" using assms(1) by (simp add: same_methods_def)
  then show ?thesis
    using assms(2) searchable_same_methods [OF assms(1)] ranked_same_methods [OF assms(1)]
    unfolding search_setting_def mulle_objc_class_is_initializing_or_initialized_def by auto
qed

lemma outcome_same_methods: "same_methods (st_world s) (st_world (snd (outcome_of r s)))"
  by (auto simp: outcome_of_def same_methods_mark split: option.split)

text \<open>The two searches that the runtime makes for class initialization, on its state.\<close>

lemma search_in_class_default:
  assumes "search_setting (re_search env) (re_depth env) (rt_world st) cls u" and "0 < re_rounds env"
  shows "\<exists>w. search_in_class env cls (mulle_objc_searcharguments_make_default u) inh st =
      Inr (map_option snd (first_of (methods_in_order (re_depth env) (rt_world st) cls inh u)), set_world w st) \<and>
    same_methods (rt_world st) w"
proof -
  obtain r where r: "re_rounds env = Suc r" using assms(2) by (cases "re_rounds env") auto
  show ?thesis
    using default_in_inheritance [OF assms(1), of r inh] outcome_same_methods [of "error_start (rt_world st)"]
    by (auto simp: search_in_class_def r Let_def)
qed

lemma search_in_class_previous:
  assumes "search_setting (re_search env) (re_depth env) (rt_world st) cls (method_methodid (world_method (rt_world st) anchor))"
    and "0 < re_rounds env"
  shows "\<exists>w. search_in_class env cls (previous_args (rt_world st) anchor) inh st =
      Inr (case methods_in_order (re_depth env) (rt_world st) cls inh (method_methodid (world_method (rt_world st) anchor)) of
             [] \<Rightarrow> None | (c, p) # rest \<Rightarrow> if p = anchor then map_option snd (first_of rest) else None, set_world w st) \<and>
    same_methods (rt_world st) w"
proof -
  obtain r where r: "re_rounds env = Suc r" using assms(2) by (cases "re_rounds env") auto
  have "same_methods (rt_world st) (st_world (snd (outcome_of x (set_mode m (error_start (rt_world st))))))" for x m
    using outcome_same_methods [of "set_mode m (error_start (rt_world st))" x] by simp
  then show ?thesis
    using previous_in_inheritance [OF assms(1), of r inh]
    by (auto simp: search_in_class_def r same_methods_mark split: list.split)
qed

text \<open>
  An invoker that runs an implementation without a trace: what is left of the calls is the record,
  and what the searches mark.
\<close>

definition silent :: "'imp invoker \<Rightarrow> bool" where
  "silent invoke \<longleftrightarrow> (\<forall>imp obj s. invoke imp obj s = Inr s)"

definition only_calls :: "(uint32 \<times> nat \<times> nat \<times> 'imp) list \<Rightarrow> 'imp runtime_state \<Rightarrow> 'imp runtime_state \<Rightarrow> bool" where
  "only_calls cs st st' \<longleftrightarrow> (\<exists>w l. st' = (set_world w st)\<lparr> rt_calls := rt_calls st @ cs, rt_propertylock := l \<rparr> \<and>
     same_methods (rt_world st) w)"

lemma only_callsI:
  "same_methods (rt_world st) w \<Longrightarrow>
    only_calls cs st ((set_world w st)\<lparr> rt_calls := rt_calls st @ cs, rt_propertylock := l \<rparr>)"
  by (auto simp: only_calls_def)

lemma only_calls_trans: "only_calls cs st st' \<Longrightarrow> only_calls ds st' st'' \<Longrightarrow> only_calls (cs @ ds) st st''"
  unfolding only_calls_def set_world_def
  by (elim exE conjE, rename_tac w w' l l', rule_tac x = w' in exI, rule_tac x = l' in exI)
    (auto intro: same_methods_trans)

lemma only_calls_world: "only_calls cs st st' \<Longrightarrow> same_methods (rt_world st) (rt_world st')"
  by (auto simp: only_calls_def)

lemma only_calls_search: "same_methods (rt_world st) w \<Longrightarrow> only_calls [] st (set_world w st)"
  by (auto simp: only_calls_def set_world_def intro!: exI [of _ w] exI [of _ "rt_propertylock st"])

lemma only_calls_refl: "only_calls [] st st"
  by (auto simp: only_calls_def set_world_def intro!: exI [of _ "rt_world st"] exI [of _ "rt_propertylock st"])

lemma only_calls_lock: "only_calls [] st (init_propertylock meta st)"
  by (auto simp: only_calls_def set_world_def init_propertylock_def intro!: exI [of _ "rt_world st"])

lemma invoke_silent:
  assumes "silent invoke"
  shows "\<exists>st'. invoke_class_method invoke env u meta infra m st = Inr st' \<and>
    only_calls [(u, meta, infra, method_implementation (world_method (rt_world st) m))] st st'"
  using assms
  by (auto simp: invoke_class_method_def silent_def Let_def only_calls_def set_world_def
      intro!: exI [of _ "rt_world st"] exI [of _ "rt_propertylock st"])
text \<open>
  One round of the loop, and the three rounds it has at most: behind the second method the search
  does not find its anchor any more.
\<close>

abbreviation own_inheritance :: uint32 where
  "own_inheritance \<equiv> DONT_INHERIT_SUPERCLASS OR DONT_INHERIT_PROTOCOLS"

lemma call_all_round:
  assumes "silent invoke" and "search_in_class env meta search own_inheritance st = Inr (Some m, set_world w st)"
    and same: "same_methods (rt_world st) w" and before: "\<And>s. only_calls [] s (before s)"
    and range: "snd m < length (ml_methods (w_list (rt_world st) (fst m)))"
  shows "\<exists>st1. only_calls [(u, meta, infra, method_implementation (world_method (rt_world st) m))] st st1 \<and>
    call_all_methods invoke env (Suc k) u meta infra before search st =
      call_all_methods invoke env k u meta infra (\<lambda>s. s) (previous_args (rt_world st1) m) st1"
proof -
  let ?st = "before (set_world w st)"
  obtain st1 where st1: "invoke_class_method invoke env u meta infra m ?st = Inr st1"
      "only_calls [(u, meta, infra, method_implementation (world_method (rt_world ?st) m))] ?st st1"
    using invoke_silent [OF assms(1)] by blast
  have first: "only_calls [] st ?st" using only_calls_trans [OF only_calls_search [OF same] before] by simp
  have "method_implementation (world_method (rt_world ?st) m) = method_implementation (world_method (rt_world st) m)"
    using imp_same_methods [OF only_calls_world [OF first] range] by simp
  then have "only_calls [(u, meta, infra, method_implementation (world_method (rt_world st) m))] st st1"
    using only_calls_trans [OF first st1(2)] by simp
  then show ?thesis using assms(2) st1(1) by auto
qed

lemma call_all_stop:
  assumes "search_in_class env meta search own_inheritance st = Inr (None, set_world w st)"
    and "same_methods (rt_world st) w"
  shows "\<exists>st1. only_calls [] st st1 \<and> call_all_methods invoke env (Suc k) u meta infra before search st = Inr st1"
  using assms only_calls_search [OF assms(2)] by auto

lemma call_all_methods_two:
  assumes "silent invoke" and rounds: "0 < re_rounds env" and set: "search_setting (re_search env) (re_depth env) (rt_world st) meta u"
    and before: "\<And>s. only_calls [] s (before s)"
    and found: "methods_in_order (re_depth env) (rt_world st) meta own_inheritance u = hs" and "distinct (map snd hs)"
  shows "\<exists>st'. call_all_methods invoke env (Suc (Suc (Suc k))) u meta infra before
      (mulle_objc_searcharguments_make_default u) st = Inr st' \<and>
    only_calls (map (\<lambda>(c, p). (u, meta, infra, method_implementation (world_method (rt_world st) p))) (take 2 hs)) st st'"
proof -
  have range: "snd p < length (ml_methods (w_list (rt_world st) (fst p)))" "method_methodid (world_method (rt_world st) p) = u"
    if "(c, p) \<in> set hs" for c p
    using hits_range [of c p] that found by (auto simp: methods_in_order_def)
  have previous: "\<exists>w. search_in_class env meta (previous_args (rt_world s) p) own_inheritance s =
      Inr (case hs of [] \<Rightarrow> None | (c, q) # rest \<Rightarrow> if q = p then map_option snd (first_of rest) else None, set_world w s) \<and>
      same_methods (rt_world s) w"
    if same: "same_methods (rt_world st) (rt_world s)" and p: "(c, p) \<in> set hs" for s c p
  proof -
    have u: "method_methodid (world_method (rt_world s) p) = u"
      using methodid_same_methods [OF same range(1) [OF p]] range(2) [OF p] by simp
    show ?thesis
      using search_in_class_previous [of env s meta p own_inheritance] search_setting_same [OF same set] rounds
        methods_in_order_same [OF same] found by (simp add: u)
  qed
  obtain w where start: "search_in_class env meta (mulle_objc_searcharguments_make_default u) own_inheritance st =
      Inr (map_option snd (first_of hs), set_world w st)" "same_methods (rt_world st) w"
    using search_in_class_default [OF set rounds] found by blast
  show ?thesis
  proof (cases hs)
    case Nil
    then show ?thesis using call_all_stop [OF _ start(2)] start(1) by simp
  next
    case (Cons x rest)
    obtain c p where x: "x = (c, p)" by (cases x)
    let ?call = "\<lambda>p. (u, meta, infra, method_implementation (world_method (rt_world st) p))"
    obtain st1 where st1: "only_calls [?call p] st st1"
        "call_all_methods invoke env (Suc (Suc (Suc k))) u meta infra before (mulle_objc_searcharguments_make_default u) st =
         call_all_methods invoke env (Suc (Suc k)) u meta infra (\<lambda>s. s) (previous_args (rt_world st1) p) st1"
      using call_all_round [OF assms(1) _ start(2) before range(1)] start(1) Cons x by fastforce
    note same1 = only_calls_world [OF st1(1)]
    obtain w1 where w1: "search_in_class env meta (previous_args (rt_world st1) p) own_inheritance st1 =
        Inr (map_option snd (first_of rest), set_world w1 st1)" "same_methods (rt_world st1) w1"
      using previous [OF same1, of c p] Cons x by auto
    show ?thesis
    proof (cases rest)
      case Nil
      then obtain st2 where "only_calls [] st1 st2"
          "call_all_methods invoke env (Suc (Suc k)) u meta infra (\<lambda>s. s) (previous_args (rt_world st1) p) st1 = Inr st2"
        using call_all_stop [OF _ w1(2)] w1(1) by fastforce
      then show ?thesis using st1 only_calls_trans [OF st1(1)] Cons x Nil by fastforce
    next
      case (Cons y more)
      obtain d q where y: "y = (d, q)" by (cases y)
      have q: "(d, q) \<in> set hs" "q \<noteq> p" using \<open>hs = x # rest\<close> x y Cons \<open>distinct (map snd hs)\<close> by auto
      have range1: "snd q < length (ml_methods (w_list (rt_world st1) (fst q)))"
        using range(1) [OF q(1)] same1 by (metis length_map same_methods_def)
      obtain st2 where st2: "only_calls [(u, meta, infra, method_implementation (world_method (rt_world st1) q))] st1 st2"
          "call_all_methods invoke env (Suc (Suc k)) u meta infra (\<lambda>s. s) (previous_args (rt_world st1) p) st1 =
           call_all_methods invoke env (Suc k) u meta infra (\<lambda>s. s) (previous_args (rt_world st2) q) st2"
        using call_all_round [OF assms(1) _ w1(2) only_calls_refl range1] w1(1) Cons y by fastforce
      have "only_calls [?call p, ?call q] st st2"
        using only_calls_trans [OF st1(1) st2(1)] imp_same_methods [OF same1 range(1) [OF q(1)]] by simp
      note calls = this
      obtain w2 where "search_in_class env meta (previous_args (rt_world st2) q) own_inheritance st2 = Inr (None, set_world w2 st2)"
          "same_methods (rt_world st2) w2"
        using previous [OF only_calls_world [OF calls] q(1)] q(2) \<open>hs = x # rest\<close> x by auto
      then obtain st3 where "only_calls [] st2 st3"
          "call_all_methods invoke env (Suc k) u meta infra (\<lambda>s. s) (previous_args (rt_world st2) q) st2 = Inr st3"
        using call_all_stop by blast
      then show ?thesis
        using st1(2) st2(2) only_calls_trans [OF calls] \<open>hs = x # rest\<close> x y Cons by fastforce
    qed
  qed
qed
lemma own_methods_in_order:
  assumes "0 < depth"
  shows "methods_in_order depth w cls own_inheritance u = hits w u (map (Pair cls) (rev (sc_methodlists (w_class w cls))))"
proof -
  obtain d where d: "depth = Suc d" using assms by (cases depth) auto
  have leaf: "leaf_bits own_inheritance" by (simp add: leaf_bits_def c_defs)
  show ?thesis
    unfolding methods_in_order_def d class_visits_leaf [OF leaf]
    by (simp add: lists_of_visits_def visit_lists_def c_defs)
qed

lemma distinct_hits:
  assumes "distinct ls"
  shows "distinct (map snd (hits w u (map (Pair cls) ls)))"
proof -
  have "fst p \<in> set ls" if "(c, p) \<in> set (hits w u (map (Pair cls) ls))" for c p ls
    using that by (induction ls) (auto simp: method_in_def split: option.splits)
  then show ?thesis
    using assms by (induction ls) (fastforce simp: method_in_def split: option.splits)+
qed

lemma search_setting_depth: "search_setting env depth w cls u \<Longrightarrow> 0 < depth"
  by (auto simp: search_setting_def)

text \<open>C13: When a class is initialized at most two implementations of +initializeSelf run, though the class
  and each of its categories may have one: the two that come first in the order of the search, the last
  category first. The implementation of the class itself is left out when two categories have one.\<close>

theorem initialize_self_runs_only_two:
  assumes "silent invoke" and "0 < re_rounds env" and "\<not> state_bit st infra CLASS_STATE_IS_MIXIN"
    and "search_setting (re_search env) (re_depth env) (rt_world st) (metaclass_of st infra) MULLE_OBJC_INITIALIZESELF_METHODID"
    and "distinct (sc_methodlists (class_at st (metaclass_of st infra)))"
  shows "\<exists>st'. mulle_objc_infraclass_call_initialize_self invoke env (Suc (Suc (Suc k))) infra st = Inr st' \<and>
    rt_calls st' = rt_calls st @ map (\<lambda>(c, p). (MULLE_OBJC_INITIALIZESELF_METHODID, metaclass_of st infra, infra,
        method_implementation (world_method (rt_world st) p)))
      (take 2 (hits (rt_world st) MULLE_OBJC_INITIALIZESELF_METHODID
        (map (Pair (metaclass_of st infra)) (rev (sc_methodlists (class_at st (metaclass_of st infra)))))))"
proof -
  let ?meta = "metaclass_of st infra"
  let ?hits = "hits (rt_world st) MULLE_OBJC_INITIALIZESELF_METHODID (map (Pair ?meta) (rev (sc_methodlists (class_at st ?meta))))"
  have "distinct (map snd ?hits)" using assms(5) by (intro distinct_hits) simp
  from call_all_methods_two [OF assms(1,2,4) only_calls_lock own_methods_in_order [OF search_setting_depth [OF assms(4)]] this]
  show ?thesis using assms(3) by (fastforce simp: mulle_objc_infraclass_call_initialize_self_def Let_def only_calls_def)
qed

section \<open>A program that sends no messages\<close>

text \<open>What class setup leaves alone: everything but state bits and marks of methods.\<close>

definition same_program :: "'imp search_world \<Rightarrow> 'imp search_world \<Rightarrow> bool" where
  "same_program w w' \<longleftrightarrow> w_pair w' = w_pair w \<and>
     (\<forall>c. w_class w' c = (w_class w c)\<lparr> sc_state := sc_state (w_class w' c) \<rparr> \<and>
        sc_state (w_class w' c) AND CLASS_STATE_IS_MIXIN = sc_state (w_class w c) AND CLASS_STATE_IS_MIXIN) \<and>
     (\<forall>l. searchable_list (ml_methods (w_list w l)) \<longrightarrow> searchable_list (ml_methods (w_list w' l)))"

lemma same_program_refl [simp]: "same_program w w"
  by (simp add: same_program_def)

lemma same_programD:
  assumes "same_program w w'"
  shows "w_pair w' = w_pair w" "sc_superclass (w_class w' c) = sc_superclass (w_class w c)"
    "sc_infraclass (w_class w' c) = sc_infraclass (w_class w c)" "sc_classpair (w_class w' c) = sc_classpair (w_class w c)"
    "sc_methodlists (w_class w' c) = sc_methodlists (w_class w c)" "sc_classid (w_class w' c) = sc_classid (w_class w c)"
    "sc_state (w_class w' c) AND CLASS_STATE_IS_MIXIN = sc_state (w_class w c) AND CLASS_STATE_IS_MIXIN"
    "searchable_list (ml_methods (w_list w l)) \<Longrightarrow> searchable_list (ml_methods (w_list w' l))"
proof -
  have "w_class w' c = (w_class w c)\<lparr> sc_state := sc_state (w_class w' c) \<rparr>" using assms by (simp add: same_program_def)
  then show "sc_superclass (w_class w' c) = sc_superclass (w_class w c)"
    "sc_infraclass (w_class w' c) = sc_infraclass (w_class w c)" "sc_classpair (w_class w' c) = sc_classpair (w_class w c)"
    "sc_methodlists (w_class w' c) = sc_methodlists (w_class w c)" "sc_classid (w_class w' c) = sc_classid (w_class w c)"
    by (metis search_class.select_convs search_class.surjective search_class.update_convs(5))+
qed (use assms in \<open>auto simp: same_program_def\<close>)
lemma same_program_trans: "same_program w w' \<Longrightarrow> same_program w' w'' \<Longrightarrow> same_program w w''"
  unfolding same_program_def
  by (intro conjI allI impI) (simp_all, metis search_class.surjective search_class.update_convs(5))

lemma same_program_same: "same_methods w w' \<Longrightarrow> same_program w w'"
  by (auto simp: same_program_def same_methods_def searchable_list_alt)

lemma same_program_add_bits:
  assumes "b AND CLASS_STATE_IS_MIXIN = 0"
  shows "same_program (rt_world st) (rt_world (add_bits cls b st))"
proof -
  have "w_list (rt_world (add_bits cls b st)) = w_list (rt_world st)" by (simp add: add_bits_def update_search_class_def)
  then show ?thesis using assms by (simp add: same_program_def bit.conj_disj_distrib2)
qed

text \<open>The place of the classes in the heap, as the loader makes it, and classes that can be searched.\<close>

definition pair_layout :: "nat \<Rightarrow> 'imp search_world \<Rightarrow> nat \<Rightarrow> bool" where
  "pair_layout n w p \<longleftrightarrow>
     pair_infraclass (w_pair w p) = infra_of p \<and> pair_metaclass (w_pair w p) = meta_of p \<and>
     sc_classpair (w_class w (infra_of p)) = p \<and> sc_classpair (w_class w (meta_of p)) = p \<and>
     sc_infraclass (w_class w (infra_of p)) = None \<and> sc_infraclass (w_class w (meta_of p)) = Some (infra_of p) \<and>
     (case sc_superclass (w_class w (infra_of p)) of
        None \<Rightarrow> sc_superclass (w_class w (meta_of p)) = Some (infra_of p)
      | Some super \<Rightarrow> sc_state (w_class w super) AND CLASS_STATE_IS_MIXIN = 0 \<and>
          (\<exists>q < p. super = infra_of q \<and> sc_superclass (w_class w (meta_of p)) = Some (meta_of q))) \<and>
     (\<forall>m \<in> set (pair_mixins (w_pair w p)). \<exists>q < n. m = infra_of q)"

definition searchable_layout :: "nat \<Rightarrow> 'imp search_world \<Rightarrow> bool" where
  "searchable_layout n w \<longleftrightarrow> (\<forall>p < n. pair_layout n w p) \<and> ranked w (\<lambda>c. c) \<and> searchable_world w 0 \<and>
     (\<forall>c. distinct (sc_methodlists (w_class w c)))"

lemma searchable_layout_same:
  assumes same: "same_program w w'" and "searchable_layout n w"
  shows "searchable_layout n w'"
proof -
  have "pair_layout n w' p = pair_layout n w p" for p
    unfolding pair_layout_def by (simp add: same_programD [OF same] cong: option.case_cong)
  moreover have "ranked w' (\<lambda>c. c)" using assms(2) by (simp add: searchable_layout_def ranked_def same_programD [OF same])
  moreover have "searchable_world w' 0"
    using assms(2) same_programD(8) [OF same]
    by (auto simp: searchable_layout_def searchable_world_def same_programD [OF same])
  ultimately show ?thesis using assms(2) by (simp add: searchable_layout_def same_programD [OF same])
qed

lemma layoutD:
  assumes "searchable_layout n w" and "p < n"
  shows "pair_infraclass (w_pair w p) = infra_of p" "pair_metaclass (w_pair w p) = meta_of p"
    "sc_classpair (w_class w (infra_of p)) = p" "sc_classpair (w_class w (meta_of p)) = p"
    "sc_infraclass (w_class w (infra_of p)) = None" "sc_infraclass (w_class w (meta_of p)) = Some (infra_of p)"
    "m \<in> set (pair_mixins (w_pair w p)) \<Longrightarrow> \<exists>q < n. m = infra_of q"
    "sc_superclass (w_class w (infra_of p)) = Some super \<Longrightarrow>
       sc_state (w_class w super) AND CLASS_STATE_IS_MIXIN = 0 \<and> (\<exists>q < p. super = infra_of q)"
    "\<exists>super < 2 * n. sc_superclass (w_class w (meta_of p)) = Some super"
proof -
  have "pair_layout n w p" using assms by (simp add: searchable_layout_def)
  then show "pair_infraclass (w_pair w p) = infra_of p" "pair_metaclass (w_pair w p) = meta_of p"
    "sc_classpair (w_class w (infra_of p)) = p" "sc_classpair (w_class w (meta_of p)) = p"
    "sc_infraclass (w_class w (infra_of p)) = None" "sc_infraclass (w_class w (meta_of p)) = Some (infra_of p)"
    "m \<in> set (pair_mixins (w_pair w p)) \<Longrightarrow> \<exists>q < n. m = infra_of q"
    "sc_superclass (w_class w (infra_of p)) = Some super \<Longrightarrow>
       sc_state (w_class w super) AND CLASS_STATE_IS_MIXIN = 0 \<and> (\<exists>q < p. super = infra_of q)"
    "\<exists>super < 2 * n. sc_superclass (w_class w (meta_of p)) = Some super"
    using assms(2) by (auto simp: pair_layout_def split: option.splits)
qed

text \<open>
  The state of the pairs while one thread sets classes up: a class that is initializing or initialized
  is that thread's, any other is unlocked and has the cache that all new classes share.
\<close>

abbreviation busy :: "'imp runtime_state \<Rightarrow> nat \<Rightarrow> bool" where
  "busy st p \<equiv> state_bit st (infra_of p) CLASS_STATE_INITIALIZING"

definition fresh_pivot :: "'imp runtime_env \<Rightarrow> 'imp runtime_state \<Rightarrow> nat \<Rightarrow> bool" where
  "fresh_pivot env st c \<longleftrightarrow> rt_pivot st c = Some (universe_initial_impcache (re_universe env))"

definition one_thread :: "'imp runtime_env \<Rightarrow> nat \<Rightarrow> 'imp runtime_state \<Rightarrow> bool" where
  "one_thread env n st \<longleftrightarrow> (\<forall>p < n. if busy st p then rt_thread_id st p = Some (re_thread env)
     else \<not> rt_lock st p \<and> fresh_pivot env st (infra_of p) \<and> fresh_pivot env st (meta_of p))"

definition quiet_state :: "'imp runtime_env \<Rightarrow> nat \<Rightarrow> 'imp runtime_state \<Rightarrow> bool" where
  "quiet_state env n st \<longleftrightarrow> searchable_layout n (rt_world st) \<and> one_thread env n st"

definition quiet_env :: "'imp runtime_env \<Rightarrow> nat \<Rightarrow> bool" where
  "quiet_env env n \<longleftrightarrow> plain_env env \<and> (\<forall>c. env_thread_registered (re_search env) c) \<and>
     (\<forall>imp obj. re_messages env imp obj = []) \<and> 2 * n + 2 \<le> re_depth env \<and> 0 < re_rounds env"

text \<open>A step of the setup: it keeps the caches of the pairs that are busy, but for those in \<open>X\<close>.\<close>

definition moves :: "'imp runtime_env \<Rightarrow> nat \<Rightarrow> nat set \<Rightarrow> 'imp runtime_state \<Rightarrow> 'imp runtime_state \<Rightarrow> bool" where
  "moves env n X st st' \<longleftrightarrow> quiet_state env n st' \<and> same_program (rt_world st) (rt_world st') \<and>
     (\<forall>p < n. busy st p \<longrightarrow> busy st' p \<and> (p \<notin> X \<longrightarrow>
        rt_pivot st' (infra_of p) = rt_pivot st (infra_of p) \<and> rt_pivot st' (meta_of p) = rt_pivot st (meta_of p)))"

lemma moves_refl: "quiet_state env n st \<Longrightarrow> moves env n X st st"
  by (simp add: moves_def)

lemma moves_trans: "moves env n X st st' \<Longrightarrow> moves env n X st' st'' \<Longrightarrow> moves env n X st st''"
  by (auto simp: moves_def intro: same_program_trans)

lemma moves_weaken: "moves env n {} st st' \<Longrightarrow> moves env n X st st'"
  by (simp add: moves_def)

lemma moves_quiet: "moves env n X st st' \<Longrightarrow> quiet_state env n st'"
  by (simp add: moves_def)

lemma moves_then: "moves env n X st st' \<Longrightarrow> moves env n {} st' st'' \<Longrightarrow> moves env n X st st''"
  by (blast intro: moves_trans moves_weaken)

lemma only_calls_sel:
  assumes "only_calls cs st st'"
  shows "rt_pivot st' = rt_pivot st" "rt_lock st' = rt_lock st" "rt_thread_id st' = rt_thread_id st"
    "class_at st' = class_at st" "pair_at st' = pair_at st" "state_bit st' c b = state_bit st c b"
  using assms by (auto simp: only_calls_def set_world_def same_methods_def mulle_objc_class_get_state_bit_def)

lemma only_calls_moves:
  assumes "only_calls cs st st'" and "quiet_state env n st"
  shows "moves env n {} st st'"
proof -
  have same: "same_program (rt_world st) (rt_world st')" by (rule same_program_same [OF only_calls_world [OF assms(1)]])
  moreover have "one_thread env n st'"
    using assms(2) unfolding quiet_state_def one_thread_def fresh_pivot_def only_calls_sel [OF assms(1)] by blast
  ultimately show ?thesis
    using assms(2) searchable_layout_same [OF same] by (simp add: moves_def quiet_state_def only_calls_sel [OF assms(1)])
qed

text \<open>How many classes are still to be set up.\<close>

definition todo :: "nat \<Rightarrow> 'imp runtime_state \<Rightarrow> nat" where
  "todo n st = card {p. p < n \<and> \<not> busy st p}"

lemma todo_moves: "moves env n X st st' \<Longrightarrow> todo n st' \<le> todo n st"
  unfolding todo_def by (rule card_mono) (auto simp: moves_def)

lemma todo_start:
  assumes "p < n" and "\<not> busy st p" and "\<And>q. busy st' q \<longleftrightarrow> busy st q \<or> q = p"
  shows "Suc (todo n st') = todo n st"
proof -
  have "{q. q < n \<and> \<not> busy st q} = insert p {q. q < n \<and> \<not> busy st' q}" using assms by auto
  then show ?thesis using assms(3) by (simp add: todo_def)
qed
section \<open>The operations of the setup\<close>

lemma quiet_search_setting:
  assumes "quiet_env env n" and "quiet_state env n st" and "cls < 2 * n" and "u \<noteq> MULLE_OBJC_NO_UNIQUEID" "u \<noteq> MULLE_OBJC_INVALID_UNIQUEID"
  shows "search_setting (re_search env) (re_depth env) (rt_world st) cls u"
  using assms
  by (auto simp: search_setting_def quiet_env_def quiet_state_def searchable_layout_def plain_env_def intro!: exI [of _ "\<lambda>c. c"])

lemma quiet_layout: "quiet_state env n st \<Longrightarrow> searchable_layout n (rt_world st)"
  by (simp add: quiet_state_def)

lemma quiet_metaclass:
  assumes "quiet_state env n st" and "p < n"
  shows "metaclass_of st (infra_of p) = meta_of p"
  using layoutD [OF quiet_layout [OF assms(1)] assms(2)] by (simp add: metaclass_of_def)

lemma call_initialize_quiet:
  assumes "quiet_env env n" and "quiet_state env n st" and "silent invoke" and "meta < 2 * n"
    and "methodid \<in> {MULLE_OBJC_INITIALIZE_METHODID, MULLE_OBJC_DEINITIALIZE_METHODID}"
  shows "succeeds (mulle_objc_metaclass_call_initialize_deinitialize invoke env meta inh methodid infra st) (moves env n {} st)"
proof -
  have "0 < re_rounds env" using assms(1) by (simp add: quiet_env_def)
  moreover have "search_setting (re_search env) (re_depth env) (rt_world st) meta methodid"
    by (rule quiet_search_setting [OF assms(1,2,4)]) (use assms(5) in \<open>auto simp: c_defs\<close>)
  ultimately obtain m w where w: "search_in_class env meta (mulle_objc_searcharguments_make_default methodid) inh st =
      Inr (m, set_world w st)" "same_methods (rt_world st) w"
    using search_in_class_default by blast
  note found = only_calls_search [OF w(2)]
  have "succeeds (case m of None \<Rightarrow> Inr (set_world w st)
      | Some p \<Rightarrow> invoke_class_method invoke env methodid meta infra p (set_world w st)) (moves env n {} st)"
  proof (cases m)
    case None
    then show ?thesis using only_calls_moves [OF found assms(2)] by simp
  next
    case (Some p)
    then show ?thesis
      using invoke_silent [OF assms(3), of env methodid meta infra p "set_world w st"] only_calls_trans [OF found]
        only_calls_moves [OF _ assms(2)]
      by (force simp: succeeds_def)
  qed
  then show ?thesis
    by (simp add: mulle_objc_metaclass_call_initialize_deinitialize_def w(1))
qed

lemma mixins_in_heap:
  assumes "quiet_state env n st" and "p < n" and "m \<in> set (mixins_of st (infra_of p))"
  shows "\<exists>q < n. m = infra_of q"
  using layoutD [OF quiet_layout [OF assms(1)] assms(2)] assms(3) by (auto simp: mixins_of_def Let_def)

lemma call_mixins_quiet:
  assumes "quiet_env env n" and "silent invoke"
  shows "quiet_state env n st \<Longrightarrow> p < n \<Longrightarrow> p < k \<Longrightarrow> \<not> state_bit st (infra_of p) CLASS_STATE_IS_MIXIN \<Longrightarrow>
    succeeds (mulle_objc_infraclass_call_mixins_initialize invoke env k (infra_of p) infra st) (moves env n {} st)"
proof (induction k arbitrary: p st)
  case (Suc k)
  have super: "succeeds (case sc_superclass (class_at st (infra_of p)) of None \<Rightarrow> Inr st
      | Some super \<Rightarrow> mulle_objc_infraclass_call_mixins_initialize invoke env k super infra st) (moves env n {} st)"
  proof (cases "sc_superclass (class_at st (infra_of p))")
    case None
    then show ?thesis using moves_refl [OF Suc.prems(1)] by simp
  next
    case (Some super)
    have layout: "searchable_layout n (rt_world st)" using Suc.prems(1) by (simp add: quiet_state_def)
    obtain q where q: "q < p" "super = infra_of q" and "sc_state (class_at st super) AND CLASS_STATE_IS_MIXIN = 0"
      using layoutD(8) [OF layout Suc.prems(2) Some] by blast
    then show ?thesis using Suc.IH [OF Suc.prems(1), of q] Suc.prems(2,3) Some
      by (simp add: mulle_objc_class_get_state_bit_def)
  qed
  show ?case
    unfolding mulle_objc_infraclass_call_mixins_initialize.simps
  proof (rule succeeds_assert [OF Suc.prems(4)], rule succeeds_bind [OF super], rule succeeds_each)
    fix st1 mixin st2
    assume st1: "moves env n {} st st1" and mixin: "mixin \<in> set (mixins_of st1 (infra_of p))" and st2: "moves env n {} st st2"
    obtain q where q: "q < n" "mixin = infra_of q" using mixins_in_heap [OF moves_quiet [OF st1] Suc.prems(2) mixin] by blast
    have "metaclass_of st2 mixin < 2 * n" using q quiet_metaclass [OF moves_quiet [OF st2]] by simp
    then show "succeeds (mulle_objc_metaclass_call_initialize_deinitialize invoke env (metaclass_of st2 mixin)
        (NOT DONT_INHERIT_CLASS) MULLE_OBJC_INITIALIZE_METHODID infra st2) (moves env n {} st)"
      by (rule succeeds_mono [OF call_initialize_quiet [OF assms(1) moves_quiet [OF st2] assms(2)]])
        (use moves_trans [OF st2] in auto)
  qed
qed simp

lemma infraclass_call_initialize_quiet:
  assumes "quiet_env env n" and "quiet_state env n st" and "silent invoke" and "p < n"
  shows "succeeds (mulle_objc_infraclass_call_initialize invoke env (infra_of p) st) (moves env n {} st)"
proof (cases "state_bit st (infra_of p) CLASS_STATE_IS_MIXIN")
  case True
  then show ?thesis using moves_refl [OF assms(2)] by (simp add: mulle_objc_infraclass_call_initialize_def)
next
  case False
  have depth: "p < re_depth env" using assms(1,4) by (simp add: quiet_env_def)
  have "succeeds (mulle_objc_infraclass_call_mixins_initialize invoke env (re_depth env) (infra_of p) (infra_of p) st1)
      (moves env n {} st)" if st1: "moves env n {} st st1" for st1
  proof -
    have same: "same_program (rt_world st) (rt_world st1)" using st1 by (simp add: moves_def)
    have "\<not> state_bit st1 (infra_of p) CLASS_STATE_IS_MIXIN"
      using False by (simp add: mulle_objc_class_get_state_bit_def same_programD(7) [OF same])
    from succeeds_mono [OF call_mixins_quiet [OF assms(1,3) moves_quiet [OF st1] assms(4) depth this]]
    show ?thesis using moves_trans [OF st1] by blast
  qed
  then show ?thesis
    unfolding mulle_objc_infraclass_call_initialize_def Let_def using False
    by (auto intro!: succeeds_bind [OF call_initialize_quiet [OF assms(1-3)]]
        simp: quiet_metaclass [OF assms(2,4)] assms(4))
qed

lemma call_initialize_self_quiet:
  assumes "quiet_env env n" and "quiet_state env n st" and "silent invoke" and "p < n"
  shows "succeeds (mulle_objc_infraclass_call_initialize_self invoke env (Suc (Suc (Suc k))) (infra_of p) st) (moves env n {} st)"
proof (cases "state_bit st (infra_of p) CLASS_STATE_IS_MIXIN")
  case True
  then show ?thesis using moves_refl [OF assms(2)] by (simp add: mulle_objc_infraclass_call_initialize_self_def)
next
  case False
  let ?meta = "meta_of p"
  have set: "search_setting (re_search env) (re_depth env) (rt_world st) ?meta MULLE_OBJC_INITIALIZESELF_METHODID"
    by (rule quiet_search_setting [OF assms(1,2)]) (use assms(4) in \<open>auto simp: c_defs\<close>)
  have rounds: "0 < re_rounds env" using assms(1) by (simp add: quiet_env_def)
  have "distinct (rev (sc_methodlists (class_at st ?meta)))" using assms(2) by (simp add: quiet_state_def searchable_layout_def)
  from call_all_methods_two [OF assms(3) rounds set only_calls_lock own_methods_in_order [OF search_setting_depth [OF set]] distinct_hits [OF this]]
  show ?thesis
    using False only_calls_moves [OF _ assms(2)] quiet_metaclass [OF assms(2,4)]
    by (fastforce simp: mulle_objc_infraclass_call_initialize_self_def Let_def succeeds_def)
qed
definition sets_up_quietly :: "'imp runtime_env \<Rightarrow> nat \<Rightarrow> nat \<Rightarrow> 'imp class_setup \<Rightarrow> bool" where
  "sets_up_quietly env n k setup \<longleftrightarrow> (\<forall>c s. c < 2 * n \<and> quiet_state env n s \<and> todo n s + 2 < k \<longrightarrow>
     succeeds (setup c s) (\<lambda>(_, t). moves env n {} s t))"

lemma setup_if_needed_quiet:
  assumes "sets_up_quietly env n k setup" and "quiet_state env n st" and "todo n st + 2 < k" and "c < 2 * n"
  shows "succeeds (mulle_objc_infraclass_setup_if_needed setup c st) (moves env n {} st)"
proof -
  have "succeeds (setup c st) (\<lambda>(_, t). moves env n {} st t)" using assms by (simp add: sets_up_quietly_def)
  then have "succeeds (u_bind (setup c st) (\<lambda>(_, st1). Inr st1)) (moves env n {} st)" by (rule succeeds_bind) auto
  then show ?thesis using moves_refl [OF assms(2)] by (simp add: mulle_objc_infraclass_setup_if_needed_def)
qed

lemma setup_superclasses_quiet:
  assumes "sets_up_quietly env n k setup" and "quiet_state env n st" and "todo n st + 2 < k" and "p < n"
  shows "succeeds (mulle_objc_infraclass_setup_superclasses setup (infra_of p) st) (moves env n {} st)"
proof -
  have needed: "succeeds (mulle_objc_infraclass_setup_if_needed setup c t) (moves env n {} st)"
    if t: "moves env n {} st t" and c: "c < 2 * n" for c t
  proof -
    have "todo n t + 2 < k" using todo_moves [OF t] assms(3) by simp
    then show ?thesis
      by (rule succeeds_mono [OF setup_if_needed_quiet [OF assms(1) moves_quiet [OF t] _ c]]) (rule moves_trans [OF t])
  qed
  show ?thesis
    unfolding mulle_objc_infraclass_setup_superclasses_def
  proof (rule succeeds_bind)
    show "succeeds (u_each (mulle_objc_infraclass_setup_if_needed setup) (mixins_of st (infra_of p)) st) (moves env n {} st)"
      by (rule succeeds_each [OF needed moves_refl [OF assms(2)]]) (use mixins_in_heap [OF assms(2,4)] in force)+
    fix st1 assume st1: "moves env n {} st st1"
    show "succeeds (case sc_superclass (class_at st1 (infra_of p)) of None \<Rightarrow> Inr st1
        | Some superclass \<Rightarrow> mulle_objc_infraclass_setup_if_needed setup superclass st1) (moves env n {} st)"
    proof (cases "sc_superclass (class_at st1 (infra_of p))")
      case (Some super)
      obtain q where "q < p" "super = infra_of q"
        using layoutD(8) [OF quiet_layout [OF moves_quiet [OF st1]] assms(4) Some] by blast
      then show ?thesis using Some needed [OF st1] assms(4) by simp
    qed (simp add: st1)
  qed
qed

lemma metaclass_setup_superclass_quiet:
  assumes "sets_up_quietly env n k setup" and "quiet_state env n st" and "todo n st + 2 < k" and "p < n"
  shows "succeeds (mulle_objc_metaclass_setup_superclass setup (meta_of p) st) (moves env n {} st)"
proof -
  note layout = quiet_layout [OF assms(2)]
  obtain super where super: "super < 2 * n" "sc_superclass (class_at st (meta_of p)) = Some super"
    using layoutD(9) [OF layout assms(4)] by blast
  have "(case sc_infraclass (class_at st super) of Some infra \<Rightarrow> infra | None \<Rightarrow> super) < 2 * n"
    using super(1) by (cases rule: place_cases) (auto simp: layoutD [OF layout])
  then show ?thesis
    using super(2) setup_if_needed_quiet [OF assms(1-3)] layoutD(6) [OF layout assms(4)]
    by (simp add: mulle_objc_metaclass_setup_superclass_def mulle_objc_class_is_metaclass_def)
qed

text \<open>The class in the middle of its setup: its caches may change.\<close>

lemma cas_pivot_quiet:
  assumes "quiet_state env n st" and "p < n" and "busy st p" and "c = infra_of p \<or> c = meta_of p" and "rt_pivot st c = Some old"
  shows "succeeds (cas_pivot c new old st) (\<lambda>st'. moves env n {p} st st' \<and> rt_pivot st' = (rt_pivot st)(c := Some new))"
proof -
  let ?st = "st\<lparr> rt_pivot := (rt_pivot st)(c := Some new) \<rparr>"
  have "one_thread env n ?st"
    using assms(1-4) by (auto simp: quiet_state_def one_thread_def fresh_pivot_def)
  then show ?thesis
    using assms by (auto simp: cas_pivot_def moves_def quiet_state_def)
qed

lemma state_bit_busy: "busy (add_bits c b st) q \<longleftrightarrow> busy st q \<or> (c = infra_of q \<and> b AND CLASS_STATE_INITIALIZING \<noteq> 0)"
  by (auto simp: state_bit_add)

lemma add_bits_moves:
  assumes "quiet_state env n st" and "b AND CLASS_STATE_IS_MIXIN = 0" and "b AND CLASS_STATE_INITIALIZING = 0"
  shows "moves env n X st (add_bits c b st)"
proof -
  note same = same_program_add_bits [OF assms(2)]
  have bits: "busy (add_bits c b st) q \<longleftrightarrow> busy st q" for q using assms(3) by (simp add: state_bit_busy)
  have "one_thread env n (add_bits c b st)"
    using assms(1) unfolding quiet_state_def one_thread_def fresh_pivot_def bits add_bits_sel by blast
  then show ?thesis
    using searchable_layout_same [OF same] same assms(1) unfolding moves_def quiet_state_def bits add_bits_sel(4) by blast
qed

lemma initial_cache_quiet:
  assumes "quiet_state env n st" and "p < n" and "busy st p" and "c = infra_of p \<or> c = meta_of p"
    and "rt_pivot st c = Some (universe_empty_impcache (re_universe env))"
  shows "succeeds (mulle_objc_class_setup_initial_cache_if_needed env c callback st)
    (\<lambda>(_, st'). moves env n {p} st st' \<and> (\<forall>d. d \<noteq> c \<longrightarrow> rt_pivot st' d = rt_pivot st d))"
proof -
  have new: "succeeds (mulle_objc_class_setup_initial_cache env c callback st)
      (\<lambda>st'. moves env n {p} st st' \<and> (\<forall>d. d \<noteq> c \<longrightarrow> rt_pivot st' d = rt_pivot st d))"
  proof (cases "state_bit st c CLASS_STATE_ALWAYS_EMPTY_CACHE")
    case True
    then show ?thesis using moves_refl [OF assms(1)] by (simp add: mulle_objc_class_setup_initial_cache_def)
  next
    case False
    have "succeeds (cas_pivot c a (universe_empty_impcache (re_universe env))
        (st\<lparr> rt_heap := h, rt_universe := (rt_universe st)\<lparr> u_cachecount := Suc (u_cachecount (rt_universe st)) \<rparr> \<rparr>))
      (\<lambda>st'. moves env n {p} st st' \<and> (\<forall>d. d \<noteq> c \<longrightarrow> rt_pivot st' d = rt_pivot st d))" for a h
    proof -
      let ?st = "st\<lparr> rt_heap := h, rt_universe := (rt_universe st)\<lparr> u_cachecount := Suc (u_cachecount (rt_universe st)) \<rparr> \<rparr>"
      have "quiet_state env n ?st" using assms(1)
        unfolding quiet_state_def one_thread_def fresh_pivot_def mulle_objc_class_get_state_bit_def by simp
      then have "moves env n {p} st ?st" by (simp add: moves_def mulle_objc_class_get_state_bit_def)
      moreover have "succeeds (cas_pivot c a (universe_empty_impcache (re_universe env)) ?st)
          (\<lambda>st'. moves env n {p} ?st st' \<and> rt_pivot st' = (rt_pivot ?st)(c := Some a))"
        by (rule cas_pivot_quiet [OF \<open>quiet_state env n ?st\<close> assms(2) _ assms(4)])
          (use assms(3,5) in \<open>simp_all add: mulle_objc_class_get_state_bit_def\<close>)
      ultimately show ?thesis by (elim succeeds_mono) (auto intro: moves_trans)
    qed
    then show ?thesis
      using False by (simp add: mulle_objc_class_setup_initial_cache_def Let_def case_prod_unfold)
  qed
  have "succeeds (u_bind (mulle_objc_class_setup_initial_cache env c callback st) (\<lambda>st1.
      u_bind (set_class_bit c CLASS_STATE_CACHE_READY st1) (\<lambda>(_, st2). Inr (True, st2))))
    (\<lambda>(_, st'). moves env n {p} st st' \<and> (\<forall>d. d \<noteq> c \<longrightarrow> rt_pivot st' d = rt_pivot st d))"
  proof (rule succeeds_bind [OF new])
    fix st1 assume st1: "moves env n {p} st st1 \<and> (\<forall>d. d \<noteq> c \<longrightarrow> rt_pivot st1 d = rt_pivot st d)"
    have "moves env n {p} st1 (add_bits c CLASS_STATE_CACHE_READY st1)"
      by (rule add_bits_moves [OF moves_quiet]) (use st1 in \<open>auto simp: c_defs\<close>)
    then show "succeeds (u_bind (set_class_bit c CLASS_STATE_CACHE_READY st1) (\<lambda>(_, st2). Inr (True, st2)))
        (\<lambda>(_, st'). moves env n {p} st st' \<and> (\<forall>d. d \<noteq> c \<longrightarrow> rt_pivot st' d = rt_pivot st d))"
      using st1 moves_trans by (auto simp: set_class_bit_eq c_defs)
  qed
  then show ?thesis using moves_refl [OF assms(1)] by (simp add: mulle_objc_class_setup_initial_cache_if_needed_def)
qed
lemma moves_step:
  assumes "moves env n X st st1" and "succeeds m (moves env n {} st1)" and "\<And>st2. moves env n {} st1 st2 \<Longrightarrow> moves env n X st st2 \<Longrightarrow> succeeds (f st2) Q"
  shows "succeeds (u_bind m f) Q"
  using assms(2) by (rule succeeds_bind) (use assms(1,3) moves_then in blast)

definition pivots_are :: "'imp runtime_state \<Rightarrow> nat \<Rightarrow> nat \<Rightarrow> bool" where
  "pivots_are st p a \<longleftrightarrow> rt_pivot st (infra_of p) = Some a \<and> rt_pivot st (meta_of p) = Some a"

lemma pivots_kept: "moves env n {} st st' \<Longrightarrow> p < n \<Longrightarrow> busy st p \<Longrightarrow> pivots_are st p a \<Longrightarrow> pivots_are st' p a"
  by (simp add: moves_def pivots_are_def)

lemma busy_kept: "moves env n X st st' \<Longrightarrow> p < n \<Longrightarrow> busy st p \<Longrightarrow> busy st' p"
  by (simp add: moves_def)

lemma initialize_caches_quiet:
  assumes "quiet_state env n st" and "p < n" and "busy st p" and "pivots_are st p (universe_initial_impcache (re_universe env))"
    and "\<And>st'. moves env n {p} st st' \<Longrightarrow> pivots_are st' p (universe_empty_impcache (re_universe env)) \<Longrightarrow> succeeds (f st') Q"
  shows "succeeds (u_bind (mulle_objc_class_setup_initialize_cache env (meta_of p) st) (\<lambda>st1.
    u_bind (mulle_objc_class_setup_initialize_cache env (infra_of p) st1) f)) Q"
  unfolding mulle_objc_class_setup_initialize_cache_def
proof (rule succeeds_bind [OF cas_pivot_quiet [OF assms(1-3), of "meta_of p"]])
  fix st1 assume st1: "moves env n {p} st st1 \<and> rt_pivot st1 = (rt_pivot st)(meta_of p := Some (universe_empty_impcache (re_universe env)))"
  then have move: "moves env n {p} st st1" by simp
  show "succeeds (u_bind (cas_pivot (infra_of p) (universe_empty_impcache (re_universe env))
      (universe_initial_impcache (re_universe env)) st1) f) Q"
    by (rule succeeds_bind [OF cas_pivot_quiet [OF moves_quiet [OF move] assms(2) busy_kept [OF move assms(2,3)], of "infra_of p"]])
      (use st1 assms(4,5) moves_trans [OF move] in \<open>auto simp: pivots_are_def\<close>)
qed (use assms(4) in \<open>auto simp: pivots_are_def\<close>)

lemma initial_caches_quiet:
  assumes "quiet_state env n st" and "p < n" and "busy st p" and "pivots_are st p (universe_empty_impcache (re_universe env))"
    and "\<And>st'. moves env n {p} st st' \<Longrightarrow> succeeds (f st') Q"
  shows "succeeds (u_bind (mulle_objc_class_setup_initial_cache_if_needed env (meta_of p) cb st) (\<lambda>(_, st1).
    u_bind (mulle_objc_class_setup_initial_cache_if_needed env (infra_of p) cb st1) (\<lambda>(_, st2). f st2))) Q"
proof (rule succeeds_bind [OF initial_cache_quiet [OF assms(1-3), of "meta_of p"]], goal_cases)
  case (3 x)
  obtain changed st1 where x: "x = (changed, st1)" by (cases x)
  with 3 have st1: "moves env n {p} st st1" "rt_pivot st1 (infra_of p) = rt_pivot st (infra_of p)" by simp_all
  have "succeeds (u_bind (mulle_objc_class_setup_initial_cache_if_needed env (infra_of p) cb st1) (\<lambda>(_, st2). f st2)) Q"
    by (rule succeeds_bind [OF initial_cache_quiet [OF moves_quiet [OF st1(1)] assms(2) busy_kept [OF st1(1) assms(2,3)], of "infra_of p"]])
      (use st1 assms(4,5) moves_trans [OF st1(1)] in \<open>auto simp: pivots_are_def\<close>)
  then show ?case by (simp add: x)
qed (use assms(4) in \<open>auto simp: pivots_are_def\<close>)

lemma class_setup_first_quiet:
  assumes "quiet_env env n" and "sets_up_quietly env n j setup" and "silent invoke" and "quiet_state env n st" and "p < n"
    and "busy st p" and "todo n st + 2 < j" and "pivots_are st p (universe_initial_impcache (re_universe env))"
  shows "succeeds (class_setup_first setup invoke env (Suc (Suc (Suc k))) (infra_of p) st) (moves env n {p} st)"
proof -
  note busy = busy_kept [OF _ assms(5,6)]
  have left: "todo n st' + 2 < j" if "moves env n {p} st st'" for st' using todo_moves [OF that] assms(7) by simp
  have finish: "succeeds (u_bind (set_class_bit (infra_of p) CLASS_STATE_INITIALIZE_DONE st8) (\<lambda>(_, st9). Inr st9)) (moves env n {p} st)"
    if st8: "moves env n {p} st st8" for st8
    using moves_then [OF st8 add_bits_moves [OF moves_quiet [OF st8], of CLASS_STATE_INITIALIZE_DONE]]
    by (simp add: set_class_bit_eq c_defs)
  have caches: "succeeds (u_bind (mulle_objc_class_setup_initial_cache_if_needed env (meta_of p) None st6) (\<lambda>(_, st7).
      u_bind (mulle_objc_class_setup_initial_cache_if_needed env (infra_of p) None st7) (\<lambda>(_, st8).
      u_bind (set_class_bit (infra_of p) CLASS_STATE_INITIALIZE_DONE st8) (\<lambda>(_, st9). Inr st9)))) (moves env n {p} st)"
    if st6: "moves env n {p} st st6" "pivots_are st6 p (universe_empty_impcache (re_universe env))" for st6
    by (rule initial_caches_quiet [OF moves_quiet [OF st6(1)] assms(5) busy [OF st6(1)] st6(2)])
      (rule finish [OF moves_trans [OF st6(1)]])
  have calls: "succeeds (u_bind (mulle_objc_infraclass_call_initialize_self invoke env (Suc (Suc (Suc k))) (infra_of p) st4) (\<lambda>st5.
      u_bind (mulle_objc_infraclass_call_initialize invoke env (infra_of p) st5) (\<lambda>st6.
      u_bind (mulle_objc_class_setup_initial_cache_if_needed env (meta_of p) None st6) (\<lambda>(_, st7).
      u_bind (mulle_objc_class_setup_initial_cache_if_needed env (infra_of p) None st7) (\<lambda>(_, st8).
      u_bind (set_class_bit (infra_of p) CLASS_STATE_INITIALIZE_DONE st8) (\<lambda>(_, st9). Inr st9)))))) (moves env n {p} st)"
    if st4: "moves env n {p} st st4" "pivots_are st4 p (universe_empty_impcache (re_universe env))" for st4
  proof (rule moves_step [OF st4(1) call_initialize_self_quiet [OF assms(1) moves_quiet [OF st4(1)] assms(3,5)]], rule moves_step [where X = "{p}" and st = st], assumption)
    fix st5 assume st5: "moves env n {} st4 st5" "moves env n {p} st st5"
    show "succeeds (mulle_objc_infraclass_call_initialize invoke env (infra_of p) st5) (moves env n {} st5)"
      by (rule infraclass_call_initialize_quiet [OF assms(1) moves_quiet [OF st5(2)] assms(3,5)])
    fix st6 assume st6: "moves env n {} st5 st6" "moves env n {p} st st6"
    show "succeeds (u_bind (mulle_objc_class_setup_initial_cache_if_needed env (meta_of p) None st6) (\<lambda>(_, st7).
      u_bind (mulle_objc_class_setup_initial_cache_if_needed env (infra_of p) None st7) (\<lambda>(_, st8).
      u_bind (set_class_bit (infra_of p) CLASS_STATE_INITIALIZE_DONE st8) (\<lambda>(_, st9). Inr st9)))) (moves env n {p} st)"
      by (rule caches [OF st6(2) pivots_kept [OF st6(1) assms(5) busy [OF st5(2)] pivots_kept [OF st5(1) assms(5) busy [OF st4(1)] st4(2)]]])
  qed
  show ?thesis
    unfolding class_setup_first_def Let_def quiet_metaclass [OF assms(4,5)]
  proof (rule moves_step [where X = "{p}", OF moves_refl [OF assms(4)] metaclass_setup_superclass_quiet [OF assms(2,4,7,5)]],
      rule moves_step [where X = "{p}" and st = st], assumption)
    fix st1 assume st1: "moves env n {} st st1" "moves env n {p} st st1"
    show "succeeds (mulle_objc_infraclass_setup_superclasses setup (infra_of p) st1) (moves env n {} st1)"
      by (rule setup_superclasses_quiet [OF assms(2) moves_quiet [OF st1(2)] left [OF st1(2)] assms(5)])
    fix st2 assume st2: "moves env n {} st1 st2" "moves env n {p} st st2"
    have pivots: "pivots_are st2 p (universe_initial_impcache (re_universe env))"
      by (rule pivots_kept [OF st2(1) assms(5) busy [OF st1(2)] pivots_kept [OF st1(1) assms(5,6,8)]])
    show "succeeds (u_bind (mulle_objc_class_setup_initialize_cache env (meta_of p) st2) (\<lambda>st3.
      u_bind (mulle_objc_class_setup_initialize_cache env (infra_of p) st3) (\<lambda>st4.
      u_bind (mulle_objc_infraclass_call_initialize_self invoke env (Suc (Suc (Suc k))) (infra_of p) st4) (\<lambda>st5.
      u_bind (mulle_objc_infraclass_call_initialize invoke env (infra_of p) st5) (\<lambda>st6.
      u_bind (mulle_objc_class_setup_initial_cache_if_needed env (meta_of p) None st6) (\<lambda>(_, st7).
      u_bind (mulle_objc_class_setup_initial_cache_if_needed env (infra_of p) None st7) (\<lambda>(_, st8).
      u_bind (set_class_bit (infra_of p) CLASS_STATE_INITIALIZE_DONE st8) (\<lambda>(_, st9). Inr st9)))))))) (moves env n {p} st)"
      by (rule initialize_caches_quiet [OF moves_quiet [OF st2(2)] assms(5) busy [OF st2(2)] pivots])
        (rule calls [OF moves_trans [OF st2(2)]])
  qed
qed
section \<open>Class setup succeeds\<close>

lemma class_setup_body_quiet:
  assumes "quiet_env env n" and "sets_up_quietly env n j setup" and "silent invoke" and "quiet_state env n st"
    and "cls < 2 * n" and "todo n st < j + 1 - 2" and "k = Suc (Suc (Suc i))"
  shows "succeeds (class_setup_body setup invoke env k cls st) (\<lambda>(slow, st'). moves env n {} st st' \<and>
    (slow \<longrightarrow> state_bit st (infraclass_for st cls) CLASS_STATE_INITIALIZING))"
proof -
  note layout = quiet_layout [OF assms(4)]
  obtain p where p: "p < n" "sc_classpair (class_at st cls) = p"
    using assms(5) by (cases rule: place_cases) (auto simp: layoutD [OF layout])
  note infra = layoutD(1) [OF layout p(1)]
  have registered: "env_thread_registered (re_search env) cls" using assms(1) by (simp add: quiet_env_def)
  have for_cls: "infraclass_for st cls = infra_of p" by (simp add: infraclass_for_def p(2) infra)
  show ?thesis
  proof (cases "busy st p")
    case True
    then have "rt_thread_id st p = Some (re_thread env)" using assms(4) p(1) by (simp add: quiet_state_def one_thread_def)
    then show ?thesis
      using True registered moves_refl [OF assms(4)] by (simp add: class_setup_body_def p(2) infra for_cls)
  next
    case False
    let ?locked = "st\<lparr> rt_lock := (rt_lock st)(p := True), rt_thread_id := (rt_thread_id st)(p := Some (re_thread env)) \<rparr>"
    let ?st = "add_bits (infra_of p) CLASS_STATE_INITIALIZING ?locked"
    have idle: "\<not> rt_lock st p" "fresh_pivot env st (infra_of p)" "fresh_pivot env st (meta_of p)"
      using False assms(4) p(1) by (simp_all add: quiet_state_def one_thread_def)
    have bits: "busy ?st q \<longleftrightarrow> busy st q \<or> q = p" for q
    proof -
      have "CLASS_STATE_INITIALIZING \<noteq> 0" by (simp add: c_defs)
      then show ?thesis by (auto simp: state_bit_busy)
    qed
    have same: "same_program (rt_world st) (rt_world ?st)"
      using same_program_add_bits [of CLASS_STATE_INITIALIZING ?locked "infra_of p"] by (simp add: c_defs)
    have "one_thread env n ?st"
      using assms(4) unfolding quiet_state_def one_thread_def fresh_pivot_def bits by auto
    then have quiet: "quiet_state env n ?st"
      using searchable_layout_same [OF same layout] by (simp add: quiet_state_def del: add_bits_sel(3))
    have start: "moves env n {p} st ?st"
      unfolding moves_def bits using quiet same by simp
    have left: "Suc (todo n ?st) = todo n st" by (rule todo_start [OF p(1) False bits])
    have first: "succeeds (class_setup_first setup invoke env k (infra_of p) ?st) (moves env n {p} ?st)"
      unfolding assms(7)
      by (rule class_setup_first_quiet [OF assms(1-3) quiet p(1)])
        (use left assms(6) idle bits in \<open>auto simp: pivots_are_def fresh_pivot_def\<close>)
    have marks: "set_class_bit (infra_of p) CLASS_STATE_INITIALIZING ?locked = Inr (True, ?st)"
    proof -
      have "sc_state (class_at st (infra_of p)) OR CLASS_STATE_INITIALIZING \<noteq> sc_state (class_at st (infra_of p))"
      proof
        assume "sc_state (class_at st (infra_of p)) OR CLASS_STATE_INITIALIZING = sc_state (class_at st (infra_of p))"
        moreover have "(sc_state (class_at st (infra_of p)) OR CLASS_STATE_INITIALIZING) AND CLASS_STATE_INITIALIZING =
            CLASS_STATE_INITIALIZING"
          by (rule bit_word_eqI) (auto simp: bit_or_iff bit_and_iff)
        ultimately have "sc_state (class_at st (infra_of p)) AND CLASS_STATE_INITIALIZING = CLASS_STATE_INITIALIZING" by simp
        then show False using False by (simp add: mulle_objc_class_get_state_bit_def c_defs)
      qed
      then show ?thesis using set_class_bit_eq [of CLASS_STATE_INITIALIZING "infra_of p" ?locked] by (simp add: c_defs)
    qed
    have unlock: "moves env n {} st (st3\<lparr> rt_lock := l \<rparr>)" if st3: "moves env n {p} ?st st3" and l: "l = (rt_lock st3)(p := False)" for st3 l
    proof -
      have all: "moves env n {p} st st3" by (rule moves_trans [OF start st3])
      have "quiet_state env n (st3\<lparr> rt_lock := l \<rparr>)"
        using moves_quiet [OF st3] l unfolding quiet_state_def one_thread_def fresh_pivot_def by auto
      then show ?thesis using all False by (auto simp: moves_def)
    qed
    show ?thesis
      using registered False idle(1)
      by (simp add: class_setup_body_def Let_def p(2) infra marks for_cls)
        (auto intro!: succeeds_bind [OF first] unlock)
  qed
qed

lemma class_setup_quiet:
  assumes "quiet_env env n"
  shows "sets_up_quietly env n k (mulle_objc_class_setup env k)"
proof (induction k)
  case (Suc j)
  have "succeeds (mulle_objc_class_setup env (Suc j) c s) (\<lambda>(_, t). moves env n {} s t)"
    if c: "c < 2 * n" "quiet_state env n s" "todo n s + 2 < Suc j" for c s
  proof -
    obtain i where j: "j = Suc (Suc i)" using c(3) by (cases j; cases "j - 1") auto
    have "silent (run_implementation env j)" using assms by (simp add: silent_def j quiet_env_def)
    then have "succeeds (class_setup_body (mulle_objc_class_setup env j) (run_implementation env j) env (Suc j) c s)
        (\<lambda>(slow, st'). moves env n {} s st' \<and> (slow \<longrightarrow> state_bit s (infraclass_for s c) CLASS_STATE_INITIALIZING))"
      by (rule class_setup_body_quiet [OF assms Suc.IH _ c(2,1)]) (use c(3) j in simp_all)
    then show ?thesis unfolding mulle_objc_class_setup.simps by (rule succeeds_mono) auto
  qed
  then show ?case by (simp add: sets_up_quietly_def)
qed (simp add: sets_up_quietly_def)

text \<open>The classes that the loader built lie in the heap like this.\<close>

lemma universe_ok_layout:
  assumes "universe_ok u" and "searchable_world (u_world u) 0"
    and "\<forall>c. distinct (sc_methodlists (u_search_class u c))"
    and "\<forall>p super. sc_superclass (u_search_class u (infra_of p)) = Some super \<longrightarrow>
      sc_state (u_search_class u super) AND CLASS_STATE_IS_MIXIN = 0"
  shows "searchable_layout (u_n_pairs u) (u_world u)"
proof -
  have "pair_layout (u_n_pairs u) (u_world u) p" if "p < u_n_pairs u" for p
  proof -
    have ok: "pair_ok u p" by (rule universe_okD(1) [OF assms(1) that])
    have "\<forall>m \<in> set (pair_mixins (u_search_pair u p)). \<exists>q < u_n_pairs u. m = infra_of q"
      using ok universe_okD(4) [OF assms(1)] by (auto simp: pair_ok_def Let_def)
    moreover have "case sc_superclass (u_search_class u (infra_of p)) of
        None \<Rightarrow> sc_superclass (u_search_class u (meta_of p)) = Some (infra_of p)
      | Some super \<Rightarrow> sc_state (u_search_class u super) AND CLASS_STATE_IS_MIXIN = 0 \<and>
          (\<exists>q < p. super = infra_of q \<and> sc_superclass (u_search_class u (meta_of p)) = Some (meta_of q))"
      using ok assms(4) by (auto simp: pair_ok_def Let_def split: option.splits)
    ultimately show ?thesis by (simp add: pair_layout_def pair_okD [OF ok])
  qed
  then show ?thesis using assms universe_ok_ranked by (simp add: searchable_layout_def)
qed

lemma quiet_runs_silent:
  assumes "quiet_env env n"
  shows "silent (run_implementation env (Suc k))"
  using assms by (simp add: silent_def quiet_env_def)

lemma todo_le: "todo n st \<le> n"
proof -
  have "todo n st \<le> card {..<n}" unfolding todo_def by (rule card_mono) auto
  then show ?thesis by simp
qed

lemma class_setup_succeeds_quiet:
  assumes "universe_ok (rt_universe st)" and n: "n = u_n_pairs (rt_universe st)"
    and "quiet_env env n" and "objects_of (rt_universe st) env"
    and "quiet_state env n st" and "cls < 2 * n" and "n + 2 < k"
    and new: "\<not> state_bit st (infraclass_for st cls) CLASS_STATE_INITIALIZING"
      "\<not> state_bit st (infraclass_for st cls) CLASS_STATE_INITIALIZE_DONE"
  shows "succeeds (mulle_objc_class_setup env k cls st)
    (\<lambda>(slow, st'). \<not> slow \<and> moves env n {} st st' \<and> initialized st' (infraclass_for st cls))"
proof -
  obtain i where k: "k = Suc (Suc (Suc i))" using assms(7) by (cases k; cases "k - 1"; cases "k - 2") auto
  note plain = assms(3) [unfolded quiet_env_def, THEN conjunct1]
  have "succeeds (class_setup_body (mulle_objc_class_setup env (Suc (Suc i))) (run_implementation env (Suc (Suc i))) env k cls st)
      (\<lambda>(slow, st'). moves env n {} st st' \<and> (slow \<longrightarrow> state_bit st (infraclass_for st cls) CLASS_STATE_INITIALIZING))"
    by (rule class_setup_body_quiet [OF assms(3) class_setup_quiet [OF assms(3)] quiet_runs_silent [OF assms(3)] assms(5,6) _ k])
      (use todo_le [of n st] assms(7) k in simp)
  moreover have "u_holds (class_setup_body (mulle_objc_class_setup env (Suc (Suc i))) (run_implementation env (Suc (Suc i))) env k cls st)
      (setup_answers env cls st)"
    by (rule class_setup_body_answers [OF conjunct1 [OF runtime_contracts] conjunct2 [OF runtime_contracts] plain
        universe_ok_hierarchy [OF assms(1)]])
      (use plain assms(4,6) n in simp_all)
  moreover have "mulle_objc_class_setup env k cls st =
      class_setup_body (mulle_objc_class_setup env (Suc (Suc i))) (run_implementation env (Suc (Suc i))) env k cls st"
    by (simp add: k)
  ultimately show ?thesis using new by (auto simp: succeeds_def u_holds_def setup_answers_def)
qed

text \<open>C4: Setting a class up comes to an end and succeeds, for any hierarchy of superclasses and mixins that
  the loader builds (no mixin is a superclass) and whichever of its classes are initialized already, when the implementations of
  +initialize and +initializeSelf send no messages and no other thread sets classes up: it returns
  with the class initialized and its caches ready. Recursion is no deeper than the number of classes
  that are still to be set up.\<close>

theorem class_setup_succeeds:
  assumes "universe_ok (rt_universe st)" and "objects_of (rt_universe st) env"
    and "quiet_env env (u_n_pairs (rt_universe st))" and "one_thread env (u_n_pairs (rt_universe st)) st"
    and "searchable_world (rt_world st) 0" and "\<forall>c. distinct (sc_methodlists (class_at st c))"
    and "\<forall>p super. sc_superclass (class_at st (infra_of p)) = Some super \<longrightarrow> \<not> state_bit st super CLASS_STATE_IS_MIXIN"
    and "cls < 2 * u_n_pairs (rt_universe st)" and "u_n_pairs (rt_universe st) + 2 < k"
    and "\<not> state_bit st (infraclass_for st cls) CLASS_STATE_INITIALIZING"
    and "\<not> state_bit st (infraclass_for st cls) CLASS_STATE_INITIALIZE_DONE"
  shows "\<exists>st'. mulle_objc_class_setup env k cls st = Inr (False, st') \<and> initialized st' (infraclass_for st cls)"
proof -
  have "searchable_layout (u_n_pairs (rt_universe st)) (rt_world st)"
    using universe_ok_layout [OF assms(1,5,6)] assms(7) by (simp add: mulle_objc_class_get_state_bit_def)
  then have "quiet_state env (u_n_pairs (rt_universe st)) st" using assms(4) by (simp add: quiet_state_def)
  from class_setup_succeeds_quiet [OF assms(1) refl assms(3,2) this assms(8-11)] show ?thesis
    by (auto simp: succeeds_def)
qed

end
