(* ===== verification/Class_Setup_Example.thy ===== *)
theory Class_Setup_Example
  imports Class_Setup_Returns Message_Example
begin

text \<open>
  A universe to apply the properties of class initialization to: the root class \<open>A\<close> (classes 0 and 1 of
  the heap), the mixin \<open>M\<close> (2 and 3) and the class \<open>B\<close> (4 and 5), which is below \<open>A\<close> and adopts \<open>M\<close>.
  \<open>B\<close> has two categories; all three have a \<open>+initializeSelf\<close>, as has \<open>A\<close>. Object 16 is an instance of \<open>B\<close>.
\<close>

declare cache_probe_loop.simps [code] impcachepivot_probe_loop.simps [code] mulle_objc_impcachepivot_fill.simps [code]
declare mulle_objc_class_fill_impcachepivot_imp.simps [code] call_probe_loop.simps [code]

definition setup_method :: "uint32 \<Rightarrow> nat \<Rightarrow> nat mulle_objc_method" where
  "setup_method methodid imp = \<lparr> method_descriptor = \<lparr> desc_methodid = methodid, desc_signature = ''v'', desc_name = ''run'',
     desc_bits = 0 \<rparr>, method_implementation = imp \<rparr>"

definition setup_list :: "nat \<Rightarrow> nat search_methodlist" where
  "setup_list l = \<lparr> ml_loadcategory = (if l = 2 then Some 77 else if l = 3 then Some 78 else None), ml_methods =
     (if l = 1 then [setup_method MULLE_OBJC_INITIALIZESELF_METHODID 21, setup_method MULLE_OBJC_INITIALIZE_METHODID 22]
      else if l = 2 then [setup_method MULLE_OBJC_INITIALIZESELF_METHODID 23]
      else if l = 3 then [setup_method MULLE_OBJC_INITIALIZESELF_METHODID 24]
      else if l = 4 then [setup_method MULLE_OBJC_INITIALIZESELF_METHODID 33, setup_method MULLE_OBJC_INITIALIZE_METHODID 31]
      else if l = 5 then [setup_method MULLE_OBJC_INITIALIZE_METHODID 32]
      else if l = 6 then [setup_method 5 41] else []) \<rparr>"

definition setup_class :: "nat \<Rightarrow> search_class" where
  "setup_class c = \<lparr> sc_classid = of_nat (10 + (if c < 6 then c div 2 else 3)),
     sc_superclass = (if c = 1 \<or> c = 4 then Some 0 else if c = 3 then Some 2 else if c = 5 then Some 1 else None),
     sc_infraclass = (if c < 6 \<and> odd c then Some (c - 1) else None), sc_inheritance = 0,
     sc_state = (if c = 2 then CLASS_STATE_IS_MIXIN else 0),
     sc_methodlists = (if c = 1 then [4] else if c = 3 then [5] else if c = 4 then [6] else if c = 5 then [1, 2, 3] else [0]),
     sc_classpair = c div 2, sc_forwardmethod = None \<rparr>"

definition setup_world :: "nat search_world" where
  "setup_world = \<lparr> w_class = setup_class,
     w_pair = (\<lambda>p. \<lparr> pair_infraclass = 2 * p, pair_metaclass = 2 * p + 1, pair_mixins = (if p = 2 then [2] else []) \<rparr>),
     w_list = setup_list \<rparr>"

definition setup_universe :: "nat universe" where
  "setup_universe = empty_universe\<lparr> u_world := setup_world, u_n_pairs := 3, u_n_lists := 7,
     u_class := (\<lambda>c. \<lparr> class_name = [CHR ''A''], class_isa = (if c = 0 then 1 else if c = 1 then 0 else if c = 2 then 3
        else if c = 3 then 2 else if c = 4 then 5 else 0), class_superclassid = 0, class_allocationsize = 0,
        class_headerextrasize = 0, class_ivarhash = 0, class_ivarlists = [], class_propertylists = [] \<rparr>),
     u_classtable := [(10, 0), (11, 2), (12, 4)] \<rparr>"

definition setup_env :: "(nat \<Rightarrow> uintptr \<Rightarrow> message list) \<Rightarrow> nat runtime_env" where
  "setup_env messages = \<lparr> re_search = example_env, re_depth = 8, re_rounds = 1, re_universe = send_universe,
     re_isa = (\<lambda>obj. if obj = 16 then 4 else 1), re_pointerclass = (\<lambda>i. 4), re_thread = 7,
     re_will_init_cache = None, re_address = (\<lambda>c. of_nat (32 + 16 * c)), re_messages = messages \<rparr>"

definition setup_state :: "nat runtime_state" where
  "setup_state = \<lparr> rt_universe = setup_universe, rt_pivot = (\<lambda>c. Some 1),
     rt_heap = \<lparr> heap_blocks = [send_impcache mulle_objc_impcache_callback_empty,
         send_impcache mulle_objc_impcache_callback_initial], heap_freed = [], heap_abafreed = [] \<rparr>,
     rt_thread_id = (\<lambda>p. None), rt_lock = (\<lambda>p. False), rt_propertylock = (\<lambda>c. False), rt_calls = [] \<rparr>"

text \<open>
  The main implementation 100 sends the message 5 to the object 16. The \<open>+initialize\<close> of \<open>A\<close>, its
  superclass, and of \<open>B\<close> itself send it as well, while \<open>B\<close> is being initialized.
\<close>

definition circular_messages :: "nat \<Rightarrow> uintptr \<Rightarrow> message list" where
  "circular_messages imp obj = (if imp = 100 \<or> imp = 22 \<or> imp = 31 then [Message 16 5] else [])"

lemma circular_run:
  "case run_implementation (setup_env circular_messages) 14 100 16 setup_state of
     Inl e \<Rightarrow> False | Inr st \<Rightarrow> map (\<lambda>(methodid, meta, infra, imp). imp) (rt_calls st) = [33, 31, 24, 23, 22, 32]"
  by code_simp

text \<open>Here the \<open>+initializeSelf\<close> of \<open>A\<close> sends a message to an instance of \<open>B\<close>, as the setup of \<open>A\<close> begins.\<close>

definition early_messages :: "nat \<Rightarrow> uintptr \<Rightarrow> message list" where
  "early_messages imp obj = (if imp = 33 then [Message 16 5] else [])"

text \<open>C23: A class may run its +initialize before its superclass does: when the +initializeSelf of the
  superclass (33) messages the subclass, the subclass is set up to the end, its +initialize (22)
  included, while the +initialize of the superclass (31) has not been messaged.\<close>

theorem subclass_may_initialize_first:
  "\<exists>st'. mulle_objc_class_setup (setup_env early_messages) 14 0 setup_state = Inr (False, st') \<and>
     initialized st' 0 \<and> initialized st' 4 \<and>
     map (\<lambda>(methodid, meta, infra, imp). imp) (rt_calls st') = [33, 24, 23, 22, 32, 31]"
proof -
  have "case mulle_objc_class_setup (setup_env early_messages) 14 0 setup_state of
     Inl e \<Rightarrow> False
   | Inr (slow, st) \<Rightarrow> \<not> slow \<and> initialized st 0 \<and> initialized st 4 \<and>
       map (\<lambda>(methodid, meta, infra, imp). imp) (rt_calls st) = [33, 24, 23, 22, 32, 31]"
    by code_simp
  then show ?thesis by (auto split: sum.splits)
qed

text \<open>What the properties ask of the universe, the program and the state.\<close>

lemma setup_state_sel [simp]: "rt_universe setup_state = setup_universe" "rt_calls setup_state = []"
  by (simp_all add: setup_state_def)

lemma setup_universe_sel [simp]:
  "u_world setup_universe = setup_world" "u_n_pairs setup_universe = 3"
  "w_class setup_world = setup_class" "w_list setup_world = setup_list"
  by (simp_all add: setup_universe_def setup_world_def)

lemma less_3: "p < 3 \<longleftrightarrow> p = 0 \<or> p = 1 \<or> p = (2::nat)"
  by auto

lemma setup_universe_ok: "universe_ok setup_universe"
  unfolding universe_ok_def
proof (intro conjI allI impI)
  fix p assume "p < u_n_pairs setup_universe"
  then have "p = 0 \<or> p = 1 \<or> p = 2" by (simp add: less_3)
  then show "pair_ok setup_universe p"
    by (elim disjE) (simp_all add: pair_ok_def Let_def registered_def setup_class_def setup_world_def setup_universe_def
      infra_of_def meta_of_def c_defs exI [of _ "0::nat"] exI [of _ "10 :: uint32"] exI [of _ "11 :: uint32"])
qed (auto simp: setup_class_def setup_universe_def empty_universe_def less_3 infra_of_def ex_disj_distrib conj_disj_distribR split: if_splits)

lemma setup_plain: "plain_env (setup_env messages)"
  by (simp add: plain_env_def setup_env_def example_env_def)

lemma setup_objects: "objects_of setup_universe (setup_env messages)"
  by (simp add: objects_in_def setup_env_def mulle_objc_object_get_isa_def Let_def)

lemma setup_searchable: "searchable_world setup_world 0"
proof -
  have "of_nat (10 + (if c < 6 then c div 2 else 3)) \<noteq> (0 :: uint32)" for c :: nat
  proof -
    have "c < 6 \<Longrightarrow> c = 0 \<or> c = 1 \<or> c = 2 \<or> c = 3 \<or> c = 4 \<or> c = 5" by auto
    then show ?thesis by (cases "c < 6") auto
  qed
  then show ?thesis
    by (simp add: searchable_world_def searchable_list_def setup_list_def setup_class_def setup_method_def c_defs
      mulle_objc_descriptor_is_hidden_override_fatal_def)
qed

lemma setup_quiet: "quiet_env (setup_env (\<lambda>imp obj. [])) 3"
  by (simp add: quiet_env_def setup_plain) (simp add: setup_env_def example_env_def)

lemma setup_idle [simp]: "mulle_objc_class_get_state_bit setup_universe c b \<longleftrightarrow> c = 2 \<and> CLASS_STATE_IS_MIXIN AND b \<noteq> 0"
  by (simp add: mulle_objc_class_get_state_bit_def setup_class_def)

lemma setup_one_thread: "one_thread (setup_env messages) n setup_state"
  by (simp add: one_thread_def fresh_pivot_def c_defs) (simp add: setup_state_def setup_env_def send_universe_def)

lemma setup_infra: "infraclass_for setup_state 4 = 4"
  by (simp add: infraclass_for_def setup_class_def setup_world_def)

lemma setup_distinct: "distinct (sc_methodlists (setup_class c))"
  by (simp add: setup_class_def)

lemma setup_superclass:
  "\<forall>p super. sc_superclass (setup_class (infra_of p)) = Some super \<longrightarrow> sc_state (setup_class super) AND b = 0"
proof -
  have "2 * p \<noteq> 3" "2 * p \<noteq> 5" for p :: nat by presburger+
  then show ?thesis by (simp add: setup_class_def infra_of_def)
qed

section \<open>The properties at work\<close>


theorem class_setup_succeeds_witness:
  "\<exists>st'. mulle_objc_class_setup (setup_env (\<lambda>imp obj. [])) 6 4 setup_state = Inr (False, st') \<and> initialized st' 4"
  using class_setup_succeeds [of setup_state "setup_env (\<lambda>imp obj. [])" 4 6] setup_universe_ok setup_objects setup_quiet
    setup_one_thread setup_searchable setup_distinct setup_infra setup_superclass
  by (auto simp: mulle_objc_class_get_state_bit_def c_defs simp del: setup_idle) (simp_all add: setup_class_def)


text \<open>The two categories of \<open>B\<close> run (24, 23), the class itself does not (21).\<close>

theorem initialize_self_runs_only_two_witness:
  "\<exists>st'. mulle_objc_infraclass_call_initialize_self (\<lambda>imp obj s. Inr s) (setup_env circular_messages) 3 4 setup_state = Inr st' \<and>
     map (\<lambda>(methodid, meta, infra, imp). imp) (rt_calls st') = [24, 23]"
proof -
  have "ranked setup_world (\<lambda>c. c)" using universe_ok_ranked [OF setup_universe_ok] by simp
  then have set: "search_setting (re_search (setup_env circular_messages)) (re_depth (setup_env circular_messages)) setup_world 5
      MULLE_OBJC_INITIALIZESELF_METHODID"
    using setup_searchable unfolding search_setting_def setup_env_def example_env_def c_defs
    by (auto intro!: exI [of _ "\<lambda>c. c"])
  have meta: "metaclass_of setup_state 4 = 5" by (simp add: metaclass_of_def setup_class_def setup_world_def)
  have hits: "map (\<lambda>(c, p). method_implementation (world_method setup_world p)) (take 2 (hits setup_world
      MULLE_OBJC_INITIALIZESELF_METHODID (map (Pair 5) (rev (sc_methodlists (setup_class 5)))))) = [24, 23]"
    by code_simp
  show ?thesis
    using initialize_self_runs_only_two [of "\<lambda>imp obj s. Inr s" "setup_env circular_messages" setup_state 4 0]
      set meta hits setup_distinct
    by (auto simp: silent_def c_defs setup_env_def numeral_3_eq_3 comp_def case_prod_unfold)
qed

end
